(* ===== verification/Prelude.thy ===== *)
theory Prelude
  imports Main "HOL-Library.Word"
begin

text \<open>
  Shared vocabulary of the development: the ways a C or C++ operation can go wrong
  (\<open>fault\<close>), results that may be a fault, the two memory primitives every buffer of the
  program rests on (\<open>put_at\<close> and \<open>memcpy\<close>), and the generic lemmas on lists and on
  16-bit words that the component theories use.
\<close>

section \<open>Faults and results\<close>

text \<open>
  A call of the modelled code either returns or ends in one of these ways: a failing
  \<open>assert\<close>, an access outside an object, a null pointer dereference, an access to a freed
  object, a division by zero, a read of a character array that holds no terminating NUL, a use
  of a variable that was never assigned, an arithmetic operation whose result does not fit in its
  \<open>int\<close>, a computation that never ends, or a call of \<open>exit\<close>.
\<close>

datatype fault =
    AssertFail
  | OutOfBounds
  | NullDeref
  | UseAfterFree
  | DivByZero
  | Unterminated
  | Indeterminate
  | IntOverflow
  | Diverges
  | Exited

type_synonym 'a res = "fault + 'a"

definition rbind :: "'a res \<Rightarrow> ('a \<Rightarrow> 'b res) \<Rightarrow> 'b res" where
  "rbind m f = (case m of Inl e \<Rightarrow> Inl e | Inr x \<Rightarrow> f x)"

text \<open>Evaluation looks at the continuation only when the result before it is known.\<close>

declare rbind_def [code_unfold]

definition require :: "bool \<Rightarrow> fault \<Rightarrow> unit res" where
  "require b e = (if b then Inr () else Inl e)"

text \<open>The rules that carry sequential programs through the simplifier.\<close>

named_theorems res_simps \<open>rewriting of results\<close>

lemma rbind_Inl [simp]: "rbind (Inl e) f = Inl e"
  by (simp add: rbind_def)

lemma rbind_Inr [simp]: "rbind (Inr x) f = f x"
  by (simp add: rbind_def)

lemma rbind_eq_Inr [res_simps]: "rbind m f = Inr y \<longleftrightarrow> (\<exists>x. m = Inr x \<and> f x = Inr y)"
  by (cases m) auto

lemma rbind_eq_Inl [res_simps]:
  "rbind m f = Inl e \<longleftrightarrow> m = Inl e \<or> (\<exists>x. m = Inr x \<and> f x = Inl e)"
  by (cases m) auto

lemma rbindE:
  assumes "rbind m f = Inr y"
  obtains x where "m = Inr x" "f x = Inr y"
  using assms by (cases m) auto

lemma rbind_assoc [res_simps]: "rbind (rbind m f) g = rbind m (\<lambda>x. rbind (f x) g)"
  by (cases m) auto

lemma rbind_cong [fundef_cong]:
  "m = m' \<Longrightarrow> (\<And>x. m' = Inr x \<Longrightarrow> f x = g x) \<Longrightarrow> rbind m f = rbind m' g"
  by (cases m') auto

lemma require_True [simp]: "require True e = Inr ()"
  by (simp add: require_def)

lemma require_False [simp]: "require False e = Inl e"
  by (simp add: require_def)

lemma require_eq_Inr [res_simps]: "require b e = Inr u \<longleftrightarrow> b"
  by (simp add: require_def)

lemma require_eq_Inl [res_simps]: "require b e = Inl e' \<longleftrightarrow> \<not> b \<and> e' = e"
  by (auto simp: require_def)

lemma isl_rbind [res_simps]: "isl (rbind m f) \<longleftrightarrow> isl m \<or> (\<exists>x. m = Inr x \<and> isl (f x))"
  by (cases m) auto

lemma not_isl_Inr: "\<not> isl m \<Longrightarrow> \<exists>x. m = Inr x"
  by (cases m) auto

section \<open>Loops\<close>

text \<open>
  A loop that may not end is a \<^theory_text>\<open>partial_function (option)\<close> whose value is
  \<open>Some\<close> result when it ends and \<open>None\<close> when it does not; \<open>run_loop\<close> reads it as a result.
\<close>

definition run_loop :: "'a res option \<Rightarrow> 'a res" where
  "run_loop l = (case l of None \<Rightarrow> Inl Diverges | Some r \<Rightarrow> r)"

lemma run_loop_simps [simp]: "run_loop None = Inl Diverges" "run_loop (Some r) = r"
  by (simp_all add: run_loop_def)

section \<open>Memory\<close>

text \<open>\<open>put_at d xs m\<close> overwrites the cells \<open>d, d + 1, \<dots>\<close> of \<open>m\<close> with \<open>xs\<close>.\<close>

definition put_at :: "nat \<Rightarrow> 'a list \<Rightarrow> 'a list \<Rightarrow> 'a list" where
  "put_at d xs m = take d m @ xs @ drop (d + length xs) m"

text \<open>
  \<open>memcpy dst d src s n\<close> copies \<open>n\<close> cells of \<open>src\<close> from offset \<open>s\<close> into \<open>dst\<close> at
  offset \<open>d\<close>; both ranges have to lie inside their objects.
\<close>

definition memcpy :: "'a list \<Rightarrow> nat \<Rightarrow> 'a list \<Rightarrow> nat \<Rightarrow> nat \<Rightarrow> 'a list res" where
  "memcpy dst d src s n =
     (if d + n \<le> length dst \<and> s + n \<le> length src
      then Inr (put_at d (take n (drop s src)) dst)
      else Inl OutOfBounds)"

lemma length_put_at [simp]: "d + length xs \<le> length m \<Longrightarrow> length (put_at d xs m) = length m"
  by (simp add: put_at_def)

lemma take_put_at_before [simp]: "i \<le> d \<Longrightarrow> d \<le> length m \<Longrightarrow> take i (put_at d xs m) = take i m"
  by (simp add: put_at_def min_absorb1)

lemma take_put_at_through:
  "d \<le> length m \<Longrightarrow> take (d + length xs) (put_at d xs m) = take d m @ xs"
  by (simp add: put_at_def)

lemma drop_put_at_after [simp]:
  "d + length xs \<le> i \<Longrightarrow> d + length xs \<le> length m \<Longrightarrow> drop i (put_at d xs m) = drop i m"
  by (auto simp: put_at_def)

lemma drop_put_at_before:
  "i \<le> d \<Longrightarrow> d \<le> length m \<Longrightarrow>
   drop i (put_at d xs m) = take (d - i) (drop i m) @ xs @ drop (d + length xs) m"
  by (simp add: put_at_def drop_take)

lemma nth_put_at:
  "d + length xs \<le> length m \<Longrightarrow> i < length m \<Longrightarrow>
   put_at d xs m ! i = (if d \<le> i \<and> i < d + length xs then xs ! (i - d) else m ! i)"
  by (auto simp: put_at_def nth_append min_def)

lemma put_at_Nil [simp]: "put_at d [] m = m"
  by (simp add: put_at_def)

lemma memcpy_Inr:
  "d + n \<le> length dst \<Longrightarrow> s + n \<le> length src \<Longrightarrow>
   memcpy dst d src s n = Inr (put_at d (take n (drop s src)) dst)"
  by (simp add: memcpy_def)

section \<open>Words\<close>

text \<open>Unsigned additions and subtractions that do not wrap.\<close>

lemma unat_add_nowrap:
  fixes a b :: "'a::len word"
  shows "unat a + unat b < 2 ^ LENGTH('a) \<Longrightarrow> unat (a + b) = unat a + unat b"
  by (simp add: unat_word_ariths)

lemma unat_sub_nowrap:
  fixes a b :: "'a::len word"
  shows "unat b \<le> unat a \<Longrightarrow> unat (a - b) = unat a - unat b"
  by (simp add: unat_sub word_le_nat_alt)

lemma word_eq_unat: "(a :: 'a::len word) = b \<longleftrightarrow> unat a = unat b"
  by (simp add: word_unat_eq_iff)

end
