(* ===== verification/ByteBuffer.thy ===== *)
theory ByteBuffer
  imports Prelude
begin

text \<open>
  The byte ring buffer of \<^verbatim>\<open>ByteCircularBuffer.h\<close> and \<^verbatim>\<open>ByteCircularBuffer.cpp\<close>: its
  16-bit indices, every operation on them, and the queue of bytes it implements.
\<close>

type_synonym byte = "8 word"
type_synonym u16 = "16 word"

record bcb =
  buffer :: "byte list"
  buffer_size :: u16
  front :: u16
  rear :: u16
  current_size :: u16

definition BCBCreateNew :: "u16 \<Rightarrow> bcb" where
  "BCBCreateNew n =
     \<lparr>buffer = replicate (unat n) 0, buffer_size = n, front = 0, rear = 0, current_size = 0\<rparr>"

definition BCBAvailableSize :: "bcb \<Rightarrow> u16" where
  "BCBAvailableSize b = buffer_size b - current_size b"

definition BCBIsFull :: "bcb \<Rightarrow> bool" where
  "BCBIsFull b \<longleftrightarrow> current_size b = buffer_size b"

definition BCBReset :: "bcb \<Rightarrow> bcb" where
  "BCBReset b = b\<lparr>current_size := 0, front := 0, rear := 0\<rparr>"

text \<open>\<open>bcb->front += n; if (bcb->front == bcb->buffer_size) bcb->front = 0;\<close> and its twin.\<close>

definition advance :: "u16 \<Rightarrow> u16 \<Rightarrow> u16 \<Rightarrow> u16" where
  "advance limit i n = (let i' = i + n in if i' = limit then 0 else i')"

text \<open>
  The result is the returned count and the buffer; \<open>data\<close> is the object the pointer of the
  call points to.
\<close>

definition BCBWrite :: "bcb \<Rightarrow> byte list \<Rightarrow> u16 \<Rightarrow> (u16 \<times> bcb) res" where
  "BCBWrite b data data_size =
     (if BCBIsFull b then Inr (0, b)
      else if BCBAvailableSize b < data_size then Inr (0, b)
      else if front b < rear b then
        rbind (memcpy (buffer b) (unat (front b)) data 0 (unat data_size)) (\<lambda>m.
        Inr (data_size, b\<lparr>buffer := m, front := advance (buffer_size b) (front b) data_size,
                          current_size := current_size b + data_size\<rparr>))
      else
        (let leading_space = buffer_size b - front b in
         if data_size \<le> leading_space then
           rbind (memcpy (buffer b) (unat (front b)) data 0 (unat data_size)) (\<lambda>m.
           Inr (data_size, b\<lparr>buffer := m, front := advance (buffer_size b) (front b) data_size,
                             current_size := current_size b + data_size\<rparr>))
         else
           rbind (memcpy (buffer b) (unat (front b)) data 0 (unat leading_space)) (\<lambda>m.
           rbind (memcpy m 0 data (unat leading_space) (unat (data_size - leading_space))) (\<lambda>m'.
           Inr (data_size, b\<lparr>buffer := m', front := data_size - leading_space,
                             current_size := current_size b + data_size\<rparr>)))))"

text \<open>
  The result is the returned count, the caller's destination object and the buffer.
\<close>

definition BCBRead :: "bcb \<Rightarrow> byte list \<Rightarrow> u16 \<Rightarrow> bool \<Rightarrow> (u16 \<times> byte list \<times> bcb) res" where
  "BCBRead b dest data_size remove_read_bytes =
     (if current_size b < data_size then Inr (0, dest, b)
      else if rear b < front b then
        rbind (memcpy dest 0 (buffer b) (unat (rear b)) (unat data_size)) (\<lambda>d.
        Inr (data_size, d,
             if remove_read_bytes
             then b\<lparr>rear := advance (buffer_size b) (rear b) data_size,
                    current_size := current_size b - data_size\<rparr>
             else b))
      else
        (let leading_space = buffer_size b - rear b in
         if data_size \<le> leading_space then
           rbind (memcpy dest 0 (buffer b) (unat (rear b)) (unat data_size)) (\<lambda>d.
           Inr (data_size, d,
                if remove_read_bytes
                then b\<lparr>rear := advance (buffer_size b) (rear b) data_size,
                       current_size := current_size b - data_size\<rparr>
                else b))
         else
           rbind (memcpy dest 0 (buffer b) (unat (rear b)) (unat leading_space)) (\<lambda>d.
           rbind (memcpy d (unat leading_space) (buffer b) 0 (unat (data_size - leading_space)))
             (\<lambda>d'.
           Inr (data_size, d',
                if remove_read_bytes
                then b\<lparr>rear := data_size - leading_space,
                       current_size := current_size b - data_size\<rparr>
                else b)))))"

section \<open>The queue of bytes\<close>

definition contents :: "bcb \<Rightarrow> byte list" where
  "contents b =
     take (unat (current_size b))
       (drop (unat (rear b)) (buffer b) @ take (unat (rear b)) (buffer b))"

definition bcb_wf :: "bcb \<Rightarrow> bool" where
  "bcb_wf b \<longleftrightarrow>
     length (buffer b) = unat (buffer_size b) \<and>
     current_size b \<le> buffer_size b \<and>
     (rear b < buffer_size b \<or> rear b = 0) \<and>
     unat (front b) = (unat (rear b) + unat (current_size b)) mod unat (buffer_size b)"

lemma length_contents [simp]: "bcb_wf b \<Longrightarrow> length (contents b) = unat (current_size b)"
  by (auto simp: bcb_wf_def contents_def word_le_nat_alt word_less_nat_alt)

lemma bcb_wf_CreateNew [simp]: "bcb_wf (BCBCreateNew n)"
  by (simp add: bcb_wf_def BCBCreateNew_def)

lemma contents_CreateNew [simp]: "contents (BCBCreateNew n) = []"
  by (simp add: contents_def BCBCreateNew_def)

lemma bcb_wf_Reset [simp]: "bcb_wf b \<Longrightarrow> bcb_wf (BCBReset b)"
  by (simp add: bcb_wf_def BCBReset_def)

lemma contents_Reset [simp]: "contents (BCBReset b) = []"
  by (simp add: contents_def BCBReset_def)

lemma unat_u16_less: "unat (x :: u16) < 65536"
proof -
  have "unat x < 2 ^ LENGTH(16)" by (rule unsigned_less)
  then show ?thesis by simp
qed

lemma unat_advance:
  assumes "unat i + unat n \<le> unat limit"
  shows "unat (advance limit i n) = (if unat i + unat n = unat limit then 0 else unat i + unat n)"
proof -
  have "unat (i + n) = unat i + unat n"
    using assms unat_u16_less [of limit] by (intro unat_add_nowrap) simp
  then show ?thesis
    by (auto simp: advance_def Let_def word_eq_unat)
qed

lemma mod_once:
  fixes B :: nat
  assumes "r < B \<or> r = 0" "c \<le> B"
  shows "(r + c) mod B = (if r + c < B then r + c else r + c - B)"
proof (cases "r + c < B")
  case True
  then show ?thesis by simp
next
  case False
  then have "(r + c) mod B = (r + c - B) mod B" by (simp add: le_mod_geq)
  also have "\<dots> = r + c - B"
    using assms False by (cases "B = 0") auto
  finally show ?thesis using False by simp
qed

lemma bcb_wfD:
  assumes "bcb_wf b"
  shows "length (buffer b) = unat (buffer_size b)"
    and "unat (current_size b) \<le> unat (buffer_size b)"
    and "unat (rear b) \<le> unat (buffer_size b)"
    and "unat (rear b) < unat (buffer_size b) \<or> unat (rear b) = 0"
    and "unat (front b) \<le> unat (buffer_size b)"
    and "unat (front b) = (if unat (rear b) + unat (current_size b) < unat (buffer_size b)
           then unat (rear b) + unat (current_size b)
           else unat (rear b) + unat (current_size b) - unat (buffer_size b))"
proof -
  show "length (buffer b) = unat (buffer_size b)"
    and C: "unat (current_size b) \<le> unat (buffer_size b)"
    and R: "unat (rear b) < unat (buffer_size b) \<or> unat (rear b) = 0"
    using assms by (auto simp: bcb_wf_def word_le_nat_alt word_less_nat_alt)
  then show "unat (rear b) \<le> unat (buffer_size b)" by auto
  have F: "unat (front b) = (unat (rear b) + unat (current_size b)) mod unat (buffer_size b)"
    using assms by (simp add: bcb_wf_def)
  then show F': "unat (front b) = (if unat (rear b) + unat (current_size b) < unat (buffer_size b)
           then unat (rear b) + unat (current_size b)
           else unat (rear b) + unat (current_size b) - unat (buffer_size b))"
    using mod_once [OF R C] by simp
  show "unat (front b) \<le> unat (buffer_size b)"
    unfolding F' using C R by auto
qed

lemma bcb_wfI:
  assumes "length (buffer b) = unat (buffer_size b)"
    and "unat (current_size b) \<le> unat (buffer_size b)"
    and "unat (rear b) < unat (buffer_size b) \<or> unat (rear b) = 0"
    and "unat (front b) = (if unat (rear b) + unat (current_size b) < unat (buffer_size b)
           then unat (rear b) + unat (current_size b)
           else unat (rear b) + unat (current_size b) - unat (buffer_size b))"
  shows "bcb_wf b"
  using assms mod_once [of "unat (rear b)" "unat (buffer_size b)" "unat (current_size b)"]
  by (simp add: bcb_wf_def word_le_nat_alt word_less_nat_alt word_eq_unat)

text \<open>The contents by the position of the indices: one run or two.\<close>

lemma contents_straight:
  assumes "length (buffer b) = unat (buffer_size b)"
    and "unat (rear b) + unat (current_size b) \<le> unat (buffer_size b)"
  shows "contents b = take (unat (current_size b)) (drop (unat (rear b)) (buffer b))"
  using assms by (simp add: contents_def)

lemma contents_wrapped:
  assumes "length (buffer b) = unat (buffer_size b)"
    and "unat (buffer_size b) \<le> unat (rear b) + unat (current_size b)"
    and "unat (rear b) \<le> unat (buffer_size b)"
    and "unat (current_size b) \<le> unat (buffer_size b)"
  shows "contents b = drop (unat (rear b)) (buffer b) @
     take (unat (rear b) + unat (current_size b) - unat (buffer_size b)) (buffer b)"
  using assms by (auto simp: contents_def min_absorb1 add.commute)

text \<open>When a write is accepted.\<close>

definition fits :: "bcb \<Rightarrow> u16 \<Rightarrow> bool" where
  "fits b n \<longleftrightarrow> \<not> BCBIsFull b \<and> unat (current_size b) + unat n \<le> unat (buffer_size b)"

lemma BCBAvailableSize_unat:
  "bcb_wf b \<Longrightarrow> unat (BCBAvailableSize b) = unat (buffer_size b) - unat (current_size b)"
  by (simp add: BCBAvailableSize_def unat_sub_nowrap bcb_wfD)

lemma BCBWrite_rejects:
  assumes "bcb_wf b" "\<not> fits b n"
  shows "BCBWrite b data n = Inr (0, b)"
  using assms bcb_wfD(2)[OF assms(1)]
  by (auto simp: BCBWrite_def fits_def word_less_nat_alt BCBAvailableSize_unat)

lemma BCBWrite_accepts:
  assumes wf: "bcb_wf b" and fit: "fits b n" and len: "unat n \<le> length data"
  shows "\<exists>b'. BCBWrite b data n = Inr (n, b') \<and> bcb_wf b' \<and> buffer_size b' = buffer_size b \<and>
              contents b' = contents b @ take (unat n) data"
proof -
  note w = bcb_wfD [OF wf]
  define B R C N where d: "B = unat (buffer_size b)" "R = unat (rear b)"
    "C = unat (current_size b)" "N = unat n"
  have CN: "C + N \<le> B" and notfull: "C < B"
    using fit w(2) by (auto simp: fits_def BCBIsFull_def word_eq_unat d)
  have cur: "unat (current_size b + n) = C + N"
    unfolding d using CN unat_u16_less [of "buffer_size b"]
    by (intro unat_add_nowrap) (simp add: d)
  have avail: "\<not> BCBAvailableSize b < n"
    using CN by (simp add: word_less_nat_alt BCBAvailableSize_unat [OF wf] d)
  have nf: "\<not> BCBIsFull b" using fit by (simp add: fits_def)
  consider (wrapped) "B \<le> R + C" "front b < rear b" | (straight) "R + C < B" "\<not> front b < rear b"
    using w notfull by (fastforce simp: word_less_nat_alt d split: if_splits)
  then show ?thesis
  proof cases
    case wrapped
    have F: "unat (front b) = R + C - B" using w(6) wrapped(1) by (simp add: d)
    let ?b = "b\<lparr>buffer := put_at (R + C - B) (take N data) (buffer b),
       front := advance (buffer_size b) (front b) n, current_size := current_size b + n\<rparr>"
    have eq: "BCBWrite b data n = Inr (n, ?b)"
      using wrapped CN len w
      by (simp add: BCBWrite_def nf avail memcpy_Inr F d)
    have "bcb_wf ?b"
      using w wrapped CN notfull len
      by (intro bcb_wfI) (auto simp: F cur unat_advance d)
    moreover have "contents ?b = contents b @ take N data"
    proof -
      have "contents ?b = drop R (put_at (R + C - B) (take N data) (buffer b)) @
              take ((R + C - B) + N) (put_at (R + C - B) (take N data) (buffer b))"
        using w wrapped CN len by (subst contents_wrapped) (auto simp: cur d add.assoc)
      also have "\<dots> = drop R (buffer b) @ take (R + C - B) (buffer b) @ take N data"
        using w wrapped CN len take_put_at_through [of "R + C - B" "buffer b" "take N data"]
        by (simp add: d)
      also have "\<dots> = contents b @ take N data"
        using w wrapped by (subst contents_wrapped) (simp_all add: d)
      finally show ?thesis .
    qed
    ultimately show ?thesis using eq by (auto simp: d)
  next
    case straight
    have F: "unat (front b) = R + C" using w(6) straight(1) by (simp add: d)
    have lead: "unat (buffer_size b - front b) = B - (R + C)"
      using straight by (subst unat_sub_nowrap) (auto simp: F d)
    have old: "contents b = take C (drop R (buffer b))"
      using w straight by (subst contents_straight) (simp_all add: d)
    show ?thesis
    proof (cases "N \<le> B - (R + C)")
      case True
      let ?b = "b\<lparr>buffer := put_at (R + C) (take N data) (buffer b),
         front := advance (buffer_size b) (front b) n, current_size := current_size b + n\<rparr>"
      have eq: "BCBWrite b data n = Inr (n, ?b)"
        using straight CN len w True
        by (simp add: BCBWrite_def nf avail memcpy_Inr F d word_le_nat_alt lead Let_def)
      have "bcb_wf ?b"
        using w straight CN len True by (intro bcb_wfI) (auto simp: F cur unat_advance d)
      moreover have "contents ?b = contents b @ take N data"
      proof -
        have "contents ?b = take (C + N) (drop R (put_at (R + C) (take N data) (buffer b)))"
          using w straight CN len True by (subst contents_straight) (auto simp: cur d)
        also have "\<dots> = take C (drop R (buffer b)) @ take N data"
          using w straight CN len True by (simp add: drop_put_at_before d)
        finally show ?thesis by (simp add: old)
      qed
      ultimately show ?thesis using eq by (auto simp: d)
    next
      case False
      define L where "L = B - (R + C)"
      let ?m = "put_at (R + C) (take L data) (buffer b)"
      let ?m' = "put_at 0 (take (N - L) (drop L data)) ?m"
      let ?b = "b\<lparr>buffer := ?m', front := n - (buffer_size b - front b),
         current_size := current_size b + n\<rparr>"
      have L: "R + C + L = B" "L < N" "N - L \<le> R"
        using straight False CN by (auto simp: L_def)
      have lead': "unat (buffer_size b - front b) = L" by (simp add: lead L_def)
      have rest: "unat (n - (buffer_size b - front b)) = N - L"
        using L by (subst unat_sub_nowrap) (auto simp: lead' d)
      have eq: "BCBWrite b data n = Inr (n, ?b)"
        using straight CN len w False L
        by (simp add: BCBWrite_def nf avail memcpy_Inr F d word_le_nat_alt lead' Let_def rest)
      have "bcb_wf ?b"
        using w straight CN len L by (intro bcb_wfI) (auto simp: rest cur d)
      moreover have "contents ?b = contents b @ take N data"
      proof -
        have "contents ?b = drop R ?m' @ take (R + (C + N) - B) ?m'"
          using w straight CN len L by (subst contents_wrapped) (auto simp: cur d)
        also have "drop R ?m' = take C (drop R (buffer b)) @ take L data"
          using w straight CN len L by (simp add: drop_put_at_before d)
        also have "take (R + (C + N) - B) ?m' = take (N - L) (drop L data)"
        proof -
          have "R + (C + N) - B = 0 + length (take (N - L) (drop L data))"
            using L len by (auto simp: d)
          then show ?thesis by (simp only: take_put_at_through) simp
        qed
        finally show ?thesis
          using L take_add [of L "N - L" data] by (simp add: old)
      qed
      ultimately show ?thesis using eq by (auto simp: d)
    qed
  qed
qed

lemma drop_ring:
  assumes "C \<le> length m" "N \<le> C" "R + N \<le> length m"
  shows "drop N (take C (drop R m @ take R m)) = take (C - N) (drop (R + N) m @ take (R + N) m)"
proof -
  have "drop N (take C (drop R m @ take R m)) = take (C - N) (drop (R + N) m @ take R m)"
    using assms by (simp add: drop_take add.commute)
  also have "\<dots> = take (C - N) (drop (R + N) m @ take R m @ take N (drop R m))"
    using assms by simp
  also have "take R m @ take N (drop R m) = take (R + N) m"
    by (simp add: take_add)
  finally show ?thesis .
qed

lemma drop_ring_wrap:
  assumes "C \<le> length m" "N \<le> C" "R + L = length m" "L < N"
  shows "take N (take C (drop R m @ take R m)) = drop R m @ take (N - L) m"
    and "drop N (take C (drop R m @ take R m)) = take (C - N) (drop (N - L) m @ take (N - L) m)"
proof -
  have len: "length (drop R m) = L" using assms(3) by simp
  show "take N (take C (drop R m @ take R m)) = drop R m @ take (N - L) m"
    using assms len by (simp add: min_absorb1)
  have "drop N (take C (drop R m @ take R m)) = take (C - N) (drop (N - L) (take R m))"
    using assms len by (simp add: drop_take)
  also have "\<dots> = take (C - N) (drop (N - L) m)"
    using assms by (simp add: drop_take min_absorb1)
  also have "\<dots> = take (C - N) (drop (N - L) m @ take (N - L) m)"
    using assms by simp
  finally show "drop N (take C (drop R m @ take R m)) =
    take (C - N) (drop (N - L) m @ take (N - L) m)" .
qed

text \<open>One step of the read position that does not pass the end of the array.\<close>

lemma read_within:
  assumes wf: "bcb_wf b" and n: "unat n \<le> unat (current_size b)"
    and room: "unat (rear b) + unat n \<le> unat (buffer_size b)"
  shows "take (unat n) (drop (unat (rear b)) (buffer b)) = take (unat n) (contents b)"
    and "bcb_wf (b\<lparr>rear := advance (buffer_size b) (rear b) n,
                    current_size := current_size b - n\<rparr>)"
    and "contents (b\<lparr>rear := advance (buffer_size b) (rear b) n,
                      current_size := current_size b - n\<rparr>) = drop (unat n) (contents b)"
proof -
  note w = bcb_wfD [OF wf]
  show "take (unat n) (drop (unat (rear b)) (buffer b)) = take (unat n) (contents b)"
    using w n room by (auto simp: contents_def min_absorb1)
  have cur: "unat (current_size b - n) = unat (current_size b) - unat n"
    using n by (rule unat_sub_nowrap)
  show "bcb_wf (b\<lparr>rear := advance (buffer_size b) (rear b) n,
                   current_size := current_size b - n\<rparr>)"
    using w n room by (intro bcb_wfI) (auto simp: cur unat_advance)
  show "contents (b\<lparr>rear := advance (buffer_size b) (rear b) n,
                     current_size := current_size b - n\<rparr>) = drop (unat n) (contents b)"
  proof -
    let ?R = "unat (rear b) + unat n"
    have "contents (b\<lparr>rear := advance (buffer_size b) (rear b) n,
                     current_size := current_size b - n\<rparr>) =
        take (unat (current_size b) - unat n) (drop ?R (buffer b) @ take ?R (buffer b))"
      using w(1) room
      by (cases "?R = length (buffer b)") (simp_all add: contents_def cur unat_advance)
    then show ?thesis
      using w n room drop_ring [of "unat (current_size b)" "buffer b" "unat n" "unat (rear b)"]
      by (simp only: contents_def)
  qed
qed

lemma read_around:
  assumes wf: "bcb_wf b" and n: "unat n \<le> unat (current_size b)"
    and L: "unat (rear b) + L = unat (buffer_size b)" "L < unat n"
    and r: "unat r = unat n - L"
  shows "drop (unat (rear b)) (buffer b) @ take (unat r) (buffer b) = take (unat n) (contents b)"
    and "bcb_wf (b\<lparr>rear := r, current_size := current_size b - n\<rparr>)"
    and "contents (b\<lparr>rear := r, current_size := current_size b - n\<rparr>) = drop (unat n) (contents b)"
proof -
  note w = bcb_wfD [OF wf]
  show "drop (unat (rear b)) (buffer b) @ take (unat r) (buffer b) = take (unat n) (contents b)"
    unfolding contents_def r using w n L by (intro drop_ring_wrap(1) [symmetric]) simp_all
  have cur: "unat (current_size b - n) = unat (current_size b) - unat n"
    using n by (rule unat_sub_nowrap)
  show "bcb_wf (b\<lparr>rear := r, current_size := current_size b - n\<rparr>)"
    using w n L r by (intro bcb_wfI) (auto simp: cur)
  show "contents (b\<lparr>rear := r, current_size := current_size b - n\<rparr>) = drop (unat n) (contents b)"
  proof -
    have "contents (b\<lparr>rear := r, current_size := current_size b - n\<rparr>) =
        take (unat (current_size b) - unat n)
          (drop (unat n - L) (buffer b) @ take (unat n - L) (buffer b))"
      by (simp only: contents_def bcb.select_convs bcb.update_convs cur r [symmetric]) (simp add: cur)
    then show ?thesis
      using w n L drop_ring_wrap(2) [of "unat (current_size b)" "buffer b"
        "unat n" "unat (rear b)" L]
      by (simp only: contents_def)
  qed
qed

lemma BCBRead_rejects:
  "unat (current_size b) < unat n \<Longrightarrow> BCBRead b dest n rm = Inr (0, dest, b)"
  by (simp add: BCBRead_def word_less_nat_alt)

lemma BCBRead_accepts:
  assumes wf: "bcb_wf b" and n: "unat n \<le> unat (current_size b)" and len: "unat n \<le> length dest"
  shows "\<exists>b'. BCBRead b dest n rm = Inr (n, put_at 0 (take (unat n) (contents b)) dest, b') \<and>
              (if rm then bcb_wf b' \<and> buffer_size b' = buffer_size b \<and>
                          contents b' = drop (unat n) (contents b)
               else b' = b)"
proof -
  note w = bcb_wfD [OF wf]
  have ok: "\<not> current_size b < n" using n by (simp add: word_less_nat_alt)
  have lead: "unat (buffer_size b - rear b) = unat (buffer_size b) - unat (rear b)"
    using w by (intro unat_sub_nowrap)
  show ?thesis
  proof (cases "unat (rear b) + unat n \<le> unat (buffer_size b)")
    case True
    note rw = read_within [OF wf n True]
    have "n \<le> buffer_size b - rear b" using True by (simp add: word_le_nat_alt lead)
    then have "BCBRead b dest n rm = Inr (n, put_at 0 (take (unat n) (contents b)) dest,
        if rm then b\<lparr>rear := advance (buffer_size b) (rear b) n, current_size := current_size b - n\<rparr>
        else b)"
      using True w len by (simp add: BCBRead_def ok memcpy_Inr Let_def rw(1))
    then show ?thesis using rw by auto
  next
    case False
    define L where "L = unat (buffer_size b) - unat (rear b)"
    have L: "unat (rear b) + L = unat (buffer_size b)" "L < unat n"
      using False w by (auto simp: L_def)
    have lead': "unat (buffer_size b - rear b) = L" by (simp add: lead L_def)
    have r: "unat (n - (buffer_size b - rear b)) = unat n - L"
      using L by (subst unat_sub_nowrap) (auto simp: lead')
    note ra = read_around [OF wf n L r]
    have nf: "\<not> rear b < front b"
      using False w n by (auto simp: word_less_nat_alt split: if_splits)
    have "\<not> n \<le> buffer_size b - rear b" using L by (simp add: word_le_nat_alt lead')
    then have "BCBRead b dest n rm =
        rbind (memcpy dest 0 (buffer b) (unat (rear b)) L) (\<lambda>d.
        rbind (memcpy d L (buffer b) 0 (unat n - L)) (\<lambda>d'.
        Inr (n, d', if rm then b\<lparr>rear := n - (buffer_size b - rear b),
                               current_size := current_size b - n\<rparr> else b)))"
      using nf by (simp add: BCBRead_def ok Let_def r lead')
    also have "\<dots> = Inr (n, put_at 0 (take (unat n) (contents b)) dest,
        if rm then b\<lparr>rear := n - (buffer_size b - rear b), current_size := current_size b - n\<rparr>
        else b)"
    proof -
      have "memcpy dest 0 (buffer b) (unat (rear b)) L =
          Inr (put_at 0 (drop (unat (rear b)) (buffer b)) dest)"
        using w L len by (simp add: memcpy_Inr)
      moreover have "memcpy (put_at 0 (drop (unat (rear b)) (buffer b)) dest) L (buffer b) 0
          (unat n - L) = Inr (put_at 0 (take (unat n) (contents b)) dest)"
        using w L len n by (simp add: memcpy_Inr put_at_def ra(1) [symmetric] r)
      ultimately show ?thesis by simp
    qed
    finally show ?thesis using ra by auto
  qed
qed

lemma put_at_0_take:
  "n \<le> length xs \<Longrightarrow> n \<le> length m \<Longrightarrow> take n (put_at 0 (take n xs) m) = take n xs"
  by (simp add: put_at_def)

section \<open>The interface: a bounded first-in first-out queue of bytes\<close>

text \<open>
  What the message demarcation relies on: a write appends or is refused, a read returns the
  oldest bytes and removes them on request.
\<close>

locale byte_queue =
  fixes invar :: "'q \<Rightarrow> bool"
    and items :: "'q \<Rightarrow> byte list"
    and capacity :: "'q \<Rightarrow> nat"
    and room :: "'q \<Rightarrow> u16 \<Rightarrow> bool"
    and put :: "'q \<Rightarrow> byte list \<Rightarrow> u16 \<Rightarrow> (u16 \<times> 'q) res"
    and get :: "'q \<Rightarrow> byte list \<Rightarrow> u16 \<Rightarrow> bool \<Rightarrow> (u16 \<times> byte list \<times> 'q) res"
  assumes write_refused: "invar q \<Longrightarrow> \<not> room q n \<Longrightarrow> put q data n = Inr (0, q)"
    and write_accepted: "invar q \<Longrightarrow> room q n \<Longrightarrow> unat n \<le> length data \<Longrightarrow>
      \<exists>q'. put q data n = Inr (n, q') \<and> invar q' \<and> capacity q' = capacity q \<and>
           items q' = items q @ take (unat n) data"
    and read_short: "invar q \<Longrightarrow> length (items q) < unat n \<Longrightarrow> get q dest n rm = Inr (0, dest, q)"
    and read_enough: "invar q \<Longrightarrow> unat n \<le> length (items q) \<Longrightarrow> unat n \<le> length dest \<Longrightarrow>
      \<exists>q'. get q dest n rm = Inr (n, put_at 0 (take (unat n) (items q)) dest, q') \<and>
           (if rm then invar q' \<and> capacity q' = capacity q \<and> items q' = drop (unat n) (items q)
            else q' = q)"
begin

text \<open>A write to an empty queue, read back, gives the bytes written and the empty queue.\<close>

lemma write_read:
  assumes "invar q" "items q = []" "room q n" "unat n \<le> length data" "unat n \<le> length dest"
  shows "\<exists>q' q''. put q data n = Inr (n, q') \<and>
     get q' dest n True = Inr (n, put_at 0 (take (unat n) data) dest, q'') \<and>
     invar q'' \<and> items q'' = []"
proof -
  obtain q' where q': "put q data n = Inr (n, q')" "invar q'" "items q' = take (unat n) data"
    using write_accepted [of q n data] assms by auto
  then obtain q'' where
    "get q' dest n True = Inr (n, put_at 0 (take (unat n) (items q')) dest, q'')"
    "invar q''" "items q'' = drop (unat n) (items q')"
    using read_enough [of q' n dest True] assms by auto
  then show ?thesis using q' by (auto simp: min_absorb1)
qed

text \<open>A read returns the same bytes whether or not a later write was made before it.\<close>

lemma write_after:
  assumes "invar q" "room q k" "unat k \<le> length data"
    and "unat n \<le> length (items q)" "unat n \<le> length dest"
  shows "\<exists>q'. put q data k = Inr (k, q') \<and>
     rbind (get q' dest n rm) (\<lambda>(r, d, _). Inr (r, d)) =
     rbind (get q dest n rm) (\<lambda>(r, d, _). Inr (r, d))"
proof -
  obtain q' where q': "put q data k = Inr (k, q')" "invar q'" "items q' = items q @ take (unat k) data"
    using write_accepted assms by blast
  have "\<exists>q2. get q dest n rm = Inr (n, put_at 0 (take (unat n) (items q)) dest, q2)"
    using read_enough assms by blast
  moreover have "\<exists>q2. get q' dest n rm = Inr (n, put_at 0 (take (unat n) (items q')) dest, q2)"
    using read_enough [of q' n dest rm] q' assms by auto
  ultimately show ?thesis using q' assms(4) by auto
qed

end

interpretation bcb: byte_queue bcb_wf contents "\<lambda>b. unat (buffer_size b)" fits BCBWrite BCBRead
proof (unfold_locales, goal_cases)
  case (1 q n data)
  then show ?case by (rule BCBWrite_rejects)
next
  case (2 q n data)
  then show ?case using BCBWrite_accepts by fastforce
next
  case (3 q n dest rm)
  then show ?case by (simp add: BCBRead_rejects)
next
  case (4 q n dest rm)
  then show ?case using BCBRead_accepts [of q n dest rm] by (cases rm) auto
qed

end
