(* ===== verification/Demarcar.thy ===== *)
theory Demarcar
  imports ByteBuffer
begin

text \<open>
  Message demarcation: the base class of \<^verbatim>\<open>TcpMsgDemarcar.cpp\<close> and its two derived classes,
  \<^verbatim>\<open>TcpMsgFixedSizeDemarcar.cpp\<close> and \<^verbatim>\<open>TcpMsgVariableSizeDemarcar.cpp\<close>, which cut the
  bytes a TCP connection delivers in arbitrary portions into the messages of the application.
\<close>

section \<open>State\<close>

datatype TcpMsgDemarcarType =
    TCP_DEMARCAR_NONE
  | TCP_DEMARCAR_FIXED_SIZE
  | TCP_DEMARCAR_VARIABLE_SIZE
  | TCP_DEMARCAR_PATTERN

abbreviation DEFAULT_CBC_SIZE :: u16 where
  "DEFAULT_CBC_SIZE \<equiv> 10240"

abbreviation (input) MAX_CLIENT_BUFFER_SIZE :: nat where
  "MAX_CLIENT_BUFFER_SIZE \<equiv> 1024"

abbreviation HDR_MSG_SIZE :: u16 where
  "HDR_MSG_SIZE \<equiv> 2"

text \<open>The dynamic class of a demarcar; a fixed-size one carries \<open>msg_fixed_size\<close>.\<close>

datatype demarcar_class = FixedSize (msg_fixed_size: u16) | VariableSize

text \<open>\<open>None\<close> is the null pointer that \<open>Destroy\<close> leaves behind.\<close>

record demarcar =
  dclass :: demarcar_class
  dbcb :: "bcb option"
  dbuffer :: "byte list option"

definition TcpMsgDemarcar :: "demarcar_class \<Rightarrow> u16 \<Rightarrow> demarcar" where
  "TcpMsgDemarcar k circular_buffer_size =
     \<lparr>dclass = k, dbcb = Some (BCBCreateNew circular_buffer_size),
      dbuffer = Some (replicate MAX_CLIENT_BUFFER_SIZE 0)\<rparr>"

definition TcpMsgFixedSizeDemarcar :: "u16 \<Rightarrow> demarcar" where
  "TcpMsgFixedSizeDemarcar fixed_size = TcpMsgDemarcar (FixedSize fixed_size) DEFAULT_CBC_SIZE"

definition TcpMsgVariableSizeDemarcar :: demarcar where
  "TcpMsgVariableSizeDemarcar = TcpMsgDemarcar VariableSize DEFAULT_CBC_SIZE"

definition InstantiateTcpMsgDemarcar :: "TcpMsgDemarcarType \<Rightarrow> u16 \<Rightarrow> demarcar option" where
  "InstantiateTcpMsgDemarcar msgd_type fixed_size =
     (case msgd_type of
        TCP_DEMARCAR_FIXED_SIZE \<Rightarrow> Some (TcpMsgFixedSizeDemarcar fixed_size)
      | TCP_DEMARCAR_VARIABLE_SIZE \<Rightarrow> Some TcpMsgVariableSizeDemarcar
      | TCP_DEMARCAR_PATTERN \<Rightarrow> None
      | TCP_DEMARCAR_NONE \<Rightarrow> None)"

definition Destroy :: "demarcar \<Rightarrow> demarcar" where
  "Destroy d = d\<lparr>dbcb := None, dbuffer := None\<rparr>"

text \<open>The destructor of the base class: only a destroyed demarcar may be deleted.\<close>

definition delete_demarcar :: "demarcar \<Rightarrow> unit res" where
  "delete_demarcar d =
     rbind (require (dbcb d = None) AssertFail) (\<lambda>_.
     require (dbuffer d = None) AssertFail)"

definition GetTotalMsgSize :: "demarcar \<Rightarrow> u16 res" where
  "GetTotalMsgSize d = (case dbcb d of None \<Rightarrow> Inl NullDeref | Some b \<Rightarrow> Inr (current_size b))"

section \<open>Fixed-size messages\<close>

definition fixed_ready :: "u16 \<Rightarrow> bcb \<Rightarrow> bool res" where
  "fixed_ready n b =
     (if n = 0 then Inl DivByZero
      else Inr (unat (current_size b) div unat n > 0))"

text \<open>
  The loop of \<open>ProcessClientMsg\<close>. Its state is the ring buffer, the message buffer and the
  messages handed to \<open>client_msg_recvd\<close> so far; \<open>cb\<close> says whether the application registered
  that callback, which the code calls without a check.
\<close>

partial_function (option) fixed_loop ::
    "u16 \<Rightarrow> bool \<Rightarrow> bcb \<Rightarrow> byte list \<Rightarrow> byte list list \<Rightarrow> (bcb \<times> byte list \<times> byte list list) res option"
where
  "fixed_loop n cb b buf out =
     (case fixed_ready n b of
        Inl e \<Rightarrow> Some (Inl e)
      | Inr ready \<Rightarrow>
          if \<not> ready then Some (Inr (b, buf, out))
          else (case BCBRead b buf n True of
                  Inl e \<Rightarrow> Some (Inl e)
                | Inr (bytes_read, buf', b') \<Rightarrow>
                    if cb then fixed_loop n cb b' buf' (out @ [take (unat bytes_read) buf'])
                    else Some (Inl NullDeref)))"

declare fixed_loop.simps [code]

section \<open>Messages with a length header\<close>

text \<open>
  \<open>uint16_t msg_size\<close> is filled with the first two bytes of the stream, low byte first on the
  little-endian machines the library is built for.
\<close>

definition le16 :: "byte list \<Rightarrow> u16" where
  "le16 bs = word_of_nat (unat (bs ! 0) + 256 * unat (bs ! 1))"

definition read_header :: "bcb \<Rightarrow> u16 res" where
  "read_header b = rbind (BCBRead b [0, 0] HDR_MSG_SIZE False) (\<lambda>(_, h, _). Inr (le16 h))"

definition variable_ready :: "bcb \<Rightarrow> bool res" where
  "variable_ready b =
     (if current_size b \<le> HDR_MSG_SIZE then Inr False
      else rbind (read_header b) (\<lambda>msg_size. Inr (msg_size \<le> current_size b)))"

partial_function (option) variable_loop ::
    "bool \<Rightarrow> bcb \<Rightarrow> byte list \<Rightarrow> byte list list \<Rightarrow> (bcb \<times> byte list \<times> byte list list) res option"
where
  "variable_loop cb b buf out =
     (case variable_ready b of
        Inl e \<Rightarrow> Some (Inl e)
      | Inr ready \<Rightarrow>
          if \<not> ready then Some (Inr (b, buf, out))
          else (case rbind (read_header b) (\<lambda>msg_size.
                     rbind (BCBRead b buf msg_size True) (\<lambda>(r, buf', b').
                     rbind (require (msg_size = r) AssertFail) (\<lambda>_.
                     rbind (require cb NullDeref) (\<lambda>_. Inr (msg_size, buf', b')))))
                of
                  Inl e \<Rightarrow> Some (Inl e)
                | Inr (msg_size, buf', b') \<Rightarrow>
                    variable_loop cb b' buf' (out @ [take (unat msg_size) buf'])))"

declare variable_loop.simps [code]

section \<open>The virtual operations and \<open>ProcessMsg\<close>\<close>

text \<open>The two virtual functions, by the dynamic class of the object.\<close>

definition class_ready :: "demarcar_class \<Rightarrow> bcb \<Rightarrow> bool res" where
  "class_ready k b = (case k of FixedSize n \<Rightarrow> fixed_ready n b | VariableSize \<Rightarrow> variable_ready b)"

definition class_loop ::
    "demarcar_class \<Rightarrow> bool \<Rightarrow> bcb \<Rightarrow> byte list \<Rightarrow> byte list list \<Rightarrow>
     (bcb \<times> byte list \<times> byte list list) res option" where
  "class_loop k cb b buf out =
     (case k of
        FixedSize n \<Rightarrow> fixed_loop n cb b buf out
      | VariableSize \<Rightarrow> variable_loop cb b buf out)"

definition IsBufferReadyToflush :: "demarcar \<Rightarrow> bool res" where
  "IsBufferReadyToflush d =
     (case dbcb d of None \<Rightarrow> Inl NullDeref | Some b \<Rightarrow> class_ready (dclass d) b)"

text \<open>The result is the demarcar and the messages delivered, in order.\<close>

definition ProcessClientMsg :: "bool \<Rightarrow> demarcar \<Rightarrow> (demarcar \<times> byte list list) res" where
  "ProcessClientMsg cb d =
     (case (dbcb d, dbuffer d) of
        (Some b, Some buf) \<Rightarrow>
          rbind (run_loop (class_loop (dclass d) cb b buf [])) (\<lambda>(b', buf', out).
          Inr (d\<lparr>dbcb := Some b', dbuffer := Some buf'\<rparr>, out))
      | _ \<Rightarrow> Inl NullDeref)"

definition ProcessMsg ::
    "bool \<Rightarrow> demarcar \<Rightarrow> byte list \<Rightarrow> u16 \<Rightarrow> (demarcar \<times> byte list list) res" where
  "ProcessMsg cb d msg_recvd msg_size =
     (case dbcb d of
        None \<Rightarrow> Inl NullDeref
      | Some b \<Rightarrow>
          rbind (BCBWrite b msg_recvd msg_size) (\<lambda>(r, b').
          rbind (require (r \<noteq> 0) AssertFail) (\<lambda>_.
          let d' = d\<lparr>dbcb := Some b'\<rparr> in
          rbind (IsBufferReadyToflush d') (\<lambda>ready.
          if ready then ProcessClientMsg cb d' else Inr (d', [])))))"

text \<open>A connection hands over the portions it receives one after the other.\<close>

fun process_portions :: "bool \<Rightarrow> demarcar \<Rightarrow> byte list list \<Rightarrow> (demarcar \<times> byte list list) res" where
  "process_portions cb d [] = Inr (d, [])"
| "process_portions cb d (c # cs) =
     rbind (ProcessMsg cb d c (word_of_nat (length c))) (\<lambda>(d', out).
     rbind (process_portions cb d' cs) (\<lambda>(d'', out'). Inr (d'', out @ out')))"

section \<open>Messages and incomplete messages\<close>

text \<open>What counts as one message of each class: bytes that fit the message buffer.\<close>

definition fixed_frame :: "u16 \<Rightarrow> byte list \<Rightarrow> bool" where
  "fixed_frame n f \<longleftrightarrow> n \<noteq> 0 \<and> length f = unat n \<and> length f \<le> MAX_CLIENT_BUFFER_SIZE"

definition variable_frame :: "byte list \<Rightarrow> bool" where
  "variable_frame f \<longleftrightarrow> 3 \<le> length f \<and> length f \<le> MAX_CLIENT_BUFFER_SIZE \<and> unat (le16 f) = length f"

definition incomplete :: "(byte list \<Rightarrow> bool) \<Rightarrow> byte list \<Rightarrow> bool" where
  "incomplete frame p \<longleftrightarrow> (\<exists>s. s \<noteq> [] \<and> frame (p @ s))"

lemma incomplete_prefix: "incomplete frame (p @ q) \<Longrightarrow> incomplete frame p"
  by (auto simp: incomplete_def)

lemma incomplete_Nil: "frame f \<Longrightarrow> f \<noteq> [] \<Longrightarrow> incomplete frame []"
  by (auto simp: incomplete_def)

text \<open>
  Cutting a stream of messages anywhere leaves the messages completed by then and the
  beginning of the next one.
\<close>

lemma cut_stream:
  assumes "xs @ ys = concat fs @ p" "\<forall>f\<in>set fs. frame f" "\<forall>f. frame f \<longrightarrow> f \<noteq> []"
    and "incomplete frame p"
  shows "\<exists>fs1 fs2 p1. fs = fs1 @ fs2 \<and> xs = concat fs1 @ p1 \<and> incomplete frame p1 \<and>
           p1 @ ys = concat fs2 @ p"
  using assms(1,2)
proof (induction fs arbitrary: xs)
  case Nil
  then have "p = xs @ ys" by simp
  with assms(4) show ?case
    by (intro exI [of _ "[]"] exI [of _ xs]) (auto dest: incomplete_prefix)
next
  case (Cons f fs)
  have f: "frame f" "f \<noteq> []" using Cons.prems assms(3) by auto
  from Cons.prems(1) obtain us where
    "(xs = f @ us \<and> us @ ys = concat fs @ p) \<or> (xs @ us = f \<and> ys = us @ concat fs @ p)"
    by (auto simp: append_eq_append_conv2)
  then show ?case
  proof
    assume us: "xs = f @ us \<and> us @ ys = concat fs @ p"
    then obtain fs1 fs2 p1 where "fs = fs1 @ fs2" "us = concat fs1 @ p1" "incomplete frame p1"
      "p1 @ ys = concat fs2 @ p"
      using Cons.IH [of us] Cons.prems(2) by auto
    with us show ?thesis by (intro exI [of _ "f # fs1"] exI [of _ fs2] exI [of _ p1]) auto
  next
    assume us: "xs @ us = f \<and> ys = us @ concat fs @ p"
    show ?thesis
    proof (cases "us = []")
      case True
      with us f show ?thesis
        by (intro exI [of _ "[f]"] exI [of _ fs] exI [of _ "[]"]) (auto intro: incomplete_Nil)
    next
      case False
      with us f have "incomplete frame xs" by (auto simp: incomplete_def)
      with us show ?thesis
        by (intro exI [of _ "[]"] exI [of _ "f # fs"] exI [of _ xs]) auto
    qed
  qed
qed

section \<open>The interface of a demarcar class\<close>

text \<open>
  The contract between \<open>ProcessMsg\<close> and the virtual functions of a derived class: on a ring
  buffer that starts with a message the class is ready and its loop delivers that message and
  goes on with the rest; on the beginning of a message it is not ready and its loop ends.
\<close>

locale demarcation =
  fixes k :: demarcar_class
    and frame :: "byte list \<Rightarrow> bool"
  assumes frame_size: "frame f \<Longrightarrow> f \<noteq> [] \<and> length f \<le> MAX_CLIENT_BUFFER_SIZE"
    and ready_frame: "bcb_wf b \<Longrightarrow> contents b = f @ r \<Longrightarrow> frame f \<Longrightarrow> class_ready k b = Inr True"
    and ready_incomplete: "bcb_wf b \<Longrightarrow> incomplete frame (contents b) \<Longrightarrow> class_ready k b = Inr False"
    and loop_frame: "bcb_wf b \<Longrightarrow> contents b = f @ r \<Longrightarrow> frame f \<Longrightarrow>
      length buf = MAX_CLIENT_BUFFER_SIZE \<Longrightarrow>
      \<exists>b' buf'. class_loop k True b buf out = class_loop k True b' buf' (out @ [f]) \<and> bcb_wf b' \<and>
        buffer_size b' = buffer_size b \<and> contents b' = r \<and> length buf' = MAX_CLIENT_BUFFER_SIZE"
    and loop_incomplete: "bcb_wf b \<Longrightarrow> incomplete frame (contents b) \<Longrightarrow>
      class_loop k True b buf out = Some (Inr (b, buf, out))"
begin

lemma loop_frames:
  assumes "bcb_wf b" "contents b = concat fs @ p" "\<forall>f\<in>set fs. frame f" "incomplete frame p"
    and "length buf = MAX_CLIENT_BUFFER_SIZE"
  shows "\<exists>b' buf'. class_loop k True b buf out = Some (Inr (b', buf', out @ fs)) \<and> bcb_wf b' \<and>
    buffer_size b' = buffer_size b \<and> contents b' = p \<and> length buf' = MAX_CLIENT_BUFFER_SIZE"
  using assms
proof (induction fs arbitrary: b buf out)
  case Nil
  then show ?case using loop_incomplete by simp
next
  case (Cons f fs)
  then obtain b1 buf1 where
    1: "class_loop k True b buf out = class_loop k True b1 buf1 (out @ [f])" "bcb_wf b1"
      "buffer_size b1 = buffer_size b" "contents b1 = concat fs @ p"
      "length buf1 = MAX_CLIENT_BUFFER_SIZE"
    using loop_frame [of b f "concat fs @ p" buf out] by auto
  from Cons.IH [OF 1(2,4) _ Cons.prems(4) 1(5), of "out @ [f]"] Cons.prems(3) 1 show ?case by auto
qed

text \<open>The state of a demarcar between two calls: the beginning of a message is buffered.\<close>

lemma incomplete_size: "incomplete frame p \<Longrightarrow> length p < MAX_CLIENT_BUFFER_SIZE"
proof -
  assume "incomplete frame p"
  then obtain x s where "frame (p @ x # s)" by (auto simp: incomplete_def neq_Nil_conv)
  then show ?thesis using frame_size [of "p @ x # s"] by simp
qed

lemma process_msg:
  assumes d: "dclass d = k" "dbcb d = Some b" "dbuffer d = Some buf"
    and wf: "bcb_wf b" "buffer_size b = DEFAULT_CBC_SIZE" "length buf = MAX_CLIENT_BUFFER_SIZE"
    and old: "incomplete frame (contents b)"
    and c: "c \<noteq> []" "length c \<le> MAX_CLIENT_BUFFER_SIZE"
    and new: "contents b @ c = concat fs @ p" "\<forall>f\<in>set fs. frame f" "incomplete frame p"
  shows "\<exists>b' buf'. ProcessMsg True d c (word_of_nat (length c)) =
      Inr (d\<lparr>dbcb := Some b', dbuffer := Some buf'\<rparr>, fs) \<and> bcb_wf b' \<and>
      buffer_size b' = DEFAULT_CBC_SIZE \<and> contents b' = p \<and> length buf' = MAX_CLIENT_BUFFER_SIZE"
proof -
  have n: "unat (word_of_nat (length c) :: u16) = length c"
    using c by (simp add: unat_of_nat)
  have cur: "unat (current_size b) < MAX_CLIENT_BUFFER_SIZE"
    using incomplete_size [OF old] wf by simp
  have "fits b (word_of_nat (length c))"
    using cur c wf n by (auto simp: fits_def BCBIsFull_def word_eq_unat)
  then obtain b1 where b1: "BCBWrite b c (word_of_nat (length c)) = Inr (word_of_nat (length c), b1)"
    "bcb_wf b1" "buffer_size b1 = DEFAULT_CBC_SIZE" "contents b1 = concat fs @ p"
    using bcb.write_accepted [OF wf(1), of "word_of_nat (length c)" c] new(1) wf(2) n
    by (auto simp: word_eq_unat)
  have nz: "(word_of_nat (length c) :: u16) \<noteq> 0"
    using n c by (auto simp: word_eq_unat)
  obtain b' buf' where loop: "class_loop k True b1 buf [] = Some (Inr (b', buf', fs))"
    "bcb_wf b'" "buffer_size b' = buffer_size b1" "contents b' = p"
    "length buf' = MAX_CLIENT_BUFFER_SIZE"
    using loop_frames [OF b1(2,4) new(2,3) wf(3), of "[]"] by auto
  show ?thesis
  proof (cases fs)
    case Nil
    then have "class_ready k b1 = Inr False" using b1 new ready_incomplete by simp
    with d b1 nz Nil new wf show ?thesis
      by (intro exI [of _ b1] exI [of _ buf]) (simp add: ProcessMsg_def IsBufferReadyToflush_def)
  next
    case (Cons f fs')
    then have "class_ready k b1 = Inr True" using b1 new ready_frame [of b1 f] by simp
    with d b1 nz loop show ?thesis
      by (intro exI [of _ b'] exI [of _ buf'])
         (simp add: ProcessMsg_def IsBufferReadyToflush_def ProcessClientMsg_def)
  qed
qed

lemma portions:
  assumes "dclass d = k" "dbcb d = Some b" "dbuffer d = Some buf"
    and "bcb_wf b" "buffer_size b = DEFAULT_CBC_SIZE" "length buf = MAX_CLIENT_BUFFER_SIZE"
    and "incomplete frame (contents b)"
    and "\<forall>c\<in>set cs. c \<noteq> [] \<and> length c \<le> MAX_CLIENT_BUFFER_SIZE"
    and "contents b @ concat cs = concat fs @ p" "\<forall>f\<in>set fs. frame f" "incomplete frame p"
  shows "\<exists>d' b'. process_portions True d cs = Inr (d', fs) \<and> dbcb d' = Some b' \<and> bcb_wf b' \<and>
    contents b' = p"
  using assms
proof (induction cs arbitrary: d b buf fs)
  case Nil
  have "fs = []"
  proof (cases fs)
    case (Cons f fs')
    obtain s where "s \<noteq> []" "frame (contents b @ s)" using Nil.prems(7) by (auto simp: incomplete_def)
    then have "class_ready k b = Inr True"
      using Nil.prems Cons ready_frame [of b f "concat fs' @ p"] by simp
    then show ?thesis using ready_incomplete Nil.prems by fastforce
  qed simp
  with Nil.prems show ?case by simp
next
  case (Cons c cs)
  obtain fs1 fs2 p1 where cut: "fs = fs1 @ fs2" "contents b @ c = concat fs1 @ p1"
    "incomplete frame p1" "p1 @ concat cs = concat fs2 @ p"
    using cut_stream [of "contents b @ c" "concat cs" fs p frame] Cons.prems frame_size by auto
  then obtain b' buf' where 1: "ProcessMsg True d c (word_of_nat (length c)) =
      Inr (d\<lparr>dbcb := Some b', dbuffer := Some buf'\<rparr>, fs1)" "bcb_wf b'"
      "buffer_size b' = DEFAULT_CBC_SIZE" "contents b' = p1" "length buf' = MAX_CLIENT_BUFFER_SIZE"
    using process_msg [OF Cons.prems(1-7), of c fs1 p1] Cons.prems(8,10) by auto
  show ?case
    using Cons.IH [of "d\<lparr>dbcb := Some b', dbuffer := Some buf'\<rparr>" b' buf' fs2] 1 cut Cons.prems
    by auto
qed

text \<open>A demarcar fresh from its constructor, fed a stream in any portions.\<close>

lemma fresh_portions:
  assumes "\<forall>c\<in>set cs. c \<noteq> [] \<and> length c \<le> MAX_CLIENT_BUFFER_SIZE"
    and "concat cs = concat fs @ p" "\<forall>f\<in>set fs. frame f" "incomplete frame p"
  shows "\<exists>d b. process_portions True (TcpMsgDemarcar k DEFAULT_CBC_SIZE) cs = Inr (d, fs) \<and>
    dbcb d = Some b \<and> bcb_wf b \<and> contents b = p"
proof (rule portions)
  show "incomplete frame (contents (BCBCreateNew DEFAULT_CBC_SIZE))"
    using incomplete_prefix [of frame "[]" p] assms(4) by simp
qed (use assms in \<open>simp_all add: TcpMsgDemarcar_def bcb_wf_CreateNew del: BCBCreateNew_def\<close>,
     simp_all add: BCBCreateNew_def)

end

lemma fixed_ready_iff:
  "bcb_wf b \<Longrightarrow> n \<noteq> 0 \<Longrightarrow> fixed_ready n b = Inr (unat n \<le> length (contents b))"
  by (simp add: fixed_ready_def div_greater_zero_iff word_eq_unat)

lemma fixed_loop_step:
  assumes "bcb_wf b" "contents b = f @ r" "fixed_frame n f" "length buf = MAX_CLIENT_BUFFER_SIZE"
  shows "\<exists>b' buf'. fixed_loop n True b buf out = fixed_loop n True b' buf' (out @ [f]) \<and> bcb_wf b' \<and>
        buffer_size b' = buffer_size b \<and> contents b' = r \<and> length buf' = MAX_CLIENT_BUFFER_SIZE"
proof -
  have n: "n \<noteq> 0" "length f = unat n" "unat n \<le> MAX_CLIENT_BUFFER_SIZE"
    using assms(3) by (auto simp: fixed_frame_def)
  obtain b' where b': "BCBRead b buf n True = Inr (n, put_at 0 f buf, b')" "bcb_wf b'"
    "buffer_size b' = buffer_size b" "contents b' = r"
    using bcb.read_enough [OF assms(1), of n buf True] assms(2,4) n by (auto simp: word_eq_unat)
  have "fixed_loop n True b buf out = fixed_loop n True b' (put_at 0 f buf) (out @ [f])"
    using b' n assms put_at_0_take [of "unat n" f buf]
    by (subst fixed_loop.simps) (simp add: fixed_ready_iff)
  then show ?thesis
    using b' n assms(4) by (intro exI [of _ b'] exI [of _ "put_at 0 f buf"]) auto
qed

interpretation fixed: demarcation "FixedSize n" "fixed_frame n" for n
proof (unfold_locales, goal_cases)
  case (1 f)
  then show ?case by (auto simp: fixed_frame_def word_eq_unat)
next
  case (2 b f r)
  then show ?case by (simp add: class_ready_def fixed_ready_iff fixed_frame_def)
next
  case (3 b)
  then show ?case by (auto simp: class_ready_def fixed_ready_iff fixed_frame_def incomplete_def
        neq_Nil_conv)
next
  case (4 b f r buf out)
  then show ?case unfolding class_loop_def demarcar_class.case by (rule fixed_loop_step)
next
  case (5 b buf out)
  then show ?case
    by (subst class_loop_def, simp, subst fixed_loop.simps)
       (auto simp: fixed_ready_iff fixed_frame_def incomplete_def neq_Nil_conv)
qed

lemma le16_append: "2 \<le> length h \<Longrightarrow> le16 (h @ t) = le16 h"
  by (auto simp: le16_def nth_append)

lemma le16_take: "2 \<le> length h \<Longrightarrow> le16 (take 2 h) = le16 h"
  by (simp add: le16_def)

lemma read_header_eq:
  "bcb_wf b \<Longrightarrow> 2 \<le> length (contents b) \<Longrightarrow> read_header b = Inr (le16 (contents b))"
  using bcb.read_enough [of b HDR_MSG_SIZE "[0, 0]" False]
  by (auto simp: read_header_def put_at_def le16_append le16_take)

lemma variable_ready_eq:
  assumes "bcb_wf b"
  shows "variable_ready b =
    Inr (2 < length (contents b) \<and> unat (le16 (contents b)) \<le> length (contents b))"
  using assms by (auto simp: variable_ready_def word_le_nat_alt read_header_eq)

lemma variable_ready_frame:
  "bcb_wf b \<Longrightarrow> contents b = f @ r \<Longrightarrow> variable_frame f \<Longrightarrow> variable_ready b = Inr True"
  by (simp add: variable_ready_eq variable_frame_def le16_append)

lemma variable_ready_incomplete:
  assumes "bcb_wf b" "incomplete variable_frame (contents b)"
  shows "variable_ready b = Inr False"
proof -
  obtain s where s: "s \<noteq> []" "variable_frame (contents b @ s)"
    using assms(2) by (auto simp: incomplete_def)
  then have "2 < length (contents b) \<Longrightarrow> length (contents b) < unat (le16 (contents b))"
    by (auto simp: variable_frame_def le16_append)
  then show ?thesis using assms(1) by (auto simp: variable_ready_eq)
qed

lemma variable_loop_step:
  assumes "bcb_wf b" "contents b = f @ r" "variable_frame f" "length buf = MAX_CLIENT_BUFFER_SIZE"
  shows "\<exists>b' buf'. variable_loop True b buf out = variable_loop True b' buf' (out @ [f]) \<and> bcb_wf b' \<and>
        buffer_size b' = buffer_size b \<and> contents b' = r \<and> length buf' = MAX_CLIENT_BUFFER_SIZE"
proof -
  define n where "n = le16 f"
  have n: "length f = unat n" "unat n \<le> MAX_CLIENT_BUFFER_SIZE" "3 \<le> unat n"
    using assms(3) by (auto simp: variable_frame_def n_def)
  obtain b' where b': "BCBRead b buf n True = Inr (n, put_at 0 f buf, b')" "bcb_wf b'"
    "buffer_size b' = buffer_size b" "contents b' = r"
    using bcb.read_enough [OF assms(1), of n buf True] assms(2,4) n by (auto simp: word_eq_unat)
  have "read_header b = Inr n"
    using assms n by (simp add: read_header_eq le16_append n_def)
  then have "variable_loop True b buf out = variable_loop True b' (put_at 0 f buf) (out @ [f])"
    using b' n assms put_at_0_take [of "unat n" f buf]
    by (subst variable_loop.simps) (simp add: variable_ready_frame)
  then show ?thesis
    using b' n assms(4) by (intro exI [of _ b'] exI [of _ "put_at 0 f buf"]) auto
qed

interpretation variable: demarcation VariableSize variable_frame
proof (unfold_locales, goal_cases)
  case (1 f)
  then show ?case by (auto simp: variable_frame_def)
next
  case (2 b f r)
  then show ?case by (simp add: class_ready_def variable_ready_frame)
next
  case (3 b)
  then show ?case by (simp add: class_ready_def variable_ready_incomplete)
next
  case (4 b f r buf out)
  then show ?case unfolding class_loop_def demarcar_class.case by (rule variable_loop_step)
next
  case (5 b buf out)
  then show ?case
    by (subst class_loop_def, simp, subst variable_loop.simps) (simp add: variable_ready_incomplete)
qed

section \<open>Streams that are not made of messages\<close>

lemma BCBRead_zero:
  assumes "bcb_wf b"
  shows "\<exists>b'. BCBRead b buf 0 True = Inr (0, buf, b') \<and> bcb_wf b' \<and> contents b' = contents b"
  using bcb.read_enough [OF assms, of 0 buf True] by auto

text \<open>A header of zero is read again and again: the loop returns no result.\<close>

lemma variable_loop_zero:
  assumes "variable_loop cb b buf out = Some r"
    and "bcb_wf b" "2 < length (contents b)" "le16 (contents b) = 0"
  shows "\<not> cb"
proof (rule variable_loop.raw_induct
    [where P = "\<lambda>cb b buf out r. bcb_wf b \<longrightarrow> 2 < length (contents b) \<longrightarrow>
        le16 (contents b) = 0 \<longrightarrow> \<not> cb", THEN mp, THEN mp, THEN mp, OF _ assms(1)])
  fix f cb b buf out r
  assume IH: "\<And>cb b buf out r. f cb b buf out = Some r \<Longrightarrow>
      bcb_wf b \<longrightarrow> 2 < length (contents b) \<longrightarrow> le16 (contents b) = 0 \<longrightarrow> \<not> cb"
    and eq: "(case variable_ready b of
        Inl e \<Rightarrow> Some (Inl e)
      | Inr ready \<Rightarrow>
          if \<not> ready then Some (Inr (b, buf, out))
          else (case rbind (read_header b) (\<lambda>msg_size.
                     rbind (BCBRead b buf msg_size True) (\<lambda>(r, buf', b').
                     rbind (require (msg_size = r) AssertFail) (\<lambda>_.
                     rbind (require cb NullDeref) (\<lambda>_. Inr (msg_size, buf', b')))))
                of
                  Inl e \<Rightarrow> Some (Inl e)
                | Inr (msg_size, buf', b') \<Rightarrow>
                    f cb b' buf' (out @ [take (unat msg_size) buf']))) = Some r"
  show "bcb_wf b \<longrightarrow> 2 < length (contents b) \<longrightarrow> le16 (contents b) = 0 \<longrightarrow> \<not> cb"
  proof (intro impI notI)
    assume b: "bcb_wf b" "2 < length (contents b)" "le16 (contents b) = 0" and cb
    obtain b' where b': "BCBRead b buf 0 True = Inr (0, buf, b')" "bcb_wf b'" "contents b' = contents b"
      using BCBRead_zero [OF b(1)] by blast
    have "f cb b' buf (out @ [[]]) = Some r"
      using eq b b' \<open>cb\<close> by (simp add: variable_ready_eq read_header_eq)
    then show False using IH b b' \<open>cb\<close> by fastforce
  qed
qed (use assms in auto)

lemma variable_loop_zero_diverges:
  assumes "bcb_wf b" "2 < length (contents b)" "le16 (contents b) = 0"
  shows "variable_loop True b buf out = None"
  using variable_loop_zero [OF _ assms, of True] by (cases "variable_loop True b buf out") auto

lemma BCBRead_overrun:
  assumes "bcb_wf b" "unat n \<le> length (contents b)" "length dest < unat n"
  shows "BCBRead b dest n rm = Inl OutOfBounds"
proof -
  have c: "\<not> current_size b < n" using assms by (simp add: word_less_nat_alt)
  have one: "memcpy dest 0 (buffer b) x (unat n) = Inl OutOfBounds" for x
    using assms(3) by (simp add: memcpy_def)
  have two: "memcpy d x (buffer b) 0 (unat (n - y)) = Inl OutOfBounds"
    if "\<not> n \<le> y" "x = unat y" "length d = length dest" for d x y
    using assms(3) that by (subst unat_sub_nowrap) (auto simp: memcpy_def word_le_nat_alt)
  have len: "length d = length dest" if "memcpy dest 0 m x y = Inr d" for d m x y
    using that by (auto simp: memcpy_def split: if_splits)
  show ?thesis
  proof (cases "rear b < front b \<or> n \<le> buffer_size b - rear b")
    case True
    then show ?thesis using c one by (auto simp: BCBRead_def Let_def)
  next
    case False
    define L where "L = buffer_size b - rear b"
    have "BCBRead b dest n rm = Inl OutOfBounds" if "memcpy dest 0 (buffer b) (unat (rear b)) (unat L) = Inr d" for d
      using False c two [of L "unat L" d] len [OF that] that
      by (simp add: BCBRead_def Let_def L_def)
    moreover have "BCBRead b dest n rm = Inl OutOfBounds" if "memcpy dest 0 (buffer b) (unat (rear b)) (unat L) = Inl e" for e
    proof -
      have "e = OutOfBounds" using that by (simp add: memcpy_def split: if_splits)
      then show ?thesis using False c that by (simp add: BCBRead_def Let_def L_def)
    qed
    ultimately show ?thesis
      by (cases "memcpy dest 0 (buffer b) (unat (rear b)) (unat L)") auto
  qed
qed

text \<open>A message that is longer than the message buffer is copied past its end.\<close>

lemma variable_loop_oversize:
  assumes "bcb_wf b" "2 < length (contents b)" "unat (le16 (contents b)) \<le> length (contents b)"
    and "length buf < unat (le16 (contents b))"
  shows "variable_loop cb b buf out = Some (Inl OutOfBounds)"
  using assms BCBRead_overrun [of b "le16 (contents b)" buf True]
  by (subst variable_loop.simps) (simp add: variable_ready_eq read_header_eq)

lemma fixed_loop_oversize:
  assumes "bcb_wf b" "unat n \<le> length (contents b)" "length buf < unat n"
  shows "fixed_loop n cb b buf out = Some (Inl OutOfBounds)"
  using assms BCBRead_overrun [of b n buf True]
  by (subst fixed_loop.simps) (cases "n = 0"; simp add: fixed_ready_iff)

end
