(* ===== verification/CLib.thy ===== *)
theory CLib
  imports Prelude
begin

text \<open>
  The functions of the C library that the command parser calls, on C strings. A C string is
  the list of the characters before its terminating NUL; the objects that hold strings are
  modelled where they are declared.
\<close>

section \<open>Characters and comparison\<close>

abbreviation NUL :: char where
  "NUL \<equiv> CHR 0x00"

abbreviation NL :: char where
  "NL \<equiv> CHR 0x0A"

text \<open>\<open>isspace\<close> in the C locale: blank, tab, newline, vertical tab, form feed, return.\<close>

definition isspace :: "char \<Rightarrow> bool" where
  "isspace c \<longleftrightarrow> c = CHR '' '' \<or> (9 \<le> (of_char c :: nat) \<and> (of_char c :: nat) \<le> 13)"

text \<open>
  \<open>strncmp (s, t, n) == 0\<close>: with the terminating NULs in place, the first \<open>n\<close> characters
  agree.
\<close>

definition strncmp_eq :: "string \<Rightarrow> string \<Rightarrow> nat \<Rightarrow> bool" where
  "strncmp_eq s t n \<longleftrightarrow> take n s = take n t"

text \<open>\<open>strncmp (s, t, strlen (t)) == 0\<close>, the idiom the library compares names with.\<close>

definition has_prefix :: "string \<Rightarrow> string \<Rightarrow> bool" where
  "has_prefix s t \<longleftrightarrow> strncmp_eq s t (length t)"

lemma has_prefix_refl [simp]: "has_prefix s s"
  by (simp add: has_prefix_def strncmp_eq_def)

lemma has_prefix_iff: "has_prefix s t \<longleftrightarrow> (\<exists>u. s = t @ u)"
  by (auto simp: has_prefix_def strncmp_eq_def) (metis append_take_drop_id)

text \<open>\<open>strstr\<close> as a test.\<close>

fun strstr :: "string \<Rightarrow> string \<Rightarrow> bool" where
  "strstr [] t \<longleftrightarrow> t = []"
| "strstr (c # s) t \<longleftrightarrow> has_prefix (c # s) t \<or> strstr s t"

lemma strstr_iff: "strstr s t \<longleftrightarrow> (\<exists>u v. s = u @ t @ v)"
proof (induction s)
  case (Cons c s)
  show ?case
  proof
    assume "strstr (c # s) t"
    then show "\<exists>u v. c # s = u @ t @ v"
      using Cons by (auto simp: has_prefix_iff intro: exI [of _ "[]"]) (metis append_Cons)
  next
    assume "\<exists>u v. c # s = u @ t @ v"
    then obtain u v where uv: "c # s = u @ t @ v" by blast
    show "strstr (c # s) t"
    proof (cases u)
      case Nil
      then have "has_prefix (c # s) t" using uv by (simp add: has_prefix_iff)
      then show ?thesis by simp
    next
      case (Cons d u')
      then show ?thesis using uv Cons.IH by auto
    qed
  qed
qed simp

section \<open>\<open>strtok\<close>\<close>

text \<open>
  One call on the rest of the string: skip delimiters, then the token up to the next delimiter
  and the position behind it.
\<close>

definition strtok :: "char \<Rightarrow> string \<Rightarrow> (string \<times> string) option" where
  "strtok delim s =
     (let s' = dropWhile (\<lambda>c. c = delim) s in
      if s' = [] then None
      else Some (takeWhile (\<lambda>c. c \<noteq> delim) s', tl (dropWhile (\<lambda>c. c \<noteq> delim) s')))"

lemma length_dropWhile_less: "s \<noteq> [] \<Longrightarrow> P (hd s) \<Longrightarrow> length (dropWhile P s) < length s"
  using length_dropWhile_le [of P "tl s"] by (cases s) auto

lemma strtok_shorter: "strtok delim s = Some (t, r) \<Longrightarrow> length r < length s"
  unfolding strtok_def Let_def
  using length_dropWhile_le [of "\<lambda>c. c = delim" s]
    length_dropWhile_le [of "\<lambda>c. c \<noteq> delim" "dropWhile (\<lambda>c. c = delim) s"]
  by (cases "dropWhile (\<lambda>c. c = delim) s") (auto split: if_splits)

text \<open>All tokens, as the callers collect them with repeated calls.\<close>

function strtok_all :: "char \<Rightarrow> string \<Rightarrow> string list" where
  "strtok_all delim s =
     (case strtok delim s of None \<Rightarrow> [] | Some (t, r) \<Rightarrow> t # strtok_all delim r)"
  by pat_completeness auto
termination
  by (relation "measure (\<lambda>(_, s). length s)") (auto dest: strtok_shorter)

declare strtok_all.simps [simp del]

lemma strtok_token:
  "strtok delim s = Some (t, r) \<Longrightarrow> t \<noteq> [] \<and> delim \<notin> set t"
  by (auto simp: strtok_def Let_def split: if_splits dest: set_takeWhileD)
     (metis (mono_tags, lifting) dropWhile_eq_Nil_conv hd_dropWhile hd_in_set takeWhile_eq_Nil_iff)

lemma strtok_all_tokens: "t \<in> set (strtok_all delim s) \<Longrightarrow> t \<noteq> [] \<and> delim \<notin> set t"
proof (induction delim s rule: strtok_all.induct)
  case (1 delim s)
  from "1.prems" obtain w r where wr: "strtok delim s = Some (w, r)"
    and t: "t = w \<or> t \<in> set (strtok_all delim r)"
    by (cases "strtok delim s") (auto simp: strtok_all.simps [of delim s])
  then show ?case
    using "1.IH" [OF wr refl] strtok_token [OF wr] by auto
qed

lemma strtok_chars:
  assumes "strtok delim s = Some (t, r)"
  shows "set t \<subseteq> set s" "set r \<subseteq> set s"
proof -
  let ?s = "dropWhile (\<lambda>c. c = delim) s"
  have tr: "t = takeWhile (\<lambda>c. c \<noteq> delim) ?s" "r = tl (dropWhile (\<lambda>c. c \<noteq> delim) ?s)"
    using assms by (auto simp: strtok_def Let_def split: if_splits)
  have s: "set ?s \<subseteq> set s" by (meson set_dropWhileD subsetI)
  moreover have "set t \<subseteq> set ?s" unfolding tr(1) by (meson set_takeWhileD subsetI)
  moreover have "set (tl x) \<subseteq> set x" for x :: string by (cases x) auto
  then have "set r \<subseteq> set (dropWhile (\<lambda>c. c \<noteq> delim) ?s)" unfolding tr(2) .
  moreover have "set (dropWhile (\<lambda>c. c \<noteq> delim) ?s) \<subseteq> set ?s" by (meson set_dropWhileD subsetI)
  ultimately show "set t \<subseteq> set s" "set r \<subseteq> set s" by blast+
qed

lemma strtok_all_chars: "t \<in> set (strtok_all delim s) \<Longrightarrow> set t \<subseteq> set s"
proof (induction delim s rule: strtok_all.induct)
  case (1 delim s)
  from "1.prems" obtain w r where wr: "strtok delim s = Some (w, r)"
    and t: "t = w \<or> t \<in> set (strtok_all delim r)"
    by (cases "strtok delim s") (auto simp: strtok_all.simps [of delim s])
  then show ?case using "1.IH" [OF wr refl] strtok_chars [OF wr] by auto
qed

lemma strtok_Cons_delim: "strtok d (d # s) = strtok d s"
  by (simp add: strtok_def)

lemma strtok_word:
  assumes "w \<noteq> []" "d \<notin> set w"
  shows "strtok d (w @ d # s) = Some (w, s)" and "strtok d w = Some (w, [])"
proof -
  have *: "dropWhile (\<lambda>c. c = d) (w @ x) = w @ x" for x
    using assms by (cases w) auto
  have "takeWhile (\<lambda>c. c \<noteq> d) (w @ d # s) = w" "dropWhile (\<lambda>c. c \<noteq> d) (w @ d # s) = d # s"
    using assms(2) by (induction w) auto
  then show "strtok d (w @ d # s) = Some (w, s)"
    using assms(1) by (simp add: strtok_def *)
  have "takeWhile (\<lambda>c. c \<noteq> d) w = w" "tl (dropWhile (\<lambda>c. c \<noteq> d) w) = []"
    using assms(2) by (induction w) auto
  then show "strtok d w = Some (w, [])"
    using assms(1) * [of "[]"] by (simp add: strtok_def)
qed

section \<open>Numbers\<close>

text \<open>\<open>sprintf\<close> with \<open>%u\<close>, \<open>%lu\<close> and \<open>%d\<close>.\<close>

definition digit_char :: "nat \<Rightarrow> char" where
  "digit_char n = char_of (48 + n)"

fun show_nat :: "nat \<Rightarrow> string" where
  "show_nat n = (if n < 10 then [digit_char n] else show_nat (n div 10) @ [digit_char (n mod 10)])"

declare show_nat.simps [simp del]

definition show_int :: "int \<Rightarrow> string" where
  "show_int i = (if i < 0 then CHR ''-'' # show_nat (nat (- i)) else show_nat (nat i))"

definition is_digit :: "char \<Rightarrow> bool" where
  "is_digit c \<longleftrightarrow> 48 \<le> (of_char c :: nat) \<and> (of_char c :: nat) \<le> 57"

definition digit_val :: "char \<Rightarrow> nat" where
  "digit_val c = of_char c - 48"

fun read_digits :: "nat \<Rightarrow> string \<Rightarrow> nat" where
  "read_digits acc [] = acc"
| "read_digits acc (c # s) = (if is_digit c then read_digits (10 * acc + digit_val c) s else acc)"

text \<open>\<open>strtol\<close> in base ten saturates at the bounds of \<open>long\<close>; \<open>atoi\<close> is its value cut to \<open>int\<close>.\<close>

definition strtol :: "string \<Rightarrow> int" where
  "strtol s =
     (let s' = dropWhile isspace s;
          v = (case s' of
                 [] \<Rightarrow> 0
               | c # r \<Rightarrow> if c = CHR ''-'' then - int (read_digits 0 r)
                          else if c = CHR ''+'' then int (read_digits 0 r)
                          else int (read_digits 0 s'))
      in max (- (2 ^ 63)) (min (2 ^ 63 - 1) v))"

definition atoi :: "string \<Rightarrow> int" where
  "atoi s = sint (word_of_int (strtol s) :: 32 word)"

lemma digit_char_props:
  assumes "d < 10"
  shows "is_digit (digit_char d)" "digit_val (digit_char d) = d" "\<not> isspace (digit_char d)"
    "digit_char d \<noteq> CHR ''-''" "digit_char d \<noteq> CHR ''+''"
proof -
  have "of_char (digit_char d) = 48 + d"
    using assms by (simp add: digit_char_def)
  then show "is_digit (digit_char d)" "digit_val (digit_char d) = d"
    "\<not> isspace (digit_char d)" "digit_char d \<noteq> CHR ''-''" "digit_char d \<noteq> CHR ''+''"
    using assms by (auto simp: is_digit_def digit_val_def isspace_def)
qed

lemma read_digits_snoc:
  "\<forall>c\<in>set s. is_digit c \<Longrightarrow> is_digit c \<Longrightarrow> read_digits acc (s @ [c]) = 10 * read_digits acc s + digit_val c"
  by (induction s arbitrary: acc) auto

lemma show_nat_digits: "\<forall>c\<in>set (show_nat n). is_digit c"
proof (induction n rule: show_nat.induct)
  case (1 n)
  then show ?case by (subst show_nat.simps) (auto simp: digit_char_props)
qed

lemma read_show_nat: "read_digits 0 (show_nat n) = n"
proof (induction n rule: show_nat.induct)
  case (1 n)
  then show ?case
    by (subst show_nat.simps)
       (simp add: digit_char_props read_digits_snoc show_nat_digits)
qed

lemma show_nat_head: "\<exists>d r. show_nat n = digit_char d # r \<and> d < 10"
proof (induction n rule: show_nat.induct)
  case (1 n)
  then show ?case
    by (cases "n < 10") (auto simp: show_nat.simps [of n])
qed

lemma strtol_show_int:
  assumes "- (2 ^ 63) \<le> i" "i < 2 ^ 63"
  shows "strtol (show_int i) = i"
proof (cases "i < 0")
  case True
  have "\<not> isspace CHR ''-''" by (simp add: isspace_def)
  then show ?thesis using True assms by (simp add: strtol_def show_int_def read_show_nat)
next
  case False
  obtain d r where dr: "show_nat (nat i) = digit_char d # r" "d < 10"
    using show_nat_head by blast
  then have "dropWhile isspace (show_nat (nat i)) = show_nat (nat i)"
    by (simp add: digit_char_props)
  then show ?thesis
    using False assms dr digit_char_props [OF dr(2)] read_show_nat [of "nat i"]
    by (simp add: strtol_def show_int_def)
qed

lemma atoi_show_int: "- (2 ^ 31) \<le> i \<Longrightarrow> i < 2 ^ 31 \<Longrightarrow> atoi (show_int i) = i"
  by (simp add: atoi_def strtol_show_int int_word_sint)

lemma show_int_no_NUL: "NUL \<notin> set (show_int i)"
proof
  assume "NUL \<in> set (show_int i)"
  then have "is_digit NUL"
    using show_nat_digits by (auto simp: show_int_def split: if_splits)
  then show False by (simp add: is_digit_def)
qed

text \<open>
  \<open>scanf\<close> with \<open>%d\<close>: the number if there is one, and the input that is left. Without a
  digit nothing is assigned.
\<close>

definition scanf_d :: "string \<Rightarrow> int option \<times> string" where
  "scanf_d s =
     (let s' = dropWhile isspace s;
          sgn = (if s' \<noteq> [] \<and> (hd s' = CHR ''-'' \<or> hd s' = CHR ''+'') then [hd s'] else []);
          ds = takeWhile is_digit (drop (length sgn) s')
      in if ds = [] then (None, s')
         else (Some (atoi (sgn @ ds)), drop (length sgn + length ds) s'))"

text \<open>
  \<open>fgets (buf, n, f)\<close>: up to \<open>n - 1\<close> characters, through the first newline; \<open>None\<close> at the end
  of the file.
\<close>

definition fgets :: "nat \<Rightarrow> string \<Rightarrow> (string \<times> string) option" where
  "fgets n s =
     (if s = [] then None
      else let l = takeWhile (\<lambda>c. c \<noteq> NL) s;
               k = min (n - 1) (if length l < length s then length l + 1 else length l)
           in Some (take k s, drop k s))"

lemma fgets_shorter: "fgets n s = Some (l, r) \<Longrightarrow> 1 < n \<Longrightarrow> length r < length s"
  by (cases s) (auto simp: fgets_def Let_def split: if_splits)

lemma fgets_line:
  assumes "NL \<notin> set l" "length l < n - 1"
  shows "fgets n (l @ NL # r) = Some (l @ [NL], r)"
proof -
  have "takeWhile (\<lambda>c. c \<noteq> NL) (l @ NL # r) = l"
    using assms(1) by (induction l) auto
  then show ?thesis using assms(2) by (simp add: fgets_def Let_def)
qed

end
