(* ===== verification/SerBuf.thy ===== *)
theory SerBuf
  imports CLib
begin

text \<open>
  The growing serialisation buffer of \<^verbatim>\<open>CommandParser/serialize.c\<close>: every operation of the
  file, including the growth loop, the overflow of the C \<open>int\<close> it may end in and the fault it
  runs into on a buffer of size zero.
\<close>

section \<open>State\<close>

text \<open>
  \<open>sb_b\<close> is the allocated object. Cells that \<open>realloc\<close> adds are indeterminate in C; the model
  fills them with NUL, and nothing here reads a cell that was not written.
\<close>

record ser_buff =
  sb_b :: "char list"
  sb_size :: int
  sb_next :: int
  sb_checkpoint :: int

definition init_serialized_buffer_of_defined_size :: "int \<Rightarrow> ser_buff" where
  "init_serialized_buffer_of_defined_size n =
     \<lparr>sb_b = replicate (nat n) NUL, sb_size = n, sb_next = 0, sb_checkpoint = 0\<rparr>"

definition init_serialized_buffer :: ser_buff where
  "init_serialized_buffer =
     \<lparr>sb_b = replicate 512 NUL, sb_size = 512, sb_next = 0, sb_checkpoint = 0\<rparr>"

definition is_serialized_buffer_empty :: "ser_buff \<Rightarrow> bool" where
  "is_serialized_buffer_empty b \<longleftrightarrow> sb_next b = 0"

definition get_serialize_buffer_current_ptr_offset :: "ser_buff option \<Rightarrow> int" where
  "get_serialize_buffer_current_ptr_offset p = (case p of None \<Rightarrow> -1 | Some b \<Rightarrow> sb_next b)"

definition get_serialize_buffer_size :: "ser_buff \<Rightarrow> int" where
  "get_serialize_buffer_size b = sb_next b"

section \<open>Growing\<close>

text \<open>
  \<open>while (available_size < n) { size *= 2; available_size = size - next; }\<close>. Where \<open>n\<close> is a
  \<open>sizeof\<close> the comparison is unsigned, and a negative \<open>available_size\<close> counts as large. The size
  is a C \<open>int\<close>: a doubling that leaves its range overflows.
\<close>

definition fits_int :: "int \<Rightarrow> bool" where
  "fits_int i \<longleftrightarrow> - (2 ^ 31) \<le> i \<and> i < 2 ^ 31"

definition too_small :: "bool \<Rightarrow> int \<Rightarrow> int \<Rightarrow> bool" where
  "too_small is_sizeof available_size n \<longleftrightarrow>
     (if is_sizeof then 0 \<le> available_size \<and> available_size < n else available_size < n)"

partial_function (option) grow :: "bool \<Rightarrow> int \<Rightarrow> int \<Rightarrow> int \<Rightarrow> int res option" where
  "grow is_sizeof sz nxt n =
     (if too_small is_sizeof (sz - nxt) n
      then if fits_int (sz * 2) then grow is_sizeof (sz * 2) nxt n else Some (Inl IntOverflow)
      else Some (Inr sz))"

declare grow.simps [code]

definition realloc :: "char list \<Rightarrow> int \<Rightarrow> char list" where
  "realloc m n = take (nat n) m @ replicate (nat n - length m) NUL"

text \<open>A copy of \<open>data\<close> to the address \<open>b + off\<close>.\<close>

definition store :: "char list \<Rightarrow> int \<Rightarrow> char list \<Rightarrow> char list res" where
  "store m off data =
     (if off < 0 then Inl OutOfBounds else memcpy m (nat off) data 0 (length data))"

text \<open>
  The body that all serialisation functions of the file share; the header holds it as the macro
  \<open>serialize_primitive\<close>.
\<close>

definition serialize_primitive :: "bool \<Rightarrow> ser_buff option \<Rightarrow> char list \<Rightarrow> ser_buff res" where
  "serialize_primitive is_sizeof p data =
     (case p of
        None \<Rightarrow> Inl AssertFail
      | Some b \<Rightarrow>
          (case grow is_sizeof (sb_size b) (sb_next b) (int (length data)) of
             None \<Rightarrow> Inl Diverges
           | Some (Inl e) \<Rightarrow> Inl e
           | Some (Inr sz) \<Rightarrow>
               let m = (if sz = sb_size b then sb_b b else realloc (sb_b b) sz) in
               rbind (store m (sb_next b) data) (\<lambda>m'.
               Inr (b\<lparr>sb_b := m', sb_size := sz, sb_next := sb_next b + int (length data)\<rparr>))))"

text \<open>The object representation of an \<open>int\<close>, low byte first.\<close>

definition int_bytes :: "int \<Rightarrow> char list" where
  "int_bytes i = [char_of i, char_of (i div 256), char_of (i div 65536), char_of (i div 16777216)]"

definition int_of_bytes :: "char list \<Rightarrow> int" where
  "int_of_bytes cs =
     sint (word_of_int (of_char (cs ! 0) + 256 * of_char (cs ! 1) + 65536 * of_char (cs ! 2) +
                        16777216 * of_char (cs ! 3)) :: 32 word)"

definition serialize_int :: "ser_buff option \<Rightarrow> int \<Rightarrow> ser_buff res" where
  "serialize_int b data = serialize_primitive True b (int_bytes data)"

definition serialize_int8 :: "ser_buff option \<Rightarrow> char \<Rightarrow> ser_buff res" where
  "serialize_int8 b data = serialize_primitive True b [data]"

definition serialize_uint8 :: "ser_buff option \<Rightarrow> char \<Rightarrow> ser_buff res" where
  "serialize_uint8 b data = serialize_primitive True b [data]"

definition serialize_int32 :: "ser_buff option \<Rightarrow> int \<Rightarrow> ser_buff res" where
  "serialize_int32 b data = serialize_primitive True b (int_bytes data)"

definition serialize_uint32 :: "ser_buff option \<Rightarrow> int \<Rightarrow> ser_buff res" where
  "serialize_uint32 b data = serialize_primitive True b (int_bytes data)"

text \<open>Floating point values are given by their object representation, four or eight bytes.\<close>

definition serialize_float :: "ser_buff option \<Rightarrow> char \<times> char \<times> char \<times> char \<Rightarrow> ser_buff res" where
  "serialize_float b data =
     (case data of (c0, c1, c2, c3) \<Rightarrow> serialize_primitive True b [c0, c1, c2, c3])"

definition serialize_double ::
    "ser_buff option \<Rightarrow> (char \<times> char \<times> char \<times> char) \<times> (char \<times> char \<times> char \<times> char) \<Rightarrow> ser_buff res" where
  "serialize_double b data =
     (case data of ((c0, c1, c2, c3), (c4, c5, c6, c7)) \<Rightarrow>
        serialize_primitive True b [c0, c1, c2, c3, c4, c5, c6, c7])"

text \<open>\<open>serialize_string (b, data, nbytes)\<close>; \<open>data\<close> is the object the pointer points to.\<close>

definition serialize_string :: "ser_buff option \<Rightarrow> char list \<Rightarrow> nat \<Rightarrow> ser_buff res" where
  "serialize_string b data nbytes =
     (if length data < nbytes then Inl OutOfBounds
      else serialize_primitive False b (take nbytes data))"

definition serialize_buffer_skip :: "ser_buff \<Rightarrow> int \<Rightarrow> ser_buff res" where
  "serialize_buffer_skip b n =
     (if sb_size b - sb_next b \<ge> n then Inr (b\<lparr>sb_next := sb_next b + n\<rparr>)
      else
        (case grow False (sb_size b) (sb_next b) n of
           None \<Rightarrow> Inl Diverges
         | Some (Inl e) \<Rightarrow> Inl e
         | Some (Inr sz) \<Rightarrow>
             Inr (b\<lparr>sb_b := realloc (sb_b b) sz, sb_size := sz, sb_next := sb_next b + n\<rparr>)))"

section \<open>Checkpoints, reset, truncation, reading\<close>

definition restore_checkpoint_serialize_buffer :: "ser_buff option \<Rightarrow> ser_buff res" where
  "restore_checkpoint_serialize_buffer p =
     (case p of None \<Rightarrow> Inl AssertFail | Some b \<Rightarrow> Inr (b\<lparr>sb_next := sb_checkpoint b\<rparr>))"

definition mark_checkpoint_serialize_buffer :: "ser_buff option \<Rightarrow> ser_buff res" where
  "mark_checkpoint_serialize_buffer p =
     (case p of None \<Rightarrow> Inl AssertFail | Some b \<Rightarrow> Inr (b\<lparr>sb_checkpoint := sb_next b\<rparr>))"

definition get_serialize_buffer_checkpoint_offset :: "ser_buff \<Rightarrow> int" where
  "get_serialize_buffer_checkpoint_offset b = sb_checkpoint b"

definition reset_serialize_buffer :: "ser_buff \<Rightarrow> ser_buff" where
  "reset_serialize_buffer b = b\<lparr>sb_next := 0, sb_checkpoint := 0\<rparr>"

definition truncate_serialize_buffer :: "ser_buff \<Rightarrow> ser_buff res" where
  "truncate_serialize_buffer b =
     (if sb_next b = sb_size b then Inr b
      else
        (let clone = init_serialized_buffer_of_defined_size (sb_next b) in
         rbind (memcpy (sb_b clone) 0 (sb_b b) 0 (nat (sb_next b))) (\<lambda>m.
         Inr (clone\<lparr>sb_b := m, sb_next := sb_size clone\<rparr>))))"

text \<open>The result is what was copied to \<open>dest\<close> and the buffer.\<close>

definition de_serialize_string :: "ser_buff option \<Rightarrow> int \<Rightarrow> (char list \<times> ser_buff) res" where
  "de_serialize_string p n =
     (case p of
        None \<Rightarrow> Inl AssertFail
      | Some b \<Rightarrow>
          rbind (require (n \<noteq> 0) AssertFail) (\<lambda>_.
          rbind (require (\<not> sb_size b - sb_next b < n) AssertFail) (\<lambda>_.
          rbind (require (0 \<le> sb_next b \<and> 0 \<le> n) OutOfBounds) (\<lambda>_.
          rbind (memcpy (replicate (nat n) NUL) 0 (sb_b b) (nat (sb_next b)) (nat n)) (\<lambda>d.
          Inr (d, b\<lparr>sb_next := sb_next b + n\<rparr>))))))"

definition copy_in_serialized_buffer_by_offset ::
    "ser_buff \<Rightarrow> int \<Rightarrow> char list \<Rightarrow> int \<Rightarrow> ser_buff res" where
  "copy_in_serialized_buffer_by_offset b n val offset =
     (if sb_size b - sb_next b < n then Inr b
      else if offset > sb_size b then Inr b
      else rbind (require (0 \<le> n \<and> nat n \<le> length val) OutOfBounds) (\<lambda>_.
           rbind (store (sb_b b) offset (take (nat n) val)) (\<lambda>m. Inr (b\<lparr>sb_b := m\<rparr>))))"

section \<open>The written part\<close>

text \<open>
  A buffer is well formed when its object has the recorded size, \<open>next\<close> lies inside it and the
  checkpoint does not lie behind \<open>next\<close>; \<open>written\<close> is what the appends have put there.
\<close>

definition sb_wf :: "ser_buff \<Rightarrow> bool" where
  "sb_wf b \<longleftrightarrow>
     0 < sb_size b \<and> int (length (sb_b b)) = sb_size b \<and>
     0 \<le> sb_next b \<and> sb_next b \<le> sb_size b \<and> 0 \<le> sb_checkpoint b \<and> sb_checkpoint b \<le> sb_next b"

definition written :: "ser_buff \<Rightarrow> char list" where
  "written b = take (nat (sb_next b)) (sb_b b)"

lemma length_written [simp]: "sb_wf b \<Longrightarrow> int (length (written b)) = sb_next b"
  by (auto simp: sb_wf_def written_def)

lemma sb_wf_init [simp]:
  "0 < n \<Longrightarrow> sb_wf (init_serialized_buffer_of_defined_size n)"
  "sb_wf init_serialized_buffer"
  by (simp_all add: sb_wf_def init_serialized_buffer_of_defined_size_def init_serialized_buffer_def)

lemma init_fields [simp]:
  "sb_next (init_serialized_buffer_of_defined_size n) = 0"
  "sb_size (init_serialized_buffer_of_defined_size n) = n"
  by (simp_all add: init_serialized_buffer_of_defined_size_def)

lemma written_init [simp]:
  "written (init_serialized_buffer_of_defined_size n) = []"
  "written init_serialized_buffer = []"
  by (simp_all add: written_def init_serialized_buffer_of_defined_size_def init_serialized_buffer_def)

lemma reset_props [simp]:
  "sb_wf b \<Longrightarrow> sb_wf (reset_serialize_buffer b)"
  "written (reset_serialize_buffer b) = []"
  "sb_size (reset_serialize_buffer b) = sb_size b"
  "sb_checkpoint (reset_serialize_buffer b) = 0"
  by (simp_all add: sb_wf_def written_def reset_serialize_buffer_def)

text \<open>
  The growth loop ends on every buffer of positive size, with less than twice what is needed. No
  doubling overflows while what is needed is at most \<open>2 ^ 30\<close>: the last one starts below that.
\<close>

lemma grow_ends:
  assumes "0 < sz" "nxt \<le> sz" "nxt + n \<le> 2 ^ 30"
  shows "\<exists>sz'. grow u sz nxt n = Some (Inr sz') \<and> sz \<le> sz' \<and> n \<le> sz' - nxt \<and>
    (sz' = sz \<or> sz' < 2 * (nxt + n))"
  using assms
proof (induction "nat (nxt + n - sz)" arbitrary: sz rule: less_induct)
  case less
  show ?case
  proof (cases "sz - nxt < n")
    case False
    then show ?thesis by (subst grow.simps) (auto simp: too_small_def)
  next
    case True
    have "\<exists>sz'. grow u (sz * 2) nxt n = Some (Inr sz') \<and> sz * 2 \<le> sz' \<and> n \<le> sz' - nxt \<and>
      (sz' = sz * 2 \<or> sz' < 2 * (nxt + n))"
      using less.prems True by (intro less.hyps) auto
    moreover have "fits_int (sz * 2)"
      using less.prems True by (simp add: fits_int_def)
    ultimately show ?thesis
      using less.prems True by (subst grow.simps) (auto simp: too_small_def)
  qed
qed

lemma grow_fits: "n \<le> sz - nxt \<Longrightarrow> grow u sz nxt n = Some (Inr sz)"
  by (subst grow.simps) (auto simp: too_small_def)

text \<open>On a buffer of size zero the loop doubles zero for ever.\<close>

lemma grow_zero:
  assumes "grow u sz nxt n = Some r" "sz = 0" "nxt = 0"
  shows "\<not> 0 < n"
proof (rule grow.raw_induct [where P = "\<lambda>u sz nxt n r. sz = 0 \<longrightarrow> nxt = 0 \<longrightarrow> \<not> 0 < n",
      THEN mp, THEN mp, OF _ assms(1)])
  fix f u sz nxt n r
  assume IH: "\<And>u sz nxt n r. f u sz nxt n = Some r \<Longrightarrow> sz = 0 \<longrightarrow> nxt = 0 \<longrightarrow> \<not> 0 < n"
    and eq: "(if too_small u (sz - nxt) n
        then if fits_int (sz * 2) then f u (sz * 2) nxt n else Some (Inl IntOverflow)
        else Some (Inr sz)) = Some r"
  show "sz = 0 \<longrightarrow> nxt = 0 \<longrightarrow> \<not> 0 < n"
    using eq IH [of u "sz * 2" nxt n r] by (auto simp: too_small_def fits_int_def split: if_splits)
qed (use assms in auto)

text \<open>A buffer of more than \<open>2 ^ 30\<close> bytes cannot be doubled.\<close>

lemma grow_overflows:
  assumes "2 ^ 30 \<le> sz" "0 \<le> sz - nxt" "sz - nxt < n"
  shows "grow u sz nxt n = Some (Inl IntOverflow)"
  using assms by (subst grow.simps) (simp add: too_small_def fits_int_def)

lemma realloc_props [simp]:
  "int (length m) \<le> n \<Longrightarrow> length (realloc m n) = nat n"
  "int (length m) \<le> n \<Longrightarrow> k \<le> length m \<Longrightarrow> take k (realloc m n) = take k m"
  by (simp_all add: realloc_def)

text \<open>Appending is what every serialisation function does, up to \<open>2 ^ 30\<close> bytes.\<close>

lemma serialize_primitive_appends:
  assumes wf: "sb_wf b" and room: "sb_next b + int (length data) \<le> 2 ^ 30"
  shows "\<exists>b'. serialize_primitive u (Some b) data = Inr b' \<and> sb_wf b' \<and>
    written b' = written b @ data \<and> sb_checkpoint b' = sb_checkpoint b \<and>
    (sb_size b' = sb_size b \<or> sb_size b' < 2 * (sb_next b + int (length data)))"
proof -
  have w: "0 < sb_size b" "int (length (sb_b b)) = sb_size b" "0 \<le> sb_next b"
    "sb_next b \<le> sb_size b" "0 \<le> sb_checkpoint b" "sb_checkpoint b \<le> sb_next b"
    using wf by (auto simp: sb_wf_def)
  obtain sz where sz: "grow u (sb_size b) (sb_next b) (int (length data)) = Some (Inr sz)"
    "sb_size b \<le> sz" "int (length data) \<le> sz - sb_next b"
    "sz = sb_size b \<or> sz < 2 * (sb_next b + int (length data))"
    using grow_ends [of "sb_size b" "sb_next b"] w room by blast
  define m where "m = (if sz = sb_size b then sb_b b else realloc (sb_b b) sz)"
  have m: "int (length m) = sz" "take (nat (sb_next b)) m = written b"
    using w sz by (auto simp: m_def written_def)
  let ?b' = "b\<lparr>sb_b := put_at (nat (sb_next b)) data m, sb_size := sz,
               sb_next := sb_next b + int (length data)\<rparr>"
  have "store m (sb_next b) data = Inr (put_at (nat (sb_next b)) data m)"
    using w sz m by (simp add: store_def memcpy_Inr nat_le_iff)
  then have eq: "serialize_primitive u (Some b) data = Inr ?b'"
    using sz by (simp add: serialize_primitive_def Let_def m_def)
  have "written ?b' = written b @ data"
    using w sz m take_put_at_through [of "nat (sb_next b)" m data]
    by (simp add: written_def nat_add_distrib nat_le_iff)
  moreover have "sb_wf ?b'"
    using w sz m by (auto simp: sb_wf_def nat_le_iff)
  ultimately show ?thesis using eq sz by (intro exI [of _ ?b']) auto
qed

end
