(* ===== verification/StrUtil.thy ===== *)
theory StrUtil
  imports CLib
begin

text \<open>
  The string utilities of \<^verbatim>\<open>CommandParser/string_util.c\<close>: the static token array and the
  tokenizer that fills it, trimming, substitution, and the filters on received text.
\<close>

section \<open>Constants\<close>

abbreviation (input) CMD_NAME_SIZE :: nat where "CMD_NAME_SIZE \<equiv> 32"
abbreviation (input) MAX_CMD_TREE_DEPTH :: nat where "MAX_CMD_TREE_DEPTH \<equiv> 16"
abbreviation (input) LEAF_VALUE_HOLDER_SIZE :: nat where "LEAF_VALUE_HOLDER_SIZE \<equiv> 64"
abbreviation (input) LEAF_ID_SIZE :: nat where "LEAF_ID_SIZE \<equiv> 32"
abbreviation (input) PARAM_HELP_STRING_SIZE :: nat where "PARAM_HELP_STRING_SIZE \<equiv> 64"
abbreviation (input) CONS_INPUT_BUFFER_SIZE :: nat where "CONS_INPUT_BUFFER_SIZE \<equiv> 2048"

section \<open>The token array\<close>

text \<open>
  \<open>static char *tokens[MAX_CMD_TREE_DEPTH]\<close>, each element an object of
  \<open>LEAF_VALUE_HOLDER_SIZE\<close> characters, given by the string it holds.
\<close>

type_synonym token_array = "string list"

definition init_token_array :: token_array where
  "init_token_array = replicate MAX_CMD_TREE_DEPTH []"

text \<open>
  \<open>untokenize (i); strncpy (tokens[i], s, strlen (s))\<close>. Beyond the array the element itself
  does not exist, beyond 64 characters its object ends, and at exactly 64 no NUL is left.
\<close>

definition set_token :: "token_array \<Rightarrow> nat \<Rightarrow> string \<Rightarrow> token_array res" where
  "set_token ts i s =
     (if length ts \<le> i then Inl OutOfBounds
      else if LEAF_VALUE_HOLDER_SIZE < length s then Inl OutOfBounds
      else if LEAF_VALUE_HOLDER_SIZE = length s then Inl Unterminated
      else Inr (ts[i := s]))"

definition untokenize :: "token_array \<Rightarrow> nat \<Rightarrow> token_array res" where
  "untokenize ts i = (if length ts \<le> i then Inl OutOfBounds else Inr (ts[i := []]))"

definition get_token :: "token_array \<Rightarrow> nat \<Rightarrow> string res" where
  "get_token ts i = (if length ts \<le> i then Inl OutOfBounds else Inr (ts ! i))"

text \<open>\<open>tokenize (token, size, index)\<close> with \<open>size\<close> the length of the token, on a cleared element.\<close>

definition tokenize :: "token_array \<Rightarrow> string \<Rightarrow> nat \<Rightarrow> token_array res" where
  "tokenize ts token i =
     rbind (require (\<not> LEAF_VALUE_HOLDER_SIZE < length token) AssertFail) (\<lambda>_.
     set_token ts i token)"

fun re_init_tokens :: "token_array \<Rightarrow> nat \<Rightarrow> token_array res" where
  "re_init_tokens ts 0 = Inr ts"
| "re_init_tokens ts (Suc n) = rbind (re_init_tokens ts n) (\<lambda>ts'. untokenize ts' n)"

section \<open>Trimming\<close>

text \<open>\<open>while (len-1 > 0 && isspace (ptr[len-1])) ptr[--len] = 0;\<close>\<close>

function trim_right_loop :: "string \<Rightarrow> string" where
  "trim_right_loop s =
     (if length s > 1 \<and> isspace (last s) then trim_right_loop (butlast s) else s)"
  by pat_completeness auto
termination
  by (relation "measure length") auto

declare trim_right_loop.simps [simp del]

definition string_space_trim :: "string \<Rightarrow> string" where
  "string_space_trim s =
     (if s = [] then s
      else if \<not> isspace (hd s) \<and> \<not> isspace (last s) then s
      else dropWhile isspace (trim_right_loop s))"

text \<open>What trimming means: no white space at either end.\<close>

definition trimmed :: "string \<Rightarrow> string" where
  "trimmed s = rev (dropWhile isspace (rev (dropWhile isspace s)))"

lemma trim_right_snoc:
  "isspace c \<Longrightarrow> s \<noteq> [] \<Longrightarrow> trim_right_loop (s @ [c]) = trim_right_loop s"
  by (subst trim_right_loop.simps) simp

lemma trim_right_stop: "\<not> isspace (last s) \<Longrightarrow> trim_right_loop s = s"
  by (subst trim_right_loop.simps) simp

lemma dropWhile_rev_snoc:
  "dropWhile P (rev (s @ [c])) = (if P c then dropWhile P (rev s) else rev (s @ [c]))"
  by simp

lemma trimmed_snoc:
  assumes "isspace c"
  shows "trimmed (s @ [c]) = trimmed s"
proof (cases "\<forall>x\<in>set s. isspace x")
  case True
  then have "dropWhile isspace (s @ [c]) = []" "dropWhile isspace s = []"
    using assms by (auto simp: dropWhile_eq_Nil_conv)
  then show ?thesis by (simp only: trimmed_def)
next
  case False
  then have "dropWhile isspace (s @ [c]) = dropWhile isspace s @ [c]"
    by (auto simp: dropWhile_append)
  then show ?thesis using assms by (simp add: trimmed_def)
qed

lemma dropWhile_trim_right: "dropWhile isspace (trim_right_loop s) = trimmed s"
proof (induction s rule: rev_induct)
  case Nil
  then show ?case by (simp add: trimmed_def trim_right_loop.simps)
next
  case (snoc c s)
  show ?case
  proof (cases "isspace c")
    case True
    show ?thesis
    proof (cases "s = []")
      case True
      then show ?thesis using \<open>isspace c\<close> by (simp add: trimmed_def trim_right_loop.simps)
    next
      case False
      then show ?thesis using snoc.IH \<open>isspace c\<close> by (simp add: trim_right_snoc trimmed_snoc)
    qed
  next
    case False
    then have "dropWhile isspace (s @ [c]) = dropWhile isspace s @ [c] \<or>
               dropWhile isspace (s @ [c]) = [c]"
      by (auto simp: dropWhile_append)
    then have "trimmed (s @ [c]) = dropWhile isspace (s @ [c])"
      using False by (auto simp: trimmed_def)
    then show ?thesis using False by (simp add: trim_right_stop)
  qed
qed

lemma trimmed_id:
  assumes "s \<noteq> []" "\<not> isspace (hd s)" "\<not> isspace (last s)"
  shows "trimmed s = s"
proof -
  have "dropWhile isspace s = s" using assms by (cases s) auto
  moreover have "dropWhile isspace (rev s) = rev s"
    using assms by (cases "rev s") (auto simp: last_rev hd_rev [symmetric])
  ultimately show ?thesis by (simp add: trimmed_def)
qed

lemma string_space_trim_eq: "string_space_trim s = trimmed s"
  by (auto simp: string_space_trim_def dropWhile_trim_right trimmed_id)
     (simp_all add: trimmed_def)

section \<open>The tokenizer\<close>

text \<open>
  The walk through the tokens. The bound of the array is looked at only after the element
  \<open>tokens[16]\<close> was used, so a seventeenth token is a fault before the check can help.
\<close>

fun store_tokens :: "token_array \<Rightarrow> nat \<Rightarrow> string list \<Rightarrow> (token_array \<times> nat) res" where
  "store_tokens ts i [] = Inr (ts, i)"
| "store_tokens ts i (w # ws) =
     rbind (set_token ts i w) (\<lambda>ts'.
     if Suc i = MAX_CMD_TREE_DEPTH + 1
     then rbind (re_init_tokens ts' MAX_CMD_TREE_DEPTH) (\<lambda>ts''. Inr (ts'', 0))
     else store_tokens ts' (Suc i) ws)"

text \<open>The result is the token array and the count; a count of zero means that there is no token.\<close>

definition tokenizer :: "token_array \<Rightarrow> string \<Rightarrow> char \<Rightarrow> (token_array \<times> nat) res" where
  "tokenizer ts s delim =
     rbind (require (length s < CONS_INPUT_BUFFER_SIZE) OutOfBounds) (\<lambda>_.
     let a_str = string_space_trim s in
     if length a_str < 1 then Inr (ts, 0)
     else (case strtok delim a_str of
             None \<Rightarrow> Inr (ts, 0)
           | Some (token, rest) \<Rightarrow>
               rbind (set_token ts 0 token) (\<lambda>ts'. store_tokens ts' 1 (strtok_all delim rest))))"

lemma set_token_Inr:
  "i < length ts \<Longrightarrow> length s < LEAF_VALUE_HOLDER_SIZE \<Longrightarrow> set_token ts i s = Inr (ts[i := s])"
  by (simp add: set_token_def)

lemma store_tokens_fit:
  assumes "length ts = MAX_CMD_TREE_DEPTH" "i + length ws \<le> MAX_CMD_TREE_DEPTH"
    and "\<forall>w\<in>set ws. length w < LEAF_VALUE_HOLDER_SIZE"
  shows "store_tokens ts i ws = Inr (take i ts @ ws @ drop (i + length ws) ts, i + length ws)"
  using assms
proof (induction ws arbitrary: ts i)
  case (Cons w ws)
  then have "store_tokens ts i (w # ws) = store_tokens (ts[i := w]) (Suc i) ws"
    by (simp add: set_token_Inr)
  also have "\<dots> = Inr (take (Suc i) (ts[i := w]) @ ws @ drop (Suc i + length ws) (ts[i := w]),
      Suc i + length ws)"
    using Cons.prems by (intro Cons.IH) auto
  also have "take (Suc i) (ts[i := w]) = take i ts @ [w]"
    using Cons.prems by (simp add: take_Suc_conv_app_nth)
  finally show ?case by simp
qed simp

lemma store_tokens_overflow:
  assumes "length ts = MAX_CMD_TREE_DEPTH" "i \<le> MAX_CMD_TREE_DEPTH"
    and "MAX_CMD_TREE_DEPTH < i + length ws" "\<forall>w\<in>set ws. length w < LEAF_VALUE_HOLDER_SIZE"
  shows "store_tokens ts i ws = Inl OutOfBounds"
  using assms
proof (induction ws arbitrary: ts i)
  case (Cons w ws)
  show ?case
  proof (cases "i = MAX_CMD_TREE_DEPTH")
    case True
    then show ?thesis using Cons.prems by (simp add: set_token_def)
  next
    case False
    then show ?thesis
      using Cons.prems Cons.IH [of "ts[i := w]" "Suc i"] by (simp add: set_token_Inr)
  qed
qed simp

lemma tokenizer_eq:
  assumes "length s < CONS_INPUT_BUFFER_SIZE"
  shows "tokenizer ts s delim =
    (if trimmed s = [] then Inr (ts, 0) else store_tokens ts 0 (strtok_all delim (trimmed s)))"
  using assms
  by (auto simp: tokenizer_def string_space_trim_eq strtok_all.simps [of delim "trimmed s"]
      Let_def split: option.splits)

text \<open>The words of a line are its tokens, from the left, as long as they fit.\<close>

lemma tokenizer_words:
  assumes "length ts = MAX_CMD_TREE_DEPTH" "length s < CONS_INPUT_BUFFER_SIZE"
    and "ws = strtok_all delim (trimmed s)"
    and "length ws \<le> MAX_CMD_TREE_DEPTH" "\<forall>w\<in>set ws. length w < LEAF_VALUE_HOLDER_SIZE"
  shows "tokenizer ts s delim = Inr (ws @ drop (length ws) ts, length ws)"
proof (cases "trimmed s = []")
  case True
  then have "ws = []" using assms(3) by (simp add: strtok_all.simps strtok_def)
  then show ?thesis using True assms(2) by (simp add: tokenizer_eq)
next
  case False
  then show ?thesis
    using assms store_tokens_fit [of ts 0 ws] by (simp add: tokenizer_eq)
qed

lemma re_init_tokens_eq:
  "n \<le> length ts \<Longrightarrow> re_init_tokens ts n = Inr (replicate n [] @ drop n ts)"
proof (induction n)
  case (Suc n)
  then have "re_init_tokens ts (Suc n) = Inr ((replicate n [] @ drop n ts)[n := []])"
    by (simp add: untokenize_def)
  also have "(replicate n [] @ drop n ts)[n := []] = replicate (Suc n) [] @ drop (Suc n) ts"
    using Suc.prems
    by (simp add: list_update_append replicate_append_same [symmetric] Cons_nth_drop_Suc [symmetric])
  finally show ?case .
qed simp

section \<open>C strings in arrays\<close>

text \<open>The string an array holds, up to its first NUL, and \<open>sprintf\<close> at an offset of it.\<close>

definition cstr :: "char list \<Rightarrow> string" where
  "cstr buf = takeWhile (\<lambda>c. c \<noteq> NUL) buf"

definition sprintf_at :: "char list \<Rightarrow> nat \<Rightarrow> string \<Rightarrow> char list res" where
  "sprintf_at buf at s =
     (if length buf < at + length s + 1 then Inl OutOfBounds
      else Inr (put_at at (s @ [NUL]) buf))"

lemma cstr_app: "NUL \<notin> set s \<Longrightarrow> cstr (s @ NUL # rest) = s"
  unfolding cstr_def by (induction s) auto

lemma sprintf_at_end:
  assumes "length s \<le> length rest"
  shows "sprintf_at (out @ NUL # rest) (length out) s =
    Inr ((out @ s) @ NUL # drop (length s) rest)"
  using assms by (simp add: sprintf_at_def put_at_def)

section \<open>Filters on received text\<close>

definition pattern_match :: "string \<Rightarrow> nat \<Rightarrow> string \<Rightarrow> bool" where
  "pattern_match s string_size pattern =
     (if string_size = 0 then False else strstr s pattern)"

text \<open>
  \<open>grep\<close> copies \<open>string_size\<close> bytes to a block of the same size, whose tokens are then read
  as a C string: without a NUL among them the reading does not stop inside the block. The
  matching lines go back to the front of the cleared array.
\<close>

fun grep_loop :: "char list \<Rightarrow> nat \<Rightarrow> string list \<Rightarrow> string \<Rightarrow> (char list \<times> nat) res" where
  "grep_loop buf rc [] pattern = Inr (buf, rc)"
| "grep_loop buf rc (token # tokens) pattern =
     (if pattern_match token (length token) pattern
      then rbind (sprintf_at buf rc (token @ [NL])) (\<lambda>buf'.
           grep_loop buf' (rc + length token + 1) tokens pattern)
      else grep_loop buf rc tokens pattern)"

definition temp_buff :: "char list \<Rightarrow> nat \<Rightarrow> string res" where
  "temp_buff buf string_size =
     (if length buf < string_size then Inl OutOfBounds
      else if NUL \<notin> set (take string_size buf) then Inl Unterminated
      else Inr (cstr (take string_size buf)))"

definition grep :: "char list \<Rightarrow> nat \<Rightarrow> string \<Rightarrow> (char list \<times> nat) res" where
  "grep buf string_size pattern =
     (if string_size = 0 then Inr (buf, 0)
      else rbind (temp_buff buf string_size) (\<lambda>temp.
           grep_loop (replicate string_size NUL @ drop string_size buf) 0
             (strtok_all NL temp) pattern))"

fun is_number :: "string \<Rightarrow> bool" where
  "is_number [] = True"
| "is_number (c # s) =
     (if c \<in> set ''0123456789'' then is_number s else False)"

text \<open>The result is \<open>uint64_t\<close>: the \<open>int\<close> of \<open>atoi\<close> is converted to it.\<close>

fun fetch_loop :: "string list \<Rightarrow> int \<Rightarrow> int \<Rightarrow> 64 word" where
  "fetch_loop [] count index = 0"
| "fetch_loop (token # tokens) count index =
     (if \<not> is_number token then fetch_loop tokens count index
      else if index = count + 1 then word_of_int (atoi token)
      else fetch_loop tokens (count + 1) index)"

definition string_fetch_integer :: "char list \<Rightarrow> nat \<Rightarrow> int \<Rightarrow> 64 word res" where
  "string_fetch_integer buf string_size index =
     (if string_size = 0 then Inr 0
      else rbind (temp_buff buf string_size) (\<lambda>temp.
           Inr (fetch_loop (strtok_all CHR '' '' temp) 0 index)))"

section \<open>Substitution\<close>

text \<open>
  \<open>replaceSubstring\<close> works inside the array of the line. The comparison loop reads the text
  and the pattern with their NULs, so at the end of the text it can run past the pattern; one
  array element out of the object is a fault.
\<close>

definition read_at :: "char list \<Rightarrow> nat \<Rightarrow> char res" where
  "read_at buf i = (if i < length buf then Inr (buf ! i) else Inl OutOfBounds)"

definition write_at :: "char list \<Rightarrow> nat \<Rightarrow> char \<Rightarrow> char list res" where
  "write_at buf i c = (if i < length buf then Inr (buf[i := c]) else Inl OutOfBounds)"

text \<open>\<open>for (j = 0; string[i] == sub[j]; j++, i++) if (j == subLen - 1) flag = 1;\<close>\<close>

function compare_loop :: "char list \<Rightarrow> char list \<Rightarrow> nat \<Rightarrow> nat \<Rightarrow> bool \<Rightarrow> (nat \<times> nat \<times> bool) res" where
  "compare_loop str sub i j flag =
     (if length str \<le> i \<or> length sub \<le> j then Inl OutOfBounds
      else if str ! i = sub ! j
      then compare_loop str sub (Suc i) (Suc j) (flag \<or> int j = int (length sub) - 2)
      else Inr (i, j, flag))"
  by pat_completeness auto
termination
  by (relation "measure (\<lambda>(str, sub, i, j, flag). length str - i)") auto

declare compare_loop.simps [simp del]

text \<open>\<open>for (k = start; k < stringLen; k++) string[k] = string[k + 1];\<close>, \<open>n\<close> rounds from \<open>k\<close>.\<close>

fun shift_left :: "char list \<Rightarrow> nat \<Rightarrow> nat \<Rightarrow> char list res" where
  "shift_left str k 0 = Inr str"
| "shift_left str k (Suc n) =
     rbind (read_at str (k + 1)) (\<lambda>c. rbind (write_at str k c) (\<lambda>str'. shift_left str' (k + 1) n))"

text \<open>\<open>for (k = stringLen; k >= j; k--) string[k + 1] = string[k];\<close>, \<open>n\<close> rounds down from \<open>k\<close>.\<close>

fun shift_right :: "char list \<Rightarrow> nat \<Rightarrow> nat \<Rightarrow> char list res" where
  "shift_right str k 0 = Inr str"
| "shift_right str k (Suc n) =
     rbind (read_at str k) (\<lambda>c. rbind (write_at str (k + 1) c) (\<lambda>str'. shift_right str' (k - 1) n))"

fun delete_loop :: "char list \<Rightarrow> nat \<Rightarrow> nat \<Rightarrow> nat \<Rightarrow> (char list \<times> nat) res" where
  "delete_loop str stringLen start 0 = Inr (str, stringLen)"
| "delete_loop str stringLen start (Suc n) =
     rbind (shift_left str start (stringLen - start)) (\<lambda>str'.
     delete_loop str' (stringLen - 1) start n)"

fun insert_loop :: "char list \<Rightarrow> nat \<Rightarrow> nat \<Rightarrow> string \<Rightarrow> (char list \<times> nat) res" where
  "insert_loop str stringLen j [] = Inr (str, stringLen)"
| "insert_loop str stringLen j (c # cs) =
     rbind (shift_right str stringLen (stringLen + 1 - j)) (\<lambda>str'.
     rbind (write_at str' j c) (\<lambda>str''.
     insert_loop str'' (stringLen + 1) (j + 1) cs))"

text \<open>
  One round of the outer loop. \<open>i\<close> ends at \<open>start\<close> if there was no match; otherwise the
  deletions take it back to \<open>start\<close> and the insertions forward by the length of the new text.
  Each round is followed by \<open>i++\<close>; the fuel counts the rounds.
\<close>

definition replace_round :: "char list \<Rightarrow> char list \<Rightarrow> string \<Rightarrow> nat \<Rightarrow> nat \<Rightarrow>
    (char list \<times> nat \<times> nat) res" where
  "replace_round str sub new_str stringLen i =
     rbind (compare_loop str sub i 0 False) (\<lambda>(e, j, flag).
     if \<not> flag then Inr (str, stringLen, e - j)
     else rbind (delete_loop str stringLen i (e - i)) (\<lambda>(str', len').
          rbind (insert_loop str' len' i new_str) (\<lambda>(str'', len'').
          Inr (str'', len'', e - (e - i) + length new_str))))"

fun replace_loop :: "nat \<Rightarrow> char list \<Rightarrow> char list \<Rightarrow> string \<Rightarrow> nat \<Rightarrow> nat \<Rightarrow> char list res" where
  "replace_loop 0 str sub new_str stringLen i = Inl Diverges"
| "replace_loop (Suc n) str sub new_str stringLen i =
     (if stringLen \<le> i then Inr str
      else rbind (replace_round str sub new_str stringLen i) (\<lambda>(str', len', i').
           replace_loop n str' sub new_str len' (i' + 1)))"

text \<open>
  Each round moves \<open>i\<close> forward by at least one and by at least as much as it lengthens the
  text, so the length of the text is a bound on the rounds.
\<close>

definition replaceSubstring :: "char list \<Rightarrow> string \<Rightarrow> string \<Rightarrow> char list res" where
  "replaceSubstring str sub new_str =
     rbind (require (NUL \<in> set str) Unterminated) (\<lambda>_.
     replace_loop (Suc (length (cstr str))) str (sub @ [NUL]) new_str (length (cstr str)) 0)"

section \<open>What \<open>grep\<close> leaves\<close>

definition matching_lines :: "string \<Rightarrow> string list \<Rightarrow> string" where
  "matching_lines pattern ls =
     concat (map (\<lambda>l. l @ [NL]) (filter (\<lambda>l. strstr l pattern) ls))"

lemma strtok_lengths:
  assumes "strtok d s = Some (t, r)"
  shows "length t + length r \<le> length s" "r \<noteq> [] \<Longrightarrow> length t + 1 + length r \<le> length s"
proof -
  let ?s = "dropWhile (\<lambda>c. c = d) s"
  have t: "t = takeWhile (\<lambda>c. c \<noteq> d) ?s" and r: "r = tl (dropWhile (\<lambda>c. c \<noteq> d) ?s)"
    using assms by (auto simp: strtok_def Let_def split: if_splits)
  have "length t + length (dropWhile (\<lambda>c. c \<noteq> d) ?s) = length ?s"
    unfolding t by (metis length_append takeWhile_dropWhile_id)
  moreover have "length ?s \<le> length s" by (rule length_dropWhile_le)
  moreover have "length r = length (dropWhile (\<lambda>c. c \<noteq> d) ?s) - 1"
    unfolding r by simp
  moreover have "r \<noteq> [] \<Longrightarrow> length r \<noteq> 0" by simp
  ultimately show "length t + length r \<le> length s"
    "r \<noteq> [] \<Longrightarrow> length t + 1 + length r \<le> length s" by linarith+
qed

lemma strtok_all_room: "sum_list (map (\<lambda>t. length t + 1) (strtok_all d s)) \<le> length s + 1"
proof (induction d s rule: strtok_all.induct)
  case (1 d s)
  show ?case
  proof (cases "strtok d s")
    case None
    then show ?thesis by (simp add: strtok_all.simps [of d s])
  next
    case (Some p)
    obtain t r where p: "p = (t, r)" by (cases p)
    have IH: "sum_list (map (\<lambda>t. length t + 1) (strtok_all d r)) \<le> length r + 1"
      using "1.IH" Some p by blast
    have eq: "strtok_all d s = t # strtok_all d r"
      using Some p by (simp add: strtok_all.simps [of d s])
    have st: "strtok d s = Some (t, r)" using Some p by simp
    show ?thesis
    proof (cases "r = []")
      case True
      then have "strtok_all d r = []" by (simp add: strtok_all.simps strtok_def)
      then show ?thesis using eq strtok_lengths(1) [OF st] by simp
    next
      case False
      show ?thesis using eq IH strtok_lengths(2) [OF st False] by simp
    qed
  qed
qed

lemma grep_loop_lines:
  assumes "sum_list (map (\<lambda>t. length t + 1) ts) \<le> length rest" "\<forall>t\<in>set ts. t \<noteq> []"
  shows "\<exists>rest'. grep_loop (out @ NUL # rest) (length out) ts pattern =
    Inr ((out @ matching_lines pattern ts) @ NUL # rest',
         length out + length (matching_lines pattern ts))"
  using assms
proof (induction ts arbitrary: out rest)
  case (Cons t ts)
  show ?case
  proof (cases "strstr t pattern")
    case True
    then have "grep_loop (out @ NUL # rest) (length out) (t # ts) pattern =
        grep_loop ((out @ t @ [NL]) @ NUL # drop (length t + 1) rest) (length (out @ t @ [NL]))
          ts pattern"
      using Cons.prems sprintf_at_end [of "t @ [NL]" rest out] by (simp add: pattern_match_def)
    moreover have "\<exists>rest'. grep_loop ((out @ t @ [NL]) @ NUL # drop (length t + 1) rest)
          (length (out @ t @ [NL])) ts pattern =
        Inr (((out @ t @ [NL]) @ matching_lines pattern ts) @ NUL # rest',
             length (out @ t @ [NL]) + length (matching_lines pattern ts))"
      using Cons.prems by (intro Cons.IH) auto
    ultimately show ?thesis using True by (simp add: matching_lines_def add.assoc)
  next
    case False
    then show ?thesis
      using Cons.IH [of rest out] Cons.prems by (auto simp: matching_lines_def pattern_match_def)
  qed
qed (simp add: matching_lines_def)

lemma grep_lines:
  assumes "n < length buf" "NUL \<in> set (take n buf)" "n \<noteq> 0"
  shows "\<exists>rest. grep buf n pattern =
    Inr (matching_lines pattern (strtok_all NL (cstr buf)) @ NUL # rest,
         length (matching_lines pattern (strtok_all NL (cstr buf))))"
proof -
  from assms(2) obtain u v where uv: "take n buf = u @ NUL # v" "NUL \<notin> set u"
    by (auto dest: split_list_first)
  have "buf = u @ NUL # (v @ drop n buf)"
    using uv(1) append_take_drop_id [of n buf] by simp
  then have c: "cstr (take n buf) = u" "cstr buf = u"
    using uv cstr_app by metis+
  have "length (take n buf) = n" using assms(1) by simp
  then have len: "length (cstr buf) < n" using uv(1) c by simp
  let ?rest = "replicate (n - 1) NUL @ drop n buf"
  have buf: "replicate n NUL @ drop n buf = [] @ NUL # ?rest"
    using assms(3) by (cases n) auto
  have "sum_list (map (\<lambda>t. length t + 1) (strtok_all NL (cstr buf))) \<le> length ?rest"
    using strtok_all_room [of NL "cstr buf"] len assms(1) by simp
  then obtain r where "grep_loop ([] @ NUL # ?rest) (length ([] :: string))
      (strtok_all NL (cstr buf)) pattern = Inr (([] @ matching_lines pattern
      (strtok_all NL (cstr buf))) @ NUL # r, length ([] :: string) +
      length (matching_lines pattern (strtok_all NL (cstr buf))))"
    using grep_loop_lines [of "strtok_all NL (cstr buf)" ?rest "[]" pattern]
      strtok_all_tokens by metis
  then show ?thesis
    using assms buf c by (simp add: grep_def temp_buff_def)
qed

end
