(* ===== verification/CmdTlv.thy ===== *)
theory CmdTlv
  imports SerBuf StrUtil
begin

text \<open>
  The TLV layer of \<^verbatim>\<open>CommandParser/cmdtlv.h\<close> and the enumerations of \<^verbatim>\<open>libcliid.h\<close>,
  \<^verbatim>\<open>cliconst.h\<close> and \<^verbatim>\<open>clistd.h\<close>: fixed-size units of a leaf type, a leaf id and a value,
  appended to the serialisation buffer, the last of them holding the command code. The locale
  \<open>tlv_log\<close> states what the parser relies on; it is interpreted on the buffer.
\<close>

section \<open>Enumerations\<close>

datatype op_mode = CONFIG_DISABLE | CONFIG_ENABLE | OPERATIONAL | MODE_UNKNOWN

datatype leaf_type = INT_LEAF | STRING | IPV4 | FLOAT | IPV6 | BOOLEAN | INVALID | LEAF_MAX

datatype CLI_VAL_RC = VALIDATION_FAILED | VALIDATION_SUCCESS

datatype CMD_PARSE_STATUS =
    COMPLETE
  | ERROR
  | INVALID_LEAF
  | USER_INVALID_LEAF
  | CMD_NOT_FOUND
  | INCOMPLETE_COMMAND
  | MULTIPLE_MATCHING_COMMANDS
  | UNKNOWN

datatype show_ext = brief | detail | extensive | no_ext

fun get_str_leaf_type :: "leaf_type \<Rightarrow> string" where
  "get_str_leaf_type INT_LEAF = ''INT''"
| "get_str_leaf_type STRING = ''STRING''"
| "get_str_leaf_type IPV4 = ''IPV4''"
| "get_str_leaf_type FLOAT = ''FLOAT''"
| "get_str_leaf_type IPV6 = ''IPV6''"
| "get_str_leaf_type BOOLEAN = ''BOOLEAN''"
| "get_str_leaf_type LEAF_MAX = ''LEAF_MAX''"
| "get_str_leaf_type INVALID = ''Unknown''"

text \<open>The values the enumeration has in memory.\<close>

definition leaf_types :: "leaf_type list" where
  "leaf_types = [INT_LEAF, STRING, IPV4, FLOAT, IPV6, BOOLEAN, INVALID, LEAF_MAX]"

fun leaf_type_code :: "leaf_type \<Rightarrow> int" where
  "leaf_type_code INT_LEAF = 0"
| "leaf_type_code STRING = 1"
| "leaf_type_code IPV4 = 2"
| "leaf_type_code FLOAT = 3"
| "leaf_type_code IPV6 = 4"
| "leaf_type_code BOOLEAN = 5"
| "leaf_type_code INVALID = 6"
| "leaf_type_code LEAF_MAX = 7"

definition leaf_type_of_code :: "int \<Rightarrow> leaf_type" where
  "leaf_type_of_code n = (if 0 \<le> n \<and> n < 8 then leaf_types ! nat n else LEAF_MAX)"

lemma leaf_type_of_code [simp]: "leaf_type_of_code (leaf_type_code t) = t"
  by (cases t) (simp_all add: leaf_type_of_code_def leaf_types_def)

section \<open>Units\<close>

record tlv_struct =
  leaf_type :: leaf_type
  leaf_id :: "char list"
  val :: "char list"

abbreviation (input) TLV_SIZE :: nat where "TLV_SIZE \<equiv> 100"

text \<open>The unit after \<open>memset (&tlv, 0, sizeof (tlv_struct_t))\<close>.\<close>

definition zero_tlv :: tlv_struct where
  "zero_tlv = \<lparr>leaf_type = INT_LEAF, leaf_id = replicate LEAF_ID_SIZE NUL,
               val = replicate LEAF_VALUE_HOLDER_SIZE NUL\<rparr>"

definition tlv_ok :: "tlv_struct \<Rightarrow> bool" where
  "tlv_ok t \<longleftrightarrow> length (leaf_id t) = LEAF_ID_SIZE \<and> length (val t) = LEAF_VALUE_HOLDER_SIZE"

text \<open>The packed object representation.\<close>

definition enc_tlv :: "tlv_struct \<Rightarrow> char list" where
  "enc_tlv t = int_bytes (leaf_type_code (leaf_type t)) @ leaf_id t @ val t"

definition dec_tlv :: "char list \<Rightarrow> tlv_struct" where
  "dec_tlv cs = \<lparr>leaf_type = leaf_type_of_code (int_of_bytes (take 4 cs)),
                 leaf_id = take LEAF_ID_SIZE (drop 4 cs),
                 val = take LEAF_VALUE_HOLDER_SIZE (drop 36 cs)\<rparr>"

lemma int_bytes_leaf_type: "int_of_bytes (int_bytes (leaf_type_code t)) = leaf_type_code t"
  by (cases t) (simp_all add: int_bytes_def int_of_bytes_def)

lemma length_int_bytes [simp]: "length (int_bytes i) = 4"
  by (simp add: int_bytes_def)

lemma length_enc_tlv: "tlv_ok t \<Longrightarrow> length (enc_tlv t) = TLV_SIZE"
  by (simp add: enc_tlv_def tlv_ok_def)

lemma dec_enc_tlv: "tlv_ok t \<Longrightarrow> dec_tlv (enc_tlv t) = t"
  by (simp add: dec_tlv_def enc_tlv_def tlv_ok_def int_bytes_leaf_type)

lemma tlv_ok_zero [simp]: "tlv_ok zero_tlv"
  by (simp add: tlv_ok_def zero_tlv_def)

text \<open>\<open>prepare_tlv_from_leaf\<close> with the leaf given by its type and id.\<close>

definition prepare_tlv_from_leaf :: "leaf_type \<Rightarrow> string \<Rightarrow> tlv_struct \<Rightarrow> tlv_struct" where
  "prepare_tlv_from_leaf ty lid t =
     t\<lparr>leaf_type := ty,
       leaf_id := put_at 0 (take (min LEAF_ID_SIZE (length lid)) lid) (leaf_id t)\<rparr>"

text \<open>
  \<open>put_value_in_tlv\<close> writes the terminating NUL at \<open>value[MIN (64, strlen (v))]\<close>, one past the
  array when the text does not fit; the unit is packed at the end of its object.
\<close>

definition put_value_in_tlv :: "tlv_struct \<Rightarrow> string \<Rightarrow> tlv_struct res" where
  "put_value_in_tlv t v =
     (if LEAF_VALUE_HOLDER_SIZE \<le> length v then Inl OutOfBounds
      else Inr (t\<lparr>val := put_at 0 (v @ [NUL]) (val t)\<rparr>))"

definition collect_tlv :: "ser_buff \<Rightarrow> tlv_struct \<Rightarrow> ser_buff res" where
  "collect_tlv b t = serialize_string (Some b) (enc_tlv t) TLV_SIZE"

lemma prepare_ok [simp]: "tlv_ok t \<Longrightarrow> tlv_ok (prepare_tlv_from_leaf ty lid t)"
  by (simp add: tlv_ok_def prepare_tlv_from_leaf_def)

lemma put_value_fits:
  assumes "tlv_ok t" "length v < LEAF_VALUE_HOLDER_SIZE" "NUL \<notin> set v"
  shows "\<exists>t'. put_value_in_tlv t v = Inr t' \<and> tlv_ok t' \<and> cstr (val t') = v \<and>
    leaf_type t' = leaf_type t \<and> leaf_id t' = leaf_id t"
  using assms by (simp add: put_value_in_tlv_def tlv_ok_def put_at_def cstr_app)

section \<open>Reading the buffer\<close>

definition tlv_unit :: "ser_buff \<Rightarrow> nat \<Rightarrow> tlv_struct res" where
  "tlv_unit b i =
     (if length (sb_b b) < TLV_SIZE * (i + 1) then Inl OutOfBounds
      else Inr (dec_tlv (take TLV_SIZE (drop (TLV_SIZE * i) (sb_b b)))))"

definition unit_count :: "ser_buff \<Rightarrow> nat" where
  "unit_count b = nat (get_serialize_buffer_size b) div TLV_SIZE"

text \<open>
  \<open>EXTRACT_CMD_CODE\<close> and the loop macro. The unit before the first one, and the
  \<open>2 ^ 32 - 1\<close> rounds of the loop on an empty buffer, are outside the object.
\<close>

definition EXTRACT_CMD_CODE :: "ser_buff \<Rightarrow> int res" where
  "EXTRACT_CMD_CODE b =
     (if unit_count b = 0 then Inl OutOfBounds
      else rbind (tlv_unit b (unit_count b - 1)) (\<lambda>t. Inr (atoi (cstr (val t)))))"

fun tlv_units_upto :: "ser_buff \<Rightarrow> nat \<Rightarrow> tlv_struct list res" where
  "tlv_units_upto b 0 = Inr []"
| "tlv_units_upto b (Suc n) =
     rbind (tlv_units_upto b n) (\<lambda>ts. rbind (tlv_unit b n) (\<lambda>t. Inr (ts @ [t])))"

definition TLV_LOOP :: "ser_buff \<Rightarrow> tlv_struct list res" where
  "TLV_LOOP b =
     (if unit_count b = 0 then Inl OutOfBounds else tlv_units_upto b (unit_count b - 1))"

definition get_show_extension_type :: "ser_buff option \<Rightarrow> show_ext res" where
  "get_show_extension_type p =
     (case p of
        None \<Rightarrow> Inl AssertFail
      | Some b \<Rightarrow>
          if unit_count b = 0 then Inr no_ext
          else rbind (tlv_unit b (if unit_count b = 1 then 0 else unit_count b - 2)) (\<lambda>t.
               if \<not> has_prefix (cstr (leaf_id t)) ''SHOW_EXTENSIONS'' then Inr no_ext
               else if has_prefix (cstr (val t)) ''SHOW_BRIEF'' then Inr brief
               else if has_prefix (cstr (val t)) ''SHOW_DETAIL'' then Inr detail
               else if has_prefix (cstr (val t)) ''SHOW_EXTENSIVE'' then Inr extensive
               else Inl AssertFail))"

text \<open>The text \<open>print_tlv_content\<close> and \<open>dump_tlv_serialized_buffer\<close> print, line by line.\<close>

definition print_tlv_content :: "tlv_struct \<Rightarrow> string list" where
  "print_tlv_content t =
     [''tlv->leaf_type = '' @ get_str_leaf_type (leaf_type t) @ [NL],
      ''tlv->leaf_id   = '' @ cstr (leaf_id t) @ [NL],
      ''tlv->value     = '' @ cstr (val t) @ [NL]]"

definition dump_tlv_serialized_buffer :: "ser_buff \<Rightarrow> string list res" where
  "dump_tlv_serialized_buffer b =
     rbind (EXTRACT_CMD_CODE b) (\<lambda>n.
     rbind (TLV_LOOP b) (\<lambda>ts.
     Inr ((''cmd code = '' @ show_int n @ [NL]) #
          concat (map (\<lambda>t. print_tlv_content t @ [[NL]]) ts))))"

text \<open>\<open>swap_tlv_units\<close> on two units of the buffer.\<close>

definition swap_tlv_units :: "ser_buff \<Rightarrow> nat \<Rightarrow> nat \<Rightarrow> ser_buff res" where
  "swap_tlv_units b i j =
     (if length (sb_b b) < TLV_SIZE * (i + 1) \<or> length (sb_b b) < TLV_SIZE * (j + 1)
      then Inl OutOfBounds
      else let x = take TLV_SIZE (drop (TLV_SIZE * i) (sb_b b));
               y = take TLV_SIZE (drop (TLV_SIZE * j) (sb_b b))
           in Inr (b\<lparr>sb_b := put_at (TLV_SIZE * j) x (put_at (TLV_SIZE * i) y (sb_b b))\<rparr>))"

section \<open>The buffer as a list of units\<close>

text \<open>Cells of a fixed width; the list of what is in the first \<open>n\<close> of them.\<close>

definition cell :: "'a list \<Rightarrow> nat \<Rightarrow> 'a list" where
  "cell m i = take TLV_SIZE (drop (TLV_SIZE * i) m)"

definition units :: "char list \<Rightarrow> nat \<Rightarrow> tlv_struct list" where
  "units m n = map (\<lambda>i. dec_tlv (cell m i)) [0..<n]"

lemma length_units [simp]: "length (units m n) = n"
  by (simp add: units_def)

lemma units_0 [simp]: "units m 0 = []"
  by (simp add: units_def)

lemma units_Suc: "units m (Suc n) = units m n @ [dec_tlv (cell m n)]"
  by (simp add: units_def)

lemma take_units: "k \<le> n \<Longrightarrow> take k (units m n) = units m k"
  by (simp add: units_def take_map)

lemma cell_cong:
  assumes "take (TLV_SIZE * n) m = take (TLV_SIZE * n) m'" "i < n"
  shows "cell m i = cell m' i"
proof -
  have "cell x i = drop (TLV_SIZE * i) (take (TLV_SIZE * i + TLV_SIZE) (take (TLV_SIZE * n) x))"
    for x :: "'a list"
    using assms(2) by (simp add: cell_def take_drop min_absorb1 add.commute)
  then show ?thesis using assms(1) by metis
qed

lemma units_cong:
  "take (TLV_SIZE * n) m = take (TLV_SIZE * n) m' \<Longrightarrow> k \<le> n \<Longrightarrow> units m k = units m' k"
  unfolding units_def using cell_cong [of n m m'] by (auto intro!: map_cong)

lemma cell_after:
  assumes "length m = TLV_SIZE * n" "length u = TLV_SIZE"
  shows "cell (m @ u @ r) n = u"
  using assms by (simp add: cell_def)

definition tlv_wf :: "ser_buff \<Rightarrow> bool" where
  "tlv_wf b \<longleftrightarrow> sb_wf b \<and> int TLV_SIZE dvd sb_next b \<and> int TLV_SIZE dvd sb_checkpoint b"

definition tlvs :: "ser_buff \<Rightarrow> tlv_struct list" where
  "tlvs b = units (sb_b b) (unit_count b)"

definition tlvs_marked :: "ser_buff \<Rightarrow> tlv_struct list" where
  "tlvs_marked b = units (sb_b b) (nat (sb_checkpoint b) div TLV_SIZE)"

lemma tlv_wf_count:
  assumes "tlv_wf b"
  shows "sb_next b = int (TLV_SIZE * unit_count b)" "TLV_SIZE * unit_count b \<le> length (sb_b b)"
    "sb_checkpoint b = int (TLV_SIZE * (nat (sb_checkpoint b) div TLV_SIZE))"
    "nat (sb_checkpoint b) div TLV_SIZE \<le> unit_count b"
proof -
  have w: "sb_wf b" "int TLV_SIZE dvd sb_next b" "int TLV_SIZE dvd sb_checkpoint b"
    using assms by (auto simp: tlv_wf_def)
  then obtain k c where kc: "sb_next b = 100 * k" "sb_checkpoint b = 100 * c"
    by (auto elim!: dvdE)
  have nn: "0 \<le> k" "0 \<le> c" "c \<le> k" using w(1) kc by (auto simp: sb_wf_def)
  have k: "unit_count b = nat k"
    using kc nn by (simp add: unit_count_def get_serialize_buffer_size_def nat_mult_distrib)
  have c: "nat (sb_checkpoint b) div TLV_SIZE = nat c"
    using kc nn by (simp add: nat_mult_distrib)
  show "sb_next b = int (TLV_SIZE * unit_count b)" using k kc nn by simp
  then show "TLV_SIZE * unit_count b \<le> length (sb_b b)" using w(1) by (simp add: sb_wf_def)
  show "sb_checkpoint b = int (TLV_SIZE * (nat (sb_checkpoint b) div TLV_SIZE))"
    using c kc nn by simp
  show "nat (sb_checkpoint b) div TLV_SIZE \<le> unit_count b" using k c nn by simp
qed

lemma tlvs_written:
  assumes "tlv_wf b"
  shows "written b = take (TLV_SIZE * unit_count b) (sb_b b)"
proof -
  have "nat (sb_next b) = TLV_SIZE * unit_count b"
    using tlv_wf_count(1) [OF assms] by (metis nat_int)
  then show ?thesis by (simp add: written_def)
qed

text \<open>
  Collecting a unit appends it, while the buffer stays below \<open>2 ^ 30\<close> bytes; beyond, doubling its
  size may overflow. Ten million units always fit.
\<close>

definition MAX_UNITS :: nat where
  "MAX_UNITS = 10000000"

lemma collect_tlv_appends:
  assumes wf: "tlv_wf b" and ok: "tlv_ok t" and room: "length (tlvs b) < MAX_UNITS"
  shows "\<exists>b'. collect_tlv b t = Inr b' \<and> tlv_wf b' \<and> tlvs b' = tlvs b @ [t] \<and>
    tlvs_marked b' = tlvs_marked b"
proof -
  have sw: "sb_wf b" using wf by (simp add: tlv_wf_def)
  have len: "length (enc_tlv t) = TLV_SIZE" using ok by (rule length_enc_tlv)
  have "unit_count b < 10000000" using room by (simp add: tlvs_def MAX_UNITS_def)
  then have fits: "sb_next b + int (length (enc_tlv t)) \<le> 2 ^ 30"
    using tlv_wf_count(1) [OF wf] len by simp
  obtain b' where b': "serialize_primitive False (Some b) (enc_tlv t) = Inr b'" "sb_wf b'"
    "written b' = written b @ enc_tlv t" "sb_checkpoint b' = sb_checkpoint b"
    using serialize_primitive_appends [OF sw fits] by blast
  have "collect_tlv b t = Inr b'"
    using b'(1) len by (simp add: collect_tlv_def serialize_string_def)
  have nx: "sb_next b' = sb_next b + 100"
    using length_written [OF b'(2)] length_written [OF sw] b'(3) len by simp
  have wf': "tlv_wf b'"
    using wf b' nx by (simp add: tlv_wf_def)
  note k = tlv_wf_count [OF wf] and k' = tlv_wf_count [OF wf']
  have n': "unit_count b' = Suc (unit_count b)" using k(1) k'(1) nx by simp
  have wr: "written b = take (TLV_SIZE * unit_count b) (sb_b b)"
    "written b' = take (TLV_SIZE * unit_count b') (sb_b b')"
    using tlvs_written wf wf' by blast+
  have lw: "length (written b) = TLV_SIZE * unit_count b" using wr(1) k(2) by simp
  have same: "take (TLV_SIZE * unit_count b) (sb_b b') = take (TLV_SIZE * unit_count b) (sb_b b)"
  proof -
    have "TLV_SIZE * unit_count b \<le> TLV_SIZE * unit_count b'" using n' by simp
    then have "take (TLV_SIZE * unit_count b) (sb_b b') = take (TLV_SIZE * unit_count b) (written b')"
      by (simp only: wr(2) take_take min_absorb1)
    also have "\<dots> = written b" by (simp only: b'(3) append_eq_conv_conj [symmetric] lw [symmetric])
        simp
    finally show ?thesis by (simp only: wr(1))
  qed
  have "sb_b b' = written b' @ drop (TLV_SIZE * unit_count b') (sb_b b')"
    using wr(2) by simp
  then have "sb_b b' = written b @ enc_tlv t @ drop (TLV_SIZE * unit_count b') (sb_b b')"
    using b'(3) by simp
  then have "cell (sb_b b') (unit_count b) = enc_tlv t"
    using cell_after [OF lw len] by metis
  then have "tlvs b' = tlvs b @ [t]"
    using n' units_cong [OF same order_refl] dec_enc_tlv [OF ok] by (simp add: tlvs_def units_Suc)
  moreover have "tlvs_marked b' = tlvs_marked b"
    using b'(4) units_cong [OF same k(4)] by (simp add: tlvs_marked_def)
  ultimately show ?thesis using \<open>collect_tlv b t = Inr b'\<close> wf' by blast
qed

lemma mark_tlvs:
  assumes "tlv_wf b"
  shows "\<exists>b'. mark_checkpoint_serialize_buffer (Some b) = Inr b' \<and> tlv_wf b' \<and>
    tlvs b' = tlvs b \<and> tlvs_marked b' = tlvs b"
  using assms
  by (auto simp: mark_checkpoint_serialize_buffer_def tlv_wf_def sb_wf_def tlvs_def tlvs_marked_def
      unit_count_def get_serialize_buffer_size_def)

lemma restore_tlvs:
  assumes "tlv_wf b"
  shows "\<exists>b'. restore_checkpoint_serialize_buffer (Some b) = Inr b' \<and> tlv_wf b' \<and>
    tlvs b' = tlvs_marked b \<and> tlvs_marked b' = tlvs_marked b"
  using assms
  by (auto simp: restore_checkpoint_serialize_buffer_def tlv_wf_def sb_wf_def tlvs_def
      tlvs_marked_def unit_count_def get_serialize_buffer_size_def)

lemma reset_tlvs:
  "tlv_wf b \<Longrightarrow> tlv_wf (reset_serialize_buffer b) \<and> tlvs (reset_serialize_buffer b) = [] \<and>
   tlvs_marked (reset_serialize_buffer b) = []"
  by (auto simp: reset_serialize_buffer_def tlv_wf_def sb_wf_def tlvs_def tlvs_marked_def
      unit_count_def get_serialize_buffer_size_def)

lemma init_tlvs:
  "0 < n \<Longrightarrow> tlv_wf (init_serialized_buffer_of_defined_size n) \<and>
   tlvs (init_serialized_buffer_of_defined_size n) = []"
  by (auto simp: init_serialized_buffer_of_defined_size_def tlv_wf_def sb_wf_def tlvs_def
      unit_count_def get_serialize_buffer_size_def)

lemma tlv_unit_nth:
  assumes "tlv_wf b" "i < unit_count b"
  shows "tlv_unit b i = Inr (tlvs b ! i)"
proof -
  have "TLV_SIZE * (i + 1) \<le> length (sb_b b)"
    using tlv_wf_count(2) [OF assms(1)] assms(2) by simp
  then show ?thesis using assms(2) by (simp add: tlv_unit_def tlvs_def units_def cell_def)
qed

lemma tlv_units_upto_take:
  assumes "tlv_wf b" "n \<le> unit_count b"
  shows "tlv_units_upto b n = Inr (take n (tlvs b))"
  using assms(2)
proof (induction n)
  case (Suc n)
  then have "n < length (tlvs b)" by (simp add: tlvs_def)
  then show ?case
    using Suc tlv_unit_nth [OF assms(1), of n] by (simp add: take_Suc_conv_app_nth)
qed simp

text \<open>What a command handler sees: the leaves before the last unit, and its code.\<close>

lemma handler_view:
  assumes "tlv_wf b" "tlvs b = ts @ [c]"
  shows "TLV_LOOP b = Inr ts" "EXTRACT_CMD_CODE b = Inr (atoi (cstr (val c)))"
proof -
  have n: "unit_count b = Suc (length ts)"
    using arg_cong [OF assms(2), of length] by (simp add: tlvs_def)
  show "TLV_LOOP b = Inr ts"
    using n assms tlv_units_upto_take [OF assms(1), of "length ts"] by (simp add: TLV_LOOP_def)
  show "EXTRACT_CMD_CODE b = Inr (atoi (cstr (val c)))"
    using n assms tlv_unit_nth [OF assms(1), of "length ts"] by (simp add: EXTRACT_CMD_CODE_def)
qed

section \<open>The interface the parser uses\<close>

text \<open>
  A log of units with a mark. \<open>put\<close> appends, \<open>mark\<close> remembers the present content,
  \<open>restore\<close> goes back to it, \<open>clear\<close> empties the log and forgets the mark. The log has room for
  \<open>cap\<close> units.
\<close>

locale tlv_log =
  fixes invar :: "'b \<Rightarrow> bool"
    and items :: "'b \<Rightarrow> tlv_struct list"
    and marked :: "'b \<Rightarrow> tlv_struct list"
    and put :: "'b \<Rightarrow> tlv_struct \<Rightarrow> 'b res"
    and mark :: "'b \<Rightarrow> 'b res"
    and restore :: "'b \<Rightarrow> 'b res"
    and clear :: "'b \<Rightarrow> 'b"
    and cap :: nat
  assumes put_appends: "invar b \<Longrightarrow> tlv_ok t \<Longrightarrow> length (items b) < cap \<Longrightarrow>
      \<exists>b'. put b t = Inr b' \<and> invar b' \<and> items b' = items b @ [t] \<and> marked b' = marked b"
    and mark_remembers: "invar b \<Longrightarrow>
      \<exists>b'. mark b = Inr b' \<and> invar b' \<and> items b' = items b \<and> marked b' = items b"
    and restore_returns: "invar b \<Longrightarrow>
      \<exists>b'. restore b = Inr b' \<and> invar b' \<and> items b' = marked b \<and> marked b' = marked b"
    and clear_empties: "invar b \<Longrightarrow>
      invar (clear b) \<and> items (clear b) = [] \<and> marked (clear b) = []"
begin

fun put_all :: "'b \<Rightarrow> tlv_struct list \<Rightarrow> 'b res" where
  "put_all b [] = Inr b"
| "put_all b (t # ts) = rbind (put b t) (\<lambda>b'. put_all b' ts)"

lemma put_all_appends:
  assumes "invar b" "\<forall>t\<in>set ts. tlv_ok t" "length (items b) + length ts \<le> cap"
  shows "\<exists>b'. put_all b ts = Inr b' \<and> invar b' \<and> items b' = items b @ ts \<and> marked b' = marked b"
  using assms
proof (induction ts arbitrary: b)
  case (Cons t ts)
  then obtain b1 where b1: "put b t = Inr b1" "invar b1" "items b1 = items b @ [t]"
    "marked b1 = marked b"
    using put_appends [of b t] by auto
  then show ?case using Cons.IH [of b1] Cons.prems by auto
qed simp

text \<open>Whatever a command adds after the mark is gone after it.\<close>

lemma command_leaves_mode:
  assumes "invar b" "\<forall>t\<in>set ts. tlv_ok t" "length (items b) + length ts \<le> cap"
  shows "\<exists>b' b''. put_all b ts = Inr b' \<and> restore b' = Inr b'' \<and> invar b'' \<and>
    items b'' = marked b \<and> marked b'' = marked b"
proof -
  obtain b' where b': "put_all b ts = Inr b'" "invar b'" "marked b' = marked b"
    using put_all_appends [OF assms] by blast
  then show ?thesis using restore_returns [of b'] by auto
qed

end

interpretation tlvbuf: tlv_log tlv_wf tlvs tlvs_marked collect_tlv
  "\<lambda>b. mark_checkpoint_serialize_buffer (Some b)"
  "\<lambda>b. restore_checkpoint_serialize_buffer (Some b)" reset_serialize_buffer MAX_UNITS
  by unfold_locales (auto intro: collect_tlv_appends mark_tlvs restore_tlvs simp: reset_tlvs)

end
