(* ===== verification/BufferProps.thy ===== *)
theory BufferProps
  imports Demarcar CmdTlv
begin

text \<open>
  The properties of the buffers: the ring buffer, message demarcation, serialisation, the
  tokenizer, the filter on received text and the units of leaf values. Each is stated over the
  definitions of its component and followed by a concrete case.
\<close>

section \<open>The ring buffer\<close>

text \<open>
  C21: a ring buffer is a bounded queue of bytes. A write that fits appends its data, in one run
  or wrapped around the end; any other write returns 0 and changes nothing. The invariant is
  kept either way.
\<close>

theorem ring_write:
  assumes "bcb_wf b" "unat n \<le> length data"
  shows "\<exists>k b'. BCBWrite b data n = Inr (k, b') \<and> bcb_wf b' \<and> buffer_size b' = buffer_size b \<and>
    (if fits b n then k = n \<and> contents b' = contents b @ take (unat n) data
     else k = 0 \<and> b' = b)"
proof (cases "fits b n")
  case True
  then obtain b' where "BCBWrite b data n = Inr (n, b')" "bcb_wf b'"
    "unat (buffer_size b') = unat (buffer_size b)" "contents b' = contents b @ take (unat n) data"
    using bcb.write_accepted [OF assms(1) True assms(2)] by blast
  moreover from this have "buffer_size b' = buffer_size b" by (simp only: word_eq_unat)
  ultimately show ?thesis using True by simp
next
  case False
  then show ?thesis using bcb.write_refused [OF assms(1)] assms(1) by simp
qed

theorem ring_write_witness:
  "\<exists>k b'. BCBWrite (BCBCreateNew 4) [1, 2, 3] 3 = Inr (k, b') \<and> contents b' = [1, 2, 3]"
proof -
  have "fits (BCBCreateNew 4) 3"
    by (simp add: fits_def BCBIsFull_def BCBCreateNew_def)
  then show ?thesis using ring_write [of "BCBCreateNew 4" 3 "[1, 2, 3]"] by auto
qed

text \<open>
  C22: a read of no more bytes than the buffer holds returns the oldest ones, and removes them
  only when it is told to; a longer read returns 0 and touches neither the buffer nor the
  destination.
\<close>

theorem ring_read:
  assumes "bcb_wf b" "unat n \<le> length dest"
  shows "\<exists>k d b'. BCBRead b dest n rm = Inr (k, d, b') \<and> bcb_wf b' \<and>
    (if unat n \<le> length (contents b)
     then k = n \<and> d = put_at 0 (take (unat n) (contents b)) dest \<and>
       contents b' = (if rm then drop (unat n) (contents b) else contents b)
     else k = 0 \<and> d = dest \<and> b' = b)"
proof (cases "unat n \<le> length (contents b)")
  case True
  then show ?thesis
    using BCBRead_accepts [OF assms(1) _ assms(2), of rm] assms(1) by (auto split: if_splits)
next
  case False
  then show ?thesis using BCBRead_rejects [of b n dest rm] assms(1) by simp
qed

theorem ring_read_witness:
  "\<exists>k d b'. BCBRead (BCBCreateNew 4) [7] 1 True = Inr (k, d, b') \<and> k = 0 \<and> d = [7]"
  using ring_read [of "BCBCreateNew 4" 1 "[7]" True] by simp

section \<open>Demarcation\<close>

text \<open>
  C4: however the bytes of a connection are cut into received portions, a demarcar for messages
  of a fixed size hands exactly the messages of the stream to the application, in order, keeps
  the bytes of the unfinished last message, and no assertion fails.
\<close>

theorem fixed_size_stream:
  assumes "0 < unat n" "unat n \<le> MAX_CLIENT_BUFFER_SIZE"
    and "\<forall>c\<in>set portions. c \<noteq> [] \<and> length c \<le> MAX_CLIENT_BUFFER_SIZE"
    and "concat portions = concat msgs @ rest"
    and "\<forall>m\<in>set msgs. length m = unat n" "length rest < unat n"
  shows "\<exists>d b. process_portions True (TcpMsgFixedSizeDemarcar n) portions = Inr (d, msgs) \<and>
           dbcb d = Some b \<and> bcb_wf b \<and> contents b = rest"
proof -
  have f: "\<forall>m\<in>set msgs. fixed_frame n m"
    using assms(1,2,5) by (auto simp: fixed_frame_def)
  have inc: "incomplete (fixed_frame n) q" if "length q < unat n" for q
    unfolding incomplete_def using that assms(2)
    by (intro exI [of _ "replicate (unat n - length q) 0"]) (auto simp: fixed_frame_def)
  show ?thesis
    using fixed.fresh_portions [OF assms(3,4) f inc [OF assms(6)]]
    by (simp add: TcpMsgFixedSizeDemarcar_def)
qed

theorem fixed_size_stream_witness:
  "\<exists>d b. process_portions True (TcpMsgFixedSizeDemarcar 2) [[1], [2, 3, 4, 5]] =
     Inr (d, [[1, 2], [3, 4]]) \<and> dbcb d = Some b \<and> bcb_wf b \<and> contents b = [5]"
  by (rule fixed_size_stream) auto

text \<open>
  C5: the same for messages that start with their own length in two bytes, low byte first. A
  message has at least one byte behind its header and fits the message buffer; the rest of the
  stream is the beginning of such a message.
\<close>

theorem variable_size_stream:
  assumes "\<forall>c\<in>set portions. c \<noteq> [] \<and> length c \<le> MAX_CLIENT_BUFFER_SIZE"
    and "concat portions = concat msgs @ rest"
    and "\<forall>m\<in>set msgs. variable_frame m" "variable_frame (rest @ s)" "s \<noteq> []"
  shows "\<exists>d b. process_portions True TcpMsgVariableSizeDemarcar portions = Inr (d, msgs) \<and>
           dbcb d = Some b \<and> bcb_wf b \<and> contents b = rest"
proof -
  have "incomplete variable_frame rest" using assms(4,5) by (auto simp: incomplete_def)
  then show ?thesis
    using variable.fresh_portions [OF assms(1-3)] by (simp add: TcpMsgVariableSizeDemarcar_def)
qed

theorem variable_size_stream_witness:
  "\<exists>d b. process_portions True TcpMsgVariableSizeDemarcar [[4, 0, 9], [8, 3], [0]] =
     Inr (d, [[4, 0, 9, 8]]) \<and> dbcb d = Some b \<and> bcb_wf b \<and> contents b = [3, 0]"
  by (rule variable_size_stream [of _ _ _ "[7]"]) (auto simp: variable_frame_def le16_def)

text \<open>What one portion does on a demarcar that keeps \<open>old\<close> bytes.\<close>

definition holds :: "demarcar_class \<Rightarrow> byte list \<Rightarrow> demarcar \<Rightarrow> bool" where
  "holds k old d \<longleftrightarrow> dclass d = k \<and>
     (\<exists>b buf. dbcb d = Some b \<and> bcb_wf b \<and> buffer_size b = DEFAULT_CBC_SIZE \<and> contents b = old \<and>
        dbuffer d = Some buf \<and> length buf = MAX_CLIENT_BUFFER_SIZE)"

lemma holds_fresh: "holds k [] (TcpMsgDemarcar k DEFAULT_CBC_SIZE)"
  by (auto simp: holds_def TcpMsgDemarcar_def) (simp add: BCBCreateNew_def)

lemma portion_written:
  assumes "holds k old d" "c \<noteq> []" "length old + length c \<le> unat DEFAULT_CBC_SIZE"
  obtains b buf where "bcb_wf b" "contents b = old @ c" "length buf = MAX_CLIENT_BUFFER_SIZE"
    "ProcessMsg cb d c (word_of_nat (length c)) =
       rbind (class_ready k b) (\<lambda>ready.
       if ready
       then rbind (run_loop (class_loop k cb b buf [])) (\<lambda>(b', buf', out).
            Inr (d\<lparr>dbcb := Some b', dbuffer := Some buf'\<rparr>, out))
       else Inr (d\<lparr>dbcb := Some b\<rparr>, []))"
proof -
  obtain b buf where d: "dclass d = k" "dbcb d = Some b" "bcb_wf b"
    "buffer_size b = DEFAULT_CBC_SIZE" "contents b = old" "dbuffer d = Some buf"
    "length buf = MAX_CLIENT_BUFFER_SIZE"
    using assms(1) by (auto simp: holds_def)
  let ?n = "word_of_nat (length c) :: u16"
  have n: "unat ?n = length c" using assms(3) by (simp add: unat_of_nat)
  have cur: "unat (current_size b) = length old" using d(3,5) by auto
  have "fits b ?n"
    using cur d(4) n assms(2,3) by (auto simp: fits_def BCBIsFull_def word_eq_unat)
  then obtain b' where b': "BCBWrite b c ?n = Inr (?n, b')" "bcb_wf b'"
    "buffer_size b' = buffer_size b" "contents b' = old @ c"
    using BCBWrite_accepts [OF d(3), of ?n c] n d(5) by auto
  have "?n \<noteq> 0" using n assms(2) by auto
  then show ?thesis
    using that [OF b'(2,4) d(7)] b'(1) d(1,2,6)
    by (simp add: ProcessMsg_def IsBufferReadyToflush_def ProcessClientMsg_def Let_def
        cong: if_cong)
qed

text \<open>
  C35: a length header of zero. A portion that leaves such a header at the front, with a byte
  behind it, makes the delivery loop hand out empty messages for ever.
\<close>

theorem zero_header_never_returns:
  assumes "holds VariableSize old d" "c \<noteq> []" "length old + length c \<le> unat DEFAULT_CBC_SIZE"
    and "2 < length (old @ c)" "le16 (old @ c) = 0"
  shows "ProcessMsg True d c (word_of_nat (length c)) = Inl Diverges"
proof -
  obtain b buf where b: "bcb_wf b" "contents b = old @ c"
    "ProcessMsg True d c (word_of_nat (length c)) =
       rbind (class_ready VariableSize b) (\<lambda>ready.
       if ready
       then rbind (run_loop (class_loop VariableSize True b buf [])) (\<lambda>(b', buf', out).
            Inr (d\<lparr>dbcb := Some b', dbuffer := Some buf'\<rparr>, out))
       else Inr (d\<lparr>dbcb := Some b\<rparr>, []))"
    using portion_written [OF assms(1-3)] by metis
  have "variable_ready b = Inr True" using b(1,2) assms(4,5) by (simp add: variable_ready_eq)
  moreover have "variable_loop True b buf [] = None"
    using variable_loop_zero_diverges [of b] b(1,2) assms(4,5) by simp
  ultimately show ?thesis using b(3) by (simp add: class_ready_def class_loop_def)
qed

theorem zero_header_never_returns_witness:
  "ProcessMsg True TcpMsgVariableSizeDemarcar [0, 0, 65] 3 = Inl Diverges"
  using zero_header_never_returns [OF holds_fresh, of "[0, 0, 65]"]
  by (simp add: le16_def TcpMsgVariableSizeDemarcar_def)

text \<open>
  C36: a length header above the 1024 bytes of the message buffer. Once that many bytes have
  arrived they are copied behind the end of the buffer.
\<close>

theorem long_header_overruns:
  assumes "holds VariableSize old d" "c \<noteq> []" "length old + length c \<le> unat DEFAULT_CBC_SIZE"
    and "MAX_CLIENT_BUFFER_SIZE < unat (le16 (old @ c))"
    and "unat (le16 (old @ c)) \<le> length (old @ c)"
  shows "ProcessMsg cb d c (word_of_nat (length c)) = Inl OutOfBounds"
proof -
  obtain b buf where b: "bcb_wf b" "contents b = old @ c" "length buf = MAX_CLIENT_BUFFER_SIZE"
    "ProcessMsg cb d c (word_of_nat (length c)) =
       rbind (class_ready VariableSize b) (\<lambda>ready.
       if ready
       then rbind (run_loop (class_loop VariableSize cb b buf [])) (\<lambda>(b', buf', out).
            Inr (d\<lparr>dbcb := Some b', dbuffer := Some buf'\<rparr>, out))
       else Inr (d\<lparr>dbcb := Some b\<rparr>, []))"
    using portion_written [OF assms(1-3)] by metis
  have "variable_ready b = Inr True" using b(1,2) assms(4,5) by (simp add: variable_ready_eq)
  moreover have "variable_loop cb b buf [] = Some (Inl OutOfBounds)"
    using variable_loop_oversize [of b buf cb "[]"] b(1-3) assms(4,5) by simp
  ultimately show ?thesis using b(4) by (simp add: class_ready_def class_loop_def)
qed

theorem long_header_overruns_witness:
  "ProcessMsg True TcpMsgVariableSizeDemarcar (0 # 5 # replicate 1278 1) 1280 = Inl OutOfBounds"
  using long_header_overruns [OF holds_fresh, of "0 # 5 # replicate 1278 1"]
  by (simp add: le16_def TcpMsgVariableSizeDemarcar_def)

section \<open>Serialisation\<close>

text \<open>
  C30: serialising appends. On every well-formed buffer that holds at most \<open>2 ^ 30\<close> bytes
  afterwards the growth loop ends without overflow of the size, the bytes written
  so far are followed by the new ones, the checkpoint stays, and the buffer either keeps its
  size or ends up with less than twice the bytes it holds.
\<close>

theorem serialize_string_appends:
  assumes "sb_wf b" "n \<le> length data" "sb_next b + int n \<le> 2 ^ 30"
  shows "\<exists>b'. serialize_string (Some b) data n = Inr b' \<and> sb_wf b' \<and>
    written b' = written b @ take n data \<and> sb_checkpoint b' = sb_checkpoint b \<and>
    (sb_size b' = sb_size b \<or> sb_size b' < 2 * sb_next b')"
proof -
  obtain b' where b': "serialize_primitive False (Some b) (take n data) = Inr b'" "sb_wf b'"
    "written b' = written b @ take n data" "sb_checkpoint b' = sb_checkpoint b"
    "sb_size b' = sb_size b \<or> sb_size b' < 2 * (sb_next b + int (length (take n data)))"
    using serialize_primitive_appends [OF assms(1), of "take n data" False] assms(2,3) by auto
  have "sb_next b' = int (length (written b'))" using b'(2) by simp
  then have "sb_next b' = sb_next b + int n"
    using b'(3) assms by simp
  then show ?thesis using b' assms(2) by (simp add: serialize_string_def)
qed

theorem serialize_string_appends_witness:
  "\<exists>b'. serialize_string (Some (init_serialized_buffer_of_defined_size 1)) ''abc'' 2 = Inr b' \<and>
    written b' = ''ab''"
  using serialize_string_appends [OF sb_wf_init(1), of 1 2 "''abc''"]
  by simp blast

text \<open>
  Past that the size overflows: a buffer of at least \<open>2 ^ 30\<close> bytes whose room does not suffice
  cannot be doubled.
\<close>

theorem serialize_overflows:
  assumes "sb_wf b" "2 ^ 30 \<le> sb_size b" "n \<le> length data" "sb_size b < sb_next b + int n"
  shows "serialize_string (Some b) data n = Inl IntOverflow"
  using assms grow_overflows [of "sb_size b" "sb_next b" "int n" False]
  by (simp add: serialize_string_def serialize_primitive_def sb_wf_def)

theorem serialize_overflows_witness:
  "serialize_string (Some (init_serialized_buffer_of_defined_size (2 ^ 30)\<lparr>sb_next := 2 ^ 30\<rparr>)) ''a'' 1 =
     Inl IntOverflow"
proof -
  let ?b = "init_serialized_buffer_of_defined_size (2 ^ 30)\<lparr>sb_next := 2 ^ 30\<rparr>"
  have "sb_wf ?b"
    by (simp add: sb_wf_def init_serialized_buffer_of_defined_size_def)
  then show ?thesis
    using serialize_overflows [of ?b 1 "''a''"] by simp
qed

text \<open>
  Truncating a buffer that holds nothing leaves one of size zero, and the growth loop of
  the next serialisation doubles zero for ever.
\<close>

theorem truncated_empty_buffer_hangs:
  assumes "sb_wf b" "n \<le> length data" "0 < n"
  shows "rbind (truncate_serialize_buffer (reset_serialize_buffer b)) (\<lambda>b'.
     serialize_string (Some b') data n) = Inl Diverges"
proof -
  have "grow False 0 0 (int n) = None"
    using grow_zero [of False 0 0 "int n"] assms(3) by (cases "grow False 0 0 (int n)") auto
  then show ?thesis
    using assms
    by (simp add: truncate_serialize_buffer_def reset_serialize_buffer_def sb_wf_def memcpy_def
        init_serialized_buffer_of_defined_size_def serialize_string_def serialize_primitive_def)
qed

theorem truncated_empty_buffer_hangs_witness:
  "rbind (truncate_serialize_buffer (reset_serialize_buffer init_serialized_buffer)) (\<lambda>b'.
     serialize_string (Some b') ''a'' 1) = Inl Diverges"
  using truncated_empty_buffer_hangs [OF sb_wf_init(2), of 1 "''a''"] by simp

section \<open>Words of a line\<close>

text \<open>
  C32: the tokenizer. A line is trimmed and cut at the delimiter, empty pieces left out; up to
  sixteen words shorter than a row of the token array are stored from its start, the other rows
  keep what they held.
\<close>

theorem tokenizer_stores_words:
  assumes "length ts = MAX_CMD_TREE_DEPTH" "length s < CONS_INPUT_BUFFER_SIZE"
    and "ws = strtok_all delim (trimmed s)" "length ws \<le> MAX_CMD_TREE_DEPTH"
    and "\<forall>w\<in>set ws. length w < LEAF_VALUE_HOLDER_SIZE"
  shows "tokenizer ts s delim = Inr (ws @ drop (length ws) ts, length ws)"
  by (rule tokenizer_words [OF assms])

lemma strtok_all_two:
  "strtok_all CHR '' '' (trimmed '' show  help '') = [''show'', ''help'']"
  by (simp add: trimmed_def isspace_def strtok_all.simps strtok_def)

theorem tokenizer_stores_words_witness:
  "tokenizer (replicate 16 []) '' show  help '' CHR '' '' =
     Inr ([''show'', ''help''] @ replicate 14 [], 2)"
  using tokenizer_stores_words [of "replicate 16 []" "'' show  help ''" _ "CHR '' ''",
      OF _ _ strtok_all_two [symmetric]] by simp

text \<open>
  C40: the limit on the words is looked at too late: with seventeen words or more the pointer
  behind the last row of the token array is written through.
\<close>

theorem tokenizer_overruns:
  assumes "length ts = MAX_CMD_TREE_DEPTH" "length s < CONS_INPUT_BUFFER_SIZE"
    and "ws = strtok_all delim (trimmed s)" "MAX_CMD_TREE_DEPTH < length ws"
    and "\<forall>w\<in>set ws. length w < LEAF_VALUE_HOLDER_SIZE"
  shows "tokenizer ts s delim = Inl OutOfBounds"
proof -
  have "trimmed s \<noteq> []"
    using assms(3,4) by (auto simp: strtok_all.simps strtok_def)
  then show ?thesis
    using assms store_tokens_overflow [of ts 0 ws] by (simp add: tokenizer_eq)
qed

lemma strtok_all_seventeen:
  "strtok_all CHR '' '' (trimmed ''a a a a a a a a a a a a a a a a a'') = replicate 17 ''a''"
  by (simp add: trimmed_def isspace_def strtok_all.simps strtok_def numeral_eq_Suc)

theorem tokenizer_overruns_witness:
  "tokenizer (replicate 16 []) ''a a a a a a a a a a a a a a a a a'' CHR '' '' = Inl OutOfBounds"
  using tokenizer_overruns [of "replicate 16 []" "''a a a a a a a a a a a a a a a a a''" _
      "CHR '' ''", OF _ _ strtok_all_seventeen [symmetric]] by simp

text \<open>
  \<open>grep\<close> on received text keeps, in order, the non-empty lines that contain the pattern,
  terminates them by a newline each and the whole by NUL, and returns their length.
\<close>

theorem grep_keeps_matching_lines:
  assumes "n < length buf" "NUL \<in> set (take n buf)" "n \<noteq> 0"
  shows "\<exists>buf' k. grep buf n pattern = Inr (buf', k) \<and>
    cstr buf' = matching_lines pattern (strtok_all NL (cstr buf)) \<and> k = length (cstr buf')"
proof -
  have "NUL \<notin> set (cstr buf)"
    unfolding cstr_def by (auto dest: set_takeWhileD)
  then have "NUL \<notin> set t" if "t \<in> set (strtok_all NL (cstr buf))" for t
    using strtok_all_chars [OF that] by blast
  then have "NUL \<notin> set (matching_lines pattern (strtok_all NL (cstr buf)))"
    by (auto simp: matching_lines_def)
  then show ?thesis using grep_lines [OF assms, of pattern] by (auto simp: cstr_app)
qed

theorem grep_keeps_matching_lines_witness:
  "\<exists>buf' k. grep (''ab'' @ [NL] @ ''cb'' @ [NUL, NUL]) 6 ''c'' = Inr (buf', k) \<and>
    k = length (cstr buf')"
  using grep_keeps_matching_lines [of 6 "''ab'' @ [NL] @ ''cb'' @ [NUL, NUL]" "''c''"]
  by fastforce

section \<open>Units of leaf values\<close>

text \<open>
  C15: what is collected is what a handler reads. Units of leaf values appended to a well-formed
  buffer, behind those of the mode, and a last unit with the command code come back from the
  loop over the units and from \<open>EXTRACT_CMD_CODE\<close>; going back to the mark then leaves the
  units of the mode. Up to ten million units the size of the buffer does not overflow.
\<close>

theorem handler_reads_collected:
  assumes "tlv_wf b" "\<forall>t\<in>set ts. tlv_ok t" "tlv_ok u" "length (tlvs b) + length ts < MAX_UNITS"
  shows "\<exists>b' b''. tlvbuf.put_all b (ts @ [u]) = Inr b' \<and>
    TLV_LOOP b' = Inr (tlvs b @ ts) \<and> EXTRACT_CMD_CODE b' = Inr (atoi (cstr (val u))) \<and>
    restore_checkpoint_serialize_buffer (Some b') = Inr b'' \<and> tlv_wf b'' \<and>
    tlvs b'' = tlvs_marked b"
proof -
  have ok: "\<forall>t\<in>set (ts @ [u]). tlv_ok t" "length (tlvs b) + length (ts @ [u]) \<le> MAX_UNITS"
    using assms(2-4) by auto
  obtain b' where b': "tlvbuf.put_all b (ts @ [u]) = Inr b'" "tlv_wf b'"
    "tlvs b' = tlvs b @ ts @ [u]"
    using tlvbuf.put_all_appends [OF assms(1) ok] by blast
  moreover obtain b'' where "restore_checkpoint_serialize_buffer (Some b') = Inr b''"
    "tlv_wf b''" "tlvs b'' = tlvs_marked b"
    using tlvbuf.command_leaves_mode [OF assms(1) ok] b'(1) by auto
  ultimately show ?thesis using handler_view [of b' "tlvs b @ ts" u] by simp
qed

theorem handler_reads_collected_witness:
  "\<exists>b'. tlvbuf.put_all init_serialized_buffer [zero_tlv, zero_tlv] = Inr b' \<and>
    TLV_LOOP b' = Inr [zero_tlv]"
proof -
  have b: "tlv_wf init_serialized_buffer" "tlvs init_serialized_buffer = []"
    using init_tlvs [of 512]
    by (simp_all add: init_serialized_buffer_def init_serialized_buffer_of_defined_size_def)
  show ?thesis
    using handler_reads_collected [OF b(1), of "[zero_tlv]" zero_tlv] b(2)
    by (auto simp: MAX_UNITS_def)
qed

text \<open>
  C31: the value of a leaf survives its way through the buffer. The unit prepared from a leaf
  and filled with a text shorter than 64 characters is packed into 100 bytes, appended, and
  decoded to the type and id of the leaf and the text, while the buffer holds fewer than ten
  million units.
\<close>

theorem leaf_value_roundtrip:
  assumes "tlv_wf b" "NUL \<notin> set v" "length v < LEAF_VALUE_HOLDER_SIZE"
    and "NUL \<notin> set lid" "length lid < LEAF_ID_SIZE" "length (tlvs b) < MAX_UNITS"
  shows "\<exists>b' t. rbind (put_value_in_tlv (prepare_tlv_from_leaf ty lid zero_tlv) v) (collect_tlv b) =
      Inr b' \<and> written b' = written b @ enc_tlv t \<and> tlvs b' = tlvs b @ [t] \<and>
    dec_tlv (enc_tlv t) = t \<and> leaf_type t = ty \<and> cstr (leaf_id t) = lid \<and> cstr (val t) = v"
proof -
  let ?p = "prepare_tlv_from_leaf ty lid zero_tlv"
  obtain t where t: "put_value_in_tlv ?p v = Inr t" "tlv_ok t" "cstr (val t) = v"
    "leaf_type t = leaf_type ?p" "leaf_id t = leaf_id ?p"
    using put_value_fits [of ?p v] assms(2,3) by auto
  obtain b' where b': "collect_tlv b t = Inr b'" "tlvs b' = tlvs b @ [t]"
    using collect_tlv_appends [OF assms(1) t(2) assms(6)] by blast
  have fits: "sb_next b + int (length (enc_tlv t)) \<le> 2 ^ 30"
    using assms(6) tlv_wf_count(1) [OF assms(1)] t(2)
    by (simp add: MAX_UNITS_def tlvs_def length_enc_tlv)
  have "sb_wf b" using assms(1) by (simp add: tlv_wf_def)
  then have "written b' = written b @ enc_tlv t"
    using serialize_primitive_appends [of b "enc_tlv t" False] fits b'(1) t(2)
    by (auto simp: collect_tlv_def serialize_string_def length_enc_tlv)
  moreover have "cstr (leaf_id ?p) = lid"
    using assms(4,5)
    by (simp add: prepare_tlv_from_leaf_def zero_tlv_def put_at_def cstr_app Suc_diff_Suc
        replicate_Suc [symmetric] del: replicate_Suc
        cong: rev_conj_cong) (cases "32 - length lid"; simp add: cstr_app)
  ultimately show ?thesis
    using t b' dec_enc_tlv [OF t(2)] by (auto simp: prepare_tlv_from_leaf_def)
qed

theorem leaf_value_roundtrip_witness:
  "\<exists>b' t. rbind (put_value_in_tlv (prepare_tlv_from_leaf INT_LEAF ''vlan'' zero_tlv) ''10'')
      (collect_tlv init_serialized_buffer) = Inr b' \<and> tlvs b' = [t] \<and> cstr (val t) = ''10''"
proof -
  have b: "tlv_wf init_serialized_buffer" "tlvs init_serialized_buffer = []"
    using init_tlvs [of 512]
    by (simp_all add: init_serialized_buffer_def init_serialized_buffer_of_defined_size_def)
  show ?thesis
    using leaf_value_roundtrip [OF b(1), of "''10''" "''vlan''" INT_LEAF] b(2)
    by (auto simp: MAX_UNITS_def)
qed

end
