(* ===== verification/CliState.thy ===== *)
theory CliState
  imports CmdTlv
begin

text \<open>
  The data of the command line interface: the parameters of the command tree
  (\<^verbatim>\<open>CommandParser/cmd_hier.h\<close>) and one record for the static variables of
  \<^verbatim>\<open>cmd_hier.c\<close>, \<^verbatim>\<open>parser.c\<close>, \<^verbatim>\<open>clistd.c\<close> and \<^verbatim>\<open>ut/utinfra/ut_parser.c\<close>, together with
  the parts of the environment these files read and write: the standard input, the output,
  the files and the message queue of the test driver.
\<close>

section \<open>Parameters\<close>

text \<open>The functions a parameter can be registered with; \<open>App n\<close> is one of an application.\<close>

datatype callback =
    ShowHelp
  | ShowHistory
  | ShowRegistered
  | ShowCmdTree
  | UtTest
  | ConfigModeEnter
  | LoadFile
  | Supportsave
  | CliTerminate
  | RepeatLast
  | ConsoleName
  | ClearScreen
  | ExitCmd
  | EndCmd
  | ModeEnter
  | DisplaySubOptions
  | DisplayCmdExpansion
  | Negate
  | ShowExtensionParam
  | PipeHandler
  | App nat

datatype param_type = CMD | LEAF | NO_CMD

text \<open>
  A user validation function is given by what it returns and what it prints, a display function
  by what it prints for a parameter and the buffer.
\<close>

record leaf =
  lf_type :: leaf_type
  value_holder :: string
  user_validation_cb_fn :: "(string \<Rightarrow> int \<times> string list) option"
  lf_id :: string

text \<open>The union \<open>_param_t\<close> of the two pointers.\<close>

datatype cmd_union = NullPtr | CmdPtr string | LeafPtr leaf

text \<open>A parameter is referred to by its position in the pool.\<close>

type_synonym pref = nat

record param =
  param_type :: param_type
  cmd_type :: cmd_union
  callback :: "callback option"
  ishidden :: bool
  help_str :: "char list"
  options :: "pref option list"
  parent :: "pref option"
  disp_callback :: "(pref \<Rightarrow> ser_buff \<Rightarrow> string list) option"
  CMDCODE :: int

abbreviation (input) MAX_OPTION_SIZE :: nat where "MAX_OPTION_SIZE \<equiv> 16"
abbreviation (input) MODE_PARAM_INDEX :: nat where "MODE_PARAM_INDEX \<equiv> 0"
abbreviation (input) SUBOPTIONS_INDEX :: nat where "SUBOPTIONS_INDEX \<equiv> 1"
abbreviation (input) CMD_EXPANSION_INDEX :: nat where "CMD_EXPANSION_INDEX \<equiv> 2"
abbreviation (input) CHILDREN_START_INDEX :: nat where "CHILDREN_START_INDEX \<equiv> 3"
abbreviation (input) CHILDREN_END_INDEX :: nat where "CHILDREN_END_INDEX \<equiv> 15"
abbreviation (input) POSSIBILITY_ARRAY_SIZE :: nat where "POSSIBILITY_ARRAY_SIZE \<equiv> 10"
abbreviation (input) MAX_SAVED_CMDS :: nat where "MAX_SAVED_CMDS \<equiv> 30"
abbreviation (input) FILE_CMD_SIZE_MAX :: nat where "FILE_CMD_SIZE_MAX \<equiv> 1024"
abbreviation (input) TERMINAL_NAME_SIZE :: nat where "TERMINAL_NAME_SIZE \<equiv> 2048"
abbreviation (input) TLV_MAX_BUFFER_SIZE :: int where "TLV_MAX_BUFFER_SIZE \<equiv> 1024"

text \<open>A static or \<open>calloc\<close>ed parameter before \<open>init_param\<close>.\<close>

definition zero_param :: param where
  "zero_param =
     \<lparr>param_type = CMD, cmd_type = NullPtr, callback = None, ishidden = False,
      help_str = replicate PARAM_HELP_STRING_SIZE NUL, options = replicate MAX_OPTION_SIZE None,
      parent = None, disp_callback = None, CMDCODE = 0\<rparr>"

section \<open>The state\<close>

text \<open>What an application callback can do through the interface of the library.\<close>

datatype app_effect = Print string | CliOut string | SetDeviceName string

text \<open>
  \<open>params\<close> is the pool of all parameters; the statics of \<^verbatim>\<open>cmd_hier.c\<close> come first.
  \<open>calls\<close> records the invocations of application callbacks: the callback, the parameter, the
  buffer it was given and the mode. \<open>files\<close>, the contents of the files that commands open, and
  \<open>backend\<close>, what an application callback does in return, are the environment of the shell: they
  are the same throughout, and nothing is claimed about them. The fields from
  \<open>TC_RUNNING\<close> on are those of the test driver; \<open>ut_msgs\<close> is its message queue and
  \<open>ut_log\<close> its log file, \<open>None\<close> before \<open>ut_parser_init\<close>.
\<close>

record cli =
  params :: "param list"
  cursor :: "pref option"
  tlv_buff :: ser_buff
  console_name :: string
  token_arr :: token_array
  last_command :: string
  recording :: bool
  code_tlv :: tlv_struct
  supportsave_on :: bool
  ctrlC :: "app_effect list option"
  stdin_text :: string
  hist :: "string option"
  hist_count :: nat
  files :: "string \<Rightarrow> string option"
  out :: "string list"
  calls :: "(nat \<times> pref \<times> ser_buff \<times> op_mode) list"
  backend :: "nat \<Rightarrow> ser_buff \<Rightarrow> op_mode \<Rightarrow> app_effect list"
  TC_RUNNING :: bool
  ut_msgs :: "string list"
  ut_recv_buff :: "char list"
  ut_recv_size :: nat
  ut_debug :: bool
  ut_log :: "string list option"
  int_stores :: "64 word list"

section \<open>The statics of the command tree\<close>

abbreviation (input) root :: pref where "root \<equiv> 0"
abbreviation (input) do_hook :: pref where "do_hook \<equiv> 1"
abbreviation (input) show_hook :: pref where "show_hook \<equiv> 2"
abbreviation (input) debug :: pref where "debug \<equiv> 3"
abbreviation (input) debug_show :: pref where "debug_show \<equiv> 4"
abbreviation (input) config :: pref where "config \<equiv> 5"
abbreviation (input) clear :: pref where "clear \<equiv> 6"
abbreviation (input) run :: pref where "run \<equiv> 7"
abbreviation (input) repeat :: pref where "repeat \<equiv> 8"
abbreviation (input) show_brief_extension :: pref where "show_brief_extension \<equiv> 9"
abbreviation (input) mode_param :: pref where "mode_param \<equiv> 10"
abbreviation (input) suboptions_param :: pref where "suboptions_param \<equiv> 11"
abbreviation (input) cmd_expansion_param :: pref where "cmd_expansion_param \<equiv> 12"

section \<open>Access\<close>

definition param_at :: "cli \<Rightarrow> pref \<Rightarrow> param res" where
  "param_at c p = (if p < length (params c) then Inr (params c ! p) else Inl UseAfterFree)"

definition deref :: "cli \<Rightarrow> pref option \<Rightarrow> param res" where
  "deref c q = (case q of None \<Rightarrow> Inl NullDeref | Some p \<Rightarrow> param_at c p)"

definition set_param :: "cli \<Rightarrow> pref \<Rightarrow> param \<Rightarrow> cli res" where
  "set_param c p x =
     (if p < length (params c) then Inr (c\<lparr>params := (params c)[p := x]\<rparr>) else Inl UseAfterFree)"

definition upd_param :: "cli \<Rightarrow> pref \<Rightarrow> (param \<Rightarrow> param) \<Rightarrow> cli res" where
  "upd_param c p f = rbind (param_at c p) (\<lambda>x. set_param c p (f x))"

definition read_option :: "cli \<Rightarrow> pref \<Rightarrow> nat \<Rightarrow> pref option res" where
  "read_option c p i =
     rbind (param_at c p) (\<lambda>x.
     if i < length (options x) then Inr (options x ! i) else Inl OutOfBounds)"

definition set_option :: "cli \<Rightarrow> pref \<Rightarrow> nat \<Rightarrow> pref option \<Rightarrow> cli res" where
  "set_option c p i q =
     rbind (param_at c p) (\<lambda>x.
     if i < length (options x) then set_param c p (x\<lparr>options := (options x)[i := q]\<rparr>)
     else Inl OutOfBounds)"

text \<open>
  The accessors of the union. Reading the name through a leaf pointer, or the value through a
  command pointer, takes one object for the other.
\<close>

definition GET_CMD_NAME :: "param \<Rightarrow> string res" where
  "GET_CMD_NAME x =
     (case cmd_type x of
        NullPtr \<Rightarrow> Inl NullDeref | CmdPtr n \<Rightarrow> Inr n | LeafPtr l \<Rightarrow> Inl OutOfBounds)"

definition GET_PARAM_LEAF :: "param \<Rightarrow> leaf res" where
  "GET_PARAM_LEAF x =
     (case cmd_type x of
        NullPtr \<Rightarrow> Inl NullDeref | CmdPtr n \<Rightarrow> Inl OutOfBounds | LeafPtr l \<Rightarrow> Inr l)"

definition GET_LEAF_TYPE_STR :: "param \<Rightarrow> string res" where
  "GET_LEAF_TYPE_STR x = rbind (GET_PARAM_LEAF x) (\<lambda>l. Inr (get_str_leaf_type (lf_type l)))"

definition GET_PARAM_HELP_STRING :: "param \<Rightarrow> string" where
  "GET_PARAM_HELP_STRING x = cstr (help_str x)"

definition IS_PARAM_CMD :: "param \<Rightarrow> bool" where
  "IS_PARAM_CMD x \<longleftrightarrow> param_type x = CMD"

definition IS_PARAM_LEAF :: "param \<Rightarrow> bool" where
  "IS_PARAM_LEAF x \<longleftrightarrow> param_type x = LEAF"

definition IS_PARAM_NO_CMD :: "param \<Rightarrow> bool" where
  "IS_PARAM_NO_CMD x \<longleftrightarrow> param_type x = NO_CMD"

definition set_leaf_value :: "cli \<Rightarrow> pref \<Rightarrow> string \<Rightarrow> cli res" where
  "set_leaf_value c p v =
     rbind (param_at c p) (\<lambda>x.
     rbind (GET_PARAM_LEAF x) (\<lambda>l.
     if LEAF_VALUE_HOLDER_SIZE \<le> length v then Inl OutOfBounds
     else set_param c p (x\<lparr>cmd_type := LeafPtr (l\<lparr>value_holder := v\<rparr>)\<rparr>)))"

text \<open>Strings for a text of bounded size, a number in a field, and \<open>printf\<close>.\<close>

definition emit :: "string \<Rightarrow> cli \<Rightarrow> cli" where
  "emit s c = c\<lparr>out := out c @ [s]\<rparr>"

definition pad_right :: "nat \<Rightarrow> string \<Rightarrow> string" where
  "pad_right n s = s @ replicate (n - length s) CHR '' ''"

definition set_console :: "cli \<Rightarrow> string \<Rightarrow> cli res" where
  "set_console c s =
     (if length s < TERMINAL_NAME_SIZE then Inr (c\<lparr>console_name := s\<rparr>) else Inl OutOfBounds)"

text \<open>The colours of \<^verbatim>\<open>css.h\<close>.\<close>

definition ansi :: "string \<Rightarrow> string" where
  "ansi code = CHR 0x1B # CHR ''['' # code @ ''m''"

abbreviation ANSI_COLOR_RED :: string where "ANSI_COLOR_RED \<equiv> ansi ''31''"
abbreviation ANSI_COLOR_GREEN :: string where "ANSI_COLOR_GREEN \<equiv> ansi ''32''"
abbreviation ANSI_COLOR_YELLOW :: string where "ANSI_COLOR_YELLOW \<equiv> ansi ''33''"
abbreviation ANSI_COLOR_BLUE :: string where "ANSI_COLOR_BLUE \<equiv> ansi ''34''"
abbreviation ANSI_COLOR_MAGENTA :: string where "ANSI_COLOR_MAGENTA \<equiv> ansi ''35''"
abbreviation ANSI_COLOR_CYAN :: string where "ANSI_COLOR_CYAN \<equiv> ansi ''36''"
abbreviation ANSI_COLOR_RESET :: string where "ANSI_COLOR_RESET \<equiv> ansi ''0''"

section \<open>Rules for access\<close>

lemma param_at_in [simp]: "p < length (params c) \<Longrightarrow> param_at c p = Inr (params c ! p)"
  by (simp add: param_at_def)

lemma deref_Some [simp]: "deref c (Some p) = param_at c p"
  by (simp add: deref_def)

lemma deref_None [simp]: "deref c None = Inl NullDeref"
  by (simp add: deref_def)

lemma set_param_in [simp]:
  "p < length (params c) \<Longrightarrow> set_param c p x = Inr (c\<lparr>params := (params c)[p := x]\<rparr>)"
  by (simp add: set_param_def)

lemma upd_param_in [simp]:
  "p < length (params c) \<Longrightarrow>
   upd_param c p f = Inr (c\<lparr>params := (params c)[p := f (params c ! p)]\<rparr>)"
  by (simp add: upd_param_def)

end
