(* ===== verification/CmdTree.thy ===== *)
theory CmdTree
  imports CliState
begin

text \<open>
  The command tree of \<^verbatim>\<open>CommandParser/cmd_hier.c\<close>, with \<open>find_matching_param\<close> of
  \<^verbatim>\<open>parser.c\<close>: building the tree, the cursor, the name of the console, the collection of the
  leaves on a branch, and the boot sequence \<open>init_libcli\<close>.
\<close>

section \<open>Cursor\<close>

definition set_cmd_tree_cursor :: "cli \<Rightarrow> pref option \<Rightarrow> cli res" where
  "set_cmd_tree_cursor c p = (if p = None then Inl AssertFail else Inr (c\<lparr>cursor := p\<rparr>))"

definition get_cmd_tree_cursor :: "cli \<Rightarrow> pref option" where
  "get_cmd_tree_cursor c = cursor c"

definition reset_cmd_tree_cursor :: "cli \<Rightarrow> cli" where
  "reset_cmd_tree_cursor c =
     c\<lparr>cursor := Some root, tlv_buff := reset_serialize_buffer (tlv_buff c)\<rparr>"

definition is_user_in_cmd_mode :: "cli \<Rightarrow> bool" where
  "is_user_in_cmd_mode c \<longleftrightarrow> get_cmd_tree_cursor c \<noteq> Some root"

text \<open>The walk to the child of the root; a chain of parents that ends in NULL is dereferenced.\<close>

partial_function (option) branch_loop :: "cli \<Rightarrow> pref \<Rightarrow> pref res option" where
  "branch_loop c p =
     (case param_at c p of
        Inl e \<Rightarrow> Some (Inl e)
      | Inr x \<Rightarrow>
          (case parent x of
             None \<Rightarrow> Some (Inl NullDeref)
           | Some q \<Rightarrow> if q = root then Some (Inr p) else branch_loop c q))"

declare branch_loop.simps [code]

definition get_current_branch_hook :: "cli \<Rightarrow> pref option \<Rightarrow> pref res" where
  "get_current_branch_hook c p =
     (case p of
        None \<Rightarrow> Inl AssertFail
      | Some q \<Rightarrow> if q = root then Inl AssertFail else run_loop (branch_loop c q))"

section \<open>Parameters\<close>

definition init_cmd_type ::
    "param_type \<Rightarrow> string option \<Rightarrow> (string \<Rightarrow> int \<times> string list) option \<Rightarrow> leaf_type \<Rightarrow>
     string option \<Rightarrow> cmd_union res" where
  "init_cmd_type ty cmd_name ucb lt lid =
     (case ty of
        CMD \<Rightarrow> (case cmd_name of
                  None \<Rightarrow> Inl NullDeref
                | Some n \<Rightarrow> Inr (CmdPtr (take (CMD_NAME_SIZE - 1) n)))
      | LEAF \<Rightarrow> (case lid of
                  None \<Rightarrow> Inl NullDeref
                | Some i \<Rightarrow> Inr (LeafPtr \<lparr>lf_type = lt, value_holder = [],
                               user_validation_cb_fn = ucb, lf_id = take (LEAF_ID_SIZE - 1) i\<rparr>))
      | NO_CMD \<Rightarrow> Inr (CmdPtr ''no''))"

definition init_param ::
    "pref \<Rightarrow> param_type \<Rightarrow> string option \<Rightarrow> callback option \<Rightarrow>
     (string \<Rightarrow> int \<times> string list) option \<Rightarrow> leaf_type \<Rightarrow> string option \<Rightarrow> string \<Rightarrow>
     cli \<Rightarrow> cli res" where
  "init_param p ty cmd_name cb ucb lt lid h c =
     rbind (param_at c p) (\<lambda>x.
     rbind (init_cmd_type ty cmd_name ucb lt lid) (\<lambda>u.
     set_param c p
       (x\<lparr>param_type := ty, cmd_type := u, ishidden := False, parent := None, callback := cb,
         help_str := (put_at 0 (take (min PARAM_HELP_STRING_SIZE (length h)) h) (help_str x))
                       [PARAM_HELP_STRING_SIZE - 1 := NUL],
         disp_callback := None, options := replicate MAX_OPTION_SIZE None, CMDCODE := -1\<rparr>)))"

definition set_param_cmd_code :: "pref \<Rightarrow> int \<Rightarrow> cli \<Rightarrow> cli res" where
  "set_param_cmd_code p code c =
     rbind (param_at c p) (\<lambda>x.
     if callback x = None then Inl AssertFail else set_param c p (x\<lparr>CMDCODE := code\<rparr>))"

definition libcli_register_display_callback ::
    "pref \<Rightarrow> (pref \<Rightarrow> ser_buff \<Rightarrow> string list) option \<Rightarrow> cli \<Rightarrow> cli res" where
  "libcli_register_display_callback p f c =
     rbind (param_at c p) (\<lambda>x.
     if IS_PARAM_NO_CMD x then Inl AssertFail else set_param c p (x\<lparr>disp_callback := f\<rparr>))"

definition HIDE_PARAM :: "pref \<Rightarrow> cli \<Rightarrow> cli res" where
  "HIDE_PARAM p c = upd_param c p (\<lambda>x. x\<lparr>ishidden := True\<rparr>)"

text \<open>The first NULL among the options from index \<open>i\<close> on.\<close>

fun free_slot :: "nat \<Rightarrow> pref option list \<Rightarrow> nat option" where
  "free_slot i [] = None"
| "free_slot i (q # qs) = (if q = None then Some i else free_slot (Suc i) qs)"

definition fill_default :: "nat \<Rightarrow> pref \<Rightarrow> pref option list \<Rightarrow> pref option list" where
  "fill_default i d os = (if os ! i = None then os[i := Some d] else os)"

definition libcli_register_param :: "pref option \<Rightarrow> pref \<Rightarrow> cli \<Rightarrow> cli res" where
  "libcli_register_param par child c =
     (let p = (case par of None \<Rightarrow> root | Some q \<Rightarrow> q) in
      rbind (param_at c p) (\<lambda>x.
      let os = fill_default CMD_EXPANSION_INDEX cmd_expansion_param
                 (fill_default SUBOPTIONS_INDEX suboptions_param
                   (fill_default MODE_PARAM_INDEX mode_param (options x)))
      in case free_slot CHILDREN_START_INDEX (drop CHILDREN_START_INDEX os) of
           None \<Rightarrow> Inl AssertFail
         | Some i \<Rightarrow>
             rbind (set_param c p (x\<lparr>options := os[i := Some child]\<rparr>)) (\<lambda>c'.
             upd_param c' child (\<lambda>y. y\<lparr>parent := Some p\<rparr>))))"

definition enable_show_extension_param_brief :: "pref \<Rightarrow> cli \<Rightarrow> cli res" where
  "enable_show_extension_param_brief p c =
     rbind (param_at c p) (\<lambda>x.
     if callback x = None then Inl AssertFail
     else libcli_register_param (Some p) show_brief_extension c)"

section \<open>Finding a parameter\<close>

text \<open>The result of \<open>strncmp\<close> being zero, and whether the match is exact.\<close>

definition is_cmd_string_match :: "param \<Rightarrow> string \<Rightarrow> (bool \<times> bool) res" where
  "is_cmd_string_match x str =
     rbind (GET_CMD_NAME x) (\<lambda>n.
     Inr (strncmp_eq n str (length str), strncmp_eq n str (length str) \<and> length str = length n))"

text \<open>
  The loop reads the option before it looks at the index, so a parameter all of whose options
  are taken is read one element too far unless an exact match ends the loop.
\<close>

fun find_loop :: "cli \<Rightarrow> string \<Rightarrow> pref option list \<Rightarrow> pref option \<Rightarrow> pref list \<Rightarrow>
    (pref option \<times> pref list) res" where
  "find_loop c str [] lf possible = Inl OutOfBounds"
| "find_loop c str (None # qs) lf possible = Inr (lf, possible)"
| "find_loop c str (Some q # qs) lf possible =
     rbind (param_at c q) (\<lambda>x.
     if IS_PARAM_LEAF x then find_loop c str qs (Some q) possible
     else rbind (is_cmd_string_match x str) (\<lambda>(same, ex_match).
          if same
          then if ex_match then Inr (lf, [q])
               else if length possible + 1 < POSSIBILITY_ARRAY_SIZE
                    then find_loop c str qs lf (possible @ [q])
                    else Inl AssertFail
          else find_loop c str qs lf possible))"

fun list_possibilities :: "cli \<Rightarrow> nat \<Rightarrow> pref list \<Rightarrow> string list res" where
  "list_possibilities c i [] = Inr []"
| "list_possibilities c i (q # qs) =
     rbind (rbind (param_at c q) GET_CMD_NAME) (\<lambda>n.
     rbind (list_possibilities c (Suc i) qs) (\<lambda>ls.
     Inr ((pad_right 2 (show_nat i) @ ''. '' @ n @ [NL]) # ls)))"

definition choose_param :: "cli \<Rightarrow> pref list \<Rightarrow> (cli \<times> pref option) res" where
  "choose_param c possible =
     rbind (list_possibilities c 0 possible) (\<lambda>ls.
     let j = length possible;
         c1 = c\<lparr>out := out c @ (show_nat j @ '' possibilities :'' @ [NL]) # ls @
                  [''Choice [0-'' @ show_nat (j - 1) @ ''] : ? '']\<rparr>;
         (n, rest) = scanf_d (stdin_text c1);
         choice = (case n of None \<Rightarrow> -1 | Some i \<Rightarrow> i);
         c2 = c1\<lparr>stdin_text := rest\<rparr>
     in if choice < 0 \<or> choice > int (j - 1)
        then Inr (emit (NL # ''Invalid Choice'') c2, None)
        else Inr (c2, Some (possible ! nat choice)))"

definition find_matching_param :: "cli \<Rightarrow> pref option list \<Rightarrow> string \<Rightarrow> (cli \<times> pref option) res" where
  "find_matching_param c os cmd_name =
     rbind (find_loop c cmd_name os None []) (\<lambda>(lf, possible).
     if lf \<noteq> None \<and> possible = [] then Inr (c, lf)
     else if possible = [] then Inr (c, None)
     else if length possible = 1 then Inr (c, Some (hd possible))
     else choose_param c possible)"

section \<open>Negation\<close>

definition support_cmd_negation :: "pref \<Rightarrow> cli \<Rightarrow> cli res" where
  "support_cmd_negation p c =
     rbind (get_current_branch_hook c (Some p)) (\<lambda>h.
     if h \<noteq> config then Inl AssertFail
     else rbind (param_at c p) (\<lambda>x.
          rbind (find_matching_param c (options x) ''no'') (\<lambda>(c1, negate_param).
          rbind (case negate_param of
                   None \<Rightarrow> Inr False
                 | Some q \<Rightarrow> rbind (param_at c1 q) (\<lambda>y. Inr (IS_PARAM_NO_CMD y))) (\<lambda>dup.
          if dup
          then rbind (GET_CMD_NAME x) (\<lambda>n. Inr (emit
                 (''Error : Attempt to add Duplicate Negate param in cmd : '' @ n @ [NL]) c1))
          else
            let no_param = length (params c1);
                c2 = c1\<lparr>params := params c1 @ [zero_param]\<rparr>
            in rbind (init_param no_param NO_CMD (Some ''no'') (Some Negate) None INVALID None
                        ''Command Negation'' c2) (\<lambda>c3.
               case free_slot CHILDREN_START_INDEX (drop CHILDREN_START_INDEX (options x)) of
                 None \<Rightarrow> Inl AssertFail
               | Some i \<Rightarrow>
                   rbind (upd_param c3 no_param (\<lambda>y. y\<lparr>options :=
                     [Some suboptions_param, Some suboptions_param, Some cmd_expansion_param] @
                     take (i - CHILDREN_START_INDEX) (drop CHILDREN_START_INDEX (options x)) @
                     replicate (MAX_OPTION_SIZE - i) None,
                     parent := Some p\<rparr>)) (\<lambda>c4.
                   upd_param c4 p (\<lambda>y. y\<lparr>options := (options y)[i := Some no_param]\<rparr>)))))))"

section \<open>The name of the console\<close>

text \<open>\<open>tokenizer\<close> on the static token array; a count of zero is the result NULL.\<close>

definition tokenize_into :: "cli \<Rightarrow> string \<Rightarrow> char \<Rightarrow> (cli \<times> nat) res" where
  "tokenize_into c s delim =
     rbind (tokenizer (token_arr c) s delim) (\<lambda>(ts, n). Inr (c\<lparr>token_arr := ts\<rparr>, n))"

definition set_device_name :: "string \<Rightarrow> cli \<Rightarrow> cli res" where
  "set_device_name cons_name c =
     rbind (if console_name c \<noteq> [] then tokenize_into c (console_name c) CHR ''>''
            else Inr (c, 0)) (\<lambda>(c1, token_cnt).
     rbind (set_console c1 (cons_name @ ''>'')) (\<lambda>c2.
     if token_cnt > 1
     then let t = string_space_trim (token_arr c2 ! 1);
              c3 = c2\<lparr>token_arr := (token_arr c2)[1 := t]\<rparr>
          in set_console c3 (console_name c3 @ '' '' @ t)
     else Inr c2))"

text \<open>\<open>tokens = tokenizer (console_name, '>', ..); sprintf (console_name, "%s>", tokens[0])\<close>.\<close>

definition console_base :: "string \<Rightarrow> cli \<Rightarrow> cli res" where
  "console_base suffix c =
     rbind (tokenize_into c (console_name c) CHR ''>'') (\<lambda>(c1, token_cnt).
     if token_cnt = 0 then Inl NullDeref else set_console c1 (token_arr c1 ! 0 @ suffix))"

text \<open>
  The names from the parameter up to below the root, collected from the back of an array of 16
  rows; \<open>n\<close> is the number of rows left.
\<close>

fun mode_names :: "cli \<Rightarrow> nat \<Rightarrow> pref option \<Rightarrow> string list \<Rightarrow> string list res" where
  "mode_names c 0 p names = Inl AssertFail"
| "mode_names c (Suc n) p names =
     rbind (deref c p) (\<lambda>x.
     rbind (if IS_PARAM_CMD x then GET_CMD_NAME x
            else rbind (GET_PARAM_LEAF x) (\<lambda>l. Inr (value_holder l))) (\<lambda>s.
     if parent x = Some root then Inr (s # names) else mode_names c n (parent x) (s # names)))"

fun join_names :: "string list \<Rightarrow> string" where
  "join_names [] = []"
| "join_names [s] = s"
| "join_names (s # t # ss) = s @ ''-'' @ join_names (t # ss)"

definition build_mode_console_name :: "pref option \<Rightarrow> cli \<Rightarrow> cli res" where
  "build_mode_console_name dst c =
     (if dst = None \<or> dst = Some root then Inl AssertFail
      else rbind (console_base ''> '' c) (\<lambda>c1.
           rbind (mode_names c1 MAX_CMD_TREE_DEPTH dst []) (\<lambda>names.
           set_console c1 (console_name c1 @ join_names names))))"

section \<open>Moving up\<close>

partial_function (option) goto_top_loop :: "cli \<Rightarrow> pref option \<Rightarrow> cli res option" where
  "goto_top_loop c p =
     (case deref c p of
        Inl e \<Rightarrow> Some (Inl e)
      | Inr x \<Rightarrow>
          (case (if IS_PARAM_CMD x then Inr c
                 else case p of None \<Rightarrow> Inl NullDeref | Some q \<Rightarrow> set_leaf_value c q []) of
             Inl e \<Rightarrow> Some (Inl e)
           | Inr c' \<Rightarrow>
               if parent x = Some root then Some (Inr c') else goto_top_loop c' (parent x)))"

declare goto_top_loop.simps [code]

definition at_roof_top :: string where
  "at_roof_top =
     ANSI_COLOR_BLUE @ ''Info : At Roof top Already'' @ [NL] @ ANSI_COLOR_RESET"

definition goto_top_of_cmd_tree :: "pref option \<Rightarrow> cli \<Rightarrow> cli res" where
  "goto_top_of_cmd_tree p c =
     (if p = None then Inl AssertFail
      else if p = Some root then Inr (emit at_roof_top c)
      else rbind (run_loop (goto_top_loop c p)) (\<lambda>c1. console_base ''>'' (reset_cmd_tree_cursor c1)))"

definition go_one_level_up_cmd_tree :: "pref option \<Rightarrow> cli \<Rightarrow> cli res" where
  "go_one_level_up_cmd_tree p c =
     (case p of
        None \<Rightarrow> Inl AssertFail
      | Some q \<Rightarrow>
          if q = root then Inr (emit at_roof_top c)
          else rbind (param_at c q) (\<lambda>x.
               rbind (if IS_PARAM_LEAF x
                      then rbind (set_leaf_value c q []) (\<lambda>c1.
                           rbind (serialize_buffer_skip (tlv_buff c1) (- int TLV_SIZE)) (\<lambda>b.
                           rbind (mark_checkpoint_serialize_buffer (Some b)) (\<lambda>b'.
                           Inr (c1\<lparr>tlv_buff := b'\<rparr>))))
                      else Inr c) (\<lambda>c2.
               rbind (set_cmd_tree_cursor c2 (parent x)) (\<lambda>c3.
               if cursor c3 = Some root
               then rbind (console_base ''>'' c3) (\<lambda>c4.
                    Inr (c4\<lparr>tlv_buff := reset_serialize_buffer (tlv_buff c4)\<rparr>))
               else build_mode_console_name (cursor c3) c3))))"

section \<open>The leaves of a branch\<close>

text \<open>The unit of a leaf parameter; \<open>IS_PARAM_CMD\<close> parameters have none.\<close>

definition leaf_unit :: "param \<Rightarrow> tlv_struct res" where
  "leaf_unit x =
     rbind (GET_PARAM_LEAF x) (\<lambda>l.
     put_value_in_tlv (prepare_tlv_from_leaf (lf_type l) (lf_id l) zero_tlv) (value_holder l))"

partial_function (option) collect_loop ::
    "cli \<Rightarrow> ser_buff \<Rightarrow> pref option \<Rightarrow> pref option \<Rightarrow> ser_buff res option" where
  "collect_loop c b src dst =
     (if dst = src then Some (Inr b)
      else
        (case deref c dst of
           Inl e \<Rightarrow> Some (Inl e)
         | Inr x \<Rightarrow>
             if IS_PARAM_CMD x then collect_loop c b src (parent x)
             else
               (case rbind (leaf_unit x) (\<lambda>t. collect_tlv b t) of
                  Inl e \<Rightarrow> Some (Inl e)
                | Inr b' \<Rightarrow> collect_loop c b' src (parent x))))"

declare collect_loop.simps [code]

fun reverse_loop :: "ser_buff \<Rightarrow> nat \<Rightarrow> nat \<Rightarrow> nat \<Rightarrow> ser_buff res" where
  "reverse_loop b i j 0 = Inr b"
| "reverse_loop b i j (Suc n) =
     rbind (swap_tlv_units b i j) (\<lambda>b'. reverse_loop b' (i + 1) (j - 1) n)"

definition build_cmd_tree_leaves_data :: "cli \<Rightarrow> ser_buff \<Rightarrow> pref option \<Rightarrow> pref option \<Rightarrow> ser_buff res" where
  "build_cmd_tree_leaves_data c b src dst =
     (if src = None \<or> dst = None then Inl AssertFail
      else
        rbind (run_loop (collect_loop c (reset_serialize_buffer b) src dst)) (\<lambda>b1.
        rbind (deref c src) (\<lambda>x.
        rbind (if IS_PARAM_LEAF x then rbind (leaf_unit x) (\<lambda>t. collect_tlv b1 t)
               else Inr b1) (\<lambda>b2.
        if get_serialize_buffer_size b2 < int (2 * TLV_SIZE) then Inr b2
        else reverse_loop b2 0 (unit_count b2 - 1) (unit_count b2 div 2)))))"

end
