(* ===== verification/UtParser.thy ===== *)
theory UtParser
  imports CmdTree
begin

text \<open>
  The test driver \<^verbatim>\<open>CommandParser/ut/utinfra/ut_parser.c\<close>: scripts of lines that start with a
  colon, executed over a command parser given as the argument \<open>parse\<close>, matched against the text
  that the back end sends through a message queue.
\<close>

type_synonym cmd_parser = "string \<Rightarrow> cli \<Rightarrow> (cli \<times> CMD_PARSE_STATUS \<times> bool) res"

abbreviation (input) UT_PARSER_BUFF_MAX_SIZE :: nat where "UT_PARSER_BUFF_MAX_SIZE \<equiv> 2048"

section \<open>The queue\<close>

definition ut_parser_init :: "cli \<Rightarrow> cli" where
  "ut_parser_init c = c\<lparr>ut_log := Some [], ut_msgs := []\<rparr>"

text \<open>
  \<open>cli_out\<close> with \<open>buff_size\<close> the length of the text. The queue holds one message of 2048 bytes:
  sending to a full queue blocks, and sender and receiver are the same thread.
\<close>

definition cli_out :: "string \<Rightarrow> cli \<Rightarrow> cli res" where
  "cli_out s c =
     (if \<not> TC_RUNNING c then Inr (emit s c)
      else if \<not> length s < UT_PARSER_BUFF_MAX_SIZE then Inl AssertFail
      else if ut_msgs c \<noteq> [] then Inl Diverges
      else Inr (c\<lparr>ut_msgs := [s @ [NUL]]\<rparr>))"

text \<open>What an application callback does through the library, and \<open>set_device_name\<close> among it.\<close>

fun app_effects :: "app_effect list \<Rightarrow> cli \<Rightarrow> cli res" where
  "app_effects [] c = Inr c"
| "app_effects (Print s # es) c = app_effects es (emit s c)"
| "app_effects (CliOut s # es) c = rbind (cli_out s c) (app_effects es)"
| "app_effects (SetDeviceName s # es) c = rbind (set_device_name s c) (app_effects es)"

section \<open>One run\<close>

text \<open>
  The local variables of \<open>run_test_case\<close>. A number that was never assigned is \<open>None\<close>; \<open>tc_buff\<close>
  is the array of 128 characters that every log line is composed in.
\<close>

record tc_run =
  tc_cli :: cli
  tc_buff :: "char list"
  current_tc_no :: "nat option"
  current_step_no :: "nat option"
  tc_results :: "(nat \<times> bool \<times> bool) list"
  tc_found :: bool

definition fwrite_log :: "string \<Rightarrow> cli \<Rightarrow> cli res" where
  "fwrite_log s c =
     (case ut_log c of None \<Rightarrow> Inl NullDeref | Some l \<Rightarrow> Inr (c\<lparr>ut_log := Some (l @ [s])\<rparr>))"

text \<open>\<open>rc = sprintf (tc_buff, ..); printf ("%s", tc_buff); fwrite (tc_buff, 1, rc, ut_log_file);\<close>\<close>

definition say :: "string \<Rightarrow> tc_run \<Rightarrow> tc_run res" where
  "say s r =
     rbind (sprintf_at (tc_buff r) 0 s) (\<lambda>bf.
     rbind (fwrite_log s (emit s (tc_cli r))) (\<lambda>c.
     Inr (r\<lparr>tc_buff := bf, tc_cli := c\<rparr>)))"

definition tc_append_result :: "bool \<Rightarrow> bool \<Rightarrow> tc_run \<Rightarrow> tc_run res" where
  "tc_append_result pass match r =
     (case current_step_no r of
        None \<Rightarrow> Inl Indeterminate
      | Some n \<Rightarrow> Inr (r\<lparr>tc_results := tc_results r @ [(n, pass, match)]\<rparr>))"

definition result_line :: "nat \<times> bool \<times> bool \<Rightarrow> string" where
  "result_line x =
     (case x of (n, pass, match) \<Rightarrow>
        (if match then ''PATTERN-MATCH'' else ''PATTERN-NOT-PRESENT'') @ ''  STEP: '' @
        show_nat n @ '' : '' @ (if pass then ''PASS'' else ''FAIL'') @ [NL])"

definition total_line :: "(nat \<times> bool \<times> bool) list \<Rightarrow> string" where
  "total_line rs =
     (let p = length (filter (\<lambda>(n, pass, match). pass) rs) in
      ''Total TC : '' @ show_nat (length rs) @ ''   Pass : '' @ show_nat p @
      ''   Fail '' @ show_nat (length rs - p) @ [NL])"

fun say_all :: "string list \<Rightarrow> tc_run \<Rightarrow> tc_run res" where
  "say_all [] r = Inr r"
| "say_all (s # ss) r = rbind (say s r) (say_all ss)"

definition tc_print_result :: "tc_run \<Rightarrow> tc_run res" where
  "tc_print_result r =
     say_all ((NL # ''****  Result ******'' @ [NL]) # map result_line (tc_results r) @
              [total_line (tc_results r)]) r"

definition tc_cleanup_result_list :: "tc_run \<Rightarrow> tc_run" where
  "tc_cleanup_result_list r = r\<lparr>tc_results := []\<rparr>"

text \<open>The second of two calls of \<open>strtok\<close> with a colon: the field behind the keyword, and the rest.\<close>

definition field :: "string \<Rightarrow> (string \<times> string) res" where
  "field line =
     (case strtok CHR '':'' line of
        None \<Rightarrow> Inl NullDeref
      | Some (_, r) \<Rightarrow>
          (case strtok CHR '':'' r of None \<Rightarrow> Inl NullDeref | Some (t, r') \<Rightarrow> Inr (t, r')))"

definition uint16 :: "int \<Rightarrow> nat" where
  "uint16 i = nat (i mod 2 ^ 16)"

text \<open>The line is cut at its newline, and the three variables in it are replaced one after the
  other inside the array of 512.\<close>

fun replace_stores :: "nat \<Rightarrow> 64 word list \<Rightarrow> char list \<Rightarrow> char list res" where
  "replace_stores k [] l = Inr l"
| "replace_stores k (v # vs) l =
     rbind (replaceSubstring l (''$INT_STORE'' @ show_nat k) (show_nat (unat v)))
       (replace_stores (k + 1) vs)"

definition prepare_line :: "cli \<Rightarrow> string \<Rightarrow> string res" where
  "prepare_line c line =
     (let l = takeWhile (\<lambda>ch. ch \<noteq> NL) line in
      rbind (replace_stores 1 (int_stores c) (l @ replicate (512 - length l) NUL)) (\<lambda>l'.
      Inr (cstr l')))"

section \<open>Keywords\<close>

text \<open>
  \<open>:TESTCASE-BEGIN:\<close> skips to the wanted test case. \<open>None\<close> is the end of the file. The line
  that is skipped to is neither cut at its newline nor has its variables replaced.
\<close>

function skip_to_tc :: "nat \<Rightarrow> nat \<Rightarrow> string \<Rightarrow> (nat \<times> string) option res" where
  "skip_to_tc tc_no cur rest =
     (if tc_no = 0 \<or> cur = tc_no then Inr (Some (cur, rest))
      else
        (case fgets 512 rest of
           None \<Rightarrow> Inr None
         | Some (line, rest') \<Rightarrow>
             if \<not> has_prefix line '':TESTCASE-BEGIN:'' then skip_to_tc tc_no cur rest'
             else rbind (field line) (\<lambda>(t, _). skip_to_tc tc_no (uint16 (atoi t)) rest')))"
  by pat_completeness auto
termination
  by (relation "measure (\<lambda>(_, _, rest). length rest)") (auto dest: fgets_shorter)

declare skip_to_tc.simps [simp del]

definition tc_name :: "string \<Rightarrow> nat \<Rightarrow> string" where
  "tc_name file_name n = file_name @ '' - '' @ show_nat n"

text \<open>
  \<open>:CMD:\<close>. After a show command the data of the back end are taken from the queue; the receive
  does not wait, its time limit being three seconds after the epoch. On a time out \<open>rc\<close> is
  added to, not set, so that the log gets that many bytes of \<open>tc_buff\<close>.
\<close>

definition timed_out :: string where
  "timed_out = ''Msg Q  Time out : No Data Recvd from Backend'' @ [NL]"

definition receive :: "nat \<Rightarrow> tc_run \<Rightarrow> tc_run res" where
  "receive rc r =
     (case ut_msgs (tc_cli r) of
        [] \<Rightarrow>
          rbind (sprintf_at (tc_buff r) 0 timed_out) (\<lambda>bf.
          if length bf < rc + length timed_out then Inl OutOfBounds
          else rbind (fwrite_log (take (rc + length timed_out) bf) (emit timed_out (tc_cli r))) (\<lambda>c.
               Inr (r\<lparr>tc_buff := bf, tc_cli := c\<lparr>ut_recv_size := 0,
                     ut_recv_buff := replicate UT_PARSER_BUFF_MAX_SIZE NUL\<rparr>\<rparr>)))
      | m # ms \<Rightarrow>
          let c = (tc_cli r)\<lparr>ut_msgs := ms, ut_recv_buff := put_at 0 m (ut_recv_buff (tc_cli r)),
                         ut_recv_size := length m\<rparr>;
              s = ''Mq Data Recvd by UT Parser : '' @ [NL]
          in if \<not> ut_debug c then Inr (r\<lparr>tc_cli := c\<rparr>)
             else rbind (sprintf_at (tc_buff r) 0 s) (\<lambda>bf.
                  if length bf < rc + length s then Inl OutOfBounds
                  else rbind (fwrite_log (take (rc + length s) bf)
                               (emit (cstr (ut_recv_buff c)) (emit s c))) (\<lambda>c'.
                       rbind (fwrite_log (take (length m) (ut_recv_buff c)) c') (\<lambda>c''.
                       Inr (r\<lparr>tc_buff := bf, tc_cli := c''\<rparr>)))))"

definition run_cmd :: "cmd_parser \<Rightarrow> string \<Rightarrow> tc_run \<Rightarrow> tc_run res" where
  "run_cmd parse token r =
     (let s = ''CMD : '' @ token @ [NL] in
      rbind (say s r) (\<lambda>r1.
      rbind (parse token (tc_cli r1)) (\<lambda>(c, status, is_repeat).
      if status \<noteq> COMPLETE then Inl AssertFail
      else let r2 = r1\<lparr>tc_cli := c\<rparr> in
           if pattern_match token (length token) ''show'' \<and> TC_RUNNING c
           then let w = ''Waiting for backend data'' @ [NL] in
                if ut_debug c then rbind (say w r2) (receive (length w))
                else receive (length s) r2
           else Inr r2)))"

text \<open>The pattern is put together again from its fields; it has 256 characters of room.\<close>

definition read_pattern :: "string \<Rightarrow> string res" where
  "read_pattern line =
     rbind (field line) (\<lambda>(t, r).
     let p = t @ concat (map (\<lambda>f. '':'' @ f) (strtok_all CHR '':'' r)) in
     if length p < 256 then Inr p else Inl OutOfBounds)"

definition run_pattern :: "bool \<Rightarrow> string \<Rightarrow> tc_run \<Rightarrow> tc_run res" where
  "run_pattern wanted line r =
     rbind (read_pattern line) (\<lambda>pattern.
     let w = (if wanted then ''pattern to be matched : |'' else ''pattern to be not matched : |'');
         c = emit (w @ pattern @ ''|'' @ [NL]) (tc_cli r)
     in rbind (fwrite_log w c) (\<lambda>c1.
        rbind (fwrite_log pattern c1) (\<lambda>c2.
        rbind (fwrite_log (''|'' @ [NL]) c2) (\<lambda>c3.
        let found = pattern_match (cstr (ut_recv_buff c3)) (ut_recv_size c3) pattern;
            pass = (found = wanted)
        in rbind (say ((if pass then ''PASS'' else ''FAIL'') @ [NL]) (r\<lparr>tc_cli := c3\<rparr>)) (\<lambda>r'.
           tc_append_result pass wanted r')))))"

definition run_grep :: "string \<Rightarrow> tc_run \<Rightarrow> tc_run res" where
  "run_grep token r =
     rbind (say (''Grep Pattern : '' @ token @ [NL]) r) (\<lambda>r1.
     rbind (grep (ut_recv_buff (tc_cli r1)) (ut_recv_size (tc_cli r1)) token) (\<lambda>(bf, n).
     let s = ''Output After Grep : '' @ [NL];
         c = (tc_cli r1)\<lparr>ut_recv_buff := bf, ut_recv_size := n\<rparr>
     in rbind (fwrite_log s (emit (cstr bf) (emit s c))) (\<lambda>c1.
        rbind (fwrite_log (take n bf) c1) (\<lambda>c2. Inr (r1\<lparr>tc_cli := c2\<rparr>)))))"

definition run_int_store :: "nat \<Rightarrow> string \<Rightarrow> tc_run \<Rightarrow> tc_run res" where
  "run_int_store k token r =
     (let index = atoi token in
      if index = 0 then Inl AssertFail
      else rbind (string_fetch_integer (ut_recv_buff (tc_cli r)) (ut_recv_size (tc_cli r)) index) (\<lambda>v.
           say (''int_store'' @ show_nat k @ '' = '' @ show_nat (unat v) @ '' at index '' @
                show_int index @ [NL])
             (r\<lparr>tc_cli := (tc_cli r)\<lparr>int_stores := (int_stores (tc_cli r))[k - 1 := v]\<rparr>\<rparr>)))"

definition tc_begin :: "string \<Rightarrow> nat \<Rightarrow> string \<Rightarrow> string \<Rightarrow> tc_run \<Rightarrow> (tc_run \<times> string option) res" where
  "tc_begin file_name tc_no line rest r =
     rbind (field line) (\<lambda>(t, _).
     rbind (skip_to_tc tc_no (uint16 (atoi t)) rest) (\<lambda>found.
     case found of
       None \<Rightarrow> Inr (r, None)
     | Some (cur, rest') \<Rightarrow>
         rbind (say (NL # '' ***** Executing Test case : '' @ tc_name file_name cur @ '' ***** '' @
                     [NL]) (r\<lparr>current_tc_no := Some cur\<rparr>)) (\<lambda>r1.
         Inr (r1\<lparr>tc_cli := (tc_cli r1)\<lparr>TC_RUNNING := True\<rparr>, tc_found := True\<rparr>, Some rest'))))"

definition tc_end :: "string \<Rightarrow> nat \<Rightarrow> string \<Rightarrow> tc_run \<Rightarrow> (tc_run \<times> string option) res" where
  "tc_end file_name tc_no rest r =
     (case current_tc_no r of
        None \<Rightarrow> Inl Indeterminate
      | Some cur \<Rightarrow>
          rbind (say (NL # '' ***** Test case : '' @ tc_name file_name cur @ '' Finished ***** '' @
                      [NL]) r) (\<lambda>r1.
          rbind (tc_print_result r1) (\<lambda>r2.
          let r3 = tc_cleanup_result_list r2 in
          if tc_no \<noteq> 0 \<and> TC_RUNNING (tc_cli r3) then Inr (r3, None) else Inr (r3, Some rest))))"

text \<open>
  One prepared line that starts with a colon. The result has the text that is left to read,
  \<open>None\<close> when the loop is left.
\<close>

definition then_read :: "string \<Rightarrow> tc_run res \<Rightarrow> (tc_run \<times> string option) res" where
  "then_read rest m = rbind m (\<lambda>r. Inr (r, Some rest))"

definition tc_line ::
    "cmd_parser \<Rightarrow> string \<Rightarrow> nat \<Rightarrow> string \<Rightarrow> string \<Rightarrow> tc_run \<Rightarrow> (tc_run \<times> string option) res" where
  "tc_line parse file_name tc_no line rest r =
     (let with_field = (\<lambda>f. then_read rest (rbind (field line) (\<lambda>(t, _). f t)));
          kw = has_prefix line
      in if kw '':TESTCASE-BEGIN:'' then tc_begin file_name tc_no line rest r
         else if kw '':TESTCASE-END:'' then tc_end file_name tc_no rest r
         else if kw '':DESC:'' then with_field (\<lambda>t. say (''Description : '' @ t @ [NL]) r)
         else if kw '':STEP:''
         then with_field (\<lambda>t. rbind (say (''STEP : '' @ t @ [NL]) r) (\<lambda>r'.
                Inr (r'\<lparr>current_step_no := Some (uint16 (atoi t))\<rparr>)))
         else if kw '':CMD:'' then with_field (\<lambda>t. run_cmd parse t r)
         else if kw '':PATTERN-MATCH:'' then then_read rest (run_pattern True line r)
         else if kw '':PATTERN-NOT-MATCH:'' then then_read rest (run_pattern False line r)
         else if kw '':SLEEP:'' then with_field (\<lambda>t. say (''Sleeping for '' @ t @ '' sec'' @ [NL]) r)
         else if kw '':ABORT:''
         then rbind (say (''Aborted'' @ [NL]) r) (\<lambda>r'. Inr (r', None))
         else if kw '':PAUSE:''
         then then_read rest (rbind (say (''Paused'' @ [NL]) r) (\<lambda>r'.
                Inr (r'\<lparr>tc_cli := (tc_cli r')\<lparr>stdin_text := tl (stdin_text (tc_cli r'))\<rparr>\<rparr>)))
         else if kw '':GREP:'' then with_field (\<lambda>t. run_grep t r)
         else if kw '':PRINT:'' then with_field (\<lambda>t. say (''INFO : '' @ t @ [NL]) r)
         else if kw '':INT_STORE1:'' then with_field (\<lambda>t. run_int_store 1 t r)
         else if kw '':INT_STORE2:'' then with_field (\<lambda>t. run_int_store 2 t r)
         else if kw '':INT_STORE3:'' then with_field (\<lambda>t. run_int_store 3 t r)
         else Inr (r, Some rest))"

definition tc_round ::
    "cmd_parser \<Rightarrow> string \<Rightarrow> nat \<Rightarrow> string \<Rightarrow> string \<Rightarrow> tc_run \<Rightarrow> (tc_run \<times> string option) res" where
  "tc_round parse file_name tc_no line rest r =
     rbind (if line = [NL]
            then rbind (fwrite_log [NL] (emit [NL] (tc_cli r))) (\<lambda>c. Inr (r\<lparr>tc_cli := c\<rparr>))
            else Inr r) (\<lambda>r1.
     if line = [] \<or> hd line \<noteq> CHR '':'' then Inr (r1, Some rest)
     else rbind (prepare_line (tc_cli r1) line) (\<lambda>l. tc_line parse file_name tc_no l rest r1))"

section \<open>The loop over the file\<close>

lemma skip_to_tc_rest: "skip_to_tc tc_no cur rest = Inr (Some (n, rest')) \<Longrightarrow> length rest' \<le> length rest"
proof (induction tc_no cur rest rule: skip_to_tc.induct)
  case (1 tc_no cur rest)
  show ?case
  proof (cases "tc_no = 0 \<or> cur = tc_no")
    case True
    then show ?thesis using "1.prems" by (simp add: skip_to_tc.simps [of tc_no cur rest])
  next
    case False
    then obtain line r where f: "fgets 512 rest = Some (line, r)"
      using "1.prems" by (cases "fgets 512 rest") (auto simp: skip_to_tc.simps [of tc_no cur rest])
    have "length r < length rest" using fgets_shorter [OF f] by simp
    moreover have "length rest' \<le> length r"
      using "1.prems" "1.IH" [OF False f refl] False f
      by (auto simp: skip_to_tc.simps [of tc_no cur rest] res_simps split: if_splits)
    ultimately show ?thesis by simp
  qed
qed

lemma then_read_rest [simp]: "then_read rest m = Inr (r, x) \<Longrightarrow> x = Some rest"
  by (auto simp: then_read_def res_simps)

lemma tc_line_rest:
  assumes "tc_line parse file_name tc_no line rest r = Inr (r', Some rest')"
  shows "length rest' \<le> length rest"
  using assms
  by (auto simp: tc_line_def Let_def tc_begin_def tc_end_def then_read_def res_simps
      dest!: skip_to_tc_rest split: if_splits option.splits)

lemma tc_round_rest:
  "tc_round parse file_name tc_no line rest r = Inr (r', Some rest') \<Longrightarrow> length rest' \<le> length rest"
  by (auto simp: tc_round_def res_simps dest: tc_line_rest split: if_splits)

function tc_loop :: "cmd_parser \<Rightarrow> string \<Rightarrow> nat \<Rightarrow> string \<Rightarrow> tc_run \<Rightarrow> tc_run res" where
  "tc_loop parse file_name tc_no text r =
     (case fgets 512 text of
        None \<Rightarrow> Inr r
      | Some (line, rest) \<Rightarrow>
          rbind (tc_round parse file_name tc_no line rest r) (\<lambda>(r', next).
          case next of None \<Rightarrow> Inr r' | Some rest' \<Rightarrow> tc_loop parse file_name tc_no rest' r'))"
  by pat_completeness auto
termination
  by (relation "measure (\<lambda>(_, _, _, text, _). length text)")
     (auto dest!: fgets_shorter tc_round_rest)

declare tc_loop.simps [simp del]

definition run_test_case :: "cmd_parser \<Rightarrow> string \<Rightarrow> nat \<Rightarrow> cli \<Rightarrow> (cli \<times> bool) res" where
  "run_test_case parse file_name tc_no c =
     (case files c file_name of
        None \<Rightarrow> Inl AssertFail
      | Some text \<Rightarrow>
          rbind (tc_loop parse file_name tc_no text
                  \<lparr>tc_cli = c, tc_buff = replicate 128 NUL, current_tc_no = None, current_step_no = None,
                   tc_results = [], tc_found = False\<rparr>) (\<lambda>r.
          Inr ((tc_cli r)\<lparr>TC_RUNNING := False\<rparr>, tc_found r)))"

section \<open>The handler\<close>

definition set_ut_debug_flag :: "string \<Rightarrow> cli \<Rightarrow> cli" where
  "set_ut_debug_flag s c = c\<lparr>ut_debug := has_prefix s ''enable''\<rparr>"

text \<open>
  The values of the last leaf with each id; a leaf id that starts with none of the three names
  is passed over. A value that is missing is a null pointer. The file name is the text its
  pointer shows at the call; the code keeps the pointer into the buffer while the script runs.
\<close>

fun ut_leaves :: "tlv_struct list \<Rightarrow> string option \<times> int \<times> string option \<Rightarrow>
    string option \<times> int \<times> string option" where
  "ut_leaves [] acc = acc"
| "ut_leaves (t # ts) (f, n, e) =
     (if has_prefix (cstr (leaf_id t)) ''ut-file-name'' then ut_leaves ts (Some (cstr (val t)), n, e)
      else if has_prefix (cstr (leaf_id t)) ''tc-no'' then ut_leaves ts (f, atoi (cstr (val t)), e)
      else if has_prefix (cstr (leaf_id t)) ''ut-enable'' then ut_leaves ts (f, n, Some (cstr (val t)))
      else ut_leaves ts (f, n, e))"

definition ut_test_handler :: "cmd_parser \<Rightarrow> cli \<Rightarrow> cli res" where
  "ut_test_handler parse c =
     rbind (EXTRACT_CMD_CODE (tlv_buff c)) (\<lambda>cmdcode.
     rbind (TLV_LOOP (tlv_buff c)) (\<lambda>ts.
     case ut_leaves ts (None, 0, None) of (ut_file_name, tc_no, ut_enable_flag) \<Rightarrow>
       if cmdcode = 9
       then (case ut_file_name of
               None \<Rightarrow> Inl NullDeref
             | Some f \<Rightarrow> rbind (run_test_case parse f (uint16 tc_no) c) (\<lambda>(c', found). Inr c'))
       else if cmdcode = 10
       then (case ut_enable_flag of None \<Rightarrow> Inl NullDeref | Some s \<Rightarrow> Inr (set_ut_debug_flag s c))
       else Inr c))"

end
