(* ===== verification/CliStd.thy ===== *)
theory CliStd
  imports UtParser
begin

text \<open>
  The default validation functions and command callbacks of \<^verbatim>\<open>CommandParser/clistd.c\<close> and of
  \<^verbatim>\<open>clicbext.c\<close>, and \<open>invoke\<close>, the call through the callback pointer of a parameter. The
  callbacks that run further commands get the parser as an argument. Every callback of the
  library is called with the one buffer \<open>tlv_buff\<close> (\<open>repeat\<close> with NULL, which it ignores).
\<close>

section \<open>Validation\<close>

definition boolean_validation_handler :: "string \<Rightarrow> CLI_VAL_RC" where
  "boolean_validation_handler v =
     (if has_prefix v ''true'' \<or> has_prefix v ''false'' then VALIDATION_SUCCESS
      else VALIDATION_FAILED)"

definition int_validation_handler :: "string \<Rightarrow> CLI_VAL_RC" where
  "int_validation_handler v = VALIDATION_SUCCESS"

definition string_validation_handler :: "string \<Rightarrow> CLI_VAL_RC" where
  "string_validation_handler v = VALIDATION_SUCCESS"

definition ipv4_validation_handler :: "string \<Rightarrow> CLI_VAL_RC" where
  "ipv4_validation_handler v = VALIDATION_SUCCESS"

definition ipv6_validation_handler :: "string \<Rightarrow> CLI_VAL_RC" where
  "ipv6_validation_handler v = VALIDATION_SUCCESS"

definition float_validation_handler :: "string \<Rightarrow> CLI_VAL_RC" where
  "float_validation_handler v = VALIDATION_SUCCESS"

fun grep_pattern_validation :: "string \<Rightarrow> CLI_VAL_RC" where
  "grep_pattern_validation [] = VALIDATION_SUCCESS"
| "grep_pattern_validation (c # s) =
     (if c = CHR '' '' then VALIDATION_FAILED else grep_pattern_validation s)"

text \<open>
  \<open>leaf_handler_array\<close>, as \<open>init_libcli\<close> fills it: no handler for \<open>INVALID\<close>, and \<open>LEAF_MAX\<close>
  is behind its end.
\<close>

fun leaf_handler :: "leaf_type \<Rightarrow> string \<Rightarrow> CLI_VAL_RC res" where
  "leaf_handler INT_LEAF v = Inr (int_validation_handler v)"
| "leaf_handler STRING v = Inr (string_validation_handler v)"
| "leaf_handler IPV4 v = Inr (ipv4_validation_handler v)"
| "leaf_handler IPV6 v = Inr (ipv6_validation_handler v)"
| "leaf_handler FLOAT v = Inr (float_validation_handler v)"
| "leaf_handler BOOLEAN v = Inr (boolean_validation_handler v)"
| "leaf_handler INVALID v = Inl NullDeref"
| "leaf_handler LEAF_MAX v = Inl OutOfBounds"

text \<open>The user validation function, if there is one; what it prints goes to the output.\<close>

definition user_validation :: "leaf \<Rightarrow> string \<Rightarrow> cli \<Rightarrow> cli \<times> int" where
  "user_validation l v c =
     (case user_validation_cb_fn l of
        None \<Rightarrow> (c, 0)
      | Some f \<Rightarrow> (case f v of (rc, texts) \<Rightarrow> (c\<lparr>out := out c @ texts\<rparr>, rc)))"

section \<open>Printing the tree\<close>

text \<open>\<open>print_tokens\<close>: the first \<open>n\<close> tokens; the array has no element that is NULL.\<close>

definition print_tokens :: "nat \<Rightarrow> cli \<Rightarrow> cli res" where
  "print_tokens n c =
     (if length (token_arr c) < n then Inl OutOfBounds
      else Inr (c\<lparr>out := out c @ map (\<lambda>t. t @ '' '') (take n (token_arr c))\<rparr>))"

text \<open>The token a parameter is shown as.\<close>

definition put_token :: "param \<Rightarrow> nat \<Rightarrow> cli \<Rightarrow> cli res" where
  "put_token x index c =
     rbind (case param_type x of
              LEAF \<Rightarrow> rbind (GET_PARAM_LEAF x) (\<lambda>l. Inr (''<'' @ lf_id l @ ''>''))
            | _ \<Rightarrow> GET_CMD_NAME x) (\<lambda>s.
     rbind (untokenize (token_arr c) index) (\<lambda>ts.
     rbind (tokenize ts s index) (\<lambda>ts'. Inr (c\<lparr>token_arr := ts'\<rparr>))))"

text \<open>
  \<open>dump_all_commands\<close> for each of a list of parameters. An index beyond the token array is an
  access outside it, so the depth of the recursion is bounded even on a cyclic tree.
\<close>

function dump_all_commands :: "cli \<Rightarrow> pref option list \<Rightarrow> nat \<Rightarrow> cli res" where
  "dump_all_commands c [] index = Inr c"
| "dump_all_commands c (None # qs) index = dump_all_commands c qs index"
| "dump_all_commands c (Some p # qs) index =
     rbind (param_at c p) (\<lambda>x.
     if IS_PARAM_NO_CMD x then dump_all_commands c qs index
     else if MAX_CMD_TREE_DEPTH \<le> index then Inl OutOfBounds
     else
       rbind (put_token x index c) (\<lambda>c1.
       rbind (dump_all_commands c1 (drop CHILDREN_START_INDEX (options x)) (index + 1)) (\<lambda>c2.
       rbind (if callback x = None then Inr c2
              else rbind (print_tokens (index + 1) c2) (\<lambda>c3. Inr (emit [NL] c3))) (\<lambda>c4.
       dump_all_commands c4 qs index))))"
  by pat_completeness auto
termination
  by (relation "measures [\<lambda>(_, _, index). MAX_CMD_TREE_DEPTH - index, \<lambda>(_, qs, _). length qs]")
     auto

text \<open>
  \<open>_dump_one_cmd\<close>, with the depth of the recursion bounded by fuel; the first option that is
  NULL ends the list. \<open>tabs\<close> is an \<open>unsigned short\<close>.
\<close>

fun dump_one_cmd :: "nat \<Rightarrow> cli \<Rightarrow> pref \<Rightarrow> 16 word \<Rightarrow> string list res"
  and dump_options :: "nat \<Rightarrow> cli \<Rightarrow> pref option list \<Rightarrow> 16 word \<Rightarrow> string list res" where
  "dump_one_cmd 0 c p tabs = Inl Diverges"
| "dump_one_cmd (Suc n) c p tabs =
     rbind (param_at c p) (\<lambda>x.
     rbind (if IS_PARAM_CMD x \<or> IS_PARAM_NO_CMD x then GET_CMD_NAME x
            else GET_LEAF_TYPE_STR x) (\<lambda>s.
     rbind (dump_options n c (options x) (tabs + 1)) (\<lambda>rest.
     Inr (replicate (unat tabs) ''  '' @ [''-->'' @ s @ ''('' @ show_nat (unat tabs) @ '')''] @
          rest))))"
| "dump_options n c [] tabs = Inr []"
| "dump_options n c (None # qs) tabs = Inr []"
| "dump_options n c (Some q # qs) tabs =
     rbind (dump_one_cmd n c q tabs) (\<lambda>ls.
     rbind (dump_options n c qs tabs) (\<lambda>rest. Inr ([NL] # ls @ rest)))"

definition dump_cmd_tree :: "cli \<Rightarrow> cli res" where
  "dump_cmd_tree c =
     rbind (dump_one_cmd (length (params c) + 1) c root 0) (\<lambda>ls. Inr (c\<lparr>out := out c @ ls\<rparr>))"

section \<open>Callbacks without further calls\<close>

definition show_help_handler :: "cli \<Rightarrow> cli" where
  "show_help_handler c = c\<lparr>out := out c @
     [''Welcome to Help Wizard'' @ [NL],
      ''========================'' @ [NL],
      ''1. Use '' @ [CHR 0x27] @ ''/'' @ [CHR 0x27] @
        '' Character after the command to enter command mode'' @ [NL],
      ''2. Use '' @ [CHR 0x27] @ ''?'' @ [CHR 0x27] @
        '' Character after the command to see possible follow up suboptions'' @ [NL],
      ''3. Use '' @ [CHR 0x27] @ ''do'' @ [CHR 0x27] @
        '' from within the config branch to directly trigger operational commands'' @ [NL],
      ''4. Use '' @ [CHR 0x27] @ ''.'' @ [CHR 0x27] @
        '' Character after the command to see possible complete command completions'' @ [NL],
      ''5. Built-in commands:'' @ [NL],
      ''    a. cls - clear screen'' @ [NL],
      ''    b. cd - jump to top of cmd tree'' @ [NL],
      ''    c. cd.. - jump one level up of command tree'' @ [NL],
      ''    d. config [no] console name <console name> - set/unset new console name'' @ [NL],
      ''    e. config [no] supportsave enable - enable/disable supportsave facility'' @ [NL],
      ''    f. debug show cmdtree - Show entire command tree'' @ [NL],
      ''    g. show history - show history of commands triggered'' @ [NL],
      ''    h. repeat - repeat the last command'' @ [NL],
      ANSI_COLOR_YELLOW @
        ''                      Author : Abhishek Sagar, Juniper Networks'' @ [NL] @
        ANSI_COLOR_RESET,
      ANSI_COLOR_YELLOW @
        ''                      Visit : www.csepracticals.com for more courses and projects'' @
        [NL] @ ANSI_COLOR_RESET]\<rparr>"

definition negate_callback :: "cli \<Rightarrow> cli" where
  "negate_callback c = emit (''Command Negation - Type the cmd following to Negate'' @ [NL]) c"

definition load_file_handler :: "cli \<Rightarrow> cli" where
  "load_file_handler c = emit (''No Op - Full type the command'' @ [NL]) c"

definition pipe_handler :: "cli \<Rightarrow> cli" where
  "pipe_handler c = emit (''pipe_handler() called '' @ [NL]) c"

text \<open>\<open>system ("clear")\<close> changes the terminal only.\<close>

definition clear_screen_handler :: "cli \<Rightarrow> cli" where
  "clear_screen_handler c = c"

definition cli_terminate_handler :: "cli \<Rightarrow> cli res" where
  "cli_terminate_handler c = Inl Exited"

text \<open>The three signals share one state: the handler of \<^verbatim>\<open>clicbext.c\<close> or the default.\<close>

definition supportsave_handler :: "op_mode \<Rightarrow> cli \<Rightarrow> cli res" where
  "supportsave_handler m c =
     (case m of
        CONFIG_ENABLE \<Rightarrow> Inr (c\<lparr>supportsave_on := True\<rparr>)
      | CONFIG_DISABLE \<Rightarrow> Inr (c\<lparr>supportsave_on := False\<rparr>)
      | _ \<Rightarrow> Inl AssertFail)"

text \<open>
  \<open>terminate_signal_handler\<close> prints this through \<open>collect_supportsave_data\<close> and ends the
  process; \<open>ctrlC_signal_handler\<close> returns when the application has registered a handler.
\<close>

definition terminate_signal_handler :: "string list" where
  "terminate_signal_handler = [''collect_supportsave_data() is called ...'' @ [NL]]"

definition ctrlC_signal_handler :: "cli \<Rightarrow> cli res" where
  "ctrlC_signal_handler c =
     (case ctrlC c of
        None \<Rightarrow> Inl Exited
      | Some es \<Rightarrow> app_effects es (emit (''Ctrl-C pressed'' @ [NL]) c))"

definition cli_register_ctrlC_handler :: "app_effect list option \<Rightarrow> cli \<Rightarrow> cli" where
  "cli_register_ctrlC_handler f c = c\<lparr>ctrlC := f\<rparr>"

fun console_name_loop :: "op_mode \<Rightarrow> tlv_struct list \<Rightarrow> cli \<Rightarrow> cli res" where
  "console_name_loop m [] c = Inr c"
| "console_name_loop m (t # ts) c =
     rbind (if m = CONFIG_ENABLE then set_device_name (cstr (val t)) c
            else if strncmp_eq (cstr (val t)) (console_name c) (length (cstr (val t)))
                 then set_device_name ''tcp-server'' c
                 else Inr (emit (''Error : Incorrect device name'' @ [NL]) c))
       (console_name_loop m ts)"

definition config_console_name_handler :: "op_mode \<Rightarrow> cli \<Rightarrow> cli res" where
  "config_console_name_handler m c =
     rbind (TLV_LOOP (tlv_buff c)) (\<lambda>ts. console_name_loop m ts c)"

definition exit_cmd_handler :: "cli \<Rightarrow> cli res" where
  "exit_cmd_handler c = go_one_level_up_cmd_tree (get_cmd_tree_cursor c) c"

definition end_cmd_handler :: "cli \<Rightarrow> cli res" where
  "end_cmd_handler c = goto_top_of_cmd_tree (get_cmd_tree_cursor c) c"

definition config_mode_enter_handler :: "pref option \<Rightarrow> cli \<Rightarrow> cli res" where
  "config_mode_enter_handler p c =
     rbind (set_cmd_tree_cursor c p) (\<lambda>c1.
     rbind (build_mode_console_name p c1) (\<lambda>c2.
     rbind (mark_checkpoint_serialize_buffer (Some (tlv_buff c2))) (\<lambda>b.
     Inr (c2\<lparr>tlv_buff := b\<rparr>))))"

definition re_init_token_arr :: "cli \<Rightarrow> cli res" where
  "re_init_token_arr c =
     rbind (re_init_tokens (token_arr c) MAX_CMD_TREE_DEPTH) (\<lambda>ts. Inr (c\<lparr>token_arr := ts\<rparr>))"

definition show_resgistered_cmd_handler :: "cli \<Rightarrow> cli res" where
  "show_resgistered_cmd_handler c =
     rbind (re_init_token_arr c) (\<lambda>c1. dump_all_commands c1 [Some root] 0)"

definition display_cmd_expansion_callback :: "pref option \<Rightarrow> cli \<Rightarrow> cli res" where
  "display_cmd_expansion_callback p c =
     rbind (re_init_token_arr c) (\<lambda>c1. dump_all_commands c1 [p] 0)"

definition show_extension_param_handler :: "pref option \<Rightarrow> cli \<Rightarrow> cli res" where
  "show_extension_param_handler p c =
     (if p = Some show_brief_extension
      then rbind (put_value_in_tlv zero_tlv ''SHOW_BRIEF'') (\<lambda>t.
           rbind (collect_tlv (tlv_buff c)
             (t\<lparr>leaf_type := INVALID, leaf_id := put_at 0 ''SHOW_EXTENSIONS'' (leaf_id t)\<rparr>)) (\<lambda>b.
           Inr (c\<lparr>tlv_buff := b\<rparr>)))
      else Inr c)"

text \<open>\<open>display_sub_options_callback\<close>: the children that are not hidden, up to the first gap.\<close>

fun sub_option_lines :: "cli \<Rightarrow> pref option list \<Rightarrow> string list res" where
  "sub_option_lines c [] = Inr []"
| "sub_option_lines c (None # qs) = Inr []"
| "sub_option_lines c (Some q # qs) =
     rbind (param_at c q) (\<lambda>x.
     if ishidden x then sub_option_lines c qs
     else
       rbind (if IS_PARAM_CMD x \<or> IS_PARAM_NO_CMD x
              then rbind (GET_CMD_NAME x) (\<lambda>n. Inr
                (ANSI_COLOR_MAGENTA @ ''nxt cmd  -> '' @ pad_right 31 n @ ''   |   '' @
                 GET_PARAM_HELP_STRING x @ [NL] @ ANSI_COLOR_RESET))
              else rbind (GET_LEAF_TYPE_STR x) (\<lambda>n. Inr
                (ANSI_COLOR_CYAN @ ''nxt leaf -> '' @ pad_right 32 n @ ''  |   '' @
                 GET_PARAM_HELP_STRING x @ [NL] @ ANSI_COLOR_RESET))) (\<lambda>l.
       rbind (sub_option_lines c qs) (\<lambda>ls. Inr (l # ls))))"

definition display_sub_options_callback :: "pref option \<Rightarrow> cli \<Rightarrow> cli res" where
  "display_sub_options_callback p c =
     rbind (deref c p) (\<lambda>x.
     rbind (sub_option_lines c (drop CHILDREN_START_INDEX (options x))) (\<lambda>ls.
     let c1 = c\<lparr>out := out c @ (if callback x = None then [] else [''<Enter>'' @ [NL]]) @ ls\<rparr> in
     case disp_callback x of
       None \<Rightarrow> Inr c1
     | Some f \<Rightarrow>
         rbind (collect_tlv (tlv_buff c1) zero_tlv) (\<lambda>b.
         Inr (c1\<lparr>tlv_buff := b,
                  out := out c1 @ [ANSI_COLOR_YELLOW @ ''possible values :'' @ [NL]] @
                         (case p of None \<Rightarrow> [] | Some q \<Rightarrow> f q b) @ [ANSI_COLOR_RESET]\<rparr>))))"

section \<open>The history\<close>

text \<open>\<open>record_command\<close> appends to the file until it has done so 30 times.\<close>

definition record_command :: "string \<Rightarrow> cli \<Rightarrow> cli" where
  "record_command cmd c =
     (if hist_count c = MAX_SAVED_CMDS then c
      else c\<lparr>hist := Some ((case hist c of None \<Rightarrow> [] | Some t \<Rightarrow> t) @ cmd @ [NL]),
             hist_count := hist_count c + 1\<rparr>)"

text \<open>
  The listing. \<open>offsets\<close> is what was stored in \<open>cmd_offset\<close> so far, given by the text behind
  each offset; its element number 30 does not exist.
\<close>

function list_history :: "string \<Rightarrow> string list \<Rightarrow> string list \<Rightarrow> (string list \<times> string list) res" where
  "list_history text offsets lines =
     (case fgets FILE_CMD_SIZE_MAX text of
        None \<Rightarrow> Inr (offsets, lines)
      | Some (l, rest) \<Rightarrow>
          if MAX_SAVED_CMDS \<le> length offsets then Inl OutOfBounds
          else list_history rest (offsets @ [rest])
                 (lines @ [show_nat (length offsets - 1) @ ''. '' @ l]))"
  by pat_completeness auto
termination
  by (relation "measure (\<lambda>(text, _, _). length text)") (auto dest: fgets_shorter)

declare list_history.simps [simp del]

definition show_history_callback :: "cmd_parser \<Rightarrow> cli \<Rightarrow> cli res" where
  "show_history_callback parse c =
     (case hist c of
        None \<Rightarrow> Inr (emit (''Error : History file could not be read'' @ [NL]) c)
      | Some text \<Rightarrow>
          rbind (list_history text [text] []) (\<lambda>(offsets, lines).
          let c1 = c\<lparr>out := out c @ lines @ [''Enter command no to trigger : '']\<rparr>;
              (n, rest) = scanf_d (stdin_text c1);
              c2 = c1\<lparr>stdin_text := rest\<rparr>
          in case n of
               None \<Rightarrow> Inl Indeterminate
             | Some cmd_choice \<Rightarrow>
                 if \<not> (0 \<le> cmd_choice \<and> cmd_choice < int (length offsets))
                 then Inr (emit (''Invalid choice'' @ [NL]) c2)
                 else
                   let cmd = (case fgets FILE_CMD_SIZE_MAX (offsets ! nat cmd_choice) of
                                None \<Rightarrow> [] | Some (l, _) \<Rightarrow> l)
                   in rbind (parse cmd (emit (''Command to be triggered : '' @ cmd) c2))
                        (\<lambda>(c3, _, _). Inr c3)))"

section \<open>Callbacks that run commands\<close>

text \<open>\<open>scanf ("%c")\<close> takes one character of the input if there is one.\<close>

definition repeat_last_command :: "cmd_parser \<Rightarrow> cli \<Rightarrow> cli res" where
  "repeat_last_command parse c =
     (let c1 = emit (''prev : '' @ last_command c) c;
          c2 = c1\<lparr>stdin_text := tl (stdin_text c1)\<rparr>
      in rbind (parse (last_command c2) c2) (\<lambda>(c3, _, _). Inr c3))"

text \<open>A callback of an application: its call is recorded, then come its effects.\<close>

definition app_callback :: "nat \<Rightarrow> pref \<Rightarrow> op_mode \<Rightarrow> cli \<Rightarrow> cli res" where
  "app_callback n p m c =
     app_effects (backend c n (tlv_buff c) m)
       (c\<lparr>calls := calls c @ [(n, p, tlv_buff c, m)]\<rparr>)"

text \<open>The call of a registered function, except for \<open>mode_enter_callback\<close>.\<close>

fun call_function :: "cmd_parser \<Rightarrow> callback \<Rightarrow> pref \<Rightarrow> op_mode \<Rightarrow> cli \<Rightarrow> cli res" where
  "call_function parse ShowHelp p m c = Inr (show_help_handler c)"
| "call_function parse ShowHistory p m c = show_history_callback parse c"
| "call_function parse ShowRegistered p m c = show_resgistered_cmd_handler c"
| "call_function parse ShowCmdTree p m c = dump_cmd_tree c"
| "call_function parse UtTest p m c = ut_test_handler parse c"
| "call_function parse ConfigModeEnter p m c = config_mode_enter_handler (Some p) c"
| "call_function parse LoadFile p m c = Inr (load_file_handler c)"
| "call_function parse Supportsave p m c = supportsave_handler m c"
| "call_function parse CliTerminate p m c = cli_terminate_handler c"
| "call_function parse RepeatLast p m c = repeat_last_command parse c"
| "call_function parse ConsoleName p m c = config_console_name_handler m c"
| "call_function parse ClearScreen p m c = Inr (clear_screen_handler c)"
| "call_function parse ExitCmd p m c = exit_cmd_handler c"
| "call_function parse EndCmd p m c = end_cmd_handler c"
| "call_function parse DisplaySubOptions p m c = display_sub_options_callback (Some p) c"
| "call_function parse DisplayCmdExpansion p m c = display_cmd_expansion_callback (Some p) c"
| "call_function parse Negate p m c = Inr (negate_callback c)"
| "call_function parse ShowExtensionParam p m c = show_extension_param_handler (Some p) c"
| "call_function parse PipeHandler p m c = Inr (pipe_handler c)"
| "call_function parse (App n) p m c = app_callback n p m c"
| "call_function parse ModeEnter p m c = Inl Diverges"

text \<open>
  \<open>mode_enter_callback\<close> calls the callback of the parameter it enters; where that is
  \<open>mode_enter_callback\<close> itself, the recursion does not end.
\<close>

definition mode_enter_callback :: "cmd_parser \<Rightarrow> pref option \<Rightarrow> op_mode \<Rightarrow> cli \<Rightarrow> cli res" where
  "mode_enter_callback parse p m c =
     (if p = Some root
      then Inr (emit (ANSI_COLOR_YELLOW @ ''Info : Mode not supported at root level'' @ [NL] @
                      ANSI_COLOR_RESET) c)
      else
        rbind (set_cmd_tree_cursor c p) (\<lambda>c1.
        rbind (build_mode_console_name p c1) (\<lambda>c2.
        case p of
          None \<Rightarrow> Inl NullDeref
        | Some q \<Rightarrow>
            rbind (param_at c2 q) (\<lambda>x.
            case callback x of None \<Rightarrow> Inr c2 | Some f \<Rightarrow> call_function parse f q m c2))))"

definition invoke :: "cmd_parser \<Rightarrow> pref \<Rightarrow> op_mode \<Rightarrow> cli \<Rightarrow> cli res" where
  "invoke parse p m c =
     rbind (param_at c p) (\<lambda>x.
     case callback x of
       None \<Rightarrow> Inl NullDeref
     | Some f \<Rightarrow>
         if f = ModeEnter then mode_enter_callback parse (Some p) m c
         else call_function parse f p m c)"

end
