(* ===== verification/CmdBoot.thy ===== *)
theory CmdBoot
  imports CmdTree
begin

text \<open>
  The boot sequence of the library, \<open>init_libcli\<close> of \<^verbatim>\<open>CommandParser/cmd_hier.c\<close>, with the
  parameters it declares and the tree it builds from them.
\<close>

section \<open>Steps\<close>

fun run_steps :: "(cli \<Rightarrow> cli res) list \<Rightarrow> cli \<Rightarrow> cli res" where
  "run_steps [] c = Inr c"
| "run_steps (f # fs) c = rbind (f c) (run_steps fs)"

lemma run_steps_append: "run_steps (fs @ gs) c = rbind (run_steps fs c) (run_steps gs)"
proof (induction fs arbitrary: c)
  case (Cons f fs)
  then show ?case by (cases "f c") auto
qed simp

text \<open>\<open>init_param\<close> for a command and for a leaf, each followed by its registration.\<close>

definition cmd_param :: "pref \<Rightarrow> string \<Rightarrow> callback option \<Rightarrow> string \<Rightarrow> cli \<Rightarrow> cli res" where
  "cmd_param p name cb h = init_param p CMD (Some name) cb None INVALID None h"

definition leaf_param ::
    "pref \<Rightarrow> callback option \<Rightarrow> (string \<Rightarrow> int \<times> string list) option \<Rightarrow> leaf_type \<Rightarrow> string \<Rightarrow>
     string \<Rightarrow> cli \<Rightarrow> cli res" where
  "leaf_param p cb ucb lt lid h = init_param p LEAF None cb ucb lt (Some lid) h"

definition under :: "pref \<Rightarrow> pref \<Rightarrow> cli \<Rightarrow> cli res" where
  "under par child = libcli_register_param (Some par) child"

section \<open>\<open>init_libcli\<close>\<close>

text \<open>The statics that are local to \<open>init_libcli\<close>, behind those of the file.\<close>

abbreviation (input) STATICS :: nat where "STATICS \<equiv> 35"

text \<open>\<open>enable_disable_validation_handler\<close> of \<^verbatim>\<open>clistd.c\<close>, with the values of \<open>CLI_VAL_RC\<close>.\<close>

definition enable_disable_validation_handler :: "string \<Rightarrow> int \<times> string list" where
  "enable_disable_validation_handler v =
     (if has_prefix v ''enable'' \<or> has_prefix v ''disable'' then (0, []) else (-1, []))"

definition show_steps :: "(cli \<Rightarrow> cli res) list" where
  "show_steps =
     [cmd_param show_hook ''show'' None ''show cmds'', under root show_hook,
      cmd_param 13 ''help'' (Some ShowHelp) ''help how to use this CLI'', under show_hook 13,
      set_param_cmd_code 13 1,
      cmd_param 14 ''history'' (Some ShowHistory) ''Command history'', under show_hook 14,
      set_param_cmd_code 14 2,
      leaf_param 15 (Some ShowHistory) None INT_LEAF ''N'' ''No Of Commands to fetch'', under 14 15,
      set_param_cmd_code 15 3,
      cmd_param 16 ''registered'' None ''registered'', under show_hook 16,
      cmd_param 17 ''commands'' (Some ShowRegistered) ''commands'', under 16 17,
      set_param_cmd_code 17 4]"

definition debug_steps :: "(cli \<Rightarrow> cli res) list" where
  "debug_steps =
     [cmd_param debug ''debug'' None ''debug cmds'', under root debug,
      cmd_param 18 ''ut'' None ''debug ut'', under debug 18,
      leaf_param 19 (Some UtTest) (Some enable_disable_validation_handler) STRING ''ut-enable''
        ''enable | disable'', under 18 19,
      set_param_cmd_code 19 10,
      cmd_param debug_show ''show'' None ''debug show commands'', under debug debug_show,
      cmd_param 20 ''cmdtree'' (Some ShowCmdTree) ''Display command tree'', under debug_show 20,
      set_param_cmd_code 20 7]"

definition config_steps :: "(cli \<Rightarrow> cli res) list" where
  "config_steps =
     [cmd_param config ''config'' (Some ConfigModeEnter) ''config cmds'', under root config,
      cmd_param 21 ''load'' None ''load cmds'', under config 21,
      leaf_param 22 (Some LoadFile) None STRING ''file-name'' ''Name of the file'', under 21 22,
      set_param_cmd_code 22 8,
      cmd_param 23 ''supportsave'' None ''Collect Support Save Data'', under config 23,
      cmd_param 24 ''enable'' (Some Supportsave) ''enable/disable Support Save Data Collection'',
      under 23 24,
      set_param_cmd_code 24 5]"

definition run_steps_of_tree :: "(cli \<Rightarrow> cli res) list" where
  "run_steps_of_tree =
     [cmd_param clear ''clear'' None ''clear cmds'', under root clear,
      cmd_param run ''run'' None ''run cmds'', under root run,
      cmd_param 25 ''term'' (Some CliTerminate) ''Terminate appln'', under run 25,
      cmd_param 26 ''ut'' None ''Unit Test'', under run 26,
      leaf_param 27 None None STRING ''ut-file-name'' ''UT file name'', under 26 27,
      leaf_param 28 (Some UtTest) None INT_LEAF ''tc-no'' ''Test Case Number'', under 27 28,
      set_param_cmd_code 28 9]"

definition do_steps :: "(cli \<Rightarrow> cli res) list" where
  "do_steps =
     [cmd_param do_hook ''DO_HOOK'' None ''operational commands shortcut'',
      \<lambda>c. set_option c do_hook MODE_PARAM_INDEX (Some suboptions_param),
      \<lambda>c. set_option c do_hook SUBOPTIONS_INDEX (Some suboptions_param),
      \<lambda>c. set_option c do_hook CMD_EXPANSION_INDEX (Some cmd_expansion_param),
      \<lambda>c. set_option c do_hook CHILDREN_START_INDEX (Some show_hook),
      \<lambda>c. set_option c do_hook (CHILDREN_START_INDEX + 1) (Some debug),
      \<lambda>c. set_option c do_hook (CHILDREN_START_INDEX + 2) (Some clear)]"

definition console_steps :: "(cli \<Rightarrow> cli res) list" where
  "console_steps =
     [cmd_param repeat ''repeat'' (Some RepeatLast) ''repeat'', under root repeat,
      cmd_param 29 ''console'' None ''console'', under config 29,
      cmd_param 30 ''name'' None ''name'', under 29 30,
      leaf_param 31 (Some ConsoleName) None STRING ''cons-name'' ''Name of Console'', under 30 31,
      set_param_cmd_code 31 6,
      cmd_param 32 ''cls'' (Some ClearScreen) ''clear screen'', HIDE_PARAM 32,
      libcli_register_param None 32,
      cmd_param 33 ''cd..'' (Some ExitCmd) ''Move One Level Up'', HIDE_PARAM 33,
      libcli_register_param None 33,
      cmd_param 34 ''cd'' (Some EndCmd) ''Goto Top level'', HIDE_PARAM 34,
      libcli_register_param None 34,
      cmd_param show_brief_extension ''brief'' (Some ShowExtensionParam) ''brief output'']"

definition init_libcli :: "cli \<Rightarrow> cli res" where
  "init_libcli =
     run_steps
       ([cmd_param root ''ROOT'' None ''ROOT'',
         \<lambda>c. Inr (c\<lparr>tlv_buff := init_serialized_buffer_of_defined_size TLV_MAX_BUFFER_SIZE\<rparr>),
         \<lambda>c. Inr (reset_cmd_tree_cursor c),
         set_device_name ''tcp-server'',
         \<lambda>c. Inr (c\<lparr>token_arr := init_token_array\<rparr>),
         cmd_param mode_param ''/'' (Some ModeEnter) ''ENTER MODE'',
         cmd_param suboptions_param ''?'' (Some DisplaySubOptions) ''Sub-Options'',
         cmd_param cmd_expansion_param ''.'' (Some DisplayCmdExpansion)
           ''All possible Command expansions''] @
        show_steps @ debug_steps @ config_steps @ run_steps_of_tree @ do_steps @ console_steps)"

text \<open>
  The state before \<open>main\<close>: the statics of the library and \<open>n\<close> static parameters of the
  application, in an environment of input, files, history and application callbacks.
\<close>

definition before_main ::
    "nat \<Rightarrow> string \<Rightarrow> (string \<Rightarrow> string option) \<Rightarrow>
     (nat \<Rightarrow> ser_buff \<Rightarrow> op_mode \<Rightarrow> app_effect list) \<Rightarrow> cli" where
  "before_main n inp fs be =
     \<lparr>params = replicate (STATICS + n) zero_param, cursor = None,
      tlv_buff = init_serialized_buffer, console_name = [], token_arr = init_token_array,
      last_command = [], recording = True, code_tlv = zero_tlv, supportsave_on = False,
      ctrlC = None, stdin_text = inp, hist = None, hist_count = 0, files = fs, out = [],
      calls = [], backend = be, TC_RUNNING = False, ut_msgs = [],
      ut_recv_buff = replicate 2048 NUL, ut_recv_size = 0, ut_debug = False, ut_log = None,
      int_stores = [0, 0, 0]\<rparr>"

text \<open>The application's static parameter number \<open>i\<close>.\<close>

definition app_param :: "nat \<Rightarrow> pref" where
  "app_param i = STATICS + i"

end
