(* ===== verification/Parser.thy ===== *)
theory Parser
  imports CliStd CmdBoot
begin

text \<open>
  The parser of \<^verbatim>\<open>CommandParser/parser.c\<close>: the walk through the tree that collects the leaf
  values, the dispatch of a complete command, the commands that are treated before the walk,
  files of commands and the loop of the shell.
\<close>

section \<open>The walk\<close>

text \<open>
  The state of the loop in \<open>build_tlv_buffer\<close>: the parameter reached and the one before it, the
  mode, the status and the token that was not accepted.
\<close>

record walk =
  w_cli :: cli
  w_parent :: "pref option"
  w_param :: "pref option"
  w_mode :: op_mode
  w_status :: CMD_PARSE_STATUS
  w_token :: string

text \<open>
  A leaf that was found for a token: library validation, user validation, then its unit is
  collected and its value stored in the tree.
\<close>

definition take_leaf :: "cli \<Rightarrow> pref \<Rightarrow> leaf \<Rightarrow> string \<Rightarrow> (cli \<times> CMD_PARSE_STATUS) res" where
  "take_leaf c p l token =
     rbind (leaf_handler (lf_type l) token) (\<lambda>rc.
     if rc \<noteq> VALIDATION_SUCCESS then Inr (c, INVALID_LEAF)
     else
       (case user_validation l token c of (c1, urc) \<Rightarrow>
          if urc \<noteq> 0 then Inr (c1, USER_INVALID_LEAF)
          else
            rbind (put_value_in_tlv (prepare_tlv_from_leaf (lf_type l) (lf_id l) zero_tlv) token) (\<lambda>t.
            rbind (set_leaf_value c1 p token) (\<lambda>c2.
            rbind (collect_tlv (tlv_buff c2) t) (\<lambda>b.
            Inr (c2\<lparr>tlv_buff := b\<rparr>, COMPLETE))))))"

text \<open>One round; the second result tells whether the loop goes on.\<close>

definition walk_step :: "walk \<Rightarrow> string \<Rightarrow> (walk \<times> bool) res" where
  "walk_step w token =
     rbind (deref (w_cli w) (w_param w)) (\<lambda>x.
     rbind (find_matching_param (w_cli w) (options x) token) (\<lambda>(c1, found).
     let w1 = w\<lparr>w_cli := c1, w_parent := w_param w, w_param := found\<rparr> in
     case found of
       None \<Rightarrow> Inr (w1\<lparr>w_status := CMD_NOT_FOUND, w_token := token\<rparr>, False)
     | Some p \<Rightarrow>
         rbind (param_at c1 p) (\<lambda>y.
         if IS_PARAM_LEAF y
         then rbind (GET_PARAM_LEAF y) (\<lambda>l.
              rbind (take_leaf c1 p l token) (\<lambda>(c2, status).
              if status = COMPLETE then Inr (w1\<lparr>w_cli := c2\<rparr>, True)
              else Inr (w1\<lparr>w_cli := c2, w_status := status, w_token := token\<rparr>, False)))
         else if IS_PARAM_NO_CMD y then Inr (w1\<lparr>w_mode := CONFIG_DISABLE\<rparr>, True)
         else Inr (w1, True))))"

fun walk_loop :: "walk \<Rightarrow> string list \<Rightarrow> walk res" where
  "walk_loop w [] = Inr w"
| "walk_loop w (token # tokens) =
     rbind (walk_step w token) (\<lambda>(w', go_on). if go_on then walk_loop w' tokens else Inr w')"

definition start_walk :: "cli \<Rightarrow> walk" where
  "start_walk c =
     \<lparr>w_cli = c, w_parent = None, w_param = get_cmd_tree_cursor c, w_mode = MODE_UNKNOWN,
      w_status = COMPLETE, w_token = []\<rparr>"

section \<open>Dispatch\<close>

text \<open>The command code of a parameter, appended as the last unit.\<close>

definition collect_code :: "int \<Rightarrow> cli \<Rightarrow> cli res" where
  "collect_code code c =
     (let t = (code_tlv c)\<lparr>val := put_at 0 (show_int code) (replicate LEAF_VALUE_HOLDER_SIZE NUL)\<rparr> in
      rbind (collect_tlv (tlv_buff c) t) (\<lambda>b. Inr (c\<lparr>code_tlv := t, tlv_buff := b\<rparr>)))"

definition error_line :: "string \<Rightarrow> string \<Rightarrow> string" where
  "error_line colour s = colour @ s @ [NL] @ ANSI_COLOR_RESET"

definition dispatch_brief :: "cmd_parser \<Rightarrow> pref \<Rightarrow> pref option \<Rightarrow> cli \<Rightarrow> (cli \<times> CMD_PARSE_STATUS) res" where
  "dispatch_brief parse p parent_ref c =
     rbind (deref c parent_ref) (\<lambda>par.
     if callback par = None
     then Inr (emit (error_line ANSI_COLOR_YELLOW ''Error : Incomplete Command'') c,
               INCOMPLETE_COMMAND)
     else
       rbind (invoke parse p OPERATIONAL c) (\<lambda>c1.
       rbind (deref c1 parent_ref) (\<lambda>par1.
       rbind (collect_code (CMDCODE par1) c1) (\<lambda>c2.
       rbind (case parent_ref of None \<Rightarrow> Inl NullDeref | Some q \<Rightarrow> invoke parse q OPERATIONAL c2) (\<lambda>c3.
       Inr (c3, COMPLETE))))))"

definition dispatch_mode :: "cmd_parser \<Rightarrow> pref option \<Rightarrow> op_mode \<Rightarrow> cli \<Rightarrow> cli res" where
  "dispatch_mode parse parent_ref m c =
     rbind (deref c parent_ref) (\<lambda>par.
     rbind (mark_checkpoint_serialize_buffer (Some (tlv_buff c))) (\<lambda>b.
     rbind (collect_code (CMDCODE par) (c\<lparr>tlv_buff := b\<rparr>)) (\<lambda>c1.
     mode_enter_callback parse parent_ref
       (if m = CONFIG_DISABLE then CONFIG_DISABLE else CONFIG_ENABLE) c1)))"

definition command_mode :: "pref \<Rightarrow> op_mode \<Rightarrow> op_mode" where
  "command_mode hook m =
     (if hook = config \<and> m \<noteq> CONFIG_DISABLE then CONFIG_ENABLE
      else if hook \<noteq> config then OPERATIONAL else m)"

definition dispatch_command :: "cmd_parser \<Rightarrow> pref \<Rightarrow> op_mode \<Rightarrow> cli \<Rightarrow> cli res" where
  "dispatch_command parse p m c =
     rbind (get_current_branch_hook c (Some p)) (\<lambda>hook.
     rbind (if hook \<noteq> repeat \<and> p \<noteq> config
            then rbind (param_at c p) (\<lambda>x. collect_code (CMDCODE x) c)
            else Inr c) (\<lambda>c1.
     invoke parse p (command_mode hook m) c1))"

definition dispatch :: "cmd_parser \<Rightarrow> walk \<Rightarrow> pref \<Rightarrow> (cli \<times> CMD_PARSE_STATUS) res" where
  "dispatch parse w p =
     (let c = emit (ANSI_COLOR_GREEN @ ''Parse Success.'' @ [NL] @ ANSI_COLOR_RESET) (w_cli w);
          done = (\<lambda>m. rbind m (\<lambda>c'. Inr (c', COMPLETE)))
      in if p = show_brief_extension then dispatch_brief parse p (w_parent w) c
         else if p = suboptions_param then done (display_sub_options_callback (w_parent w) c)
         else if p = mode_param then done (dispatch_mode parse (w_parent w) (w_mode w) c)
         else if p = cmd_expansion_param then done (display_cmd_expansion_callback (w_parent w) c)
         else done (dispatch_command parse p (w_mode w) c))"

definition incomplete_command :: "cli \<Rightarrow> cli" where
  "incomplete_command c = emit (error_line ANSI_COLOR_YELLOW ''Error : Incomplete Command'') c"

definition finish_walk :: "cmd_parser \<Rightarrow> walk \<Rightarrow> (cli \<times> CMD_PARSE_STATUS) res" where
  "finish_walk parse w =
     (case w_status w of
        COMPLETE \<Rightarrow>
          rbind (deref (w_cli w) (w_param w)) (\<lambda>x.
          case w_param w of
            None \<Rightarrow> Inl NullDeref
          | Some p \<Rightarrow>
              if callback x = None then Inr (incomplete_command (w_cli w), INCOMPLETE_COMMAND)
              else dispatch parse w p)
      | CMD_NOT_FOUND \<Rightarrow>
          Inr (emit (error_line ANSI_COLOR_RED (''Error : Following Token not registered : '' @
                     w_token w)) (w_cli w), CMD_NOT_FOUND)
      | INVALID_LEAF \<Rightarrow>
          rbind (rbind (deref (w_cli w) (w_param w)) GET_LEAF_TYPE_STR) (\<lambda>ty.
          Inr (emit (error_line ANSI_COLOR_RED
                 (''Error : Following leaf value could not be validated: '' @ w_token w @
                  '', Expected Data type = '' @ ty)) (w_cli w), INVALID_LEAF))
      | USER_INVALID_LEAF \<Rightarrow>
          rbind (rbind (deref (w_cli w) (w_param w)) GET_PARAM_LEAF) (\<lambda>l.
          Inr (emit (ANSI_COLOR_YELLOW @
                 ''Error : User validation has failed : Invalid value for Leaf : '' @ lf_id l @
                 [NL] @ ANSI_COLOR_RESET) (w_cli w), USER_INVALID_LEAF))
      | INCOMPLETE_COMMAND \<Rightarrow> Inr (incomplete_command (w_cli w), INCOMPLETE_COMMAND)
      | MULTIPLE_MATCHING_COMMANDS \<Rightarrow> Inr (w_cli w, MULTIPLE_MATCHING_COMMANDS)
      | other \<Rightarrow> Inr (emit (error_line ANSI_COLOR_RED ''FATAL : Unknown case fall'') (w_cli w), other))"

definition build_tlv_buffer :: "cmd_parser \<Rightarrow> string list \<Rightarrow> cli \<Rightarrow> (cli \<times> CMD_PARSE_STATUS) res" where
  "build_tlv_buffer parse tokens c =
     rbind (walk_loop (start_walk c) tokens) (finish_walk parse)"

section \<open>Files of commands\<close>

text \<open>After each command the buffer goes back to the mark of the mode, or is emptied.\<close>

definition settle_buffer :: "cli \<Rightarrow> cli res" where
  "settle_buffer c =
     (if is_user_in_cmd_mode c
      then rbind (restore_checkpoint_serialize_buffer (Some (tlv_buff c))) (\<lambda>b.
           Inr (c\<lparr>tlv_buff := b\<rparr>))
      else Inr (c\<lparr>tlv_buff := reset_serialize_buffer (tlv_buff c)\<rparr>))"

definition place_console :: "bool \<Rightarrow> cli \<Rightarrow> cli" where
  "place_console new_line c =
     c\<lparr>out := out c @ (if new_line then [[NL]] else []) @ [console_name c @ '' $ '']\<rparr>"

definition parse_line :: "cmd_parser \<Rightarrow> string \<Rightarrow> cli \<Rightarrow> cli res" where
  "parse_line parse line c =
     rbind (tokenize_into (emit (''Executing : '' @ line) c) line CHR '' '') (\<lambda>(c1, token_cnt).
     rbind (build_tlv_buffer parse (take token_cnt (token_arr c1))
             (c1\<lparr>tlv_buff := reset_serialize_buffer (tlv_buff c1)\<rparr>)) (\<lambda>(c2, status).
     rbind (re_init_token_arr c2) settle_buffer))"

function parse_lines :: "cmd_parser \<Rightarrow> string \<Rightarrow> cli \<Rightarrow> cli res" where
  "parse_lines parse text c =
     (case fgets 255 text of
        None \<Rightarrow> Inr c
      | Some (line, rest) \<Rightarrow> rbind (parse_line parse line c) (parse_lines parse rest))"
  by pat_completeness auto
termination
  by (relation "measure (\<lambda>(_, text, _). length text)") (auto dest: fgets_shorter)

declare parse_lines.simps [simp del]

text \<open>The number of the error in the first message is that of the system.\<close>

definition parse_file :: "cmd_parser \<Rightarrow> string \<Rightarrow> cli \<Rightarrow> cli res" where
  "parse_file parse file_name c =
     (case files c file_name of
        None \<Rightarrow> Inr (emit (''Error : Could not open log file '' @ file_name @ '', errno = 2'' @ [NL]) c)
      | Some text \<Rightarrow>
          rbind (parse_lines parse text
                  (c\<lparr>recording := False, tlv_buff := reset_serialize_buffer (tlv_buff c)\<rparr>)) (\<lambda>c1.
          Inr (place_console True c1)))"

section \<open>\<open>parse_input_cmd\<close>\<close>

text \<open>
  \<open>do\<close> in the config branch: the rest of the line is a command below \<open>do_hook\<close>; afterwards the
  cursor is restored and the leaves of its branch are collected again, unless the command has
  moved the cursor.
\<close>

definition do_command :: "cmd_parser \<Rightarrow> string list \<Rightarrow> cli \<Rightarrow> (cli \<times> CMD_PARSE_STATUS) res" where
  "do_command parse tokens c =
     rbind (get_current_branch_hook c (get_cmd_tree_cursor c)) (\<lambda>hook.
     if hook \<noteq> config
     then Inr (emit (''Info : do is supported from within config mode only'' @ [NL]) c, COMPLETE)
     else
       let old_cursor_state = get_cmd_tree_cursor c in
       rbind (set_cmd_tree_cursor c (Some do_hook)) (\<lambda>c1.
       rbind (build_tlv_buffer parse tokens
               (c1\<lparr>tlv_buff := reset_serialize_buffer (tlv_buff c1)\<rparr>)) (\<lambda>(c2, status).
       if get_cmd_tree_cursor c2 \<noteq> Some do_hook
       then rbind (get_current_branch_hook c2 (get_cmd_tree_cursor c2)) (\<lambda>h.
            if h = config then Inl AssertFail else Inr (c2, status))
       else
         rbind (set_cmd_tree_cursor c2 old_cursor_state) (\<lambda>c3.
         rbind (build_cmd_tree_leaves_data c3 (tlv_buff c3) (Some root) (cursor c3)) (\<lambda>b.
         rbind (mark_checkpoint_serialize_buffer (Some b)) (\<lambda>b'.
         Inr (c3\<lparr>tlv_buff := b'\<rparr>, status)))))))"

text \<open>\<open>strncmp (tokens[0], "repeat", strlen (tokens[0]))\<close>: an abbreviation is enough.\<close>

definition abbreviates :: "string \<Rightarrow> string \<Rightarrow> bool" where
  "abbreviates t name \<longleftrightarrow> strncmp_eq t name (length t)"

definition select_command ::
    "cmd_parser \<Rightarrow> token_array \<Rightarrow> nat \<Rightarrow> cli \<Rightarrow> (cli \<times> CMD_PARSE_STATUS \<times> bool) res" where
  "select_command parse ts token_cnt c =
     (let plain = (\<lambda>m. rbind m (\<lambda>c'. Inr (c', COMPLETE, False)));
          built = (\<lambda>m. rbind m (\<lambda>(c', status). Inr (c', status, False)))
      in if token_cnt > 1 \<and> strncmp_eq (ts ! 0) ''do'' 2 \<and> get_cmd_tree_cursor c \<noteq> Some root
         then built (do_command parse (take (token_cnt - 1) (drop 1 ts)) c)
         else if abbreviates (ts ! 0) ''repeat''
         then rbind (invoke parse repeat OPERATIONAL c) (\<lambda>c'. Inr (c', COMPLETE, True))
         else if has_prefix (ts ! 0) ''cd..'' \<and> token_cnt = 1
         then plain (go_one_level_up_cmd_tree (get_cmd_tree_cursor c) c)
         else if has_prefix (ts ! 0) ''cd'' \<and> token_cnt = 1
         then plain (goto_top_of_cmd_tree (get_cmd_tree_cursor c) c)
         else if has_prefix (ts ! 0) ''cls'' \<and> token_cnt = 1
         then plain (Inr (clear_screen_handler c))
         else if has_prefix (ts ! 0) ''run'' \<and> has_prefix (ts ! 1) ''ut'' \<and> token_cnt = 4
         then plain (rbind (run_test_case parse (ts ! 2) (uint16 (strtol (ts ! 3))) c) (\<lambda>(c', found). Inr c'))
         else if has_prefix (ts ! 0) ''config'' \<and> has_prefix (ts ! 1) ''load'' \<and> token_cnt = 3
         then plain (parse_file parse (ts ! 2) c)
         else built (build_tlv_buffer parse (take token_cnt ts) c))"

definition parse_body :: "cmd_parser \<Rightarrow> string \<Rightarrow> cli \<Rightarrow> (cli \<times> CMD_PARSE_STATUS \<times> bool) res" where
  "parse_body parse input c =
     rbind (tokenize_into c input CHR '' '') (\<lambda>(c1, token_cnt).
     if token_cnt = 0 then Inr (c1, INCOMPLETE_COMMAND, False)
     else
       rbind (select_command parse (token_arr c1) token_cnt c1) (\<lambda>(c2, status, is_repeat_cmd).
       rbind (re_init_token_arr c2) (\<lambda>c3.
       rbind (settle_buffer c3) (\<lambda>c4. Inr (c4, status, is_repeat_cmd)))))"

text \<open>
  Commands that run further commands (\<open>repeat\<close>, \<open>show history\<close>, scripts) call the parser again.
  The fuel is the depth of these calls; running out of it stands for the end of the stack.
\<close>

fun parse_input_cmd :: "nat \<Rightarrow> cmd_parser" where
  "parse_input_cmd 0 input c = Inl Diverges"
| "parse_input_cmd (Suc n) input c = parse_body (parse_input_cmd n) input c"

section \<open>The shell\<close>

text \<open>\<open>command_code_tlv\<close>, as the shell sets it up.\<close>

definition command_code_tlv :: tlv_struct where
  "command_code_tlv = zero_tlv\<lparr>leaf_type := INT_LEAF, leaf_id := put_at 0 ''CMDCODE'' (leaf_id zero_tlv)\<rparr>"

definition shell_start :: "cli \<Rightarrow> cli" where
  "shell_start c =
     place_console True
       ((emit (''run - '' @ [CHR 0x27] @ ''show help'' @ [CHR 0x27] @ '' cmd to learn more'') c)
         \<lparr>code_tlv := command_code_tlv\<rparr>)"

text \<open>One line of the standard input; at its end the process exits.\<close>

definition shell_step :: "nat \<Rightarrow> cli \<Rightarrow> cli res" where
  "shell_step fuel c =
     (case fgets (CONS_INPUT_BUFFER_SIZE - 1) (stdin_text c) of
        None \<Rightarrow> Inl Exited
      | Some (line, rest) \<Rightarrow>
          let c0 = c\<lparr>stdin_text := rest\<rparr> in
          if length line = 1 then Inr (place_console False c0)
          else
            let cmd = butlast line in
            rbind (parse_input_cmd fuel cmd c0) (\<lambda>(c1, status, is_repeat_cmd).
            if is_repeat_cmd then Inr (place_console True c1)
            else
              let c2 = (if status = COMPLETE \<and> recording c1 then record_command cmd c1 else c1)
              in Inr (place_console True (c2\<lparr>recording := True, last_command := cmd\<rparr>))))"

fun command_parser :: "nat \<Rightarrow> nat \<Rightarrow> cli \<Rightarrow> cli res" where
  "command_parser 0 fuel c = Inr c"
| "command_parser (Suc n) fuel c = rbind (shell_step fuel c) (command_parser n fuel)"

end
