(* ===== verification/TreeFacts.thy ===== *)
theory TreeFacts
  imports CmdTree
begin

text \<open>
  The shape of the command tree, which commands do not change, and what the operations of
  \<open>CmdTree\<close> compute on a tree: the branch of a parameter, the selection of a child, the
  collected leaves and the way up.
\<close>

section \<open>The shape of the tree\<close>

text \<open>Everything of a parameter but the value its leaf holds.\<close>

definition erase :: "param \<Rightarrow> param" where
  "erase x =
     (case cmd_type x of
        LeafPtr l \<Rightarrow> x\<lparr>cmd_type := LeafPtr (l\<lparr>value_holder := []\<rparr>)\<rparr>
      | _ \<Rightarrow> x)"

definition shape :: "cli \<Rightarrow> param list" where
  "shape c = map erase (params c)"

lemma erase_fields [simp]:
  "param_type (erase x) = param_type x" "callback (erase x) = callback x"
  "ishidden (erase x) = ishidden x" "help_str (erase x) = help_str x"
  "options (erase x) = options x" "parent (erase x) = parent x"
  "disp_callback (erase x) = disp_callback x" "CMDCODE (erase x) = CMDCODE x"
  "GET_CMD_NAME (erase x) = GET_CMD_NAME x"
  "IS_PARAM_CMD (erase x) = IS_PARAM_CMD x" "IS_PARAM_LEAF (erase x) = IS_PARAM_LEAF x"
  "IS_PARAM_NO_CMD (erase x) = IS_PARAM_NO_CMD x"
  by (simp_all add: erase_def GET_CMD_NAME_def IS_PARAM_CMD_def IS_PARAM_LEAF_def
      IS_PARAM_NO_CMD_def split: cmd_union.splits)

lemma erase_value [simp]:
  "cmd_type x = LeafPtr l \<Longrightarrow> erase (x\<lparr>cmd_type := LeafPtr (l\<lparr>value_holder := v\<rparr>)\<rparr>) = erase x"
  by (simp add: erase_def)

lemma shape_length: "shape c = shape c' \<Longrightarrow> length (params c) = length (params c')"
  by (metis length_map shape_def)

lemma shape_nth:
  "shape c = shape c' \<Longrightarrow> p < length (params c) \<Longrightarrow> erase (params c ! p) = erase (params c' ! p)"
  by (metis nth_map shape_def shape_length)

lemma shape_eq_field:
  assumes "shape c = shape c'" "\<And>x. f (erase x) = f x" "p < length (params c)"
  shows "f (params c ! p) = f (params c' ! p)"
  using shape_nth [OF assms(1,3)] assms(2) by metis

lemma set_leaf_value_shape:
  assumes "set_leaf_value c p v = Inr c'"
  shows "shape c' = shape c"
proof -
  from assms obtain l where p: "p < length (params c)"
    and l: "cmd_type (params c ! p) = LeafPtr l"
    and c': "c' = c\<lparr>params := (params c)[p := (params c ! p)
        \<lparr>cmd_type := LeafPtr (l\<lparr>value_holder := v\<rparr>)\<rparr>]\<rparr>"
    by (auto simp: set_leaf_value_def res_simps param_at_def GET_PARAM_LEAF_def set_param_def
        split: if_splits cmd_union.splits)
  have "map erase ((params c)[p := (params c ! p)\<lparr>cmd_type := LeafPtr (l\<lparr>value_holder := v\<rparr>)\<rparr>]) =
      (map erase (params c))[p := erase (params c ! p)]"
    using l by (simp add: map_update)
  also have "\<dots> = map erase (params c)" using p by (metis list_update_id nth_map)
  finally show ?thesis using c' by (simp add: shape_def)
qed

section \<open>Finding a child\<close>

definition is_cmd :: "cli \<Rightarrow> pref \<Rightarrow> bool" where
  "is_cmd c q \<longleftrightarrow> \<not> IS_PARAM_LEAF (params c ! q)"

definition name_of :: "cli \<Rightarrow> pref \<Rightarrow> string" where
  "name_of c q = (case cmd_type (params c ! q) of CmdPtr n \<Rightarrow> n | _ \<Rightarrow> [])"

text \<open>Children that exist and, unless they are leaves, have a name.\<close>

definition children_ok :: "cli \<Rightarrow> pref list \<Rightarrow> bool" where
  "children_ok c qs \<longleftrightarrow>
     (\<forall>q\<in>set qs. q < length (params c) \<and> (is_cmd c q \<longrightarrow> (\<exists>n. cmd_type (params c ! q) = CmdPtr n)))"

text \<open>The commands a token abbreviates, those it spells out, and the last leaf.\<close>

definition matches :: "cli \<Rightarrow> string \<Rightarrow> pref list \<Rightarrow> pref list" where
  "matches c str qs = filter (\<lambda>q. is_cmd c q \<and> (\<exists>u. name_of c q = str @ u)) qs"

definition exacts :: "cli \<Rightarrow> string \<Rightarrow> pref list \<Rightarrow> pref list" where
  "exacts c str qs = filter (\<lambda>q. is_cmd c q \<and> name_of c q = str) qs"

definition leaf_of :: "cli \<Rightarrow> pref list \<Rightarrow> pref option \<Rightarrow> pref option" where
  "leaf_of c qs lf = fold (\<lambda>q l. if is_cmd c q then l else Some q) qs lf"

lemma strncmp_eq_prefix: "strncmp_eq n str (length str) \<longleftrightarrow> (\<exists>u. n = str @ u)"
  using has_prefix_iff [of n str] by (simp add: has_prefix_def)

lemma is_cmd_string_match_eq:
  "cmd_type x = CmdPtr n \<Longrightarrow>
   is_cmd_string_match x str = Inr (\<exists>u. n = str @ u, n = str)"
  by (auto simp: is_cmd_string_match_def GET_CMD_NAME_def strncmp_eq_prefix)

lemma find_loop_eq:
  assumes "children_ok c qs" "length possible + length (matches c str qs) < POSSIBILITY_ARRAY_SIZE"
  shows "\<exists>lf'. find_loop c str (map Some qs @ None # rest) lf possible =
    Inr (lf', case exacts c str qs of [] \<Rightarrow> possible @ matches c str qs | e # _ \<Rightarrow> [e]) \<and>
    (exacts c str qs = [] \<longrightarrow> lf' = leaf_of c qs lf)"
  using assms
proof (induction qs arbitrary: lf possible)
  case (Cons q qs)
  have ok: "children_ok c qs" and q: "q < length (params c)"
    using Cons.prems(1) by (auto simp: children_ok_def)
  show ?case
  proof (cases "is_cmd c q")
    case False
    have eqs: "matches c str (q # qs) = matches c str qs"
      "exacts c str (q # qs) = exacts c str qs" "leaf_of c (q # qs) lf = leaf_of c qs (Some q)"
      using False by (simp_all add: matches_def exacts_def leaf_of_def)
    show ?thesis
      unfolding eqs
      using Cons.IH [OF ok, of possible "Some q"] Cons.prems(2) [unfolded eqs] q False
      by (simp add: is_cmd_def)
  next
    case True
    then obtain n where n: "cmd_type (params c ! q) = CmdPtr n"
      using Cons.prems(1) by (auto simp: children_ok_def)
    then have name: "name_of c q = n" by (simp add: name_of_def)
    note step = True q n name is_cmd_string_match_eq [OF n, of str]
    consider "n = str" | "n \<noteq> str" "\<exists>u. n = str @ u" | "\<nexists>u. n = str @ u" by blast
    then show ?thesis
    proof cases
      case 1
      then show ?thesis using step by (simp add: exacts_def is_cmd_def)
    next
      case 2
      then have m: "matches c str (q # qs) = q # matches c str qs"
        using step by (simp add: matches_def)
      have e: "exacts c str (q # qs) = exacts c str qs"
        using 2 step by (simp add: exacts_def)
      show ?thesis
        using Cons.IH [OF ok, of "possible @ [q]" lf] Cons.prems(2) 2 step m e
        by (auto simp: is_cmd_def leaf_of_def split: list.splits)
    next
      case 3
      then have m: "matches c str (q # qs) = matches c str qs"
        using step by (simp add: matches_def)
      have e: "exacts c str (q # qs) = exacts c str qs"
        using 3 step by (auto simp: exacts_def)
      show ?thesis
        using Cons.IH [OF ok, of possible lf] Cons.prems(2) 3 step
        by (auto simp: is_cmd_def leaf_of_def m e split: list.splits)
    qed
  qed
qed (simp add: matches_def exacts_def leaf_of_def)

text \<open>
  What \<open>find_matching_param\<close> means: an exact name wins over abbreviations, commands win over
  leaves, a single abbreviation is taken, and several are asked about.
\<close>

definition select_child :: "cli \<Rightarrow> pref list \<Rightarrow> string \<Rightarrow> (cli \<times> pref option) res" where
  "select_child c qs str =
     (case exacts c str qs of
        e # _ \<Rightarrow> Inr (c, Some e)
      | [] \<Rightarrow> (case matches c str qs of
                [] \<Rightarrow> Inr (c, leaf_of c qs None)
              | [m] \<Rightarrow> Inr (c, Some m)
              | ms \<Rightarrow> choose_param c ms))"

lemma find_matching_param_eq:
  assumes "children_ok c qs" "length (matches c str qs) < POSSIBILITY_ARRAY_SIZE"
  shows "find_matching_param c (map Some qs @ None # rest) str = select_child c qs str"
proof -
  obtain lf' where f: "find_loop c str (map Some qs @ None # rest) None [] =
    Inr (lf', case exacts c str qs of [] \<Rightarrow> [] @ matches c str qs | e # _ \<Rightarrow> [e])"
    and lf: "exacts c str qs = [] \<longrightarrow> lf' = leaf_of c qs None"
    using find_loop_eq [of c qs "[]" str rest None] assms by fastforce
  show ?thesis
  proof (cases "exacts c str qs")
    case Nil
    then have f: "find_loop c str (map Some qs @ None # rest) None [] =
        Inr (leaf_of c qs None, matches c str qs)"
      using f lf by simp
    show ?thesis
    proof (cases "matches c str qs")
      case Nil
      with \<open>exacts c str qs = []\<close> f show ?thesis
        by (auto simp: find_matching_param_def select_child_def)
    next
      case (Cons m ms)
      with \<open>exacts c str qs = []\<close> f show ?thesis
        by (cases ms) (auto simp: find_matching_param_def select_child_def)
    qed
  next
    case (Cons e es)
    then show ?thesis using f by (simp add: find_matching_param_def select_child_def)
  qed
qed

text \<open>Finding looks at the shape only, and changes nothing but input and output.\<close>

lemma find_loop_shape:
  assumes "shape c = shape c'"
  shows "find_loop c str os lf possible = find_loop c' str os lf possible"
proof (induction os arbitrary: lf possible)
  case (Cons q os)
  show ?case
  proof (cases q)
    case (Some p)
    show ?thesis
    proof (cases "p < length (params c)")
      case True
      note eq = shape_eq_field [OF assms _ True]
      have "IS_PARAM_LEAF (params c ! p) = IS_PARAM_LEAF (params c' ! p)"
        "GET_CMD_NAME (params c ! p) = GET_CMD_NAME (params c' ! p)"
        by (rule eq; simp)+
      moreover have "p < length (params c')" using True shape_length [OF assms] by simp
      ultimately show ?thesis
        using Some True Cons.IH by (simp add: is_cmd_string_match_def rbind_def split: sum.splits)
    next
      case False
      then have "param_at c p = Inl UseAfterFree" "param_at c' p = Inl UseAfterFree"
        using shape_length [OF assms] by (simp_all add: param_at_def)
      then show ?thesis using Some by simp
    qed
  qed simp
qed simp

section \<open>Branches\<close>

text \<open>\<open>branch c p ps\<close>: \<open>ps\<close> leads from a child of the root down to \<open>p\<close>.\<close>

inductive branch :: "cli \<Rightarrow> pref \<Rightarrow> pref list \<Rightarrow> bool" for c where
  top: "p < length (params c) \<Longrightarrow> parent (params c ! p) = Some root \<Longrightarrow> branch c p [p]"
| below: "p < length (params c) \<Longrightarrow> parent (params c ! p) = Some q \<Longrightarrow> q \<noteq> root \<Longrightarrow>
    branch c q ps \<Longrightarrow> branch c p (ps @ [p])"

inductive_cases branch_Nil: "branch c p []"

lemma branch_last: "branch c p ps \<Longrightarrow> ps \<noteq> [] \<and> last ps = p"
  by (induction rule: branch.induct) auto

lemma branch_in: "branch c p ps \<Longrightarrow> q \<in> set ps \<Longrightarrow> q < length (params c)"
  by (induction rule: branch.induct) auto

text \<open>A ranking that decreases towards the root puts every parameter that reaches it on a branch.\<close>

lemma ranked_branch:
  assumes rank: "\<And>p q. p < length (params c) \<Longrightarrow> p \<noteq> root \<Longrightarrow> parent (params c ! p) = Some q \<Longrightarrow>
      q < length (params c) \<and> rk q < (rk p :: nat)"
    and up: "\<And>p. p < length (params c) \<Longrightarrow> p \<noteq> root \<Longrightarrow> P p \<Longrightarrow>
      \<exists>q. parent (params c ! p) = Some q \<and> (q \<noteq> root \<longrightarrow> P q)"
  shows "p < length (params c) \<Longrightarrow> p \<noteq> root \<Longrightarrow> P p \<Longrightarrow> \<exists>ps. branch c p ps"
proof (induction "rk p" arbitrary: p rule: less_induct)
  case less
  obtain q where q: "parent (params c ! p) = Some q" "q \<noteq> root \<longrightarrow> P q"
    using up less.prems by blast
  show ?case
  proof (cases "q = root")
    case True
    then show ?thesis using q less.prems branch.top by auto
  next
    case False
    moreover have "q < length (params c)" "rk q < rk p" using rank q less.prems by auto
    ultimately obtain ps where "branch c q ps" using less.hyps q(2) by blast
    then show ?thesis using branch.below less.prems q(1) False by blast
  qed
qed

lemma branch_loop_hd: "branch c p ps \<Longrightarrow> branch_loop c p = Some (Inr (hd ps))"
proof (induction rule: branch.induct)
  case (below p q ps)
  then show ?case
    using branch_last by (subst branch_loop.simps) fastforce
qed (subst branch_loop.simps, simp)

lemma get_current_branch_hook_hd:
  "branch c p ps \<Longrightarrow> p \<noteq> root \<Longrightarrow> get_current_branch_hook c (Some p) = Inr (hd ps)"
  by (simp add: get_current_branch_hook_def branch_loop_hd)

text \<open>Parameters whose kind agrees with their pointer.\<close>

definition typed :: "param \<Rightarrow> bool" where
  "typed x \<longleftrightarrow>
     (case cmd_type x of
        NullPtr \<Rightarrow> False | CmdPtr n \<Rightarrow> param_type x = CMD | LeafPtr l \<Rightarrow> param_type x = LEAF)"

definition label :: "param \<Rightarrow> string" where
  "label x = (case cmd_type x of NullPtr \<Rightarrow> [] | CmdPtr n \<Rightarrow> n | LeafPtr l \<Rightarrow> value_holder l)"

lemma typed_label:
  "typed x \<Longrightarrow>
   (if IS_PARAM_CMD x then GET_CMD_NAME x
    else rbind (GET_PARAM_LEAF x) (\<lambda>l. Inr (value_holder l))) = Inr (label x)"
  by (auto simp: typed_def label_def IS_PARAM_CMD_def GET_CMD_NAME_def GET_PARAM_LEAF_def
      split: cmd_union.splits)

text \<open>The name of the mode: the labels on the branch.\<close>

lemma mode_names_branch:
  assumes "branch c p ps" "\<forall>q\<in>set ps. typed (params c ! q)" "length ps \<le> n"
  shows "mode_names c n (Some p) names = Inr (map (\<lambda>q. label (params c ! q)) ps @ names)"
  using assms
proof (induction arbitrary: n names rule: branch.induct)
  case (top p)
  then show ?case by (cases n) (auto simp: typed_label)
next
  case (below p q ps)
  then obtain m where n: "n = Suc m" "length ps \<le> m" by (cases n) auto
  then show ?case
    using below by (auto simp: typed_label)
qed

section \<open>The leaves of a branch\<close>

definition leaf_tlv :: "param \<Rightarrow> tlv_struct" where
  "leaf_tlv x =
     (case cmd_type x of
        LeafPtr l \<Rightarrow>
          (prepare_tlv_from_leaf (lf_type l) (lf_id l) zero_tlv)
            \<lparr>val := put_at 0 (value_holder l @ [NUL]) (replicate LEAF_VALUE_HOLDER_SIZE NUL)\<rparr>
      | _ \<Rightarrow> zero_tlv)"

definition branch_tlvs :: "cli \<Rightarrow> pref list \<Rightarrow> tlv_struct list" where
  "branch_tlvs c ps =
     map (\<lambda>q. leaf_tlv (params c ! q)) (filter (\<lambda>q. IS_PARAM_LEAF (params c ! q)) ps)"

definition short_value :: "param \<Rightarrow> bool" where
  "short_value x \<longleftrightarrow>
     (\<forall>l. cmd_type x = LeafPtr l \<longrightarrow> length (value_holder l) < LEAF_VALUE_HOLDER_SIZE)"

lemma leaf_unit_eq:
  assumes "typed x" "short_value x" "IS_PARAM_LEAF x"
  shows "leaf_unit x = Inr (leaf_tlv x)" "tlv_ok (leaf_tlv x)"
proof -
  obtain l where l: "cmd_type x = LeafPtr l" "length (value_holder l) < LEAF_VALUE_HOLDER_SIZE"
    using assms by (auto simp: typed_def short_value_def IS_PARAM_LEAF_def split: cmd_union.splits)
  then show "leaf_unit x = Inr (leaf_tlv x)"
    by (simp add: leaf_unit_def GET_PARAM_LEAF_def put_value_in_tlv_def leaf_tlv_def
        prepare_tlv_from_leaf_def zero_tlv_def)
  show "tlv_ok (leaf_tlv x)"
    using l by (simp add: leaf_tlv_def tlv_ok_def prepare_tlv_from_leaf_def zero_tlv_def)
qed

lemma collect_loop_branch:
  assumes "branch c p ps" "\<forall>q\<in>set ps. typed (params c ! q) \<and> short_value (params c ! q)"
    and "tlv_wf b" "root \<notin> set ps" "length (tlvs b) + length (branch_tlvs c ps) \<le> MAX_UNITS"
  shows "\<exists>b'. collect_loop c b (Some root) (Some p) = Some (Inr b') \<and> tlv_wf b' \<and>
    tlvs b' = tlvs b @ rev (branch_tlvs c ps) \<and> tlvs_marked b' = tlvs_marked b"
  using assms
proof (induction arbitrary: b rule: branch.induct)
  case (top p)
  have p0: "Some p \<noteq> Some root" using top.prems by auto
  have fin: "collect_loop c x (Some root) (Some root) = Some (Inr x)" for x
    by (subst collect_loop.simps) simp
  show ?case
  proof (cases "IS_PARAM_LEAF (params c ! p)")
    case True
    then have "\<not> IS_PARAM_CMD (params c ! p)" by (simp add: IS_PARAM_LEAF_def IS_PARAM_CMD_def)
    moreover note leaf_unit_eq [of "params c ! p"]
    ultimately show ?thesis
      using top True p0 fin collect_tlv_appends [of b "leaf_tlv (params c ! p)"]
      by (subst collect_loop.simps) (auto simp: branch_tlvs_def)
  next
    case False
    then have "IS_PARAM_CMD (params c ! p)"
      using top.prems by (auto simp: IS_PARAM_LEAF_def IS_PARAM_CMD_def typed_def split: cmd_union.splits)
    then show ?thesis
      using top False p0 fin by (subst collect_loop.simps) (auto simp: branch_tlvs_def)
  qed
next
  case (below p q ps)
  have p0: "Some p \<noteq> Some root" using below.prems by auto
  show ?case
  proof (cases "IS_PARAM_LEAF (params c ! p)")
    case True
    then have nc: "\<not> IS_PARAM_CMD (params c ! p)" by (simp add: IS_PARAM_LEAF_def IS_PARAM_CMD_def)
    have u: "leaf_unit (params c ! p) = Inr (leaf_tlv (params c ! p))" "tlv_ok (leaf_tlv (params c ! p))"
      using leaf_unit_eq [of "params c ! p"] below.prems True by auto
    obtain b1 where b1: "collect_tlv b (leaf_tlv (params c ! p)) = Inr b1" "tlv_wf b1"
      "tlvs b1 = tlvs b @ [leaf_tlv (params c ! p)]" "tlvs_marked b1 = tlvs_marked b"
      using collect_tlv_appends [OF below.prems(2) u(2)] below.prems(4) True
      by (auto simp: branch_tlvs_def)
    have "collect_loop c b (Some root) (Some p) = collect_loop c b1 (Some root) (Some q)"
      using below.hyps p0 nc u b1 by (subst collect_loop.simps) auto
    then show ?thesis
      using below.IH [of b1] below.prems b1 True by (auto simp: branch_tlvs_def)
  next
    case False
    then have "IS_PARAM_CMD (params c ! p)"
      using below.prems by (auto simp: IS_PARAM_LEAF_def IS_PARAM_CMD_def typed_def split: cmd_union.splits)
    then have "collect_loop c b (Some root) (Some p) = collect_loop c b (Some root) (Some q)"
      using below.hyps p0 by (subst collect_loop.simps) auto
    then show ?thesis
      using below.IH [of b] below.prems False by (auto simp: branch_tlvs_def)
  qed
qed

text \<open>Swapping two units of the buffer.\<close>

lemma cell_nth: "length m = n \<Longrightarrow> TLV_SIZE * k + i < n \<Longrightarrow> i < TLV_SIZE \<Longrightarrow> cell m k ! i = m ! (TLV_SIZE * k + i)"
  by (simp add: cell_def)

lemma length_cell: "TLV_SIZE * (k + 1) \<le> length m \<Longrightarrow> length (cell m k) = TLV_SIZE"
  by (simp add: cell_def)

lemma cell_put_at:
  assumes "length x = TLV_SIZE" "TLV_SIZE * (j + 1) \<le> length m" "TLV_SIZE * (k + 1) \<le> length m"
  shows "cell (put_at (TLV_SIZE * j) x m) k = (if k = j then x else cell m k)"
proof (rule nth_equalityI)
  have len: "length (put_at (TLV_SIZE * j) x m) = length m" using assms by simp
  show lc: "length (cell (put_at (TLV_SIZE * j) x m) k) = length (if k = j then x else cell m k)"
    using assms len by (simp add: length_cell)
  fix i assume "i < length (cell (put_at (TLV_SIZE * j) x m) k)"
  then have i: "i < TLV_SIZE" using lc assms by (simp add: length_cell split: if_splits)
  have in_m: "TLV_SIZE * k + i < length m" using i assms(3) by simp
  have "cell (put_at (TLV_SIZE * j) x m) k ! i = put_at (TLV_SIZE * j) x m ! (TLV_SIZE * k + i)"
    using len in_m i by (simp add: cell_nth)
  also have "\<dots> = (if TLV_SIZE * j \<le> TLV_SIZE * k + i \<and> TLV_SIZE * k + i < TLV_SIZE * j + TLV_SIZE
      then x ! (TLV_SIZE * k + i - TLV_SIZE * j) else m ! (TLV_SIZE * k + i))"
    using assms in_m by (subst nth_put_at) auto
  also have "(TLV_SIZE * j \<le> TLV_SIZE * k + i \<and> TLV_SIZE * k + i < TLV_SIZE * j + TLV_SIZE) \<longleftrightarrow> k = j"
    using i by auto
  finally show "cell (put_at (TLV_SIZE * j) x m) k ! i = (if k = j then x else cell m k) ! i"
    using in_m i by (simp add: cell_nth)
qed

lemma swap_tlv_units_eq:
  assumes "tlv_wf b" "i < j" "j < unit_count b"
  shows "\<exists>b'. swap_tlv_units b i j = Inr b' \<and> tlv_wf b' \<and> unit_count b' = unit_count b \<and>
    tlvs b' = (tlvs b)[i := tlvs b ! j, j := tlvs b ! i] \<and> sb_checkpoint b' = sb_checkpoint b"
proof -
  have room: "TLV_SIZE * (k + 1) \<le> length (sb_b b)" if "k < unit_count b" for k
    using tlv_wf_count(2) [OF assms(1)] that by simp
  define m1 where "m1 = put_at (TLV_SIZE * i) (cell (sb_b b) j) (sb_b b)"
  define m2 where "m2 = put_at (TLV_SIZE * j) (cell (sb_b b) i) m1"
  let ?b' = "b\<lparr>sb_b := m2\<rparr>"
  have lens: "length (cell (sb_b b) i) = TLV_SIZE" "length (cell (sb_b b) j) = TLV_SIZE"
    by (rule length_cell, rule room, use assms in simp)+
  have l1: "length m1 = length (sb_b b)" using lens room [of i] assms by (simp add: m1_def)
  have l2: "length m2 = length (sb_b b)" using lens l1 room [of j] assms by (simp add: m2_def)
  have eq: "swap_tlv_units b i j = Inr ?b'"
    using room [of i] room [of j] assms
    by (simp add: swap_tlv_units_def m2_def m1_def cell_def Let_def)
  have cells: "cell m2 k = (if k = j then cell (sb_b b) i else if k = i then cell (sb_b b) j
      else cell (sb_b b) k)" if "k < unit_count b" for k
    using that assms lens l1 room [of i] room [of j] room [of k]
    by (simp add: m2_def m1_def cell_put_at)
  have n: "unit_count ?b' = unit_count b"
    by (simp add: unit_count_def get_serialize_buffer_size_def)
  have "tlvs ?b' = (tlvs b)[i := tlvs b ! j, j := tlvs b ! i]"
  proof (rule nth_equalityI)
    fix k assume "k < length (tlvs ?b')"
    then have k: "k < unit_count b" using n by (simp add: tlvs_def)
    then show "tlvs ?b' ! k = (tlvs b)[i := tlvs b ! j, j := tlvs b ! i] ! k"
      using n cells [OF k] assms by (simp add: tlvs_def units_def nth_list_update)
  qed (simp add: tlvs_def n)
  moreover have "tlv_wf ?b'" using assms(1) l2 by (simp add: tlv_wf_def sb_wf_def)
  ultimately show ?thesis using eq n by (intro exI [of _ ?b']) simp
qed

lemma reverse_loop_nth:
  assumes "tlv_wf b" "unit_count b = L" "n = L div 2 - i" "j = L - 1 - i"
  shows "\<exists>b'. reverse_loop b i j n = Inr b' \<and> tlv_wf b' \<and> unit_count b' = L \<and>
    (\<forall>k<L. tlvs b' ! k = (if i \<le> k \<and> k < L - i then tlvs b ! (L - 1 - k) else tlvs b ! k))"
  using assms
proof (induction n arbitrary: b i j)
  case 0
  have "tlvs b ! k = tlvs b ! (L - 1 - k)" if "i \<le> k" "k < L - i" for k
  proof -
    have "L - 1 - k = k" using that "0.prems" by linarith
    then show ?thesis by simp
  qed
  then show ?case using 0 by auto
next
  case (Suc n)
  have ij: "i < j" "j < unit_count b" using Suc.prems by linarith+
  obtain b1 where b1: "swap_tlv_units b i j = Inr b1" "tlv_wf b1" "unit_count b1 = L"
    "tlvs b1 = (tlvs b)[i := tlvs b ! j, j := tlvs b ! i]"
    using swap_tlv_units_eq [OF Suc.prems(1) ij] Suc.prems(2) by auto
  have "n = L div 2 - (i + 1)" "j - 1 = L - 1 - (i + 1)" using Suc.prems by linarith+
  then obtain b' where b': "reverse_loop b1 (i + 1) (j - 1) n = Inr b'" "tlv_wf b'"
    "unit_count b' = L" "\<forall>k<L. tlvs b' ! k =
       (if i + 1 \<le> k \<and> k < L - (i + 1) then tlvs b1 ! (L - 1 - k) else tlvs b1 ! k)"
    using Suc.IH [OF b1(2,3)] by blast
  have len: "length (tlvs b) = L" using Suc.prems(2) by (simp add: tlvs_def)
  have b1_nth: "tlvs b1 ! k = (if k = j then tlvs b ! i else if k = i then tlvs b ! j else tlvs b ! k)"
    if "k < L" for k
    using that len by (auto simp: b1(4) nth_list_update)
  have jL: "j < L" "i < L" "j = L - 1 - i" "L - 1 - j = i" using ij Suc.prems by linarith+
  have "tlvs b' ! k = (if i \<le> k \<and> k < L - i then tlvs b ! (L - 1 - k) else tlvs b ! k)"
    if k: "k < L" for k
  proof -
    consider "k = i" | "k = j" | "i < k" "k < j" | "k < i \<or> j < k" by linarith
    then show ?thesis
    proof cases
      case 1
      then have "tlvs b' ! k = tlvs b1 ! i" using b'(4) jL by simp
      then show ?thesis using 1 b1_nth jL ij by simp
    next
      case 2
      then have "\<not> k < L - (i + 1)" using jL by linarith
      then have "tlvs b' ! k = tlvs b1 ! j" using 2 b'(4) jL by simp
      moreover have "i \<le> k" "k < L - i" using 2 jL ij by linarith+
      ultimately show ?thesis using 2 b1_nth jL by simp
    next
      case 3
      then have r: "i + 1 \<le> k" "k < L - (i + 1)" "L - 1 - k < L" "L - 1 - k \<noteq> i" "L - 1 - k \<noteq> j"
        using jL by linarith+
      then have "tlvs b' ! k = tlvs b1 ! (L - 1 - k)" using b'(4) k by simp
      moreover have "i \<le> k" "k < L - i" using r by linarith+
      ultimately show ?thesis using r b1_nth by simp
    next
      case 4
      then have r: "\<not> (i + 1 \<le> k \<and> k < L - (i + 1))" "\<not> (i \<le> k \<and> k < L - i)" "k \<noteq> i" "k \<noteq> j"
        using jL ij by linarith+
      then have "tlvs b' ! k = tlvs b1 ! k" using b'(4) k by (metis (no_types))
      then show ?thesis using r b1_nth [OF k] by auto
    qed
  qed
  then show ?case using b1(1) b' by auto
qed

lemma reverse_units:
  assumes "tlv_wf b"
  shows "\<exists>b'. reverse_loop b 0 (unit_count b - 1) (unit_count b div 2) = Inr b' \<and> tlv_wf b' \<and>
    tlvs b' = rev (tlvs b)"
proof -
  obtain b' where b': "reverse_loop b 0 (unit_count b - 1) (unit_count b div 2) = Inr b'"
    "tlv_wf b'" "unit_count b' = unit_count b"
    "\<forall>k<unit_count b. tlvs b' ! k = tlvs b ! (unit_count b - 1 - k)"
    using reverse_loop_nth [OF assms refl, of "unit_count b div 2" 0 "unit_count b - 1"] by auto
  have "tlvs b' = rev (tlvs b)"
    using b'(3,4) by (auto simp: list_eq_iff_nth_eq rev_nth tlvs_def)
  then show ?thesis using b' by blast
qed

lemma build_cmd_tree_leaves_data_eq:
  assumes "branch c p ps" "\<forall>q\<in>set ps. typed (params c ! q) \<and> short_value (params c ! q)"
    and "tlv_wf b" "root \<notin> set ps" "root < length (params c)" "IS_PARAM_CMD (params c ! root)"
    and "length (branch_tlvs c ps) \<le> MAX_UNITS"
  shows "\<exists>b'. build_cmd_tree_leaves_data c b (Some root) (Some p) = Inr b' \<and> tlv_wf b' \<and>
    tlvs b' = branch_tlvs c ps"
proof -
  obtain b1 where b1: "collect_loop c (reset_serialize_buffer b) (Some root) (Some p) = Some (Inr b1)"
    "tlv_wf b1" "tlvs b1 = rev (branch_tlvs c ps)"
    using collect_loop_branch [OF assms(1,2) _ assms(4), of "reset_serialize_buffer b"]
      reset_tlvs [OF assms(3)] assms(7) by auto
  have nl: "\<not> IS_PARAM_LEAF (params c ! root)"
    using assms(6) by (simp add: IS_PARAM_CMD_def IS_PARAM_LEAF_def)
  obtain b2 where b2: "reverse_loop b1 0 (unit_count b1 - 1) (unit_count b1 div 2) = Inr b2"
    "tlv_wf b2" "tlvs b2 = rev (tlvs b1)"
    using reverse_units [OF b1(2)] by blast
  have few: "tlvs b1 = branch_tlvs c ps" if "get_serialize_buffer_size b1 < 200"
  proof -
    have "unit_count b1 < 2"
      using that tlv_wf_count(1) [OF b1(2)] by (simp add: get_serialize_buffer_size_def)
    then have "length (tlvs b1) < 2" by (simp add: tlvs_def)
    then have "rev (tlvs b1) = tlvs b1" by (cases "tlvs b1") auto
    then show ?thesis using b1(3) by simp
  qed
  show ?thesis
    using assms(5) nl b1 b2 few by (auto simp: build_cmd_tree_leaves_data_def)
qed

section \<open>Leaving a mode\<close>

definition cleared :: "cli \<Rightarrow> pref \<Rightarrow> bool" where
  "cleared c q \<longleftrightarrow> (\<forall>l. cmd_type (params c ! q) = LeafPtr l \<longrightarrow> value_holder l = [])"

lemma branch_shape:
  assumes "branch c p ps" "shape c = shape c'"
  shows "branch c' p ps"
  using assms
proof (induction rule: branch.induct)
  case (top p)
  then have "parent (params c ! p) = parent (params c' ! p)"
    by (intro shape_eq_field [of c c']) auto
  then show ?case using top shape_length [of c c'] by (intro branch.top) auto
next
  case (below p q ps)
  then have "parent (params c ! p) = parent (params c' ! p)"
    by (intro shape_eq_field [of c c']) auto
  then show ?case using below shape_length [of c c'] by (intro branch.below) auto
qed

lemma typed_erase [simp]: "typed (erase x) = typed x"
  by (auto simp: typed_def erase_def split: cmd_union.splits)

text \<open>One step of the loop: the parameter is cleared if it is a leaf.\<close>

lemma clear_step:
  assumes "p < length (params c)" "typed (params c ! p)"
  shows "\<exists>ps. (if IS_PARAM_CMD (params c ! p) then Inr c else set_leaf_value c p []) =
      Inr (c\<lparr>params := ps\<rparr>) \<and> shape (c\<lparr>params := ps\<rparr>) = shape c \<and> cleared (c\<lparr>params := ps\<rparr>) p \<and>
      (\<forall>q. cleared c q \<longrightarrow> cleared (c\<lparr>params := ps\<rparr>) q)"
proof (cases "IS_PARAM_CMD (params c ! p)")
  case True
  then have "cleared c p"
    using assms(2) by (auto simp: cleared_def typed_def IS_PARAM_CMD_def)
  then show ?thesis using True by (intro exI [of _ "params c"]) (simp add: shape_def)
next
  case False
  then obtain l where l: "cmd_type (params c ! p) = LeafPtr l"
    using assms(2) by (auto simp: typed_def IS_PARAM_CMD_def split: cmd_union.splits)
  let ?ps = "(params c)[p := (params c ! p)\<lparr>cmd_type := LeafPtr (l\<lparr>value_holder := []\<rparr>)\<rparr>]"
  have s: "set_leaf_value c p [] = Inr (c\<lparr>params := ?ps\<rparr>)"
    using assms(1) l by (simp add: set_leaf_value_def GET_PARAM_LEAF_def)
  have "cleared (c\<lparr>params := ?ps\<rparr>) q" if "q = p \<or> cleared c q" for q
    using that assms(1) by (cases "q = p") (auto simp: cleared_def)
  then show ?thesis using False s set_leaf_value_shape [OF s] by auto
qed

lemma goto_top_loop_branch:
  assumes "branch c p ps" "\<forall>q\<in>set ps. typed (params c ! q)"
  shows "\<exists>ps'. goto_top_loop c (Some p) = Some (Inr (c\<lparr>params := ps'\<rparr>)) \<and>
    shape (c\<lparr>params := ps'\<rparr>) = shape c \<and> (\<forall>q\<in>set ps. cleared (c\<lparr>params := ps'\<rparr>) q) \<and>
    (\<forall>q. cleared c q \<longrightarrow> cleared (c\<lparr>params := ps'\<rparr>) q)"
  using assms
proof (induction "length ps" arbitrary: c p ps rule: less_induct)
  case less
  have p: "p < length (params c)" "typed (params c ! p)"
    using less.prems branch_last branch_in by (metis last_in_set)+
  obtain qs where qs: "(if IS_PARAM_CMD (params c ! p) then Inr c else set_leaf_value c p []) =
      Inr (c\<lparr>params := qs\<rparr>)" "shape (c\<lparr>params := qs\<rparr>) = shape c" "cleared (c\<lparr>params := qs\<rparr>) p"
    "\<forall>q. cleared c q \<longrightarrow> cleared (c\<lparr>params := qs\<rparr>) q"
    using clear_step [OF p] by blast
  have unf: "goto_top_loop c (Some p) =
      (if parent (params c ! p) = Some root then Some (Inr (c\<lparr>params := qs\<rparr>))
       else goto_top_loop (c\<lparr>params := qs\<rparr>) (parent (params c ! p)))"
    by (subst goto_top_loop.simps)
       (simp only: deref_Some param_at_in [OF p(1)] sum.case option.case qs(1))
  from less.prems(1) show ?case
  proof (cases rule: branch.cases)
    case top
    then show ?thesis using unf qs by (intro exI [of _ qs]) simp
  next
    case (below q qs')
    have "branch (c\<lparr>params := qs\<rparr>) q qs'"
      using branch_shape [OF below(5)] qs(2) by simp
    moreover have "typed (qs ! r)" if "r \<in> set qs'" for r
    proof -
      have r: "r < length (params (c\<lparr>params := qs\<rparr>))"
        using branch_in [OF below(5) that] shape_length [OF qs(2)] by simp
      have "typed (params (c\<lparr>params := qs\<rparr>) ! r) = typed (params c ! r)"
        by (rule shape_eq_field [OF qs(2) _ r]) simp
      then show ?thesis using less.prems(2) below that by simp
    qed
    ultimately obtain ps' where ps': "goto_top_loop (c\<lparr>params := qs\<rparr>) (Some q) =
        Some (Inr (c\<lparr>params := ps'\<rparr>))" "shape (c\<lparr>params := ps'\<rparr>) = shape c"
      "\<forall>r\<in>set qs'. cleared (c\<lparr>params := ps'\<rparr>) r"
      "\<forall>r. cleared (c\<lparr>params := qs\<rparr>) r \<longrightarrow> cleared (c\<lparr>params := ps'\<rparr>) r"
      using less.hyps [of qs' "c\<lparr>params := qs\<rparr>" q] below qs(2) by auto
    then show ?thesis
      using unf below qs(3,4) by (intro exI [of _ ps']) auto
  qed
qed

text \<open>The console of a mode: the device name, and behind the bracket the labels of the branch.\<close>

definition plain_name :: "string \<Rightarrow> bool" where
  "plain_name b \<longleftrightarrow> b \<noteq> [] \<and> length b < LEAF_VALUE_HOLDER_SIZE \<and> CHR ''>'' \<notin> set b \<and>
     \<not> isspace (hd b) \<and> \<not> isspace (last b)"

lemma console_tokens:
  assumes "plain_name b" "CHR ''>'' \<notin> set m" "m = [] \<or> \<not> isspace (last m)"
    and "length b + length m < 2000"
  shows "tokenizer ts (b @ CHR ''>'' # m) CHR ''>'' =
    store_tokens ts 0 (b # (if m = [] then [] else [m]))"
proof -
  have "\<not> isspace (CHR ''>'')" by (simp add: isspace_def)
  then have tr: "trimmed (b @ CHR ''>'' # m) = b @ CHR ''>'' # m"
    using assms by (intro trimmed_id) (auto simp: plain_name_def)
  have "strtok_all CHR ''>'' (b @ CHR ''>'' # m) = b # strtok_all CHR ''>'' m"
    using assms(1) strtok_word(1) [of b "CHR ''>''" m]
    by (subst strtok_all.simps) (simp add: plain_name_def)
  moreover have "strtok_all CHR ''>'' m = (if m = [] then [] else [m])"
  proof (cases "m = []")
    case True
    then show ?thesis by (simp add: strtok_all.simps strtok_def)
  next
    case False
    then show ?thesis
      using assms(2) strtok_word(2) [of m "CHR ''>''"]
      by (subst strtok_all.simps) (simp add: strtok_all.simps strtok_def)
  qed
  ultimately show ?thesis using assms(4) tr by (simp add: tokenizer_eq)
qed

lemma console_base_fits:
  assumes "plain_name b" "CHR ''>'' \<notin> set m" "m = [] \<or> \<not> isspace (last m)"
    and "length m < LEAF_VALUE_HOLDER_SIZE" "console_name c = b @ CHR ''>'' # m"
    and "length (token_arr c) = MAX_CMD_TREE_DEPTH" "length sfx < 100"
  shows "\<exists>ts. console_base sfx c = Inr (c\<lparr>token_arr := ts, console_name := b @ sfx\<rparr>) \<and>
    length ts = MAX_CMD_TREE_DEPTH"
proof -
  let ?ws = "b # (if m = [] then [] else [m])"
  have "store_tokens (token_arr c) 0 ?ws =
      Inr (take 0 (token_arr c) @ ?ws @ drop (0 + length ?ws) (token_arr c), 0 + length ?ws)"
    using assms by (intro store_tokens_fit) (auto simp: plain_name_def)
  then have "tokenizer (token_arr c) (console_name c) CHR ''>'' =
      Inr (?ws @ drop (length ?ws) (token_arr c), length ?ws)"
    using console_tokens [OF assms(1-3)] assms(1,4,5) by (simp add: plain_name_def)
  then show ?thesis
    using assms(1,6,7)
    by (intro exI [of _ "?ws @ drop (length ?ws) (token_arr c)"])
       (auto simp: console_base_def tokenize_into_def set_console_def plain_name_def)
qed

lemma console_base_overflow:
  assumes "plain_name b" "CHR ''>'' \<notin> set m" "\<not> isspace (last m)"
    and "LEAF_VALUE_HOLDER_SIZE < length m" "length m < 1900" "console_name c = b @ CHR ''>'' # m"
    and "length (token_arr c) = MAX_CMD_TREE_DEPTH"
  shows "console_base sfx c = Inl OutOfBounds"
proof -
  have "tokenizer (token_arr c) (console_name c) CHR ''>'' = store_tokens (token_arr c) 0 [b, m]"
    using console_tokens [OF assms(1,2), of "token_arr c"] assms by (auto simp: plain_name_def)
  also have "\<dots> = Inl OutOfBounds"
    using assms by (simp add: set_token_def plain_name_def)
  finally show ?thesis by (simp add: console_base_def tokenize_into_def)
qed

end
