(* ===== verification/ParserFrame.thy ===== *)
theory ParserFrame
  imports Parser TreeFacts
begin

text \<open>
  What no command changes. The locale \<open>shell_invariant\<close> is about a predicate on the shell that the
  storing of a leaf value, of tokens and of a command code keeps and that no other field matters to.
  Its lemmas, one per operation, collected in \<open>frame\<close>, carry the predicate through the whole
  parser, the test driver and the shell. Interpreted are: the shape of the command tree, the length
  of the leaf values, the size of the token array, and the type and id of the unit that takes the
  command code.
\<close>

named_theorems frame \<open>operations that keep an invariant of the shell\<close>

section \<open>Tokens\<close>

lemma set_token_length: "set_token ts i s = Inr ts' \<Longrightarrow> length ts' = length ts"
  by (auto simp: set_token_def split: if_splits)

lemma untokenize_length: "untokenize ts i = Inr ts' \<Longrightarrow> length ts' = length ts"
  by (auto simp: untokenize_def split: if_splits)

lemma tokenize_length: "tokenize ts s i = Inr ts' \<Longrightarrow> length ts' = length ts"
  by (auto simp: tokenize_def elim!: rbindE dest: set_token_length)

lemma re_init_tokens_length: "re_init_tokens ts n = Inr ts' \<Longrightarrow> length ts' = length ts"
  by (induction n arbitrary: ts') (auto elim!: rbindE dest: untokenize_length)

lemma store_tokens_length: "store_tokens ts i ws = Inr (ts', n) \<Longrightarrow> length ts' = length ts"
  by (induction ws arbitrary: ts i)
     (fastforce elim!: rbindE dest: set_token_length re_init_tokens_length split: if_splits)+

lemma tokenizer_length: "tokenizer ts s d = Inr (ts', n) \<Longrightarrow> length ts' = length ts"
  by (auto simp: tokenizer_def Let_def elim!: rbindE dest!: set_token_length store_tokens_length
      split: if_splits option.splits)

section \<open>Invariants of the shell\<close>

locale shell_invariant =
  fixes P :: "cli \<Rightarrow> bool"
  assumes other_fields:
      "P (c\<lparr>cursor := a1\<rparr>) = P c" "P (c\<lparr>tlv_buff := a2\<rparr>) = P c"
      "P (c\<lparr>console_name := a3\<rparr>) = P c" "P (c\<lparr>last_command := a5\<rparr>) = P c"
      "P (c\<lparr>recording := a6\<rparr>) = P c" "P (c\<lparr>supportsave_on := a8\<rparr>) = P c"
      "P (c\<lparr>stdin_text := a9\<rparr>) = P c" "P (c\<lparr>hist := a10\<rparr>) = P c"
      "P (c\<lparr>hist_count := a11\<rparr>) = P c" "P (c\<lparr>out := a12\<rparr>) = P c"
      "P (c\<lparr>calls := a13\<rparr>) = P c" "P (c\<lparr>TC_RUNNING := a14\<rparr>) = P c"
      "P (c\<lparr>ut_msgs := a15\<rparr>) = P c" "P (c\<lparr>ut_recv_buff := a16\<rparr>) = P c"
      "P (c\<lparr>ut_recv_size := a17\<rparr>) = P c" "P (c\<lparr>ut_debug := a18\<rparr>) = P c"
      "P (c\<lparr>ut_log := a19\<rparr>) = P c" "P (c\<lparr>int_stores := a20\<rparr>) = P c"
    and store_tokens: "length ts = length (token_arr c) \<Longrightarrow> P (c\<lparr>token_arr := ts\<rparr>) = P c"
    and store_code: "P (c\<lparr>code_tlv := (code_tlv c)\<lparr>val := v\<rparr>\<rparr>) = P c"
    and store_leaf: "set_leaf_value c p v = Inr c' \<Longrightarrow> P c \<longrightarrow> P c'"
begin

lemmas updates [simp] = other_fields store_tokens store_code

lemma emit_kept [simp]: "P (emit s c) = P c"
  by (simp add: emit_def)

lemmas store_leaf_kept [frame] = store_leaf

text \<open>A parser that keeps it.\<close>

definition keeps :: "cmd_parser \<Rightarrow> bool" where
  "keeps parse \<longleftrightarrow> (\<forall>s c c' st r. parse s c = Inr (c', st, r) \<longrightarrow> P c \<longrightarrow> P c')"

lemma keepsD: "parse s c = Inr (c', st, r) \<Longrightarrow> keeps parse \<Longrightarrow> P c \<longrightarrow> P c'"
  unfolding keeps_def by blast

section \<open>The tree and the console\<close>

lemma set_console_kept [frame]: "set_console c s = Inr c' \<Longrightarrow> P c \<longrightarrow> P c'"
  by (auto simp: set_console_def split: if_splits)

lemma tokenize_into_kept [frame]: "tokenize_into c s d = Inr (c', n) \<Longrightarrow> P c \<longrightarrow> P c'"
  by (auto simp: tokenize_into_def res_simps dest!: tokenizer_length)

lemma set_device_name_kept [frame]: "set_device_name s c = Inr c' \<Longrightarrow> P c \<longrightarrow> P c'"
  unfolding set_device_name_def
proof (elim rbindE)
  fix x
  assume 1: "(if console_name c \<noteq> [] then tokenize_into c (console_name c) CHR ''>'' else Inr (c, 0)) = Inr x"
    and 2: "(case x of (c1, token_cnt) \<Rightarrow> rbind (set_console c1 (s @ ''>'')) (\<lambda>c2.
     if token_cnt > 1
     then let t = string_space_trim (token_arr c2 ! 1);
              c3 = c2\<lparr>token_arr := (token_arr c2)[1 := t]\<rparr>
          in set_console c3 (console_name c3 @ '' '' @ t)
     else Inr c2)) = Inr c'"
  obtain c1 n where x: "x = (c1, n)" by (cases x)
  have "P c \<longrightarrow> P c1" using 1 x by (auto dest: tokenize_into_kept split: if_splits)
  moreover have "P c1 \<longrightarrow> P c'"
    using 2 x by (auto simp: Let_def elim!: rbindE dest!: set_console_kept split: if_splits)
  ultimately show "P c \<longrightarrow> P c'" by simp
qed

lemma console_base_kept [frame]: "console_base s c = Inr c' \<Longrightarrow> P c \<longrightarrow> P c'"
  by (auto simp: console_base_def res_simps dest!: frame split: if_splits)

lemma build_mode_console_name_kept [frame]:
  "build_mode_console_name p c = Inr c' \<Longrightarrow> P c \<longrightarrow> P c'"
  by (auto simp: build_mode_console_name_def res_simps dest!: frame split: if_splits)

lemma set_cmd_tree_cursor_kept [frame]: "set_cmd_tree_cursor c p = Inr c' \<Longrightarrow> P c \<longrightarrow> P c'"
  by (auto simp: set_cmd_tree_cursor_def split: if_splits)

lemma reset_cmd_tree_cursor_kept [simp]: "P (reset_cmd_tree_cursor c) = P c"
  by (simp add: reset_cmd_tree_cursor_def)

lemma goto_top_loop_kept:
  assumes "goto_top_loop c p = Some r"
  shows "\<forall>c'. r = Inr c' \<longrightarrow> P c \<longrightarrow> P c'"
proof (rule goto_top_loop.raw_induct [OF _ assms])
  fix f c p r
  assume IH: "\<And>c p r. f c p = Some r \<Longrightarrow> \<forall>c'. r = Inr c' \<longrightarrow> P c \<longrightarrow> P c'"
    and eq: "(case deref c p of
        Inl e \<Rightarrow> Some (Inl e)
      | Inr x \<Rightarrow>
          (case (if IS_PARAM_CMD x then Inr c
                 else case p of None \<Rightarrow> Inl NullDeref | Some q \<Rightarrow> set_leaf_value c q []) of
             Inl e \<Rightarrow> Some (Inl e)
           | Inr c' \<Rightarrow>
               if parent x = Some root then Some (Inr c') else f c' (parent x))) = Some r"
  then show "\<forall>c'. r = Inr c' \<longrightarrow> P c \<longrightarrow> P c'"
    by (auto split: sum.splits if_splits option.splits dest!: IH store_leaf_kept)
qed

lemma run_loop_Inr: "run_loop l = Inr x \<Longrightarrow> l = Some (Inr x)"
  by (cases l) auto

lemma goto_top_kept [frame]: "goto_top_of_cmd_tree p c = Inr c' \<Longrightarrow> P c \<longrightarrow> P c'"
  by (auto simp: goto_top_of_cmd_tree_def res_simps dest!: run_loop_Inr goto_top_loop_kept frame
      split: if_splits)

lemma go_one_level_up_kept [frame]: "go_one_level_up_cmd_tree p c = Inr c' \<Longrightarrow> P c \<longrightarrow> P c'"
  by (auto simp: go_one_level_up_cmd_tree_def res_simps dest!: frame split: if_splits option.splits)

lemma choose_param_kept [frame]: "choose_param c ps = Inr (c', q) \<Longrightarrow> P c \<longrightarrow> P c'"
  by (simp add: choose_param_def rbind_eq_Inr Let_def case_prod_unfold split: if_splits) auto

lemma find_matching_param_kept [frame]:
  "find_matching_param c os s = Inr (c', q) \<Longrightarrow> P c \<longrightarrow> P c'"
  by (auto simp: find_matching_param_def res_simps dest!: choose_param_kept split: if_splits)

section \<open>The test driver\<close>

lemma cli_out_kept [frame]: "cli_out s c = Inr c' \<Longrightarrow> P c \<longrightarrow> P c'"
  by (auto simp: cli_out_def split: if_splits)

lemma app_effects_kept [frame]: "app_effects es c = Inr c' \<Longrightarrow> P c \<longrightarrow> P c'"
proof (induction es arbitrary: c)
  case (Cons e es)
  show ?case
  proof (cases e)
    case (Print s)
    then show ?thesis using Cons by simp
  next
    case (CliOut s)
    then obtain x where "cli_out s c = Inr x" "app_effects es x = Inr c'"
      using Cons.prems by (auto simp: res_simps)
    then show ?thesis using Cons.IH cli_out_kept by metis
  next
    case (SetDeviceName s)
    then obtain x where "set_device_name s c = Inr x" "app_effects es x = Inr c'"
      using Cons.prems by (auto simp: res_simps)
    then show ?thesis using Cons.IH set_device_name_kept by metis
  qed
qed simp

lemma fwrite_log_kept [frame]: "fwrite_log s c = Inr c' \<Longrightarrow> P c \<longrightarrow> P c'"
  by (auto simp: fwrite_log_def split: option.splits)

lemma say_kept [frame]: "say s r = Inr r' \<Longrightarrow> P (tc_cli r) \<longrightarrow> P (tc_cli r')"
  by (auto simp: say_def res_simps dest!: frame)

lemma say_all_kept [frame]: "say_all ss r = Inr r' \<Longrightarrow> P (tc_cli r) \<longrightarrow> P (tc_cli r')"
proof (induction ss arbitrary: r)
  case (Cons s ss)
  then obtain x where "say s r = Inr x" "say_all ss x = Inr r'" by (auto simp: res_simps)
  then show ?case using Cons.IH say_kept by metis
qed simp

lemma tc_append_result_kept [frame]: "tc_append_result a b r = Inr r' \<Longrightarrow> tc_cli r' = tc_cli r"
  by (auto simp: tc_append_result_def split: option.splits)

lemma receive_kept [frame]: "receive n r = Inr r' \<Longrightarrow> P (tc_cli r) \<longrightarrow> P (tc_cli r')"
  by (auto simp: receive_def res_simps Let_def dest!: frame split: list.splits if_splits)

lemma run_cmd_kept [frame]:
  "run_cmd parse t r = Inr r' \<Longrightarrow> keeps parse \<Longrightarrow> P (tc_cli r) \<longrightarrow> P (tc_cli r')"
  by (auto simp: run_cmd_def res_simps Let_def dest!: frame keepsD [of parse] split: if_splits)

lemma run_pattern_kept [frame]: "run_pattern w l r = Inr r' \<Longrightarrow> P (tc_cli r) \<longrightarrow> P (tc_cli r')"
  by (auto simp: run_pattern_def res_simps Let_def dest!: frame split: if_splits)

lemma run_grep_kept [frame]: "run_grep t r = Inr r' \<Longrightarrow> P (tc_cli r) \<longrightarrow> P (tc_cli r')"
  by (auto simp: run_grep_def res_simps Let_def dest!: frame)

lemma run_int_store_kept [frame]: "run_int_store k t r = Inr r' \<Longrightarrow> P (tc_cli r) \<longrightarrow> P (tc_cli r')"
  by (auto simp: run_int_store_def res_simps Let_def dest!: frame split: if_splits)

lemma tc_begin_kept [frame]: "tc_begin f n l t r = Inr (r', x) \<Longrightarrow> P (tc_cli r) \<longrightarrow> P (tc_cli r')"
  by (auto simp: tc_begin_def res_simps dest!: frame split: option.splits)

lemma tc_end_kept [frame]: "tc_end f n t r = Inr (r', x) \<Longrightarrow> P (tc_cli r) \<longrightarrow> P (tc_cli r')"
  by (auto simp: tc_end_def tc_print_result_def tc_cleanup_result_list_def res_simps Let_def
      dest!: frame split: option.splits if_splits)

lemma tc_line_kept [frame]:
  "tc_line parse f n l t r = Inr (r', x) \<Longrightarrow> keeps parse \<Longrightarrow> P (tc_cli r) \<longrightarrow> P (tc_cli r')"
  by (auto simp: tc_line_def then_read_def res_simps Let_def dest!: frame split: if_splits)

lemma tc_round_kept [frame]:
  "tc_round parse f n l t r = Inr (r', x) \<Longrightarrow> keeps parse \<Longrightarrow> P (tc_cli r) \<longrightarrow> P (tc_cli r')"
  by (auto simp: tc_round_def res_simps dest!: frame split: if_splits)

lemma tc_loop_kept [frame]:
  "tc_loop parse f n t r = Inr r' \<Longrightarrow> keeps parse \<Longrightarrow> P (tc_cli r) \<longrightarrow> P (tc_cli r')"
proof (induction parse f n t r rule: tc_loop.induct)
  case (1 parse f n t r)
  show ?case
  proof (cases "fgets 512 t")
    case None
    then show ?thesis using "1.prems" by (simp add: tc_loop.simps [of parse f n t r])
  next
    case (Some p)
    obtain line rest where p: "p = (line, rest)" by (cases p)
    from "1.prems"(1) Some p obtain r1 x where r1: "tc_round parse f n line rest r = Inr (r1, x)"
      and r': "(case x of None \<Rightarrow> Inr r1 | Some t' \<Rightarrow> tc_loop parse f n t' r1) = Inr r'"
      by (auto simp: tc_loop.simps [of parse f n t r] res_simps)
    have f1: "P (tc_cli r) \<longrightarrow> P (tc_cli r1)" using r1 "1.prems"(2) by (rule tc_round_kept)
    show ?thesis
    proof (cases x)
      case None
      then show ?thesis using r' f1 by simp
    next
      case (Some t')
      have "P (tc_cli r1) \<longrightarrow> P (tc_cli r')"
        using "1.IH" [OF \<open>fgets 512 t = Some p\<close> p [symmetric] r1 refl Some] r' Some "1.prems"(2) by simp
      then show ?thesis using f1 by simp
    qed
  qed
qed

lemma run_test_case_kept [frame]:
  "run_test_case parse f n c = Inr (c', b) \<Longrightarrow> keeps parse \<Longrightarrow> P c \<longrightarrow> P c'"
  by (auto simp: run_test_case_def res_simps dest!: frame split: option.splits)

lemma ut_test_handler_kept [frame]:
  "ut_test_handler parse c = Inr c' \<Longrightarrow> keeps parse \<Longrightarrow> P c \<longrightarrow> P c'"
  by (auto simp: ut_test_handler_def set_ut_debug_flag_def case_prod_unfold elim!: rbindE
      dest!: run_test_case_kept [of parse _ _ c "fst x" "snd x" for x, simplified]
      split: option.splits if_splits)

section \<open>Callbacks\<close>

lemma print_tokens_kept [frame]: "print_tokens n c = Inr c' \<Longrightarrow> P c \<longrightarrow> P c'"
  by (auto simp: print_tokens_def split: if_splits)

lemma put_token_kept [frame]: "put_token x i c = Inr c' \<Longrightarrow> P c \<longrightarrow> P c'"
  by (auto simp: put_token_def elim!: rbindE dest!: untokenize_length tokenize_length)

lemma dump_all_commands_kept [frame]: "dump_all_commands c qs i = Inr c' \<Longrightarrow> P c \<longrightarrow> P c'"
proof (induction c qs i arbitrary: c' rule: dump_all_commands.induct)
  case (3 c p qs index)
  from "3.prems" obtain x where x: "param_at c p = Inr x" by (auto elim: rbindE)
  show ?case
  proof (cases "IS_PARAM_NO_CMD x")
    case True
    then show ?thesis using "3.prems" x "3.IH"(1) by simp
  next
    case False
    with "3.prems" x obtain c1 c2 c4 where s: "\<not> MAX_CMD_TREE_DEPTH \<le> index"
      "put_token x index c = Inr c1"
      "dump_all_commands c1 (drop CHILDREN_START_INDEX (options x)) (index + 1) = Inr c2"
      "(if callback x = None then Inr c2
        else rbind (print_tokens (index + 1) c2) (\<lambda>c3. Inr (emit [NL] c3))) = Inr c4"
      "dump_all_commands c4 qs index = Inr c'"
      by (auto elim!: rbindE split: if_splits)
    have "P c2 \<longrightarrow> P c4" using s(4) by (auto elim!: rbindE dest!: frame split: if_splits)
    moreover have "P c4 \<longrightarrow> P c'" using "3.IH"(3) [OF x False s(1-4)] s(5) by simp
    moreover have "P c1 \<longrightarrow> P c2" using "3.IH"(2) [OF x False s(1,2)] s(3) by simp
    ultimately show ?thesis using put_token_kept [OF s(2)] by simp
  qed
qed auto

lemma dump_cmd_tree_kept [frame]: "dump_cmd_tree c = Inr c' \<Longrightarrow> P c \<longrightarrow> P c'"
  by (auto simp: dump_cmd_tree_def elim!: rbindE)

lemma console_name_loop_kept [frame]: "console_name_loop m ts c = Inr c' \<Longrightarrow> P c \<longrightarrow> P c'"
proof (induction ts arbitrary: c)
  case (Cons t ts)
  from Cons.prems obtain c1 where c1: "(if m = CONFIG_ENABLE then set_device_name (cstr (val t)) c
            else if strncmp_eq (cstr (val t)) (console_name c) (length (cstr (val t)))
                 then set_device_name ''tcp-server'' c
                 else Inr (emit (''Error : Incorrect device name'' @ [NL]) c)) = Inr c1"
    "console_name_loop m ts c1 = Inr c'"
    by (auto elim: rbindE)
  have "P c \<longrightarrow> P c1" using c1(1) by (auto dest: frame split: if_splits)
  then show ?case using Cons.IH c1(2) by simp
qed simp

lemma config_mode_enter_kept [frame]:
  "config_mode_enter_handler p c = Inr c' \<Longrightarrow> P c \<longrightarrow> P c'"
  by (auto simp: config_mode_enter_handler_def elim!: rbindE dest!: frame)

lemma re_init_token_arr_kept [frame]: "re_init_token_arr c = Inr c' \<Longrightarrow> P c \<longrightarrow> P c'"
  by (auto simp: re_init_token_arr_def elim!: rbindE dest!: re_init_tokens_length)

lemma show_extension_kept [frame]:
  "show_extension_param_handler p c = Inr c' \<Longrightarrow> P c \<longrightarrow> P c'"
  by (auto simp: show_extension_param_handler_def elim!: rbindE split: if_splits)

lemma display_sub_options_kept [frame]:
  "display_sub_options_callback p c = Inr c' \<Longrightarrow> P c \<longrightarrow> P c'"
  by (auto simp: display_sub_options_callback_def Let_def elim!: rbindE split: option.splits)

lemma display_cmd_expansion_kept [frame]:
  "display_cmd_expansion_callback p c = Inr c' \<Longrightarrow> P c \<longrightarrow> P c'"
  by (auto simp: display_cmd_expansion_callback_def elim!: rbindE dest!: frame)

lemma show_history_kept [frame]:
  "show_history_callback parse c = Inr c' \<Longrightarrow> keeps parse \<Longrightarrow> P c \<longrightarrow> P c'"
  by (auto simp: show_history_callback_def Let_def case_prod_unfold elim!: rbindE
      dest!: keepsD [of parse] split: option.splits if_splits)

lemma repeat_kept [frame]:
  "repeat_last_command parse c = Inr c' \<Longrightarrow> keeps parse \<Longrightarrow> P c \<longrightarrow> P c'"
  by (auto simp: repeat_last_command_def Let_def elim!: rbindE dest!: keepsD [of parse])

lemma app_callback_kept [frame]: "app_callback n p m c = Inr c' \<Longrightarrow> P c \<longrightarrow> P c'"
  by (auto simp: app_callback_def dest!: app_effects_kept)

lemma call_function_kept [frame]:
  "call_function parse f p m c = Inr c' \<Longrightarrow> keeps parse \<Longrightarrow> P c \<longrightarrow> P c'"
  by (cases f)
     (auto simp: show_help_handler_def show_resgistered_cmd_handler_def load_file_handler_def
      supportsave_handler_def cli_terminate_handler_def config_console_name_handler_def
      clear_screen_handler_def exit_cmd_handler_def end_cmd_handler_def negate_callback_def
      pipe_handler_def simp del: dump_all_commands.simps elim!: rbindE dest!: frame
      split: op_mode.splits)

lemma mode_enter_kept [frame]:
  "mode_enter_callback parse p m c = Inr c' \<Longrightarrow> keeps parse \<Longrightarrow> P c \<longrightarrow> P c'"
  by (auto simp: mode_enter_callback_def elim!: rbindE dest!: frame split: if_splits option.splits)

lemma invoke_kept [frame]: "invoke parse p m c = Inr c' \<Longrightarrow> keeps parse \<Longrightarrow> P c \<longrightarrow> P c'"
  by (auto simp: invoke_def elim!: rbindE dest!: frame split: option.splits if_splits)

section \<open>The parser\<close>

lemma take_leaf_kept [frame]: "take_leaf c p l t = Inr (c', s) \<Longrightarrow> P c \<longrightarrow> P c'"
  by (auto simp: take_leaf_def user_validation_def elim!: rbindE dest!: frame
      split: if_splits option.splits prod.splits)

lemma walk_step_kept [frame]: "walk_step w t = Inr (w', b) \<Longrightarrow> P (w_cli w) \<longrightarrow> P (w_cli w')"
  by (auto simp: walk_step_def Let_def elim!: rbindE dest!: frame
      split: option.splits if_splits)

lemma walk_loop_kept [frame]: "walk_loop w ts = Inr w' \<Longrightarrow> P (w_cli w) \<longrightarrow> P (w_cli w')"
proof (induction ts arbitrary: w)
  case (Cons t ts)
  then obtain w1 b where w1: "walk_step w t = Inr (w1, b)"
    "(if b then walk_loop w1 ts else Inr w1) = Inr w'"
    by (auto elim!: rbindE)
  then show ?case using Cons.IH [of w1] walk_step_kept [OF w1(1)] by (auto split: if_splits)
qed simp

lemma collect_code_kept [frame]: "collect_code n c = Inr c' \<Longrightarrow> P c \<longrightarrow> P c'"
  by (auto simp: collect_code_def Let_def elim!: rbindE)

lemma dispatch_brief_kept [frame]:
  "dispatch_brief parse p q c = Inr (c', s) \<Longrightarrow> keeps parse \<Longrightarrow> P c \<longrightarrow> P c'"
  by (auto simp: dispatch_brief_def elim!: rbindE dest!: frame split: if_splits option.splits)

lemma dispatch_mode_kept [frame]:
  "dispatch_mode parse q m c = Inr c' \<Longrightarrow> keeps parse \<Longrightarrow> P c \<longrightarrow> P c'"
  by (auto simp: dispatch_mode_def elim!: rbindE dest!: frame)

lemma dispatch_command_kept [frame]:
  "dispatch_command parse p m c = Inr c' \<Longrightarrow> keeps parse \<Longrightarrow> P c \<longrightarrow> P c'"
  by (auto simp: dispatch_command_def elim!: rbindE dest!: frame split: if_splits)

lemma dispatch_kept [frame]:
  "dispatch parse w p = Inr (c', s) \<Longrightarrow> keeps parse \<Longrightarrow> P (w_cli w) \<longrightarrow> P c'"
  by (auto simp: dispatch_def Let_def elim!: rbindE dest!: frame split: if_splits)

lemma finish_walk_kept [frame]:
  "finish_walk parse w = Inr (c', s) \<Longrightarrow> keeps parse \<Longrightarrow> P (w_cli w) \<longrightarrow> P c'"
  by (auto simp: finish_walk_def incomplete_command_def elim!: rbindE dest!: frame
      split: CMD_PARSE_STATUS.splits option.splits if_splits)

lemma build_tlv_buffer_kept [frame]:
  "build_tlv_buffer parse ts c = Inr (c', s) \<Longrightarrow> keeps parse \<Longrightarrow> P c \<longrightarrow> P c'"
  by (auto simp: build_tlv_buffer_def start_walk_def elim!: rbindE dest!: frame)

lemma settle_buffer_kept [frame]: "settle_buffer c = Inr c' \<Longrightarrow> P c \<longrightarrow> P c'"
  by (auto simp: settle_buffer_def elim!: rbindE split: if_splits)

lemma parse_line_kept [frame]:
  "parse_line parse l c = Inr c' \<Longrightarrow> keeps parse \<Longrightarrow> P c \<longrightarrow> P c'"
  by (auto simp: parse_line_def elim!: rbindE dest!: frame)

lemma parse_lines_kept [frame]:
  "parse_lines parse t c = Inr c' \<Longrightarrow> keeps parse \<Longrightarrow> P c \<longrightarrow> P c'"
proof (induction parse t c rule: parse_lines.induct)
  case (1 parse t c)
  show ?case
  proof (cases "fgets 255 t")
    case None
    then show ?thesis using "1.prems" by (simp add: parse_lines.simps [of parse t c])
  next
    case (Some p)
    obtain l rest where p: "p = (l, rest)" by (cases p)
    from "1.prems"(1) Some p obtain c1 where c1: "parse_line parse l c = Inr c1"
      "parse_lines parse rest c1 = Inr c'"
      by (auto simp: parse_lines.simps [of parse t c] elim!: rbindE)
    then show ?thesis
      using "1.IH" [OF Some p [symmetric], of c1] "1.prems"(2) parse_line_kept by metis
  qed
qed

lemma parse_file_kept [frame]:
  "parse_file parse f c = Inr c' \<Longrightarrow> keeps parse \<Longrightarrow> P c \<longrightarrow> P c'"
  by (auto simp: parse_file_def place_console_def elim!: rbindE dest!: frame split: option.splits)

lemma do_command_kept [frame]:
  "do_command parse ts c = Inr (c', s) \<Longrightarrow> keeps parse \<Longrightarrow> P c \<longrightarrow> P c'"
  by (auto simp: do_command_def Let_def elim!: rbindE dest!: frame split: if_splits)

lemma select_command_kept [frame]:
  "select_command parse ts n c = Inr (c', s, r) \<Longrightarrow> keeps parse \<Longrightarrow> P c \<longrightarrow> P c'"
  by (auto simp: select_command_def clear_screen_handler_def Let_def elim!: rbindE dest!: frame
      split: if_splits)

lemma parse_body_kept [frame]:
  "parse_body parse s c = Inr (c', st, r) \<Longrightarrow> keeps parse \<Longrightarrow> P c \<longrightarrow> P c'"
  by (auto simp: parse_body_def elim!: rbindE dest!: frame split: if_splits)

lemma parse_input_cmd_keeps: "keeps (parse_input_cmd n)"
proof (induction n)
  case 0
  then show ?case by (simp add: keeps_def)
next
  case (Suc n)
  show ?case
    unfolding keeps_def using parse_body_kept [OF _ Suc] by simp
qed

lemma shell_step_kept [frame]: "shell_step fuel c = Inr c' \<Longrightarrow> P c \<longrightarrow> P c'"
  by (auto simp: shell_step_def place_console_def record_command_def Let_def elim!: rbindE
      dest!: keepsD [OF _ parse_input_cmd_keeps] split: option.splits if_splits)

lemma command_parser_kept: "command_parser n fuel c = Inr c' \<Longrightarrow> P c \<longrightarrow> P c'"
proof (induction n arbitrary: c)
  case (Suc n)
  then obtain c1 where "shell_step fuel c = Inr c1" "command_parser n fuel c1 = Inr c'"
    by (auto elim: rbindE)
  then show ?case using Suc.IH shell_step_kept by metis
qed simp

end

section \<open>The invariants\<close>

definition all_short :: "cli \<Rightarrow> bool" where
  "all_short c \<longleftrightarrow> (\<forall>x\<in>set (params c). short_value x)"

lemma set_leaf_value_short:
  assumes "set_leaf_value c p v = Inr c'" "all_short c"
  shows "all_short c'"
proof -
  obtain l where "length v < LEAF_VALUE_HOLDER_SIZE"
    and "c' = c\<lparr>params := (params c)[p := (params c ! p)\<lparr>cmd_type := LeafPtr (l\<lparr>value_holder := v\<rparr>)\<rparr>]\<rparr>"
    using assms(1) by (auto simp: set_leaf_value_def param_at_def set_param_def elim!: rbindE
        split: if_splits)
  moreover let ?x = "(params c ! p)\<lparr>cmd_type := LeafPtr (l\<lparr>value_holder := v\<rparr>)\<rparr>"
  have "set ((params c)[p := ?x]) \<subseteq> insert ?x (set (params c))"
    by (rule set_update_subset_insert)
  moreover have "length v < LEAF_VALUE_HOLDER_SIZE \<Longrightarrow> short_value ?x" by (simp add: short_value_def)
  ultimately show ?thesis using assms(2) unfolding all_short_def by auto
qed

lemma set_leaf_value_other:
  assumes "set_leaf_value c p v = Inr c'"
  shows "token_arr c' = token_arr c" "code_tlv c' = code_tlv c"
  using assms by (auto simp: set_leaf_value_def set_param_def elim!: rbindE split: if_splits)

text \<open>The unit of the command code is an \<open>INT_LEAF\<close> with the id \<open>CMDCODE\<close>; its value varies.\<close>

definition coded :: "cli \<Rightarrow> bool" where
  "coded c \<longleftrightarrow> (code_tlv c)\<lparr>val := []\<rparr> = command_code_tlv\<lparr>val := []\<rparr>"

interpretation shape_kept: shell_invariant "\<lambda>c. shape c = T" for T
  by unfold_locales (auto simp: shape_def dest: set_leaf_value_shape [unfolded shape_def])

interpretation short_kept: shell_invariant all_short
  by unfold_locales (auto simp: all_short_def dest: set_leaf_value_short [unfolded all_short_def])

interpretation slots_kept: shell_invariant "\<lambda>c. length (token_arr c) = n" for n
  by unfold_locales (auto dest: set_leaf_value_other)

interpretation coded_kept: shell_invariant coded
  by unfold_locales (auto simp: coded_def dest: set_leaf_value_other)

end
