(* ===== verification/ParserFacts.thy ===== *)
theory ParserFacts
  imports ParserFrame
begin

text \<open>
  What a command line means: the walk of the parser through the tree collects the values of
  the leaves it passes, and the application function of the last parameter is called with
  these values and the command code of that parameter.
\<close>

section \<open>Resolving a line\<close>

text \<open>
  The child a token selects without a question: a leaf only when no command matches.
\<close>

definition the_child :: "cli \<Rightarrow> pref \<Rightarrow> string \<Rightarrow> pref option" where
  "the_child c p token =
     (if p < length (params c)
      then (case find_loop c token (options (params c ! p)) None [] of
              Inr (lf, []) \<Rightarrow> lf
            | Inr (lf, [q]) \<Rightarrow> Some q
            | _ \<Rightarrow> None)
      else None)"

definition valid_value :: "leaf \<Rightarrow> string \<Rightarrow> bool" where
  "valid_value l token \<longleftrightarrow>
     leaf_handler (lf_type l) token = Inr VALIDATION_SUCCESS \<and>
     (case user_validation_cb_fn l of None \<Rightarrow> True | Some f \<Rightarrow> fst (f token) = 0) \<and>
     length token < LEAF_VALUE_HOLDER_SIZE"

definition value_tlv :: "leaf \<Rightarrow> string \<Rightarrow> tlv_struct" where
  "value_tlv l token =
     (prepare_tlv_from_leaf (lf_type l) (lf_id l) zero_tlv)
       \<lparr>val := put_at 0 (token @ [NUL]) (replicate LEAF_VALUE_HOLDER_SIZE NUL)\<rparr>"

text \<open>
  The parameter a line leads to from \<open>p\<close>, the mode it sets and the units it collects; \<open>None\<close> if
  a token selects nothing, has to be asked about or is not a valid value.
\<close>

definition leaf_step :: "param \<Rightarrow> string \<Rightarrow> (pref \<times> op_mode \<times> tlv_struct list) option \<Rightarrow>
    (pref \<times> op_mode \<times> tlv_struct list) option" where
  "leaf_step x token rest =
     (case cmd_type x of
        LeafPtr l \<Rightarrow>
          if valid_value l token
          then map_option (\<lambda>(r, m, us). (r, m, value_tlv l token # us)) rest
          else None
      | _ \<Rightarrow> None)"

fun resolve :: "cli \<Rightarrow> pref \<Rightarrow> op_mode \<Rightarrow> string list \<Rightarrow> (pref \<times> op_mode \<times> tlv_struct list) option" where
  "resolve c p m [] = Some (p, m, [])"
| "resolve c p m (token # tokens) =
     (case the_child c p token of
        None \<Rightarrow> None
      | Some q \<Rightarrow>
          if length (params c) \<le> q then None
          else
            (case param_type (params c ! q) of
               CMD \<Rightarrow> resolve c q m tokens
             | NO_CMD \<Rightarrow> resolve c q CONFIG_DISABLE tokens
             | LEAF \<Rightarrow> leaf_step (params c ! q) token (resolve c q m tokens)))"

lemma the_child_shape:
  assumes "shape c = shape c'"
  shows "the_child c p token = the_child c' p token"
proof (cases "p < length (params c)")
  case True
  have "options (params c ! p) = options (params c' ! p)"
    by (rule shape_eq_field [OF assms _ True]) simp
  then show ?thesis
    using True shape_length [OF assms] find_loop_shape [OF assms] by (simp add: the_child_def)
next
  case False
  then show ?thesis using shape_length [OF assms] by (simp add: the_child_def)
qed

lemma find_the_child:
  assumes "the_child c p token = Some q"
  shows "p < length (params c)" "find_matching_param c (options (params c ! p)) token = Inr (c, Some q)"
  using assms
  by (auto simp: the_child_def find_matching_param_def split: if_splits sum.splits prod.splits list.splits)

lemma erase_LeafPtr:
  assumes "erase x = erase y" "cmd_type x = LeafPtr l"
  shows "\<exists>v. cmd_type y = LeafPtr (l\<lparr>value_holder := v\<rparr>)"
proof -
  have "cmd_type (erase x) = LeafPtr (l\<lparr>value_holder := []\<rparr>)" using assms(2) by (simp add: erase_def)
  then have *: "cmd_type (erase y) = LeafPtr (l\<lparr>value_holder := []\<rparr>)" using assms(1) by simp
  show ?thesis
  proof (cases "cmd_type y")
    case (LeafPtr l')
    then have "l'\<lparr>value_holder := []\<rparr> = l\<lparr>value_holder := []\<rparr>" using * by (simp add: erase_def)
    then have "l' = l\<lparr>value_holder := value_holder l'\<rparr>"
      by (cases l; cases l') simp
    then show ?thesis using LeafPtr by metis
  qed (use * in \<open>auto simp: erase_def\<close>)
qed

lemma value_facts [simp]:
  "valid_value (l\<lparr>value_holder := v\<rparr>) t = valid_value l t"
  "value_tlv (l\<lparr>value_holder := v\<rparr>) t = value_tlv l t"
  by (simp_all add: valid_value_def value_tlv_def)

lemma leaf_step_erase:
  assumes "erase x = erase y"
  shows "leaf_step x t X = leaf_step y t X"
proof (cases "cmd_type x")
  case (LeafPtr l)
  then obtain v where "cmd_type y = LeafPtr (l\<lparr>value_holder := v\<rparr>)"
    using erase_LeafPtr [OF assms] by blast
  then show ?thesis using LeafPtr by (simp add: leaf_step_def)
qed (use erase_LeafPtr [OF assms [symmetric]] in
      \<open>auto simp: leaf_step_def split: cmd_union.splits\<close>)

lemma resolve_shape:
  assumes "shape c = shape c'"
  shows "resolve c p m ts = resolve c' p m ts"
proof (induction ts arbitrary: p m)
  case (Cons t ts)
  show ?case
  proof (cases "the_child c p t")
    case None
    then show ?thesis using the_child_shape [OF assms] by simp
  next
    case (Some q)
    show ?thesis
    proof (cases "q < length (params c)")
      case True
      have "leaf_step (params c ! q) t X = leaf_step (params c' ! q) t X" for X
        by (rule leaf_step_erase, rule shape_nth [OF assms True])
      moreover have "param_type (params c ! q) = param_type (params c' ! q)"
        by (rule shape_eq_field [OF assms _ True]) simp
      ultimately show ?thesis
        using Some the_child_shape [OF assms, of p t] shape_length [OF assms] Cons.IH
        by (simp split: param_type.splits)
    next
      case False
      then show ?thesis using Some the_child_shape [OF assms, of p t] shape_length [OF assms] by simp
    qed
  qed
qed simp

text \<open>A word gives at most one unit.\<close>

lemma resolve_units: "resolve c p m ts = Some (q, m', us) \<Longrightarrow> length us \<le> length ts"
proof (induction ts arbitrary: p m us)
  case (Cons t ts)
  from Cons.prems obtain r X us' where "resolve c r X ts = Some (q, m', us')" "length us \<le> Suc (length us')"
    by (fastforce simp: leaf_step_def split: option.splits if_splits param_type.splits cmd_union.splits)
  then show ?case using Cons.IH [of r X us'] by simp
qed simp

section \<open>The walk\<close>

lemma value_tlv_ok: "length t < LEAF_VALUE_HOLDER_SIZE \<Longrightarrow> tlv_ok (value_tlv l t)"
  by (simp add: value_tlv_def tlv_ok_def prepare_tlv_from_leaf_def zero_tlv_def)

text \<open>The fields the walk does not touch.\<close>

definition rest_same :: "cli \<Rightarrow> cli \<Rightarrow> bool" where
  "rest_same c c' \<longleftrightarrow>
     shape c' = shape c \<and> (\<exists>ps b o'. c' = c\<lparr>params := ps, tlv_buff := b, out := o'\<rparr>)"

lemma rest_sameI:
  "shape c' = shape c \<Longrightarrow> c' = c\<lparr>params := ps, tlv_buff := b, out := o'\<rparr> \<Longrightarrow> rest_same c c'"
  unfolding rest_same_def by blast

lemma rest_same_refl [simp]: "rest_same c c"
proof -
  have "c = c\<lparr>params := params c, tlv_buff := tlv_buff c, out := out c\<rparr>" by simp
  then show ?thesis unfolding rest_same_def by blast
qed

lemma rest_same_trans: "rest_same a b \<Longrightarrow> rest_same b c \<Longrightarrow> rest_same a c"
  unfolding rest_same_def by auto (metis cli.update_convs(1,3,14) cli.surjective)

lemma take_leaf_valid:
  assumes "valid_value l t" "p < length (params c)" "cmd_type (params c ! p) = LeafPtr l"
    and "tlv_wf (tlv_buff c)" "length (tlvs (tlv_buff c)) < MAX_UNITS"
  shows "\<exists>c'. take_leaf c p l t = Inr (c', COMPLETE) \<and> rest_same c c' \<and> tlv_wf (tlv_buff c') \<and>
    tlvs (tlv_buff c') = tlvs (tlv_buff c) @ [value_tlv l t] \<and>
    tlvs_marked (tlv_buff c') = tlvs_marked (tlv_buff c)"
proof -
  obtain c1 where uv: "user_validation l t c = (c1, 0)" "\<exists>o'. c1 = c\<lparr>out := o'\<rparr>"
  proof (cases "user_validation_cb_fn l")
    case None
    then have "user_validation l t c = (c, 0)" by (simp add: user_validation_def)
    moreover have "c = c\<lparr>out := out c\<rparr>" by simp
    ultimately show ?thesis using that by blast
  next
    case (Some f)
    obtain texts where "f t = (0, texts)"
      using assms(1) Some by (cases "f t") (simp add: valid_value_def)
    then have "user_validation l t c = (c\<lparr>out := out c @ texts\<rparr>, 0)"
      using Some by (simp add: user_validation_def)
    then show ?thesis using that by blast
  qed
  then obtain o' where c1: "c1 = c\<lparr>out := o'\<rparr>" by blast
  have len: "length t < LEAF_VALUE_HOLDER_SIZE" using assms(1) by (simp add: valid_value_def)
  define c2 where "c2 = c1\<lparr>params := (params c1)[p := (params c1 ! p)
      \<lparr>cmd_type := LeafPtr (l\<lparr>value_holder := t\<rparr>)\<rparr>]\<rparr>"
  have sl: "set_leaf_value c1 p t = Inr c2"
    using assms(2,3) len c1 by (simp add: set_leaf_value_def GET_PARAM_LEAF_def c2_def)
  obtain b where b: "collect_tlv (tlv_buff c) (value_tlv l t) = Inr b" "tlv_wf b"
    "tlvs b = tlvs (tlv_buff c) @ [value_tlv l t]" "tlvs_marked b = tlvs_marked (tlv_buff c)"
    using collect_tlv_appends [OF assms(4) value_tlv_ok [OF len] assms(5)] by blast
  have pv: "put_value_in_tlv (prepare_tlv_from_leaf (lf_type l) (lf_id l) zero_tlv) t =
      Inr (value_tlv l t)"
    using len by (simp add: put_value_in_tlv_def value_tlv_def prepare_tlv_from_leaf_def zero_tlv_def)
  have eq: "take_leaf c p l t = Inr (c2\<lparr>tlv_buff := b\<rparr>, COMPLETE)"
    using assms(1) uv sl pv b(1) c1
    by (simp add: take_leaf_def valid_value_def c2_def)
  have "shape c2 = shape c1" using sl by (rule set_leaf_value_shape)
  then have "rest_same c (c2\<lparr>tlv_buff := b\<rparr>)"
    by (intro rest_sameI [where ps = "params c2" and b = b and o' = o'])
       (simp_all add: c2_def c1 shape_def)
  then show ?thesis using eq b by (intro exI [of _ "c2\<lparr>tlv_buff := b\<rparr>"]) simp
qed

lemma rest_same_fields:
  assumes "rest_same c c'"
  shows "shape c' = shape c" "cursor c' = cursor c" "console_name c' = console_name c"
    "token_arr c' = token_arr c" "code_tlv c' = code_tlv c" "calls c' = calls c"
    "backend c' = backend c" "stdin_text c' = stdin_text c" "last_command c' = last_command c"
    "recording c' = recording c" "hist c' = hist c"
  using assms unfolding rest_same_def by auto

theorem walk_resolve:
  assumes "w_param w = Some p" "shape (w_cli w) = shape c" "tlv_wf (tlv_buff (w_cli w))"
    and "w_status w = COMPLETE" "resolve c p (w_mode w) ts = Some (q, m, us)"
    and "length (tlvs (tlv_buff (w_cli w))) + length us \<le> MAX_UNITS"
  shows "\<exists>w'. walk_loop w ts = Inr w' \<and> w_param w' = Some q \<and> w_mode w' = m \<and>
    w_status w' = COMPLETE \<and> rest_same (w_cli w) (w_cli w') \<and> tlv_wf (tlv_buff (w_cli w')) \<and>
    tlvs (tlv_buff (w_cli w')) = tlvs (tlv_buff (w_cli w)) @ us \<and>
    tlvs_marked (tlv_buff (w_cli w')) = tlvs_marked (tlv_buff (w_cli w))"
  using assms
proof (induction ts arbitrary: w p us)
  case Nil
  then show ?case by auto
next
  case (Cons t ts)
  define c0 where "c0 = w_cli w"
  have sh: "shape c0 = shape c" using Cons.prems by (simp add: c0_def)
  from Cons.prems(5) obtain r where r: "the_child c p t = Some r" "r < length (params c)"
    by (auto split: option.splits if_splits)
  have ch: "the_child c0 p t = Some r" using r(1) the_child_shape [OF sh] by simp
  note f = find_the_child [OF ch]
  have r0: "r < length (params c0)" using r(2) shape_length [OF sh] by simp
  have ty: "param_type (params c0 ! r) = param_type (params c ! r)"
    by (rule shape_eq_field [OF sh _ r0]) simp
  have er: "erase (params c ! r) = erase (params c0 ! r)"
    by (rule shape_nth [OF sh [symmetric] r(2)])
  let ?w1 = "w\<lparr>w_cli := c0, w_parent := w_param w, w_param := Some r\<rparr>"
  show ?case
  proof (cases "param_type (params c ! r)")
    case CMD
    then have "walk_step w t = Inr (?w1, True)"
      using Cons.prems(1) f r0 ty
      by (simp add: walk_step_def c0_def IS_PARAM_LEAF_def IS_PARAM_NO_CMD_def)
    moreover have "resolve c r (w_mode ?w1) ts = Some (q, m, us)"
      using Cons.prems(5) r CMD by simp
    ultimately show ?thesis
      using Cons.IH [of ?w1 r us] Cons.prems by (simp add: c0_def)
  next
    case NO_CMD
    then have "walk_step w t = Inr (?w1\<lparr>w_mode := CONFIG_DISABLE\<rparr>, True)"
      using Cons.prems(1) f r0 ty
      by (simp add: walk_step_def c0_def IS_PARAM_LEAF_def IS_PARAM_NO_CMD_def)
    moreover have "resolve c r (w_mode (?w1\<lparr>w_mode := CONFIG_DISABLE\<rparr>)) ts = Some (q, m, us)"
      using Cons.prems(5) r NO_CMD by simp
    ultimately show ?thesis
      using Cons.IH [of "?w1\<lparr>w_mode := CONFIG_DISABLE\<rparr>" r us] Cons.prems by (simp add: c0_def)
  next
    case LEAF
    have "leaf_step (params c0 ! r) t (resolve c r (w_mode w) ts) = Some (q, m, us)"
      using Cons.prems(5) r LEAF leaf_step_erase [OF er] by simp
    then obtain l us' where l: "cmd_type (params c0 ! r) = LeafPtr l" "valid_value l t"
      "resolve c r (w_mode w) ts = Some (q, m, us')" "us = value_tlv l t # us'"
      by (auto simp: leaf_step_def split: cmd_union.splits if_splits)
    obtain c1 where c1: "take_leaf c0 r l t = Inr (c1, COMPLETE)" "rest_same c0 c1"
      "tlv_wf (tlv_buff c1)" "tlvs (tlv_buff c1) = tlvs (tlv_buff c0) @ [value_tlv l t]"
      "tlvs_marked (tlv_buff c1) = tlvs_marked (tlv_buff c0)"
      using take_leaf_valid [OF l(2) r0 l(1)] Cons.prems(3,6) l(4) by (auto simp: c0_def)
    have "walk_step w t = Inr (?w1\<lparr>w_cli := c1\<rparr>, True)"
      using Cons.prems(1) f r0 ty LEAF l c1(1)
      by (simp add: walk_step_def c0_def IS_PARAM_LEAF_def GET_PARAM_LEAF_def)
    moreover have "\<exists>w'. walk_loop (?w1\<lparr>w_cli := c1\<rparr>) ts = Inr w' \<and> w_param w' = Some q \<and>
      w_mode w' = m \<and> w_status w' = COMPLETE \<and> rest_same c1 (w_cli w') \<and>
      tlv_wf (tlv_buff (w_cli w')) \<and> tlvs (tlv_buff (w_cli w')) = tlvs (tlv_buff c1) @ us' \<and>
      tlvs_marked (tlv_buff (w_cli w')) = tlvs_marked (tlv_buff c1)"
      using Cons.IH [of "?w1\<lparr>w_cli := c1\<rparr>" r us'] l(3) c1 rest_same_fields(1) [OF c1(2)] sh
        Cons.prems(4,6) l(4) by (simp add: c0_def)
    ultimately show ?thesis
      using c1 l(4) rest_same_trans [OF c1(2)] by (auto simp: c0_def)
  qed
qed

section \<open>Dispatch to the application\<close>

definition code_unit :: "int \<Rightarrow> tlv_struct" where
  "code_unit n = command_code_tlv\<lparr>val := put_at 0 (show_int n) (replicate LEAF_VALUE_HOLDER_SIZE NUL)\<rparr>"

text \<open>A command code is an \<open>int\<close>, so its text has at most eleven characters.\<close>

lemma length_show_nat: "n < 10 ^ Suc k \<Longrightarrow> length (show_nat n) \<le> Suc k"
proof (induction k arbitrary: n)
  case (Suc k)
  show ?case
  proof (cases "n < 10")
    case False
    then have "n div 10 < 10 ^ Suc k" using Suc.prems by simp
    then show ?thesis using False Suc.IH by (subst show_nat.simps) simp
  qed (subst show_nat.simps, simp)
qed (subst show_nat.simps, simp)

definition is_int :: "int \<Rightarrow> bool" where
  "is_int n \<longleftrightarrow> - (2 ^ 31) \<le> n \<and> n < 2 ^ 31"

lemma length_show_int: "is_int n \<Longrightarrow> length (show_int n) \<le> 11"
proof -
  assume "is_int n"
  then have "nat n < 10 ^ Suc 9" "nat (- n) < 10 ^ Suc 9" by (auto simp: is_int_def)
  then have "length (show_nat (nat n)) \<le> Suc 9" "length (show_nat (nat (- n))) \<le> Suc 9"
    using length_show_nat by blast+
  then show ?thesis by (simp add: show_int_def)
qed

lemma code_unit_facts:
  assumes "is_int n"
  shows "tlv_ok (code_unit n)" "atoi (cstr (val (code_unit n))) = n"
proof -
  have len: "length (show_int n) \<le> 11" by (rule length_show_int [OF assms])
  then show "tlv_ok (code_unit n)"
    by (simp add: code_unit_def tlv_ok_def command_code_tlv_def zero_tlv_def)
  have "val (code_unit n) = show_int n @ NUL # replicate (63 - length (show_int n)) NUL"
    using len by (simp add: code_unit_def put_at_def Suc_diff_le replicate_Suc [symmetric]
        del: replicate_Suc)
  then show "atoi (cstr (val (code_unit n))) = n"
    using assms show_int_no_NUL by (simp add: cstr_app atoi_show_int is_int_def)
qed

lemma collect_code_eq:
  assumes "tlv_wf (tlv_buff c)" "is_int n" "coded c" "length (tlvs (tlv_buff c)) < MAX_UNITS"
  shows "\<exists>b. collect_code n c = Inr (c\<lparr>code_tlv := code_unit n, tlv_buff := b\<rparr>) \<and> tlv_wf b \<and>
    tlvs b = tlvs (tlv_buff c) @ [code_unit n] \<and> tlvs_marked b = tlvs_marked (tlv_buff c)"
proof -
  have "(code_tlv c)\<lparr>val := put_at 0 (show_int n) (replicate LEAF_VALUE_HOLDER_SIZE NUL)\<rparr> = code_unit n"
    using assms(3) by (simp add: code_unit_def coded_def) (metis tlv_struct.surjective tlv_struct.update_convs(3) tlv_struct.ext_inject)
  then show ?thesis
    using collect_tlv_appends [OF assms(1) code_unit_facts(1) [OF assms(2)] assms(4)]
    by (auto simp: collect_code_def)
qed

text \<open>The application function of the parameter reached, and what it is given.\<close>

definition special :: "pref \<Rightarrow> bool" where
  "special p \<longleftrightarrow> p \<in> {show_brief_extension, suboptions_param, mode_param, cmd_expansion_param}"

lemma emit_fields [simp]:
  "params (emit s c) = params c" "cursor (emit s c) = cursor c" "tlv_buff (emit s c) = tlv_buff c"
  "code_tlv (emit s c) = code_tlv c" "calls (emit s c) = calls c" "backend (emit s c) = backend c"
  "shape (emit s c) = shape c" "token_arr (emit s c) = token_arr c"
  by (simp_all add: emit_def shape_def)

text \<open>
  A shell is ready for a line when its buffer is well formed and takes the units of sixteen words
  and a code without reaching the size whose doubling overflows.
\<close>

definition ready :: "cli \<Rightarrow> bool" where
  "ready c \<longleftrightarrow> tlv_wf (tlv_buff c) \<and> coded c \<and>
     length (tlvs (tlv_buff c)) + MAX_CMD_TREE_DEPTH < MAX_UNITS"

lemma code_unit_type [simp]: "(code_unit n)\<lparr>val := []\<rparr> = command_code_tlv\<lparr>val := []\<rparr>"
  by (simp add: code_unit_def)

lemma coded_unit: "coded (c\<lparr>code_tlv := code_unit n\<rparr>)"
  by (simp add: coded_def)

lemma dispatch_app:
  assumes "branch c q ps" "q \<noteq> root" "\<not> special q" "q \<noteq> config" "hd ps \<noteq> repeat"
    and "callback (params c ! q) = Some (App n)" "is_int (CMDCODE (params c ! q))"
    and "tlv_wf (tlv_buff c)" "coded c" "length (tlvs (tlv_buff c)) < MAX_UNITS"
  shows "\<exists>b. tlv_wf b \<and> tlvs b = tlvs (tlv_buff c) @ [code_unit (CMDCODE (params c ! q))] \<and>
    tlvs_marked b = tlvs_marked (tlv_buff c) \<and>
    dispatch_command parse q m c =
      app_effects (backend c n b (command_mode (hd ps) m))
        (c\<lparr>code_tlv := code_unit (CMDCODE (params c ! q)), tlv_buff := b,
           calls := calls c @ [(n, q, b, command_mode (hd ps) m)]\<rparr>)"
proof -
  have q: "q < length (params c)" using branch_in branch_last assms(1) by (metis last_in_set)
  obtain b where b: "collect_code (CMDCODE (params c ! q)) c =
      Inr (c\<lparr>code_tlv := code_unit (CMDCODE (params c ! q)), tlv_buff := b\<rparr>)" "tlv_wf b"
    "tlvs b = tlvs (tlv_buff c) @ [code_unit (CMDCODE (params c ! q))]"
    "tlvs_marked b = tlvs_marked (tlv_buff c)"
    using collect_code_eq [OF assms(8,7,9,10)] by blast
  have "get_current_branch_hook c (Some q) = Inr (hd ps)"
    by (rule get_current_branch_hook_hd [OF assms(1,2)])
  then show ?thesis
    using b q assms(4-6)
    by (intro exI [of _ b]) (simp add: dispatch_command_def invoke_def app_callback_def)
qed

theorem build_tlv_buffer_calls_app:
  assumes "cursor c = Some p" "ready c" "resolve c p MODE_UNKNOWN ts = Some (q, m, us)"
    and "branch c q ps" "q \<noteq> root" "\<not> special q" "q \<noteq> config" "hd ps \<noteq> repeat"
    and "callback (params c ! q) = Some (App n)" "is_int (CMDCODE (params c ! q))"
    and "length ts \<le> MAX_CMD_TREE_DEPTH"
  shows "\<exists>b c1. tlv_wf b \<and> tlvs b = tlvs (tlv_buff c) @ us @ [code_unit (CMDCODE (params c ! q))] \<and>
    tlvs_marked b = tlvs_marked (tlv_buff c) \<and>
    rest_same c c1 \<and> (all_short c \<longrightarrow> all_short c1) \<and>
    build_tlv_buffer parse ts c =
      rbind (app_effects (backend c n b (command_mode (hd ps) m))
        (c1\<lparr>code_tlv := code_unit (CMDCODE (params c ! q)), tlv_buff := b,
           calls := calls c @ [(n, q, b, command_mode (hd ps) m)]\<rparr>)) (\<lambda>c2. Inr (c2, COMPLETE))"
proof -
  have us: "length us \<le> MAX_CMD_TREE_DEPTH" using resolve_units [OF assms(3)] assms(11) by simp
  have "\<exists>w'. walk_loop (start_walk c) ts = Inr w' \<and> w_param w' = Some q \<and> w_mode w' = m \<and>
    w_status w' = COMPLETE \<and> rest_same c (w_cli w') \<and> tlv_wf (tlv_buff (w_cli w')) \<and>
    tlvs (tlv_buff (w_cli w')) = tlvs (tlv_buff c) @ us \<and>
    tlvs_marked (tlv_buff (w_cli w')) = tlvs_marked (tlv_buff c)"
    using walk_resolve [of "start_walk c" p c ts q m us] assms(1-3) us
    by (simp add: start_walk_def get_cmd_tree_cursor_def ready_def)
  then obtain w where w: "walk_loop (start_walk c) ts = Inr w" "w_param w = Some q" "w_mode w = m"
    "w_status w = COMPLETE" "rest_same c (w_cli w)" "tlv_wf (tlv_buff (w_cli w))"
    "tlvs (tlv_buff (w_cli w)) = tlvs (tlv_buff c) @ us"
    "tlvs_marked (tlv_buff (w_cli w)) = tlvs_marked (tlv_buff c)"
    by blast
  let ?c = "emit (ANSI_COLOR_GREEN @ ''Parse Success.'' @ [NL] @ ANSI_COLOR_RESET) (w_cli w)"
  note same = rest_same_fields [OF w(5)]
  have q: "q < length (params c)" using branch_in branch_last assms(4) by (metis last_in_set)
  have q': "q < length (params (w_cli w))" using q shape_length [OF same(1)] by simp
  have eqs: "callback (params (w_cli w) ! q) = callback (params c ! q)"
    "CMDCODE (params (w_cli w) ! q) = CMDCODE (params c ! q)"
    by (rule shape_eq_field [OF same(1) _ q']; simp)+
  have br: "branch ?c q ps" using branch_shape [OF assms(4), of ?c] same(1) by simp
  have rd: "tlv_wf (tlv_buff ?c)" "coded ?c" "length (tlvs (tlv_buff ?c)) < MAX_UNITS"
    using assms(2) us w(6,7) same(5) by (auto simp: ready_def coded_def)
  obtain b where b: "tlv_wf b" "tlvs b = tlvs (tlv_buff ?c) @ [code_unit (CMDCODE (params ?c ! q))]"
    "tlvs_marked b = tlvs_marked (tlv_buff ?c)"
    "dispatch_command parse q m ?c =
      app_effects (backend ?c n b (command_mode (hd ps) m))
        (?c\<lparr>code_tlv := code_unit (CMDCODE (params ?c ! q)), tlv_buff := b,
           calls := calls ?c @ [(n, q, b, command_mode (hd ps) m)]\<rparr>)"
    using dispatch_app [OF br assms(5-8) _ _ rd, of n parse m] assms(9,10) eqs by auto
  have sh: "all_short c \<longrightarrow> all_short ?c"
    using short_kept.walk_loop_kept [OF w(1)] by (simp add: start_walk_def)
  have "rest_same (w_cli w) ?c"
    by (rule rest_sameI [where ps = "params (w_cli w)" and b = "tlv_buff (w_cli w)"
          and o' = "out ?c"]) (simp_all add: emit_def shape_def)
  then have rs: "rest_same c ?c" using w(5) rest_same_trans by blast
  have "build_tlv_buffer parse ts c = finish_walk parse w"
    using w(1) by (simp add: build_tlv_buffer_def)
  also have "\<dots> = dispatch parse w q"
    using w(2,4) q' eqs(1) assms(9) by (simp add: finish_walk_def)
  also have "\<dots> = rbind (dispatch_command parse q m ?c) (\<lambda>c'. Inr (c', COMPLETE))"
    using w(3) assms(6) by (simp add: dispatch_def special_def)
  finally show ?thesis
    using b rs sh w(7,8) same(6,7) eqs(2) by (intro exI [of _ b] exI [of _ ?c]) simp
qed

section \<open>A line of input\<close>

text \<open>The lines that none of the built-in cases of \<open>parse_input_cmd\<close> takes.\<close>

definition ordinary :: "cli \<Rightarrow> string list \<Rightarrow> bool" where
  "ordinary c ws \<longleftrightarrow>
     \<not> (1 < length ws \<and> strncmp_eq (ws ! 0) ''do'' 2 \<and> cursor c \<noteq> Some root) \<and>
     \<not> abbreviates (ws ! 0) ''repeat'' \<and>
     \<not> (length ws = 1 \<and> (has_prefix (ws ! 0) ''cd'' \<or> has_prefix (ws ! 0) ''cls'')) \<and>
     \<not> (length ws = 4 \<and> has_prefix (ws ! 0) ''run'' \<and> has_prefix (ws ! 1) ''ut'') \<and>
     \<not> (length ws = 3 \<and> has_prefix (ws ! 0) ''config'' \<and> has_prefix (ws ! 1) ''load'')"

text \<open>The words of a line of input that the tokenizer has room for.\<close>

definition words_of :: "string \<Rightarrow> string list" where
  "words_of s = strtok_all CHR '' '' (trimmed s)"

definition fits_tokens :: "string \<Rightarrow> bool" where
  "fits_tokens s \<longleftrightarrow> length s < CONS_INPUT_BUFFER_SIZE \<and> length (words_of s) \<le> MAX_CMD_TREE_DEPTH \<and>
     (\<forall>w\<in>set (words_of s). length w < LEAF_VALUE_HOLDER_SIZE)"

lemma has_prefix_cd: "has_prefix w ''cd..'' \<Longrightarrow> has_prefix w ''cd''"
  by (auto simp: has_prefix_iff)

lemma tokenize_words:
  assumes "fits_tokens s" "length (token_arr c) = MAX_CMD_TREE_DEPTH"
  shows "tokenize_into c s CHR '' '' =
    Inr (c\<lparr>token_arr := words_of s @ drop (length (words_of s)) (token_arr c)\<rparr>, length (words_of s))"
  using tokenizer_words [OF assms(2) _ refl, of s "CHR '' ''"] assms(1)
  by (simp add: tokenize_into_def fits_tokens_def words_of_def)

lemma ordinary_tests:
  assumes "ordinary c ws" "ws \<noteq> []" "ts = ws @ r"
  shows "\<not> (length ws > 1 \<and> strncmp_eq (ts ! 0) ''do'' 2 \<and> cursor c \<noteq> Some root)"
    "\<not> abbreviates (ts ! 0) ''repeat''"
    "\<not> (has_prefix (ts ! 0) ''cd..'' \<and> length ws = 1)" "\<not> (has_prefix (ts ! 0) ''cd'' \<and> length ws = 1)"
    "\<not> (has_prefix (ts ! 0) ''cls'' \<and> length ws = 1)"
    "\<not> (has_prefix (ts ! 0) ''run'' \<and> has_prefix (ts ! 1) ''ut'' \<and> length ws = 4)"
    "\<not> (has_prefix (ts ! 0) ''config'' \<and> has_prefix (ts ! 1) ''load'' \<and> length ws = 3)"
    "take (length ws) ts = ws"
proof -
  have 0: "ts ! 0 = ws ! 0" using assms by (simp add: nth_append)
  have 1: "1 < length ws \<Longrightarrow> ts ! 1 = ws ! 1" using assms by (simp add: nth_append)
  show "\<not> (length ws > 1 \<and> strncmp_eq (ts ! 0) ''do'' 2 \<and> cursor c \<noteq> Some root)"
    "\<not> abbreviates (ts ! 0) ''repeat''"
    "\<not> (has_prefix (ts ! 0) ''cd..'' \<and> length ws = 1)" "\<not> (has_prefix (ts ! 0) ''cd'' \<and> length ws = 1)"
    "\<not> (has_prefix (ts ! 0) ''cls'' \<and> length ws = 1)" "take (length ws) ts = ws"
    using assms(1,3) has_prefix_cd [of "ws ! 0"] unfolding ordinary_def 0 by auto
  show "\<not> (has_prefix (ts ! 0) ''run'' \<and> has_prefix (ts ! 1) ''ut'' \<and> length ws = 4)"
    "\<not> (has_prefix (ts ! 0) ''config'' \<and> has_prefix (ts ! 1) ''load'' \<and> length ws = 3)"
    using assms(1) 1 unfolding ordinary_def 0 by auto
qed

lemma select_ordinary:
  assumes "ordinary c ws" "ws \<noteq> []" "ts = ws @ r"
  shows "select_command parse ts (length ws) c =
    rbind (build_tlv_buffer parse ws c) (\<lambda>(c', status). Inr (c', status, False))"
  by (simp only: select_command_def Let_def get_cmd_tree_cursor_def ordinary_tests [OF assms] if_False)

lemma re_init_token_arr_eq:
  "length (token_arr c) = MAX_CMD_TREE_DEPTH \<Longrightarrow>
   re_init_token_arr c = Inr (c\<lparr>token_arr := replicate MAX_CMD_TREE_DEPTH []\<rparr>)"
  by (simp add: re_init_token_arr_def re_init_tokens_eq)

lemma settle_buffer_eq:
  assumes "tlv_wf (tlv_buff c)"
  shows "\<exists>b. settle_buffer c = Inr (c\<lparr>tlv_buff := b\<rparr>) \<and> tlv_wf b \<and>
    tlvs b = (if cursor c = Some root then [] else tlvs_marked (tlv_buff c)) \<and>
    tlvs_marked b = (if cursor c = Some root then [] else tlvs_marked (tlv_buff c))"
  using restore_tlvs [OF assms] reset_tlvs [OF assms]
  by (auto simp: settle_buffer_def is_user_in_cmd_mode_def get_cmd_tree_cursor_def)

lemma parse_body_ordinary:
  assumes "fits_tokens s" "length (token_arr c) = MAX_CMD_TREE_DEPTH" "words_of s \<noteq> []"
    and "ordinary c (words_of s)"
  shows "parse_body parse s c =
    rbind (build_tlv_buffer parse (words_of s)
            (c\<lparr>token_arr := words_of s @ drop (length (words_of s)) (token_arr c)\<rparr>)) (\<lambda>(c2, status).
    rbind (re_init_token_arr c2) (\<lambda>c3.
    rbind (settle_buffer c3) (\<lambda>c4. Inr (c4, status, False))))"
proof -
  let ?c = "c\<lparr>token_arr := words_of s @ drop (length (words_of s)) (token_arr c)\<rparr>"
  have "ordinary ?c (words_of s)" using assms(4) by (simp add: ordinary_def)
  then have "select_command parse (token_arr ?c) (length (words_of s)) ?c =
    rbind (build_tlv_buffer parse (words_of s) ?c)
      (\<lambda>(c', status). Inr (c', status, False))"
    using assms(3) by (intro select_ordinary) auto
  then show ?thesis
    using tokenize_words [OF assms(1,2)] assms(3)
    by (simp add: parse_body_def rbind_assoc case_prod_unfold)
qed

lemma parse_ordinary:
  assumes "fits_tokens s" "length (token_arr c) = MAX_CMD_TREE_DEPTH" "words_of s \<noteq> []"
    and "ordinary c (words_of s)"
  shows "parse_input_cmd (Suc k) s c =
    rbind (build_tlv_buffer (parse_input_cmd k) (words_of s)
            (c\<lparr>token_arr := words_of s @ drop (length (words_of s)) (token_arr c)\<rparr>)) (\<lambda>(c2, status).
    rbind (re_init_token_arr c2) (\<lambda>c3.
    rbind (settle_buffer c3) (\<lambda>c4. Inr (c4, status, False))))"
  by (simp add: parse_body_ordinary [OF assms])

text \<open>
  A line that leads to an application callback without effects on the shell: what the callback is
  given, and the state of the shell afterwards.
\<close>

lemma line_calls_app:
  assumes "fits_tokens s" "words_of s \<noteq> []" "ordinary c (words_of s)"
    and "length (token_arr c) = MAX_CMD_TREE_DEPTH" "cursor c = Some p" "ready c"
    and "resolve c p MODE_UNKNOWN (words_of s) = Some (q, m, us)"
    and "branch c q ps" "q \<noteq> root" "\<not> special q" "q \<noteq> config" "hd ps \<noteq> repeat"
    and "callback (params c ! q) = Some (App n)" "is_int (CMDCODE (params c ! q))"
    and "\<forall>b md. backend c n b md = []"
  obtains c' b where "parse_input_cmd (Suc k) s c = Inr (c', COMPLETE, False)"
    "calls c' = calls c @ [(n, q, b, command_mode (hd ps) m)]"
    "tlv_wf b" "tlvs b = tlvs (tlv_buff c) @ us @ [code_unit (CMDCODE (params c ! q))]"
    "cursor c' = cursor c" "shape c' = shape c" "ready c'" "length (token_arr c') = MAX_CMD_TREE_DEPTH"
    "tlvs (tlv_buff c') = (if p = root then [] else tlvs_marked (tlv_buff c))"
    "stdin_text c' = stdin_text c" "recording c' = recording c" "hist c' = hist c"
    "backend c' = backend c"
proof -
  let ?c = "c\<lparr>token_arr := words_of s @ drop (length (words_of s)) (token_arr c)\<rparr>"
  have sh: "shape ?c = shape c" by (simp add: shape_def)
  have r: "resolve ?c p MODE_UNKNOWN (words_of s) = Some (q, m, us)"
    using assms(7) resolve_shape [OF sh] by simp
  have br: "branch ?c q ps" by (rule branch_shape [OF assms(8) sh [symmetric]])
  have rd: "ready ?c" using assms(6) by (simp add: ready_def coded_def)
  obtain b c1 where b: "tlv_wf b"
    "tlvs b = tlvs (tlv_buff c) @ us @ [code_unit (CMDCODE (params c ! q))]"
    "tlvs_marked b = tlvs_marked (tlv_buff c)" "rest_same ?c c1"
    "build_tlv_buffer (parse_input_cmd k) (words_of s) ?c =
      Inr (c1\<lparr>code_tlv := code_unit (CMDCODE (params c ! q)), tlv_buff := b,
           calls := calls c @ [(n, q, b, command_mode (hd ps) m)]\<rparr>, COMPLETE)"
    using build_tlv_buffer_calls_app [OF _ rd r br assms(9-12), of n "parse_input_cmd k"]
      assms(1,5,13-15) by (auto simp: fits_tokens_def)
  let ?c2 = "c1\<lparr>code_tlv := code_unit (CMDCODE (params c ! q)), tlv_buff := b,
       calls := calls c @ [(n, q, b, command_mode (hd ps) m)]\<rparr>"
  note same = rest_same_fields [OF b(4)]
  have tok: "length (token_arr ?c2) = MAX_CMD_TREE_DEPTH"
    using same(4) assms(1,4) by (simp add: fits_tokens_def)
  let ?c3 = "?c2\<lparr>token_arr := replicate MAX_CMD_TREE_DEPTH []\<rparr>"
  obtain b' where b': "settle_buffer ?c3 = Inr (?c3\<lparr>tlv_buff := b'\<rparr>)" "tlv_wf b'"
    "tlvs b' = (if cursor c = Some root then [] else tlvs_marked (tlv_buff c))"
    using settle_buffer_eq [of ?c3] b(1,3) same(2) by auto
  have marked_le: "length (tlvs_marked (tlv_buff c)) \<le> length (tlvs (tlv_buff c))"
    using tlv_wf_count(4) assms(6) by (simp add: tlvs_def tlvs_marked_def ready_def)
  have "parse_input_cmd (Suc k) s c = Inr (?c3\<lparr>tlv_buff := b'\<rparr>, COMPLETE, False)"
    using parse_ordinary [OF assms(1,4,2,3), of k] b(5) b'(1) re_init_token_arr_eq [OF tok] by simp
  moreover have "shape (?c3\<lparr>tlv_buff := b'\<rparr>) = shape c" using same(1) by (simp add: shape_def)
  moreover have "ready (?c3\<lparr>tlv_buff := b'\<rparr>)" using b'(2) assms(6) b'(3) marked_le
    by (auto simp: ready_def coded_def)
  ultimately show thesis
    using that [of "?c3\<lparr>tlv_buff := b'\<rparr>" b] b(1,2) b'(3) same assms(5) by simp
qed

end
