(* ===== verification/CliProps.thy ===== *)
theory CliProps
  imports ParserFacts
begin

text \<open>
  The properties of the command line interface, and the small command tree their witnesses
  are evaluated on.
\<close>

section \<open>A small tree\<close>

definition demo_cmd :: "string \<Rightarrow> callback option \<Rightarrow> pref option list \<Rightarrow> pref option \<Rightarrow> param" where
  "demo_cmd name cb os par =
     zero_param\<lparr>cmd_type := CmdPtr name, callback := cb, options := os, parent := par\<rparr>"

definition demo_leaf :: "string \<Rightarrow> callback option \<Rightarrow> pref option list \<Rightarrow> pref option \<Rightarrow> int \<Rightarrow> param" where
  "demo_leaf lid cb os par code =
     zero_param\<lparr>param_type := LEAF, cmd_type := LeafPtr \<lparr>lf_type = INT_LEAF, value_holder = [],
       user_validation_cb_fn = None, lf_id = lid\<rparr>, callback := cb, options := os, parent := par,
       CMDCODE := code\<rparr>"

definition demo_options :: "pref option list \<Rightarrow> pref option list" where
  "demo_options os =
     [Some mode_param, Some suboptions_param, Some cmd_expansion_param] @ os @
     replicate (13 - length os) None"

text \<open>\<open>show node <id>\<close> with command code 3, \<open>config vlan <id>\<close> with command code 4.\<close>

definition demo_params :: "param list" where
  "demo_params =
     [demo_cmd ''ROOT'' None (demo_options [Some show_hook, Some config]) None,
      demo_cmd ''DO_HOOK'' None (demo_options [Some show_hook]) None,
      demo_cmd ''show'' None (demo_options [Some 13]) (Some root),
      zero_param, zero_param,
      demo_cmd ''config'' (Some ConfigModeEnter) (demo_options [Some 15]) (Some root),
      zero_param, zero_param, zero_param, zero_param,
      demo_cmd ''/'' (Some ModeEnter) (replicate 16 None) None,
      demo_cmd ''?'' (Some DisplaySubOptions) (replicate 16 None) None,
      demo_cmd ''.'' (Some DisplayCmdExpansion) (replicate 16 None) None,
      demo_cmd ''node'' None (demo_options [Some 14]) (Some show_hook),
      demo_leaf ''node-id'' (Some (App 7)) (replicate 16 None) (Some 13) 3,
      demo_cmd ''vlan'' None (demo_options [Some 16]) (Some config),
      demo_leaf ''vlan-id'' (Some (App 8)) (replicate 16 None) (Some 15) 4]"

definition demo :: cli where
  "demo =
     (before_main 0 [] (\<lambda>f. None) (\<lambda>n b m. []))
       \<lparr>params := demo_params, cursor := Some root, console_name := ''dev>'',
        tlv_buff := init_serialized_buffer_of_defined_size 4, code_tlv := command_code_tlv,
        ut_recv_buff := []\<rparr>"

abbreviation demo_node_leaf :: leaf where
  "demo_node_leaf \<equiv> \<lparr>lf_type = INT_LEAF, value_holder = [], user_validation_cb_fn = None,
     lf_id = ''node-id''\<rparr>"

text \<open>The facts about this tree that the witnesses need.\<close>

lemma demo_resolve:
  "resolve demo root MODE_UNKNOWN [''sh'', ''node'', ''42''] =
     Some (14, MODE_UNKNOWN, [value_tlv demo_node_leaf ''42''])"
  by code_simp

lemma demo_words: "words_of ''sh node  42'' = [''sh'', ''node'', ''42'']"
  by code_simp

lemma demo_fields:
  "params demo = demo_params" "cursor demo = Some root" "length (token_arr demo) = MAX_CMD_TREE_DEPTH"
  "calls demo = []" "backend demo = (\<lambda>n b m. [])" "tlvs (tlv_buff demo) = []"
  by (simp_all add: demo_def before_main_def init_token_array_def
      init_serialized_buffer_of_defined_size_def tlvs_def unit_count_def get_serialize_buffer_size_def)

lemma demo_ready: "ready demo"
  by (simp add: ready_def coded_def demo_fields MAX_UNITS_def)
     (simp add: demo_def before_main_def tlv_wf_def init_serialized_buffer_of_defined_size_def sb_wf_def)

lemma demo_nth:
  "length demo_params = 17" "demo_params ! 2 = demo_cmd ''show'' None (demo_options [Some 13]) (Some root)"
  "demo_params ! 13 = demo_cmd ''node'' None (demo_options [Some 14]) (Some show_hook)"
  "demo_params ! 14 = demo_leaf ''node-id'' (Some (App 7)) (replicate 16 None) (Some 13) 3"
  by (simp_all add: demo_params_def)

lemma demo_branch_node: "branch demo 13 [2, 13]"
proof -
  have "branch demo 2 [2]"
    by (rule branch.top) (simp_all add: demo_fields demo_nth demo_cmd_def)
  then have "branch demo 13 ([2] @ [13])"
    by (rule branch.below [rotated 3]) (simp_all add: demo_fields demo_nth demo_cmd_def)
  then show ?thesis by simp
qed

lemma demo_branch: "branch demo 14 [2, 13, 14]"
proof -
  have "branch demo 14 ([2, 13] @ [14])"
    using demo_branch_node
    by (rule branch.below [rotated 3]) (simp_all add: demo_fields demo_nth demo_leaf_def)
  then show ?thesis by simp
qed

section \<open>Properties\<close>

text \<open>
  C1: a line whose words lead from the cursor to a parameter with an application callback
  calls that callback exactly once. The callback is given the leaves that were in the buffer
  (those of the mode), then the values of the line in their order, and the command code of its
  own parameter; the mode says whether a configuration is made or undone. Afterwards the cursor
  is where it was and the buffer holds the leaves of the mode again. The buffer of the shell is to
  have room for the units of a line below ten million.
\<close>

theorem command_line_calls_app:
  assumes "fits_tokens s" "words_of s \<noteq> []" "ordinary c (words_of s)"
    and "length (token_arr c) = MAX_CMD_TREE_DEPTH" "cursor c = Some p" "ready c"
    and "resolve c p MODE_UNKNOWN (words_of s) = Some (q, m, us)"
    and "branch c q ps" "q \<noteq> root" "\<not> special q" "q \<noteq> config" "hd ps \<noteq> repeat"
    and "callback (params c ! q) = Some (App n)" "is_int (CMDCODE (params c ! q))"
    and "\<forall>b md. backend c n b md = []"
  shows "\<exists>c' b. parse_input_cmd (Suc k) s c = Inr (c', COMPLETE, False) \<and>
    calls c' = calls c @ [(n, q, b, command_mode (hd ps) m)] \<and>
    TLV_LOOP b = Inr (tlvs (tlv_buff c) @ us) \<and>
    EXTRACT_CMD_CODE b = Inr (CMDCODE (params c ! q)) \<and>
    cursor c' = cursor c \<and>
    tlvs (tlv_buff c') = (if p = root then [] else tlvs_marked (tlv_buff c))"
proof -
  obtain c' b where r: "parse_input_cmd (Suc k) s c = Inr (c', COMPLETE, False)"
    "calls c' = calls c @ [(n, q, b, command_mode (hd ps) m)]"
    "tlv_wf b" "tlvs b = tlvs (tlv_buff c) @ us @ [code_unit (CMDCODE (params c ! q))]"
    "cursor c' = cursor c" "tlvs (tlv_buff c') = (if p = root then [] else tlvs_marked (tlv_buff c))"
    using line_calls_app [OF assms] by metis
  have "TLV_LOOP b = Inr (tlvs (tlv_buff c) @ us)"
    "EXTRACT_CMD_CODE b = Inr (CMDCODE (params c ! q))"
    using handler_view [OF r(3), of "tlvs (tlv_buff c) @ us" "code_unit (CMDCODE (params c ! q))"]
      r(4) code_unit_facts(2) [OF assms(14)] by simp_all
  then show ?thesis using r by blast
qed

theorem command_line_calls_app_witness:
  "\<exists>c' b. parse_input_cmd (Suc 0) ''sh node  42'' demo = Inr (c', COMPLETE, False) \<and>
    calls c' = [(7, 14, b, OPERATIONAL)] \<and>
    TLV_LOOP b = Inr [value_tlv demo_node_leaf ''42''] \<and> EXTRACT_CMD_CODE b = Inr 3"
proof -
  have o: "ordinary demo [''sh'', ''node'', ''42'']"
    by (simp add: ordinary_def demo_fields abbreviates_def strncmp_eq_def has_prefix_def)
  have f: "fits_tokens ''sh node  42''" by (simp add: fits_tokens_def demo_words)
  show ?thesis
    using command_line_calls_app [OF f _ _ demo_fields(3,2) demo_ready _ demo_branch, of
        MODE_UNKNOWN "[value_tlv demo_node_leaf ''42'']" 7 0]
    by (simp del: resolve.simps parse_input_cmd.simps add: demo_words o demo_resolve demo_fields demo_nth demo_leaf_def special_def
        command_mode_def is_int_def) blast
qed

text \<open>
  C16: selecting a child. Among the children of a parameter a command whose name is the token
  is taken before any abbreviation, commands before leaves; a single command that the token
  abbreviates is taken, several are asked about, and without any the last leaf takes the token.
\<close>

theorem find_matching_param_selects:
  assumes "children_ok c qs" "length (matches c str qs) < POSSIBILITY_ARRAY_SIZE"
  shows "find_matching_param c (map Some qs @ None # rest) str =
    (case exacts c str qs of
       e # _ \<Rightarrow> Inr (c, Some e)
     | [] \<Rightarrow> (case matches c str qs of
               [] \<Rightarrow> Inr (c, leaf_of c qs None)
             | [m] \<Rightarrow> Inr (c, Some m)
             | ms \<Rightarrow> choose_param c ms))"
  using find_matching_param_eq [OF assms] by (simp add: select_child_def)

theorem find_matching_param_selects_witness:
  "find_matching_param demo (map Some [10, 11, 12, 2, 5] @ None # []) ''co'' = Inr (demo, Some 5)"
proof -
  have "children_ok demo [10, 11, 12, 2, 5]"
    by (simp add: children_ok_def demo_fields demo_params_def demo_cmd_def zero_param_def)
  moreover have "matches demo ''co'' [10, 11, 12, 2, 5] = [5]"
    by (simp add: matches_def is_cmd_def IS_PARAM_LEAF_def name_of_def demo_fields demo_params_def
        demo_cmd_def zero_param_def)
  moreover have "exacts demo ''co'' [10, 11, 12, 2, 5] = []"
    by (simp add: exacts_def is_cmd_def IS_PARAM_LEAF_def name_of_def demo_fields demo_params_def
        demo_cmd_def zero_param_def)
  ultimately show ?thesis
    using find_matching_param_selects [of demo "[10, 11, 12, 2, 5]" "''co''" "[]"] by simp
qed



text \<open>
  C20: collecting the leaves of a branch. The buffer ends with the units of the leaf parameters
  between the root and the given parameter, in the order in which they are typed. A branch of up
  to ten million parameters fits without overflow of the size of the buffer.
\<close>

theorem leaves_in_order:
  assumes "branch c p ps" "\<forall>q\<in>set ps. typed (params c ! q) \<and> short_value (params c ! q)"
    and "tlv_wf b" "root \<notin> set ps" "root < length (params c)" "IS_PARAM_CMD (params c ! root)"
    and "length ps \<le> MAX_UNITS"
  shows "\<exists>b'. build_cmd_tree_leaves_data c b (Some root) (Some p) = Inr b' \<and> tlv_wf b' \<and>
    tlvs b' = map (\<lambda>q. leaf_tlv (params c ! q)) (filter (\<lambda>q. IS_PARAM_LEAF (params c ! q)) ps)"
  using build_cmd_tree_leaves_data_eq [OF assms(1-6)] assms(7)
    length_filter_le [of "\<lambda>q. IS_PARAM_LEAF (params c ! q)" ps]
  by (simp add: branch_tlvs_def)

theorem leaves_in_order_witness:
  "\<exists>b'. build_cmd_tree_leaves_data demo (tlv_buff demo) (Some root) (Some 14) = Inr b' \<and>
    tlvs b' = [leaf_tlv (demo_params ! 14)]"
proof -
  have "\<forall>q\<in>set [2, 13, 14]. typed (params demo ! q) \<and> short_value (params demo ! q)"
    by (simp add: demo_fields demo_nth typed_def short_value_def demo_cmd_def demo_leaf_def
        zero_param_def)
  moreover have "IS_PARAM_CMD (params demo ! root)"
    by (simp add: demo_fields demo_params_def demo_cmd_def zero_param_def IS_PARAM_CMD_def)
  ultimately show ?thesis
    using leaves_in_order [OF demo_branch, of "tlv_buff demo"] demo_ready
    by (simp add: ready_def demo_fields demo_nth IS_PARAM_LEAF_def demo_cmd_def demo_leaf_def
        zero_param_def MAX_UNITS_def) blast
qed

text \<open>
  The array of offsets. A history file of thirty commands, the number that
  \<open>record_command\<close> keeps, makes \<open>show history\<close> write behind the end of \<open>cmd_offset\<close>.
\<close>

theorem show_history_overflow:
  assumes "hist c = Some (concat (map (\<lambda>l. l @ [NL]) ls))" "MAX_SAVED_CMDS \<le> length ls"
    and "\<forall>l\<in>set ls. NL \<notin> set l \<and> length l < FILE_CMD_SIZE_MAX - 1"
  shows "show_history_callback parse c = Inl OutOfBounds"
proof -
  have "list_history (concat (map (\<lambda>l. l @ [NL]) ls)) offsets acc = Inl OutOfBounds"
    if "MAX_SAVED_CMDS < length offsets + length ls" "length offsets \<le> MAX_SAVED_CMDS"
      "\<forall>l\<in>set ls. NL \<notin> set l \<and> length l < FILE_CMD_SIZE_MAX - 1" for ls offsets acc
    using that
  proof (induction ls arbitrary: offsets acc)
    case (Cons l ls)
    have "fgets FILE_CMD_SIZE_MAX (concat (map (\<lambda>l. l @ [NL]) (l # ls))) =
        Some (l @ [NL], concat (map (\<lambda>l. l @ [NL]) ls))"
      using Cons.prems(3) by (simp add: fgets_line)
    then show ?case
      using Cons.IH [of "offsets @ [concat (map (\<lambda>l. l @ [NL]) ls)]"] Cons.prems
      by (subst list_history.simps) auto
  qed simp
  then show ?thesis using assms by (simp add: show_history_callback_def)
qed

theorem show_history_overflow_witness:
  "show_history_callback (parse_input_cmd 5)
     ((demo)\<lparr>hist := Some (concat (replicate 30 (''cls'' @ [NL])))\<rparr>) = Inl OutOfBounds"
proof -
  have "concat (replicate 30 (''cls'' @ [NL])) = concat (map (\<lambda>l. l @ [NL]) (replicate 30 ''cls''))"
    by simp
  then show ?thesis
    using show_history_overflow [of "demo\<lparr>hist := Some (concat (replicate 30 (''cls'' @ [NL])))\<rparr>"
        "replicate 30 ''cls''"] by simp
qed

lemma build_mode_console_name_buff:
  "build_mode_console_name p c = Inr c' \<Longrightarrow> tlv_buff c' = tlv_buff c"
  by (auto simp: build_mode_console_name_def console_base_def tokenize_into_def set_console_def
      elim!: rbindE split: if_splits)

lemma set_leaf_value_keeps:
  "set_leaf_value c p v = Inr c' \<Longrightarrow> tlv_buff c' = tlv_buff c"
  by (auto simp: set_leaf_value_def set_param_def elim!: rbindE split: if_splits)

text \<open>
  Loading a file of commands while the cursor is at a leaf empties the buffer and its mark
  but leaves the cursor. Going one level up then rewinds the empty buffer to a negative offset,
  and the next leaf or command code is written in front of the buffer.
\<close>

theorem load_file_then_up_underflows:
  assumes "files c f = Some []" "cursor c = Some p" "p \<noteq> root" "p < length (params c)"
    and "param_type (params c ! p) = LEAF" "parent (params c ! p) = Some q" "q \<noteq> root"
    and "tlv_wf (tlv_buff c)"
    and "parse_file parse f c = Inr c1" "go_one_level_up_cmd_tree (cursor c1) c1 = Inr c2"
  shows "sb_next (tlv_buff c2) = -100 \<and>
    (\<forall>t. tlv_ok t \<longrightarrow> collect_tlv (tlv_buff c2) t = Inl OutOfBounds)"
proof -
  have c1: "c1 = place_console True (c\<lparr>recording := False,
      tlv_buff := reset_serialize_buffer (tlv_buff c)\<rparr>)"
    using assms(1,9) by (simp add: parse_file_def parse_lines.simps fgets_def)
  let ?b = "reset_serialize_buffer (tlv_buff c)"
  have sz: "0 < sb_size (tlv_buff c)" using assms(8) by (simp add: tlv_wf_def sb_wf_def)
  have skip: "serialize_buffer_skip ?b (- int TLV_SIZE) = Inr (?b\<lparr>sb_next := -100\<rparr>)"
    using sz by (simp add: serialize_buffer_skip_def reset_serialize_buffer_def)
  obtain c3 b b' where c3: "set_leaf_value c1 p [] = Inr c3"
    and b: "serialize_buffer_skip (tlv_buff c3) (- int TLV_SIZE) = Inr b"
    and b': "mark_checkpoint_serialize_buffer (Some b) = Inr b'"
    and c2: "build_mode_console_name (Some q) (c3\<lparr>tlv_buff := b', cursor := Some q\<rparr>) = Inr c2"
    using assms(2-7,10) c1
    by (auto simp: go_one_level_up_cmd_tree_def place_console_def IS_PARAM_LEAF_def
        set_cmd_tree_cursor_def param_at_def elim!: rbindE split: if_splits)
  have "tlv_buff c3 = ?b" using set_leaf_value_keeps [OF c3] c1 by (simp add: place_console_def)
  then have "b' = ?b\<lparr>sb_next := -100, sb_checkpoint := -100\<rparr>"
    using b b' skip by (auto simp: mark_checkpoint_serialize_buffer_def)
  then have "tlv_buff c2 = ?b\<lparr>sb_next := -100, sb_checkpoint := -100\<rparr>"
    using build_mode_console_name_buff [OF c2] by simp
  moreover have "grow False (sb_size ?b) (-100) 100 = Some (Inr (sb_size ?b))"
    using sz by (intro grow_fits) (simp add: reset_serialize_buffer_def)
  ultimately show ?thesis
    by (auto simp: collect_tlv_def serialize_string_def length_enc_tlv serialize_primitive_def
        store_def)
qed

theorem load_file_then_up_underflows_witness:
  "\<exists>c1 c2. parse_file (parse_input_cmd 0) ''f'' (demo\<lparr>cursor := Some 14, files := (\<lambda>f. Some [])\<rparr>) = Inr c1 \<and>
    go_one_level_up_cmd_tree (cursor c1) c1 = Inr c2 \<and> sb_next (tlv_buff c2) = -100"
proof -
  let ?c = "demo\<lparr>cursor := Some 14, files := (\<lambda>f. Some [])\<rparr>"
  have "\<exists>x. rbind (parse_file (parse_input_cmd 0) ''f'' ?c) (\<lambda>c1.
      go_one_level_up_cmd_tree (cursor c1) c1) = Inr x"
    by (rule not_isl_Inr) code_simp
  then obtain c2 where "rbind (parse_file (parse_input_cmd 0) ''f'' ?c) (\<lambda>c1.
      go_one_level_up_cmd_tree (cursor c1) c1) = Inr c2"
    by (elim exE)
  then obtain c1 where c: "parse_file (parse_input_cmd 0) ''f'' ?c = Inr c1"
    "go_one_level_up_cmd_tree (cursor c1) c1 = Inr c2"
    by (elim rbindE)
  have "tlv_wf (tlv_buff ?c)" using demo_ready by (simp add: ready_def)
  then show ?thesis
    using load_file_then_up_underflows [of ?c "''f''" 14 13 "parse_input_cmd 0", OF _ _ _ _ _ _ _ _ c] c
    by (simp add: demo_fields demo_nth demo_leaf_def)
qed

end
