(* ===== verification/TreeBuild.thy ===== *)
theory TreeBuild
  imports TreeFacts CmdBoot
begin

text \<open>
  Building a command tree. A sketch of the tree is what the pool of parameters holds but for
  help texts and values; every operation that builds trees acts on sketches, so the tree that a
  sequence of registrations makes is computed without the rest of the state.
\<close>

section \<open>Sketches\<close>

definition sketch_of :: "param \<Rightarrow> param" where
  "sketch_of x = (erase x)\<lparr>help_str := []\<rparr>"

definition sketch :: "cli \<Rightarrow> param list" where
  "sketch c = map sketch_of (params c)"

lemma sketch_of_fields [simp]:
  "param_type (sketch_of x) = param_type x" "callback (sketch_of x) = callback x"
  "ishidden (sketch_of x) = ishidden x" "options (sketch_of x) = options x"
  "parent (sketch_of x) = parent x" "disp_callback (sketch_of x) = disp_callback x"
  "CMDCODE (sketch_of x) = CMDCODE x" "IS_PARAM_LEAF (sketch_of x) = IS_PARAM_LEAF x"
  "GET_CMD_NAME (sketch_of x) = GET_CMD_NAME x"
  by (simp_all add: sketch_of_def IS_PARAM_LEAF_def GET_CMD_NAME_def erase_def
      split: cmd_union.splits)

lemma sketch_of_update:
  "sketch_of (x\<lparr>options := os\<rparr>) = (sketch_of x)\<lparr>options := os\<rparr>"
  "sketch_of (x\<lparr>parent := q\<rparr>) = (sketch_of x)\<lparr>parent := q\<rparr>"
  "sketch_of (x\<lparr>CMDCODE := n\<rparr>) = (sketch_of x)\<lparr>CMDCODE := n\<rparr>"
  "sketch_of (x\<lparr>ishidden := b\<rparr>) = (sketch_of x)\<lparr>ishidden := b\<rparr>"
  "sketch_of (x\<lparr>disp_callback := f\<rparr>) = (sketch_of x)\<lparr>disp_callback := f\<rparr>"
  by (simp_all add: sketch_of_def erase_def split: cmd_union.splits)

lemma erase_idem [simp]: "erase (erase x) = erase x"
  by (auto simp: erase_def split: cmd_union.splits)

lemma sketch_of_idem [simp]: "sketch_of (sketch_of x) = sketch_of x"
  by (cases "cmd_type x") (simp_all add: sketch_of_def erase_def)

lemma sketch_shape: "shape c = shape c' \<Longrightarrow> sketch c = sketch c'"
proof -
  have "sketch c = map (\<lambda>x. x\<lparr>help_str := []\<rparr>) (shape c)" for c
    by (simp add: sketch_def shape_def sketch_of_def)
  then show "shape c = shape c' \<Longrightarrow> sketch c = sketch c'" by metis
qed

lemma length_sketch [simp]: "length (sketch c) = length (params c)"
  by (simp add: sketch_def)

lemma nth_sketch [simp]: "p < length (params c) \<Longrightarrow> sketch c ! p = sketch_of (params c ! p)"
  by (simp add: sketch_def)

lemma sketch_update:
  "sketch (c\<lparr>params := (params c)[p := x]\<rparr>) = (sketch c)[p := sketch_of x]"
  by (simp add: sketch_def map_update)

lemma sketch_other [simp]:
  "sketch (c\<lparr>out := a1\<rparr>) = sketch c" "sketch (c\<lparr>tlv_buff := a2\<rparr>) = sketch c"
  "sketch (c\<lparr>cursor := a3\<rparr>) = sketch c" "sketch (c\<lparr>console_name := a4\<rparr>) = sketch c"
  "sketch (c\<lparr>token_arr := a5\<rparr>) = sketch c" "sketch (c\<lparr>code_tlv := a6\<rparr>) = sketch c"
  "sketch (c\<lparr>params := ps\<rparr>) = map sketch_of ps"
  by (simp_all add: sketch_def)

section \<open>Builders\<close>

type_synonym builder = "param list \<Rightarrow> param list option"

text \<open>
  \<open>builds f g\<close>: where the builder \<open>g\<close> succeeds on the sketch, the operation \<open>f\<close> returns, changes
  the tree in that way and nothing else.
\<close>

definition builds :: "(cli \<Rightarrow> cli res) \<Rightarrow> builder \<Rightarrow> bool" where
  "builds f g \<longleftrightarrow> (\<forall>c ps. g (sketch c) = Some ps \<longrightarrow>
     (\<exists>qs. f c = Inr (c\<lparr>params := qs\<rparr>) \<and> map sketch_of qs = ps))"

lemma buildsI:
  "(\<And>c ps. g (sketch c) = Some ps \<Longrightarrow> \<exists>qs. f c = Inr (c\<lparr>params := qs\<rparr>) \<and> map sketch_of qs = ps) \<Longrightarrow>
   builds f g"
  by (simp add: builds_def)

lemma buildsE:
  assumes "builds f g" "g (sketch c) = Some ps"
  obtains qs where "f c = Inr (c\<lparr>params := qs\<rparr>)" "sketch (c\<lparr>params := qs\<rparr>) = ps"
  using assms unfolding builds_def sketch_other by blast

fun build_all :: "builder list \<Rightarrow> builder" where
  "build_all [] ps = Some ps"
| "build_all (g # gs) ps = (case g ps of None \<Rightarrow> None | Some qs \<Rightarrow> build_all gs qs)"

lemma build_all_append:
  "build_all (gs @ hs) ps = (case build_all gs ps of None \<Rightarrow> None | Some qs \<Rightarrow> build_all hs qs)"
  by (induction gs arbitrary: ps) (auto split: option.splits)

lemma builds_steps: "list_all2 builds fs gs \<Longrightarrow> builds (run_steps fs) (build_all gs)"
proof (induction rule: list_all2_induct)
  case Nil
  have "run_steps [] c = Inr (c\<lparr>params := params c\<rparr>)" for c by simp
  then show ?case by (intro buildsI exI conjI) (auto simp: sketch_def)
next
  case (Cons f fs g gs)
  show ?case
  proof (rule buildsI)
    fix c ps
    assume "build_all (g # gs) (sketch c) = Some ps"
    then obtain ps1 where 1: "g (sketch c) = Some ps1" "build_all gs ps1 = Some ps"
      by (auto split: option.splits)
    obtain qs1 where 2: "f c = Inr (c\<lparr>params := qs1\<rparr>)" "sketch (c\<lparr>params := qs1\<rparr>) = ps1"
      using buildsE [OF Cons.hyps(1) 1(1)] by blast
    then obtain qs where "run_steps fs (c\<lparr>params := qs1\<rparr>) = Inr (c\<lparr>params := qs\<rparr>)" "map sketch_of qs = ps"
      using buildsE [OF Cons.IH, of "c\<lparr>params := qs1\<rparr>" ps] 1(2) by auto
    then show "\<exists>qs. run_steps (f # fs) c = Inr (c\<lparr>params := qs\<rparr>) \<and> map sketch_of qs = ps"
      using 2 by auto
  qed
qed

section \<open>The operations as builders\<close>

definition b_upd :: "pref \<Rightarrow> (param \<Rightarrow> param) \<Rightarrow> builder" where
  "b_upd p f ps = (if p < length ps then Some (ps[p := f (ps ! p)]) else None)"

definition plain_node :: "param_type \<Rightarrow> cmd_union \<Rightarrow> callback option \<Rightarrow> param" where
  "plain_node ty u cb =
     \<lparr>param_type = ty, cmd_type = u, callback = cb, ishidden = False, help_str = [],
      options = replicate MAX_OPTION_SIZE None, parent = None, disp_callback = None, CMDCODE = -1\<rparr>"

definition b_cmd :: "pref \<Rightarrow> string \<Rightarrow> callback option \<Rightarrow> builder" where
  "b_cmd p n cb = b_upd p (\<lambda>_. plain_node CMD (CmdPtr (take (CMD_NAME_SIZE - 1) n)) cb)"

definition b_leaf ::
    "pref \<Rightarrow> callback option \<Rightarrow> (string \<Rightarrow> int \<times> string list) option \<Rightarrow> leaf_type \<Rightarrow> string \<Rightarrow> builder" where
  "b_leaf p cb ucb lt i = b_upd p (\<lambda>_. plain_node LEAF (LeafPtr \<lparr>lf_type = lt, value_holder = [],
     user_validation_cb_fn = ucb, lf_id = take (LEAF_ID_SIZE - 1) i\<rparr>) cb)"

definition b_code :: "pref \<Rightarrow> int \<Rightarrow> builder" where
  "b_code p n ps =
     (if p < length ps \<and> callback (ps ! p) \<noteq> None then b_upd p (\<lambda>x. x\<lparr>CMDCODE := n\<rparr>) ps else None)"

definition b_under :: "pref \<Rightarrow> pref \<Rightarrow> builder" where
  "b_under q p ps =
     (if p < length ps \<and> q < length ps then
        (let os = fill_default CMD_EXPANSION_INDEX cmd_expansion_param
                    (fill_default SUBOPTIONS_INDEX suboptions_param
                      (fill_default MODE_PARAM_INDEX mode_param (options (ps ! q))))
         in case free_slot CHILDREN_START_INDEX (drop CHILDREN_START_INDEX os) of
              None \<Rightarrow> None
            | Some i \<Rightarrow>
                (let ps1 = ps[q := (ps ! q)\<lparr>options := os[i := Some p]\<rparr>]
                 in Some (ps1[p := (ps1 ! p)\<lparr>parent := Some q\<rparr>])))
      else None)"

definition b_option :: "pref \<Rightarrow> nat \<Rightarrow> pref option \<Rightarrow> builder" where
  "b_option p i q ps =
     (if p < length ps \<and> i < length (options (ps ! p))
      then b_upd p (\<lambda>x. x\<lparr>options := (options x)[i := q]\<rparr>) ps else None)"

definition b_display :: "pref \<Rightarrow> (pref \<Rightarrow> ser_buff \<Rightarrow> string list) option \<Rightarrow> builder" where
  "b_display p f ps =
     (if p < length ps \<and> param_type (ps ! p) \<noteq> NO_CMD then b_upd p (\<lambda>x. x\<lparr>disp_callback := f\<rparr>) ps
      else None)"

text \<open>
  At most \<open>k\<close> commands among the options that the word abbreviates, none of them a negation: the
  word \<open>no\<close> abbreviates \<open>node\<close>.
\<close>

fun few_matches :: "param list \<Rightarrow> string \<Rightarrow> pref option list \<Rightarrow> nat \<Rightarrow> bool" where
  "few_matches ps str [] k = False"
| "few_matches ps str (None # qs) k = True"
| "few_matches ps str (Some q # qs) k =
     (q < length ps \<and>
      (if param_type (ps ! q) = LEAF then few_matches ps str qs k
       else case cmd_type (ps ! q) of
              CmdPtr n \<Rightarrow>
                if strncmp_eq n str (length str)
                then length str \<noteq> length n \<and> param_type (ps ! q) \<noteq> NO_CMD \<and> 0 < k \<and>
                     few_matches ps str qs (k - 1)
                else few_matches ps str qs k
            | _ \<Rightarrow> False))"

text \<open>The child of the root above a parameter, within \<open>n\<close> steps.\<close>

fun hook_up :: "nat \<Rightarrow> param list \<Rightarrow> pref \<Rightarrow> pref option" where
  "hook_up 0 ps p = None"
| "hook_up (Suc n) ps p =
     (if p < length ps
      then (case parent (ps ! p) of
              None \<Rightarrow> None
            | Some q \<Rightarrow> if q = root then Some p else hook_up n ps q)
      else None)"

definition b_negate :: "pref \<Rightarrow> builder" where
  "b_negate p ps =
     (if p < length ps \<and> p \<noteq> root \<and> hook_up 16 ps p = Some config \<and>
         few_matches ps ''no'' (options (ps ! p)) 1
      then (let os = options (ps ! p) in
            case free_slot CHILDREN_START_INDEX (drop CHILDREN_START_INDEX os) of
              None \<Rightarrow> None
            | Some i \<Rightarrow>
                Some (ps[p := (ps ! p)\<lparr>options := os[i := Some (length ps)]\<rparr>] @
                  [(plain_node NO_CMD (CmdPtr ''no'') (Some Negate))
                     \<lparr>options := [Some suboptions_param, Some suboptions_param, Some cmd_expansion_param] @
                        take (i - CHILDREN_START_INDEX) (drop CHILDREN_START_INDEX os) @
                        replicate (MAX_OPTION_SIZE - i) None, parent := Some p\<rparr>]))
      else None)"

section \<open>They are\<close>

lemma builds_upd:
  assumes "\<And>x. sketch_of (f x) = g (sketch_of x)"
  shows "builds (\<lambda>c. upd_param c p f) (b_upd p g)"
proof (rule buildsI)
  fix c ps
  assume "b_upd p g (sketch c) = Some ps"
  then have "p < length (params c)" "ps = (sketch c)[p := sketch_of (f (params c ! p))]"
    by (auto simp: b_upd_def assms split: if_splits)
  then show "\<exists>qs. upd_param c p f = Inr (c\<lparr>params := qs\<rparr>) \<and> map sketch_of qs = ps"
    by (intro exI [of _ "(params c)[p := f (params c ! p)]"]) (simp add: map_update sketch_def)
qed

lemma builds_cmd: "builds (cmd_param p n cb h) (b_cmd p n cb)"
proof -
  have "cmd_param p n cb h = (\<lambda>c. upd_param c p (\<lambda>x. x\<lparr>param_type := CMD,
      cmd_type := CmdPtr (take (CMD_NAME_SIZE - 1) n), ishidden := False, parent := None, callback := cb,
      help_str := (put_at 0 (take (min PARAM_HELP_STRING_SIZE (length h)) h) (help_str x))
                    [PARAM_HELP_STRING_SIZE - 1 := NUL],
      disp_callback := None, options := replicate MAX_OPTION_SIZE None, CMDCODE := -1\<rparr>))"
    by (rule ext) (simp add: cmd_param_def init_param_def init_cmd_type_def upd_param_def)
  then show ?thesis
    by (simp only: b_cmd_def, intro builds_upd)
       (simp add: sketch_of_def erase_def plain_node_def)
qed

lemma builds_leaf: "builds (leaf_param p cb ucb lt i h) (b_leaf p cb ucb lt i)"
proof -
  have "leaf_param p cb ucb lt i h = (\<lambda>c. upd_param c p (\<lambda>x. x\<lparr>param_type := LEAF,
      cmd_type := LeafPtr \<lparr>lf_type = lt, value_holder = [], user_validation_cb_fn = ucb,
        lf_id = take (LEAF_ID_SIZE - 1) i\<rparr>, ishidden := False, parent := None, callback := cb,
      help_str := (put_at 0 (take (min PARAM_HELP_STRING_SIZE (length h)) h) (help_str x))
                    [PARAM_HELP_STRING_SIZE - 1 := NUL],
      disp_callback := None, options := replicate MAX_OPTION_SIZE None, CMDCODE := -1\<rparr>))"
    by (rule ext) (simp add: leaf_param_def init_param_def init_cmd_type_def upd_param_def)
  then show ?thesis
    by (simp only: b_leaf_def, intro builds_upd)
       (simp add: sketch_of_def erase_def plain_node_def)
qed

lemma builds_hide: "builds (HIDE_PARAM p) (b_upd p (\<lambda>x. x\<lparr>ishidden := True\<rparr>))"
  using builds_upd [of "\<lambda>x. x\<lparr>ishidden := True\<rparr>" "\<lambda>x. x\<lparr>ishidden := True\<rparr>" p]
  by (simp add: HIDE_PARAM_def [abs_def] sketch_of_update)

lemma builds_code: "builds (set_param_cmd_code p n) (b_code p n)"
proof (rule buildsI)
  fix c ps
  assume a: "b_code p n (sketch c) = Some ps"
  then have p: "p < length (params c)" "callback (params c ! p) \<noteq> None"
    by (auto simp: b_code_def split: if_splits)
  then have "b_upd p (\<lambda>x. x\<lparr>CMDCODE := n\<rparr>) (sketch c) = Some ps"
    using a by (simp add: b_code_def split: if_splits)
  then obtain qs where "upd_param c p (\<lambda>x. x\<lparr>CMDCODE := n\<rparr>) = Inr (c\<lparr>params := qs\<rparr>)"
    "map sketch_of qs = ps"
    using builds_upd [of "\<lambda>x. x\<lparr>CMDCODE := n\<rparr>" "\<lambda>x. x\<lparr>CMDCODE := n\<rparr>" p] sketch_of_update(3)
    unfolding builds_def by blast
  then show "\<exists>qs. set_param_cmd_code p n c = Inr (c\<lparr>params := qs\<rparr>) \<and> map sketch_of qs = ps"
    using p by (intro exI [of _ qs]) (simp add: set_param_cmd_code_def)
qed

lemma builds_display: "builds (libcli_register_display_callback p f) (b_display p f)"
proof (rule buildsI)
  fix c ps
  assume a: "b_display p f (sketch c) = Some ps"
  then have p: "p < length (params c)" "\<not> IS_PARAM_NO_CMD (params c ! p)"
    by (auto simp: b_display_def IS_PARAM_NO_CMD_def split: if_splits)
  have "ps = (sketch c)[p := sketch_of ((params c ! p)\<lparr>disp_callback := f\<rparr>)]"
    using a p(1) by (auto simp: b_display_def b_upd_def sketch_of_update split: if_splits)
  then show "\<exists>qs. libcli_register_display_callback p f c = Inr (c\<lparr>params := qs\<rparr>) \<and> map sketch_of qs = ps"
    using p by (intro exI [of _ "(params c)[p := (params c ! p)\<lparr>disp_callback := f\<rparr>]"])
      (simp add: libcli_register_display_callback_def map_update sketch_def)
qed

lemma builds_option: "builds (\<lambda>c. set_option c p i q) (b_option p i q)"
proof (rule buildsI)
  fix c ps
  assume a: "b_option p i q (sketch c) = Some ps"
  then have p: "p < length (params c)" "i < length (options (params c ! p))"
    "ps = (sketch c)[p := sketch_of ((params c ! p)\<lparr>options := (options (params c ! p))[i := q]\<rparr>)]"
    by (auto simp: b_option_def b_upd_def sketch_of_update split: if_splits)
  then show "\<exists>qs. set_option c p i q = Inr (c\<lparr>params := qs\<rparr>) \<and> map sketch_of qs = ps"
    by (intro exI [of _ "(params c)[p := (params c ! p)\<lparr>options := (options (params c ! p))[i := q]\<rparr>]"])
       (simp add: set_option_def map_update sketch_def)
qed

lemma builds_register: "builds (libcli_register_param par p) (b_under (case par of None \<Rightarrow> root | Some q \<Rightarrow> q) p)"
proof (rule buildsI)
  fix c ps
  define q where "q = (case par of None \<Rightarrow> root | Some q \<Rightarrow> q)"
  assume a: "b_under (case par of None \<Rightarrow> root | Some q \<Rightarrow> q) p (sketch c) = Some ps"
  let ?os = "fill_default CMD_EXPANSION_INDEX cmd_expansion_param
      (fill_default SUBOPTIONS_INDEX suboptions_param
        (fill_default MODE_PARAM_INDEX mode_param (options (params c ! q))))"
  from a obtain i where p: "p < length (params c)" "q < length (params c)"
    and i: "free_slot CHILDREN_START_INDEX (drop CHILDREN_START_INDEX ?os) = Some i"
    and ps: "ps = (let ps1 = (sketch c)[q := (sketch c ! q)\<lparr>options := ?os[i := Some p]\<rparr>]
                   in ps1[p := (ps1 ! p)\<lparr>parent := Some q\<rparr>])"
    by (auto simp: b_under_def q_def [symmetric] Let_def split: if_splits option.splits)
  define qs1 where "qs1 = (params c)[q := (params c ! q)\<lparr>options := ?os[i := Some p]\<rparr>]"
  have 1: "map sketch_of qs1 = (sketch c)[q := (sketch c ! q)\<lparr>options := ?os[i := Some p]\<rparr>]"
    using p by (simp add: qs1_def map_update sketch_def sketch_of_update)
  have len: "length qs1 = length (params c)" by (simp add: qs1_def)
  have "map sketch_of (qs1[p := (qs1 ! p)\<lparr>parent := Some q\<rparr>]) =
      (map sketch_of qs1)[p := (map sketch_of qs1 ! p)\<lparr>parent := Some q\<rparr>]"
    using p len by (simp add: map_update sketch_of_update)
  then have "map sketch_of (qs1[p := (qs1 ! p)\<lparr>parent := Some q\<rparr>]) = ps"
    unfolding 1 ps Let_def .
  moreover have "libcli_register_param par p c =
      Inr (c\<lparr>params := qs1[p := (qs1 ! p)\<lparr>parent := Some q\<rparr>]\<rparr>)"
    using p i by (simp add: libcli_register_param_def Let_def q_def [symmetric] qs1_def)
  ultimately show "\<exists>qs. libcli_register_param par p c = Inr (c\<lparr>params := qs\<rparr>) \<and> map sketch_of qs = ps"
    by blast
qed

lemma builds_under: "builds (under q p) (b_under q p)" "builds (libcli_register_param None p) (b_under root p)"
  using builds_register [of "Some q" p] builds_register [of None p] by (simp_all add: under_def [abs_def])

lemma hook_up_branch:
  "hook_up n (sketch c) p = Some h \<Longrightarrow> branch_loop c p = Some (Inr h)"
proof (induction n arbitrary: p)
  case (Suc n)
  then have p: "p < length (params c)" by (simp split: if_splits)
  then obtain q where q: "parent (params c ! p) = Some q"
    "(if q = root then Some p else hook_up n (sketch c) q) = Some h"
    using Suc.prems by (auto split: option.splits)
  then show ?case using Suc.IH [of q] p by (subst branch_loop.simps) (auto split: if_splits)
qed simp

lemma few_matches_find:
  assumes "few_matches (sketch c) str os k" "length possible + k < POSSIBILITY_ARRAY_SIZE"
  shows "\<exists>lf' ms. find_loop c str os lf possible = Inr (lf', possible @ ms) \<and> length ms \<le> k \<and>
    (\<forall>q \<in> set ms. q < length (params c) \<and> \<not> IS_PARAM_NO_CMD (params c ! q)) \<and>
    (lf' = lf \<or> (\<exists>q. lf' = Some q \<and> q < length (params c) \<and> \<not> IS_PARAM_NO_CMD (params c ! q)))"
  using assms
proof (induction os arbitrary: lf possible k)
  case (Cons o' os)
  show ?case
  proof (cases o')
    case None
    then show ?thesis by simp
  next
    case (Some q)
    with Cons.prems have q: "q < length (params c)" by simp
    consider (leaf) "param_type (params c ! q) = LEAF" "few_matches (sketch c) str os k"
      | (other) n where "param_type (params c ! q) \<noteq> LEAF" "GET_CMD_NAME (params c ! q) = Inr n"
          "\<not> strncmp_eq n str (length str)" "few_matches (sketch c) str os k"
      | (short) n where "param_type (params c ! q) \<noteq> LEAF" "GET_CMD_NAME (params c ! q) = Inr n"
          "strncmp_eq n str (length str)" "length str \<noteq> length n" "param_type (params c ! q) \<noteq> NO_CMD"
          "0 < k" "few_matches (sketch c) str os (k - 1)"
      using Cons.prems Some q
      by (auto simp: sketch_of_def erase_def GET_CMD_NAME_def split: cmd_union.splits if_splits)
    then show ?thesis
    proof cases
      case leaf
      then show ?thesis using Cons.IH [OF leaf(2) Cons.prems(2), of "Some q"] Some q
        by (auto simp: IS_PARAM_LEAF_def IS_PARAM_NO_CMD_def)
    next
      case other
      then show ?thesis using Cons.IH [OF other(4) Cons.prems(2), of lf] Some q
        by (auto simp: IS_PARAM_LEAF_def is_cmd_string_match_def)
    next
      case short
      have "length (possible @ [q]) + (k - 1) < POSSIBILITY_ARRAY_SIZE" using Cons.prems(2) short(6) by simp
      from Cons.IH [OF short(7) this, of lf] obtain lf' ms where
        "find_loop c str os lf (possible @ [q]) = Inr (lf', possible @ q # ms)" "length ms \<le> k - 1"
        "\<forall>q \<in> set ms. q < length (params c) \<and> \<not> IS_PARAM_NO_CMD (params c ! q)"
        "lf' = lf \<or> (\<exists>q. lf' = Some q \<and> q < length (params c) \<and> \<not> IS_PARAM_NO_CMD (params c ! q))"
        by auto
      then show ?thesis using short Some q Cons.prems(2)
        by (intro exI [of _ lf'] exI [of _ "q # ms"])
           (auto simp: IS_PARAM_LEAF_def IS_PARAM_NO_CMD_def is_cmd_string_match_def)
    qed
  qed
qed simp

lemma builds_negate: "builds (support_cmd_negation p) (b_negate p)"
proof (rule buildsI)
  fix c ps
  assume a: "b_negate p (sketch c) = Some ps"
  let ?os = "options (params c ! p)"
  from a have p: "p < length (params c)" "p \<noteq> root" "hook_up 16 (sketch c) p = Some config"
    "few_matches (sketch c) ''no'' ?os 1"
    by (auto simp: b_negate_def split: if_splits)
  with a obtain i where i: "free_slot CHILDREN_START_INDEX (drop CHILDREN_START_INDEX ?os) = Some i"
    by (auto simp: b_negate_def Let_def split: if_splits option.splits)
  define x where "x = (plain_node NO_CMD (CmdPtr ''no'') (Some Negate))
      \<lparr>options := [Some suboptions_param, Some suboptions_param, Some cmd_expansion_param] @
         take (i - CHILDREN_START_INDEX) (drop CHILDREN_START_INDEX ?os) @
         replicate (MAX_OPTION_SIZE - i) None, parent := Some p\<rparr>"
  have ps: "ps = (sketch c)[p := sketch_of ((params c ! p)\<lparr>options := ?os[i := Some (length (params c))]\<rparr>)] @ [x]"
    using a p i by (simp add: b_negate_def Let_def x_def sketch_of_update split: if_splits)
  have hook: "get_current_branch_hook c (Some p) = Inr config"
    using hook_up_branch [OF p(3)] p(2) by (simp add: get_current_branch_hook_def)
  obtain lf where lf: "find_matching_param c ?os ''no'' = Inr (c, lf)"
    "(case lf of None \<Rightarrow> Inr False | Some q \<Rightarrow> rbind (param_at c q) (\<lambda>y. Inr (IS_PARAM_NO_CMD y))) = Inr False"
    using few_matches_find [OF p(4), of "[]" None]
    by (auto simp: find_matching_param_def IS_PARAM_NO_CMD_def neq_Nil_conv le_Suc_eq length_Suc_conv)
  define y where "y = x\<lparr>help_str := (put_at 0 (take (min PARAM_HELP_STRING_SIZE
      (length ''Command Negation'')) ''Command Negation'') (help_str zero_param))
        [PARAM_HELP_STRING_SIZE - 1 := NUL]\<rparr>"
  let ?n = "length (params c)"
  let ?qs = "((params c)[p := (params c ! p)\<lparr>options := ?os[i := Some ?n]\<rparr>]) @ [y]"
  have "support_cmd_negation p c = Inr (c\<lparr>params := ?qs\<rparr>)"
    using hook lf p(1) i
    by (simp add: support_cmd_negation_def init_param_def init_cmd_type_def Let_def param_at_def
        set_param_def upd_param_def nth_append list_update_append y_def x_def plain_node_def zero_param_def
        del: length_put_at)
  moreover have "sketch_of y = x" by (simp add: y_def x_def sketch_of_def erase_def plain_node_def)
  then have "map sketch_of ?qs = ps" using ps by (simp add: map_update sketch_def)
  ultimately show "\<exists>qs. support_cmd_negation p c = Inr (c\<lparr>params := qs\<rparr>) \<and> map sketch_of qs = ps"
    by blast
qed

lemmas builds_ops = builds_cmd builds_leaf builds_hide builds_code builds_display builds_option builds_under builds_negate

end
