(* ===== verification/CourseBuffer.thy ===== *)
theory CourseBuffer
  imports Demarcar
begin

text \<open>
  The ring buffer and the message demarcation of the edition of the library under \<^verbatim>\<open>Course\<close>. Its
  \<open>BCBRead\<close> and the delivery loop of its fixed-size demarcar are its own
  (\<^verbatim>\<open>Course/ByteCircularBuffer.cpp\<close>, \<^verbatim>\<open>Course/TcpMsgFixedSizeDemarcar.cpp\<close>); the other functions are
  written as in the current edition and are not repeated.
\<close>

section \<open>Operations\<close>

text \<open>The second part of a wrapped read is copied over the first.\<close>

definition BCBRead_course :: "bcb \<Rightarrow> byte list \<Rightarrow> u16 \<Rightarrow> bool \<Rightarrow> (u16 \<times> byte list \<times> bcb) res" where
  "BCBRead_course b dest data_size remove_read_bytes =
     (if current_size b < data_size then Inr (0, dest, b)
      else if rear b < front b then
        rbind (memcpy dest 0 (buffer b) (unat (rear b)) (unat data_size)) (\<lambda>d.
        Inr (data_size, d,
             if remove_read_bytes
             then b\<lparr>rear := advance (buffer_size b) (rear b) data_size,
                    current_size := current_size b - data_size\<rparr>
             else b))
      else
        (let leading_space = buffer_size b - rear b in
         if data_size \<le> leading_space then
           rbind (memcpy dest 0 (buffer b) (unat (rear b)) (unat data_size)) (\<lambda>d.
           Inr (data_size, d,
                if remove_read_bytes
                then b\<lparr>rear := advance (buffer_size b) (rear b) data_size,
                       current_size := current_size b - data_size\<rparr>
                else b))
         else
           rbind (memcpy dest 0 (buffer b) (unat (rear b)) (unat leading_space)) (\<lambda>d.
           rbind (memcpy d 0 (buffer b) 0 (unat (data_size - leading_space))) (\<lambda>d'.
           Inr (data_size, d',
                if remove_read_bytes
                then b\<lparr>rear := data_size - leading_space,
                       current_size := current_size b - data_size\<rparr>
                else b)))))"

text \<open>The loop that reads as long as it gets something.\<close>

partial_function (option) fixed_loop_course ::
    "u16 \<Rightarrow> bool \<Rightarrow> bcb \<Rightarrow> byte list \<Rightarrow> byte list list \<Rightarrow> (bcb \<times> byte list \<times> byte list list) res option"
where
  "fixed_loop_course n cb b buf out =
     (case BCBRead_course b buf n True of
        Inl e \<Rightarrow> Some (Inl e)
      | Inr (bytes_read, buf', b') \<Rightarrow>
          if bytes_read = 0 then Some (Inr (b', buf', out))
          else if cb then fixed_loop_course n cb b' buf' (out @ [take (unat bytes_read) buf'])
          else Some (Inl NullDeref))"

declare fixed_loop_course.simps [code]

definition read_header_course :: "bcb \<Rightarrow> u16 res" where
  "read_header_course b = rbind (BCBRead_course b [0, 0] HDR_MSG_SIZE False) (\<lambda>(_, h, _). Inr (le16 h))"

definition variable_ready_course :: "bcb \<Rightarrow> bool res" where
  "variable_ready_course b =
     (if current_size b \<le> HDR_MSG_SIZE then Inr False
      else rbind (read_header_course b) (\<lambda>msg_size. Inr (msg_size \<le> current_size b)))"

partial_function (option) variable_loop_course ::
    "bool \<Rightarrow> bcb \<Rightarrow> byte list \<Rightarrow> byte list list \<Rightarrow> (bcb \<times> byte list \<times> byte list list) res option"
where
  "variable_loop_course cb b buf out =
     (case variable_ready_course b of
        Inl e \<Rightarrow> Some (Inl e)
      | Inr ready \<Rightarrow>
          if \<not> ready then Some (Inr (b, buf, out))
          else (case rbind (read_header_course b) (\<lambda>msg_size.
                     rbind (BCBRead_course b buf msg_size True) (\<lambda>(r, buf', b').
                     rbind (require (msg_size = r) AssertFail) (\<lambda>_.
                     rbind (require cb NullDeref) (\<lambda>_. Inr (msg_size, buf', b')))))
                of
                  Inl e \<Rightarrow> Some (Inl e)
                | Inr (msg_size, buf', b') \<Rightarrow>
                    variable_loop_course cb b' buf' (out @ [take (unat msg_size) buf'])))"

declare variable_loop_course.simps [code]

definition class_ready_course :: "demarcar_class \<Rightarrow> bcb \<Rightarrow> bool res" where
  "class_ready_course k b =
     (case k of FixedSize n \<Rightarrow> fixed_ready n b | VariableSize \<Rightarrow> variable_ready_course b)"

definition class_loop_course ::
    "demarcar_class \<Rightarrow> bool \<Rightarrow> bcb \<Rightarrow> byte list \<Rightarrow> byte list list \<Rightarrow>
     (bcb \<times> byte list \<times> byte list list) res option" where
  "class_loop_course k cb b buf out =
     (case k of
        FixedSize n \<Rightarrow>
          (case fixed_ready n b of
             Inl e \<Rightarrow> Some (Inl e)
           | Inr ready \<Rightarrow>
               if ready then fixed_loop_course n cb b buf out else Some (Inr (b, buf, out)))
      | VariableSize \<Rightarrow> variable_loop_course cb b buf out)"

definition IsBufferReadyToFlush :: "demarcar \<Rightarrow> bool res" where
  "IsBufferReadyToFlush d =
     (case dbcb d of None \<Rightarrow> Inl NullDeref | Some b \<Rightarrow> class_ready_course (dclass d) b)"

definition ProcessClientMsg_course :: "bool \<Rightarrow> demarcar \<Rightarrow> (demarcar \<times> byte list list) res" where
  "ProcessClientMsg_course cb d =
     (case (dbcb d, dbuffer d) of
        (Some b, Some buf) \<Rightarrow>
          rbind (run_loop (class_loop_course (dclass d) cb b buf [])) (\<lambda>(b', buf', out).
          Inr (d\<lparr>dbcb := Some b', dbuffer := Some buf'\<rparr>, out))
      | _ \<Rightarrow> Inl NullDeref)"

definition ProcessMsg_course ::
    "bool \<Rightarrow> demarcar \<Rightarrow> byte list \<Rightarrow> u16 \<Rightarrow> (demarcar \<times> byte list list) res" where
  "ProcessMsg_course cb d msg_recvd msg_size =
     (case dbcb d of
        None \<Rightarrow> Inl NullDeref
      | Some b \<Rightarrow>
          rbind (BCBWrite b msg_recvd msg_size) (\<lambda>(r, b').
          rbind (require (r \<noteq> 0) AssertFail) (\<lambda>_.
          let d' = d\<lparr>dbcb := Some b'\<rparr> in
          rbind (IsBufferReadyToFlush d') (\<lambda>ready.
          if ready then ProcessClientMsg_course cb d' else Inr (d', [])))))"

fun process_portions_course :: "bool \<Rightarrow> demarcar \<Rightarrow> byte list list \<Rightarrow> (demarcar \<times> byte list list) res" where
  "process_portions_course cb d [] = Inr (d, [])"
| "process_portions_course cb d (c # cs) =
     rbind (ProcessMsg_course cb d c (word_of_nat (length c))) (\<lambda>(d', out).
     rbind (process_portions_course cb d' cs) (\<lambda>(d'', out'). Inr (d'', out @ out')))"

section \<open>Reads that do not wrap\<close>

lemma read_course_straight:
  assumes "unat n \<le> unat (buffer_size b - rear b)"
  shows "BCBRead_course b dest n rm = BCBRead b dest n rm"
  using assms by (simp add: BCBRead_course_def BCBRead_def Let_def word_le_nat_alt)

text \<open>
  A read that wraps: the bytes behind the end of the array lie at the front of the destination,
  over the bytes before the end.
\<close>

lemma read_course_wrapped:
  assumes wf: "bcb_wf b" and n: "unat n \<le> length (contents b)" and len: "unat n \<le> length dest"
    and L: "unat (rear b) + L = unat (buffer_size b)" "L < unat n"
  shows "\<exists>b'. BCBRead_course b dest n rm = Inr (n,
      put_at 0 (take (unat n - L) (drop L (contents b))) (put_at 0 (take L (contents b)) dest), b') \<and>
    (\<exists>d. BCBRead b dest n rm = Inr (n, d, b'))"
proof -
  note w = bcb_wfD [OF wf]
  have n': "unat n \<le> unat (current_size b)" using n wf by simp
  have ok: "\<not> current_size b < n" using n' by (simp add: word_less_nat_alt)
  have lead: "unat (buffer_size b - rear b) = L" using L w by (subst unat_sub_nowrap) auto
  have r: "unat (n - (buffer_size b - rear b)) = unat n - L"
    using L by (subst unat_sub_nowrap) (auto simp: lead)
  have c: "take (unat n) (contents b) = drop (unat (rear b)) (buffer b) @ take (unat n - L) (buffer b)"
    using read_around(1) [OF wf n' L r] r by simp
  have dl: "length (drop (unat (rear b)) (buffer b)) = L" using w L by simp
  have "take L (contents b) = take L (take (unat n) (contents b))" using L by (simp add: min_absorb1)
  also have "\<dots> = drop (unat (rear b)) (buffer b)" unfolding c using dl by simp
  finally have c1: "take L (contents b) = drop (unat (rear b)) (buffer b)" .
  have "take (unat n - L) (drop L (contents b)) = drop L (take (unat n) (contents b))"
    by (simp add: drop_take)
  also have "\<dots> = take (unat n - L) (buffer b)" unfolding c using dl by simp
  finally have c2: "take (unat n - L) (drop L (contents b)) = take (unat n - L) (buffer b)" .
  have nf: "\<not> rear b < front b"
    using L w n' by (auto simp: word_less_nat_alt split: if_splits)
  have nl: "\<not> n \<le> buffer_size b - rear b" using L by (simp add: word_le_nat_alt lead)
  have m1: "memcpy dest 0 (buffer b) (unat (rear b)) L = Inr (put_at 0 (take L (contents b)) dest)"
    using w L len c1 by (simp add: memcpy_Inr)
  have nb: "unat n - L \<le> length (buffer b)" using n' w by simp
  have l1: "length (put_at 0 (take L (contents b)) dest) = length dest" using len L by simp
  have m2: "memcpy (put_at 0 (take L (contents b)) dest) 0 (buffer b) 0 (unat n - L) =
      Inr (put_at 0 (take (unat n - L) (drop L (contents b))) (put_at 0 (take L (contents b)) dest))"
    using l1 len nb by (simp add: memcpy_def c2 del: length_put_at)
  have "\<exists>d. memcpy (put_at 0 (take L (contents b)) dest) L (buffer b) 0 (unat n - L) = Inr d"
    using l1 len nb L by (simp add: memcpy_def del: length_put_at)
  then show ?thesis
    using nf nl by (auto simp: BCBRead_course_def BCBRead_def ok Let_def lead r m1 m2)
qed
section \<open>Messages whose size divides the size of the ring\<close>

definition aligned :: "u16 \<Rightarrow> bcb \<Rightarrow> bool" where
  "aligned n b \<longleftrightarrow> bcb_wf b \<and> unat n dvd unat (buffer_size b) \<and> unat n dvd unat (rear b)"

lemma aligned_room:
  assumes "aligned n b" "n \<noteq> 0" "unat n \<le> unat (current_size b)"
  shows "unat (rear b) + unat n \<le> unat (buffer_size b)"
proof -
  have w: "unat (rear b) < unat (buffer_size b)"
    using assms bcb_wfD(2,4) [of b] by (auto simp: aligned_def word_eq_unat)
  have "unat n dvd unat (buffer_size b) - unat (rear b)" using assms(1) by (simp add: aligned_def dvd_diff_nat)
  then have "unat n \<le> unat (buffer_size b) - unat (rear b)" using w by (simp add: dvd_imp_le)
  then show ?thesis using w by simp
qed

lemma aligned_read:
  assumes "aligned n b" "n \<noteq> 0"
  shows "BCBRead_course b dest n rm = BCBRead b dest n rm"
proof (cases "unat n \<le> unat (current_size b)")
  case True
  then have "unat n \<le> unat (buffer_size b - rear b)"
    using aligned_room [OF assms] by (subst unat_sub_nowrap) auto
  then show ?thesis by (rule read_course_straight)
next
  case False
  then show ?thesis by (simp add: BCBRead_course_def BCBRead_def word_less_nat_alt)
qed

lemma aligned_read_result:
  assumes "aligned n b" "n \<noteq> 0" "unat n \<le> unat (current_size b)" "BCBRead b dest n True = Inr (r, d, b')"
  shows "r = n" "aligned n b'" "unat (current_size b') = unat (current_size b) - unat n"
proof -
  have room: "unat (rear b) + unat n \<le> unat (buffer_size b)" by (rule aligned_room [OF assms(1-3)])
  then have "unat n \<le> unat (buffer_size b - rear b)" by (subst unat_sub_nowrap) auto
  then have eq: "r = n" "b' = b\<lparr>rear := advance (buffer_size b) (rear b) n, current_size := current_size b - n\<rparr>"
    using assms(3,4) by (auto simp: BCBRead_def Let_def word_le_nat_alt word_less_nat_alt memcpy_def split: if_splits)
  then show "r = n" "unat (current_size b') = unat (current_size b) - unat n"
    using assms(3) by (auto simp: unat_sub_nowrap)
  show "aligned n b'"
    using assms(1) read_within(2) [of b n] assms(3) room by (simp add: aligned_def eq unat_advance)
qed

lemma fixed_loop_agrees:
  assumes "aligned n b" "n \<noteq> 0"
  shows "fixed_loop_course n cb b buf out = fixed_loop n cb b buf out"
  using assms(1)
proof (induction "unat (current_size b)" arbitrary: b buf out rule: less_induct)
  case less
  have ready: "fixed_ready n b = Inr (unat n \<le> unat (current_size b))"
    using less.prems assms(2) by (simp add: aligned_def fixed_ready_iff)
  show ?case
  proof (cases "unat n \<le> unat (current_size b)")
    case False
    then have "BCBRead b buf n True = Inr (0, buf, b)" by (simp add: BCBRead_rejects)
    then show ?thesis using False ready aligned_read [OF less.prems assms(2)]
      by (subst fixed_loop.simps, subst fixed_loop_course.simps) simp
  next
    case True
    show ?thesis
    proof (cases "BCBRead b buf n True")
      case (Inl e)
      then show ?thesis using True ready aligned_read [OF less.prems assms(2)]
        by (subst fixed_loop.simps, subst fixed_loop_course.simps) simp
    next
      case (Inr x)
      obtain r d b' where x: "x = (r, d, b')" by (cases x)
      note rd = aligned_read_result [OF less.prems assms(2) True Inr [unfolded x]]
      have "0 < unat n" using assms(2) by (simp add: word_eq_unat)
      then have "fixed_loop_course n cb b' d os = fixed_loop n cb b' d os" for os
        using rd True by (intro less.hyps) auto
      then show ?thesis using True ready aligned_read [OF less.prems assms(2)] Inr x rd(1) assms(2)
        by (subst fixed_loop.simps, subst fixed_loop_course.simps) (cases cb; simp)
    qed
  qed
qed

lemma fixed_loop_aligned:
  assumes "aligned n b" "n \<noteq> 0" "fixed_loop n cb b buf out = Some (Inr (b', buf', out'))"
  shows "aligned n b'"
  using assms(1,3)
proof (induction "unat (current_size b)" arbitrary: b buf out rule: less_induct)
  case less
  have ready: "fixed_ready n b = Inr (unat n \<le> unat (current_size b))"
    using less.prems(1) assms(2) by (simp add: aligned_def fixed_ready_iff)
  show ?case
  proof (cases "unat n \<le> unat (current_size b)")
    case False
    then show ?thesis using less.prems ready by (subst (asm) fixed_loop.simps) simp
  next
    case True
    with less.prems(2) ready obtain r d b1 where
      1: "BCBRead b buf n True = Inr (r, d, b1)"
      "fixed_loop n cb b1 d (out @ [take (unat r) d]) = Some (Inr (b', buf', out'))"
      by (subst (asm) fixed_loop.simps) (auto split: sum.splits if_splits)
    note rd = aligned_read_result [OF less.prems(1) assms(2) True 1(1)]
    have "0 < unat n" using assms(2) by (simp add: word_eq_unat)
    then show ?thesis using rd(3) True by (intro less.hyps [OF _ rd(2) 1(2)]) simp
  qed
qed

lemma aligned_write:
  assumes "aligned n b" "unat k \<le> length data" "BCBWrite b data k = Inr (r, b')"
  shows "aligned n b'"
proof -
  have wf: "bcb_wf b" using assms(1) by (simp add: aligned_def)
  have "rear b' = rear b \<and> buffer_size b' = buffer_size b"
    using assms(3) by (auto simp: BCBWrite_def Let_def rbind_eq_Inr split: if_splits)
  moreover have "bcb_wf b'"
    using BCBWrite_accepts [OF wf _ assms(2)] BCBWrite_rejects [OF wf, of k data] assms(3) wf
    by (cases "fits b k") fastforce+
  ultimately show ?thesis using assms(1) by (simp add: aligned_def)
qed

definition aligned_demarcar :: "u16 \<Rightarrow> demarcar \<Rightarrow> bool" where
  "aligned_demarcar n d \<longleftrightarrow> n \<noteq> 0 \<and> dclass d = FixedSize n \<and> (\<forall>b. dbcb d = Some b \<longrightarrow> aligned n b)"

lemma process_msg_agrees:
  assumes "aligned_demarcar n d" "unat k \<le> length c"
  shows "ProcessMsg_course cb d c k = ProcessMsg cb d c k"
    and "ProcessMsg cb d c k = Inr (d', out) \<Longrightarrow> aligned_demarcar n d'"
proof -
  have d: "n \<noteq> 0" "dclass d = FixedSize n" using assms(1) by (auto simp: aligned_demarcar_def)
  have w: "aligned n b'" if "dbcb d = Some b" "BCBWrite b c k = Inr (r, b')" for b b' r
    using that assms by (auto simp: aligned_demarcar_def intro: aligned_write)
  have ready: "fixed_ready n b = Inr (unat n \<le> unat (current_size b))" if "aligned n b" for b
    using that d(1) by (simp add: aligned_def fixed_ready_iff)
  have client: "ProcessClientMsg_course cb (d\<lparr>dbcb := Some b\<rparr>) = ProcessClientMsg cb (d\<lparr>dbcb := Some b\<rparr>)"
    if "aligned n b" "unat n \<le> unat (current_size b)" for b
    using that d ready
    by (simp add: ProcessClientMsg_course_def ProcessClientMsg_def class_loop_course_def class_loop_def
        fixed_loop_agrees split: option.split)
  show "ProcessMsg_course cb d c k = ProcessMsg cb d c k"
    using d by (auto simp: ProcessMsg_course_def ProcessMsg_def Let_def IsBufferReadyToFlush_def
        IsBufferReadyToflush_def class_ready_course_def class_ready_def ready client
        split: option.split intro!: rbind_cong dest: w)
  assume r: "ProcessMsg cb d c k = Inr (d', out)"
  then obtain b b1 where 1: "dbcb d = Some b" "BCBWrite b c k = Inr (b1)"
    by (auto simp: ProcessMsg_def rbind_eq_Inr split: option.splits)
  with r show "aligned_demarcar n d'"
    using w [of b "fst b1" "snd b1"] d
    by (cases b1)
       (auto simp: ProcessMsg_def rbind_eq_Inr require_eq_Inr Let_def ProcessClientMsg_def aligned_demarcar_def class_loop_def
         run_loop_def split: option.splits if_splits intro: fixed_loop_aligned)
qed

lemma process_portions_agrees:
  assumes "aligned_demarcar n d"
  shows "process_portions_course cb d cs = process_portions cb d cs"
  using assms
proof (induction cs arbitrary: d)
  case (Cons c cs)
  have k: "unat (word_of_nat (length c) :: u16) \<le> length c" by (simp add: unat_of_nat)
  show ?case
    using process_msg_agrees [OF Cons.prems k] Cons.IH
    by (auto intro!: rbind_cong)
qed simp

end
