(* ===== verification/NetUtils.thy ===== *)
theory NetUtils
  imports CLib
begin

unbundle bit_operations_syntax

text \<open>
  IPv4 addresses as numbers and as texts, \<^verbatim>\<open>network_utils.cpp\<close>. The library keeps addresses
  in the order of the machine; \<open>inet_pton\<close> and \<open>inet_ntop\<close> work on the order of the network,
  and \<open>htonl\<close> turns one into the other.
\<close>

type_synonym u32 = "32 word"

section \<open>The two functions of the C library\<close>

text \<open>The four bytes of an address in the order of the network, and back.\<close>

definition octets :: "u32 \<Rightarrow> nat list" where
  "octets a = [unat (drop_bit 24 a) mod 256, unat (drop_bit 16 a) mod 256,
               unat (drop_bit 8 a) mod 256, unat a mod 256]"

definition of_octets :: "nat list \<Rightarrow> u32" where
  "of_octets os = word_of_nat (foldl (\<lambda>n b. 256 * n + b) 0 os)"

definition inet_ntop :: "nat list \<Rightarrow> string" where
  "inet_ntop os =
     (case map show_nat os of
        [a, b, c, d] \<Rightarrow> a @ ''.'' @ b @ ''.'' @ c @ ''.'' @ d
      | _ \<Rightarrow> [])"

text \<open>
  \<open>inet_pton\<close> takes four decimal numbers up to 255 without leading zeros, separated by single
  dots, and nothing else.
\<close>

definition octet :: "string \<Rightarrow> nat option" where
  "octet s =
     (if s = [] \<or> \<not> list_all is_digit s \<or> (hd s = CHR ''0'' \<and> tl s \<noteq> []) \<or> 255 < read_digits 0 s
      then None else Some (read_digits 0 s))"

fun split_at_dots :: "string \<Rightarrow> string list" where
  "split_at_dots [] = [[]]"
| "split_at_dots (c # s) =
     (if c = CHR ''.'' then [] # split_at_dots s
      else (case split_at_dots s of [] \<Rightarrow> [[c]] | w # ws \<Rightarrow> (c # w) # ws))"

fun all_some :: "'a option list \<Rightarrow> 'a list option" where
  "all_some [] = Some []"
| "all_some (None # xs) = None"
| "all_some (Some x # xs) = map_option (Cons x) (all_some xs)"

definition inet_pton :: "string \<Rightarrow> nat list option" where
  "inet_pton s =
     (let fields = split_at_dots s in
      if length fields \<noteq> 4 then None else all_some (map octet fields))"

section \<open>The functions of the library\<close>

text \<open>The result is cut to fifteen characters, the most an address has.\<close>

definition network_convert_ip_n_to_p :: "u32 \<Rightarrow> string" where
  "network_convert_ip_n_to_p ip_addr = take 15 (inet_ntop (octets ip_addr))"

text \<open>A text that is not an address leaves \<open>binary_prefix\<close> at zero.\<close>

definition network_covert_ip_p_to_n :: "string \<Rightarrow> u32" where
  "network_covert_ip_p_to_n s = (case inet_pton s of None \<Rightarrow> 0 | Some os \<Rightarrow> of_octets os)"

section \<open>Texts of addresses\<close>

lemma split_at_dots_not_Nil [simp]: "split_at_dots s \<noteq> []"
  by (induction s) (auto split: list.splits)

lemma split_no_dot: "CHR ''.'' \<notin> set w \<Longrightarrow> split_at_dots w = [w]"
  by (induction w) auto

lemma split_dot: "CHR ''.'' \<notin> set w \<Longrightarrow> split_at_dots (w @ CHR ''.'' # s) = w # split_at_dots s"
  by (induction w) auto

lemma show_nat_no_dot: "CHR ''.'' \<notin> set (show_nat n)"
  using show_nat_digits [of n] by (auto simp: is_digit_def)

lemma show_nat_no_zero: "0 < n \<Longrightarrow> hd (show_nat n) \<noteq> CHR ''0''"
proof (induction n rule: show_nat.induct)
  case (1 n)
  show ?case
  proof (cases "n < 10")
    case True
    have "of_char (digit_char n) = 48 + n" using True by (simp add: digit_char_def)
    then have "digit_char n \<noteq> CHR ''0''" using 1(2) by auto
    then show ?thesis using True by (simp add: show_nat.simps [of n])
  next
    case False
    obtain d r where "show_nat (n div 10) = digit_char d # r" using show_nat_head by blast
    then show ?thesis using 1(1) False by (simp add: show_nat.simps [of n])
  qed
qed

lemma octet_show_nat:
  assumes "n < 256"
  shows "octet (show_nat n) = Some n"
proof -
  obtain d r where dr: "show_nat n = digit_char d # r" using show_nat_head by blast
  have "r = []" if "n = 0" using dr that by (simp add: show_nat.simps)
  then have "\<not> (hd (show_nat n) = CHR ''0'' \<and> tl (show_nat n) \<noteq> [])"
    using dr show_nat_no_zero [of n] by (cases "n = 0") auto
  moreover have "list_all is_digit (show_nat n)" using show_nat_digits by (simp add: list_all_iff)
  ultimately show ?thesis
    using assms dr read_show_nat [of n] unfolding octet_def by auto
qed

lemma length_show_byte:
  assumes "n < 256"
  shows "length (show_nat n) \<le> 3"
proof -
  have "length (show_nat k) \<le> 1" if "k < 10" for k using that by (simp add: show_nat.simps [of k])
  then have "length (show_nat k) \<le> 2" if "k < 100" for k
    using that by (simp add: show_nat.simps [of k])
  then show ?thesis using assms by (simp add: show_nat.simps [of n])
qed

lemma octets_bound: "\<forall>n\<in>set (octets a). n < 256"
  by (simp add: octets_def)

lemma base256:
  fixes n :: nat
  shows "256 * (256 * (256 * (n div 16777216) + n div 65536 mod 256) + n div 256 mod 256) + n mod 256 = n"
proof -
  have "n div 65536 = n div 256 div 256" "n div 16777216 = n div 256 div 256 div 256"
    by (simp_all add: div_mult2_eq [symmetric])
  then show ?thesis
    using div_mult_mod_eq [of n 256] div_mult_mod_eq [of "n div 256" 256]
      div_mult_mod_eq [of "n div 256 div 256" 256]
    by (simp add: mult.commute)
qed

lemma of_octets_octets: "of_octets (octets a) = a"
proof -
  have lt: "unat a < 4294967296" using unsigned_less [of a] by simp
  have "unat (drop_bit k a) = unat a div 2 ^ k" for k
    by (simp only: unsigned_drop_bit_eq) (simp add: drop_bit_eq_div lt take_bit_nat_eq_self)
  moreover have "unat a div 16777216 < 256" using lt by simp
  ultimately have "foldl (\<lambda>n b. 256 * n + b) 0 (octets a) = unat a"
    using base256 [of "unat a"] by (simp add: octets_def)
  then show ?thesis by (simp add: of_octets_def)
qed

lemma n_to_p_text:
  assumes "octets a = [b, c, d, e]"
  shows "network_convert_ip_n_to_p a =
    show_nat b @ ''.'' @ show_nat c @ ''.'' @ show_nat d @ ''.'' @ show_nat e"
proof -
  have "length (show_nat b) \<le> 3" "length (show_nat c) \<le> 3" "length (show_nat d) \<le> 3"
    "length (show_nat e) \<le> 3"
    using octets_bound [of a] assms length_show_byte by auto
  then have "length (show_nat b @ ''.'' @ show_nat c @ ''.'' @ show_nat d @ ''.'' @ show_nat e) \<le> 15"
    by simp
  then show ?thesis
    using assms by (simp only: network_convert_ip_n_to_p_def inet_ntop_def) simp
qed

text \<open>
  C33: printing an address and reading it back gives the address; the fifteen characters of the
  buffer are enough for every address.
\<close>

theorem ip_roundtrip: "network_covert_ip_p_to_n (network_convert_ip_n_to_p ip_addr) = ip_addr"
proof -
  obtain b c d e where o: "octets ip_addr = [b, c, d, e]" by (simp add: octets_def)
  have n: "b < 256" "c < 256" "d < 256" "e < 256" using octets_bound [of ip_addr] o by auto
  have "inet_pton (network_convert_ip_n_to_p ip_addr) = Some [b, c, d, e]"
    using n by (simp add: n_to_p_text [OF o] inet_pton_def Let_def split_dot split_no_dot show_nat_no_dot
        octet_show_nat)
  then show ?thesis using of_octets_octets [of ip_addr] o by (simp add: network_covert_ip_p_to_n_def)
qed

end
