(* ===== verification/TcpState.thy ===== *)
theory TcpState
  imports Demarcar NetUtils
begin

text \<open>
  The objects of the TCP server: clients (\<^verbatim>\<open>TcpClient.h\<close>), the services of a server
  (\<^verbatim>\<open>TcpNewConnectionAcceptor.h\<close>, \<^verbatim>\<open>TcpClientDbManager.h\<close>, \<^verbatim>\<open>TcpClientServiceManager.h\<close>) and
  the controller (\<^verbatim>\<open>TcpServerController.h\<close>) with its message queue, in one world: pointers are
  positions in pools of objects, and a freed object is \<open>None\<close>.

  Every operation of the following theories is one atomic step of the thread that executes it.
  What the operating system answers (descriptors, results of \<open>connect\<close>, received bytes) is an
  argument of the operation.
\<close>

section \<open>Clients\<close>

type_synonym cptr = nat
type_synonym sptr = nat

abbreviation TCP_CLIENT_STATE_CONNECT_IN_PROGRESS :: u32 where
  "TCP_CLIENT_STATE_CONNECT_IN_PROGRESS \<equiv> 1"
abbreviation TCP_CLIENT_STATE_CONNECTED :: u32 where
  "TCP_CLIENT_STATE_CONNECTED \<equiv> 2"
abbreviation TCP_CLIENT_STATE_PASSIVE_OPENER :: u32 where
  "TCP_CLIENT_STATE_PASSIVE_OPENER \<equiv> 8"
abbreviation TCP_CLIENT_STATE_ACTIVE_OPENER :: u32 where
  "TCP_CLIENT_STATE_ACTIVE_OPENER \<equiv> 16"
abbreviation TCP_CLIENT_STATE_KA_BASED :: u32 where
  "TCP_CLIENT_STATE_KA_BASED \<equiv> 32"
abbreviation TCP_CLIENT_STATE_KA_EXPIRED :: u32 where
  "TCP_CLIENT_STATE_KA_EXPIRED \<equiv> 64"
abbreviation TCP_CLIENT_STATE_MULTIPLEX_LISTEN :: u32 where
  "TCP_CLIENT_STATE_MULTIPLEX_LISTEN \<equiv> 128"
abbreviation TCP_CLIENT_STATE_THREADED :: u32 where
  "TCP_CLIENT_STATE_THREADED \<equiv> 256"

datatype tcp_connection_type = tcp_conn_none | tcp_conn_via_accept | tcp_conn_via_connect

record tcp_conn =
  conn_type :: tcp_connection_type
  ka_sent :: u32
  ka_recvd :: u32
  bytes_sent :: u32
  bytes_recvd :: u32

text \<open>The two thread pointers are given by whether they are non-null.\<close>

record tcp_client =
  c_state_flags :: u32
  c_ip_addr :: u32
  c_port_no :: u16
  server_ip_addr :: u32
  server_port_no :: u16
  comm_fd :: int
  ref_count :: int
  recv_buffer :: "byte list"
  client_thread :: bool
  active_connect_thread :: bool
  c_ctrlr :: "sptr option"
  msgd :: "demarcar option"
  conn :: tcp_conn

section \<open>Servers\<close>

text \<open>
  A thread identifier that was allocated with \<open>calloc\<close> names no thread until
  \<open>pthread_create\<close> has filled it.
\<close>

datatype thread_cell = NoThread | Thread

record acceptor =
  accept_fd :: int
  accept_new_conn_thread :: "thread_cell option"
  accept_new_conn :: bool

record svc_mgr =
  max_fd :: int
  udp_fd :: int
  svc_db :: "cptr list"
  backup_fd_set :: "int list"
  client_svc_mgr_thread :: "thread_cell option"

text \<open>The codes of the messages are bits and can be combined.\<close>

abbreviation CTRLR_ACTION_TCP_CLIENT_PROCESS_NEW :: u32 where
  "CTRLR_ACTION_TCP_CLIENT_PROCESS_NEW \<equiv> 1"
abbreviation CTRLR_ACTION_TCP_CLIENT_MULTIPLEX_LISTEN :: u32 where
  "CTRLR_ACTION_TCP_CLIENT_MULTIPLEX_LISTEN \<equiv> 2"
abbreviation CTRLR_ACTION_TCP_CLIENT_DELETE :: u32 where
  "CTRLR_ACTION_TCP_CLIENT_DELETE \<equiv> 4"
abbreviation CTRLR_ACTION_TCP_CLIENT_MX_TO_MULTITHREADED :: u32 where
  "CTRLR_ACTION_TCP_CLIENT_MX_TO_MULTITHREADED \<equiv> 8"
abbreviation CTRLR_ACTION_TCP_CLIENT_MULTITHREADED_TO_MX :: u32 where
  "CTRLR_ACTION_TCP_CLIENT_MULTITHREADED_TO_MX \<equiv> 16"
abbreviation CTRLR_ACTION_TCP_CLIENT_CREATE_THREADED :: u32 where
  "CTRLR_ACTION_TCP_CLIENT_CREATE_THREADED \<equiv> 32"
abbreviation CTRLR_ACTION_TCP_CLIENT_ACTIVE_CONNECT_SUCCESS :: u32 where
  "CTRLR_ACTION_TCP_CLIENT_ACTIVE_CONNECT_SUCCESS \<equiv> 64"
abbreviation CTRLR_ACTION_TCP_CLIENT_RECONNECT :: u32 where
  "CTRLR_ACTION_TCP_CLIENT_RECONNECT \<equiv> 128"

text \<open>\<open>m_sema\<close> tells whether the sender waits on a semaphore of its own stack.\<close>

record tcp_msg =
  m_code :: u32
  m_data :: cptr
  m_sema :: bool

text \<open>The constructor of a server does not set its callbacks.\<close>

datatype hook = UnsetHook | NullHook | Hook

abbreviation TCP_SERVER_INITIALIZED :: u32 where
  "TCP_SERVER_INITIALIZED \<equiv> 1"
abbreviation TCP_SERVER_RUNNING :: u32 where
  "TCP_SERVER_RUNNING \<equiv> 2"
abbreviation TCP_SERVER_NOT_ACCEPTING_NEW_CONNECTIONS :: u32 where
  "TCP_SERVER_NOT_ACCEPTING_NEW_CONNECTIONS \<equiv> 4"
abbreviation TCP_SERVER_NOT_LISTENING_CLIENTS :: u32 where
  "TCP_SERVER_NOT_LISTENING_CLIENTS \<equiv> 8"
abbreviation TCP_SERVER_CREATE_MULTI_THREADED_CLIENT :: u32 where
  "TCP_SERVER_CREATE_MULTI_THREADED_CLIENT \<equiv> 16"

record server =
  new_conn_acc :: "acceptor option"
  client_db :: "cptr list option"
  client_svc :: "svc_mgr option"
  s_state_flags :: u32
  established :: "cptr list"
  connectpending :: "cptr list"
  msgQ :: "tcp_msg list"
  msgQ_op_thread :: bool
  s_ip_addr :: u32
  s_port_no :: u16
  s_name :: string
  s_msgd_type :: TcpMsgDemarcarType
  client_connected :: hook
  client_disconnected :: hook
  client_msg_recvd :: hook
  client_ka_pending :: hook

section \<open>The world\<close>

text \<open>
  What the outside sees: texts printed, calls of the application's callbacks, bytes handed to a
  connection and descriptors closed.
\<close>

datatype event =
    Said string
  | Connected sptr cptr
  | Disconnected sptr cptr
  | MsgRecvd sptr cptr "byte list"
  | Sent int "byte list"
  | ClosedFd int

text \<open>
  \<open>raw\<close> is the content of the memory that \<open>new TcpClient\<close> gets: the constructors leave most
  members as they find them. \<open>addr_text\<close> is how \<open>printf\<close> shows a pointer.
\<close>

record world =
  heap :: "tcp_client option list"
  servers :: "server option list"
  raw :: tcp_client
  addr_text :: "cptr \<Rightarrow> string"
  events :: "event list"

definition client_at :: "world \<Rightarrow> cptr \<Rightarrow> tcp_client res" where
  "client_at w p =
     (if p < length (heap w)
      then (case heap w ! p of None \<Rightarrow> Inl UseAfterFree | Some c \<Rightarrow> Inr c) else Inl UseAfterFree)"

definition set_client :: "cptr \<Rightarrow> tcp_client option \<Rightarrow> world \<Rightarrow> world" where
  "set_client p x w = w\<lparr>heap := (heap w)[p := x]\<rparr>"

definition upd_client :: "cptr \<Rightarrow> (tcp_client \<Rightarrow> tcp_client) \<Rightarrow> world \<Rightarrow> world res" where
  "upd_client p f w = rbind (client_at w p) (\<lambda>c. Inr (set_client p (Some (f c)) w))"

definition server_at :: "world \<Rightarrow> sptr \<Rightarrow> server res" where
  "server_at w s =
     (if s < length (servers w)
      then (case servers w ! s of None \<Rightarrow> Inl UseAfterFree | Some x \<Rightarrow> Inr x) else Inl UseAfterFree)"

definition set_server :: "sptr \<Rightarrow> server option \<Rightarrow> world \<Rightarrow> world" where
  "set_server s x w = w\<lparr>servers := (servers w)[s := x]\<rparr>"

definition upd_server :: "sptr \<Rightarrow> (server \<Rightarrow> server) \<Rightarrow> world \<Rightarrow> world res" where
  "upd_server s f w = rbind (server_at w s) (\<lambda>x. Inr (set_server s (Some (f x)) w))"

definition log_event :: "event \<Rightarrow> world \<Rightarrow> world" where
  "log_event e w = w\<lparr>events := events w @ [e]\<rparr>"

definition said :: "string \<Rightarrow> world \<Rightarrow> world" where
  "said s w = log_event (Said s) w"

text \<open>The controller a client belongs to.\<close>

definition ctrlr_of :: "world \<Rightarrow> cptr \<Rightarrow> sptr res" where
  "ctrlr_of w p =
     rbind (client_at w p) (\<lambda>c. case c_ctrlr c of None \<Rightarrow> Inl NullDeref | Some s \<Rightarrow> Inr s)"

text \<open>The test of a callback pointer and the call through it.\<close>

definition hook_set :: "hook \<Rightarrow> bool res" where
  "hook_set h =
     (case h of UnsetHook \<Rightarrow> Inl Indeterminate | NullHook \<Rightarrow> Inr False | Hook \<Rightarrow> Inr True)"

definition call_hook :: "hook \<Rightarrow> event \<Rightarrow> world \<Rightarrow> world res" where
  "call_hook h e w =
     (case h of
        UnsetHook \<Rightarrow> Inl Indeterminate
      | NullHook \<Rightarrow> Inl NullDeref
      | Hook \<Rightarrow> Inr (log_event e w))"

definition call_if_set :: "hook \<Rightarrow> event \<Rightarrow> world \<Rightarrow> world res" where
  "call_if_set h e w = rbind (hook_set h) (\<lambda>b. if b then call_hook h e w else Inr w)"

section \<open>The message queue\<close>

text \<open>
  \<open>EnqueMsg\<close>: a sender that waits puts its message in front of all others. That it is woken up
  is the end of the processing of the message.
\<close>

definition EnqueMsg :: "sptr \<Rightarrow> u32 \<Rightarrow> cptr \<Rightarrow> bool \<Rightarrow> world \<Rightarrow> world res" where
  "EnqueMsg s code data block_me w =
     (let msg = \<lparr>m_code = code, m_data = data, m_sema = block_me\<rparr> in
      upd_server s (\<lambda>x. x\<lparr>msgQ := (if block_me then msg # msgQ x else msgQ x @ [msg])\<rparr>) w)"

section \<open>Flags\<close>

definition bit_set :: "u32 \<Rightarrow> u32 \<Rightarrow> bool" where
  "bit_set flags b \<longleftrightarrow> flags AND b \<noteq> 0"

definition IsBitSet :: "sptr \<Rightarrow> u32 \<Rightarrow> world \<Rightarrow> bool res" where
  "IsBitSet s b w = rbind (server_at w s) (\<lambda>x. Inr (bit_set (s_state_flags x) b))"

definition SetBit :: "sptr \<Rightarrow> u32 \<Rightarrow> world \<Rightarrow> world res" where
  "SetBit s b = upd_server s (\<lambda>x. x\<lparr>s_state_flags := s_state_flags x OR b\<rparr>)"

definition UnSetBit :: "sptr \<Rightarrow> u32 \<Rightarrow> world \<Rightarrow> world res" where
  "UnSetBit s b = upd_server s (\<lambda>x. x\<lparr>s_state_flags := s_state_flags x AND NOT b\<rparr>)"

definition GetStateFlags :: "sptr \<Rightarrow> world \<Rightarrow> u32 res" where
  "GetStateFlags s w = rbind (server_at w s) (\<lambda>x. Inr (s_state_flags x))"

text \<open>Setting and clearing other bits.\<close>

lemma bit_or: "(m AND b :: u32) = 0 \<Longrightarrow> bit_set (f OR m) b = bit_set f b"
  by (simp add: bit_set_def bit.conj_disj_distrib2)

lemma bit_andnot: "(m AND b :: u32) = 0 \<Longrightarrow> bit_set (f AND NOT m) b = bit_set f b"
proof -
  assume m: "m AND b = 0"
  have "b = (m AND b) OR (NOT m AND b)"
    by (rule bit_word_eqI) (auto simp: bit_simps)
  then have "NOT m AND b = b" using m by simp
  then show ?thesis by (simp add: bit_set_def and.assoc)
qed

end
