(* ===== verification/TcpClientOps.thy ===== *)
theory TcpClientOps
  imports TcpState
begin

text \<open>
  The operations of \<^verbatim>\<open>TcpClient.cpp\<close>: construction, reference counting and destruction, the
  receiving thread, and the connection attempts of an active opener.
\<close>

section \<open>Flags and references\<close>

definition SetState :: "cptr \<Rightarrow> u32 \<Rightarrow> world \<Rightarrow> world res" where
  "SetState p b = upd_client p (\<lambda>c. c\<lparr>c_state_flags := c_state_flags c OR b\<rparr>)"

definition UnSetState :: "cptr \<Rightarrow> u32 \<Rightarrow> world \<Rightarrow> world res" where
  "UnSetState p b = upd_client p (\<lambda>c. c\<lparr>c_state_flags := c_state_flags c AND NOT b\<rparr>)"

definition IsStateSet :: "cptr \<Rightarrow> u32 \<Rightarrow> world \<Rightarrow> bool res" where
  "IsStateSet p b w = rbind (client_at w p) (\<lambda>c. Inr (bit_set (c_state_flags c) b))"

definition Reference :: "cptr \<Rightarrow> world \<Rightarrow> world res" where
  "Reference p = upd_client p (\<lambda>c. c\<lparr>ref_count := ref_count c + 1\<rparr>)"

section \<open>Construction\<close>

definition new_client :: "(tcp_client \<Rightarrow> tcp_client) \<Rightarrow> world \<Rightarrow> cptr \<times> world" where
  "new_client f w = (length (heap w), w\<lparr>heap := heap w @ [Some (f (raw w))]\<rparr>)"

definition TcpClient_addr :: "u32 \<Rightarrow> u16 \<Rightarrow> world \<Rightarrow> cptr \<times> world" where
  "TcpClient_addr ip port = new_client (\<lambda>c. c\<lparr>c_ip_addr := ip, c_port_no := port, ref_count := 0\<rparr>)"

definition TcpClient :: "world \<Rightarrow> cptr \<times> world" where
  "TcpClient = new_client (\<lambda>c. c\<lparr>c_ip_addr := 0, c_port_no := 0, ref_count := 0\<rparr>)"

definition TcpClient_copy :: "cptr \<Rightarrow> world \<Rightarrow> (cptr \<times> world) res" where
  "TcpClient_copy p w =
     rbind (client_at w p) (\<lambda>src.
     Inr (new_client (\<lambda>c. c\<lparr>comm_fd := comm_fd src, c_ip_addr := c_ip_addr src,
            c_port_no := c_port_no src, ref_count := 0\<rparr>) w))"

definition SetTcpMsgDemarcar :: "cptr \<Rightarrow> demarcar option \<Rightarrow> world \<Rightarrow> world res" where
  "SetTcpMsgDemarcar p d = upd_client p (\<lambda>c. c\<lparr>msgd := d\<rparr>)"

definition SetConnectionType :: "cptr \<Rightarrow> tcp_connection_type \<Rightarrow> world \<Rightarrow> world res" where
  "SetConnectionType p t = upd_client p (\<lambda>c. c\<lparr>conn := (conn c)\<lparr>conn_type := t\<rparr>\<rparr>)"

section \<open>Display\<close>

definition flag_line :: "u32 \<Rightarrow> u32 \<Rightarrow> string \<Rightarrow> string" where
  "flag_line flags b name = '' '' @ (if bit_set flags b then '''' else ''Un'') @ ''Set '' @ name @ [NL]"

definition client_lines :: "string \<Rightarrow> tcp_client \<Rightarrow> string list" where
  "client_lines adr c =
     [''Tcp Client ('' @ adr @ ''): ['' @ network_convert_ip_n_to_p (c_ip_addr c) @ '' , '' @
        show_nat (unat (c_port_no c)) @ '']  connected to  ['' @
        network_convert_ip_n_to_p (server_ip_addr c) @ '' , '' @
        show_nat (unat (server_port_no c)) @ ''] , ref count = '' @ show_int (ref_count c) @ [NL],
      ''flags : '' @ [NL],
      flag_line (c_state_flags c) TCP_CLIENT_STATE_CONNECT_IN_PROGRESS
        ''TCP_CLIENT_STATE_CONNECT_IN_PROGRESS'',
      flag_line (c_state_flags c) TCP_CLIENT_STATE_CONNECTED ''TCP_CLIENT_STATE_CONNECTED'',
      flag_line (c_state_flags c) TCP_CLIENT_STATE_PASSIVE_OPENER ''TCP_CLIENT_STATE_PASSIVE_OPENER'',
      flag_line (c_state_flags c) TCP_CLIENT_STATE_ACTIVE_OPENER ''TCP_CLIENT_STATE_ACTIVE_OPENER'',
      flag_line (c_state_flags c) TCP_CLIENT_STATE_KA_BASED ''TCP_CLIENT_STATE_KA_BASED'',
      flag_line (c_state_flags c) TCP_CLIENT_STATE_KA_EXPIRED ''TCP_CLIENT_STATE_KA_EXPIRED'',
      flag_line (c_state_flags c) TCP_CLIENT_STATE_MULTIPLEX_LISTEN
        ''TCP_CLIENT_STATE_MULTIPLEX_LISTEN'',
      flag_line (c_state_flags c) TCP_CLIENT_STATE_THREADED ''TCP_CLIENT_STATE_THREADED'']"

definition say_lines :: "string list \<Rightarrow> world \<Rightarrow> world" where
  "say_lines ss w = w\<lparr>events := events w @ map Said ss\<rparr>"

definition Display_client :: "cptr \<Rightarrow> world \<Rightarrow> world res" where
  "Display_client p w =
     rbind (client_at w p) (\<lambda>c. Inr (say_lines (client_lines (addr_text w p) c) w))"

section \<open>Destruction\<close>

text \<open>\<open>delete\<close>: the destructor and the release of the memory.\<close>

definition delete_client :: "cptr \<Rightarrow> world \<Rightarrow> world res" where
  "delete_client p w =
     rbind (client_at w p) (\<lambda>c.
     rbind (require (comm_fd c = 0) AssertFail) (\<lambda>_.
     rbind (require (\<not> client_thread c) AssertFail) (\<lambda>_.
     rbind (require (\<not> active_connect_thread c) AssertFail) (\<lambda>_.
     rbind (require (ref_count c = 0) AssertFail) (\<lambda>_.
     rbind (require (msgd c = None) AssertFail) (\<lambda>_.
     rbind (Display_client p (said ''Client Deleted : '' w)) (\<lambda>w'.
     Inr (set_client p None w'))))))))"

definition Abort :: "cptr \<Rightarrow> world \<Rightarrow> world res" where
  "Abort p w =
     rbind (client_at w p) (\<lambda>c.
     rbind (require (\<not> client_thread c) AssertFail) (\<lambda>_.
     rbind (require (\<not> active_connect_thread c) AssertFail) (\<lambda>_.
     rbind (case msgd c of None \<Rightarrow> Inr () | Some d \<Rightarrow> delete_demarcar (Destroy d)) (\<lambda>_.
     let w1 = (if comm_fd c \<noteq> 0 then log_event (ClosedFd (comm_fd c)) w else w);
         c1 = c\<lparr>comm_fd := 0, c_ctrlr := None, msgd := None\<rparr>
     in delete_client p (set_client p (Some c1) w1)))))"

text \<open>The second result tells whether the returned pointer is non-null.\<close>

definition Dereference :: "cptr \<Rightarrow> world \<Rightarrow> (world \<times> bool) res" where
  "Dereference p w =
     rbind (client_at w p) (\<lambda>c.
     if ref_count c = 0 then rbind (Abort p w) (\<lambda>w'. Inr (w', False))
     else
       (let w1 = set_client p (Some (c\<lparr>ref_count := ref_count c - 1\<rparr>)) w in
        if ref_count c - 1 \<noteq> 0 then Inr (w1, True)
        else rbind (Abort p w1) (\<lambda>w'. Inr (w', False))))"

text \<open>The same where the result is not used.\<close>

definition deref_client :: "cptr \<Rightarrow> world \<Rightarrow> world res" where
  "deref_client p w = rbind (Dereference p w) (\<lambda>(w', _). Inr w')"

section \<open>Sending\<close>

text \<open>\<open>rc\<close> is what \<open>sendto\<close> returns.\<close>

definition SendMsg :: "cptr \<Rightarrow> byte list \<Rightarrow> int \<Rightarrow> world \<Rightarrow> (world \<times> int) res" where
  "SendMsg p msg rc w =
     rbind (client_at w p) (\<lambda>c.
     if comm_fd c = 0 then Inr (w, -1)
     else let w1 = log_event (Sent (comm_fd c) msg) w in
          if rc < 0 then Inr (said (''sendto failed'' @ [NL]) w1, rc)
          else Inr (set_client p (Some (c\<lparr>conn := (conn c)\<lparr>bytes_sent :=
                 bytes_sent (conn c) + word_of_int rc\<rparr>\<rparr>)) w1, rc))"

section \<open>The receiving thread\<close>

text \<open>
  \<open>StartThread\<close> returns when \<open>client_listening_thread\<close> has taken its reference; \<open>StopThread\<close>
  cancels and joins the thread and drops that reference.
\<close>

definition client_listening_thread :: "cptr \<Rightarrow> world \<Rightarrow> world res" where
  "client_listening_thread p = Reference p"

definition StartThread :: "cptr \<Rightarrow> world \<Rightarrow> world res" where
  "StartThread p w =
     rbind (client_at w p) (\<lambda>c.
     rbind (require (\<not> client_thread c) AssertFail) (\<lambda>_.
     rbind (upd_client p (\<lambda>c. c\<lparr>client_thread := True\<rparr>) w) (\<lambda>w1.
     rbind (SetState p TCP_CLIENT_STATE_THREADED w1) (client_listening_thread p))))"

definition StopThread :: "cptr \<Rightarrow> world \<Rightarrow> world res" where
  "StopThread p w =
     rbind (client_at w p) (\<lambda>c.
     rbind (require (client_thread c) AssertFail) (\<lambda>_.
     rbind (upd_client p (\<lambda>c. c\<lparr>client_thread := False\<rparr>) w) (\<lambda>w1.
     rbind (UnSetState p TCP_CLIENT_STATE_THREADED w1) (deref_client p))))"

definition StopConnectorThread :: "cptr \<Rightarrow> world \<Rightarrow> world res" where
  "StopConnectorThread p w =
     rbind (client_at w p) (\<lambda>c.
     rbind (require (active_connect_thread c) AssertFail) (\<lambda>_.
     rbind (upd_client p (\<lambda>c. c\<lparr>active_connect_thread := False\<rparr>) w) (\<lambda>w1.
     rbind (UnSetState p TCP_CLIENT_STATE_CONNECT_IN_PROGRESS w1) (deref_client p))))"

text \<open>
  What \<open>recvfrom\<close> delivers: an error, or bytes, of which as many are stored as the buffer of
  1024 holds. No byte is the end of the connection.
\<close>

definition disconnected :: "byte list option \<Rightarrow> bool" where
  "disconnected r \<longleftrightarrow>
     (case r of None \<Rightarrow> True | Some bs \<Rightarrow> length (take 1024 bs) = 0 \<or> length (take 1024 bs) = 65535)"

definition received :: "byte list option \<Rightarrow> byte list" where
  "received r = (case r of None \<Rightarrow> [] | Some bs \<Rightarrow> take 1024 bs)"

definition count_recvd :: "nat \<Rightarrow> tcp_client \<Rightarrow> tcp_client" where
  "count_recvd n c = c\<lparr>conn := (conn c)\<lparr>bytes_recvd := bytes_recvd (conn c) + word_of_nat n\<rparr>\<rparr>"

text \<open>Bytes for a client with a demarcar: every message that is complete goes to the callback.\<close>

definition demarcate :: "sptr \<Rightarrow> cptr \<Rightarrow> demarcar \<Rightarrow> byte list \<Rightarrow> world \<Rightarrow> world res" where
  "demarcate s p d bs w =
     rbind (server_at w s) (\<lambda>x.
     rbind (ProcessMsg (client_msg_recvd x = Hook) d bs (word_of_nat (length bs))) (\<lambda>(d', msgs).
     rbind (upd_client p (\<lambda>c. c\<lparr>msgd := Some d'\<rparr>) w) (\<lambda>w1.
     Inr (w1\<lparr>events := events w1 @ map (MsgRecvd s p) msgs\<rparr>))))"

text \<open>
  One round of \<open>ClientThreadFunction\<close>. After the end of the connection the thread waits for the
  controller, which cancels it.
\<close>

definition ClientThreadFunction :: "cptr \<Rightarrow> byte list option \<Rightarrow> world \<Rightarrow> world res" where
  "ClientThreadFunction p r w0 =
     rbind (upd_client p (\<lambda>c. c\<lparr>recv_buffer := put_at 0 (received r) (recv_buffer c)\<rparr>) w0) (\<lambda>w.
     rbind (client_at w p) (\<lambda>c.
     rbind (ctrlr_of w p) (\<lambda>s.
     rbind (server_at w s) (\<lambda>x.
     if disconnected r
     then rbind (call_if_set (client_disconnected x) (Disconnected s p) w) (\<lambda>w1.
          rbind (IsStateSet p TCP_CLIENT_STATE_ACTIVE_OPENER w1) (\<lambda>active.
          EnqueMsg s (if active then CTRLR_ACTION_TCP_CLIENT_RECONNECT
                      else CTRLR_ACTION_TCP_CLIENT_DELETE) p True w1))
     else
       (case msgd c of
          Some d \<Rightarrow>
            rbind (upd_client p (count_recvd (length (received r))) w)
              (demarcate s p d (received r))
        | None \<Rightarrow>
            rbind (hook_set (client_msg_recvd x)) (\<lambda>b.
            if b
            then rbind (upd_client p (count_recvd (length (received r))) w)
                   (call_if_set (client_msg_recvd x) (MsgRecvd s p (received r)))
            else Inr w))))))"

section \<open>Connecting\<close>

text \<open>
  What the system answers to an attempt: the descriptor of the socket, the result of \<open>connect\<close>
  and the local port; \<open>getsockname\<close> succeeds on a connected socket.
\<close>

record connect_answer =
  an_fd :: int
  an_rc :: int
  an_port :: u16

text \<open>What follows a successful \<open>connect\<close>.\<close>

definition now_connected :: "cptr \<Rightarrow> u16 \<Rightarrow> world \<Rightarrow> world res" where
  "now_connected p port w =
     rbind (UnSetState p TCP_CLIENT_STATE_CONNECT_IN_PROGRESS w) (\<lambda>w1.
     rbind (SetState p TCP_CLIENT_STATE_CONNECTED w1) (\<lambda>w2.
     rbind (upd_client p (\<lambda>c. c\<lparr>c_port_no := port\<rparr>) w2) (\<lambda>w3.
     rbind (ctrlr_of w3 p) (\<lambda>s.
     rbind (server_at w3 s) (\<lambda>x.
     call_if_set (client_connected x) (Connected s p) w3)))))"

definition TryClientConnect :: "cptr \<Rightarrow> bool \<Rightarrow> connect_answer \<Rightarrow> world \<Rightarrow> (world \<times> int) res" where
  "TryClientConnect p try_again a w =
     rbind (client_at w p) (\<lambda>c.
     rbind (require (\<not> active_connect_thread c \<and> c_ip_addr c \<noteq> 0 \<and> c_port_no c = 0 \<and>
       server_ip_addr c \<noteq> 0 \<and> server_port_no c \<noteq> 0 \<and> comm_fd c = 0) AssertFail) (\<lambda>_.
     rbind (SetState p TCP_CLIENT_STATE_CONNECT_IN_PROGRESS w) (\<lambda>w1.
     rbind (upd_client p (\<lambda>c. c\<lparr>comm_fd := an_fd a\<rparr>) w1) (\<lambda>w2.
     if an_rc a = 0 then rbind (now_connected p (an_port a) w2) (\<lambda>w3. Inr (w3, 0))
     else if \<not> try_again then Inr (w2, -1)
     else rbind (upd_client p (\<lambda>c. c\<lparr>active_connect_thread := True\<rparr>) w2) (\<lambda>w3.
          rbind (Reference p w3) (\<lambda>w4. Inr (w4, 1)))))))"

text \<open>
  One round of \<open>connect_retry_fn\<close>, every ten seconds; the thread ends with the round that
  connects.
\<close>

definition connect_retry_fn :: "cptr \<Rightarrow> connect_answer \<Rightarrow> world \<Rightarrow> world res" where
  "connect_retry_fn p a w =
     rbind (client_at w p) (\<lambda>c.
     let w1 = said (''Trying connecting to ['' @ network_convert_ip_n_to_p (server_ip_addr c) @
                '', '' @ show_nat (unat (server_port_no c)) @ ''] again ....'' @ [NL]) w
     in if an_rc a \<noteq> 0 then Inr w1
        else rbind (now_connected p (an_port a) w1) (\<lambda>w2.
             rbind (ctrlr_of w2 p) (\<lambda>s.
             rbind (EnqueMsg s CTRLR_ACTION_TCP_CLIENT_ACTIVE_CONNECT_SUCCESS p False w2) (\<lambda>w3.
             rbind (upd_client p (\<lambda>c. c\<lparr>active_connect_thread := False\<rparr>) w3) (deref_client p)))))"

end
