(* ===== verification/TcpDb.thy ===== *)
theory TcpDb
  imports TcpClientOps
begin

text \<open>
  The table of the clients of a server, \<^verbatim>\<open>TcpClientDbManager.cpp\<close>: a list of pointers that
  holds one reference to each client in it.
\<close>

section \<open>Access\<close>

definition db_of :: "sptr \<Rightarrow> world \<Rightarrow> cptr list res" where
  "db_of s w =
     rbind (server_at w s) (\<lambda>x. case client_db x of None \<Rightarrow> Inl NullDeref | Some db \<Rightarrow> Inr db)"

definition set_db :: "sptr \<Rightarrow> cptr list \<Rightarrow> world \<Rightarrow> world res" where
  "set_db s db = upd_server s (\<lambda>x. x\<lparr>client_db := Some db\<rparr>)"

text \<open>The walk through a list of clients by address, and the removal of all equal pointers.\<close>

fun lookup_client :: "world \<Rightarrow> u32 \<Rightarrow> u16 \<Rightarrow> cptr list \<Rightarrow> cptr option res" where
  "lookup_client w ip port [] = Inr None"
| "lookup_client w ip port (p # ps) =
     rbind (client_at w p) (\<lambda>c.
     if c_ip_addr c = ip \<and> c_port_no c = port then Inr (Some p) else lookup_client w ip port ps)"

section \<open>Operations\<close>

definition LookUpClientDB :: "sptr \<Rightarrow> u32 \<Rightarrow> u16 \<Rightarrow> world \<Rightarrow> cptr option res" where
  "LookUpClientDB s ip port w = rbind (db_of s w) (lookup_client w ip port)"

definition LookUpClientDB_ThreadSafe :: "sptr \<Rightarrow> u32 \<Rightarrow> u16 \<Rightarrow> world \<Rightarrow> cptr option res" where
  "LookUpClientDB_ThreadSafe = LookUpClientDB"

definition AddClientToDB :: "sptr \<Rightarrow> cptr \<Rightarrow> world \<Rightarrow> world res" where
  "AddClientToDB s p w =
     rbind (client_at w p) (\<lambda>c.
     rbind (LookUpClientDB s (c_ip_addr c) (c_port_no c) w) (\<lambda>found.
     rbind (require (found = None) AssertFail) (\<lambda>_.
     rbind (db_of s w) (\<lambda>db.
     rbind (set_db s (db @ [p]) w) (Reference p)))))"

definition RemoveClientFromDB :: "sptr \<Rightarrow> cptr \<Rightarrow> world \<Rightarrow> world res" where
  "RemoveClientFromDB s p w =
     rbind (db_of s w) (\<lambda>db. rbind (set_db s (removeAll p db) w) (deref_client p))"

text \<open>The overloaded one returns the pointer, or null when that was the last reference.\<close>

definition RemoveClientFromDB_addr :: "sptr \<Rightarrow> u32 \<Rightarrow> u16 \<Rightarrow> world \<Rightarrow> (world \<times> cptr option) res" where
  "RemoveClientFromDB_addr s ip port w =
     rbind (LookUpClientDB s ip port w) (\<lambda>found.
     case found of
       None \<Rightarrow> Inr (w, None)
     | Some p \<Rightarrow>
         rbind (db_of s w) (\<lambda>db.
         rbind (set_db s (removeAll p db) w) (\<lambda>w1.
         rbind (Dereference p w1) (\<lambda>(w2, alive). Inr (w2, if alive then Some p else None)))))"

definition UpdateClient :: "cptr \<Rightarrow> world \<Rightarrow> world" where
  "UpdateClient p w = w"

text \<open>
  The loop of \<open>Purge\<close> over the nodes that are left, the iterator standing one node ahead. When
  that node holds the same pointer, \<open>remove\<close> frees it and the iterator dangles. The pointer
  read behind the last node is never used.
\<close>

function purge_loop :: "(cptr \<Rightarrow> world \<Rightarrow> world res) \<Rightarrow> cptr list \<Rightarrow> world \<Rightarrow> world res" where
  "purge_loop visit [] w = Inr w"
| "purge_loop visit (p # ps) w =
     rbind (visit p w) (\<lambda>w'.
     if ps \<noteq> [] \<and> hd ps = p then Inl UseAfterFree else purge_loop visit (removeAll p ps) w')"
  by pat_completeness auto
termination
  by (relation "measure (\<lambda>(_, ps, _). length ps)") (auto simp: le_imp_less_Suc)

definition purge_one :: "sptr \<Rightarrow> cptr \<Rightarrow> world \<Rightarrow> world res" where
  "purge_one s p w =
     rbind (client_at w p) (\<lambda>c.
     rbind (if client_thread c then StopThread p w else Inr w) (\<lambda>w1.
     RemoveClientFromDB s p w1))"

definition Purge :: "sptr \<Rightarrow> world \<Rightarrow> world res" where
  "Purge s w = rbind (db_of s w) (\<lambda>db. purge_loop (purge_one s) db w)"

definition DisplayClientDb :: "sptr \<Rightarrow> world \<Rightarrow> world res" where
  "DisplayClientDb s w =
     rbind (db_of s w) (foldl (\<lambda>m p. rbind m (Display_client p)) (Inr w))"

text \<open>Every copied pointer takes a reference; \<open>list\<close> is the list appended to.\<close>

definition CopyAllClientsTolist :: "sptr \<Rightarrow> cptr list \<Rightarrow> world \<Rightarrow> (world \<times> cptr list) res" where
  "CopyAllClientsTolist s list w =
     rbind (db_of s w) (\<lambda>db.
     rbind (foldl (\<lambda>m p. rbind m (Reference p)) (Inr w) db) (\<lambda>w'. Inr (w', list @ db)))"

text \<open>The destructor.\<close>

definition delete_db :: "sptr \<Rightarrow> world \<Rightarrow> world res" where
  "delete_db s w =
     rbind (db_of s w) (\<lambda>db.
     rbind (require (db = []) AssertFail) (\<lambda>_. upd_server s (\<lambda>x. x\<lparr>client_db := None\<rparr>) w))"

end
