(* ===== verification/TcpSvc.thy ===== *)
theory TcpSvc
  imports TcpDb
begin

text \<open>
  The services of a server: the one that multiplexes its clients over \<open>select\<close>
  (\<^verbatim>\<open>TcpClientServiceManager.cpp\<close>, the functions in use), and the one that accepts new
  connections (\<^verbatim>\<open>TcpNewConnectionAcceptor.cpp\<close>).
\<close>

section \<open>The client service\<close>

definition svc_of :: "sptr \<Rightarrow> world \<Rightarrow> svc_mgr res" where
  "svc_of s w =
     rbind (server_at w s) (\<lambda>x. case client_svc x of None \<Rightarrow> Inl NullDeref | Some v \<Rightarrow> Inr v)"

definition upd_svc :: "sptr \<Rightarrow> (svc_mgr \<Rightarrow> svc_mgr) \<Rightarrow> world \<Rightarrow> world res" where
  "upd_svc s f w =
     rbind (svc_of s w) (\<lambda>v. upd_server s (\<lambda>x. x\<lparr>client_svc := Some (f v)\<rparr>) w)"

text \<open>
  The constructor, with the descriptor of its UDP socket and the result of \<open>bind\<close>; a failure
  ends the process.
\<close>

definition TcpClientServiceManager :: "int \<Rightarrow> int \<Rightarrow> svc_mgr res" where
  "TcpClientServiceManager fd bind_rc =
     (if fd < 0 \<or> bind_rc = -1 then Inl Exited
      else Inr \<lparr>max_fd = fd, udp_fd = fd, svc_db = [], backup_fd_set = [],
                client_svc_mgr_thread = Some NoThread\<rparr>)"

definition svc_RemoveClientFromDB :: "sptr \<Rightarrow> cptr \<Rightarrow> world \<Rightarrow> world res" where
  "svc_RemoveClientFromDB s p w =
     rbind (upd_svc s (\<lambda>v. v\<lparr>svc_db := removeAll p (svc_db v)\<rparr>) w) (deref_client p)"

definition svc_AddClientToDB :: "sptr \<Rightarrow> cptr \<Rightarrow> world \<Rightarrow> world res" where
  "svc_AddClientToDB s p w =
     rbind (upd_svc s (\<lambda>v. v\<lparr>svc_db := svc_db v @ [p]\<rparr>) w) (Reference p)"

text \<open>\<open>FD_SET\<close> has room for 1024 descriptors.\<close>

definition FD_SET :: "int \<Rightarrow> int list \<Rightarrow> int list res" where
  "FD_SET fd fds = (if 0 \<le> fd \<and> fd < 1024 then Inr (List.insert fd fds) else Inl OutOfBounds)"

fun CopyClientFDtoFDSet :: "world \<Rightarrow> cptr list \<Rightarrow> int list \<Rightarrow> int list res" where
  "CopyClientFDtoFDSet w [] fds = Inr fds"
| "CopyClientFDtoFDSet w (p # ps) fds =
     rbind (client_at w p) (\<lambda>c. rbind (FD_SET (comm_fd c) fds) (CopyClientFDtoFDSet w ps))"

fun max_fd_loop :: "world \<Rightarrow> cptr list \<Rightarrow> int \<Rightarrow> int res" where
  "max_fd_loop w [] m = Inr m"
| "max_fd_loop w (p # ps) m =
     rbind (client_at w p) (\<lambda>c. max_fd_loop w ps (if m < comm_fd c then comm_fd c else m))"

definition GetMaxFdSimple :: "sptr \<Rightarrow> world \<Rightarrow> int res" where
  "GetMaxFdSimple s w = rbind (svc_of s w) (\<lambda>v. max_fd_loop w (svc_db v) 0)"

definition GetMaxFdAdv :: "sptr \<Rightarrow> world \<Rightarrow> int res" where
  "GetMaxFdAdv s w =
     rbind (svc_of s w) (\<lambda>v. rbind (max_fd_loop w (svc_db v) 0) (\<lambda>m.
     Inr (if m < udp_fd v then udp_fd v else m)))"

definition svc_LookUpClientDB :: "sptr \<Rightarrow> u32 \<Rightarrow> u16 \<Rightarrow> world \<Rightarrow> cptr option res" where
  "svc_LookUpClientDB s ip port w = rbind (svc_of s w) (\<lambda>v. lookup_client w ip port (svc_db v))"

text \<open>What the thread does before its loop; only then its creator goes on.\<close>

definition svc_thread_start :: "sptr \<Rightarrow> world \<Rightarrow> world res" where
  "svc_thread_start s w =
     rbind (IsBitSet s TCP_SERVER_NOT_LISTENING_CLIENTS w) (\<lambda>off.
     rbind (svc_of s w) (\<lambda>v.
     rbind (if off then Inr (w, svc_db v) else CopyAllClientsTolist s (svc_db v) w) (\<lambda>(w1, db).
     rbind (upd_svc s (\<lambda>v. v\<lparr>svc_db := db\<rparr>) w1) (\<lambda>w2.
     rbind (GetMaxFdSimple s w2) (\<lambda>m.
     rbind (CopyClientFDtoFDSet w2 db []) (\<lambda>fds.
     upd_svc s (\<lambda>v. v\<lparr>max_fd := m, backup_fd_set := fds\<rparr>) w2))))))"

text \<open>
  What the loop does with a client that \<open>select\<close> found ready and on which \<open>recvfrom\<close> returned
  \<open>r\<close>. The callback for a lost connection is called without a test.
\<close>

definition svc_recv :: "sptr \<Rightarrow> cptr \<Rightarrow> byte list option \<Rightarrow> world \<Rightarrow> world res" where
  "svc_recv s p r w =
     rbind (client_at w p) (\<lambda>c.
     rbind (server_at w s) (\<lambda>x.
     if disconnected r
     then rbind (call_hook (client_disconnected x) (Disconnected s p) w) (\<lambda>w1.
          rbind (upd_svc s (\<lambda>v. v\<lparr>backup_fd_set := removeAll (comm_fd c) (backup_fd_set v)\<rparr>) w1) (\<lambda>w2.
          rbind (GetMaxFdSimple s w2) (\<lambda>m.
          rbind (upd_svc s (\<lambda>v. v\<lparr>max_fd := m\<rparr>) w2)
            (EnqueMsg s CTRLR_ACTION_TCP_CLIENT_RECONNECT p False))))
     else
       rbind (upd_client p (count_recvd (length (received r))) w) (\<lambda>w1.
       case msgd c of
         Some d \<Rightarrow> demarcate s p d (received r) w1
       | None \<Rightarrow> call_if_set (client_msg_recvd x) (MsgRecvd s p (received r)) w1)))"

text \<open>
  \<open>answers\<close> are the results of \<open>recvfrom\<close>, by descriptor, in the order of the calls. A call on a
  descriptor that has nothing more to deliver blocks, and the thread serves nobody from then on.
\<close>

fun take_answer ::
    "int \<Rightarrow> (int \<times> byte list option) list \<Rightarrow> (byte list option \<times> (int \<times> byte list option) list) option" where
  "take_answer fd [] = None"
| "take_answer fd ((k, r) # as) =
     (if k = fd then Some (r, as)
      else map_option (\<lambda>(r', as'). (r', (k, r) # as')) (take_answer fd as))"

fun svc_round ::
    "sptr \<Rightarrow> int list \<Rightarrow> (int \<times> byte list option) list \<Rightarrow> cptr list \<Rightarrow> world \<Rightarrow> world res" where
  "svc_round s active_fd_set answers [] w = Inr w"
| "svc_round s active_fd_set answers (p # ps) w =
     rbind (client_at w p) (\<lambda>c.
     if comm_fd c \<notin> set active_fd_set then svc_round s active_fd_set answers ps w
     else
       (case take_answer (comm_fd c) answers of
          None \<Rightarrow> Inl Diverges
        | Some (r, answers') \<Rightarrow>
            rbind (svc_recv s p r w) (svc_round s active_fd_set answers' ps)))"

text \<open>
  \<open>select\<close> keeps the descriptors of the set, up to \<open>max_fd\<close>, on which something can be read.
\<close>

definition select_fds :: "svc_mgr \<Rightarrow> int list \<Rightarrow> int list" where
  "select_fds v readable = filter (\<lambda>fd. fd \<le> max_fd v \<and> fd \<in> set readable) (backup_fd_set v)"

definition svc_thread_round ::
    "sptr \<Rightarrow> int list \<Rightarrow> (int \<times> byte list option) list \<Rightarrow> world \<Rightarrow> world res" where
  "svc_thread_round s readable answers w =
     rbind (svc_of s w) (\<lambda>v.
     svc_round s (select_fds v readable) answers (svc_db v) w)"

definition StartTcpClientServiceManagerThread :: "sptr \<Rightarrow> world \<Rightarrow> world res" where
  "StartTcpClientServiceManagerThread s w =
     rbind (upd_svc s (\<lambda>v. v\<lparr>client_svc_mgr_thread := Some Thread\<rparr>) w) (\<lambda>w1.
     rbind (svc_thread_start s w1) (\<lambda>w2.
     Inr (said (''Service started : TcpClientServiceManagerThread'' @ [NL]) w2)))"

text \<open>Cancelling a thread that was never created uses a null thread identifier.\<close>

definition StopTcpClientServiceManagerThread :: "sptr \<Rightarrow> world \<Rightarrow> world res" where
  "StopTcpClientServiceManagerThread s w =
     rbind (svc_of s w) (\<lambda>v.
     case client_svc_mgr_thread v of
       None \<Rightarrow> Inr w
     | Some NoThread \<Rightarrow> Inl NullDeref
     | Some Thread \<Rightarrow>
         rbind (upd_svc s (\<lambda>v. v\<lparr>client_svc_mgr_thread := None\<rparr>) w) (\<lambda>w1.
         Inr (said (''Service stopped : TcpClientServiceManagerThread'' @ [NL]) w1)))"

definition ClientFDStartListenSimple :: "sptr \<Rightarrow> cptr \<Rightarrow> world \<Rightarrow> world res" where
  "ClientFDStartListenSimple s p w =
     rbind (svc_of s w) (\<lambda>_.
     rbind (IsBitSet s TCP_SERVER_NOT_LISTENING_CLIENTS w) (\<lambda>off.
     rbind (if off then Inr w
            else rbind (StopTcpClientServiceManagerThread s w) (\<lambda>w1.
                 Inr (said (''Client Svc Mgr thread Cancelled'' @ [NL]) w1))) (\<lambda>w1.
     rbind (client_at w1 p) (\<lambda>c.
     rbind (svc_LookUpClientDB s (c_ip_addr c) (c_port_no c) w1) (\<lambda>found.
     rbind (require (found = None) AssertFail) (\<lambda>_.
     rbind (svc_AddClientToDB s p w1) (\<lambda>w2.
     rbind (SetState p TCP_CLIENT_STATE_MULTIPLEX_LISTEN w2) (\<lambda>w3.
     if off then Inr w3 else StartTcpClientServiceManagerThread s w3))))))))"

definition ClientFDStopListenSimple :: "sptr \<Rightarrow> cptr \<Rightarrow> world \<Rightarrow> world res" where
  "ClientFDStopListenSimple s p w =
     rbind (svc_of s w) (\<lambda>_.
     rbind (IsBitSet s TCP_SERVER_NOT_LISTENING_CLIENTS w) (\<lambda>off.
     rbind (if off then Inr w else StopTcpClientServiceManagerThread s w) (\<lambda>w1.
     rbind (client_at w1 p) (\<lambda>c.
     rbind (svc_LookUpClientDB s (c_ip_addr c) (c_port_no c) w1) (\<lambda>found.
     rbind (require (found \<noteq> None) AssertFail) (\<lambda>_.
     rbind (svc_RemoveClientFromDB s p w1) (\<lambda>w2.
     rbind (UnSetState p TCP_CLIENT_STATE_MULTIPLEX_LISTEN w2) (\<lambda>w3.
     if off then Inr w3 else StartTcpClientServiceManagerThread s w3))))))))"

definition svc_purge_one :: "sptr \<Rightarrow> cptr \<Rightarrow> world \<Rightarrow> world res" where
  "svc_purge_one s p w =
     rbind (upd_svc s (\<lambda>v. v\<lparr>svc_db := removeAll p (svc_db v)\<rparr>) w) (\<lambda>w1.
     rbind (UnSetState p TCP_CLIENT_STATE_MULTIPLEX_LISTEN w1) (deref_client p))"

definition svc_Purge :: "sptr \<Rightarrow> world \<Rightarrow> world res" where
  "svc_Purge s w =
     rbind (svc_of s w) (\<lambda>v.
     rbind (require (client_svc_mgr_thread v = None) AssertFail) (\<lambda>_.
     purge_loop (svc_purge_one s) (svc_db v) w))"

text \<open>\<open>Stop\<close> ends with \<open>delete this\<close>: the destructor, and the pointer of the owner dangles
  until the owner resets it.\<close>

definition svc_Stop :: "sptr \<Rightarrow> world \<Rightarrow> world res" where
  "svc_Stop s w =
     rbind (StopTcpClientServiceManagerThread s w) (\<lambda>w1.
     rbind (svc_of s w1) (\<lambda>v.
     rbind (upd_svc s (\<lambda>v. v\<lparr>udp_fd := 0\<rparr>) (log_event (ClosedFd (udp_fd v)) w1)) (\<lambda>w2.
     rbind (svc_Purge s w2) (\<lambda>w3.
     rbind (svc_of s w3) (\<lambda>v.
     rbind (require (svc_db v = [] \<and> udp_fd v = 0 \<and> client_svc_mgr_thread v = None) AssertFail) (\<lambda>_.
     Inr w3))))))"

section \<open>The acceptor\<close>

definition acc_of :: "sptr \<Rightarrow> world \<Rightarrow> acceptor res" where
  "acc_of s w =
     rbind (server_at w s) (\<lambda>x. case new_conn_acc x of None \<Rightarrow> Inl NullDeref | Some a \<Rightarrow> Inr a)"

definition upd_acc :: "sptr \<Rightarrow> (acceptor \<Rightarrow> acceptor) \<Rightarrow> world \<Rightarrow> world res" where
  "upd_acc s f w =
     rbind (acc_of s w) (\<lambda>a. upd_server s (\<lambda>x. x\<lparr>new_conn_acc := Some (f a)\<rparr>) w)"

definition TcpNewConnectionAcceptor :: "int \<Rightarrow> acceptor res" where
  "TcpNewConnectionAcceptor fd =
     (if fd < 0 then Inl Exited
      else Inr \<lparr>accept_fd = fd, accept_new_conn_thread = Some NoThread, accept_new_conn = True\<rparr>)"

text \<open>
  The thread sets up its socket before its creator goes on; \<open>setup\<close> tells whether the system
  accepts the options, the address and the backlog.
\<close>

definition StartTcpNewConnectionAcceptorThread :: "sptr \<Rightarrow> bool \<Rightarrow> world \<Rightarrow> world res" where
  "StartTcpNewConnectionAcceptorThread s setup w =
     rbind (acc_of s w) (\<lambda>a.
     rbind (require (accept_new_conn_thread a \<noteq> None) NullDeref) (\<lambda>_.
     rbind (upd_acc s (\<lambda>a. a\<lparr>accept_new_conn_thread := Some Thread\<rparr>) w) (\<lambda>w1.
     rbind (require setup Exited) (\<lambda>_.
     Inr (said (''Service started : TcpNewConnectionAcceptorThread'' @ [NL]) w1)))))"

definition SetAcceptNewConnectionStatus :: "sptr \<Rightarrow> bool \<Rightarrow> world \<Rightarrow> world res" where
  "SetAcceptNewConnectionStatus s status = upd_acc s (\<lambda>a. a\<lparr>accept_new_conn := status\<rparr>)"

definition ascii :: "string \<Rightarrow> byte list" where
  "ascii = map (\<lambda>c. word_of_nat (of_char c))"

text \<open>
  One round of the thread: \<open>accept\<close> returned \<open>fd\<close> for a peer with the given address, and
  \<open>sendto\<close> returns \<open>rc\<close> for the greeting.
\<close>

definition accept_round :: "sptr \<Rightarrow> int \<Rightarrow> u32 \<Rightarrow> u16 \<Rightarrow> int \<Rightarrow> world \<Rightarrow> world res" where
  "accept_round s fd ip port rc w =
     rbind (acc_of s w) (\<lambda>a.
     if fd < 0 then Inr (said (''Error in Accepting New Connections'' @ [NL]) w)
     else if \<not> accept_new_conn a then Inr (log_event (ClosedFd fd) w)
     else
       rbind (server_at w s) (\<lambda>x.
       case TcpClient w of (p, w1) \<Rightarrow>
       rbind (upd_client p (\<lambda>c. c\<lparr>comm_fd := fd, c_ip_addr := ip, c_port_no := port,
                c_ctrlr := Some s, server_ip_addr := s_ip_addr x, server_port_no := s_port_no x\<rparr>)
               w1) (\<lambda>w2.
       rbind (SetState p (TCP_CLIENT_STATE_CONNECTED OR TCP_CLIENT_STATE_PASSIVE_OPENER) w2) (\<lambda>w3.
       rbind (SetConnectionType p tcp_conn_via_accept w3) (\<lambda>w4.
       rbind (call_if_set (client_connected x) (Connected s p) w4) (\<lambda>w5.
       rbind (SendMsg p (ascii (''Welcome'' @ [NL])) rc w5) (\<lambda>(w6, _).
       rbind (SetTcpMsgDemarcar p (InstantiateTcpMsgDemarcar TCP_DEMARCAR_NONE 0) w6) (\<lambda>w7.
       EnqueMsg s
         (CTRLR_ACTION_TCP_CLIENT_PROCESS_NEW OR
          (if bit_set (s_state_flags x) TCP_SERVER_CREATE_MULTI_THREADED_CLIENT
           then CTRLR_ACTION_TCP_CLIENT_CREATE_THREADED
           else CTRLR_ACTION_TCP_CLIENT_MULTIPLEX_LISTEN)) p False w7))))))))"

definition StopTcpNewConnectionAcceptorThread :: "sptr \<Rightarrow> world \<Rightarrow> world res" where
  "StopTcpNewConnectionAcceptorThread s w =
     rbind (acc_of s w) (\<lambda>a.
     case accept_new_conn_thread a of
       Some Thread \<Rightarrow> upd_acc s (\<lambda>a. a\<lparr>accept_new_conn_thread := None\<rparr>) w
     | _ \<Rightarrow> Inl NullDeref)"

definition acc_Stop :: "sptr \<Rightarrow> world \<Rightarrow> world res" where
  "acc_Stop s w =
     rbind (StopTcpNewConnectionAcceptorThread s w) (\<lambda>w1.
     rbind (acc_of s w1) (\<lambda>a.
     rbind (upd_acc s (\<lambda>a. a\<lparr>accept_fd := 0\<rparr>) (log_event (ClosedFd (accept_fd a)) w1)) (\<lambda>w2.
     rbind (acc_of s w2) (\<lambda>a.
     rbind (require (accept_fd a = 0 \<and> accept_new_conn_thread a = None) AssertFail) (\<lambda>_.
     Inr w2)))))"

end
