(* ===== verification/CourseState.thy ===== *)
theory CourseState
  imports CourseBuffer TcpSvc
begin

text \<open>
  The objects of the server under \<^verbatim>\<open>Course\<close>: clients (\<^verbatim>\<open>Course/TcpClient.h\<close>), the three parts of
  a server (\<^verbatim>\<open>Course/TcpNewConnectionAcceptor.h\<close>, \<^verbatim>\<open>Course/TcpClientDBManager.h\<close>,
  \<^verbatim>\<open>Course/TcpClientServiceManager.h\<close>) and the controller (\<^verbatim>\<open>Course/TcpServerController.h\<close>). This
  edition counts no references and has no message queue: the acceptor hands a client to the
  controller, which enters it into the table and restarts the client service.

  As in the model of the current edition pointers are positions in pools, a freed object is
  \<open>None\<close>, every operation is one atomic step of its thread, and what the system answers is an
  argument.
\<close>

section \<open>Objects\<close>

record co_client =
  co_ip :: u32
  co_port :: u16
  co_server_ip :: u32
  co_server_port :: u16
  co_fd :: int
  co_ctrlr :: "sptr option"
  co_msgd :: "demarcar option"

text \<open>\<open>acc_bound\<close>: the socket has an address, so that \<open>bind\<close> refuses it.\<close>

record co_acceptor =
  acc_fd :: int
  acc_thread :: "thread_cell option"
  acc_bound :: bool

text \<open>\<open>rcv_bytes\<close> is a variable of the thread, without a value when the thread starts.\<close>

record co_svc =
  mgr_max_fd :: int
  mgr_fds :: "int list"
  mgr_thread :: "thread_cell option"
  mgr_db :: "cptr list"
  rcv_bytes :: "int option"

record co_server =
  co_acc :: "co_acceptor option"
  co_db :: "cptr list option"
  co_svc :: "co_svc option"
  co_flags :: u32
  co_srv_ip :: u32
  co_srv_port :: u16
  co_name :: string
  co_connected :: hook
  co_disconnected :: hook
  co_msg_recvd :: hook

text \<open>
  \<open>client_recv_buffer\<close> is one global variable. \<open>co_raw\<close> and \<open>co_raw_flags\<close> are the contents of
  the memory that a new client and a new server get: their constructors leave them as they are.
\<close>

record co_world =
  co_heap :: "co_client option list"
  co_servers :: "co_server option list"
  client_recv_buffer :: "byte list"
  co_raw :: co_client
  co_raw_flags :: u32
  co_events :: "event list"

definition co_client_at :: "co_world \<Rightarrow> cptr \<Rightarrow> co_client res" where
  "co_client_at w p =
     (if p < length (co_heap w)
      then (case co_heap w ! p of None \<Rightarrow> Inl UseAfterFree | Some c \<Rightarrow> Inr c) else Inl UseAfterFree)"

definition set_co_client :: "cptr \<Rightarrow> co_client option \<Rightarrow> co_world \<Rightarrow> co_world" where
  "set_co_client p x w = w\<lparr>co_heap := (co_heap w)[p := x]\<rparr>"

definition upd_co_client :: "cptr \<Rightarrow> (co_client \<Rightarrow> co_client) \<Rightarrow> co_world \<Rightarrow> co_world res" where
  "upd_co_client p f w = rbind (co_client_at w p) (\<lambda>c. Inr (set_co_client p (Some (f c)) w))"

definition co_server_at :: "co_world \<Rightarrow> sptr \<Rightarrow> co_server res" where
  "co_server_at w s =
     (if s < length (co_servers w)
      then (case co_servers w ! s of None \<Rightarrow> Inl UseAfterFree | Some x \<Rightarrow> Inr x) else Inl UseAfterFree)"

definition set_co_server :: "sptr \<Rightarrow> co_server option \<Rightarrow> co_world \<Rightarrow> co_world" where
  "set_co_server s x w = w\<lparr>co_servers := (co_servers w)[s := x]\<rparr>"

definition upd_co_server :: "sptr \<Rightarrow> (co_server \<Rightarrow> co_server) \<Rightarrow> co_world \<Rightarrow> co_world res" where
  "upd_co_server s f w = rbind (co_server_at w s) (\<lambda>x. Inr (set_co_server s (Some (f x)) w))"

definition co_log :: "event \<Rightarrow> co_world \<Rightarrow> co_world" where
  "co_log e w = w\<lparr>co_events := co_events w @ [e]\<rparr>"

abbreviation co_said :: "string \<Rightarrow> co_world \<Rightarrow> co_world" where
  "co_said s \<equiv> co_log (Said s)"

definition co_call_if_set :: "hook \<Rightarrow> event \<Rightarrow> co_world \<Rightarrow> co_world res" where
  "co_call_if_set h e w = rbind (hook_set h) (\<lambda>b. Inr (if b then co_log e w else w))"

section \<open>Flags\<close>

definition SetBit_course :: "sptr \<Rightarrow> u32 \<Rightarrow> co_world \<Rightarrow> co_world res" where
  "SetBit_course s b = upd_co_server s (\<lambda>x. x\<lparr>co_flags := co_flags x OR b\<rparr>)"

definition UnSetBit_course :: "sptr \<Rightarrow> u32 \<Rightarrow> co_world \<Rightarrow> co_world res" where
  "UnSetBit_course s b = upd_co_server s (\<lambda>x. x\<lparr>co_flags := co_flags x AND NOT b\<rparr>)"

definition IsBitSet_course :: "sptr \<Rightarrow> u32 \<Rightarrow> co_world \<Rightarrow> bool res" where
  "IsBitSet_course s b w = rbind (co_server_at w s) (\<lambda>x. Inr (bit_set (co_flags x) b))"

section \<open>Clients\<close>

definition TcpClient_course :: "u32 \<Rightarrow> u16 \<Rightarrow> co_world \<Rightarrow> cptr \<times> co_world" where
  "TcpClient_course ip port w =
     (length (co_heap w), w\<lparr>co_heap := co_heap w @ [Some ((co_raw w)\<lparr>co_ip := ip, co_port := port\<rparr>)]\<rparr>)"

definition Display_course :: "cptr \<Rightarrow> co_world \<Rightarrow> co_world res" where
  "Display_course p w =
     rbind (co_client_at w p) (\<lambda>c. Inr (co_said
       (''Tcp Client : ['' @ network_convert_ip_n_to_p (co_ip c) @ '' , '' @ show_nat (unat (co_port c)) @
        ''] connected to ['' @ network_convert_ip_n_to_p (co_server_ip c) @ '', '' @
        show_nat (unat (co_server_port c)) @ '']'' @ [NL]) w))"

text \<open>\<open>Abort\<close> ends with \<open>delete this\<close>.\<close>

definition Abort_course :: "cptr \<Rightarrow> co_world \<Rightarrow> co_world res" where
  "Abort_course p w =
     rbind (co_client_at w p) (\<lambda>c.
     let w1 = (if co_fd c \<noteq> 0 then co_log (ClosedFd (co_fd c)) w else w) in
     rbind (case co_msgd c of None \<Rightarrow> Inr () | Some d \<Rightarrow> delete_demarcar (Destroy d)) (\<lambda>_.
     Inr (set_co_client p None w1)))"

section \<open>The table of the clients\<close>

definition co_db_of :: "sptr \<Rightarrow> co_world \<Rightarrow> cptr list res" where
  "co_db_of s w =
     rbind (co_server_at w s) (\<lambda>x. case co_db x of None \<Rightarrow> Inl NullDeref | Some db \<Rightarrow> Inr db)"

definition set_co_db :: "sptr \<Rightarrow> cptr list option \<Rightarrow> co_world \<Rightarrow> co_world res" where
  "set_co_db s db = upd_co_server s (\<lambda>x. x\<lparr>co_db := db\<rparr>)"

definition AddClientToDB_course :: "sptr \<Rightarrow> cptr \<Rightarrow> co_world \<Rightarrow> co_world res" where
  "AddClientToDB_course s p w = rbind (co_db_of s w) (\<lambda>db. set_co_db s (Some (db @ [p])) w)"

definition DisplayClientDb_course :: "sptr \<Rightarrow> co_world \<Rightarrow> co_world res" where
  "DisplayClientDb_course s w =
     rbind (co_db_of s w) (foldl (\<lambda>m p. rbind m (Display_course p)) (Inr w))"

text \<open>The pointers are appended to \<open>list\<close>.\<close>

definition CopyAllClientsTolist_course :: "sptr \<Rightarrow> cptr list \<Rightarrow> co_world \<Rightarrow> cptr list res" where
  "CopyAllClientsTolist_course s list w = rbind (co_db_of s w) (\<lambda>db. Inr (list @ db))"

text \<open>
  A loop that removes all entries of the pointer it visits while its iterator stands one node
  ahead; when that node holds the same pointer, the iterator dangles.
\<close>

function co_purge_loop ::
    "(cptr \<Rightarrow> co_world \<Rightarrow> co_world res) \<Rightarrow> cptr list \<Rightarrow> co_world \<Rightarrow> co_world res" where
  "co_purge_loop visit [] w = Inr w"
| "co_purge_loop visit (p # ps) w =
     rbind (visit p w) (\<lambda>w'.
     if ps \<noteq> [] \<and> hd ps = p then Inl UseAfterFree else co_purge_loop visit (removeAll p ps) w')"
  by pat_completeness auto
termination
  by (relation "measure (\<lambda>(_, ps, _). length ps)") (auto simp: le_imp_less_Suc)

definition db_purge_one :: "sptr \<Rightarrow> cptr \<Rightarrow> co_world \<Rightarrow> co_world res" where
  "db_purge_one s p w =
     rbind (co_db_of s w) (\<lambda>db.
     rbind (set_co_db s (Some (removeAll p db)) w) (Abort_course p))"

definition Purge_course :: "sptr \<Rightarrow> co_world \<Rightarrow> co_world res" where
  "Purge_course s w = rbind (co_db_of s w) (\<lambda>db. co_purge_loop (db_purge_one s) db w)"

section \<open>The client service\<close>

definition co_svc_of :: "sptr \<Rightarrow> co_world \<Rightarrow> co_svc res" where
  "co_svc_of s w =
     rbind (co_server_at w s) (\<lambda>x. case co_svc x of None \<Rightarrow> Inl NullDeref | Some v \<Rightarrow> Inr v)"

definition upd_co_svc :: "sptr \<Rightarrow> (co_svc \<Rightarrow> co_svc) \<Rightarrow> co_world \<Rightarrow> co_world res" where
  "upd_co_svc s f w =
     rbind (co_svc_of s w) (\<lambda>v. upd_co_server s (\<lambda>x. x\<lparr>co_svc := Some (f v)\<rparr>) w)"

definition TcpClientServiceManager_course :: co_svc where
  "TcpClientServiceManager_course =
     \<lparr>mgr_max_fd = 0, mgr_fds = [], mgr_thread = Some NoThread, mgr_db = [], rcv_bytes = None\<rparr>"

fun co_max_fd_loop :: "co_world \<Rightarrow> cptr list \<Rightarrow> int \<Rightarrow> int res" where
  "co_max_fd_loop w [] m = Inr m"
| "co_max_fd_loop w (p # ps) m =
     rbind (co_client_at w p) (\<lambda>c. co_max_fd_loop w ps (if m < co_fd c then co_fd c else m))"

definition GetMaxFd :: "sptr \<Rightarrow> co_world \<Rightarrow> int res" where
  "GetMaxFd s w = rbind (co_svc_of s w) (\<lambda>v. co_max_fd_loop w (mgr_db v) 0)"

fun CopyClientFDtoFDSet_course :: "co_world \<Rightarrow> cptr list \<Rightarrow> int list \<Rightarrow> int list res" where
  "CopyClientFDtoFDSet_course w [] fds = Inr fds"
| "CopyClientFDtoFDSet_course w (p # ps) fds =
     rbind (co_client_at w p) (\<lambda>c.
     rbind (FD_SET (co_fd c) fds) (CopyClientFDtoFDSet_course w ps))"

definition mgr_AddClientToDB :: "sptr \<Rightarrow> cptr \<Rightarrow> co_world \<Rightarrow> co_world res" where
  "mgr_AddClientToDB s p = upd_co_svc s (\<lambda>v. v\<lparr>mgr_db := mgr_db v @ [p]\<rparr>)"

text \<open>
  What the thread does before its loop. Its creator sleeps for a second meanwhile.
\<close>

definition mgr_thread_start :: "sptr \<Rightarrow> co_world \<Rightarrow> co_world res" where
  "mgr_thread_start s w =
     rbind (IsBitSet_course s TCP_SERVER_NOT_LISTENING_CLIENTS w) (\<lambda>off.
     rbind (co_svc_of s w) (\<lambda>v.
     rbind (if off then CopyAllClientsTolist_course s (mgr_db v) w else Inr (mgr_db v)) (\<lambda>db.
     rbind (upd_co_svc s (\<lambda>v. v\<lparr>mgr_db := db, rcv_bytes := None\<rparr>) w) (\<lambda>w1.
     rbind (GetMaxFd s w1) (\<lambda>m.
     rbind (CopyClientFDtoFDSet_course w1 db []) (\<lambda>fds.
     upd_co_svc s (\<lambda>v. v\<lparr>mgr_max_fd := m, mgr_fds := fds\<rparr>) w1))))))"

text \<open>\<open>memset(client_recv_buffer, 0, rcv_bytes)\<close>, for every client of a round.\<close>

definition clear_recv_buffer :: "int option \<Rightarrow> co_world \<Rightarrow> co_world res" where
  "clear_recv_buffer n w =
     (case n of
        None \<Rightarrow> Inl Indeterminate
      | Some k \<Rightarrow>
          if 0 \<le> k \<and> k \<le> int (length (client_recv_buffer w))
          then Inr (w\<lparr>client_recv_buffer := put_at 0 (replicate (nat k) 0) (client_recv_buffer w)\<rparr>)
          else Inl OutOfBounds)"

text \<open>
  What \<open>recvfrom\<close> returns for one client, at most 1024 bytes or an error, and what is done with it;
  \<open>err\<close> is the value of \<open>errno\<close>. The size is converted to sixteen bits by both receivers. The
  demarcar calls the callback of the application without a test.
\<close>

definition recv_count :: "byte list option \<Rightarrow> int" where
  "recv_count r = (case r of None \<Rightarrow> -1 | Some bs \<Rightarrow> int (length bs))"

definition mgr_recv :: "int \<Rightarrow> sptr \<Rightarrow> cptr \<Rightarrow> byte list option \<Rightarrow> co_world \<Rightarrow> co_world res" where
  "mgr_recv err s p r w =
     rbind (co_client_at w p) (\<lambda>c.
     rbind (co_server_at w s) (\<lambda>x.
     let buf = (case r of None \<Rightarrow> client_recv_buffer w | Some bs \<Rightarrow> put_at 0 bs (client_recv_buffer w));
         n = word_of_int (recv_count r) :: u16;
         w1 = w\<lparr>client_recv_buffer := buf\<rparr>;
         w2 = (if recv_count r = 0 then co_said (''error no = '' @ show_int err @ [NL]) w1 else w1)
     in case co_msgd c of
          None \<Rightarrow> co_call_if_set (co_msg_recvd x) (MsgRecvd s p (take (unat n) buf)) w2
        | Some d \<Rightarrow>
            rbind (ProcessMsg_course (co_msg_recvd x = Hook) d buf n) (\<lambda>(d', msgs).
            rbind (upd_co_client p (\<lambda>c. c\<lparr>co_msgd := Some d'\<rparr>) w2) (\<lambda>w3.
            Inr (foldl (\<lambda>w m. co_log (MsgRecvd s p m) w) w3 msgs)))))"

fun mgr_round ::
    "int \<Rightarrow> sptr \<Rightarrow> int list \<Rightarrow> (int \<times> byte list option) list \<Rightarrow> cptr list \<Rightarrow> int option \<Rightarrow> co_world \<Rightarrow>
     (int option \<times> co_world) res" where
  "mgr_round err s active_fd_set answers [] n w = Inr (n, w)"
| "mgr_round err s active_fd_set answers (p # ps) n w =
     rbind (co_client_at w p) (\<lambda>c.
     if co_fd c \<notin> set active_fd_set
     then rbind (clear_recv_buffer n w) (mgr_round err s active_fd_set answers ps n)
     else
       (case take_answer (co_fd c) answers of
          None \<Rightarrow> Inl Diverges
        | Some (r, answers') \<Rightarrow>
            rbind (mgr_recv err s p r w) (\<lambda>w1.
            rbind (clear_recv_buffer (Some (recv_count r)) w1)
              (mgr_round err s active_fd_set answers' ps (Some (recv_count r))))))"

text \<open>One round of the loop; \<open>readable\<close> are the descriptors on which something can be read.\<close>

definition mgr_thread_round ::
    "int \<Rightarrow> sptr \<Rightarrow> int list \<Rightarrow> (int \<times> byte list option) list \<Rightarrow> co_world \<Rightarrow> co_world res" where
  "mgr_thread_round err s readable answers w =
     rbind (co_svc_of s w) (\<lambda>v.
     let active = filter (\<lambda>fd. fd \<le> mgr_max_fd v \<and> fd \<in> set readable) (mgr_fds v) in
     rbind (mgr_round err s active answers (mgr_db v) (rcv_bytes v) w) (\<lambda>(n, w1).
     upd_co_svc s (\<lambda>v. v\<lparr>rcv_bytes := n\<rparr>) w1))"

definition StartTcpClientServiceManagerThread_course :: "sptr \<Rightarrow> co_world \<Rightarrow> co_world res" where
  "StartTcpClientServiceManagerThread_course s w =
     rbind (co_svc_of s w) (\<lambda>v.
     rbind (require (mgr_thread v \<noteq> None) NullDeref) (\<lambda>_.
     rbind (upd_co_svc s (\<lambda>v. v\<lparr>mgr_thread := Some Thread\<rparr>) w) (\<lambda>w1.
     rbind (mgr_thread_start s w1) (\<lambda>w2.
     Inr (co_said (''Service started : TcpClientServiceManagerThread'' @ [NL]) w2)))))"

definition StopTcpClientServiceManagerThread_course :: "sptr \<Rightarrow> co_world \<Rightarrow> co_world res" where
  "StopTcpClientServiceManagerThread_course s w =
     rbind (co_svc_of s w) (\<lambda>v.
     case mgr_thread v of
       Some Thread \<Rightarrow> upd_co_svc s (\<lambda>v. v\<lparr>mgr_thread := None\<rparr>) w
     | _ \<Rightarrow> Inl NullDeref)"

definition ClientFDStartListen_course :: "sptr \<Rightarrow> cptr \<Rightarrow> co_world \<Rightarrow> co_world res" where
  "ClientFDStartListen_course s p w =
     rbind (StopTcpClientServiceManagerThread_course s w) (\<lambda>w1.
     rbind (mgr_AddClientToDB s p (co_said (''Client Svc Mgr Thread is cancelled'' @ [NL]) w1)) (\<lambda>w2.
     rbind (upd_co_svc s (\<lambda>v. v\<lparr>mgr_thread := Some NoThread\<rparr>) w2)
       (StartTcpClientServiceManagerThread_course s)))"

definition mgr_purge_one :: "sptr \<Rightarrow> cptr \<Rightarrow> co_world \<Rightarrow> co_world res" where
  "mgr_purge_one s p = upd_co_svc s (\<lambda>v. v\<lparr>mgr_db := removeAll p (mgr_db v)\<rparr>)"

text \<open>Ends with \<open>delete this\<close>; the pointer of the controller dangles until it is reset.\<close>

definition mgr_Stop :: "sptr \<Rightarrow> co_world \<Rightarrow> co_world res" where
  "mgr_Stop s w =
     rbind (StopTcpClientServiceManagerThread_course s w) (\<lambda>w1.
     rbind (co_svc_of s w1) (\<lambda>v.
     rbind (require (mgr_thread v = None) AssertFail) (\<lambda>_.
     co_purge_loop (mgr_purge_one s) (mgr_db v) w1)))"

end
