(* ===== verification/CourseCtrl.thy ===== *)
theory CourseCtrl
  imports CourseState
begin

text \<open>
  The acceptor and the controller of the server under \<^verbatim>\<open>Course\<close>
  (\<^verbatim>\<open>Course/TcpNewConnectionAcceptor.cpp\<close>, \<^verbatim>\<open>Course/TcpServerController.cpp\<close>).
\<close>

section \<open>The acceptor\<close>

definition co_acc_of :: "sptr \<Rightarrow> co_world \<Rightarrow> co_acceptor res" where
  "co_acc_of s w =
     rbind (co_server_at w s) (\<lambda>x. case co_acc x of None \<Rightarrow> Inl NullDeref | Some a \<Rightarrow> Inr a)"

definition set_co_acc :: "sptr \<Rightarrow> co_acceptor option \<Rightarrow> co_world \<Rightarrow> co_world res" where
  "set_co_acc s a = upd_co_server s (\<lambda>x. x\<lparr>co_acc := a\<rparr>)"

text \<open>The constructor, with the descriptor that \<open>socket\<close> returns.\<close>

definition TcpNewConnectionAcceptor_course :: "int \<Rightarrow> co_acceptor res" where
  "TcpNewConnectionAcceptor_course fd =
     (if fd < 0 then Inl Exited
      else Inr \<lparr>acc_fd = fd, acc_thread = Some NoThread, acc_bound = False\<rparr>)"

text \<open>
  What the thread does to its socket before its loop; \<open>ok\<close> tells whether the system accepts the
  options, the address and the backlog. A socket that has an address already is refused.
\<close>

definition acceptor_listen :: "bool \<Rightarrow> co_acceptor \<Rightarrow> co_acceptor res" where
  "acceptor_listen ok a = (if ok \<and> \<not> acc_bound a then Inr (a\<lparr>acc_bound := True\<rparr>) else Inl Exited)"

definition StartTcpNewConnectionAcceptorThread_course :: "sptr \<Rightarrow> bool \<Rightarrow> co_world \<Rightarrow> co_world res" where
  "StartTcpNewConnectionAcceptorThread_course s ok w =
     rbind (co_acc_of s w) (\<lambda>a.
     rbind (require (acc_thread a \<noteq> None) NullDeref) (\<lambda>_.
     rbind (acceptor_listen ok a) (\<lambda>a'.
     rbind (set_co_acc s (Some (a'\<lparr>acc_thread := Some Thread\<rparr>)) w) (\<lambda>w1.
     Inr (co_said (''Service Started : TcpNewConnectionAcceptorThread'' @ [NL]) w1)))))"

lemma start_acceptor_eq:
  "StartTcpNewConnectionAcceptorThread_course s ok w =
     rbind (co_acc_of s w) (\<lambda>a.
     rbind (require (acc_thread a \<noteq> None) NullDeref) (\<lambda>_.
     rbind (require (ok \<and> \<not> acc_bound a) Exited) (\<lambda>_.
     rbind (set_co_acc s (Some (a\<lparr>acc_thread := Some Thread, acc_bound := True\<rparr>)) w) (\<lambda>w1.
     Inr (co_said (''Service Started : TcpNewConnectionAcceptorThread'' @ [NL]) w1)))))"
proof -
  have "rbind (acceptor_listen ok a) f = rbind (require (ok \<and> \<not> acc_bound a) Exited) (\<lambda>_. f (a\<lparr>acc_bound := True\<rparr>))"
    for a and f :: "co_acceptor \<Rightarrow> co_world res"
    by (simp add: acceptor_listen_def require_def)
  moreover have "a\<lparr>acc_bound := True, acc_thread := Some Thread\<rparr> = a\<lparr>acc_thread := Some Thread, acc_bound := True\<rparr>"
    for a :: co_acceptor by simp
  ultimately show ?thesis by (simp only: StartTcpNewConnectionAcceptorThread_course_def)
qed

definition StopTcpNewConnectionAcceptorThread_course :: "sptr \<Rightarrow> co_world \<Rightarrow> co_world res" where
  "StopTcpNewConnectionAcceptorThread_course s w =
     rbind (co_acc_of s w) (\<lambda>a.
     case acc_thread a of
       None \<Rightarrow> Inr w
     | Some NoThread \<Rightarrow> Inl NullDeref
     | Some Thread \<Rightarrow> set_co_acc s (Some (a\<lparr>acc_thread := None\<rparr>)) w)"

text \<open>Ends with \<open>delete this\<close>; the pointer of the controller dangles until it is reset.\<close>

definition acc_Stop_course :: "sptr \<Rightarrow> co_world \<Rightarrow> co_world res" where
  "acc_Stop_course s w =
     rbind (StopTcpNewConnectionAcceptorThread_course s w) (\<lambda>w1.
     rbind (co_acc_of s w1) (\<lambda>a.
     set_co_acc s (Some (a\<lparr>acc_fd := 0\<rparr>)) (co_log (ClosedFd (acc_fd a)) w1)))"

section \<open>The controller\<close>

definition ProcessNewClient_course :: "sptr \<Rightarrow> cptr \<Rightarrow> co_world \<Rightarrow> co_world res" where
  "ProcessNewClient_course s p w =
     rbind (co_server_at w s) (\<lambda>_.
     rbind (AddClientToDB_course s p w) (ClientFDStartListen_course s p))"

text \<open>One round of the thread of the acceptor: \<open>accept\<close> returned \<open>fd\<close> for the given peer.\<close>

definition co_accept_round :: "sptr \<Rightarrow> int \<Rightarrow> u32 \<Rightarrow> u16 \<Rightarrow> co_world \<Rightarrow> co_world res" where
  "co_accept_round s fd ip port w =
     rbind (co_acc_of s w) (\<lambda>a.
     if fd < 0 then Inr (co_said (''Error in Accepting New Connections'' @ [NL]) w)
     else
       rbind (co_server_at w s) (\<lambda>x.
       case TcpClient_course ip port w of (p, w1) \<Rightarrow>
       rbind (upd_co_client p (\<lambda>c. c\<lparr>co_server_ip := co_srv_ip x, co_server_port := co_srv_port x,
                co_ctrlr := Some s, co_fd := fd\<rparr>) w1) (\<lambda>w2.
       rbind (co_call_if_set (co_connected x) (Connected s p) w2) (\<lambda>w3.
       rbind (upd_co_client p (\<lambda>c. c\<lparr>co_msgd := None\<rparr>) w3) (\<lambda>w4.
       rbind (ProcessNewClient_course s p w4) (\<lambda>w5.
       Inr (co_said (''Connection Accepted from Client ['' @ network_convert_ip_n_to_p ip @ '', '' @
              show_nat (unat port) @ '']'' @ [NL]) w5)))))))"

text \<open>The constructor leaves the callbacks and the flags as they are, but for one bit.\<close>

definition TcpServerController_course ::
    "string \<Rightarrow> u16 \<Rightarrow> string \<Rightarrow> int \<Rightarrow> co_world \<Rightarrow> (sptr \<times> co_world) res" where
  "TcpServerController_course ip port name fd w =
     rbind (TcpNewConnectionAcceptor_course fd) (\<lambda>a.
     Inr (length (co_servers w),
          w\<lparr>co_servers := co_servers w @
             [Some \<lparr>co_acc = Some a, co_db = Some [], co_svc = Some TcpClientServiceManager_course,
                co_flags = co_raw_flags w OR TCP_SERVER_INITIALIZED,
                co_srv_ip = network_covert_ip_p_to_n ip, co_srv_port = port, co_name = name,
                co_connected = UnsetHook, co_disconnected = UnsetHook, co_msg_recvd = UnsetHook\<rparr>]\<rparr>))"

definition SetServerNotifCallbacks_course :: "sptr \<Rightarrow> hook \<Rightarrow> hook \<Rightarrow> hook \<Rightarrow> co_world \<Rightarrow> co_world res" where
  "SetServerNotifCallbacks_course s con dis msg =
     upd_co_server s (\<lambda>x. x\<lparr>co_connected := con, co_disconnected := dis, co_msg_recvd := msg\<rparr>)"

text \<open>The destructor: the parts have to be gone.\<close>

definition delete_controller :: "sptr \<Rightarrow> co_world \<Rightarrow> co_world res" where
  "delete_controller s w =
     rbind (co_server_at w s) (\<lambda>x.
     rbind (require (co_acc x = None) AssertFail) (\<lambda>_.
     rbind (require (co_db x = None) AssertFail) (\<lambda>_.
     rbind (require (co_svc x = None) AssertFail) (\<lambda>_.
     Inr (set_co_server s None w)))))"

definition Start_course :: "sptr \<Rightarrow> bool \<Rightarrow> co_world \<Rightarrow> co_world res" where
  "Start_course s ok w =
     rbind (StartTcpNewConnectionAcceptorThread_course s ok w) (\<lambda>w1.
     rbind (StartTcpClientServiceManagerThread_course s w1) (\<lambda>w2.
     rbind (co_server_at w2 s) (\<lambda>x.
     SetBit_course s TCP_SERVER_RUNNING
       (co_said (''Tcp Server is Up and Running ['' @ network_convert_ip_n_to_p (co_srv_ip x) @ '', '' @
          show_nat (unat (co_srv_port x)) @ '']'' @ [NL] @ ''Ok.'' @ [NL]) w2))))"

definition StopConnectionAcceptingSvc :: "sptr \<Rightarrow> co_world \<Rightarrow> co_world res" where
  "StopConnectionAcceptingSvc s w =
     rbind (IsBitSet_course s TCP_SERVER_NOT_ACCEPTING_NEW_CONNECTIONS w) (\<lambda>off.
     if off then Inr w
     else
       rbind (SetBit_course s TCP_SERVER_NOT_ACCEPTING_NEW_CONNECTIONS w) (\<lambda>w1.
       rbind (acc_Stop_course s w1) (set_co_acc s None)))"

definition StartConnectionAcceptingSvc :: "sptr \<Rightarrow> int \<Rightarrow> bool \<Rightarrow> co_world \<Rightarrow> co_world res" where
  "StartConnectionAcceptingSvc s fd ok w =
     rbind (IsBitSet_course s TCP_SERVER_NOT_ACCEPTING_NEW_CONNECTIONS w) (\<lambda>off.
     if \<not> off then Inr w
     else
       rbind (UnSetBit_course s TCP_SERVER_NOT_ACCEPTING_NEW_CONNECTIONS w) (\<lambda>w1.
       rbind (TcpNewConnectionAcceptor_course fd) (\<lambda>a.
       rbind (set_co_acc s (Some a) w1) (StartTcpNewConnectionAcceptorThread_course s ok))))"

definition StopClientSvcMgr_course :: "sptr \<Rightarrow> co_world \<Rightarrow> co_world res" where
  "StopClientSvcMgr_course s w =
     rbind (IsBitSet_course s TCP_SERVER_NOT_LISTENING_CLIENTS w) (\<lambda>off.
     if off then Inr w
     else
       rbind (mgr_Stop s w) (\<lambda>w1.
       rbind (SetBit_course s TCP_SERVER_NOT_LISTENING_CLIENTS w1)
         (upd_co_server s (\<lambda>x. x\<lparr>co_svc := None\<rparr>))))"

definition StartClientSvcMgr_course :: "sptr \<Rightarrow> co_world \<Rightarrow> co_world res" where
  "StartClientSvcMgr_course s w =
     rbind (IsBitSet_course s TCP_SERVER_NOT_LISTENING_CLIENTS w) (\<lambda>off.
     if \<not> off then Inr w
     else
       rbind (upd_co_server s (\<lambda>x. x\<lparr>co_svc := Some TcpClientServiceManager_course\<rparr>) w) (\<lambda>w1.
       rbind (StartTcpClientServiceManagerThread_course s w1)
         (UnSetBit_course s TCP_SERVER_NOT_LISTENING_CLIENTS)))"

definition Stop_course :: "sptr \<Rightarrow> co_world \<Rightarrow> co_world res" where
  "Stop_course s w =
     rbind (co_server_at w s) (\<lambda>x.
     rbind (if co_acc x = None then Inr w
            else rbind (StopConnectionAcceptingSvc s w)
                   (SetBit_course s TCP_SERVER_NOT_ACCEPTING_NEW_CONNECTIONS)) (\<lambda>w1.
     rbind (co_server_at w1 s) (\<lambda>x1.
     rbind (if co_svc x1 = None then Inr w1
            else rbind (StopClientSvcMgr_course s w1)
                   (SetBit_course s TCP_SERVER_NOT_LISTENING_CLIENTS)) (\<lambda>w2.
     rbind (Purge_course s w2) (\<lambda>w3.
     rbind (set_co_db s None w3) (\<lambda>w4.
     rbind (UnSetBit_course s TCP_SERVER_RUNNING w4)
       (delete_controller s)))))))"

definition flag_text_course :: "u32 \<Rightarrow> string" where
  "flag_text_course f =
     (if bit_set f TCP_SERVER_INITIALIZED then ''I'' else ''Un-I'') @
     (if bit_set f TCP_SERVER_RUNNING then '' R'' else '' Not-R'') @
     (if bit_set f TCP_SERVER_NOT_ACCEPTING_NEW_CONNECTIONS then '' Not-Acc'' else '' Acc'') @
     (if bit_set f TCP_SERVER_NOT_LISTENING_CLIENTS then '' Not-L'' else '' L'') @
     (if bit_set f TCP_SERVER_CREATE_MULTI_THREADED_CLIENT then '' M'' else '' Not-M'')"

definition Display_server_course :: "sptr \<Rightarrow> co_world \<Rightarrow> co_world res" where
  "Display_server_course s w =
     rbind (co_server_at w s) (\<lambda>x.
     let w1 = co_said (''Server Name : '' @ co_name x @ [NL]) w in
     if \<not> bit_set (co_flags x) TCP_SERVER_RUNNING
     then Inr (co_said (''Tcp Server Not Running'' @ [NL]) w1)
     else
       DisplayClientDb_course s
         (co_said (''Flags :  '' @ flag_text_course (co_flags x) @ [NL])
           (co_said (''Listening on : ['' @ network_convert_ip_n_to_p (co_srv_ip x) @ '', '' @
              show_nat (unat (co_srv_port x)) @ '']'' @ [NL]) w1)))"

end
