(* ===== verification/TcpCtrl.thy ===== *)
theory TcpCtrl
  imports TcpSvc
begin

text \<open>
  The controller of a server, \<^verbatim>\<open>TcpServerController.cpp\<close>: it starts and stops the services,
  opens connections of its own, and executes the messages that the threads send it.
\<close>

section \<open>Creation and destruction\<close>

text \<open>
  The descriptors and results the system gives to the constructors of the two services, and
  whether the acceptor's thread can set up its socket.
\<close>

record sys_answer =
  sy_accept_fd :: int
  sy_udp_fd :: int
  sy_udp_bind :: int
  sy_setup :: bool

definition TcpServerController ::
    "string \<Rightarrow> u16 \<Rightarrow> string \<Rightarrow> sys_answer \<Rightarrow> world \<Rightarrow> (sptr \<times> world) res" where
  "TcpServerController ip_addr port_no name a w =
     rbind (TcpNewConnectionAcceptor (sy_accept_fd a)) (\<lambda>acc.
     rbind (TcpClientServiceManager (sy_udp_fd a) (sy_udp_bind a)) (\<lambda>svc.
     let s = length (servers w);
         x = \<lparr>new_conn_acc = Some acc, client_db = Some [], client_svc = Some svc,
              s_state_flags = TCP_SERVER_INITIALIZED, established = [], connectpending = [],
              msgQ = [], msgQ_op_thread = False, s_ip_addr = network_covert_ip_p_to_n ip_addr,
              s_port_no = port_no, s_name = name, s_msgd_type = TCP_DEMARCAR_FIXED_SIZE,
              client_connected = UnsetHook, client_disconnected = UnsetHook,
              client_msg_recvd = UnsetHook, client_ka_pending = UnsetHook\<rparr>
     in Inr (s, w\<lparr>servers := servers w @ [Some x]\<rparr>)))"

definition delete_server :: "sptr \<Rightarrow> world \<Rightarrow> world res" where
  "delete_server s w =
     rbind (server_at w s) (\<lambda>x.
     rbind (require (new_conn_acc x = None \<and> client_db x = None \<and> client_svc x = None \<and>
       connectpending x = [] \<and> established x = []) AssertFail) (\<lambda>_.
     Inr (set_server s None
       (said (''TcpServerController '' @ s_name x @ '' Stopped'' @ [NL]) w))))"

definition SetServerNotifCallbacks ::
    "sptr \<Rightarrow> hook \<Rightarrow> hook \<Rightarrow> hook \<Rightarrow> hook \<Rightarrow> world \<Rightarrow> world res" where
  "SetServerNotifCallbacks s connected disconnected' msg_recvd ka_pending w =
     rbind (server_at w s) (\<lambda>x.
     rbind (require (s_state_flags x = TCP_SERVER_INITIALIZED) AssertFail) (\<lambda>_.
     upd_server s (\<lambda>x. x\<lparr>client_connected := connected, client_ka_pending := ka_pending,
       client_msg_recvd := msg_recvd, client_disconnected := disconnected'\<rparr>) w))"

definition SetClientCreationMode :: "sptr \<Rightarrow> bool \<Rightarrow> world \<Rightarrow> world res" where
  "SetClientCreationMode s status w =
     rbind (IsBitSet s TCP_SERVER_CREATE_MULTI_THREADED_CLIENT w) (\<lambda>on.
     if status \<and> on then Inr w
     else if \<not> status \<and> \<not> on then Inr w
     else if status then SetBit s TCP_SERVER_CREATE_MULTI_THREADED_CLIENT w
     else UnSetBit s TCP_SERVER_CREATE_MULTI_THREADED_CLIENT w)"

definition SetServerMsgDemarcar :: "sptr \<Rightarrow> TcpMsgDemarcarType \<Rightarrow> world \<Rightarrow> world res" where
  "SetServerMsgDemarcar s t = upd_server s (\<lambda>x. x\<lparr>s_msgd_type := t\<rparr>)"

section \<open>Start and stop\<close>

definition Start :: "sptr \<Rightarrow> bool \<Rightarrow> world \<Rightarrow> world res" where
  "Start s setup w =
     rbind (server_at w s) (\<lambda>x.
     rbind (require (new_conn_acc x \<noteq> None \<and> client_db x \<noteq> None \<and> client_svc x \<noteq> None) AssertFail) (\<lambda>_.
     rbind (if bit_set (s_state_flags x) TCP_SERVER_NOT_ACCEPTING_NEW_CONNECTIONS then Inr w
            else StartTcpNewConnectionAcceptorThread s setup w) (\<lambda>w1.
     rbind (IsBitSet s TCP_SERVER_NOT_LISTENING_CLIENTS w1) (\<lambda>off.
     rbind (if off then Inr w1 else StartTcpClientServiceManagerThread s w1) (\<lambda>w2.
     rbind (upd_server s (\<lambda>x. x\<lparr>msgQ_op_thread := True\<rparr>) w2) (\<lambda>w3.
     rbind (SetBit s TCP_SERVER_RUNNING w3) (\<lambda>w4.
     Inr (said (''Tcp Server is Up and Running ['' @ network_convert_ip_n_to_p (s_ip_addr x) @
       '', '' @ show_nat (unat (s_port_no x)) @ '']'' @ [NL] @ ''Ok.'' @ [NL]) w4))))))))"

text \<open>The two loops that empty the lists of active clients, over the list at their beginning.\<close>

fun stop_pending :: "sptr \<Rightarrow> cptr list \<Rightarrow> world \<Rightarrow> world res" where
  "stop_pending s [] w = Inr w"
| "stop_pending s (p # ps) w =
     rbind (IsStateSet p TCP_CLIENT_STATE_CONNECT_IN_PROGRESS w) (\<lambda>b.
     rbind (require b AssertFail) (\<lambda>_.
     rbind (StopConnectorThread p w) (\<lambda>w1.
     rbind (upd_server s (\<lambda>x. x\<lparr>connectpending := ps\<rparr>) w1) (\<lambda>w2.
     rbind (deref_client p w2) (stop_pending s ps)))))"

fun stop_established :: "sptr \<Rightarrow> cptr list \<Rightarrow> world \<Rightarrow> world res" where
  "stop_established s [] w = Inr w"
| "stop_established s (p # ps) w =
     rbind (IsStateSet p TCP_CLIENT_STATE_CONNECTED w) (\<lambda>b.
     rbind (require b AssertFail) (\<lambda>_.
     rbind (IsStateSet p TCP_CLIENT_STATE_THREADED w) (\<lambda>threaded.
     rbind (if threaded then StopThread p w else Inr w) (\<lambda>w1.
     rbind (upd_server s (\<lambda>x. x\<lparr>established := ps\<rparr>) w1) (\<lambda>w2.
     rbind (deref_client p w2) (stop_established s ps))))))"

definition StopServer :: "sptr \<Rightarrow> world \<Rightarrow> world res" where
  "StopServer s w =
     rbind (server_at w s) (\<lambda>x.
     rbind (if new_conn_acc x = None then Inr w
            else rbind (acc_Stop s w) (\<lambda>w1.
                 rbind (upd_server s (\<lambda>x. x\<lparr>new_conn_acc := None\<rparr>) w1)
                   (SetBit s TCP_SERVER_NOT_ACCEPTING_NEW_CONNECTIONS))) (\<lambda>w1.
     rbind (server_at w1 s) (\<lambda>x.
     rbind (if client_svc x = None then Inr w1
            else rbind (svc_Stop s w1) (\<lambda>w2.
                 rbind (upd_server s (\<lambda>x. x\<lparr>client_svc := None\<rparr>) w2)
                   (SetBit s TCP_SERVER_NOT_LISTENING_CLIENTS))) (\<lambda>w2.
     rbind (Purge s w2) (\<lambda>w3.
     rbind (delete_db s w3) (\<lambda>w4.
     rbind (server_at w4 s) (\<lambda>x.
     rbind (stop_pending s (connectpending x) w4) (\<lambda>w5.
     rbind (server_at w5 s) (\<lambda>x.
     rbind (stop_established s (established x) w5) (\<lambda>w6.
     rbind (UnSetBit s TCP_SERVER_RUNNING w6) (delete_server s)))))))))))"

definition StopConnectionsAcceptorSvc :: "sptr \<Rightarrow> world \<Rightarrow> world res" where
  "StopConnectionsAcceptorSvc s w =
     rbind (IsBitSet s TCP_SERVER_NOT_ACCEPTING_NEW_CONNECTIONS w) (\<lambda>off.
     if off then Inr w
     else rbind (SetBit s TCP_SERVER_NOT_ACCEPTING_NEW_CONNECTIONS w) (\<lambda>w1.
          rbind (acc_Stop s w1) (upd_server s (\<lambda>x. x\<lparr>new_conn_acc := None\<rparr>))))"

definition StartConnectionsAcceptorSvc :: "sptr \<Rightarrow> sys_answer \<Rightarrow> world \<Rightarrow> world res" where
  "StartConnectionsAcceptorSvc s a w =
     rbind (IsBitSet s TCP_SERVER_NOT_ACCEPTING_NEW_CONNECTIONS w) (\<lambda>off.
     if \<not> off then Inr w
     else rbind (UnSetBit s TCP_SERVER_NOT_ACCEPTING_NEW_CONNECTIONS w) (\<lambda>w1.
          rbind (TcpNewConnectionAcceptor (sy_accept_fd a)) (\<lambda>acc.
          rbind (upd_server s (\<lambda>x. x\<lparr>new_conn_acc := Some acc\<rparr>) w1)
            (StartTcpNewConnectionAcceptorThread s (sy_setup a)))))"

definition StopClientSvcMgr :: "sptr \<Rightarrow> world \<Rightarrow> world res" where
  "StopClientSvcMgr s w =
     rbind (IsBitSet s TCP_SERVER_NOT_LISTENING_CLIENTS w) (\<lambda>off.
     if off then Inr w
     else rbind (svc_Stop s w) (\<lambda>w1.
          rbind (SetBit s TCP_SERVER_NOT_LISTENING_CLIENTS w1)
            (upd_server s (\<lambda>x. x\<lparr>client_svc := None\<rparr>))))"

definition StartClientSvcMgr :: "sptr \<Rightarrow> sys_answer \<Rightarrow> world \<Rightarrow> world res" where
  "StartClientSvcMgr s a w =
     rbind (IsBitSet s TCP_SERVER_NOT_LISTENING_CLIENTS w) (\<lambda>off.
     if \<not> off then Inr w
     else rbind (TcpClientServiceManager (sy_udp_fd a) (sy_udp_bind a)) (\<lambda>v.
          rbind (upd_server s (\<lambda>x. x\<lparr>client_svc := Some v\<rparr>) w) (\<lambda>w1.
          rbind (StartTcpClientServiceManagerThread s w1)
            (UnSetBit s TCP_SERVER_NOT_LISTENING_CLIENTS))))"

section \<open>Clients\<close>

definition CreateMultiThreadedClient :: "cptr \<Rightarrow> world \<Rightarrow> world res" where
  "CreateMultiThreadedClient p w =
     rbind (client_at w p) (\<lambda>c.
     rbind (require (\<not> client_thread c) AssertFail) (\<lambda>_. StartThread p w))"

definition ProcessNewClient :: "sptr \<Rightarrow> cptr \<Rightarrow> world \<Rightarrow> world res" where
  "ProcessNewClient s p w =
     rbind (AddClientToDB s p w) (\<lambda>w1.
     rbind (IsBitSet s TCP_SERVER_CREATE_MULTI_THREADED_CLIENT w1) (\<lambda>mt.
     if mt then CreateMultiThreadedClient p w1 else ClientFDStartListenSimple s p w1))"

definition ProcessClientDelete_addr :: "sptr \<Rightarrow> u32 \<Rightarrow> u16 \<Rightarrow> world \<Rightarrow> world res" where
  "ProcessClientDelete_addr s ip port w =
     rbind (RemoveClientFromDB_addr s ip port w) (\<lambda>(w1, found).
     case found of
       None \<Rightarrow> Inr (said (''Error : Such a client dont exist '' @ [NL]) w1)
     | Some p \<Rightarrow>
         rbind (client_at w1 p) (\<lambda>c.
         if client_thread c then Inr w1 else ClientFDStopListenSimple s p w1))"

definition ProcessClientDelete :: "sptr \<Rightarrow> cptr \<Rightarrow> world \<Rightarrow> world res" where
  "ProcessClientDelete s p w =
     rbind (Reference p w) (\<lambda>w1.
     rbind (IsStateSet p TCP_CLIENT_STATE_PASSIVE_OPENER w1) (\<lambda>passive.
     rbind (if passive then RemoveClientFromDB s p w1 else Inr w1) (\<lambda>w2.
     rbind (IsStateSet p TCP_CLIENT_STATE_MULTIPLEX_LISTEN w2) (\<lambda>mx.
     rbind (if mx then ClientFDStopListenSimple s p w2 else Inr w2) (\<lambda>w3.
     rbind (client_at w3 p) (\<lambda>c.
     rbind (if client_thread c then StopThread p w3 else Inr w3) (\<lambda>w4.
     rbind (IsStateSet p TCP_CLIENT_STATE_ACTIVE_OPENER w4) (\<lambda>active.
     rbind (if active
            then rbind (IsStateSet p TCP_CLIENT_STATE_CONNECTED w4) (\<lambda>connected.
                 rbind (upd_server s (\<lambda>x. if connected
                     then x\<lparr>established := removeAll p (established x)\<rparr>
                     else x\<lparr>connectpending := removeAll p (connectpending x)\<rparr>) w4)
                   (deref_client p))
            else Inr w4) (deref_client p)))))))))"

definition RemoveClientFromServerDB :: "sptr \<Rightarrow> cptr \<Rightarrow> world \<Rightarrow> world res" where
  "RemoveClientFromServerDB = RemoveClientFromDB"

definition ClientFDStartListen :: "sptr \<Rightarrow> cptr \<Rightarrow> world \<Rightarrow> world res" where
  "ClientFDStartListen = ClientFDStartListenSimple"

definition ProcessClientMigrationToMultiThreaded :: "sptr \<Rightarrow> u32 \<Rightarrow> u16 \<Rightarrow> world \<Rightarrow> world res" where
  "ProcessClientMigrationToMultiThreaded s ip port w =
     rbind (LookUpClientDB_ThreadSafe s ip port w) (\<lambda>found.
     case found of
       None \<Rightarrow> Inr w
     | Some p \<Rightarrow>
         rbind (client_at w p) (\<lambda>c.
         if client_thread c then Inr (said (''Error : Client is already Multi-Threaded'' @ [NL]) w)
         else rbind (ClientFDStopListenSimple s p w) (CreateMultiThreadedClient p)))"

definition ProcessClientMigrationToMultiplex :: "sptr \<Rightarrow> u32 \<Rightarrow> u16 \<Rightarrow> world \<Rightarrow> world res" where
  "ProcessClientMigrationToMultiplex s ip port w =
     rbind (LookUpClientDB_ThreadSafe s ip port w) (\<lambda>found.
     case found of
       None \<Rightarrow> Inr w
     | Some p \<Rightarrow>
         rbind (client_at w p) (\<lambda>c.
         if \<not> client_thread c then Inr (said (''Error : Client is already Multiplexed'' @ [NL]) w)
         else rbind (StopThread p w) (ClientFDStartListenSimple s p)))"

text \<open>Who serves an active client that is connected.\<close>

definition listen_active :: "sptr \<Rightarrow> cptr \<Rightarrow> world \<Rightarrow> world res" where
  "listen_active s p w =
     rbind (upd_server s (\<lambda>x. x\<lparr>connectpending := removeAll p (connectpending x),
              established := established x @ [p]\<rparr>) w) (\<lambda>w1.
     rbind (IsBitSet s TCP_SERVER_CREATE_MULTI_THREADED_CLIENT w1) (\<lambda>mt.
     if mt then CreateMultiThreadedClient p w1 else ClientFDStartListen s p w1))"

definition CreateActiveClient :: "sptr \<Rightarrow> u32 \<Rightarrow> u16 \<Rightarrow> connect_answer \<Rightarrow> world \<Rightarrow> world res" where
  "CreateActiveClient s ip port a w =
     rbind (server_at w s) (\<lambda>x.
     case TcpClient w of (p, w1) \<Rightarrow>
     rbind (upd_client p (\<lambda>c. c\<lparr>server_ip_addr := ip, server_port_no := port,
              c_ip_addr := s_ip_addr x, c_port_no := 0, c_ctrlr := Some s\<rparr>) w1) (\<lambda>w2.
     rbind (SetTcpMsgDemarcar p None w2) (\<lambda>w3.
     rbind (SetState p TCP_CLIENT_STATE_ACTIVE_OPENER w3) (\<lambda>w4.
     rbind (SetConnectionType p tcp_conn_via_connect w4) (\<lambda>w5.
     rbind (upd_server s (\<lambda>x. x\<lparr>connectpending := connectpending x @ [p]\<rparr>) w5) (\<lambda>w6.
     rbind (Reference p w6) (\<lambda>w7.
     rbind (TryClientConnect p True a w7) (\<lambda>(w8, rc).
     if rc = 0 then listen_active s p w8 else Inr w8))))))))"

fun find_active :: "world \<Rightarrow> u32 \<Rightarrow> u16 \<Rightarrow> cptr list \<Rightarrow> cptr option res" where
  "find_active w ip port [] = Inr None"
| "find_active w ip port (p # ps) =
     rbind (client_at w p) (\<lambda>c.
     if server_ip_addr c = ip \<and> server_port_no c = port then Inr (Some p)
     else find_active w ip port ps)"

definition LookupActiveOpened :: "sptr \<Rightarrow> u32 \<Rightarrow> u16 \<Rightarrow> world \<Rightarrow> cptr option res" where
  "LookupActiveOpened s ip port w = rbind (server_at w s) (\<lambda>x. find_active w ip port (established x))"

section \<open>Messages\<close>

text \<open>The parts of \<open>ProcessMsgQMsg\<close>, each for one bit of the code.\<close>

definition msg_reconnect :: "sptr \<Rightarrow> cptr \<Rightarrow> connect_answer \<Rightarrow> world \<Rightarrow> world res" where
  "msg_reconnect s p a w =
     rbind (client_at w p) (\<lambda>c.
     rbind (ProcessClientDelete s p w) (CreateActiveClient s (server_ip_addr c) (server_port_no c) a))"

definition msg_multiplex :: "sptr \<Rightarrow> cptr \<Rightarrow> world \<Rightarrow> world res" where
  "msg_multiplex s p w =
     rbind (IsStateSet p TCP_CLIENT_STATE_MULTIPLEX_LISTEN w) (\<lambda>mx.
     rbind (require (\<not> mx) AssertFail) (\<lambda>_. ClientFDStartListenSimple s p w))"

text \<open>The second result tells that the function returns at once.\<close>

definition msg_to_threaded :: "sptr \<Rightarrow> cptr \<Rightarrow> world \<Rightarrow> (world \<times> bool) res" where
  "msg_to_threaded s p w =
     rbind (IsStateSet p TCP_CLIENT_STATE_THREADED w) (\<lambda>threaded.
     if threaded then Inr (w, True)
     else rbind (IsStateSet p TCP_CLIENT_STATE_MULTIPLEX_LISTEN w) (\<lambda>mx.
          rbind (if mx then ClientFDStopListenSimple s p w else Inr w) (\<lambda>w1.
          rbind (CreateMultiThreadedClient p w1) (\<lambda>w2. Inr (w2, False)))))"

definition msg_to_multiplex :: "sptr \<Rightarrow> cptr \<Rightarrow> world \<Rightarrow> (world \<times> bool) res" where
  "msg_to_multiplex s p w =
     rbind (IsStateSet p TCP_CLIENT_STATE_MULTIPLEX_LISTEN w) (\<lambda>mx.
     if mx then Inr (w, True)
     else rbind (IsStateSet p TCP_CLIENT_STATE_THREADED w) (\<lambda>threaded.
          rbind (if threaded then StopThread p w else Inr w) (\<lambda>w1.
          rbind (ClientFDStartListenSimple s p w1) (\<lambda>w2. Inr (w2, False)))))"

definition msg_create_threaded :: "cptr \<Rightarrow> world \<Rightarrow> world res" where
  "msg_create_threaded p w =
     rbind (IsStateSet p TCP_CLIENT_STATE_THREADED w) (\<lambda>threaded.
     rbind (require (\<not> threaded) AssertFail) (\<lambda>_. CreateMultiThreadedClient p w))"

definition msg_connected :: "sptr \<Rightarrow> cptr \<Rightarrow> world \<Rightarrow> world res" where
  "msg_connected s p w =
     rbind (client_at w p) (\<lambda>c.
     let f = c_state_flags c in
     rbind (require (\<not> bit_set f TCP_CLIENT_STATE_CONNECT_IN_PROGRESS \<and>
       bit_set f TCP_CLIENT_STATE_CONNECTED \<and> \<not> bit_set f TCP_CLIENT_STATE_PASSIVE_OPENER \<and>
       bit_set f TCP_CLIENT_STATE_ACTIVE_OPENER \<and> \<not> bit_set f TCP_CLIENT_STATE_MULTIPLEX_LISTEN \<and>
       \<not> bit_set f TCP_CLIENT_STATE_THREADED) AssertFail) (\<lambda>_.
     listen_active s p w))"

definition when_bit :: "u32 \<Rightarrow> u32 \<Rightarrow> (world \<Rightarrow> world res) \<Rightarrow> world \<Rightarrow> world res" where
  "when_bit code b f w = (if bit_set code b then f w else Inr w)"

definition or_return :: "u32 \<Rightarrow> u32 \<Rightarrow> (world \<Rightarrow> (world \<times> bool) res) \<Rightarrow> (world \<Rightarrow> world res) \<Rightarrow> world \<Rightarrow> world res" where
  "or_return code b f k w =
     (if bit_set code b then rbind (f w) (\<lambda>(w1, ret). if ret then Inr w1 else k w1) else k w)"

definition ProcessMsgQMsg :: "sptr \<Rightarrow> tcp_msg \<Rightarrow> connect_answer \<Rightarrow> world \<Rightarrow> world res" where
  "ProcessMsgQMsg s m a w =
     (let code = m_code m; p = m_data m in
      if bit_set code CTRLR_ACTION_TCP_CLIENT_DELETE then ProcessClientDelete s p w
      else
        rbind (when_bit code CTRLR_ACTION_TCP_CLIENT_RECONNECT (msg_reconnect s p a) w) (\<lambda>w1.
        rbind (when_bit code CTRLR_ACTION_TCP_CLIENT_PROCESS_NEW (AddClientToDB s p) w1) (\<lambda>w2.
        rbind (when_bit code CTRLR_ACTION_TCP_CLIENT_MULTIPLEX_LISTEN (msg_multiplex s p) w2)
          (or_return code CTRLR_ACTION_TCP_CLIENT_MX_TO_MULTITHREADED (msg_to_threaded s p)
          (or_return code CTRLR_ACTION_TCP_CLIENT_MULTITHREADED_TO_MX (msg_to_multiplex s p) (\<lambda>w3.
           rbind (when_bit code CTRLR_ACTION_TCP_CLIENT_CREATE_THREADED (msg_create_threaded p) w3)
             (when_bit code CTRLR_ACTION_TCP_CLIENT_ACTIVE_CONNECT_SUCCESS (msg_connected s p))))))))"

text \<open>
  \<open>if (msg->zero_sema) sem_post (msg->zero_sema)\<close>. The semaphore is a local variable of \<open>EnqueMsg\<close>
  in the thread that waits on it. The only thread that does is the receiving thread of a client, in
  \<open>ClientThreadFunction\<close>, for a message about this client. When the message has ended that thread
  its stack is gone.
\<close>

definition post_zero_sema :: "tcp_msg \<Rightarrow> world \<Rightarrow> world res" where
  "post_zero_sema m w =
     (if m_sema m
      then rbind (client_at w (m_data m)) (\<lambda>c. rbind (require (client_thread c) UseAfterFree) (\<lambda>_. Inr w))
      else Inr w)"

text \<open>
  One turn of \<open>MsgQProcessingThreadFn\<close>: the first message, if there is one. \<open>ProcessMsgQMsg\<close>
  frees a message that it executes to the end, and the turn then reads \<open>zero_sema\<close> of it; the
  value is still there with the allocators in use, and the model reads it.
\<close>

definition MsgQProcessingThreadFn :: "sptr \<Rightarrow> connect_answer \<Rightarrow> world \<Rightarrow> world res" where
  "MsgQProcessingThreadFn s a w =
     rbind (server_at w s) (\<lambda>x.
     case msgQ x of
       [] \<Rightarrow> Inr w
     | m # ms \<Rightarrow>
         rbind (upd_server s (\<lambda>x. x\<lparr>msgQ := ms\<rparr>) w) (\<lambda>w1.
         rbind (ProcessMsgQMsg s m a w1) (post_zero_sema m)))"

section \<open>Display\<close>

definition flag_text :: "u32 \<Rightarrow> string" where
  "flag_text f =
     (if bit_set f TCP_SERVER_INITIALIZED then ''I'' else ''Un-I'') @
     (if bit_set f TCP_SERVER_RUNNING then '' R'' else '' Not-R'') @
     (if bit_set f TCP_SERVER_NOT_ACCEPTING_NEW_CONNECTIONS then '' Not-Acc'' else '' Acc'') @
     (if bit_set f TCP_SERVER_NOT_LISTENING_CLIENTS then '' Not-L'' else '' L'') @
     (if bit_set f TCP_SERVER_CREATE_MULTI_THREADED_CLIENT then '' M'' else '' Not-M'')"

definition Display_server :: "sptr \<Rightarrow> world \<Rightarrow> world res" where
  "Display_server s w =
     rbind (server_at w s) (\<lambda>x.
     let w1 = said (''Server Name : '' @ s_name x @ [NL]) w in
     if \<not> bit_set (s_state_flags x) TCP_SERVER_RUNNING then Inr (said (''Not Running'' @ [NL]) w1)
     else
       rbind (DisplayClientDb s
         (say_lines [''Listening on : ['' @ network_convert_ip_n_to_p (s_ip_addr x) @ '', '' @
            show_nat (unat (s_port_no x)) @ '']'' @ [NL],
            ''Flags :  '' @ flag_text (s_state_flags x) @ [NL]] w1))
         (\<lambda>w2. foldl (\<lambda>m p. rbind m (Display_client p)) (Inr w2) (connectpending x @ established x)))"

end
