(* ===== verification/TcpServerCli.thy ===== *)
theory TcpServerCli
  imports TcpCtrl CmdBoot
begin

text \<open>
  The commands of the TCP server, \<^verbatim>\<open>TcpServerCli.cpp\<close>: the trees below \<open>config\<close>, \<open>run\<close> and
  \<open>show\<close>, the three handlers, which read the leaf values and the command code from the buffer of
  the parser and call the controller, and the default callbacks.
\<close>

section \<open>State\<close>

text \<open>\<open>tcp_server_lst\<close> and the objects it points to.\<close>

record tcp_app =
  tcp_server_lst :: "sptr list"
  tcp_world :: world

fun lookup_server :: "world \<Rightarrow> string \<Rightarrow> sptr list \<Rightarrow> sptr option res" where
  "lookup_server w name [] = Inr None"
| "lookup_server w name (s # ss) =
     rbind (server_at w s) (\<lambda>x. if s_name x = name then Inr (Some s) else lookup_server w name ss)"

text \<open>The lookup by a C string, out of which a null pointer makes no \<open>std::string\<close>.\<close>

definition TcpServer_lookup :: "string option \<Rightarrow> tcp_app \<Rightarrow> sptr option res" where
  "TcpServer_lookup name a =
     (case name of
        None \<Rightarrow> Inl NullDeref
      | Some n \<Rightarrow> lookup_server (tcp_world a) n (tcp_server_lst a))"

section \<open>Leaf values\<close>

record tcp_args =
  ta_name :: "string option"
  ta_ip :: string
  ta_port :: u16
  ta_ka :: u16
  ta_remote_ip :: "string option"
  ta_remote_port :: u16
  ta_msg :: "string option"

definition no_args :: tcp_args where
  "no_args = \<lparr>ta_name = None, ta_ip = ''127.0.0.1'', ta_port = 40000, ta_ka = 0,
              ta_remote_ip = None, ta_remote_port = 0, ta_msg = None\<rparr>"

definition u16_of :: "string \<Rightarrow> u16" where
  "u16_of s = word_of_int (atoi s)"

text \<open>The loop over the units in the config handler; an unknown leaf fails an assertion.\<close>

definition config_leaf :: "tlv_struct \<Rightarrow> tcp_args \<Rightarrow> tcp_args res" where
  "config_leaf t a =
     (let i = cstr (leaf_id t); v = cstr (val t) in
      if has_prefix i ''tcp-server-name'' then Inr (a\<lparr>ta_name := Some v\<rparr>)
      else if has_prefix i ''tcp-server-addr'' then Inr (a\<lparr>ta_ip := v\<rparr>)
      else if has_prefix i ''tcp-server-port'' then Inr (a\<lparr>ta_port := u16_of v\<rparr>)
      else if has_prefix i ''ka-interval'' then Inr (a\<lparr>ta_ka := u16_of v\<rparr>)
      else if has_prefix i ''remote-addr'' then Inr (a\<lparr>ta_remote_ip := Some v\<rparr>)
      else if has_prefix i ''remote-port'' then Inr (a\<lparr>ta_remote_port := u16_of v\<rparr>)
      else Inl AssertFail)"

definition run_leaf :: "tlv_struct \<Rightarrow> tcp_args \<Rightarrow> tcp_args res" where
  "run_leaf t a =
     (let i = cstr (leaf_id t); v = cstr (val t) in
      if has_prefix i ''tcp-server-name'' then Inr (a\<lparr>ta_name := Some v\<rparr>)
      else if has_prefix i ''msg'' then Inr (a\<lparr>ta_msg := Some v\<rparr>)
      else if has_prefix i ''remote-addr'' then Inr (a\<lparr>ta_remote_ip := Some v\<rparr>)
      else if has_prefix i ''remote-port'' then Inr (a\<lparr>ta_remote_port := u16_of v\<rparr>)
      else Inl AssertFail)"

definition show_leaf :: "tlv_struct \<Rightarrow> tcp_args \<Rightarrow> tcp_args res" where
  "show_leaf t a =
     (if has_prefix (cstr (leaf_id t)) ''tcp-server-name'' then Inr (a\<lparr>ta_name := Some (cstr (val t))\<rparr>)
      else Inl AssertFail)"

fun read_leaves :: "(tlv_struct \<Rightarrow> tcp_args \<Rightarrow> tcp_args res) \<Rightarrow> tlv_struct list \<Rightarrow> tcp_args \<Rightarrow> tcp_args res" where
  "read_leaves f [] a = Inr a"
| "read_leaves f (t # ts) a = rbind (f t a) (read_leaves f ts)"

section \<open>Handlers\<close>

definition app_said :: "string \<Rightarrow> tcp_app \<Rightarrow> tcp_app" where
  "app_said s a = a\<lparr>tcp_world := said s (tcp_world a)\<rparr>"

definition on_world :: "(world \<Rightarrow> world res) \<Rightarrow> tcp_app \<Rightarrow> (tcp_app \<times> int) res" where
  "on_world f a = rbind (f (tcp_world a)) (\<lambda>w. Inr (a\<lparr>tcp_world := w\<rparr>, 0))"

text \<open>The beginning that most cases share: the server has to exist.\<close>

definition with_server ::
    "string option \<Rightarrow> (sptr \<Rightarrow> tcp_app \<Rightarrow> (tcp_app \<times> int) res) \<Rightarrow> tcp_app \<Rightarrow> (tcp_app \<times> int) res" where
  "with_server name f a =
     rbind (TcpServer_lookup name a) (\<lambda>found.
     case found of
       None \<Rightarrow> Inr (app_said (''Error : Tcp Server do not Exist'' @ [NL]) a, -1)
     | Some s \<Rightarrow> f s a)"

definition create_server :: "tcp_args \<Rightarrow> sys_answer \<Rightarrow> tcp_app \<Rightarrow> (tcp_app \<times> int) res" where
  "create_server g sy a =
     rbind (TcpServer_lookup (ta_name g) a) (\<lambda>found.
     case (found, ta_name g) of
       (Some s, _) \<Rightarrow> Inr (app_said (''Error : Tcp Server Already Exist'' @ [NL]) a, -1)
     | (None, None) \<Rightarrow> Inl NullDeref
     | (None, Some name) \<Rightarrow>
         rbind (TcpServerController (ta_ip g) (ta_port g) name sy (tcp_world a)) (\<lambda>(s, w).
         rbind (SetServerNotifCallbacks s Hook Hook Hook Hook w) (\<lambda>w1.
         Inr (a\<lparr>tcp_server_lst := s # tcp_server_lst a, tcp_world := w1\<rparr>, 0))))"

text \<open>What a case does for the two modes of configuration.\<close>

definition by_mode ::
    "op_mode \<Rightarrow> (world \<Rightarrow> world res) \<Rightarrow> (world \<Rightarrow> world res) \<Rightarrow> tcp_app \<Rightarrow> (tcp_app \<times> int) res" where
  "by_mode m enable disable a =
     (case m of
        CONFIG_ENABLE \<Rightarrow> on_world enable a
      | CONFIG_DISABLE \<Rightarrow> on_world disable a
      | _ \<Rightarrow> Inr (a, 0))"

definition connect_remote :: "tcp_args \<Rightarrow> connect_answer \<Rightarrow> sptr \<Rightarrow> world \<Rightarrow> world res" where
  "connect_remote g ca s w =
     (case ta_remote_ip g of
        None \<Rightarrow> Inl NullDeref
      | Some ip \<Rightarrow> CreateActiveClient s (network_covert_ip_p_to_n ip) (ta_remote_port g) ca w)"

text \<open>
  The handler of \<open>config tcp-server\<close>, with the values of \<^verbatim>\<open>TcpCmdCodes.h\<close>. The case of the
  multi-threaded mode falls through into that of the keep-alive interval, which looks the server
  up again and does nothing with it.
\<close>

definition config_tcp_server_handler ::
    "sys_answer \<Rightarrow> connect_answer \<Rightarrow> ser_buff \<Rightarrow> op_mode \<Rightarrow> tcp_app \<Rightarrow> (tcp_app \<times> int) res" where
  "config_tcp_server_handler sy ca b m a =
     rbind (EXTRACT_CMD_CODE b) (\<lambda>code.
     rbind (TLV_LOOP b) (\<lambda>ts.
     rbind (read_leaves config_leaf ts no_args) (\<lambda>g.
     if code = 1 then create_server g sy a
     else if code = 16 then with_server (ta_name g) (\<lambda>s. on_world (Start s (sy_setup sy))) a
     else if code = 2
     then with_server (ta_name g) (\<lambda>s a.
            on_world (StopServer s) (a\<lparr>tcp_server_lst := removeAll s (tcp_server_lst a)\<rparr>)) a
     else if code = 11
     then with_server (ta_name g) (\<lambda>s a.
            rbind (by_mode m (SetClientCreationMode s True) (SetClientCreationMode s False) a)
              (\<lambda>(a', _). with_server (ta_name g) (\<lambda>s' a'. Inr (a', 0)) a')) a
     else if code = 9 then with_server (ta_name g) (\<lambda>s a. Inr (a, 0)) a
     else if code = 17
     then with_server (ta_name g) (\<lambda>s. by_mode m (connect_remote g ca s) Inr) a
     else if code = 5
     then with_server (ta_name g) (\<lambda>s.
            by_mode m (StopConnectionsAcceptorSvc s) (StartConnectionsAcceptorSvc s sy)) a
     else if code = 14
     then with_server (ta_name g) (\<lambda>s.
            by_mode m (StopClientSvcMgr s) (StartClientSvcMgr s sy)) a
     else Inr (a, 0))))"

text \<open>\<open>run tcp-server <name> send-msg\<close>; \<open>rc\<close> is what \<open>sendto\<close> returns.\<close>

definition run_tcp_server_handler ::
    "int \<Rightarrow> ser_buff \<Rightarrow> op_mode \<Rightarrow> tcp_app \<Rightarrow> (tcp_app \<times> int) res" where
  "run_tcp_server_handler rc b m a =
     rbind (EXTRACT_CMD_CODE b) (\<lambda>code.
     rbind (TLV_LOOP b) (\<lambda>ts.
     rbind (read_leaves run_leaf ts no_args) (\<lambda>g.
     if code = 1
     then with_server (ta_name g) (\<lambda>s a.
            (case (ta_remote_ip g, ta_msg g) of
               (Some ip, Some msg) \<Rightarrow>
                 rbind (LookupActiveOpened s (network_covert_ip_p_to_n ip) (ta_remote_port g)
                         (tcp_world a)) (\<lambda>found.
                 case found of
                   None \<Rightarrow> Inr (app_said (''Error : Remote Machine Connection not found'' @ [NL]) a, -1)
                 | Some p \<Rightarrow>
                     rbind (SendMsg p (ascii msg) rc (tcp_world a)) (\<lambda>(w, _).
                     Inr (a\<lparr>tcp_world := w\<rparr>, 0)))
             | _ \<Rightarrow> Inl NullDeref)) a
     else Inr (a, 0))))"

definition show_tcp_server_handler :: "ser_buff \<Rightarrow> op_mode \<Rightarrow> tcp_app \<Rightarrow> (tcp_app \<times> int) res" where
  "show_tcp_server_handler b m a =
     rbind (EXTRACT_CMD_CODE b) (\<lambda>code.
     rbind (TLV_LOOP b) (\<lambda>ts.
     rbind (read_leaves show_leaf ts no_args) (\<lambda>g.
     if code = 8 then with_server (ta_name g) (\<lambda>s. on_world (Display_server s)) a
     else Inr (a, 0))))"

section \<open>The trees\<close>

text \<open>
  The parameters of the application, in the order of their declarations: 0 to 13 below
  \<open>config\<close>, 14 to 19 below \<open>run\<close>, 20 and 21 below \<open>show\<close>. The callbacks are 0, 1 and 2.
\<close>

definition tcp_build_config_cli_tree :: "(cli \<Rightarrow> cli res) list" where
  "tcp_build_config_cli_tree =
     (let p = app_param; h = Some (App 0) in
      [cmd_param (p 0) ''tcp-server'' None ''config tcp-server'', under config (p 0),
       leaf_param (p 1) h None STRING ''tcp-server-name'' ''config tcp-server name'',
       under (p 0) (p 1), set_param_cmd_code (p 1) 1,
       cmd_param (p 2) ''start'' h ''start tcp-server'', under (p 1) (p 2),
       set_param_cmd_code (p 2) 16,
       cmd_param (p 3) ''connect'' None ''connect tcp-server'', under (p 1) (p 3),
       leaf_param (p 4) None None IPV4 ''remote-addr'' ''Remote IPV4 address'', under (p 3) (p 4),
       leaf_param (p 5) h None INT_LEAF ''remote-port'' ''Remote Port Number'', under (p 4) (p 5),
       set_param_cmd_code (p 5) 17,
       cmd_param (p 6) ''abort'' h ''stop tcp-server'', under (p 1) (p 6),
       set_param_cmd_code (p 6) 2,
       cmd_param (p 7) ''multi-threaded-mode'' h ''create multi-threaded clients'',
       under (p 1) (p 7), set_param_cmd_code (p 7) 11,
       cmd_param (p 8) ''disable-conn-accept'' h ''Connection Accept Settings'', under (p 1) (p 8),
       set_param_cmd_code (p 8) 5,
       cmd_param (p 9) ''disable-client-listen'' h ''Client Listening Settings'', under (p 1) (p 9),
       set_param_cmd_code (p 9) 14,
       cmd_param (p 10) ''ka-interval'' None ''config KA Interval'', under (p 1) (p 10),
       leaf_param (p 11) h None INT_LEAF ''ka-interval'' ''config tAK interval value in sec'',
       under (p 10) (p 11), set_param_cmd_code (p 11) 9,
       leaf_param (p 12) h None IPV4 ''tcp-server-addr'' ''config tcp-server address'',
       under (p 1) (p 12), set_param_cmd_code (p 1) 1,
       leaf_param (p 13) h None INT_LEAF ''tcp-server-port'' ''config tcp-server port no'',
       under (p 12) (p 13), set_param_cmd_code (p 13) 1,
       support_cmd_negation (p 1), support_cmd_negation config])"

definition tcp_build_run_cli_tree :: "(cli \<Rightarrow> cli res) list" where
  "tcp_build_run_cli_tree =
     (let p = app_param in
      [cmd_param (p 14) ''tcp-server'' None ''run tcp-server'', under run (p 14),
       leaf_param (p 15) None None STRING ''tcp-server-name'' ''TCP Server name'',
       under (p 14) (p 15),
       cmd_param (p 16) ''send-msg'' None ''Send Msg'', under (p 15) (p 16),
       leaf_param (p 17) None None IPV4 ''remote-addr'' ''Remote IPV4 address'',
       under (p 16) (p 17),
       leaf_param (p 18) None None INT_LEAF ''remote-port'' ''Remote Port Number'',
       under (p 17) (p 18),
       leaf_param (p 19) (Some (App 1)) None STRING ''msg'' ''Message to be Sent'',
       under (p 18) (p 19), set_param_cmd_code (p 19) 1])"

definition tcp_build_show_cli_tree :: "(cli \<Rightarrow> cli res) list" where
  "tcp_build_show_cli_tree =
     (let p = app_param in
      [cmd_param (p 20) ''tcp-server'' None ''config tcp-server'', under show_hook (p 20),
       leaf_param (p 21) (Some (App 2)) None STRING ''tcp-server-name'' ''config tcp-server name'',
       under (p 20) (p 21), set_param_cmd_code (p 21) 8])"

definition tcp_build_cli :: "cli \<Rightarrow> cli res" where
  "tcp_build_cli =
     run_steps (tcp_build_config_cli_tree @ tcp_build_run_cli_tree @ tcp_build_show_cli_tree)"

section \<open>The default callbacks\<close>

definition print_client :: "tcp_client \<Rightarrow> string" where
  "print_client c =
     ''['' @ network_convert_ip_n_to_p (c_ip_addr c) @ '' , '' @ show_nat (unat (c_port_no c)) @
     '']'' @ [NL]"

definition print_server :: "server \<Rightarrow> string" where
  "print_server x =
     ''['' @ network_convert_ip_n_to_p (s_ip_addr x) @ '' , '' @ show_nat (unat (s_port_no x)) @
     '']'' @ [NL]"

definition client_connected_cbk :: "server \<Rightarrow> tcp_client \<Rightarrow> string list" where
  "client_connected_cbk x c = [print_server x, ''Appln : client connected : '', print_client c]"

definition client_disconnected_cbk :: "server \<Rightarrow> tcp_client \<Rightarrow> string list" where
  "client_disconnected_cbk x c =
     [print_server x, ''Appln : client disconnected : '', print_client c]"

text \<open>The message is printed as a C string; \<open>msg\<close> is the buffer it lies in.\<close>

definition client_msg_recvd_cbk ::
    "server \<Rightarrow> tcp_client \<Rightarrow> byte list \<Rightarrow> u16 \<Rightarrow> string list res" where
  "client_msg_recvd_cbk x c msg msg_size =
     (if 0 \<notin> set msg then Inl Unterminated
      else Inr [print_server x, ''Appln : client msg recvd = '' @ show_nat (unat msg_size) @ ''B : '',
                print_client c,
                ''msg = '' @ map (\<lambda>b. char_of (unat b)) (takeWhile (\<lambda>b. b \<noteq> 0) msg) @ [NL]])"

definition client_ka_pending_cbk :: "server \<Rightarrow> tcp_client \<Rightarrow> string list" where
  "client_ka_pending_cbk x c = [print_server x, ''Appln : client KA Pending :  '', print_client c]"

section \<open>From the command line to the server\<close>

text \<open>
  The calls of application callbacks that a command line has made, executed on the servers in
  their order.
\<close>

fun run_calls ::
    "sys_answer \<Rightarrow> connect_answer \<Rightarrow> int \<Rightarrow> (nat \<times> pref \<times> ser_buff \<times> op_mode) list \<Rightarrow> tcp_app \<Rightarrow> tcp_app res" where
  "run_calls sy ca rc [] a = Inr a"
| "run_calls sy ca rc ((n, p, b, m) # cs) a =
     rbind (if n = 0 then config_tcp_server_handler sy ca b m a
            else if n = 1 then run_tcp_server_handler rc b m a
            else show_tcp_server_handler b m a) (\<lambda>(a', _). run_calls sy ca rc cs a')"

end
