(* ===== verification/Examples.thy ===== *)
theory Examples
  imports TcpServerCli Parser
begin

text \<open>
  The programs around the libraries: the main program of the TCP server shell (\<^verbatim>\<open>testapp.cpp\<close>) and
  the example programs of the command parser, \<^verbatim>\<open>CommandParser/main1.c\<close> to \<^verbatim>\<open>main4.c\<close> and
  \<^verbatim>\<open>CommandParser/testapp.c\<close>, with the trees they build and their callbacks.
\<close>

section \<open>Programs\<close>

text \<open>
  A program of \<open>n\<close> static parameters: the boot sequence, the registrations, the start of the shell.
\<close>

definition program ::
    "nat \<Rightarrow> (cli \<Rightarrow> cli res) list \<Rightarrow> string \<Rightarrow> (string \<Rightarrow> string option) \<Rightarrow>
     (nat \<Rightarrow> ser_buff \<Rightarrow> op_mode \<Rightarrow> app_effect list) \<Rightarrow> cli res" where
  "program n steps inp fs be =
     rbind (init_libcli (before_main n inp fs be)) (\<lambda>c. rbind (run_steps steps c) (\<lambda>c. Inr (shell_start c)))"

text \<open>\<^verbatim>\<open>testapp.cpp\<close>.\<close>

definition tcp_main ::
    "string \<Rightarrow> (string \<Rightarrow> string option) \<Rightarrow> (nat \<Rightarrow> ser_buff \<Rightarrow> op_mode \<Rightarrow> app_effect list) \<Rightarrow> cli res" where
  "tcp_main = program 22 [tcp_build_cli]"

text \<open>\<^verbatim>\<open>main1.c\<close>.\<close>

definition main1_steps :: "(cli \<Rightarrow> cli res) list" where
  "main1_steps = [support_cmd_negation config]"

section \<open>Nodes and loopback addresses\<close>

text \<open>The callbacks of \<^verbatim>\<open>main2.c\<close>; the number of a callback is its position here.\<close>

definition called :: "string \<Rightarrow> string" where
  "called f = f @ ''() is called ...'' @ [NL]"

definition validate_node_name :: "string \<Rightarrow> int \<times> string list" where
  "validate_node_name v = (0, [''validate_node_name() is called with value = '' @ v @ [NL]])"

definition validate_loopback_address :: "string \<Rightarrow> int \<times> string list" where
  "validate_loopback_address v = (0, [''validate_loopback_address() is called with value = '' @ v @ [NL]])"

definition node_callback_handler :: "ser_buff \<Rightarrow> op_mode \<Rightarrow> string list res" where
  "node_callback_handler b m = Inr [called ''node_callback_handler'']"

definition main2_loopback_handler :: "ser_buff \<Rightarrow> op_mode \<Rightarrow> string list res" where
  "main2_loopback_handler b m = Inr [called ''node_loopback_callback_handler'']"

text \<open>
  \<open>show node <node-name> [loopback <address>]\<close>. The last command code of \<^verbatim>\<open>main2.c\<close> goes to the
  name of the node once more, not to the address.
\<close>

definition main2_steps :: "(cli \<Rightarrow> cli res) list" where
  "main2_steps =
     (let p = app_param in
      [cmd_param (p 0) ''node'' None ''Help : node'', under show_hook (p 0),
       leaf_param (p 1) (Some (App 0)) (Some validate_node_name) STRING ''node-name'' ''Help : Node name'',
       under (p 0) (p 1), set_param_cmd_code (p 1) 1,
       cmd_param (p 2) ''loopback'' None ''Help : loopback'', under (p 1) (p 2),
       leaf_param (p 3) (Some (App 1)) (Some validate_loopback_address) IPV4 ''lo-address''
         (''Help : Node'' @ [CHR 0x27] @ ''s loopback address''), under (p 2) (p 3),
       set_param_cmd_code (p 1) 2,
       support_cmd_negation config])"

text \<open>
  \<open>node_loopback_callback_handler\<close> of \<^verbatim>\<open>main3.c\<close> and \<^verbatim>\<open>main4.c\<close>; the case of the code 3 is in
  \<^verbatim>\<open>main4.c\<close> only. A value that no unit has is a null pointer.
\<close>

fun node_values :: "tlv_struct list \<Rightarrow> string option \<times> string option \<Rightarrow> string option \<times> string option" where
  "node_values [] v = v"
| "node_values (t # ts) (node_name, lo_address) =
     node_values ts
       (if has_prefix (cstr (leaf_id t)) ''node_name'' then (Some (cstr (val t)), lo_address)
        else if has_prefix (cstr (leaf_id t)) ''lo_address'' then (node_name, Some (cstr (val t)))
        else (node_name, lo_address))"

definition not_null :: "string option \<Rightarrow> string res" where
  "not_null s = (case s of None \<Rightarrow> Inl NullDeref | Some v \<Rightarrow> Inr v)"

definition node_loopback_callback_handler :: "bool \<Rightarrow> ser_buff \<Rightarrow> op_mode \<Rightarrow> string list res" where
  "node_loopback_callback_handler config_too b m =
     rbind (EXTRACT_CMD_CODE b) (\<lambda>code.
     rbind (TLV_LOOP b) (\<lambda>ts.
     let (node_name, lo_address) = node_values ts (None, None);
         start = [called ''node_loopback_callback_handler'', ''cmd_code = '' @ show_int code @ [NL]]
     in if code = 2 then
          rbind (not_null node_name) (\<lambda>n. rbind (not_null lo_address) (\<lambda>a.
          Inr (start @ [''node_name = '' @ n @ ''. lo-address = '' @ a @ [NL]])))
        else if code = 3 \<and> config_too then
          rbind (not_null node_name) (\<lambda>n. rbind (not_null lo_address) (\<lambda>a.
          Inr (start @ [''node_name = '' @ n @ ''. lo-address = '' @ a @ '', op_code = '' @
            (if m = CONFIG_ENABLE then ''CONFIG_ENABLE'' else ''CONFIG_DISABLE'') @ [NL]])))
        else Inr start))"

text \<open>The branch below \<open>show\<close>, with the callback of the name and that of the address.\<close>

definition show_node_steps :: "nat \<Rightarrow> nat \<Rightarrow> (cli \<Rightarrow> cli res) list" where
  "show_node_steps name_cb addr_cb =
     (let p = app_param in
      [cmd_param (p 0) ''node'' None ''Help : node'', under show_hook (p 0),
       leaf_param (p 1) (Some (App name_cb)) (Some validate_node_name) STRING ''node_name''
         ''Help : Node name'', under (p 0) (p 1), set_param_cmd_code (p 1) 1,
       cmd_param (p 2) ''loopback'' None ''Help : node'', under (p 1) (p 2),
       leaf_param (p 3) (Some (App addr_cb)) (Some validate_loopback_address) IPV4 ''lo_address''
         (''Help : Node'' @ [CHR 0x27] @ ''s loopback address''), under (p 2) (p 3),
       set_param_cmd_code (p 3) 2])"

definition main3_steps :: "(cli \<Rightarrow> cli res) list" where
  "main3_steps = show_node_steps 1 1 @ [support_cmd_negation config]"

definition config_node_steps :: "(cli \<Rightarrow> cli res) list" where
  "config_node_steps =
     (let p = app_param in
      [cmd_param (p 4) ''node'' None ''Help : node'', under config (p 4),
       leaf_param (p 5) None (Some validate_node_name) STRING ''node_name'' ''Help : Node name'',
       under (p 4) (p 5),
       cmd_param (p 6) ''loopback'' None ''Help : node'', under (p 5) (p 6),
       leaf_param (p 7) (Some (App 1)) (Some validate_loopback_address) IPV4 ''lo_address''
         (''Help : Node'' @ [CHR 0x27] @ ''s loopback address''), under (p 6) (p 7),
       set_param_cmd_code (p 7) 3])"

definition main4_steps :: "(cli \<Rightarrow> cli res) list" where
  "main4_steps = show_node_steps 0 1 @ config_node_steps @ [support_cmd_negation config]"

section \<open>\<^verbatim>\<open>CommandParser/testapp.c\<close>\<close>

definition list_vlans :: "pref \<Rightarrow> ser_buff \<Rightarrow> string list" where
  "list_vlans p b = map (\<lambda>i. show_nat i @ [NL]) [1..<11]"

definition show_ip_igmp_groups_handler :: "ser_buff \<Rightarrow> op_mode \<Rightarrow> string list res" where
  "show_ip_igmp_groups_handler b m = dump_tlv_serialized_buffer b"

definition mtrace_handler :: "ser_buff \<Rightarrow> op_mode \<Rightarrow> string list res" where
  "mtrace_handler b m = dump_tlv_serialized_buffer b"

definition config_router_name_handler :: "ser_buff \<Rightarrow> op_mode \<Rightarrow> app_effect list" where
  "config_router_name_handler b m = [SetDeviceName ''router2'']"

definition user_vlan_validation_callback :: "string \<Rightarrow> int \<times> string list" where
  "user_vlan_validation_callback vlan_id =
     (let vlan_no = atoi vlan_id in
      if vlan_no > 0 \<and> vlan_no < 4096 then (0, [])
      else (-1, [''Invalid vlan. Pls follow Help'' @ [NL]]))"

text \<open>The commands below \<open>show\<close> and \<open>config router\<close>.\<close>

definition igmp_steps :: "(cli \<Rightarrow> cli res) list" where
  "igmp_steps =
     (let p = app_param; groups = Some (App 0) in
      [cmd_param (p 0) ''cmsh'' None ''cmsh hidden commands'', libcli_register_param None (p 0),
       cmd_param (p 1) ''ip'' None ''Internet Protocol(IP)'', under show_hook (p 1),
       cmd_param (p 2) ''ipv6'' None ''Internet Protocol(IPV6)'', under show_hook (p 2),
       cmd_param (p 3) ''router'' None ''Configuration Router'', under config (p 3),
       cmd_param (p 4) ''name'' None ''configure router name'', under (p 3) (p 4),
       cmd_param (p 5) ''igmp'' None ''IGMP Protocol'', under (p 1) (p 5),
       cmd_param (p 6) ''configuration'' groups ''IGMP Protocol Configuration'', under (p 5) (p 6),
       leaf_param (p 7) (Some (App 2)) None STRING ''cons-name'' ''Name of Console'', under (p 4) (p 7),
       cmd_param (p 8) ''groups'' groups ''Ipv4 Group Address'', under (p 5) (p 8),
       cmd_param (p 9) ''vlan'' None ''vlan'', under (p 8) (p 9),
       libcli_register_display_callback (p 9) (Some list_vlans),
       leaf_param (p 10) groups (Some user_vlan_validation_callback) INT_LEAF ''vlan-id'' ''Vlan id(1-4095)'',
       under (p 9) (p 10),
       leaf_param (p 11) groups None IPV4 ''group-ip'' ''Multicast Group Address'', under (p 8) (p 11),
       cmd_param (p 12) ''vlan'' None ''Vlan'', under (p 11) (p 12),
       leaf_param (p 13) groups (Some user_vlan_validation_callback) INT_LEAF ''vlan-id'' ''Vlan id(1-4095)'',
       under (p 12) (p 13)])"

definition mtrace_steps :: "(cli \<Rightarrow> cli res) list" where
  "mtrace_steps =
     (let p = app_param; mtrace = Some (App 1) in
      [cmd_param (p 14) ''mtrace'' None ''mtrace command'', under config (p 14),
       cmd_param (p 15) ''source'' None ''source command'', under (p 14) (p 15),
       leaf_param (p 16) mtrace None IPV4 ''source-ip'' ''Source Ipv4 address'', under (p 15) (p 16),
       set_param_cmd_code (p 16) 1,
       cmd_param (p 17) ''destination'' None ''destination command'', under (p 16) (p 17),
       leaf_param (p 18) mtrace None IPV4 ''destination-ip'' ''Destination Ipv4 address'',
       under (p 17) (p 18), set_param_cmd_code (p 18) 2,
       cmd_param (p 19) ''group'' None ''group command'', under (p 16) (p 19),
       leaf_param (p 20) mtrace None IPV4 ''group-ip'' ''Multicast Group Ipv4 address'',
       under (p 19) (p 20), set_param_cmd_code (p 20) 4,
       cmd_param (p 21) ''group'' None ''group command'', under (p 18) (p 21),
       leaf_param (p 22) mtrace None IPV4 ''group-ip'' ''Multicast Group Ipv4 address'',
       under (p 21) (p 22), set_param_cmd_code (p 22) 3])"

definition testapp_steps :: "(cli \<Rightarrow> cli res) list" where
  "testapp_steps = igmp_steps @ mtrace_steps @ [support_cmd_negation config]"

end
