(* ===== verification/CourseCli.thy ===== *)
theory CourseCli
  imports CourseCtrl Examples
begin

text \<open>
  The program of the edition under \<^verbatim>\<open>Course\<close>, \<^verbatim>\<open>Course/testapp.cpp\<close>: its commands, their handlers,
  the callbacks of the application and \<open>main\<close>.
\<close>

section \<open>State\<close>

record co_app =
  co_server_lst :: "sptr list"
  co_world_of :: co_world

fun co_lookup :: "co_world \<Rightarrow> string \<Rightarrow> sptr list \<Rightarrow> sptr option res" where
  "co_lookup w name [] = Inr None"
| "co_lookup w name (s # ss) =
     rbind (co_server_at w s) (\<lambda>x. if co_name x = name then Inr (Some s) else co_lookup w name ss)"

text \<open>Out of a null pointer no \<open>std::string\<close> can be made.\<close>

definition TcpServer_lookup_course :: "string option \<Rightarrow> co_app \<Rightarrow> sptr option res" where
  "TcpServer_lookup_course name a =
     (case name of
        None \<Rightarrow> Inl NullDeref
      | Some n \<Rightarrow> co_lookup (co_world_of a) n (co_server_lst a))"

section \<open>Handlers\<close>

record co_args =
  arg_name :: "string option"
  arg_ip :: string
  arg_port :: u16

definition co_default_args :: co_args where
  "co_default_args = \<lparr>arg_name = None, arg_ip = ''127.0.0.1'', arg_port = 40000\<rparr>"

text \<open>The loop over the leaf values; other leaves are passed over.\<close>

fun co_config_leaves :: "tlv_struct list \<Rightarrow> co_args \<Rightarrow> co_args" where
  "co_config_leaves [] a = a"
| "co_config_leaves (t # ts) a =
     (let i = cstr (leaf_id t); v = cstr (val t) in
      co_config_leaves ts
        (if has_prefix i ''tcp-server-name'' then a\<lparr>arg_name := Some v\<rparr>
         else if has_prefix i ''tcp-server-addr'' then a\<lparr>arg_ip := v\<rparr>
         else if has_prefix i ''tcp-server-port'' then a\<lparr>arg_port := u16_of v\<rparr>
         else a))"

fun co_show_leaves :: "tlv_struct list \<Rightarrow> string option \<Rightarrow> string option" where
  "co_show_leaves [] n = n"
| "co_show_leaves (t # ts) n =
     co_show_leaves ts (if has_prefix (cstr (leaf_id t)) ''tcp-server-name'' then Some (cstr (val t)) else n)"

definition co_app_said :: "string \<Rightarrow> co_app \<Rightarrow> co_app" where
  "co_app_said s a = a\<lparr>co_world_of := co_said s (co_world_of a)\<rparr>"

definition on_co_world :: "(co_world \<Rightarrow> co_world res) \<Rightarrow> co_app \<Rightarrow> (co_app \<times> int) res" where
  "on_co_world f a = rbind (f (co_world_of a)) (\<lambda>w. Inr (a\<lparr>co_world_of := w\<rparr>, 0))"

definition with_co_server ::
    "string option \<Rightarrow> (sptr \<Rightarrow> co_app \<Rightarrow> (co_app \<times> int) res) \<Rightarrow> co_app \<Rightarrow> (co_app \<times> int) res" where
  "with_co_server name f a =
     rbind (TcpServer_lookup_course name a) (\<lambda>found.
     case found of
       None \<Rightarrow> Inr (co_app_said (''Error : Tcp Server do not Exist'' @ [NL]) a, -1)
     | Some s \<Rightarrow> f s a)"

text \<open>\<open>fd\<close> is the descriptor a new acceptor gets.\<close>

definition co_create_server :: "co_args \<Rightarrow> int \<Rightarrow> co_app \<Rightarrow> (co_app \<times> int) res" where
  "co_create_server g fd a =
     rbind (TcpServer_lookup_course (arg_name g) a) (\<lambda>found.
     case (found, arg_name g) of
       (Some s, _) \<Rightarrow> Inr (co_app_said (''Error : Tcp Server Already Exist'' @ [NL]) a, -1)
     | (None, None) \<Rightarrow> Inl NullDeref
     | (None, Some name) \<Rightarrow>
         rbind (TcpServerController_course (arg_ip g) (arg_port g) name fd (co_world_of a)) (\<lambda>(s, w).
         rbind (SetServerNotifCallbacks_course s Hook Hook Hook w) (\<lambda>w1.
         Inr (a\<lparr>co_server_lst := co_server_lst a @ [s], co_world_of := w1\<rparr>, 0))))"

definition by_op_mode ::
    "op_mode \<Rightarrow> (co_world \<Rightarrow> co_world res) \<Rightarrow> (co_world \<Rightarrow> co_world res) \<Rightarrow> co_app \<Rightarrow> (co_app \<times> int) res" where
  "by_op_mode m enable disable a =
     (case m of
        CONFIG_ENABLE \<Rightarrow> on_co_world enable a
      | CONFIG_DISABLE \<Rightarrow> on_co_world disable a
      | _ \<Rightarrow> Inr (a, 0))"

text \<open>A stopped server stays in the list.\<close>

definition co_stop_server :: "op_mode \<Rightarrow> sptr \<Rightarrow> co_app \<Rightarrow> (co_app \<times> int) res" where
  "co_stop_server m s a =
     (case m of
        CONFIG_ENABLE \<Rightarrow> on_co_world (Stop_course s) a
      | CONFIG_DISABLE \<Rightarrow>
          Inr (co_app_said (''Command Negation is not supported for this CLI'' @ [NL]) a, -1)
      | _ \<Rightarrow> Inr (a, 0))"

definition config_tcp_server_handler_course ::
    "int \<Rightarrow> bool \<Rightarrow> ser_buff \<Rightarrow> op_mode \<Rightarrow> co_app \<Rightarrow> (co_app \<times> int) res" where
  "config_tcp_server_handler_course fd ok b m a =
     rbind (EXTRACT_CMD_CODE b) (\<lambda>code.
     rbind (TLV_LOOP b) (\<lambda>ts.
     let g = co_config_leaves ts co_default_args in
     if code = 1 then co_create_server g fd a
     else if code = 2 then with_co_server (arg_name g) (\<lambda>s. on_co_world (Start_course s ok)) a
     else if code = 4
     then with_co_server (arg_name g)
            (\<lambda>s. by_op_mode m (StopConnectionAcceptingSvc s) (StartConnectionAcceptingSvc s fd ok)) a
     else if code = 5
     then with_co_server (arg_name g)
            (\<lambda>s. by_op_mode m (StopClientSvcMgr_course s) (StartClientSvcMgr_course s)) a
     else if code = 6 then with_co_server (arg_name g) (co_stop_server m) a
     else Inr (a, 0)))"

definition show_tcp_server_handler_course :: "ser_buff \<Rightarrow> op_mode \<Rightarrow> co_app \<Rightarrow> (co_app \<times> int) res" where
  "show_tcp_server_handler_course b m a =
     rbind (EXTRACT_CMD_CODE b) (\<lambda>code.
     rbind (TLV_LOOP b) (\<lambda>ts.
     if code = 3
     then with_co_server (co_show_leaves ts None) (\<lambda>s. on_co_world (Display_server_course s)) a
     else Inr (a, 0)))"

section \<open>The callbacks of the application\<close>

definition print_client_course :: "co_client \<Rightarrow> string" where
  "print_client_course c =
     ''['' @ network_convert_ip_n_to_p (co_ip c) @ '' , '' @ show_nat (unat (co_port c)) @ '']'' @ [NL]"

text \<open>\<open>adr\<close> is how \<open>printf\<close> shows the pointer.\<close>

definition print_server_course :: "string \<Rightarrow> co_server \<Rightarrow> string" where
  "print_server_course adr x =
     adr @ '' ['' @ network_convert_ip_n_to_p (co_srv_ip x) @ '' , '' @ show_nat (unat (co_srv_port x)) @
     '']'' @ [NL]"

definition appln_client_connected :: "string \<Rightarrow> co_server \<Rightarrow> co_client \<Rightarrow> string list" where
  "appln_client_connected adr x c =
     [NL # ''Tcp Server '' @ [NL], print_server_course adr x, ''Appln : Client Connected : '',
      print_client_course c]"

definition appln_client_disconnected :: "co_server \<Rightarrow> co_client \<Rightarrow> string list" where
  "appln_client_disconnected x c = []"

text \<open>The message is printed as a C string; \<open>msg\<close> is the buffer it lies in.\<close>

definition appln_client_msg_recvd :: "byte list \<Rightarrow> u16 \<Rightarrow> string list res" where
  "appln_client_msg_recvd msg msg_size =
     (if 0 \<notin> set msg then Inl Unterminated
      else Inr [''appln_client_msg_recvd() Bytes recvd : '' @ show_nat (unat msg_size) @ '' msg : '' @
                map (\<lambda>b. char_of (unat b)) (takeWhile (\<lambda>b. b \<noteq> 0) msg) @ [NL]])"

section \<open>The tree and the program\<close>

text \<open>
  The parameters in the order of their declarations: 0 to 7 below \<open>config\<close>, 8 and 9 below \<open>show\<close>.
\<close>

definition tcp_build_config_cli_tree_course :: "(cli \<Rightarrow> cli res) list" where
  "tcp_build_config_cli_tree_course =
     (let p = app_param; h = Some (App 0) in
      [cmd_param (p 0) ''tcp-server'' None ''config tcp-server'', under config (p 0),
       leaf_param (p 1) h None STRING ''tcp-server-name'' ''Tcp Server Name'', under (p 0) (p 1),
       set_param_cmd_code (p 1) 1,
       cmd_param (p 2) ''disable-conn-accept'' h ''Connection Accept Settings'', under (p 1) (p 2),
       set_param_cmd_code (p 2) 4,
       cmd_param (p 3) ''disable-client-listen'' h ''Listening  Settings'', under (p 1) (p 3),
       set_param_cmd_code (p 3) 5,
       cmd_param (p 4) ''stop'' h ''Stop TCP Server'', under (p 1) (p 4), set_param_cmd_code (p 4) 6,
       leaf_param (p 5) None None IPV4 ''tcp-server-addr'' ''Tcp Server Address'', under (p 1) (p 5),
       leaf_param (p 6) h None INT_LEAF ''tcp-server-port'' ''Tcp Server Port Number'',
       under (p 5) (p 6), set_param_cmd_code (p 6) 1,
       cmd_param (p 7) ''start'' h ''Start'', under (p 1) (p 7), set_param_cmd_code (p 7) 2,
       support_cmd_negation (p 1), support_cmd_negation config])"

definition tcp_build_show_cli_tree_course :: "(cli \<Rightarrow> cli res) list" where
  "tcp_build_show_cli_tree_course =
     (let p = app_param in
      [cmd_param (p 8) ''tcp-server'' None ''show tcp-server'', under show_hook (p 8),
       leaf_param (p 9) (Some (App 1)) None STRING ''tcp-server-name'' ''Tcp Server Name'',
       under (p 8) (p 9), set_param_cmd_code (p 9) 3])"

definition tcp_build_cli_course :: "(cli \<Rightarrow> cli res) list" where
  "tcp_build_cli_course = tcp_build_config_cli_tree_course @ tcp_build_show_cli_tree_course"

definition course_main ::
    "string \<Rightarrow> (string \<Rightarrow> string option) \<Rightarrow> (nat \<Rightarrow> ser_buff \<Rightarrow> op_mode \<Rightarrow> app_effect list) \<Rightarrow> cli res" where
  "course_main = program 10 tcp_build_cli_course"

end
