(* ===== verification/ShellTree.thy ===== *)
theory ShellTree
  imports TreeBuild CourseCli
begin

text \<open>
  The command tree of the shell as it stands after the boot sequence of \<open>init_libcli\<close> and after
  the server commands were registered, computed from the registrations.
\<close>

section \<open>Notation for nodes\<close>

definition children :: "pref list \<Rightarrow> pref option list" where
  "children ks =
     (if ks = [] then replicate MAX_OPTION_SIZE None
      else [Some mode_param, Some suboptions_param, Some cmd_expansion_param] @ map Some ks @
        replicate (13 - length ks) None)"

definition cmd_node :: "string \<Rightarrow> callback option \<Rightarrow> pref list \<Rightarrow> pref option \<Rightarrow> int \<Rightarrow> param" where
  "cmd_node n cb ks par code =
     (plain_node CMD (CmdPtr n) cb)\<lparr>options := children ks, parent := par, CMDCODE := code\<rparr>"

definition leaf_data :: "string \<Rightarrow> leaf_type \<Rightarrow> (string \<Rightarrow> int \<times> string list) option \<Rightarrow> leaf" where
  "leaf_data i lt ucb = \<lparr>lf_type = lt, value_holder = [], user_validation_cb_fn = ucb, lf_id = i\<rparr>"

definition leaf_node ::
    "string \<Rightarrow> leaf_type \<Rightarrow> (string \<Rightarrow> int \<times> string list) option \<Rightarrow> callback option \<Rightarrow> pref list \<Rightarrow>
     pref option \<Rightarrow> int \<Rightarrow> param" where
  "leaf_node i lt ucb cb ks par code =
     (plain_node LEAF (LeafPtr (leaf_data i lt ucb)) cb)
       \<lparr>options := children ks, parent := par, CMDCODE := code\<rparr>"

definition negation :: "pref list \<Rightarrow> pref \<Rightarrow> param" where
  "negation ks par =
     (plain_node NO_CMD (CmdPtr ''no'') (Some Negate))
       \<lparr>options := [Some suboptions_param, Some suboptions_param, Some cmd_expansion_param] @
          map Some ks @ replicate (13 - length ks) None, parent := Some par\<rparr>"

section \<open>The two trees\<close>

definition init_tree :: "param list" where
  "init_tree =
    [cmd_node ''ROOT'' None [2, 3, 5, 6, 7, 8, 32, 33, 34] None (-1),
     (cmd_node ''DO_HOOK'' None [] None (-1))
       \<lparr>options := [Some 11, Some 11, Some 12, Some 2, Some 3, Some 6] @ replicate 10 None\<rparr>,
     cmd_node ''show'' None [13, 14, 16] (Some 0) (-1),
     cmd_node ''debug'' None [18, 4] (Some 0) (-1),
     cmd_node ''show'' None [20] (Some 3) (-1),
     cmd_node ''config'' (Some ConfigModeEnter) [21, 23, 29] (Some 0) (-1),
     cmd_node ''clear'' None [] (Some 0) (-1),
     cmd_node ''run'' None [25, 26] (Some 0) (-1),
     cmd_node ''repeat'' (Some RepeatLast) [] (Some 0) (-1),
     cmd_node ''brief'' (Some ShowExtensionParam) [] None (-1),
     cmd_node ''/'' (Some ModeEnter) [] None (-1),
     cmd_node ''?'' (Some DisplaySubOptions) [] None (-1),
     cmd_node ''.'' (Some DisplayCmdExpansion) [] None (-1),
     cmd_node ''help'' (Some ShowHelp) [] (Some 2) 1,
     cmd_node ''history'' (Some ShowHistory) [15] (Some 2) 2,
     leaf_node ''N'' INT_LEAF None (Some ShowHistory) [] (Some 14) 3,
     cmd_node ''registered'' None [17] (Some 2) (-1),
     cmd_node ''commands'' (Some ShowRegistered) [] (Some 16) 4,
     cmd_node ''ut'' None [19] (Some 3) (-1),
     leaf_node ''ut-enable'' STRING (Some enable_disable_validation_handler)
       (Some UtTest) [] (Some 18) 10,
     cmd_node ''cmdtree'' (Some ShowCmdTree) [] (Some 4) 7,
     cmd_node ''load'' None [22] (Some 5) (-1),
     leaf_node ''file-name'' STRING None (Some LoadFile) [] (Some 21) 8,
     cmd_node ''supportsave'' None [24] (Some 5) (-1),
     cmd_node ''enable'' (Some Supportsave) [] (Some 23) 5,
     cmd_node ''term'' (Some CliTerminate) [] (Some 7) (-1),
     cmd_node ''ut'' None [27] (Some 7) (-1),
     leaf_node ''ut-file-name'' STRING None None [28] (Some 26) (-1),
     leaf_node ''tc-no'' INT_LEAF None (Some UtTest) [] (Some 27) 9,
     cmd_node ''console'' None [30] (Some 5) (-1),
     cmd_node ''name'' None [31] (Some 29) (-1),
     leaf_node ''cons-name'' STRING None (Some ConsoleName) [] (Some 30) 6,
     (cmd_node ''cls'' (Some ClearScreen) [] (Some 0) (-1))\<lparr>ishidden := True\<rparr>,
     (cmd_node ''cd..'' (Some ExitCmd) [] (Some 0) (-1))\<lparr>ishidden := True\<rparr>,
     (cmd_node ''cd'' (Some EndCmd) [] (Some 0) (-1))\<lparr>ishidden := True\<rparr>]"

definition shell_tree :: "param list" where
  "shell_tree =
    [cmd_node ''ROOT'' None [2, 3, 5, 6, 7, 8, 32, 33, 34] None (-1),
     (cmd_node ''DO_HOOK'' None [] None (-1))
       \<lparr>options := [Some 11, Some 11, Some 12, Some 2, Some 3, Some 6] @ replicate 10 None\<rparr>,
     cmd_node ''show'' None [13, 14, 16, 55] (Some 0) (-1),
     cmd_node ''debug'' None [18, 4] (Some 0) (-1),
     cmd_node ''show'' None [20] (Some 3) (-1),
     cmd_node ''config'' (Some ConfigModeEnter) [21, 23, 29, 35, 58] (Some 0) (-1),
     cmd_node ''clear'' None [] (Some 0) (-1),
     cmd_node ''run'' None [25, 26, 49] (Some 0) (-1),
     cmd_node ''repeat'' (Some RepeatLast) [] (Some 0) (-1),
     cmd_node ''brief'' (Some ShowExtensionParam) [] None (-1),
     cmd_node ''/'' (Some ModeEnter) [] None (-1),
     cmd_node ''?'' (Some DisplaySubOptions) [] None (-1),
     cmd_node ''.'' (Some DisplayCmdExpansion) [] None (-1),
     cmd_node ''help'' (Some ShowHelp) [] (Some 2) 1,
     cmd_node ''history'' (Some ShowHistory) [15] (Some 2) 2,
     leaf_node ''N'' INT_LEAF None (Some ShowHistory) [] (Some 14) 3,
     cmd_node ''registered'' None [17] (Some 2) (-1),
     cmd_node ''commands'' (Some ShowRegistered) [] (Some 16) 4,
     cmd_node ''ut'' None [19] (Some 3) (-1),
     leaf_node ''ut-enable'' STRING (Some enable_disable_validation_handler)
       (Some UtTest) [] (Some 18) 10,
     cmd_node ''cmdtree'' (Some ShowCmdTree) [] (Some 4) 7,
     cmd_node ''load'' None [22] (Some 5) (-1),
     leaf_node ''file-name'' STRING None (Some LoadFile) [] (Some 21) 8,
     cmd_node ''supportsave'' None [24] (Some 5) (-1),
     cmd_node ''enable'' (Some Supportsave) [] (Some 23) 5,
     cmd_node ''term'' (Some CliTerminate) [] (Some 7) (-1),
     cmd_node ''ut'' None [27] (Some 7) (-1),
     leaf_node ''ut-file-name'' STRING None None [28] (Some 26) (-1),
     leaf_node ''tc-no'' INT_LEAF None (Some UtTest) [] (Some 27) 9,
     cmd_node ''console'' None [30] (Some 5) (-1),
     cmd_node ''name'' None [31] (Some 29) (-1),
     leaf_node ''cons-name'' STRING None (Some ConsoleName) [] (Some 30) 6,
     (cmd_node ''cls'' (Some ClearScreen) [] (Some 0) (-1))\<lparr>ishidden := True\<rparr>,
     (cmd_node ''cd..'' (Some ExitCmd) [] (Some 0) (-1))\<lparr>ishidden := True\<rparr>,
     (cmd_node ''cd'' (Some EndCmd) [] (Some 0) (-1))\<lparr>ishidden := True\<rparr>,
     cmd_node ''tcp-server'' None [36] (Some 5) (-1),
     leaf_node ''tcp-server-name'' STRING None
       (Some (App 0)) [37, 38, 41, 42, 43, 44, 45, 47, 57] (Some 35) 1,
     cmd_node ''start'' (Some (App 0)) [] (Some 36) 16,
     cmd_node ''connect'' None [39] (Some 36) (-1),
     leaf_node ''remote-addr'' IPV4 None None [40] (Some 38) (-1),
     leaf_node ''remote-port'' INT_LEAF None (Some (App 0)) [] (Some 39) 17,
     cmd_node ''abort'' (Some (App 0)) [] (Some 36) 2,
     cmd_node ''multi-threaded-mode'' (Some (App 0)) [] (Some 36) 11,
     cmd_node ''disable-conn-accept'' (Some (App 0)) [] (Some 36) 5,
     cmd_node ''disable-client-listen'' (Some (App 0)) [] (Some 36) 14,
     cmd_node ''ka-interval'' None [46] (Some 36) (-1),
     leaf_node ''ka-interval'' INT_LEAF None (Some (App 0)) [] (Some 45) 9,
     leaf_node ''tcp-server-addr'' IPV4 None (Some (App 0)) [48] (Some 36) (-1),
     leaf_node ''tcp-server-port'' INT_LEAF None (Some (App 0)) [] (Some 47) 1,
     cmd_node ''tcp-server'' None [50] (Some 7) (-1),
     leaf_node ''tcp-server-name'' STRING None None [51] (Some 49) (-1),
     cmd_node ''send-msg'' None [52] (Some 50) (-1),
     leaf_node ''remote-addr'' IPV4 None None [53] (Some 51) (-1),
     leaf_node ''remote-port'' INT_LEAF None None [54] (Some 52) (-1),
     leaf_node ''msg'' STRING None (Some (App 1)) [] (Some 53) 1,
     cmd_node ''tcp-server'' None [56] (Some 2) (-1),
     leaf_node ''tcp-server-name'' STRING None (Some (App 2)) [] (Some 55) 8,
     negation [37, 38, 41, 42, 43, 44, 45, 47] 36,
     negation [21, 23, 29, 35] 5]"

section \<open>The boot sequence\<close>

text \<open>Builders that a longer pool does not disturb.\<close>

definition local :: "builder \<Rightarrow> bool" where
  "local g \<longleftrightarrow> (\<forall>ps qs zs. g ps = Some qs \<longrightarrow> length qs = length ps \<and> g (ps @ zs) = Some (qs @ zs))"

lemma local_upd: "local (b_upd p f)"
  by (auto simp: local_def b_upd_def nth_append list_update_append split: if_splits)

lemma local_ops:
  "local (b_cmd p n cb)" "local (b_leaf p cb ucb lt i)" "local (b_code p k)" "local (b_option p j q)"
  using local_upd
  by (auto simp: b_cmd_def b_leaf_def local_def b_code_def b_option_def nth_append split: if_splits)

lemma local_under: "local (b_under q p)"
  unfolding local_def
proof (intro allI impI)
  fix ps qs zs :: "param list"
  assume a: "b_under q p ps = Some qs"
  then have l: "p < length ps" "q < length ps" by (auto simp: b_under_def split: if_splits)
  show "length qs = length ps \<and> b_under q p (ps @ zs) = Some (qs @ zs)"
  proof (cases "b_under q p ps")
    case (Some rs)
    then show ?thesis
      using a l
      by (cases "free_slot CHILDREN_START_INDEX (drop CHILDREN_START_INDEX
            (fill_default CMD_EXPANSION_INDEX cmd_expansion_param
              (fill_default SUBOPTIONS_INDEX suboptions_param
                (fill_default MODE_PARAM_INDEX mode_param (options (ps ! q))))))")
         (auto simp: b_under_def Let_def nth_append_left list_update_append1)
  qed (use a in simp)
qed

lemma localD: "local g \<Longrightarrow> g ps = Some qs \<Longrightarrow> g (ps @ zs) = Some (qs @ zs)"
  by (simp add: local_def)

lemma local_Nil: "local (build_all [])"
  by (simp add: local_def)

lemma local_Cons:
  assumes "local g" "local (build_all gs)"
  shows "local (build_all (g # gs))"
  unfolding local_def
proof (intro allI impI)
  fix ps qs zs :: "param list"
  assume "build_all (g # gs) ps = Some qs"
  then obtain ps1 where "g ps = Some ps1" "build_all gs ps1 = Some qs"
    by (auto split: option.splits)
  then show "length qs = length ps \<and> build_all (g # gs) (ps @ zs) = Some (qs @ zs)"
    using assms unfolding local_def by simp
qed

lemmas local_rules = local_Nil local_Cons local_upd local_ops local_under

text \<open>The steps of \<open>init_libcli\<close> behind the token array.\<close>

definition tree_steps :: "(cli \<Rightarrow> cli res) list" where
  "tree_steps =
     [cmd_param mode_param ''/'' (Some ModeEnter) ''ENTER MODE'',
      cmd_param suboptions_param ''?'' (Some DisplaySubOptions) ''Sub-Options'',
      cmd_param cmd_expansion_param ''.'' (Some DisplayCmdExpansion)
        ''All possible Command expansions''] @
     show_steps @ debug_steps @ config_steps @ run_steps_of_tree @ do_steps @ console_steps"

definition blank :: param where
  "blank = sketch_of zero_param"

lemma init_libcli_steps:
  "init_libcli = run_steps
     ([cmd_param root ''ROOT'' None ''ROOT'',
       \<lambda>c. Inr (c\<lparr>tlv_buff := init_serialized_buffer_of_defined_size TLV_MAX_BUFFER_SIZE\<rparr>),
       \<lambda>c. Inr (reset_cmd_tree_cursor c),
       set_device_name ''tcp-server'',
       \<lambda>c. Inr (c\<lparr>token_arr := init_token_array\<rparr>)] @ tree_steps)"
  by (simp add: init_libcli_def tree_steps_def)

text \<open>
  Trees are compared after evaluation, which does not decide equality of the functions in them.
\<close>

lemma eq_by_evaluation: "(\<And>Q :: 'a \<Rightarrow> bool. Q a = Q b) \<Longrightarrow> a = b"
  by (drule meta_spec [of _ "\<lambda>x. x = b"]) simp

lemma tree_steps_build:
  "\<exists>g. builds (run_steps tree_steps) g \<and> local g \<and>
     g ((replicate STATICS blank)[root := cmd_node ''ROOT'' None [] None (-1)]) = Some init_tree"
  unfolding tree_steps_def show_steps_def debug_steps_def config_steps_def run_steps_of_tree_def
    do_steps_def console_steps_def append.simps
  apply (rule exI, rule conjI, rule builds_steps)
   apply (rule list.rel_intros builds_ops)+
  apply (rule conjI)
   apply (rule local_rules)+
  apply (rule eq_by_evaluation, code_simp)
  done

lemma tcp_build_cli_build:
  "\<exists>g. builds tcp_build_cli g \<and> g (init_tree @ replicate 22 blank) = Some shell_tree"
  unfolding tcp_build_cli_def tcp_build_config_cli_tree_def tcp_build_run_cli_tree_def
    tcp_build_show_cli_tree_def Let_def append.simps
  apply (rule exI, rule conjI, rule builds_steps)
   apply (rule list.rel_intros builds_ops)+
  apply (rule eq_by_evaluation, code_simp)
  done

text \<open>What the boot sequence leaves in the other variables.\<close>

definition booted ::
    "nat \<Rightarrow> string \<Rightarrow> (string \<Rightarrow> string option) \<Rightarrow>
     (nat \<Rightarrow> ser_buff \<Rightarrow> op_mode \<Rightarrow> app_effect list) \<Rightarrow> cli" where
  "booted n inp fs be =
     (before_main n inp fs be)
       \<lparr>cursor := Some root,
        tlv_buff := reset_serialize_buffer (init_serialized_buffer_of_defined_size TLV_MAX_BUFFER_SIZE),
        console_name := ''tcp-server>'', token_arr := init_token_array\<rparr>"

lemma sketch_before_main: "sketch (before_main n inp fs be) = replicate (STATICS + n) blank"
  by (simp add: sketch_def before_main_def blank_def)

lemma init_libcli_tree:
  "\<exists>qs. init_libcli (before_main n inp fs be) = Inr ((booted n inp fs be)\<lparr>params := qs\<rparr>) \<and>
     map sketch_of qs = init_tree @ replicate n blank"
proof -
  let ?c = "before_main n inp fs be"
  let ?root = "cmd_node ''ROOT'' None [] None (-1)"
  have "b_cmd root ''ROOT'' None (sketch ?c) = Some ((replicate (STATICS + n) blank)[root := ?root])"
    by (simp add: b_cmd_def b_upd_def sketch_before_main cmd_node_def plain_node_def children_def)
  then obtain ps where ps: "cmd_param root ''ROOT'' None ''ROOT'' ?c = Inr (?c\<lparr>params := ps\<rparr>)"
    "sketch (?c\<lparr>params := ps\<rparr>) = (replicate (STATICS + n) blank)[root := ?root]"
    using buildsE [OF builds_cmd] by blast
  let ?c1 = "(booted n inp fs be)\<lparr>params := ps\<rparr>"
  have "run_steps [cmd_param root ''ROOT'' None ''ROOT'',
      \<lambda>c. Inr (c\<lparr>tlv_buff := init_serialized_buffer_of_defined_size TLV_MAX_BUFFER_SIZE\<rparr>),
      \<lambda>c. Inr (reset_cmd_tree_cursor c), set_device_name ''tcp-server'',
      \<lambda>c. Inr (c\<lparr>token_arr := init_token_array\<rparr>)] ?c = Inr ?c1"
    using ps(1)
    by (simp add: booted_def before_main_def reset_cmd_tree_cursor_def set_device_name_def
        set_console_def)
  then have boot: "init_libcli ?c = run_steps tree_steps ?c1"
    by (simp only: init_libcli_steps run_steps_append rbind_Inr)
  obtain g where g: "builds (run_steps tree_steps) g" "local g"
    "g ((replicate STATICS blank)[root := ?root]) = Some init_tree"
    using tree_steps_build by blast
  have "sketch ?c1 = (replicate STATICS blank)[root := ?root] @ replicate n blank"
    using ps(2) by (simp add: replicate_add list_update_append)
  then have "g (sketch ?c1) = Some (init_tree @ replicate n blank)"
    using localD [OF g(2,3)] by simp
  then obtain qs where "run_steps tree_steps ?c1 = Inr (?c1\<lparr>params := qs\<rparr>)"
    "sketch (?c1\<lparr>params := qs\<rparr>) = init_tree @ replicate n blank"
    using buildsE [OF g(1)] by blast
  then show ?thesis using boot by auto
qed

text \<open>A program whose registrations build a tree comes to its prompt with this tree.\<close>

lemma program_tree:
  assumes "builds (run_steps steps) g" "g (init_tree @ replicate n blank) = Some T"
  shows "\<exists>qs. program n steps inp fs be = Inr (shell_start ((booted n inp fs be)\<lparr>params := qs\<rparr>)) \<and>
     map sketch_of qs = T"
proof -
  obtain ps where ps: "init_libcli (before_main n inp fs be) = Inr ((booted n inp fs be)\<lparr>params := ps\<rparr>)"
    "map sketch_of ps = init_tree @ replicate n blank"
    using init_libcli_tree [of n] by blast
  let ?c = "(booted n inp fs be)\<lparr>params := ps\<rparr>"
  obtain qs where "run_steps steps ?c = Inr (?c\<lparr>params := qs\<rparr>)" "sketch (?c\<lparr>params := qs\<rparr>) = T"
    using buildsE [OF assms(1), of ?c T] ps(2) assms(2) by auto
  then show ?thesis using ps(1) by (auto simp: program_def)
qed

lemma tcp_main_tree:
  "\<exists>qs. tcp_main inp fs be = Inr (shell_start ((booted 22 inp fs be)\<lparr>params := qs\<rparr>)) \<and>
     map sketch_of qs = shell_tree"
proof -
  obtain g where g: "builds tcp_build_cli g" "g (init_tree @ replicate 22 blank) = Some shell_tree"
    using tcp_build_cli_build by blast
  have "builds (run_steps [tcp_build_cli]) (build_all [g])" by (rule builds_steps) (simp add: g(1))
  then show ?thesis using program_tree [of "[tcp_build_cli]" "build_all [g]" 22] g(2) by (simp add: tcp_main_def)
qed

text \<open>The trees of the example programs exist; they are not written out.\<close>

lemma built_tree:
  "\<exists>g. builds f g \<and> (case g T0 of None \<Rightarrow> False | Some T \<Rightarrow> True) \<Longrightarrow> \<exists>g T. builds f g \<and> g T0 = Some T"
  by (auto split: option.splits)

lemma main1_tree: "\<exists>g T. builds (run_steps main1_steps) g \<and> g (init_tree @ replicate 0 blank) = Some T"
  unfolding main1_steps_def
  apply (rule built_tree, rule exI, rule conjI, rule builds_steps)
   apply (rule list.rel_intros builds_ops)+
  apply code_simp
  done

lemma main2_tree: "\<exists>g T. builds (run_steps main2_steps) g \<and> g (init_tree @ replicate 4 blank) = Some T"
  unfolding main2_steps_def Let_def
  apply (rule built_tree, rule exI, rule conjI, rule builds_steps)
   apply (rule list.rel_intros builds_ops)+
  apply code_simp
  done

lemma main3_tree: "\<exists>g T. builds (run_steps main3_steps) g \<and> g (init_tree @ replicate 4 blank) = Some T"
  unfolding main3_steps_def show_node_steps_def Let_def append.simps
  apply (rule built_tree, rule exI, rule conjI, rule builds_steps)
   apply (rule list.rel_intros builds_ops)+
  apply code_simp
  done

lemma main4_tree: "\<exists>g T. builds (run_steps main4_steps) g \<and> g (init_tree @ replicate 8 blank) = Some T"
  unfolding main4_steps_def show_node_steps_def config_node_steps_def Let_def append.simps
  apply (rule built_tree, rule exI, rule conjI, rule builds_steps)
   apply (rule list.rel_intros builds_ops)+
  apply code_simp
  done

lemma testapp_tree: "\<exists>g T. builds (run_steps testapp_steps) g \<and> g (init_tree @ replicate 23 blank) = Some T"
  unfolding testapp_steps_def igmp_steps_def mtrace_steps_def Let_def append.simps
  apply (rule built_tree, rule exI, rule conjI, rule builds_steps)
   apply (rule list.rel_intros builds_ops)+
  apply code_simp
  done

lemma course_tree: "\<exists>g T. builds (run_steps tcp_build_cli_course) g \<and> g (init_tree @ replicate 10 blank) = Some T"
  unfolding tcp_build_cli_course_def tcp_build_config_cli_tree_course_def tcp_build_show_cli_tree_course_def
    Let_def append.simps
  apply (rule built_tree, rule exI, rule conjI, rule builds_steps)
   apply (rule list.rel_intros builds_ops)+
  apply code_simp
  done

end
