(* ===== verification/TreeWf.thy ===== *)
theory TreeWf
  imports TreeBuild ParserFrame
begin

text \<open>
  Well-formed command trees: what the registrations of an application make of the pool of
  parameters, and why every walk through the tree ends.
\<close>

section \<open>Well-formed trees\<close>

text \<open>The pointer of a parameter agrees with its type, as far as it was initialised.\<close>

definition kind_ok :: "param \<Rightarrow> bool" where
  "kind_ok x \<longleftrightarrow>
     (case cmd_type x of
        NullPtr \<Rightarrow> True | CmdPtr n \<Rightarrow> param_type x \<noteq> LEAF | LeafPtr l \<Rightarrow> param_type x = LEAF)"

definition declared :: "param list \<Rightarrow> pref \<Rightarrow> bool" where
  "declared ps p \<longleftrightarrow> p < length ps \<and> cmd_type (ps ! p) \<noteq> NullPtr"

definition ups :: "param list \<Rightarrow> (pref \<times> pref) set" where
  "ups ps = {(p, q). p < length ps \<and> parent (ps ! p) = Some q}"

definition node_ok :: "param list \<Rightarrow> param \<Rightarrow> bool" where
  "node_ok ps x \<longleftrightarrow>
     kind_ok x \<and> length (options x) = MAX_OPTION_SIZE \<and>
     (\<forall>q. Some q \<in> set (options x) \<longrightarrow> declared ps q) \<and>
     (\<forall>q. parent x = Some q \<longrightarrow> q < length ps)"

definition tree_ok :: "param list \<Rightarrow> bool" where
  "tree_ok ps \<longleftrightarrow>
     (\<forall>x\<in>set ps. node_ok ps x) \<and> acyclic (ups ps) \<and>
     declared ps mode_param \<and> declared ps suboptions_param \<and> declared ps cmd_expansion_param \<and>
     root < length ps \<and> parent (ps ! root) = None"

lemma tree_okD:
  assumes "tree_ok ps"
  shows "p < length ps \<Longrightarrow> node_ok ps (ps ! p)" "acyclic (ups ps)"
    "declared ps mode_param" "declared ps suboptions_param" "declared ps cmd_expansion_param"
    "root < length ps" "parent (ps ! root) = None"
  using assms by (auto simp: tree_ok_def)

lemma kind_ok_update [simp]:
  "kind_ok (x\<lparr>options := os\<rparr>) = kind_ok x" "kind_ok (x\<lparr>parent := q\<rparr>) = kind_ok x"
  "kind_ok (x\<lparr>CMDCODE := k\<rparr>) = kind_ok x" "kind_ok (x\<lparr>ishidden := b\<rparr>) = kind_ok x"
  "kind_ok (x\<lparr>disp_callback := f\<rparr>) = kind_ok x"
  by (simp_all add: kind_ok_def split: cmd_union.split)

lemma sketch_of_kind [simp]:
  "kind_ok (sketch_of x) = kind_ok x" "(cmd_type (sketch_of x) = NullPtr) = (cmd_type x = NullPtr)"
  by (auto simp: sketch_of_def erase_def kind_ok_def split: cmd_union.splits)

lemma declared_sketch [simp]: "declared (map sketch_of ps) p = declared ps p"
  by (auto simp: declared_def)

lemma ups_sketch [simp]: "ups (map sketch_of ps) = ups ps"
  by (auto simp: ups_def)

lemma tree_ok_sketch [simp]: "tree_ok (map sketch_of ps) = tree_ok ps"
proof -
  have "node_ok (map sketch_of ps) (sketch_of x) = node_ok ps x" for x
    by (simp add: node_ok_def)
  then show ?thesis by (auto simp: tree_ok_def)
qed

lemma tree_ok_shape: "shape c' = shape c \<Longrightarrow> tree_ok (params c') = tree_ok (params c)"
  using sketch_shape [of c' c] tree_ok_sketch unfolding sketch_def by metis

section \<open>Changes of a single parameter\<close>

text \<open>
  A parameter is replaced. Its new parent, if it has one, is not below it.
\<close>

lemma replace_ok:
  assumes t: "tree_ok ps" and p: "p < length ps"
    and x: "kind_ok x" "length (options x) = MAX_OPTION_SIZE" "cmd_type x \<noteq> NullPtr \<or> cmd_type (ps ! p) = NullPtr"
      "\<And>q. Some q \<in> set (options x) \<Longrightarrow> declared ps q"
    and up: "\<And>q. parent x = Some q \<Longrightarrow> parent (ps ! p) = Some q \<or> q < length ps \<and> (q, p) \<notin> (ups ps)\<^sup>*"
    and r: "p = root \<Longrightarrow> parent x = None"
  shows "tree_ok (ps[p := x])"
proof -
  let ?ps = "ps[p := x]"
  have d: "declared ps q \<Longrightarrow> declared ?ps q" for q
    using x(3) p by (cases "q = p") (auto simp: declared_def)
  have e: "ups ?ps \<subseteq> ups ps \<or> (\<exists>q. parent x = Some q \<and> (q, p) \<notin> (ups ps)\<^sup>* \<and> ups ?ps \<subseteq> insert (p, q) (ups ps))"
  proof (cases "parent x = None \<or> parent x = parent (ps ! p)")
    case True
    then have "ups ?ps \<subseteq> ups ps" using p by (auto simp: ups_def nth_list_update split: if_splits)
    then show ?thesis ..
  next
    case False
    then obtain q where q: "parent x = Some q" "(q, p) \<notin> (ups ps)\<^sup>*" using up by auto
    moreover have "ups ?ps \<subseteq> insert (p, q) (ups ps)"
      using q(1) p by (auto simp: ups_def nth_list_update split: if_splits)
    ultimately show ?thesis by blast
  qed
  have a: "acyclic (ups ?ps)"
    using e tree_okD(2) [OF t] by (metis acyclic_insert acyclic_subset)
  have n: "node_ok ps y \<Longrightarrow> node_ok ?ps y" for y using d by (auto simp: node_ok_def)
  have "\<forall>q. parent x = Some q \<longrightarrow> q < length ps"
    using up tree_okD(1) [OF t p] by (auto simp: node_ok_def)
  then have "node_ok ps x" using x by (simp add: node_ok_def)
  then have "\<forall>y\<in>set ?ps. node_ok ?ps y"
    using n t set_update_subset_insert [of ps p x] by (auto simp: tree_ok_def)
  moreover have "parent (?ps ! root) = None"
    using r p tree_okD(7) [OF t] by (cases "p = root") auto
  ultimately show ?thesis
    using a d tree_okD [OF t] by (simp add: tree_ok_def)
qed

text \<open>Nothing points up to a position behind the pool.\<close>

lemma append_ok:
  assumes t: "tree_ok ps" and x: "kind_ok x" "length (options x) = MAX_OPTION_SIZE"
    and o: "\<And>q. Some q \<in> set (options x) \<Longrightarrow> declared ps q"
    and up: "\<And>q. parent x = Some q \<Longrightarrow> q < length ps"
  shows "tree_ok (ps @ [x])"
proof -
  have d: "declared ps q \<Longrightarrow> declared (ps @ [x]) q" for q by (auto simp: declared_def nth_append)
  have below: "(q, p) \<in> (ups ps)\<^sup>* \<Longrightarrow> q < length ps \<Longrightarrow> p < length ps" for p q
    by (induction rule: rtrancl_induct) (use tree_okD(1) [OF t] in \<open>auto simp: ups_def node_ok_def\<close>)
  have sub: "ups (ps @ [x]) \<subseteq> ups ps \<union> (case parent x of None \<Rightarrow> {} | Some q \<Rightarrow> {(length ps, q)})"
    by (auto simp: ups_def nth_append split: if_splits)
  have "acyclic (ups (ps @ [x]))"
  proof (cases "parent x")
    case None
    then show ?thesis using sub tree_okD(2) [OF t] by (auto intro: acyclic_subset)
  next
    case (Some q)
    then have "(q, length ps) \<notin> (ups ps)\<^sup>*" using below up by blast
    then have "acyclic (insert (length ps, q) (ups ps))"
      using tree_okD(2) [OF t] by (simp add: acyclic_insert)
    then show ?thesis using sub Some by (auto intro: acyclic_subset)
  qed
  moreover have "node_ok ps y \<Longrightarrow> node_ok (ps @ [x]) y" for y
    using d by (auto simp: node_ok_def intro: less_SucI)
  moreover have "node_ok ps x" using x o up by (simp add: node_ok_def)
  ultimately show ?thesis
    using d tree_okD [OF t] t by (auto simp: tree_ok_def nth_append)
qed

section \<open>The operations\<close>

text \<open>
  What an application does to the tree, and the lines that are typed. The library checks none of
  this: \<open>libcli_register_param\<close> takes every parameter. The steps say which of them registers what.
\<close>

datatype tree_call = Register "pref option" pref | Other

inductive tree_op :: "cli \<Rightarrow> tree_call \<Rightarrow> cli \<Rightarrow> bool" where
  initialise: "init_param p ty n cb ucb lt i h c = Inr c' \<Longrightarrow> tree_op c Other c'"
| register: "libcli_register_param par p c = Inr c' \<Longrightarrow> tree_op c (Register par p) c'"
| code: "set_param_cmd_code p k c = Inr c' \<Longrightarrow> tree_op c Other c'"
| hide: "HIDE_PARAM p c = Inr c' \<Longrightarrow> tree_op c Other c'"
| display: "libcli_register_display_callback p f c = Inr c' \<Longrightarrow> tree_op c Other c'"
| negate: "support_cmd_negation p c = Inr c' \<Longrightarrow> tree_op c Other c'"
| line: "parse_input_cmd fuel s c = Inr (c', st, r) \<Longrightarrow> tree_op c Other c'"

text \<open>
  The parameter that a registration hangs the new one below, and the registrations that make sense:
  the parameter was initialised, is not the root, and is not hung below itself or below one of its
  own descendants.
\<close>

definition hung_below :: "pref option \<Rightarrow> pref" where
  "hung_below par = (case par of None \<Rightarrow> root | Some q \<Rightarrow> q)"

definition sensible :: "cli \<Rightarrow> tree_call \<Rightarrow> bool" where
  "sensible c call =
     (case call of
        Register par p \<Rightarrow>
          declared (params c) p \<and> p \<noteq> root \<and> (hung_below par, p) \<notin> (ups (params c))\<^sup>*
      | Other \<Rightarrow> True)"

definition sensible_op :: "cli \<Rightarrow> cli \<Rightarrow> bool" where
  "sensible_op c c' \<longleftrightarrow> (\<exists>call. sensible c call \<and> tree_op c call c')"

lemma same_place_ok:
  assumes "tree_ok ps" "p < length ps" "kind_ok x" "options x = options (ps ! p)"
    "parent x = parent (ps ! p)" "cmd_type x = NullPtr \<longleftrightarrow> cmd_type (ps ! p) = NullPtr"
  shows "tree_ok (ps[p := x])"
  using assms tree_okD(1,6,7) [OF assms(1)]
  by (intro replace_ok) (auto simp: node_ok_def)

lemma tree_ok_kind: "tree_ok ps \<Longrightarrow> p < length ps \<Longrightarrow> kind_ok (ps ! p)"
  using tree_okD(1) by (auto simp: node_ok_def)

lemmas same_place_rules =
  same_place_ok [where x = "(ps ! p)\<lparr>CMDCODE := k\<rparr>" for ps p k]
  same_place_ok [where x = "(ps ! p)\<lparr>ishidden := b\<rparr>" for ps p b]
  same_place_ok [where x = "(ps ! p)\<lparr>disp_callback := f\<rparr>" for ps p f]

lemma init_param_ok:
  assumes "tree_ok (params c)" "init_param p ty n cb ucb lt i h c = Inr c'"
  shows "tree_ok (params c')"
proof -
  obtain x u where p: "p < length (params c)" and u: "init_cmd_type ty n ucb lt i = Inr u"
    and c': "c' = c\<lparr>params := (params c)[p := x]\<rparr>"
    and x: "param_type x = ty" "cmd_type x = u" "parent x = None" "options x = replicate MAX_OPTION_SIZE None"
    using assms(2)
    by (auto simp: init_param_def param_at_def set_param_def elim!: rbindE split: if_splits)
  have "u \<noteq> NullPtr" "kind_ok x"
    using u unfolding kind_ok_def x(1,2)
    by (auto simp: init_cmd_type_def split: param_type.splits option.splits)
  then have "tree_ok ((params c)[p := x])"
    using assms(1) p x by (intro replace_ok) auto
  then show ?thesis by (simp add: c')
qed

lemma free_slot_bounds: "free_slot i os = Some j \<Longrightarrow> i \<le> j \<and> j < i + length os"
proof (induction os arbitrary: i)
  case (Cons q os)
  then show ?case
  proof (cases q)
    case (Some r)
    then have "free_slot (Suc i) os = Some j" using Cons.prems by simp
    then show ?thesis using Cons.IH [of "Suc i"] by simp
  qed simp
qed simp

lemma fill_default_facts:
  "length (fill_default i d os) = length os"
  "Some q \<in> set (fill_default i d os) \<Longrightarrow> q = d \<or> Some q \<in> set os"
  using set_update_subset_insert [of os i "Some d"] by (auto simp: fill_default_def split: if_splits)

lemma libcli_register_ok:
  assumes t: "tree_ok (params c)" and c': "libcli_register_param par p c = Inr c'"
    and sensible: "sensible c (Register par p)"
  shows "tree_ok (params c')"
proof -
  define q where "q = (case par of None \<Rightarrow> root | Some q \<Rightarrow> q)"
  have p: "declared (params c) p" "p \<noteq> root" and up: "(q, p) \<notin> (ups (params c))\<^sup>*"
    using sensible by (simp_all add: sensible_def hung_below_def q_def)
  let ?ps = "params c"
  let ?os = "fill_default CMD_EXPANSION_INDEX cmd_expansion_param
      (fill_default SUBOPTIONS_INDEX suboptions_param
        (fill_default MODE_PARAM_INDEX mode_param (options (?ps ! q))))"
  have pq: "p < length ?ps" "q < length ?ps" "p \<noteq> q"
    using c' p(1) up by (auto simp: libcli_register_param_def q_def param_at_def declared_def elim!: rbindE
        split: if_splits)
  obtain i where c'': "c' = c\<lparr>params := (?ps[q := (?ps ! q)\<lparr>options := ?os[i := Some p]\<rparr>])
      [p := (?ps[q := (?ps ! q)\<lparr>options := ?os[i := Some p]\<rparr>] ! p)\<lparr>parent := Some q\<rparr>]\<rparr>"
    using c' pq by (auto simp: libcli_register_param_def q_def [symmetric] Let_def split: option.splits)
  define ps1 where "ps1 = ?ps[q := (?ps ! q)\<lparr>options := ?os[i := Some p]\<rparr>]"
  note nq = tree_okD(1) [OF t pq(2)]
  have "declared ?ps r" if "Some r \<in> set (?os[i := Some p])" for r
  proof -
    have "r = p \<or> Some r \<in> set ?os" using that set_update_subset_insert [of ?os i "Some p"] by blast
    then show ?thesis
      using p(1) nq tree_okD(3-5) [OF t] unfolding node_ok_def by (blast dest: fill_default_facts(2))
  qed
  then have 1: "tree_ok ps1"
    unfolding ps1_def using nq pq tree_okD(7) [OF t]
    by (intro replace_ok [OF t]) (auto simp: node_ok_def fill_default_facts(1))
  have e: "ups ps1 = ups ?ps"
    using pq(2) by (auto simp: ups_def ps1_def nth_list_update split: if_splits)
  have p1: "p < length ps1" "q < length ps1" "ps1 ! p = ?ps ! p" using pq by (simp_all add: ps1_def)
  have "tree_ok (ps1[p := (ps1 ! p)\<lparr>parent := Some q\<rparr>])"
    using tree_okD(1) [OF 1 p1(1)] pq up p(2) e p1
    by (intro replace_ok [OF 1]) (auto simp: node_ok_def q_def)
  then show ?thesis by (simp add: c'' ps1_def)
qed

lemma find_matching_param_tree: "find_matching_param c os s = Inr (c', q) \<Longrightarrow> params c' = params c"
  by (auto simp: find_matching_param_def choose_param_def Let_def emit_def case_prod_unfold
      elim!: rbindE split: if_splits)

lemma negate_cases:
  assumes "support_cmd_negation p c = Inr c'"
  shows "p < length (params c) \<and> (params c' = params c \<or>
    (\<exists>i c1 c3 c4. params c1 = params c \<and>
      free_slot CHILDREN_START_INDEX (drop CHILDREN_START_INDEX (options (params c ! p))) = Some i \<and>
      init_param (length (params c)) NO_CMD (Some ''no'') (Some Negate) None INVALID None ''Command Negation''
        (c1\<lparr>params := params c @ [zero_param]\<rparr>) = Inr c3 \<and>
      upd_param c3 (length (params c)) (\<lambda>y. y\<lparr>options :=
         [Some suboptions_param, Some suboptions_param, Some cmd_expansion_param] @
         take (i - CHILDREN_START_INDEX) (drop CHILDREN_START_INDEX (options (params c ! p))) @
         replicate (MAX_OPTION_SIZE - i) None, parent := Some p\<rparr>) = Inr c4 \<and>
      upd_param c4 p (\<lambda>y. y\<lparr>options := (options y)[i := Some (length (params c))]\<rparr>) = Inr c'))"
  using assms unfolding support_cmd_negation_def
  apply (elim rbindE)
  apply (simp only: Let_def split: if_splits)
  apply simp
  apply (elim rbindE)
  apply (clarsimp simp: param_at_def split: if_splits)
  apply (frule find_matching_param_tree)
  apply (elim rbindE)
  apply (clarsimp simp: emit_def split: if_splits)
   apply (elim rbindE, force)
  apply (elim rbindE)
  apply (cases "free_slot CHILDREN_START_INDEX (drop CHILDREN_START_INDEX (options (params c ! p)))")
   apply simp
  apply (simp only: option.case)
  apply (elim rbindE)
  apply simp
  done

lemma negate_ok:
  assumes t: "tree_ok (params c)" and n: "support_cmd_negation p c = Inr c'"
  shows "tree_ok (params c')"
proof -
  let ?os = "options (params c ! p)"
  let ?n = "length (params c)"
  have p: "p < ?n" using negate_cases [OF n] by blast
  show ?thesis
  proof (cases "params c' = params c")
    case True
    then show ?thesis using t by simp
  next
    case False
    then obtain i c1 c3 c4 where i: "free_slot CHILDREN_START_INDEX (drop CHILDREN_START_INDEX ?os) = Some i"
      and c3: "init_param ?n NO_CMD (Some ''no'') (Some Negate) None INVALID None ''Command Negation''
        (c1\<lparr>params := params c @ [zero_param]\<rparr>) = Inr c3"
      and c4: "upd_param c3 ?n (\<lambda>y. y\<lparr>options :=
         [Some suboptions_param, Some suboptions_param, Some cmd_expansion_param] @
         take (i - CHILDREN_START_INDEX) (drop CHILDREN_START_INDEX ?os) @
         replicate (MAX_OPTION_SIZE - i) None, parent := Some p\<rparr>) = Inr c4"
      and c5: "upd_param c4 p (\<lambda>y. y\<lparr>options := (options y)[i := Some ?n]\<rparr>) = Inr c'"
      using negate_cases [OF n] by blast
    note np = tree_okD(1) [OF t p]
    obtain x where x: "params c3 = params c @ [x]" "cmd_type x = CmdPtr ''no''" "param_type x = NO_CMD"
      using c3 by (auto simp: init_param_def init_cmd_type_def param_at_def set_param_def list_update_append
          elim!: rbindE split: if_splits)
    let ?kids = "[Some suboptions_param, Some suboptions_param, Some cmd_expansion_param] @
         take (i - CHILDREN_START_INDEX) (drop CHILDREN_START_INDEX ?os) @
         replicate (MAX_OPTION_SIZE - i) None"
    define y where "y = x\<lparr>options := ?kids, parent := Some p\<rparr>"
    have p4: "params c4 = params c @ [y]"
      using c4 x(1) by (auto simp: upd_param_def param_at_def set_param_def list_update_append y_def nth_append
          elim!: rbindE split: if_splits)
    have len: "length ?os = MAX_OPTION_SIZE" using np by (simp add: node_ok_def)
    have ib: "3 \<le> i" "i < MAX_OPTION_SIZE" using free_slot_bounds [OF i] len by auto
    have y: "kind_ok y" "parent y = Some p" "length (options y) = MAX_OPTION_SIZE"
      using x ib len by (simp_all add: y_def kind_ok_def)
    have "declared (params c) q" if "Some q \<in> set (options y)" for q
    proof -
      have "q = suboptions_param \<or> q = cmd_expansion_param \<or> Some q \<in> set ?os"
        using that by (auto simp: y_def dest: in_set_takeD in_set_dropD)
      then show ?thesis using np tree_okD(4,5) [OF t] by (auto simp: node_ok_def)
    qed
    then have t4: "tree_ok (params c4)"
      unfolding p4 using append_ok [OF t y(1,3)] y(2) p by auto
    let ?z = "(params c4 ! p)\<lparr>options := (options (params c4 ! p))[i := Some ?n]\<rparr>"
    have c'': "params c' = (params c4)[p := ?z]"
      using c5 p p4 by (auto simp: upd_param_def param_at_def set_param_def elim!: rbindE split: if_splits)
    have n4: "node_ok (params c4) (params c4 ! p)" using tree_okD(1) [OF t4] p p4 by simp
    have "declared (params c4) q" if "Some q \<in> set (options ?z)" for q
    proof -
      have "q = ?n \<or> Some q \<in> set (options (params c4 ! p))"
        using that set_update_subset_insert [of "options (params c4 ! p)" i "Some ?n"] by auto
      moreover have "declared (params c4) ?n" using x(2) by (simp add: declared_def p4 y_def)
      ultimately show ?thesis using n4 by (auto simp: node_ok_def)
    qed
    then show ?thesis
      unfolding c'' using n4 p p4 tree_okD(7) [OF t4]
      by (intro replace_ok [OF t4]) (auto simp: node_ok_def)
  qed
qed

text \<open>Every operation keeps the tree well-formed, if its registration makes sense.\<close>

lemma tree_op_ok: "tree_op c call c' \<Longrightarrow> sensible c call \<Longrightarrow> tree_ok (params c) \<Longrightarrow> tree_ok (params c')"
proof (induction rule: tree_op.induct)
  case (line fuel s c c' st r)
  then have "shape c' = shape c"
    using shape_kept.keepsD [OF line.hyps shape_kept.parse_input_cmd_keeps] by blast
  then show ?case using tree_ok_shape line.prems(2) by blast
qed (auto intro: init_param_ok libcli_register_ok negate_ok intro!: same_place_rules
    simp: tree_ok_kind set_param_cmd_code_def HIDE_PARAM_def upd_param_def libcli_register_display_callback_def
      param_at_def set_param_def elim!: rbindE split: if_splits)

lemma sensible_ops_ok: "sensible_op\<^sup>*\<^sup>* c c' \<Longrightarrow> tree_ok (params c) \<Longrightarrow> tree_ok (params c')"
  by (induction rule: rtranclp_induct) (auto simp: sensible_op_def intro: tree_op_ok)

section \<open>Walks\<close>

lemma ups_wf: "tree_ok ps \<Longrightarrow> wf ((ups ps)\<inverse>)"
proof -
  assume t: "tree_ok ps"
  have "ups ps \<subseteq> {..<length ps} \<times> {..<length ps}"
    using tree_okD(1) [OF t] by (auto simp: ups_def node_ok_def)
  then have "finite (ups ps)" by (rule finite_subset) simp
  then show "wf ((ups ps)\<inverse>)" using tree_okD(2) [OF t] by (rule finite_acyclic_wf_converse)
qed

text \<open>Whatever parameter a walk starts at, it ends.\<close>

lemma branch_loop_ends:
  assumes "tree_ok (params c)"
  shows "branch_loop c p \<noteq> None"
proof (induction p rule: wf_induct_rule [OF ups_wf [OF assms]])
  case (1 p)
  show ?case
  proof (cases "p < length (params c) \<and> (\<exists>q. parent (params c ! p) = Some q)")
    case True
    then obtain q where q: "parent (params c ! p) = Some q" by blast
    then have "branch_loop c q \<noteq> None" using 1 True by (simp add: ups_def)
    then show ?thesis using True q by (subst branch_loop.simps) simp
  next
    case False
    then show ?thesis
      by (subst branch_loop.simps) (auto simp: param_at_def split: option.splits)
  qed
qed

lemma up_branch:
  assumes "(p, root) \<in> (ups (params c))\<^sup>+"
  shows "\<exists>ps. branch c p ps"
  using assms
proof (induction rule: converse_trancl_induct)
  case (base p)
  then show ?case using branch.top by (auto simp: ups_def)
next
  case (step p q)
  then show ?case
    using branch.top [of p c] branch.below [of p c q] by (cases "q = root") (auto simp: ups_def)
qed

text \<open>A branch passes no parameter twice.\<close>

lemma branch_distinct:
  assumes "tree_ok (params c)" "branch c p ps"
  shows "distinct ps" "root \<notin> set ps"
proof -
  have up: "\<forall>q\<in>set ps. (p, q) \<in> (ups (params c))\<^sup>*" if "branch c p ps" for p ps
    using that
  proof (induction rule: branch.induct)
    case (below p q ps)
    then have "(p, q) \<in> ups (params c)" by (simp add: ups_def)
    then show ?case using below.IH by (auto intro: converse_rtrancl_into_rtrancl)
  qed simp
  show "distinct ps" using assms(2)
  proof (induction rule: branch.induct)
    case (below p q ps)
    have "p \<notin> set ps"
    proof
      assume "p \<in> set ps"
      then have "(q, p) \<in> (ups (params c))\<^sup>*" using up [OF below(4)] by blast
      moreover have "(p, q) \<in> ups (params c)" using below by (simp add: ups_def)
      ultimately have "(p, p) \<in> (ups (params c))\<^sup>+" by (rule rtrancl_into_trancl2 [rotated])
      then show False using tree_okD(2) [OF assms(1)] by (simp add: acyclic_def)
    qed
    then show ?case using below by simp
  qed simp
  show "root \<notin> set ps" using assms(2)
    by (induction rule: branch.induct) (use tree_okD(7) [OF assms(1)] in \<open>auto intro!: gr0I\<close>)
qed

section \<open>A registration below itself\<close>

text \<open>A walk that stays among parameters none of which hangs below the root never ends.\<close>

lemma endless_walk:
  assumes closed: "\<forall>p\<in>S. p < length (params c) \<and> (\<exists>q\<in>S. parent (params c ! p) = Some q)"
    and "root \<notin> S" "p \<in> S"
  shows "branch_loop c p = None"
proof -
  have False if "branch_loop c p = Some r" for r
  proof (rule branch_loop.raw_induct [where P = "\<lambda>c' p r. c' = c \<longrightarrow> p \<notin> S", THEN mp, THEN notE, OF _ that refl assms(3)])
    fix f c' p r
    assume IH: "\<And>c' p r. f c' p = Some r \<Longrightarrow> c' = c \<longrightarrow> p \<notin> S"
      and eq: "(case param_at c' p of Inl e \<Rightarrow> Some (Inl e)
        | Inr x \<Rightarrow> (case parent x of None \<Rightarrow> Some (Inl NullDeref)
            | Some q \<Rightarrow> if q = root then Some (Inr p) else f c' q)) = Some r"
    show "c' = c \<longrightarrow> p \<notin> S"
    proof (intro impI notI)
      assume c: "c' = c" and p: "p \<in> S"
      from closed p obtain q where q: "p < length (params c)" "q \<in> S" "parent (params c ! p) = Some q" by blast
      then have "q \<noteq> root" using assms(2) by metis
      then have "f c q = Some r" using eq c q by simp
      then show False using IH q(2) by blast
    qed
  qed
  then show ?thesis by (cases "branch_loop c p") auto
qed

lemma register_parents:
  assumes "libcli_register_param par p c = Inr c'"
  shows "p < length (params c) \<and> length (params c') = length (params c) \<and>
    (\<forall>r < length (params c). parent (params c' ! r) =
       (if r = p then Some (hung_below par) else parent (params c ! r)))"
  using assms
  by (auto simp: libcli_register_param_def Let_def hung_below_def param_at_def set_param_def upd_param_def
      nth_list_update elim!: rbindE split: if_splits option.splits)

text \<open>
  A parameter that is registered below itself or one of its descendants is on a cycle that does not
  pass the root.
\<close>

lemma registered_below_itself:
  assumes t: "tree_ok (params c)" and reg: "libcli_register_param par p c = Inr c'"
    and below: "(hung_below par, p) \<in> (ups (params c))\<^sup>*" and "p \<noteq> root"
  shows "branch_loop c' p = None"
proof -
  define S where "S = {r. (hung_below par, r) \<in> (ups (params c))\<^sup>* \<and> (r, p) \<in> (ups (params c))\<^sup>*}"
  note par = register_parents [OF reg]
  have p: "p \<in> S" using below by (simp add: S_def)
  have root: "root \<notin> S"
  proof
    assume "root \<in> S"
    then have "(root, p) \<in> (ups (params c))\<^sup>*" by (simp add: S_def)
    then show False
    proof (cases rule: converse_rtranclE)
      case base
      then show ?thesis using assms(4) by simp
    next
      case (step y)
      then show ?thesis using tree_okD(7) [OF t] by (simp add: ups_def)
    qed
  qed
  have "r < length (params c') \<and> (\<exists>q\<in>S. parent (params c' ! r) = Some q)" if r: "r \<in> S" for r
  proof (cases "r = p")
    case True
    have "hung_below par \<in> S" using below by (simp add: S_def)
    then show ?thesis using True par by auto
  next
    case False
    from r have "(r, p) \<in> (ups (params c))\<^sup>*" by (simp add: S_def)
    then obtain y where y: "(r, y) \<in> ups (params c)" "(y, p) \<in> (ups (params c))\<^sup>*"
      using False by (cases rule: converse_rtranclE) auto
    moreover have "(hung_below par, y) \<in> (ups (params c))\<^sup>*" using r y(1) by (auto simp: S_def intro: rtrancl_into_rtrancl)
    ultimately have "y \<in> S" by (simp add: S_def)
    then show ?thesis using y(1) False par by (auto simp: ups_def)
  qed
  then show ?thesis using endless_walk [OF _ root p] by blast
qed

end
