(* ===== verification/ShellFacts.thy ===== *)
theory ShellFacts
  imports ShellTree TreeWf ParserFacts
begin

text \<open>
  The shell with the server commands: the state at its prompt, how a line of plain words is cut
  into words, and where these words lead in the tree.
\<close>

section \<open>Lines of plain words\<close>

definition plain_word :: "string \<Rightarrow> bool" where
  "plain_word w \<longleftrightarrow>
     w \<noteq> [] \<and> length w < LEAF_VALUE_HOLDER_SIZE \<and> (\<forall>x\<in>set w. \<not> isspace x \<and> x \<noteq> NUL) \<and>
     hd w \<noteq> CHR ''/'' \<and> hd w \<noteq> CHR ''?'' \<and> hd w \<noteq> CHR ''.''"

fun spaced :: "string list \<Rightarrow> string" where
  "spaced [] = []"
| "spaced [w] = w"
| "spaced (w # v # ws) = w @ CHR '' '' # spaced (v # ws)"

lemma plain_no_blank: "plain_word w \<Longrightarrow> w \<noteq> [] \<and> CHR '' '' \<notin> set w"
  by (auto simp: plain_word_def isspace_def)

lemma strtok_all_spaced: "\<forall>w\<in>set ws. plain_word w \<Longrightarrow> strtok_all CHR '' '' (spaced ws) = ws"
proof (induction ws rule: spaced.induct)
  case 1
  show ?case by (subst strtok_all.simps) (simp add: strtok_def)
next
  case (2 w)
  then have "strtok CHR '' '' w = Some (w, [])" using strtok_word(2) plain_no_blank by simp
  moreover have "strtok_all CHR '' '' [] = []" by (subst strtok_all.simps) (simp add: strtok_def)
  ultimately show ?case by (subst strtok_all.simps) simp
next
  case (3 w v ws)
  then have "strtok CHR '' '' (w @ CHR '' '' # spaced (v # ws)) = Some (w, spaced (v # ws))"
    using strtok_word(1) plain_no_blank by simp
  then show ?case using 3 by (subst strtok_all.simps) simp
qed

lemma spaced_ends:
  "\<forall>w\<in>set ws. plain_word w \<Longrightarrow> ws \<noteq> [] \<Longrightarrow>
   spaced ws \<noteq> [] \<and> hd (spaced ws) = hd (hd ws) \<and> last (spaced ws) = last (last ws)"
  by (induction ws rule: spaced.induct) (auto simp: plain_word_def)

lemma words_of_spaced:
  assumes "\<forall>w\<in>set ws. plain_word w" "ws \<noteq> []"
  shows "words_of (spaced ws) = ws"
proof -
  have "plain_word (hd ws)" "plain_word (last ws)" using assms by simp_all
  then have "\<not> isspace (hd (hd ws))" "\<not> isspace (last (last ws))" by (simp_all add: plain_word_def)
  then have "trimmed (spaced ws) = spaced ws"
    using spaced_ends [OF assms] by (intro trimmed_id) auto
  then show ?thesis using strtok_all_spaced [OF assms(1)] by (simp add: words_of_def)
qed

lemma length_spaced: "\<forall>w\<in>set ws. plain_word w \<Longrightarrow> length (spaced ws) \<le> 64 * length ws"
  by (induction ws rule: spaced.induct) (auto simp: plain_word_def)

lemma spaced_fits:
  assumes "\<forall>w\<in>set ws. plain_word w" "ws \<noteq> []" "length ws \<le> MAX_CMD_TREE_DEPTH"
  shows "fits_tokens (spaced ws)"
  using assms words_of_spaced [OF assms(1,2)] length_spaced [OF assms(1)]
  by (auto simp: fits_tokens_def plain_word_def)

section \<open>The prompt\<close>

definition prompt_with :: "param list \<Rightarrow> cli \<Rightarrow> bool" where
  "prompt_with T c \<longleftrightarrow>
     sketch c = T \<and> cursor c = Some root \<and> ready c \<and> tlvs (tlv_buff c) = [] \<and>
     length (token_arr c) = MAX_CMD_TREE_DEPTH"

definition at_prompt :: "cli \<Rightarrow> bool" where
  "at_prompt c \<longleftrightarrow> prompt_with shell_tree c"

lemma shell_start_prompt:
  assumes "map sketch_of qs = T"
  shows "prompt_with T (shell_start ((booted n inp fs be)\<lparr>params := qs\<rparr>))"
proof -
  let ?c = "shell_start ((booted n inp fs be)\<lparr>params := qs\<rparr>)"
  have s: "sketch ?c = T"
    using assms by (simp add: shell_start_def place_console_def emit_def)
  have b: "tlv_buff ?c = reset_serialize_buffer (init_serialized_buffer_of_defined_size TLV_MAX_BUFFER_SIZE)"
    by (simp add: shell_start_def place_console_def emit_def booted_def)
  have "tlv_wf (init_serialized_buffer_of_defined_size TLV_MAX_BUFFER_SIZE)"
    using init_tlvs [of 1024] by (simp add: init_serialized_buffer_of_defined_size_def)
  then have "tlv_wf (tlv_buff ?c)" "tlvs (tlv_buff ?c) = []"
    using reset_tlvs unfolding b by blast+
  then show ?thesis
    using s by (simp add: prompt_with_def ready_def coded_def MAX_UNITS_def shell_start_def place_console_def
        emit_def booted_def init_token_array_def)
qed

lemma tcp_main_prompt:
  "\<exists>c. tcp_main inp fs be = Inr c \<and> at_prompt c \<and> calls c = [] \<and> backend c = be \<and>
     stdin_text c = inp \<and> files c = fs \<and> hist c = None"
proof -
  obtain qs where qs: "tcp_main inp fs be = Inr (shell_start ((booted 22 inp fs be)\<lparr>params := qs\<rparr>))"
    "map sketch_of qs = shell_tree"
    using tcp_main_tree by blast
  then show ?thesis
    using shell_start_prompt [OF qs(2)]
    by (intro exI [of _ "shell_start ((booted 22 inp fs be)\<lparr>params := qs\<rparr>)"])
       (simp add: at_prompt_def shell_start_def place_console_def emit_def booted_def before_main_def)
qed

text \<open>A program whose registrations build a tree comes to its prompt with this tree.\<close>

lemma program_prompt:
  assumes "builds (run_steps steps) g" "g (init_tree @ replicate n blank) = Some T"
  shows "\<exists>c. program n steps inp fs be = Inr c \<and> prompt_with T c"
proof -
  obtain qs where qs: "program n steps inp fs be = Inr (shell_start ((booted n inp fs be)\<lparr>params := qs\<rparr>))"
    "map sketch_of qs = T"
    using program_tree assms by blast
  then show ?thesis using shell_start_prompt [OF qs(2)] by blast
qed

section \<open>Where words lead\<close>

text \<open>The walk of a line looks at the sketch only.\<close>

definition at_sketch :: "cli \<Rightarrow> cli" where
  "at_sketch c = c\<lparr>params := sketch c\<rparr>"

lemma param_at_sketch: "param_at (at_sketch c) q = rbind (param_at c q) (\<lambda>x. Inr (sketch_of x))"
  by (simp add: param_at_def at_sketch_def)

lemma find_loop_sketch: "find_loop (at_sketch c) str os lf possible = find_loop c str os lf possible"
proof (induction os arbitrary: lf possible)
  case (Cons q os)
  then show ?case
    by (cases q) (simp_all add: param_at_sketch rbind_assoc is_cmd_string_match_def rbind_def split: sum.splits)
qed simp

lemma the_child_sketch: "the_child (at_sketch c) p t = the_child c p t"
  by (simp add: the_child_def find_loop_sketch) (simp add: at_sketch_def)

lemma leaf_step_sketch: "leaf_step (sketch_of x) t r = leaf_step x t r"
  by (cases "cmd_type x") (simp_all add: leaf_step_def sketch_of_def erase_def)

lemma resolve_sketch: "resolve (at_sketch c) p m ts = resolve c p m ts"
proof (induction ts arbitrary: p m)
  case (Cons t ts)
  have "params (at_sketch c) = sketch c" by (simp add: at_sketch_def)
  then show ?case
    using Cons by (simp add: the_child_sketch leaf_step_sketch split: option.split param_type.split)
qed simp

lemma branch_sketch: "branch (at_sketch c) p ps \<Longrightarrow> branch c p ps"
proof (induction rule: branch.induct)
  case (top p)
  then show ?case by (intro branch.top) (auto simp: at_sketch_def)
next
  case (below p q ps)
  then show ?case by (intro branch.below) (auto simp: at_sketch_def)
qed

text \<open>The way up from a parameter, if it is short enough.\<close>

fun way_up :: "nat \<Rightarrow> param list \<Rightarrow> pref \<Rightarrow> pref list option" where
  "way_up 0 T p = None"
| "way_up (Suc n) T p =
     (if p < length T
      then (case parent (T ! p) of
              None \<Rightarrow> None
            | Some q \<Rightarrow> if q = root then Some [p]
                        else (case way_up n T q of None \<Rightarrow> None | Some ps \<Rightarrow> Some (ps @ [p])))
      else None)"

lemma way_up_branch: "way_up n (sketch c) p = Some ps \<Longrightarrow> branch c p ps"
proof (induction n arbitrary: p ps)
  case (Suc n)
  then have p: "p < length (params c)" by (simp split: if_splits)
  then obtain q where q: "parent (params c ! p) = Some q"
    "(if q = root then Some [p]
      else (case way_up n (sketch c) q of None \<Rightarrow> None | Some ps \<Rightarrow> Some (ps @ [p]))) = Some ps"
    using Suc.prems by (auto split: option.splits)
  then show ?case
    using Suc.IH [of q] p branch.top branch.below by (auto split: if_splits option.splits)
qed simp

text \<open>The words of the server commands.\<close>

definition in_shell :: "cli \<Rightarrow> cli" where
  "in_shell c = c\<lparr>params := shell_tree\<rparr>"

lemma in_shell_eq: "sketch c = shell_tree \<Longrightarrow> at_sketch c = in_shell c"
  by (simp add: at_sketch_def in_shell_def)

lemma length_shell_tree [simp]: "length shell_tree = 59"
  by (simp add: shell_tree_def)

lemma shell_nodes:
  "shell_tree ! 0 = cmd_node ''ROOT'' None [2, 3, 5, 6, 7, 8, 32, 33, 34] None (-1)"
  "shell_tree ! 2 = cmd_node ''show'' None [13, 14, 16, 55] (Some 0) (-1)"
  "shell_tree ! 3 = cmd_node ''debug'' None [18, 4] (Some 0) (-1)"
  "shell_tree ! 5 = cmd_node ''config'' (Some ConfigModeEnter)
     [21, 23, 29, 35, 58] (Some 0) (-1)"
  "shell_tree ! 6 = cmd_node ''clear'' None [] (Some 0) (-1)"
  "shell_tree ! 7 = cmd_node ''run'' None [25, 26, 49] (Some 0) (-1)"
  "shell_tree ! 10 = cmd_node ''/'' (Some ModeEnter) [] None (-1)"
  "shell_tree ! 11 = cmd_node ''?'' (Some DisplaySubOptions) [] None (-1)"
  "shell_tree ! 12 = cmd_node ''.'' (Some DisplayCmdExpansion) [] None (-1)"
  "shell_tree ! 21 = cmd_node ''load'' None [22] (Some 5) (-1)"
  "shell_tree ! 23 = cmd_node ''supportsave'' None [24] (Some 5) (-1)"
  "shell_tree ! 25 = cmd_node ''term'' (Some CliTerminate) [] (Some 7) (-1)"
  "shell_tree ! 26 = cmd_node ''ut'' None [27] (Some 7) (-1)"
  "shell_tree ! 29 = cmd_node ''console'' None [30] (Some 5) (-1)"
  "shell_tree ! 35 = cmd_node ''tcp-server'' None [36] (Some 5) (-1)"
  "shell_tree ! 36 = leaf_node ''tcp-server-name'' STRING None
     (Some (App 0)) [37, 38, 41, 42, 43, 44, 45, 47, 57] (Some 35) 1"
  "shell_tree ! 37 = cmd_node ''start'' (Some (App 0)) [] (Some 36) 16"
  "shell_tree ! 38 = cmd_node ''connect'' None [39] (Some 36) (-1)"
  "shell_tree ! 41 = cmd_node ''abort'' (Some (App 0)) [] (Some 36) 2"
  "shell_tree ! 42 = cmd_node ''multi-threaded-mode'' (Some (App 0)) [] (Some 36) 11"
  "shell_tree ! 47 = leaf_node ''tcp-server-addr'' IPV4 None (Some (App 0)) [48] (Some 36) (-1)"
  "shell_tree ! 49 = cmd_node ''tcp-server'' None [50] (Some 7) (-1)"
  "shell_tree ! 50 = leaf_node ''tcp-server-name'' STRING None None [51] (Some 49) (-1)"
  "shell_tree ! 51 = cmd_node ''send-msg'' None [52] (Some 50) (-1)"
  "shell_tree ! 52 = leaf_node ''remote-addr'' IPV4 None None [53] (Some 51) (-1)"
  "shell_tree ! 53 = leaf_node ''remote-port'' INT_LEAF None None [54] (Some 52) (-1)"
  "shell_tree ! 54 = leaf_node ''msg'' STRING None (Some (App 1)) [] (Some 53) 1"
  "shell_tree ! 58 = negation [21, 23, 29, 35] 5"
  by (simp_all add: shell_tree_def)

lemmas find_simps = the_child_def in_shell_def param_at_def shell_nodes cmd_node_def leaf_node_def
  negation_def plain_node_def children_def is_cmd_string_match_def GET_CMD_NAME_def IS_PARAM_LEAF_def
  strncmp_eq_def

lemma command_words:
  "the_child (in_shell c) root ''config'' = Some config"
  "the_child (in_shell c) root ''run'' = Some run"
  "the_child (in_shell c) config ''no'' = Some 58"
  "the_child (in_shell c) config ''tcp-server'' = Some 35"
  "the_child (in_shell c) 58 ''tcp-server'' = Some 35"
  "the_child (in_shell c) 36 ''multi-threaded-mode'' = Some 42"
  "the_child (in_shell c) run ''tcp-server'' = Some 49"
  "the_child (in_shell c) 50 ''send-msg'' = Some 51"
  by (simp_all add: find_simps)

lemma builtin_no_match:
  assumes "plain_word w"
  shows "take (length w) ''/'' \<noteq> w" "take (length w) ''?'' \<noteq> w" "take (length w) ''.'' \<noteq> w"
  using assms by (cases w; auto simp: plain_word_def)+

lemma find_loop_end: "0 < n \<Longrightarrow> find_loop c s (replicate n None) lf ps = Inr (lf, ps)"
  by (cases n) simp_all

lemma leaf_words:
  assumes "plain_word w"
  shows "the_child (in_shell c) 35 w = Some 36" "the_child (in_shell c) 49 w = Some 50"
    "the_child (in_shell c) 51 w = Some 52" "the_child (in_shell c) 52 w = Some 53"
    "the_child (in_shell c) 53 w = Some 54"
  using builtin_no_match [OF assms] by (simp_all add: find_simps find_loop_end)

text \<open>The unit of a leaf of the shell.\<close>

definition shell_unit :: "string \<Rightarrow> leaf_type \<Rightarrow> string \<Rightarrow> tlv_struct" where
  "shell_unit i lt w = value_tlv (leaf_data i lt None) w"

lemma plain_valid:
  assumes "plain_word w" "lt \<in> {STRING, IPV4, INT_LEAF}"
  shows "valid_value (leaf_data i lt None) w"
proof -
  have "length w < LEAF_VALUE_HOLDER_SIZE" using assms(1) unfolding plain_word_def by blast
  moreover have "leaf_handler lt w = Inr VALIDATION_SUCCESS"
    using assms(2) by (auto simp: string_validation_handler_def ipv4_validation_handler_def
        int_validation_handler_def)
  ultimately show ?thesis by (simp add: valid_value_def leaf_data_def)
qed

lemma leaf_step_node:
  assumes "plain_word w" "lt \<in> {STRING, IPV4, INT_LEAF}"
  shows "leaf_step (leaf_node i lt None cb ks par code) w r =
    map_option (\<lambda>(q, m, us). (q, m, shell_unit i lt w # us)) r"
  using plain_valid [OF assms] by (simp add: leaf_step_def leaf_node_def plain_node_def shell_unit_def)

lemma node_types [simp]:
  "param_type (cmd_node n cb ks par code) = CMD" "param_type (leaf_node i lt u cb ks par code) = LEAF"
  "param_type (negation ks p) = NO_CMD"
  "callback (cmd_node n cb ks par code) = cb" "callback (leaf_node i lt u cb ks par code) = cb"
  "CMDCODE (cmd_node n cb ks par code) = code" "CMDCODE (leaf_node i lt u cb ks par code) = code"
  by (simp_all add: cmd_node_def leaf_node_def negation_def plain_node_def)

lemma params_in_shell [simp]: "params (in_shell c) = shell_tree"
  by (simp add: in_shell_def)

lemmas walk_simps = command_words leaf_words shell_nodes leaf_step_node

lemma server_words:
  assumes "plain_word n"
  shows "resolve (in_shell c) root MODE_UNKNOWN [''config'', ''tcp-server'', n] =
      Some (36, MODE_UNKNOWN, [shell_unit ''tcp-server-name'' STRING n])"
    "resolve (in_shell c) root MODE_UNKNOWN [''config'', ''tcp-server'', n, ''multi-threaded-mode''] =
      Some (42, MODE_UNKNOWN, [shell_unit ''tcp-server-name'' STRING n])"
    "resolve (in_shell c) root MODE_UNKNOWN [''config'', ''no'', ''tcp-server'', n, ''multi-threaded-mode''] =
      Some (42, CONFIG_DISABLE, [shell_unit ''tcp-server-name'' STRING n])"
  using assms by (simp_all add: walk_simps)

lemma send_words:
  assumes "plain_word n" "plain_word ip" "plain_word port" "plain_word txt"
  shows "resolve (in_shell c) root MODE_UNKNOWN [''run'', ''tcp-server'', n, ''send-msg'', ip, port, txt] =
    Some (54, MODE_UNKNOWN, [shell_unit ''tcp-server-name'' STRING n, shell_unit ''remote-addr'' IPV4 ip,
      shell_unit ''remote-port'' INT_LEAF port, shell_unit ''msg'' STRING txt])"
  using assms by (simp add: walk_simps)

lemma server_branches:
  "sketch c = shell_tree \<Longrightarrow> branch c 36 [config, 35, 36]"
  "sketch c = shell_tree \<Longrightarrow> branch c 42 [config, 35, 36, 42]"
  "sketch c = shell_tree \<Longrightarrow> branch c 54 [run, 49, 50, 51, 52, 53, 54]"
proof -
  have w: "way_up 8 shell_tree 36 = Some [config, 35, 36]" "way_up 8 shell_tree 42 = Some [config, 35, 36, 42]"
    "way_up 8 shell_tree 54 = Some [run, 49, 50, 51, 52, 53, 54]"
    by code_simp+
  show "sketch c = shell_tree \<Longrightarrow> branch c 36 [config, 35, 36]"
    "sketch c = shell_tree \<Longrightarrow> branch c 42 [config, 35, 36, 42]"
    "sketch c = shell_tree \<Longrightarrow> branch c 54 [run, 49, 50, 51, 52, 53, 54]"
    using way_up_branch [of 8 c] w by simp_all
qed

section \<open>A line at the prompt\<close>

text \<open>
  A line of plain words that leads to a callback of the servers calls it once, with the units of
  the line and its command code, and comes back to the prompt.
\<close>

lemma prompt_line:
  assumes "at_prompt c" "\<forall>w\<in>set ws. plain_word w" "ws \<noteq> []" "length ws \<le> MAX_CMD_TREE_DEPTH"
    and "ordinary c ws" "resolve (in_shell c) root MODE_UNKNOWN ws = Some (q, m, us)"
    and "branch c q ps" "12 < q" "hd ps = config \<or> hd ps = run"
    and "q < 59" "callback (shell_tree ! q) = Some (App n)" "is_int (CMDCODE (shell_tree ! q))"
    and "\<forall>b md. backend c n b md = []"
  obtains c' b where "parse_input_cmd (Suc k) (spaced ws) c = Inr (c', COMPLETE, False)"
    "calls c' = calls c @ [(n, q, b, command_mode (hd ps) m)]"
    "tlv_wf b" "tlvs b = us @ [code_unit (CMDCODE (shell_tree ! q))]" "at_prompt c'"
    "backend c' = backend c"
proof -
  note p = assms(1) [unfolded at_prompt_def prompt_with_def]
  note w = words_of_spaced [OF assms(2,3)]
  have len: "length (params c) = 59"
    using p length_sketch [of c] by simp
  have "sketch_of (params c ! q) = shell_tree ! q"
    using p nth_sketch [of q c] assms(10) len by simp
  then have node: "callback (params c ! q) = Some (App n)" "CMDCODE (params c ! q) = CMDCODE (shell_tree ! q)"
    using assms(11) sketch_of_fields(2,7) by metis+
  have r: "resolve c root MODE_UNKNOWN (words_of (spaced ws)) = Some (q, m, us)"
    using assms(6) resolve_sketch [of c] in_shell_eq [of c] p w by simp
  have o: "ordinary c (words_of (spaced ws))" using assms(5) w by simp
  have ne: "words_of (spaced ws) \<noteq> []" using w assms(3) by simp
  have q: "q \<noteq> root" "\<not> special q" "q \<noteq> config" "hd ps \<noteq> repeat"
    using assms(8,9) by (auto simp: special_def)
  have "is_int (CMDCODE (params c ! q))" using assms(12) node(2) by simp
  note call = line_calls_app [OF spaced_fits [OF assms(2-4)] ne o _ _ _ r assms(7) q node(1) this assms(13), of k]
  show thesis
  proof (rule call)
    fix c' b
    assume c': "parse_input_cmd (Suc k) (spaced ws) c = Inr (c', COMPLETE, False)"
      "calls c' = calls c @ [(n, q, b, command_mode (hd ps) m)]"
      "tlv_wf b" "tlvs b = tlvs (tlv_buff c) @ us @ [code_unit (CMDCODE (params c ! q))]"
      "cursor c' = cursor c" "shape c' = shape c" "ready c'" "length (token_arr c') = MAX_CMD_TREE_DEPTH"
      "tlvs (tlv_buff c') = (if root = root then [] else tlvs_marked (tlv_buff c))"
      "backend c' = backend c"
    have "at_prompt c'"
      using c' p sketch_shape [OF c'(6)] by (simp add: at_prompt_def prompt_with_def)
    then show thesis using that [OF c'(1-3)] c' p node(2) by simp
  qed (use p in simp_all)
qed

end
