(* ===== verification/TcpRefs.thy ===== *)
theory TcpRefs
  imports TcpCtrl
begin

text \<open>
  Reference counting. A client is referred to by the lists of the servers (the table, the list
  of the client service, the two lists of active clients) and by its threads; its counter has
  to cover them all. \<open>bal d\<close> states this with a balance \<open>d\<close>: the references that the function
  under way holds of its own. Every operation is shown to restore the balance it started with.
\<close>

section \<open>The balance\<close>

definition client_in :: "world \<Rightarrow> cptr \<Rightarrow> tcp_client option" where
  "client_in w p = (if p < length (heap w) then heap w ! p else None)"

definition thr :: "tcp_client \<Rightarrow> nat" where
  "thr c = of_bool (client_thread c) + of_bool (active_connect_thread c)"

definition in_svc :: "server \<Rightarrow> cptr list" where
  "in_svc x = (case client_svc x of None \<Rightarrow> [] | Some v \<Rightarrow> svc_db v)"

definition in_db :: "server \<Rightarrow> cptr list" where
  "in_db x = (case client_db x of None \<Rightarrow> [] | Some db \<Rightarrow> db)"

definition holds_client :: "cptr \<Rightarrow> server option \<Rightarrow> nat" where
  "holds_client p o' =
     (case o' of
        None \<Rightarrow> 0
      | Some x \<Rightarrow> count_list (in_db x @ in_svc x @ connectpending x @ established x) p)"

definition listed :: "world \<Rightarrow> cptr \<Rightarrow> nat" where
  "listed w p = sum_list (map (holds_client p) (servers w))"

definition bal :: "(cptr \<Rightarrow> int) \<Rightarrow> world \<Rightarrow> bool" where
  "bal d w \<longleftrightarrow> thr (raw w) = 0 \<and>
     (\<forall>p. case client_in w p of
            None \<Rightarrow> listed w p = 0 \<and> d p \<le> 0
          | Some c \<Rightarrow> int (listed w p) + int (thr c) + d p \<le> ref_count c)"

abbreviation refs_ok :: "world \<Rightarrow> bool" where
  "refs_ok \<equiv> bal (\<lambda>_. 0)"

lemma bal_raw: "bal d w \<Longrightarrow> thr (raw w) = 0"
  by (simp add: bal_def)

lemma bal_alive: "bal d w \<Longrightarrow> client_in w p = Some c \<Longrightarrow>
    int (listed w p) + int (thr c) + d p \<le> ref_count c"
  by (auto simp: bal_def dest!: spec [of _ p])

lemma bal_dead: "bal d w \<Longrightarrow> client_in w p = None \<Longrightarrow> listed w p = 0 \<and> d p \<le> 0"
  by (auto simp: bal_def dest!: spec [of _ p])

lemma bal_mono: "bal d w \<Longrightarrow> (\<And>p. d' p \<le> d p) \<Longrightarrow> bal d' w"
  unfolding bal_def by (fastforce split: option.splits intro: order_trans)

section \<open>Reading\<close>

lemma client_at_eq: "client_at w p = (case client_in w p of None \<Rightarrow> Inl UseAfterFree | Some c \<Rightarrow> Inr c)"
  by (simp add: client_at_def client_in_def)

lemma client_at_Inr [simp]: "client_at w p = Inr c \<longleftrightarrow> client_in w p = Some c"
  by (simp add: client_at_eq split: option.splits)

lemma client_at_Some [simp]: "client_in w p = Some c \<Longrightarrow> client_at w p = Inr c"
  by simp

lemma client_in_set:
  "client_in w p = Some c \<Longrightarrow>
   client_in (set_client p x w) q = (if q = p then x else client_in w q)"
  by (auto simp: client_in_def set_client_def split: if_splits)

lemma set_client_simps [simp]:
  "servers (set_client p x w) = servers w" "raw (set_client p x w) = raw w"
  "server_at (set_client p x w) = server_at w" "listed (set_client p x w) = listed w"
  by (auto simp: set_client_def server_at_def listed_def fun_eq_iff)

lemma bal_cong:
  "client_in w' = client_in w \<Longrightarrow> servers w' = servers w \<Longrightarrow> raw w' = raw w \<Longrightarrow> bal d w' = bal d w"
proof -
  assume a: "client_in w' = client_in w" "servers w' = servers w" "raw w' = raw w"
  then have l: "listed w' = listed w" by (simp add: listed_def fun_eq_iff)
  show "bal d w' = bal d w" unfolding bal_def a l ..
qed

lemma events_simps [simp]:
  "client_in (w\<lparr>events := es\<rparr>) = client_in w" "server_at (w\<lparr>events := es\<rparr>) = server_at w"
  "listed (w\<lparr>events := es\<rparr>) = listed w" "bal d (w\<lparr>events := es\<rparr>) = bal d w"
  by (simp_all add: client_in_def server_at_def listed_def fun_eq_iff bal_cong)

lemma log_event_simps [simp]:
  "client_in (log_event e w) = client_in w" "servers (log_event e w) = servers w"
  "raw (log_event e w) = raw w" "server_at (log_event e w) = server_at w"
  "listed (log_event e w) = listed w" "bal d (log_event e w) = bal d w"
  by (simp_all add: log_event_def)

lemma said_simps [simp]:
  "client_in (said t w) = client_in w" "servers (said t w) = servers w" "raw (said t w) = raw w"
  "server_at (said t w) = server_at w" "listed (said t w) = listed w" "bal d (said t w) = bal d w"
  by (simp_all add: said_def)

lemma say_lines_simps [simp]:
  "client_in (say_lines ss w) = client_in w" "servers (say_lines ss w) = servers w"
  "raw (say_lines ss w) = raw w" "server_at (say_lines ss w) = server_at w"
  "listed (say_lines ss w) = listed w" "bal d (say_lines ss w) = bal d w"
  by (simp_all add: say_lines_def)

lemma server_at_Inr: "server_at w s = Inr x \<longleftrightarrow> s < length (servers w) \<and> servers w ! s = Some x"
  by (auto simp: server_at_def split: option.splits)

lemma set_server_simps [simp]:
  "client_in (set_server s y w) = client_in w" "raw (set_server s y w) = raw w"
  by (auto simp: set_server_def client_in_def fun_eq_iff)

lemma server_at_set:
  "server_at w s = Inr x \<Longrightarrow>
   server_at (set_server s (Some y) w) t = (if t = s then Inr y else server_at w t)"
  by (auto simp: server_at_def set_server_def)

lemma sum_list_update_nat:
  fixes xs :: "nat list"
  shows "s < length xs \<Longrightarrow> sum_list (xs[s := y]) + xs ! s = sum_list xs + y"
proof (induction xs arbitrary: s)
  case (Cons a xs)
  then show ?case by (cases s) (auto simp: add.assoc add.left_commute)
qed simp

lemma listed_set_server:
  assumes "server_at w s = Inr x"
  shows "listed (set_server s y w) p + holds_client p (Some x) = listed w p + holds_client p y"
  using assms sum_list_update_nat [of s "map (holds_client p) (servers w)" "holds_client p y"]
  by (simp add: listed_def set_server_def server_at_Inr map_update)

section \<open>Steps of an operation\<close>

text \<open>Changing a server by so many entries for each client.\<close>

lemma bal_set_server:
  assumes "bal d w" "server_at w s = Inr x"
    and "\<And>p. int (holds_client p (Some x)) + d p = int (holds_client p y) + d' p"
    and "\<And>p. client_in w p = None \<Longrightarrow> holds_client p y = 0"
  shows "bal d' (set_server s y w)"
  unfolding bal_def
proof (intro conjI allI)
  show "thr (raw (set_server s y w)) = 0" using bal_raw [OF assms(1)] by simp
  fix p
  have l: "int (listed (set_server s y w) p) + d' p = int (listed w p) + d p"
    using listed_set_server [OF assms(2), of y p] assms(3) [of p] by linarith
  show "case client_in (set_server s y w) p of
      None \<Rightarrow> listed (set_server s y w) p = 0 \<and> d' p \<le> 0
    | Some c \<Rightarrow> int (listed (set_server s y w) p) + int (thr c) + d' p \<le> ref_count c"
  proof (cases "client_in w p")
    case None
    then show ?thesis
      using bal_dead [OF assms(1) None] assms(4) [OF None] l
        listed_set_server [OF assms(2), of y p] by simp
  next
    case (Some c)
    then show ?thesis using bal_alive [OF assms(1) Some] l by simp
  qed
qed

lemma bal_upd_server_same:
  assumes "upd_server s f w = Inr w'" "bal d w"
    and "\<And>x p. holds_client p (Some (f x)) = holds_client p (Some x)"
  shows "bal d w'"
proof -
  obtain x where x: "server_at w s = Inr x" "w' = set_server s (Some (f x)) w"
    using assms(1) by (auto simp: upd_server_def res_simps)
  have "holds_client p (Some x) = 0" if "client_in w p = None" for p
    using bal_dead [OF assms(2) that] x(1) nth_mem [of s "servers w"]
    by (auto simp: listed_def server_at_Inr sum_list_eq_0_iff)
  then show ?thesis
    using bal_set_server [OF assms(2) x(1), of "Some (f x)" d] x(2) assms(3) by simp
qed

lemma bal_set_client:
  assumes "bal d w" "client_in w p = Some c"
    and "int (thr c') + d' p - ref_count c' \<le> int (thr c) + d p - ref_count c" "\<And>q. q \<noteq> p \<Longrightarrow> d' q = d q"
  shows "bal d' (set_client p (Some c') w)"
  unfolding bal_def
proof (intro conjI allI)
  show "thr (raw (set_client p (Some c') w)) = 0" using bal_raw [OF assms(1)] by simp
  fix q
  show "case client_in (set_client p (Some c') w) q of
      None \<Rightarrow> listed (set_client p (Some c') w) q = 0 \<and> d' q \<le> 0
    | Some c \<Rightarrow> int (listed (set_client p (Some c') w) q) + int (thr c) + d' q \<le> ref_count c"
  proof (cases "q = p")
    case True
    then show ?thesis
      using bal_alive [OF assms(1,2)] assms(3) by (simp add: client_in_set [OF assms(2)])
  next
    case False
    then show ?thesis
      using assms(4) [OF False] assms(1)
      by (auto simp: client_in_set [OF assms(2)] bal_def split: option.splits dest!: spec [of _ q])
  qed
qed

lemma bal_upd_client:
  assumes "upd_client p f w = Inr w'" "bal d w"
    and "\<And>c. thr (f c) = thr c \<and> ref_count (f c) = ref_count c"
  shows "bal d w'"
  using assms(1) bal_set_client [OF assms(2), of p _ "f _" d] assms(3)
  by (fastforce simp: upd_client_def res_simps)

lemma Reference_bal:
  assumes "Reference p w = Inr w'" "bal d w"
  shows "bal (d(p := d p + 1)) w'"
proof -
  obtain c where c: "client_in w p = Some c" "w' = set_client p (Some (c\<lparr>ref_count := ref_count c + 1\<rparr>)) w"
    using assms(1) by (auto simp: Reference_def upd_client_def res_simps)
  show ?thesis unfolding c(2)
    by (rule bal_set_client [OF assms(2) c(1)]) (simp_all add: thr_def)
qed

lemma delete_client_result:
  assumes "delete_client p w = Inr w'"
  shows "\<exists>c. client_in w p = Some c \<and> ref_count c = 0 \<and> client_in w' = (client_in w)(p := None) \<and>
    servers w' = servers w \<and> raw w' = raw w"
proof -
  obtain c w1 where c: "client_in w p = Some c" "ref_count c = 0"
    and w1: "Display_client p (said ''Client Deleted : '' w) = Inr w1" "w' = set_client p None w1"
    using assms by (auto simp: delete_client_def res_simps)
  have "client_in w1 = client_in w" "servers w1 = servers w" "raw w1 = raw w"
    using w1(1) by (auto simp: Display_client_def res_simps)
  then show ?thesis
    using c w1(2) client_in_set [of w1 p c None] by (auto simp: fun_eq_iff)
qed

lemma Abort_result:
  assumes "Abort p w = Inr w'"
  shows "\<exists>c. client_in w p = Some c \<and> ref_count c = 0 \<and> client_in w' = (client_in w)(p := None) \<and>
    servers w' = servers w \<and> raw w' = raw w"
proof -
  obtain c where c: "client_in w p = Some c"
    using assms by (auto simp: Abort_def elim!: rbindE)
  define w1 where "w1 = (if comm_fd c \<noteq> 0 then log_event (ClosedFd (comm_fd c)) w else w)"
  define c1 where "c1 = c\<lparr>comm_fd := 0, c_ctrlr := None, msgd := None\<rparr>"
  have w1: "client_in w1 = client_in w" "servers w1 = servers w" "raw w1 = raw w"
    by (simp_all add: w1_def)
  have del: "delete_client p (set_client p (Some c1) w1) = Inr w'"
    using assms c by (auto simp: Abort_def Let_def w1_def c1_def elim!: rbindE)
  have in1: "client_in (set_client p (Some c1) w1) = (client_in w)(p := Some c1)"
    using c w1(1) client_in_set [of w1 p c "Some c1"] by (auto simp: fun_eq_iff)
  have "ref_count c1 = ref_count c" by (simp add: c1_def)
  then show ?thesis
    using delete_client_result [OF del] c w1(2,3) in1 by simp
qed

lemma deref_client_bal:
  assumes "deref_client p w = Inr w'" "bal d w" "1 \<le> d p"
  shows "bal (d(p := d p - 1)) w'"
proof -
  obtain r where r: "Dereference p w = Inr (w', r)"
    using assms(1) by (auto simp: deref_client_def elim!: rbindE)
  obtain c where c: "client_in w p = Some c"
    using r by (auto simp: Dereference_def elim!: rbindE)
  have le: "int (listed w p) + int (thr c) + d p \<le> ref_count c"
    by (rule bal_alive [OF assms(2) c])
  let ?w1 = "set_client p (Some (c\<lparr>ref_count := ref_count c - 1\<rparr>)) w"
  have b1: "bal (d(p := d p - 1)) ?w1"
    by (rule bal_set_client [OF assms(2) c]) (simp_all add: thr_def)
  have n0: "ref_count c \<noteq> 0" using le assms(3) by linarith
  show ?thesis
  proof (cases "ref_count c - 1 = 0")
    case False
    then show ?thesis using r c n0 b1 by (auto simp: Dereference_def)
  next
    case True
    then have "Abort p ?w1 = Inr w'"
      using r c by (auto simp: Dereference_def elim!: rbindE)
    from Abort_result [OF this]
    have w': "client_in w' = (client_in ?w1)(p := None)" "servers w' = servers w" "raw w' = raw w"
      by auto
    have z: "listed w p = 0" "d p = 1" using le True assms(3) by linarith+
    have l: "listed w' = listed w" using w'(2) by (simp add: listed_def fun_eq_iff)
    show ?thesis
      unfolding bal_def
    proof (intro conjI allI)
      show "thr (raw w') = 0" using w'(3) bal_raw [OF assms(2)] by simp
      fix q
      show "case client_in w' q of
          None \<Rightarrow> listed w' q = 0 \<and> (d(p := d p - 1)) q \<le> 0
        | Some c \<Rightarrow> int (listed w' q) + int (thr c) + (d(p := d p - 1)) q \<le> ref_count c"
        using b1 z l w'(1) unfolding bal_def
        by (cases "q = p") (auto dest!: spec [of _ q] split: option.splits)
    qed
  qed
qed

end
