(* ===== verification/TcpBalance.thy ===== *)
theory TcpBalance
  imports TcpRefs
begin

text \<open>
  Every operation of the server restores the balance of references: the lemmas follow the order
  of the components, clients, table, services, controller. \<open>keeps d m\<close> says that the outcome of
  \<open>m\<close>, if it is not an error, has the balance \<open>d\<close>; its introduction rules follow the sequence of
  a function, the rules in \<open>balance\<close> discharge the calls.
\<close>

named_theorems balance \<open>operations that restore the balance\<close>

lemmas holds_simps = holds_client_def in_db_def in_svc_def

section \<open>Sequences\<close>

definition keeps :: "(cptr \<Rightarrow> int) \<Rightarrow> world res \<Rightarrow> bool" where
  "keeps d m \<longleftrightarrow> (\<forall>w. m = Inr w \<longrightarrow> bal d w)"

definition keeps_pair :: "(cptr \<Rightarrow> int) \<Rightarrow> (world \<times> 'a) res \<Rightarrow> bool" where
  "keeps_pair d m \<longleftrightarrow> (\<forall>w x. m = Inr (w, x) \<longrightarrow> bal d w)"

lemma keeps_intro: "(\<And>w. m = Inr w \<Longrightarrow> bal d w) \<Longrightarrow> keeps d m"
  by (simp add: keeps_def)

lemma keeps_outcome: "keeps d m \<Longrightarrow> m = Inr w \<Longrightarrow> bal d w"
  by (simp add: keeps_def)

lemma keeps_Inr [balance]: "bal d w \<Longrightarrow> keeps d (Inr w)"
  by (simp add: keeps_def)

lemma keeps_Inl [balance]: "keeps d (Inl e)"
  by (simp add: keeps_def)

lemma keeps_pair_Inr [balance]: "bal d w \<Longrightarrow> keeps_pair d (Inr (w, x))"
  by (simp add: keeps_pair_def)

lemma keeps_pair_Inl [balance]: "keeps_pair d (Inl e)"
  by (simp add: keeps_pair_def)

lemma keeps_if [balance]:
  "(b \<Longrightarrow> keeps d m) \<Longrightarrow> (\<not> b \<Longrightarrow> keeps d n) \<Longrightarrow> keeps d (if b then m else n)"
  "(b \<Longrightarrow> keeps_pair d m') \<Longrightarrow> (\<not> b \<Longrightarrow> keeps_pair d n') \<Longrightarrow> keeps_pair d (if b then m' else n')"
  by simp_all

lemma keeps_option [balance]:
  "(x = None \<Longrightarrow> keeps d m) \<Longrightarrow> (\<And>y. x = Some y \<Longrightarrow> keeps d (f y)) \<Longrightarrow>
   keeps d (case x of None \<Rightarrow> m | Some y \<Rightarrow> f y)"
  by (cases x) simp_all

lemma keeps_then:
  "keeps d1 m \<Longrightarrow> (\<And>w. m = Inr w \<Longrightarrow> bal d1 w \<Longrightarrow> keeps d (f w)) \<Longrightarrow> keeps d (rbind m f)"
  "keeps d1 m \<Longrightarrow> (\<And>w. m = Inr w \<Longrightarrow> bal d1 w \<Longrightarrow> keeps_pair d (g w)) \<Longrightarrow> keeps_pair d (rbind m g)"
  "keeps_pair d1 m' \<Longrightarrow> (\<And>w x. m' = Inr (w, x) \<Longrightarrow> bal d1 w \<Longrightarrow> keeps d (h (w, x))) \<Longrightarrow>
   keeps d (rbind m' h)"
  by (auto simp: keeps_def keeps_pair_def rbind_eq_Inr)

lemma keeps_read:
  "(\<And>x. m = Inr x \<Longrightarrow> keeps d (f x)) \<Longrightarrow> keeps d (rbind m f)"
  "(\<And>x. m = Inr x \<Longrightarrow> keeps_pair d (g x)) \<Longrightarrow> keeps_pair d (rbind m g)"
  by (auto simp: keeps_def keeps_pair_def rbind_eq_Inr)

text \<open>The results that are read without a change of the world, by type.\<close>

lemmas keeps_reads =
  keeps_read [where 'a = tcp_client] keeps_read [where 'a = server] keeps_read [where 'a = bool]
  keeps_read [where 'a = unit] keeps_read [where 'a = nat] keeps_read [where 'a = svc_mgr]
  keeps_read [where 'a = acceptor] keeps_read [where 'a = int] keeps_read [where 'a = "nat option"]
  keeps_read [where 'a = "nat list"] keeps_read [where 'a = "int list"]
  keeps_read [where 'a = "demarcar \<times> byte list list"]

lemmas steps = keeps_reads keeps_then

section \<open>Clients\<close>

lemma keeps_upd_client:
  "bal d w \<Longrightarrow> (\<And>c. thr (f c) = thr c \<and> ref_count (f c) = ref_count c) \<Longrightarrow> keeps d (upd_client p f w)"
  by (rule keeps_intro) (rule bal_upd_client)

lemma plain_balance [balance]:
  assumes "bal d w"
  shows "keeps d (SetState p b w)" "keeps d (UnSetState p b w)"
    "keeps d (SetTcpMsgDemarcar p m w)" "keeps d (SetConnectionType p t w)"
    "keeps d (upd_client p (count_recvd n) w)"
    "keeps d (upd_client p (\<lambda>c. c\<lparr>recv_buffer := rb c\<rparr>) w)"
    "keeps d (upd_client p (\<lambda>c. c\<lparr>msgd := md\<rparr>) w)"
    "keeps d (upd_client p (\<lambda>c. c\<lparr>c_port_no := port\<rparr>) w)"
    "keeps d (upd_client p (\<lambda>c. c\<lparr>comm_fd := fd\<rparr>) w)"
  unfolding SetState_def UnSetState_def SetTcpMsgDemarcar_def SetConnectionType_def
  by (rule keeps_upd_client [OF assms]; simp add: thr_def count_recvd_def)+

lemma keeps_upd_server:
  "bal d w \<Longrightarrow> (\<And>x p. holds_client p (Some (f x)) = holds_client p (Some x)) \<Longrightarrow>
   keeps d (upd_server s f w)"
  by (rule keeps_intro) (rule bal_upd_server_same)

lemma queue_balance [balance]:
  assumes "bal d w"
  shows "keeps d (EnqueMsg s code p b w)" "keeps d (SetBit s fl w)" "keeps d (UnSetBit s fl w)"
  unfolding EnqueMsg_def SetBit_def UnSetBit_def Let_def
  by (rule keeps_upd_server [OF assms]; simp add: holds_simps)+

lemma hook_balance [balance]:
  "bal d w \<Longrightarrow> keeps d (call_hook h e w)" "bal d w \<Longrightarrow> keeps d (call_if_set h e w)"
  by (auto simp: keeps_def call_hook_def call_if_set_def res_simps split: hook.splits if_splits)

lemma Reference_balance [balance]: "bal d w \<Longrightarrow> keeps (d(p := d p + 1)) (Reference p w)"
  by (rule keeps_intro) (rule Reference_bal)

lemma deref_balance: "bal d w \<Longrightarrow> 1 \<le> d p \<Longrightarrow> keeps (d(p := d p - 1)) (deref_client p w)"
  by (rule keeps_intro) (rule deref_client_bal)

lemma deref_after [balance]: "bal (d(p := d p + 1)) w \<Longrightarrow> 0 \<le> d p \<Longrightarrow> keeps d (deref_client p w)"
  using deref_balance [of "d(p := d p + 1)" w p] by simp

text \<open>A thread that starts takes a reference, a thread that ends gives it back.\<close>

lemma thread_on:
  assumes "bal d w" "client_in w p = Some c" "thr (f c) = thr c + 1" "ref_count (f c) = ref_count c"
  shows "keeps (d(p := d p - 1)) (upd_client p f w)"
  using bal_set_client [OF assms(1,2), of "f c" "d(p := d p - 1)"] assms(2-4)
  by (auto simp: keeps_def upd_client_def res_simps)

lemma thread_off:
  assumes "bal d w" "client_in w p = Some c" "thr (f c) + 1 = thr c" "ref_count (f c) = ref_count c"
  shows "keeps (d(p := d p + 1)) (upd_client p f w)"
  using bal_set_client [OF assms(1,2), of "f c" "d(p := d p + 1)"] assms(2-4)
  by (auto simp: keeps_def upd_client_def res_simps)

lemma Reference_back: "bal (d(p := d p - 1)) w \<Longrightarrow> keeps d (Reference p w)"
  using Reference_balance [of "d(p := d p - 1)" w p] by simp

lemma StartThread_balance [balance]:
  assumes "bal d w"
  shows "keeps d (StartThread p w)"
  unfolding StartThread_def client_listening_thread_def
proof (intro steps)
  fix c u
  assume c: "client_at w p = Inr c" "require (\<not> client_thread c) AssertFail = Inr u"
  then show "keeps (d(p := d p - 1)) (upd_client p (\<lambda>c. c\<lparr>client_thread := True\<rparr>) w)"
    using assms by (intro thread_on [of _ _ _ c]) (auto simp: thr_def res_simps)
  show "keeps (d(p := d p - 1)) (SetState p 256 w1)" if "bal (d(p := d p - 1)) w1" for w1
    using that by (rule balance)
qed (rule Reference_back)

lemma StopThread_balance [balance]:
  assumes "bal d w" "0 \<le> d p"
  shows "keeps d (StopThread p w)"
  unfolding StopThread_def
proof (intro steps)
  fix c u
  assume c: "client_at w p = Inr c" "require (client_thread c) AssertFail = Inr u"
  then show "keeps (d(p := d p + 1)) (upd_client p (\<lambda>c. c\<lparr>client_thread := False\<rparr>) w)"
    using assms by (intro thread_off [of _ _ _ c]) (auto simp: thr_def res_simps)
  show "keeps (d(p := d p + 1)) (UnSetState p 256 w1)" if "bal (d(p := d p + 1)) w1" for w1
    using that by (rule balance)
qed (erule deref_after, rule assms(2))

lemma StopConnectorThread_balance [balance]:
  assumes "bal d w" "0 \<le> d p"
  shows "keeps d (StopConnectorThread p w)"
  unfolding StopConnectorThread_def
proof (intro steps)
  fix c u
  assume c: "client_at w p = Inr c" "require (active_connect_thread c) AssertFail = Inr u"
  then show "keeps (d(p := d p + 1)) (upd_client p (\<lambda>c. c\<lparr>active_connect_thread := False\<rparr>) w)"
    using assms by (intro thread_off [of _ _ _ c]) (auto simp: thr_def res_simps)
  show "keeps (d(p := d p + 1)) (UnSetState p 1 w1)" if "bal (d(p := d p + 1)) w1" for w1
    using that by (rule balance)
qed (erule deref_after, rule assms(2))

lemma demarcate_balance [balance]: "bal d w \<Longrightarrow> keeps d (demarcate s p m bs w)"
  unfolding demarcate_def case_prod_beta
  by (intro steps balance) (simp_all add: keeps_def)

lemma ClientThreadFunction_balance [balance]:
  "bal d w \<Longrightarrow> keeps d (ClientThreadFunction p r w)"
  unfolding ClientThreadFunction_def
  by (intro steps balance)

lemma now_connected_balance [balance]: "bal d w \<Longrightarrow> keeps d (now_connected p port w)"
  unfolding now_connected_def by (intro steps balance)

lemma plain_flags:
  assumes "SetState p b w = Inr w'"
  shows "\<exists>c. client_in w p = Some c \<and> client_in w' p = Some (c\<lparr>c_state_flags := c_state_flags c OR b\<rparr>)"
  using assms by (auto simp: SetState_def upd_client_def res_simps client_in_set)


lemma connect_flags:
  assumes "SetState p b w = Inr w1" "upd_client p (\<lambda>c. c\<lparr>comm_fd := fd\<rparr>) w1 = Inr w2"
    and "client_in w p = Some c" "\<not> active_connect_thread c"
  obtains c' where "client_in w2 p = Some c'" "\<not> active_connect_thread c'"
  using assms by (auto simp: SetState_def upd_client_def res_simps client_in_set)

lemma connect_later:
  assumes "bal d w" "client_in w p = Some c" "\<not> active_connect_thread c"
  shows "keeps_pair d (rbind (upd_client p (\<lambda>c. c\<lparr>active_connect_thread := True\<rparr>) w) (\<lambda>w3.
     rbind (Reference p w3) (\<lambda>w4. Inr (w4, n))))"
proof (rule keeps_then)
  show "keeps (d(p := d p - 1)) (upd_client p (\<lambda>c. c\<lparr>active_connect_thread := True\<rparr>) w)"
    using assms(2,3) by (intro thread_on [OF assms(1)]) (auto simp: thr_def)
  show "keeps_pair d (rbind (Reference p w3) (\<lambda>w4. Inr (w4, n)))" if "bal (d(p := d p - 1)) w3" for w3
    by (rule keeps_then, rule Reference_back, rule that, rule balance)
qed

lemma TryClientConnect_balance [balance]:
  assumes "bal d w"
  shows "keeps_pair d (TryClientConnect p again a w)"
  unfolding TryClientConnect_def
  apply (intro keeps_reads)
  apply (rule keeps_then, rule balance, rule assms)
  apply (rule keeps_then, rule balance, assumption)
  apply (intro keeps_if)
    apply (rule keeps_then, rule balance, assumption, rule balance, assumption)
   apply (rule balance, assumption)
  apply (auto simp: res_simps elim!: connect_flags intro: connect_later)
  done

text \<open>The thread that retries is there, and ends with its reference given back.\<close>

definition connecting :: "cptr \<Rightarrow> world \<Rightarrow> bool" where
  "connecting p w \<longleftrightarrow> (case client_in w p of None \<Rightarrow> False | Some c \<Rightarrow> active_connect_thread c)"

lemma connecting_frame:
  "now_connected p port w = Inr w' \<Longrightarrow> connecting p w \<Longrightarrow> connecting p w'"
  "EnqueMsg s code q b w = Inr w' \<Longrightarrow> connecting p w \<Longrightarrow> connecting p w'"
  unfolding now_connected_def EnqueMsg_def UnSetState_def SetState_def call_if_set_def call_hook_def
  by (auto simp: connecting_def upd_client_def upd_server_def res_simps client_in_set Let_def
      split: if_splits hook.splits)

lemma connecting_off:
  assumes "bal d w" "connecting p w" "0 \<le> d p"
  shows "keeps d (rbind (upd_client p (\<lambda>c. c\<lparr>active_connect_thread := False\<rparr>) w) (deref_client p))"
proof (rule keeps_then)
  obtain c where "client_in w p = Some c" "active_connect_thread c"
    using assms(2) by (auto simp: connecting_def split: option.splits)
  then show "keeps (d(p := d p + 1)) (upd_client p (\<lambda>c. c\<lparr>active_connect_thread := False\<rparr>) w)"
    by (intro thread_off [OF assms(1)]) (auto simp: thr_def)
qed (erule deref_after, rule assms(3))

lemma connect_retry_balance [balance]:
  assumes "bal d w" "connecting p w" "0 \<le> d p"
  shows "keeps d (connect_retry_fn p a w)"
proof -
  have s: "bal d (said t w)" "connecting p (said t w)" for t
    using assms by (simp_all add: connecting_def)
  show ?thesis
    unfolding connect_retry_fn_def Let_def
    apply (rule keeps_read, rule keeps_if)
     apply (rule balance, rule s)
    apply (rule keeps_then, rule balance, rule s)
    apply (rule keeps_read, rule keeps_then, rule balance, assumption)
    apply (rule connecting_off, assumption)
     apply (erule connecting_frame, erule connecting_frame, rule s)
    by (rule assms(3))
qed

text \<open>
  That a client is in one of the lists of a server, and the operations that leave that list
  alone.
\<close>

definition has :: "(server \<Rightarrow> cptr list) \<Rightarrow> sptr \<Rightarrow> cptr \<Rightarrow> world \<Rightarrow> bool" where
  "has g s p w \<longleftrightarrow> (\<forall>x. server_at w s = Inr x \<longrightarrow> p \<in> set (g x))"

definition stays :: "(server \<Rightarrow> cptr list) \<Rightarrow> sptr \<Rightarrow> cptr \<Rightarrow> world res \<Rightarrow> bool" where
  "stays g s p m \<longleftrightarrow> (\<forall>w. m = Inr w \<longrightarrow> has g s p w)"

named_theorems frames \<open>operations that keep a list\<close>

lemma hasD: "has g s p w \<Longrightarrow> server_at w s = Inr x \<Longrightarrow> p \<in> set (g x)"
  by (simp add: has_def)

lemma staysD: "stays g s p m \<Longrightarrow> m = Inr w \<Longrightarrow> has g s p w"
  by (simp add: stays_def)

lemma stays_Inr [frames]: "has g s p w \<Longrightarrow> stays g s p (Inr w)" "stays g s p (Inl e)"
  by (simp_all add: stays_def)

lemma stays_if [frames]:
  "(b \<Longrightarrow> stays g s p m) \<Longrightarrow> (\<not> b \<Longrightarrow> stays g s p n) \<Longrightarrow> stays g s p (if b then m else n)"
  by simp

lemma stays_cell [frames]:
  "(x = None \<Longrightarrow> stays g s p m) \<Longrightarrow> (x = Some NoThread \<Longrightarrow> stays g s p n) \<Longrightarrow>
   (x = Some Thread \<Longrightarrow> stays g s p k) \<Longrightarrow>
   stays g s p (case x of None \<Rightarrow> m | Some NoThread \<Rightarrow> n | Some Thread \<Rightarrow> k)"
  by (auto split: option.split thread_cell.split)

lemma stays_then:
  "stays g s p m \<Longrightarrow> (\<And>w. m = Inr w \<Longrightarrow> has g s p w \<Longrightarrow> stays g s p (f w)) \<Longrightarrow>
   stays g s p (rbind m f)"
  by (auto simp: stays_def rbind_eq_Inr)

lemma stays_read: "(\<And>x. m = Inr x \<Longrightarrow> stays g s p (f x)) \<Longrightarrow> stays g s p (rbind m f)"
  by (auto simp: stays_def rbind_eq_Inr)

lemmas stays_reads =
  stays_read [where 'a = tcp_client] stays_read [where 'a = server] stays_read [where 'a = bool]
  stays_read [where 'a = unit] stays_read [where 'a = nat] stays_read [where 'a = svc_mgr]
  stays_read [where 'a = int] stays_read [where 'a = "nat option"]
  stays_read [where 'a = "nat list"] stays_read [where 'a = "int list"]

lemmas frame_steps = stays_reads stays_then

lemma has_servers: "servers w' = servers w \<Longrightarrow> has g s p w' = has g s p w"
  by (simp add: has_def server_at_def)

lemma stays_servers: "(\<And>w'. m = Inr w' \<Longrightarrow> servers w' = servers w) \<Longrightarrow> has g s p w \<Longrightarrow> stays g s p m"
  unfolding stays_def using has_servers by blast

lemma stays_upd_server:
  assumes "has g s p w" "\<And>x. server_at w t = Inr x \<Longrightarrow> set (g x) \<subseteq> set (g (f x))"
  shows "stays g s p (upd_server t f w)"
  unfolding stays_def has_def
proof (intro allI impI)
  fix w' y assume w': "upd_server t f w = Inr w'" "server_at w' s = Inr y"
  then obtain x where x: "server_at w t = Inr x" "w' = set_server t (Some (f x)) w"
    by (auto simp: upd_server_def res_simps)
  show "p \<in> set (g y)"
  proof (cases "s = t")
    case True
    then show ?thesis
      using w'(2) x hasD [OF assms(1)] assms(2) by (auto simp: server_at_set [OF x(1)])
  next
    case False
    then show ?thesis
      using w'(2) x hasD [OF assms(1)] by (simp add: server_at_set [OF x(1)])
  qed
qed

lemma upd_client_servers: "upd_client p f w = Inr w' \<Longrightarrow> servers w' = servers w"
  by (auto simp: upd_client_def res_simps)

lemma deref_client_servers: "deref_client p w = Inr w' \<Longrightarrow> servers w' = servers w"
  by (auto simp: deref_client_def Dereference_def Let_def elim!: rbindE split: if_splits
      dest!: Abort_result)

lemma client_servers:
  "SetState p b w = Inr w' \<Longrightarrow> servers w' = servers w"
  "UnSetState p b w = Inr w' \<Longrightarrow> servers w' = servers w"
  "Reference p w = Inr w' \<Longrightarrow> servers w' = servers w"
  by (simp_all add: SetState_def UnSetState_def Reference_def upd_client_servers)

lemma thread_servers:
  "StartThread p w = Inr w' \<Longrightarrow> servers w' = servers w"
  "StopThread p w = Inr w' \<Longrightarrow> servers w' = servers w"
  "StopConnectorThread p w = Inr w' \<Longrightarrow> servers w' = servers w"
  unfolding StartThread_def StopThread_def StopConnectorThread_def client_listening_thread_def
  by (auto elim!: rbindE dest!: upd_client_servers client_servers deref_client_servers)

lemma client_frames [frames]:
  assumes "has g s p w"
  shows "stays g s p (deref_client q w)" "stays g s p (SetState q b w)"
    "stays g s p (UnSetState q b w)" "stays g s p (Reference q w)" "stays g s p (StopThread q w)"
    "stays g s p (StartThread q w)" "stays g s p (StopConnectorThread q w)"
  by (rule stays_servers [OF _ assms]; erule deref_client_servers client_servers thread_servers)+

lemma has_said [frames]: "has g s p w \<Longrightarrow> has g s p (said t w)"
  by (simp add: has_def)

text \<open>The lists of the controller, which the client service does not touch.\<close>

definition not_svc :: "(server \<Rightarrow> cptr list) \<Rightarrow> bool" where
  "not_svc g \<longleftrightarrow> (\<forall>x v. g (x\<lparr>client_svc := v\<rparr>) = g x)"

lemma not_svc [simp]: "not_svc in_db" "not_svc connectpending" "not_svc established"
  by (simp_all add: not_svc_def in_db_def)

section \<open>The table of clients\<close>

text \<open>An entry more or less in a list of the server.\<close>

lemma server_at_listed:
  "server_at w s = Inr x \<Longrightarrow> holds_client p (Some x) \<le> listed w p"
  using nth_mem [of s "servers w"]
  by (auto simp: server_at_Inr listed_def intro!: member_le_sum_list image_eqI [of _ _ "Some x"])

lemma keeps_set_server:
  assumes "bal d w" "server_at w s = Inr x"
    and "\<And>p. int (holds_client p (Some x)) + d p = int (holds_client p (Some (f x))) + d' p"
    and "\<And>p. client_in w p = None \<Longrightarrow> holds_client p (Some (f x)) = 0"
  shows "keeps d' (upd_server s f w)"
  using bal_set_server [OF assms(1,2), of "Some (f x)" d'] assms
  by (auto simp: keeps_def upd_server_def res_simps)

lemma dead_not_listed:
  "bal d w \<Longrightarrow> server_at w s = Inr x \<Longrightarrow> client_in w p = None \<Longrightarrow> holds_client p (Some x) = 0"
  using bal_dead [of d w p] server_at_listed [of w s x p] by simp

lemma keeps_more:
  assumes "bal d w" "server_at w s = Inr x" "client_in w q = Some c"
    and "\<And>p. holds_client p (Some (f x)) = holds_client p (Some x) + of_bool (p = q)"
  shows "keeps (d(q := d q - 1)) (upd_server s f w)"
  by (rule keeps_set_server [OF assms(1,2)])
    (use assms(3,4) dead_not_listed [OF assms(1,2)] in auto)

lemma keeps_less:
  assumes "bal d w" "server_at w s = Inr x"
    and "\<And>p. holds_client p (Some (f x)) \<le> holds_client p (Some x)"
    and "holds_client q (Some (f x)) < holds_client q (Some x)"
  shows "keeps (d(q := d q + 1)) (upd_server s f w)"
proof (rule keeps_intro)
  fix w'
  assume w': "upd_server s f w = Inr w'"
  let ?d = "\<lambda>p. d p + int (holds_client p (Some x)) - int (holds_client p (Some (f x)))"
  have "keeps ?d (upd_server s f w)"
  proof (rule keeps_set_server [OF assms(1,2)])
    fix p assume "client_in w p = None"
    then show "holds_client p (Some (f x)) = 0"
      using dead_not_listed [OF assms(1,2)] assms(3) [of p] by simp
  qed simp
  then have "bal ?d w'" using w' by (rule keeps_outcome)
  then show "bal (d(q := d q + 1)) w'"
  proof (rule bal_mono)
    fix p show "(d(q := d q + 1)) p \<le> ?d p"
      using assms(3) [of p] assms(4) by (cases "p = q") simp_all
  qed
qed


lemma db_of_Inr: "db_of s w = Inr db \<longleftrightarrow> (\<exists>x. server_at w s = Inr x \<and> client_db x = Some db)"
  by (auto simp: db_of_def res_simps split: option.splits)

lemma set_db_more:
  assumes "bal d w" "db_of s w = Inr db" "client_in w q = Some c"
  shows "keeps (d(q := d q - 1)) (set_db s (db @ [q]) w)"
proof -
  obtain x where x: "server_at w s = Inr x" "client_db x = Some db"
    using assms(2) by (auto simp: db_of_Inr)
  show ?thesis
    unfolding set_db_def
    by (rule keeps_more [OF assms(1) x(1) assms(3)]) (simp add: holds_simps x)
qed

lemma set_db_less:
  assumes "bal d w" "db_of s w = Inr db" "q \<in> set db"
  shows "keeps (d(q := d q + 1)) (set_db s (removeAll q db) w)"
proof -
  obtain x where x: "server_at w s = Inr x" "client_db x = Some db"
    using assms(2) by (auto simp: db_of_Inr)
  have "count_list (removeAll q db) p = (if p = q then 0 else count_list db p)" for p
    by (induction db) auto
  moreover have "0 < count_list db q"
    using assms(3) count_notin [of q db] by (simp add: count_list_0_iff zero_less_iff_neq_zero)
  ultimately show ?thesis
    unfolding set_db_def
    by (intro keeps_less [OF assms(1) x(1)]) (simp_all add: holds_simps x)
qed

lemma AddClientToDB_balance [balance]:
  assumes "bal d w"
  shows "keeps d (AddClientToDB s p w)"
  unfolding AddClientToDB_def
  apply (intro keeps_reads)
  apply (rule keeps_then, rule set_db_more [OF assms], assumption, simp)
  by (erule Reference_back)

lemma RemoveClientFromDB_balance [balance]:
  assumes "bal d w" "0 \<le> d p" "\<And>x. server_at w s = Inr x \<Longrightarrow> p \<in> set (in_db x)"
  shows "keeps d (RemoveClientFromDB s p w)"
  unfolding RemoveClientFromDB_def
proof (intro steps)
  fix db assume "db_of s w = Inr db"
  then show "keeps (d(p := d p + 1)) (set_db s (removeAll p db) w)"
    using assms(3) by (intro set_db_less [OF assms(1)]) (auto simp: db_of_Inr in_db_def)
qed (erule deref_after, rule assms(2))


lemma Reference_all_bal:
  assumes "foldl (\<lambda>m p. rbind m (Reference p)) (Inr w) ps = Inr w'" "bal d w"
  shows "bal (\<lambda>p. d p + int (count_list ps p)) w'"
  using assms
proof (induction ps arbitrary: w d)
  case (Cons q ps)
  have e: "foldl (\<lambda>m p. rbind m (Reference p)) (Inl e) ps = Inl e" for e ps
    by (induction ps) simp_all
  obtain w1 where w1: "Reference q w = Inr w1"
    using Cons.prems(1) e by (cases "Reference q w") auto
  have "bal (\<lambda>p. (d(q := d q + 1)) p + int (count_list ps p)) w'"
    using Cons.IH [OF _ keeps_outcome [OF Reference_balance [OF Cons.prems(2)] w1]] Cons.prems(1) w1 by simp
  then show ?case by (rule bal_mono) simp
qed simp

lemma Reference_alive: "Reference q w = Inr w' \<Longrightarrow> p = q \<or> client_in w p \<noteq> None \<Longrightarrow> client_in w' p \<noteq> None"
  by (auto simp: Reference_def upd_client_def res_simps client_in_set)

lemma Reference_all_alive:
  "foldl (\<lambda>m p. rbind m (Reference p)) (Inr w) ps = Inr w' \<Longrightarrow>
   p \<in> set ps \<or> client_in w p \<noteq> None \<Longrightarrow> client_in w' p \<noteq> None"
proof (induction ps arbitrary: w)
  case (Cons q ps)
  have e: "foldl (\<lambda>m p. rbind m (Reference p)) (Inl e) ps = Inl e" for e ps
    by (induction ps) simp_all
  show ?case
    using Cons Reference_alive [of q w] e by (cases "Reference q w") auto
qed simp

lemma CopyAllClientsTolist_bal:
  assumes "CopyAllClientsTolist s l w = Inr (w', l')" "bal d w"
  shows "\<exists>db. l' = l @ db \<and> (\<forall>p\<in>set db. client_in w' p \<noteq> None) \<and>
    bal (\<lambda>p. d p + int (count_list db p)) w'"
  using assms Reference_all_bal Reference_all_alive by (fastforce simp: CopyAllClientsTolist_def elim!: rbindE)

lemma Reference_all_servers:
  "foldl (\<lambda>m p. rbind m (Reference p)) (Inr w) ps = Inr w' \<Longrightarrow> servers w' = servers w"
proof (induction ps arbitrary: w)
  case (Cons q ps)
  have e: "foldl (\<lambda>m p. rbind m (Reference p)) (Inl e) ps = Inl e" for e ps
    by (induction ps) simp_all
  show ?case
    using Cons client_servers(3) [of q w] e by (cases "Reference q w") auto
qed simp

lemma CopyAllClientsTolist_servers:
  "CopyAllClientsTolist s l w = Inr (w', l') \<Longrightarrow> servers w' = servers w"
  by (auto simp: CopyAllClientsTolist_def elim!: rbindE dest: Reference_all_servers)

section \<open>The services\<close>

lemma upd_svc_Inr:
  "upd_svc s f w = Inr w' \<longleftrightarrow>
     (\<exists>x v. server_at w s = Inr x \<and> client_svc x = Some v \<and>
        upd_server s (\<lambda>x. x\<lparr>client_svc := Some (f v)\<rparr>) w = Inr w')"
  by (auto simp: upd_svc_def svc_of_def res_simps split: option.splits)

lemma svc_of_Inr: "svc_of s w = Inr v \<longleftrightarrow> (\<exists>x. server_at w s = Inr x \<and> client_svc x = Some v)"
  by (auto simp: svc_of_def res_simps split: option.splits)

lemma keeps_svc:
  assumes "\<And>x v. server_at w s = Inr x \<Longrightarrow> client_svc x = Some v \<Longrightarrow>
    keeps d (upd_server s (\<lambda>x. x\<lparr>client_svc := Some (f v)\<rparr>) w)"
  shows "keeps d (upd_svc s f w)"
  using assms by (fastforce simp: keeps_def upd_svc_Inr)

lemma keeps_same_at:
  assumes "bal d w" "server_at w s = Inr x"
    and "\<And>p. holds_client p (Some (f x)) = holds_client p (Some x)"
  shows "keeps d (upd_server s f w)"
  by (rule keeps_set_server [OF assms(1,2)]) (use assms(3) dead_not_listed [OF assms(1,2)] in auto)

lemma svc_same:
  assumes "bal d w" "\<And>v. svc_db (f v) = svc_db v"
  shows "keeps d (upd_svc s f w)"
proof (rule keeps_svc)
  fix x v assume x: "server_at w s = Inr x" "client_svc x = Some v"
  show "keeps d (upd_server s (\<lambda>x. x\<lparr>client_svc := Some (f v)\<rparr>) w)"
    by (rule keeps_same_at [OF assms(1) x(1)]) (simp add: holds_simps x assms(2))
qed

lemma svc_balance [balance]:
  assumes "bal d w"
  shows "keeps d (upd_svc s (\<lambda>v. v\<lparr>max_fd := m\<rparr>) w)"
    "keeps d (upd_svc s (\<lambda>v. v\<lparr>max_fd := m, backup_fd_set := fds\<rparr>) w)"
    "keeps d (upd_svc s (\<lambda>v. v\<lparr>backup_fd_set := g (backup_fd_set v)\<rparr>) w)"
    "keeps d (upd_svc s (\<lambda>v. v\<lparr>client_svc_mgr_thread := t\<rparr>) w)"
  by (rule svc_same [OF assms]; simp)+

lemma svc_AddClientToDB_balance [balance]:
  assumes "bal d w" "client_at w p = Inr c"
  shows "keeps d (svc_AddClientToDB s p w)"
  unfolding svc_AddClientToDB_def
proof (rule keeps_then)
  show "keeps (d(p := d p - 1)) (upd_svc s (\<lambda>v. v\<lparr>svc_db := svc_db v @ [p]\<rparr>) w)"
  proof (rule keeps_svc)
    fix x v assume x: "server_at w s = Inr x" "client_svc x = Some v"
    show "keeps (d(p := d p - 1))
        (upd_server s (\<lambda>x. x\<lparr>client_svc := Some (v\<lparr>svc_db := svc_db v @ [p]\<rparr>)\<rparr>) w)"
      by (rule keeps_more [OF assms(1) x(1) assms(2) [unfolded client_at_Inr]])
        (simp add: holds_simps x)
  qed
qed (erule Reference_back)

lemma count_list_removeAll: "count_list (removeAll q xs) p = (if p = q then 0 else count_list xs p)"
  by (induction xs) auto

lemma count_list_pos: "q \<in> set xs \<Longrightarrow> 0 < count_list xs q"
  by (simp add: count_list_0_iff zero_less_iff_neq_zero)

lemma svc_less:
  assumes "bal d w" "\<And>x. server_at w s = Inr x \<Longrightarrow> p \<in> set (in_svc x)"
  shows "keeps (d(p := d p + 1)) (upd_svc s (\<lambda>v. v\<lparr>svc_db := removeAll p (svc_db v)\<rparr>) w)"
proof (rule keeps_svc)
  fix x v assume x: "server_at w s = Inr x" "client_svc x = Some v"
  then have "0 < count_list (svc_db v) p"
    using assms(2) [OF x(1)] by (intro count_list_pos) (simp add: in_svc_def)
  then show "keeps (d(p := d p + 1))
      (upd_server s (\<lambda>x. x\<lparr>client_svc := Some (v\<lparr>svc_db := removeAll p (svc_db v)\<rparr>)\<rparr>) w)"
    by (intro keeps_less [OF assms(1) x(1)]) (simp_all add: holds_simps x count_list_removeAll)
qed

lemma svc_RemoveClientFromDB_balance [balance]:
  assumes "bal d w" "0 \<le> d p" "\<And>x. server_at w s = Inr x \<Longrightarrow> p \<in> set (in_svc x)"
  shows "keeps d (svc_RemoveClientFromDB s p w)"
  unfolding svc_RemoveClientFromDB_def
  by (rule keeps_then, rule svc_less [OF assms(1,3)], assumption, erule deref_after, rule assms(2))


lemma svc_thread_start_balance [balance]:
  assumes "bal d w"
  shows "keeps d (svc_thread_start s w)"
proof (rule keeps_intro)
  fix w'
  assume run: "svc_thread_start s w = Inr w'"
  obtain v w1 db w2 m fds where
    v: "svc_of s w = Inr v"
    and db: "w1 = w \<and> db = svc_db v \<or> CopyAllClientsTolist s (svc_db v) w = Inr (w1, db)"
    and w2: "upd_svc s (\<lambda>v. v\<lparr>svc_db := db\<rparr>) w1 = Inr w2"
    and w': "upd_svc s (\<lambda>v. v\<lparr>max_fd := m, backup_fd_set := fds\<rparr>) w2 = Inr w'"
    using run unfolding svc_thread_start_def
    by (auto elim!: rbindE split: if_splits; blast)
  obtain new where live: "\<forall>p\<in>set new. client_in w1 p \<noteq> None"
    and new: "db = svc_db v @ new" "bal (\<lambda>p. d p + int (count_list new p)) w1"
    and same: "servers w1 = servers w"
  proof (cases "w1 = w \<and> db = svc_db v")
    case True
    then show ?thesis using that [of "[]"] assms by simp
  next
    case False
    then show ?thesis
      using db CopyAllClientsTolist_bal [OF _ assms] CopyAllClientsTolist_servers that by blast
  qed
  have "keeps d (upd_svc s (\<lambda>v. v\<lparr>svc_db := db\<rparr>) w1)"
  proof (rule keeps_svc)
    fix x v1 assume x: "server_at w1 s = Inr x" "client_svc x = Some v1"
    have "server_at w1 = server_at w" using same by (simp add: server_at_def fun_eq_iff)
    then have v1: "v1 = v" using v x by (auto simp: svc_of_Inr)
    have dead: "count_list new p = 0" if "client_in w1 p = None" for p
      using that live by (intro count_notin) auto
    show "keeps d (upd_server s (\<lambda>x. x\<lparr>client_svc := Some (v1\<lparr>svc_db := db\<rparr>)\<rparr>) w1)"
      by (rule keeps_set_server [OF new(2) x(1)])
        (use dead dead_not_listed [OF new(2) x(1)] in \<open>auto simp: holds_simps x v1 new(1)\<close>)
  qed
  from keeps_outcome [OF this w2] keeps_outcome [OF svc_balance(2) w'] show "bal d w'" by blast
qed


lemma keeps_cell [balance]:
  "(x = None \<Longrightarrow> keeps d m) \<Longrightarrow> (x = Some NoThread \<Longrightarrow> keeps d n) \<Longrightarrow> (x = Some Thread \<Longrightarrow> keeps d k) \<Longrightarrow>
   keeps d (case x of None \<Rightarrow> m | Some NoThread \<Rightarrow> n | Some Thread \<Rightarrow> k)"
  by (auto split: option.split thread_cell.split)

lemma bal_said [balance]: "bal d w \<Longrightarrow> bal d (said t w)"
  by simp

lemma svc_thread_balance [balance]:
  assumes "bal d w"
  shows "keeps d (StartTcpClientServiceManagerThread s w)"
    "keeps d (StopTcpClientServiceManagerThread s w)"
proof -
  show "keeps d (StartTcpClientServiceManagerThread s w)"
    unfolding StartTcpClientServiceManagerThread_def
    using assms by (intro steps balance)
  show "keeps d (StopTcpClientServiceManagerThread s w)"
    unfolding StopTcpClientServiceManagerThread_def
    using assms by (intro keeps_read keeps_cell balance keeps_then)
qed

lemma listen_balance [balance]:
  assumes "bal d w"
  shows "keeps d (ClientFDStartListenSimple s p w)"
  unfolding ClientFDStartListenSimple_def
  using assms by (intro steps balance)


lemma svc_frames [frames]:
  assumes "has g s p w" "not_svc g"
  shows "stays g s p (upd_svc t f w)" "stays g s p (svc_RemoveClientFromDB t q w)"
    "stays g s p (svc_AddClientToDB t q w)"
proof -
  show u: "stays g s p (upd_svc t f w)" for f
    unfolding upd_svc_def
    by (intro stays_reads stays_upd_server) (use assms in \<open>simp_all add: not_svc_def\<close>)
  show "stays g s p (svc_RemoveClientFromDB t q w)"
    unfolding svc_RemoveClientFromDB_def by (rule stays_then, rule u, rule frames)
  show "stays g s p (svc_AddClientToDB t q w)"
    unfolding svc_AddClientToDB_def by (rule stays_then, rule u, rule frames)
qed

lemma CopyAllClientsTolist_frame:
  "has g s p w \<Longrightarrow> CopyAllClientsTolist t l w = Inr (w', l') \<Longrightarrow> has g s p w'"
  using CopyAllClientsTolist_servers has_servers by blast

lemma svc_thread_frames [frames]:
  assumes "has g s p w" "not_svc g"
  shows "stays g s p (StartTcpClientServiceManagerThread t w)"
    "stays g s p (StopTcpClientServiceManagerThread t w)"
proof -
  note [intro] = assms(2)
  show "stays g s p (StopTcpClientServiceManagerThread t w)"
    unfolding StopTcpClientServiceManagerThread_def
    using assms by (intro stays_cell frame_steps frames)
  have c: "stays g s p (svc_thread_start t w)" if "has g s p w" for w
  proof -
    have pair: "stays g s p (case wd of (w1, db) \<Rightarrow> f w1 db)"
      if "\<And>w1 db. wd = (w1, db) \<Longrightarrow> stays g s p (f w1 db)" for wd :: "world \<times> cptr list" and f
      using that by (cases wd) simp
    show ?thesis
      unfolding svc_thread_start_def
      apply (rule stays_read, rule stays_read, rule stays_read, rule pair)
      subgoal for off v wd w1 db
        using that assms(2) CopyAllClientsTolist_frame [OF that]
        by (intro frame_steps frames) (auto split: if_splits)
      done
  qed
  show "stays g s p (StartTcpClientServiceManagerThread t w)"
    unfolding StartTcpClientServiceManagerThread_def
    using assms c by (intro frame_steps frames)
qed

lemma stop_in_svc:
  assumes "has in_svc s p w"
  shows "stays in_svc s p (StopTcpClientServiceManagerThread t w)"
proof -
  have "stays in_svc s p (upd_svc t (\<lambda>v. v\<lparr>client_svc_mgr_thread := None\<rparr>) w)"
    unfolding upd_svc_def
    by (intro stays_reads stays_upd_server) (use assms in \<open>auto simp: in_svc_def svc_of_Inr\<close>)
  then show ?thesis
    using assms unfolding StopTcpClientServiceManagerThread_def
    apply (intro stays_reads stays_cell)
      apply (rule frames, assumption)
     apply (rule frames)
    apply (rule stays_then, assumption)
    by (rule frames, rule frames, assumption)
qed

lemma stop_listen_rest:
  assumes "bal d w" "0 \<le> d p" "has in_svc s p w"
  shows "keeps d
     (rbind (client_at w p) (\<lambda>c.
      rbind (svc_LookUpClientDB s (c_ip_addr c) (c_port_no c) w) (\<lambda>found.
      rbind (require (found \<noteq> None) AssertFail) (\<lambda>_.
      rbind (svc_RemoveClientFromDB s p w) (\<lambda>w2.
      rbind (UnSetState p b w2) (\<lambda>w3.
      if off then Inr w3 else StartTcpClientServiceManagerThread s w3))))))"
  using assms by (intro steps balance) (auto dest: hasD)

lemma stop_listen_balance [balance]:
  assumes "bal d w" "0 \<le> d p" "has in_svc s p w"
  shows "keeps d (ClientFDStopListenSimple s p w)"
  unfolding ClientFDStopListenSimple_def
proof (intro keeps_reads)
  fix v off
  have stop: "keeps d (if off then Inr w else StopTcpClientServiceManagerThread s w)"
    using assms(1) by (intro balance)
  have "stays in_svc s p (if off then Inr w else StopTcpClientServiceManagerThread s w)"
    using assms(3) stop_in_svc by (cases off) (simp_all add: stays_def)
  note sv = staysD [OF this]
  show "keeps d (rbind (if off then Inr w else StopTcpClientServiceManagerThread s w) (\<lambda>w1.
      rbind (client_at w1 p) (\<lambda>c.
      rbind (svc_LookUpClientDB s (c_ip_addr c) (c_port_no c) w1) (\<lambda>found.
      rbind (require (found \<noteq> None) AssertFail) (\<lambda>_.
      rbind (svc_RemoveClientFromDB s p w1) (\<lambda>w2.
      rbind (UnSetState p 128 w2) (\<lambda>w3.
      if off then Inr w3 else StartTcpClientServiceManagerThread s w3)))))))"
    by (rule keeps_then, rule stop, rule stop_listen_rest, assumption, rule assms(2), erule sv)
qed

lemma listen_frames [frames]:
  assumes "has g s p w" "not_svc g"
  shows "stays g s p (ClientFDStopListenSimple t q w)"
    "stays g s p (ClientFDStartListenSimple t q w)"
proof -
  show "stays g s p (ClientFDStopListenSimple t q w)"
    unfolding ClientFDStopListenSimple_def using assms by (intro frame_steps frames)
  show "stays g s p (ClientFDStartListenSimple t q w)"
    unfolding ClientFDStartListenSimple_def using assms by (intro frame_steps frames)
qed

end
