(* ===== verification/TcpSvcOld.thy ===== *)
theory TcpSvcOld
  imports TcpBalance
begin

text \<open>
  The older half of \<^verbatim>\<open>TcpClientServiceManager.cpp\<close>, which the server no longer calls: a loop
  that is never cancelled and stops for every change of its clients, woken up by a datagram to a
  socket of its own. The locked sections of the callers run while the loop waits for them.
\<close>

section \<open>Waking up the loop\<close>

text \<open>
  The datagram is sent when the system gives a descriptor (\<open>fd\<close>) and \<open>sendto\<close> succeeds
  (\<open>rc\<close>); the caller is not told.
\<close>

definition ForceUnblockSelect :: "int \<Rightarrow> int \<Rightarrow> world \<Rightarrow> world \<times> bool" where
  "ForceUnblockSelect fd rc w =
     (if fd < 0
      then (said (''ForceUnblockSelect() Socket Creation Failed '' @ [NL]) w, False)
      else
        (log_event (ClosedFd fd)
          (if rc < 0
           then said (''ForceUnblockSelect() Sending Data to UDP Socket Failed '' @ [NL]) w
           else w), 0 \<le> rc))"

text \<open>Does the loop see a datagram that was sent to it?\<close>

definition loop_wakes_up :: "sptr \<Rightarrow> world \<Rightarrow> bool res" where
  "loop_wakes_up s w =
     rbind (svc_of s w) (\<lambda>v.
     Inr (client_svc_mgr_thread v = Some Thread \<and> udp_fd v \<in> set (select_fds v [udp_fd v])))"

text \<open>
  A caller sends the datagram and waits for the loop, which then waits for the caller's section.
\<close>

definition while_loop_waits ::
    "sptr \<Rightarrow> int \<Rightarrow> int \<Rightarrow> (world \<Rightarrow> 'a res) \<Rightarrow> world \<Rightarrow> 'a res" where
  "while_loop_waits s fd rc section w =
     (case ForceUnblockSelect fd rc w of (w1, sent) \<Rightarrow>
      rbind (loop_wakes_up s w1) (\<lambda>up. if sent \<and> up then section w1 else Inl Diverges))"

section \<open>The operations\<close>

definition ClientFDStartListenAdv :: "sptr \<Rightarrow> cptr \<Rightarrow> int \<Rightarrow> int \<Rightarrow> world \<Rightarrow> world res" where
  "ClientFDStartListenAdv s p fd rc =
     while_loop_waits s fd rc (\<lambda>w.
       rbind (client_at w p) (\<lambda>c.
       rbind (svc_LookUpClientDB s (c_ip_addr c) (c_port_no c) w) (\<lambda>found.
       rbind (require (found = None) AssertFail) (\<lambda>_.
       rbind (svc_AddClientToDB s p w) (\<lambda>w1.
       rbind (SetState p TCP_CLIENT_STATE_MULTIPLEX_LISTEN w1) (\<lambda>w2.
       rbind (upd_svc s (\<lambda>v. v\<lparr>max_fd := max (max_fd v) (comm_fd c)\<rparr>) w2) (\<lambda>w3.
       rbind (svc_of s w3) (\<lambda>v.
       rbind (FD_SET (comm_fd c) (backup_fd_set v)) (\<lambda>fds.
       upd_svc s (\<lambda>v. v\<lparr>backup_fd_set := fds\<rparr>) w3)))))))))"

text \<open>What both ways to stop have in common; the callback is called without a test.\<close>

definition stop_adv :: "sptr \<Rightarrow> cptr \<Rightarrow> world \<Rightarrow> world res" where
  "stop_adv s p w =
     rbind (svc_RemoveClientFromDB s p w) (\<lambda>w1.
     rbind (UnSetState p TCP_CLIENT_STATE_MULTIPLEX_LISTEN w1) (\<lambda>w2.
     rbind (GetMaxFdSimple s w2) (\<lambda>m.
     rbind (upd_svc s (\<lambda>v. v\<lparr>max_fd := m\<rparr>) w2) (\<lambda>w3.
     rbind (client_at w3 p) (\<lambda>c.
     rbind (upd_svc s (\<lambda>v. v\<lparr>backup_fd_set := removeAll (comm_fd c) (backup_fd_set v)\<rparr>) w3) (\<lambda>w4.
     rbind (server_at w4 s) (\<lambda>x.
     call_hook (client_disconnected x) (Disconnected s p) w4)))))))"

definition ClientFDStopListenAdv_addr ::
    "sptr \<Rightarrow> u32 \<Rightarrow> u16 \<Rightarrow> int \<Rightarrow> int \<Rightarrow> world \<Rightarrow> (world \<times> cptr option) res" where
  "ClientFDStopListenAdv_addr s ip port fd rc =
     while_loop_waits s fd rc (\<lambda>w.
       rbind (svc_LookUpClientDB s ip port w) (\<lambda>found.
       case found of
         None \<Rightarrow> Inr (w, None)
       | Some p \<Rightarrow> rbind (stop_adv s p w) (\<lambda>w1. Inr (w1, Some p))))"

definition ClientFDStopListenAdv :: "sptr \<Rightarrow> cptr \<Rightarrow> int \<Rightarrow> int \<Rightarrow> world \<Rightarrow> world res" where
  "ClientFDStopListenAdv s p fd rc =
     while_loop_waits s fd rc (\<lambda>w.
       rbind (client_at w p) (\<lambda>c.
       rbind (svc_LookUpClientDB s (c_ip_addr c) (c_port_no c) w) (\<lambda>found.
       rbind (require (found = Some p) AssertFail) (\<lambda>_.
       stop_adv s p w))))"

section \<open>The loop\<close>

definition old_loop_start :: "sptr \<Rightarrow> world \<Rightarrow> world res" where
  "old_loop_start s w =
     rbind (svc_of s w) (\<lambda>v.
     rbind (FD_SET (udp_fd v) (backup_fd_set v)) (\<lambda>fds.
     upd_svc s (\<lambda>v. v\<lparr>max_fd := udp_fd v, backup_fd_set := fds\<rparr>) w))"

text \<open>
  The end of a connection: the client leaves the list, and the controller is asked to delete it.
\<close>

definition old_loop_remove :: "sptr \<Rightarrow> cptr \<Rightarrow> world \<Rightarrow> world res" where
  "old_loop_remove s p w =
     rbind (svc_RemoveClientFromDB s p w) (\<lambda>w1.
     rbind (UnSetState p TCP_CLIENT_STATE_MULTIPLEX_LISTEN w1) (\<lambda>w2.
     rbind (UnSetState p TCP_CLIENT_STATE_CONNECTED w2) (\<lambda>w3.
     rbind (GetMaxFdSimple s w3) (\<lambda>m.
     rbind (upd_svc s (\<lambda>v. v\<lparr>max_fd := m\<rparr>) w3) (\<lambda>w4.
     rbind (EnqueMsg s CTRLR_ACTION_TCP_CLIENT_DELETE p False w4) (deref_client p))))))"

definition old_loop_lost :: "sptr \<Rightarrow> cptr \<Rightarrow> world \<Rightarrow> world res" where
  "old_loop_lost s p w =
     rbind (server_at w s) (\<lambda>x.
     rbind (call_hook (client_disconnected x) (Disconnected s p) w) (\<lambda>w1.
     rbind (client_at w1 p) (\<lambda>c.
     rbind (upd_svc s (\<lambda>v. v\<lparr>backup_fd_set := removeAll (comm_fd c) (backup_fd_set v)\<rparr>) w1) (\<lambda>w2.
     rbind (Reference p w2) (old_loop_remove s p)))))"

text \<open>
  The walk over the clients, the iterator one node ahead: when the next node holds the client
  that was just removed, it was freed with it.
\<close>

function old_round ::
    "sptr \<Rightarrow> int list \<Rightarrow> (int \<times> byte list option) list \<Rightarrow> cptr list \<Rightarrow> world \<Rightarrow> world res" where
  "old_round s active_fd_set answers [] w = Inr w"
| "old_round s active_fd_set answers (p # ps) w =
     rbind (client_at w p) (\<lambda>c.
     if comm_fd c \<notin> set active_fd_set then old_round s active_fd_set answers ps w
     else
       (case take_answer (comm_fd c) answers of
          None \<Rightarrow> Inl Diverges
        | Some (r, answers') \<Rightarrow>
            if disconnected r
            then rbind (old_loop_lost s p w) (\<lambda>w1.
                 if ps \<noteq> [] \<and> hd ps = p then Inl UseAfterFree
                 else old_round s active_fd_set answers' (removeAll p ps) w1)
            else rbind (svc_recv s p r w) (old_round s active_fd_set answers' ps)))"
  by pat_completeness auto
termination
  by (relation "measure (\<lambda>(_, _, _, ps, _). length ps)") (auto simp: le_imp_less_Suc)

text \<open>The flag tells whether the loop then waits for the section of a caller.\<close>

definition old_thread_round ::
    "sptr \<Rightarrow> int list \<Rightarrow> (int \<times> byte list option) list \<Rightarrow> world \<Rightarrow> (world \<times> bool) res" where
  "old_thread_round s readable answers w =
     rbind (svc_of s w) (\<lambda>v.
     rbind (old_round s (select_fds v readable) answers (svc_db v) w) (\<lambda>w1.
     Inr (w1, udp_fd v \<in> set (select_fds v readable))))"

section \<open>References\<close>

lemma bal_ForceUnblockSelect:
  "ForceUnblockSelect fd rc w = (w1, sent) \<Longrightarrow> bal d w \<Longrightarrow> bal d w1"
  by (auto simp: ForceUnblockSelect_def split: if_splits)

lemma while_loop_waits_balance:
  assumes "bal d w" "\<And>w1. bal d w1 \<Longrightarrow> heap w1 = heap w \<Longrightarrow> servers w1 = servers w \<Longrightarrow> keeps d (f w1)"
  shows "keeps d (while_loop_waits s fd rc f w)"
proof -
  obtain w1 sent where w1: "ForceUnblockSelect fd rc w = (w1, sent)" by (metis prod.exhaust)
  then have "bal d w1" "heap w1 = heap w" "servers w1 = servers w"
    using bal_ForceUnblockSelect [OF w1 assms(1)]
    by (auto simp: ForceUnblockSelect_def said_def log_event_def split: if_splits)
  then have "keeps d (f w1)" by (rule assms(2))
  then show ?thesis
    by (auto simp: while_loop_waits_def w1 intro!: steps balance)
qed

lemma start_adv_balance [balance]:
  assumes "bal d w"
  shows "keeps d (ClientFDStartListenAdv s p fd rc w)"
  unfolding ClientFDStartListenAdv_def
  by (rule while_loop_waits_balance [OF assms]) (intro steps balance svc_same; simp)

lemma stop_adv_balance:
  assumes "bal d w" "0 \<le> d p" "has in_svc s p w"
  shows "keeps d (stop_adv s p w)"
  unfolding stop_adv_def
  using assms by (intro steps balance) (auto dest: hasD)

lemma lookup_client_listed: "lookup_client w ip port ps = Inr (Some p) \<Longrightarrow> p \<in> set ps"
  by (induction ps) (auto simp: res_simps split: if_splits)

lemma svc_lookup_listed: "svc_LookUpClientDB s ip port w = Inr (Some p) \<Longrightarrow> has in_svc s p w"
  unfolding has_def
  by (auto simp: svc_LookUpClientDB_def svc_of_Inr res_simps in_svc_def dest: lookup_client_listed)

lemma ClientFDStopListenAdv_balance [balance]:
  assumes "bal d w" "0 \<le> d p"
  shows "keeps d (ClientFDStopListenAdv s p fd rc w)"
  unfolding ClientFDStopListenAdv_def
proof (rule while_loop_waits_balance [OF assms(1)], intro keeps_read)
  fix w1 c found u
  assume "bal d w1" "svc_LookUpClientDB s (c_ip_addr c) (c_port_no c) w1 = Inr found"
    "require (found = Some p) AssertFail = Inr u"
  then show "keeps d (stop_adv s p w1)"
    using assms(2) by (auto simp: require_eq_Inr intro!: stop_adv_balance intro: svc_lookup_listed)
qed

lemma call_hook_servers: "call_hook h e w = Inr w' \<Longrightarrow> servers w' = servers w"
  by (auto simp: call_hook_def log_event_def split: hook.splits)

lemma fds_in_svc:
  assumes "has in_svc s p w" "upd_svc t (\<lambda>v. v\<lparr>backup_fd_set := f v\<rparr>) w = Inr w'"
  shows "has in_svc s p w'"
proof -
  have "stays in_svc s p (upd_svc t (\<lambda>v. v\<lparr>backup_fd_set := f v\<rparr>) w)"
    unfolding upd_svc_def
    by (intro stays_reads stays_upd_server) (use assms(1) in \<open>auto simp: in_svc_def svc_of_Inr\<close>)
  from staysD [OF this assms(2)] show ?thesis .
qed

lemma old_loop_remove_balance [balance]:
  assumes "bal (d(p := d p + 1)) w" "0 \<le> d p" "has in_svc s p w"
  shows "keeps d (old_loop_remove s p w)"
  unfolding old_loop_remove_def
  using assms by (intro steps balance) (auto dest: hasD)

lemma old_loop_lost_balance:
  assumes "bal d w" "0 \<le> d p" "has in_svc s p w"
  shows "keeps d (old_loop_lost s p w)"
proof (rule keeps_intro)
  fix w' assume "old_loop_lost s p w = Inr w'"
  then obtain x :: server and w1 and c :: tcp_client and w2 w3 where
    w1: "call_hook (client_disconnected x) (Disconnected s p) w = Inr w1"
    and w2: "upd_svc s (\<lambda>v. v\<lparr>backup_fd_set := removeAll (comm_fd c) (backup_fd_set v)\<rparr>) w1 = Inr w2"
    and w3: "Reference p w2 = Inr w3" and w': "old_loop_remove s p w3 = Inr w'"
    unfolding old_loop_lost_def by (elim rbindE) (rule that)
  have "bal d w1" using keeps_outcome [OF hook_balance(1) w1] assms(1) .
  then have "bal d w2" using keeps_outcome [OF svc_balance(3) w2] by blast
  then have b: "bal (d(p := d p + 1)) w3" using keeps_outcome [OF Reference_balance w3] by blast
  have "has in_svc s p w2" 
    using fds_in_svc [OF _ w2] assms(3) has_servers [OF call_hook_servers [OF w1], of in_svc s p] by simp
  then have "has in_svc s p w3" using staysD [OF client_frames(4) w3] by blast
  with b assms(2) have "keeps d (old_loop_remove s p w3)" by (intro balance)
  from keeps_outcome [OF this w'] show "bal d w'" .
qed

section \<open>The wake-up socket is forgotten\<close>

lemma max_fd_loop_bound:
  assumes "max_fd_loop w ps m = Inr n" "m < k"
    and "\<And>p c. p \<in> set ps \<Longrightarrow> client_in w p = Some c \<Longrightarrow> comm_fd c < k"
  shows "n < k"
  using assms
proof (induction ps arbitrary: m)
  case (Cons p ps)
  from Cons.prems(1) obtain c where c: "client_in w p = Some c"
    and n: "max_fd_loop w ps (if m < comm_fd c then comm_fd c else m) = Inr n"
    by (auto elim!: rbindE)
  from c Cons.prems(3) [of p c] have "comm_fd c < k" by simp
  with Cons.prems have "(if m < comm_fd c then comm_fd c else m) < k" by simp
  then show ?case by (rule Cons.IH [OF n]) (rule Cons.prems(3), simp_all)
qed simp

lemma deaf_loop:
  assumes "server_at w s = Inr x" "client_svc x = Some v" "max_fd v < udp_fd v"
  shows "while_loop_waits s fd rc f w = Inl Diverges"
proof -
  obtain w1 sent where w1: "ForceUnblockSelect fd rc w = (w1, sent)" by (metis prod.exhaust)
  then have "servers w1 = servers w"
    by (auto simp: ForceUnblockSelect_def said_def log_event_def split: if_splits)
  then have "server_at w1 s = Inr x" using assms(1) by (simp add: server_at_Inr)
  then have "loop_wakes_up s w1 = Inr False"
    using assms(2,3) by (simp add: loop_wakes_up_def svc_of_def select_fds_def)
  then show ?thesis by (simp add: while_loop_waits_def w1)
qed

lemma max_fd_loop_cong: "client_in w' = client_in w \<Longrightarrow> max_fd_loop w' ps m = max_fd_loop w ps m"
  by (induction ps arbitrary: m) (auto simp: client_at_eq rbind_def split: option.splits sum.splits)

lemma upd_server_after:
  "upd_server s f w = Inr w' \<Longrightarrow> server_at w s = Inr x \<Longrightarrow>
   server_at w' s = Inr (f x) \<and> client_in w' = client_in w"
  by (auto simp: upd_server_def set_server_def server_at_Inr client_in_def fun_eq_iff)

lemma upd_svc_after:
  assumes "upd_svc s f w = Inr w'"
  shows "\<exists>x v. server_at w s = Inr x \<and> client_svc x = Some v \<and>
    server_at w' s = Inr (x\<lparr>client_svc := Some (f v)\<rparr>) \<and> client_in w' = client_in w"
  using assms upd_server_after unfolding upd_svc_Inr by blast

lemma call_hook_client_in: "call_hook h e w = Inr w' \<Longrightarrow> client_in w' = client_in w"
  by (auto simp: call_hook_def split: hook.splits)

lemma stop_adv_max_fd:
  assumes "stop_adv s p w = Inr w'"
  shows "\<exists>x v. server_at w' s = Inr x \<and> client_svc x = Some v \<and>
    max_fd_loop w' (svc_db v) 0 = Inr (max_fd v)"
proof -
  obtain w2 m w3 and c :: tcp_client and w4 and x :: server where m: "GetMaxFdSimple s w2 = Inr m"
    and w3: "upd_svc s (\<lambda>v. v\<lparr>max_fd := m\<rparr>) w2 = Inr w3"
    and w4: "upd_svc s (\<lambda>v. v\<lparr>backup_fd_set := removeAll (comm_fd c) (backup_fd_set v)\<rparr>) w3 = Inr w4"
    and w': "call_hook (client_disconnected x) (Disconnected s p) w4 = Inr w'"
    using assms unfolding stop_adv_def by (elim rbindE) (rule that)
  from upd_svc_after [OF w3] obtain x2 v where
    x2: "server_at w2 s = Inr x2" "client_svc x2 = Some v"
    and x3: "server_at w3 s = Inr (x2\<lparr>client_svc := Some (v\<lparr>max_fd := m\<rparr>)\<rparr>)"
    and c3: "client_in w3 = client_in w2" by blast
  from upd_svc_after [OF w4] x3 obtain v4 where
    "server_at w4 s = Inr (x2\<lparr>client_svc := Some v4\<rparr>)" "svc_db v4 = svc_db v" "max_fd v4 = m"
    and c4: "client_in w4 = client_in w3" by fastforce
  moreover have "server_at w' = server_at w4"
    using call_hook_servers [OF w'] by (auto simp: server_at_def fun_eq_iff)
  moreover have "max_fd_loop w' (svc_db v) 0 = Inr m"
    using m x2 max_fd_loop_cong [of w' w2] c3 c4 call_hook_client_in [OF w']
    by (simp add: GetMaxFdSimple_def svc_of_def)
  ultimately show ?thesis by auto
qed

end
