(* ===== verification/TcpSafety.thy ===== *)
theory TcpSafety
  imports TcpBalance
begin

text \<open>
  The balance of references through the rounds of the threads and the operations of the
  controller, the steps of a server, and what holds in every state they reach.
\<close>

section \<open>Rounds of the threads\<close>

lemma svc_recv_balance [balance]: "bal d w \<Longrightarrow> keeps d (svc_recv s p r w)"
  unfolding svc_recv_def by (intro steps balance)

lemma svc_round_balance [balance]: "bal d w \<Longrightarrow> keeps d (svc_round s fds answers ps w)"
proof (induction s fds answers ps w rule: svc_round.induct)
  case (2 s fds answers p ps w)
  show ?case
    unfolding svc_round.simps
  proof (rule keeps_read, rule keeps_if)
    fix c
    assume c: "client_at w p = Inr c" "\<not> comm_fd c \<notin> set fds"
    show "keeps d (case take_answer (comm_fd c) answers of None \<Rightarrow> Inl Diverges
       | Some (r, answers') \<Rightarrow> rbind (svc_recv s p r w) (svc_round s fds answers' ps))"
    proof (cases "take_answer (comm_fd c) answers")
      case (Some ra)
      obtain r as where "ra = (r, as)" by (cases ra)
      then show ?thesis
        using Some 2(2) [OF c Some _] 2(3) by (auto intro: steps balance)
    qed (simp add: balance)
  qed (use 2 in blast)
qed (simp add: balance)

lemma svc_thread_round_balance [balance]:
  "bal d w \<Longrightarrow> keeps d (svc_thread_round s readable answers w)"
  unfolding svc_thread_round_def by (intro steps balance)

lemma new_client_bal:
  assumes "bal d w" "thr (f (raw w)) = 0" "0 \<le> ref_count (f (raw w))" "new_client f w = (p, w')"
  shows "bal d w'" "client_in w' p = Some (f (raw w))" "servers w' = servers w"
proof -
  have w': "p = length (heap w)" "w' = w\<lparr>heap := heap w @ [Some (f (raw w))]\<rparr>"
    using assms(4) by (auto simp: new_client_def)
  have c: "client_in w' q = (if q = p then Some (f (raw w)) else client_in w q)" for q
    by (auto simp: client_in_def w' nth_append)
  then show "client_in w' p = Some (f (raw w))" by simp
  show "servers w' = servers w" by (simp add: w')
  then have l: "listed w' = listed w" by (simp add: listed_def fun_eq_iff)
  have "client_in w p = None" by (simp add: client_in_def w')
  then have p: "listed w p = 0 \<and> d p \<le> 0" by (rule bal_dead [OF assms(1)])
  show "bal d w'"
    unfolding bal_def
  proof (intro conjI allI)
    show "thr (raw w') = 0" using bal_raw [OF assms(1)] by (simp add: w'(2))
    fix q
    have "case client_in w q of None \<Rightarrow> listed w q = 0 \<and> d q \<le> 0
      | Some c \<Rightarrow> int (listed w q) + int (thr c) + d q \<le> ref_count c"
      using assms(1) by (simp add: bal_def)
    then show "case client_in w' q of None \<Rightarrow> listed w' q = 0 \<and> d q \<le> 0
      | Some c \<Rightarrow> int (listed w' q) + int (thr c) + d q \<le> ref_count c"
      using p assms(2,3) unfolding c l by (cases "q = p") simp_all
  qed
qed

lemma SendMsg_balance [balance]:
  assumes "bal d w"
  shows "keeps_pair d (SendMsg p msg rc w)"
proof -
  have "bal d (set_client p (Some (c\<lparr>conn := k\<rparr>)) w1)" if "client_in w1 p = Some c" "bal d w1" for c k w1
    by (rule bal_set_client [OF that(2,1)]) (simp_all add: thr_def)
  then show ?thesis
    using assms by (auto simp: SendMsg_def Let_def keeps_pair_def rbind_eq_Inr split: if_splits)
qed

lemma new_TcpClient:
  assumes "bal d w" "TcpClient w = (p, w')"
  shows "bal d w'" "client_in w' p = Some ((raw w)\<lparr>c_ip_addr := 0, c_port_no := 0, ref_count := 0\<rparr>)"
    "servers w' = servers w"
  using new_client_bal [OF assms(1) _ _ assms(2) [unfolded TcpClient_def]] bal_raw [OF assms(1)]
  by (simp_all add: thr_def)

lemma accept_round_balance [balance]:
  assumes "bal d w"
  shows "keeps d (accept_round s fd ip port rc w)"
proof -
  obtain p w1 where n: "TcpClient w = (p, w1)" by (cases "TcpClient w")
  have u: "keeps d (upd_client p (\<lambda>c. c\<lparr>comm_fd := fd, c_ip_addr := ip, c_port_no := port,
      c_ctrlr := cs, server_ip_addr := a, server_port_no := b\<rparr>) w1)" for cs a b
    by (rule keeps_upd_client [OF new_TcpClient(1) [OF assms n]]) (simp add: thr_def)
  show ?thesis
    unfolding accept_round_def n prod.case
    apply (rule keeps_read, intro keeps_if)
      apply (rule balance, simp add: assms)
     apply (rule balance, simp add: assms)
    apply (rule keeps_read, rule keeps_then, rule u)
    apply (rule keeps_then, rule balance, assumption)+
    apply (unfold prod.case)
    by (intro steps balance)
qed

lemma acceptor_balance [balance]:
  assumes "bal d w"
  shows "keeps d (upd_acc s f w)" "keeps d (acc_Stop s w)"
    "keeps d (StartTcpNewConnectionAcceptorThread s b w)"
proof -
  have u: "keeps d (upd_acc s f w)" if "bal d w" for f w
    unfolding upd_acc_def
    by (intro keeps_reads keeps_upd_server) (use that in \<open>simp_all add: holds_simps\<close>)
  show "keeps d (upd_acc s f w)" by (rule u) (rule assms)
  have stop: "keeps d (StopTcpNewConnectionAcceptorThread s w)" if "bal d w" for w
    unfolding StopTcpNewConnectionAcceptorThread_def
    using that u by (intro keeps_reads) (auto split: option.splits thread_cell.splits intro: balance)
  show "keeps d (acc_Stop s w)"
    unfolding acc_Stop_def
    apply (rule keeps_then, rule stop, rule assms)
    apply (rule keeps_read, rule keeps_then, rule u, simp)
    by (intro steps balance)
  show "keeps d (StartTcpNewConnectionAcceptorThread s b w)"
    unfolding StartTcpNewConnectionAcceptorThread_def
    apply (intro keeps_reads)
    apply (rule keeps_then, rule u, rule assms)
    by (intro steps balance)
qed


section \<open>The controller\<close>

lemma keeps_fewer:
  assumes "bal d w" "server_at w s = Inr x"
    and "\<And>p. holds_client p (Some (f x)) \<le> holds_client p (Some x)"
  shows "keeps d (upd_server s f w)"
proof (rule keeps_intro)
  fix w'
  assume w': "upd_server s f w = Inr w'"
  let ?d = "\<lambda>p. d p + int (holds_client p (Some x)) - int (holds_client p (Some (f x)))"
  have "keeps ?d (upd_server s f w)"
  proof (rule keeps_set_server [OF assms(1,2)])
    fix p assume "client_in w p = None"
    then show "holds_client p (Some (f x)) = 0"
      using dead_not_listed [OF assms(1,2)] assms(3) [of p] by simp
  qed simp
  then have "bal ?d w'" using w' by (rule keeps_outcome)
  then show "bal d w'" by (rule bal_mono) (use assms(3) in simp)
qed

lemma CreateMultiThreadedClient_balance [balance]: "bal d w \<Longrightarrow> keeps d (CreateMultiThreadedClient p w)"
  unfolding CreateMultiThreadedClient_def by (intro steps balance)

lemma ProcessNewClient_balance [balance]: "bal d w \<Longrightarrow> keeps d (ProcessNewClient s p w)"
  unfolding ProcessNewClient_def by (intro steps balance)

lemma listen_active_balance [balance]:
  assumes "bal d w" "has connectpending s p w"
  shows "keeps d (listen_active s p w)"
  unfolding listen_active_def ClientFDStartListen_def
proof (rule keeps_then)
  let ?f = "\<lambda>x. x\<lparr>connectpending := removeAll p (connectpending x), established := established x @ [p]\<rparr>"
  show "keeps d (upd_server s ?f w)"
  proof (cases "server_at w s")
    case (Inr x)
    then have "0 < count_list (connectpending x) p"
      using hasD [OF assms(2)] by (intro count_list_pos) auto
    then show ?thesis
      by (intro keeps_fewer [OF assms(1) Inr]) (auto simp: holds_simps count_list_removeAll)
  qed (simp add: upd_server_def balance)
  show "keeps d (rbind (IsBitSet s 16 w1)
      (\<lambda>mt. if mt then CreateMultiThreadedClient p w1 else ClientFDStartListenSimple s p w1))"
    if "bal d w1" for w1
    using that by (intro steps balance)
qed

lemma TryClientConnect_servers:
  assumes "TryClientConnect p again a w = Inr (w', rc)"
  shows "servers w' = servers w"
proof -
  have h: "servers w' = servers w" if "call_if_set h e w = Inr w'" for h e w w'
    using that by (auto simp: call_if_set_def call_hook_def res_simps split: hook.splits if_splits)
  have "servers w' = servers w" if "now_connected p port w = Inr w'" for port w w'
    using that unfolding now_connected_def
    by (auto elim!: rbindE dest!: h upd_client_servers client_servers)
  then show ?thesis
    using assms unfolding TryClientConnect_def
    by (elim rbindE) (auto split: if_splits elim!: rbindE dest!: upd_client_servers client_servers)
qed

lemma CreateActiveClient_balance [balance]:
  assumes "bal d w"
  shows "keeps d (CreateActiveClient s ip port a w)"
proof -
  obtain p w1 where n: "TcpClient w = (p, w1)" by (cases "TcpClient w")
  have first: "keeps d (upd_client p (\<lambda>c. c\<lparr>server_ip_addr := ip, server_port_no := port,
      c_ip_addr := si, c_port_no := 0, c_ctrlr := Some s\<rparr>) w1)" for si
    by (rule keeps_upd_client [OF new_TcpClient(1) [OF assms n]]) (simp add: thr_def)
  have alive: "\<exists>c. client_in w5 p = Some c" if "SetConnectionType p t w4 = Inr w5" for t w4 w5
    using that by (auto simp: SetConnectionType_def upd_client_def res_simps client_in_set)
  have entry: "keeps (d(p := d p - 1)) (upd_server s (\<lambda>x. x\<lparr>connectpending := connectpending x @ [p]\<rparr>) w5)"
    if e: "SetConnectionType p t w4 = Inr w5" "bal d w5" for t w4 w5
  proof (cases "server_at w5 s")
    case (Inr x)
    obtain c where c: "client_in w5 p = Some c" using alive [OF e(1)] by (elim exE)
    show ?thesis by (rule keeps_more [OF e(2) Inr c]) (simp add: holds_simps)
  qed (simp add: upd_server_def balance)
  have listed: "has connectpending s p w8"
    if "upd_server s (\<lambda>x. x\<lparr>connectpending := connectpending x @ [p]\<rparr>) w5 = Inr w6"
      "Reference p w6 = Inr w7" "TryClientConnect p True a w7 = Inr (w8, rc)" for w5 w6 w7 w8 rc
  proof -
    have "has connectpending s p w6"
      using that(1) by (auto simp: has_def upd_server_def res_simps server_at_set)
    then show ?thesis
      using that(2,3) by (metis has_servers client_servers(3) TryClientConnect_servers)
  qed
  show ?thesis
    unfolding CreateActiveClient_def n prod.case
    apply (rule keeps_read, rule keeps_then, rule first)
    apply (rule keeps_then, rule balance, assumption)+
    apply (rule keeps_then, erule entry, assumption)
    apply (rule keeps_then, erule Reference_back)
    apply (rule keeps_then, rule balance, assumption)
    apply (unfold prod.case)
    apply (rule keeps_if)
    by (rule balance, assumption, erule (2) listed, rule balance)
qed


text \<open>
  The flags on the way: an operation leaves a bit of a client as it is, if the client is still
  there.
\<close>

definition bit_stays :: "u32 \<Rightarrow> cptr \<Rightarrow> world \<Rightarrow> world res \<Rightarrow> bool" where
  "bit_stays b p w m \<longleftrightarrow>
     (\<forall>w' c'. m = Inr w' \<longrightarrow> client_in w' p = Some c' \<longrightarrow>
        (\<exists>c. client_in w p = Some c \<and> bit_set (c_state_flags c') b = bit_set (c_state_flags c) b))"

named_theorems bits \<open>operations that keep a bit\<close>

lemma bit_staysD:
  "bit_stays b p w m \<Longrightarrow> m = Inr w' \<Longrightarrow> client_in w' p = Some c' \<Longrightarrow>
   \<exists>c. client_in w p = Some c \<and> bit_set (c_state_flags c') b = bit_set (c_state_flags c) b"
  by (simp add: bit_stays_def)

lemma bit_stays_ends [bits]: "bit_stays b p w (Inr w)" "bit_stays b p w (Inl e)" "bit_stays b p w (Inr (said t w))"
  by (simp_all add: bit_stays_def)

lemma bit_stays_if [bits]: "bit_stays b p w m \<Longrightarrow> bit_stays b p w n \<Longrightarrow> bit_stays b p w (if k then m else n)"
  by simp

lemma bit_stays_cell [bits]:
  "bit_stays b p w m \<Longrightarrow> bit_stays b p w n \<Longrightarrow> bit_stays b p w k \<Longrightarrow>
   bit_stays b p w (case x of None \<Rightarrow> m | Some NoThread \<Rightarrow> n | Some Thread \<Rightarrow> k)"
  by (auto split: option.split thread_cell.split)

lemma bit_stays_then:
  "bit_stays b p w m \<Longrightarrow> (\<And>w1. bit_stays b p w1 (f w1)) \<Longrightarrow> bit_stays b p w (rbind m f)"
  unfolding bit_stays_def rbind_eq_Inr by metis

lemma bit_stays_read: "(\<And>x. bit_stays b p w (f x)) \<Longrightarrow> bit_stays b p w (rbind m f)"
  unfolding bit_stays_def rbind_eq_Inr by blast

lemmas bit_steps =
  bit_stays_read [where 'a = tcp_client] bit_stays_read [where 'a = server]
  bit_stays_read [where 'a = bool] bit_stays_read [where 'a = unit] bit_stays_read [where 'a = nat]
  bit_stays_read [where 'a = svc_mgr] bit_stays_read [where 'a = int]
  bit_stays_read [where 'a = "nat option"] bit_stays_read [where 'a = "nat list"]
  bit_stays_read [where 'a = "int list"] bit_stays_then

lemma bit_stays_upd_client:
  "(\<And>c. bit_set (c_state_flags (f c)) b = bit_set (c_state_flags c) b) \<Longrightarrow>
   bit_stays b p w (upd_client q f w)"
  by (auto simp: bit_stays_def upd_client_def res_simps client_in_set split: if_splits)

lemma client_bits [bits]:
  "bit_stays b p w (Reference q w)"
  "m AND b = 0 \<Longrightarrow> bit_stays b p w (SetState q m w)"
  "m AND b = 0 \<Longrightarrow> bit_stays b p w (UnSetState q m w)"
  "bit_stays b p w (upd_client q (\<lambda>c. c\<lparr>client_thread := t\<rparr>) w)"
  unfolding Reference_def SetState_def UnSetState_def
  by (rule bit_stays_upd_client; simp add: bit_or bit_andnot)+

lemma deref_bits [bits]: "bit_stays b p w (deref_client q w)"
proof -
  have "\<exists>c. client_in w p = Some c \<and> bit_set (c_state_flags c') b = bit_set (c_state_flags c) b"
    if "deref_client q w = Inr w'" "client_in w' p = Some c'" for w' c'
    using that
    by (auto simp: deref_client_def Dereference_def Let_def client_in_set elim!: rbindE
        split: if_splits dest!: Abort_result)
  then show ?thesis by (simp add: bit_stays_def)
qed

lemma server_bits [bits]: "bit_stays b p w (upd_server s f w)" "bit_stays b p w (set_db s db w)"
  by (auto simp: bit_stays_def set_db_def upd_server_def res_simps)

lemma svc_bits [bits]: "bit_stays b p w (upd_svc s f w)"
  unfolding upd_svc_def by (intro bit_steps bits)


lemma Reference_all_bits:
  assumes "foldl (\<lambda>m p. rbind m (Reference p)) (Inr w) ps = Inr w'" "client_in w' p = Some c'"
  shows "\<exists>c. client_in w p = Some c \<and> bit_set (c_state_flags c') b = bit_set (c_state_flags c) b"
  using assms
proof (induction ps arbitrary: w)
  case (Cons q ps)
  have e: "foldl (\<lambda>m p. rbind m (Reference p)) (Inl e) ps = Inl e" for e ps
    by (induction ps) simp_all
  obtain w1 where w1: "Reference q w = Inr w1"
    using Cons.prems(1) e by (cases "Reference q w") auto
  then obtain c1 where "client_in w1 p = Some c1"
    "bit_set (c_state_flags c') b = bit_set (c_state_flags c1) b"
    using Cons by auto
  then show ?case using bit_staysD [OF client_bits(1) w1] by auto
qed simp

lemma svc_thread_start_bits [bits]: "bit_stays b p w (svc_thread_start s w)"
proof -
  have pair: "bit_stays b p w (rbind (if off then Inr (w, l) else CopyAllClientsTolist s l w)
      (\<lambda>(w1, db). f w1 db))" if f: "\<And>w1 db. bit_stays b p w1 (f w1 db)" for off l f
    unfolding bit_stays_def
  proof (intro allI impI)
    fix w' c'
    assume run: "rbind (if off then Inr (w, l) else CopyAllClientsTolist s l w) (\<lambda>(w1, db). f w1 db) = Inr w'"
      and c': "client_in w' p = Some c'"
    obtain w1 db where w1: "(if off then Inr (w, l) else CopyAllClientsTolist s l w) = Inr (w1, db)"
      "f w1 db = Inr w'"
      using run by (auto simp: rbind_eq_Inr)
    obtain c1 where c1: "client_in w1 p = Some c1"
      "bit_set (c_state_flags c') b = bit_set (c_state_flags c1) b"
      using bit_staysD [OF f w1(2) c'] by auto
    have "\<exists>c. client_in w p = Some c \<and> bit_set (c_state_flags c1) b = bit_set (c_state_flags c) b"
    proof (cases off)
      case False
      then obtain db' where "foldl (\<lambda>m p. rbind m (Reference p)) (Inr w) db' = Inr w1"
        using w1(1) by (auto simp: CopyAllClientsTolist_def rbind_eq_Inr)
      then show ?thesis using c1(1) by (rule Reference_all_bits)
    qed (use w1(1) c1(1) in auto)
    then show "\<exists>c. client_in w p = Some c \<and> bit_set (c_state_flags c') b = bit_set (c_state_flags c) b"
      using c1(2) by simp
  qed
  show ?thesis
    unfolding svc_thread_start_def
    by (rule bit_stays_read, rule bit_stays_read, rule pair) (intro bit_steps bits)
qed

lemma stop_bits [bits]:
  "bit_stays b p w (StartTcpClientServiceManagerThread s w)"
  "bit_stays b p w (StopTcpClientServiceManagerThread s w)"
  "256 AND b = 0 \<Longrightarrow> bit_stays b p w (StopThread q w)"
  "bit_stays b p w (RemoveClientFromDB s q w)"
  "128 AND b = 0 \<Longrightarrow> bit_stays b p w (ClientFDStopListenSimple s q w)"
proof -
  show start: "bit_stays b p w (StartTcpClientServiceManagerThread s w)" for w
    unfolding StartTcpClientServiceManagerThread_def
    by (rule bit_stays_then, rule bits, rule bit_stays_then, rule bits, rule bits)
  show stop: "bit_stays b p w (StopTcpClientServiceManagerThread s w)" for w
    unfolding StopTcpClientServiceManagerThread_def
    by (intro bit_steps bits)
  show "bit_stays b p w (StopThread q w)" if "256 AND b = 0"
    using that unfolding StopThread_def by (intro bit_steps bits)
  show "bit_stays b p w (RemoveClientFromDB s q w)"
    unfolding RemoveClientFromDB_def by (intro bit_steps bits)
  show "bit_stays b p w (ClientFDStopListenSimple s q w)" if "128 AND b = 0"
    using that start stop
    unfolding ClientFDStopListenSimple_def svc_RemoveClientFromDB_def
    by (intro bit_steps bits)
qed


text \<open>
  Deleting a client drops the references of the lists that its flags name. \<open>due\<close> counts those that
  it drops without an entry: the lists that the flags name and that do not hold the client.
\<close>

definition flagged :: "u32 \<Rightarrow> (server \<Rightarrow> cptr list) \<Rightarrow> sptr \<Rightarrow> cptr \<Rightarrow> world \<Rightarrow> bool" where
  "flagged b g s p w \<longleftrightarrow>
     (\<forall>c. client_in w p = Some c \<longrightarrow> bit_set (c_state_flags c) b \<longrightarrow> has g s p w)"

definition active_listed :: "sptr \<Rightarrow> cptr \<Rightarrow> world \<Rightarrow> bool" where
  "active_listed s p w \<longleftrightarrow>
     (\<forall>c. client_in w p = Some c \<longrightarrow> bit_set (c_state_flags c) TCP_CLIENT_STATE_ACTIVE_OPENER \<longrightarrow>
        (if bit_set (c_state_flags c) TCP_CLIENT_STATE_CONNECTED then has established s p w
         else has connectpending s p w))"

definition due_flag :: "u32 \<Rightarrow> (server \<Rightarrow> cptr list) \<Rightarrow> sptr \<Rightarrow> cptr \<Rightarrow> world \<Rightarrow> int" where
  "due_flag b g s p w = of_bool (\<not> flagged b g s p w)"

definition due_active :: "sptr \<Rightarrow> cptr \<Rightarrow> world \<Rightarrow> int" where
  "due_active s p w = of_bool (\<not> active_listed s p w)"

definition due :: "sptr \<Rightarrow> cptr \<Rightarrow> world \<Rightarrow> int" where
  "due s p w =
     due_flag TCP_CLIENT_STATE_PASSIVE_OPENER in_db s p w +
     due_flag TCP_CLIENT_STATE_MULTIPLEX_LISTEN in_svc s p w + due_active s p w"

lemmas due_defs = due_def due_flag_def due_active_def

lemma due_range: "0 \<le> due_flag b g s p w" "0 \<le> due_active s p w" "0 \<le> due s p w"
  by (simp_all add: due_defs)

lemma due_dead: "client_in w p = None \<Longrightarrow> due s p w = 0" "client_in w p = None \<Longrightarrow> due_flag b g s p w = 0"
  by (simp_all add: due_defs flagged_def active_listed_def)

lemma due_flag_mono: "(flagged b g s p w \<Longrightarrow> flagged b g s p w') \<Longrightarrow> due_flag b g s p w' \<le> due_flag b g s p w"
  by (auto simp: due_flag_def)

lemma due_active_mono: "(active_listed s p w \<Longrightarrow> active_listed s p w') \<Longrightarrow> due_active s p w' \<le> due_active s p w"
  by (auto simp: due_active_def)

lemma flagged_step:
  assumes "flagged b g s p w" "m = Inr w'" "bit_stays b p w m" "has g s p w \<Longrightarrow> stays g s p m"
  shows "flagged b g s p w'"
  using assms unfolding flagged_def by (metis bit_staysD staysD)

lemma active_listed_step:
  assumes "active_listed s p w" "m = Inr w'" "bit_stays 16 p w m" "bit_stays 2 p w m"
    and "has connectpending s p w \<Longrightarrow> stays connectpending s p m"
    and "has established s p w \<Longrightarrow> stays established s p m"
  shows "active_listed s p w'"
  unfolding active_listed_def
proof (intro allI impI)
  fix c' assume c': "client_in w' p = Some c'" "bit_set (c_state_flags c') 16"
  then obtain c where c: "client_in w p = Some c" "bit_set (c_state_flags c) 16"
    using bit_staysD [OF assms(3,2)] by metis
  have "bit_set (c_state_flags c') 2 = bit_set (c_state_flags c) 2"
    using bit_staysD [OF assms(4,2) c'(1)] c(1) by auto
  then show "if bit_set (c_state_flags c') 2 then has established s p w' else has connectpending s p w'"
    using assms(1) c staysD [OF assms(5) assms(2)] staysD [OF assms(6) assms(2)] unfolding active_listed_def by auto
qed

lemma RemoveClientFromDB_frame:
  "has in_svc t q w \<Longrightarrow> stays in_svc t q (RemoveClientFromDB s p w)"
  "has connectpending t q w \<Longrightarrow> stays connectpending t q (RemoveClientFromDB s p w)"
  "has established t q w \<Longrightarrow> stays established t q (RemoveClientFromDB s p w)"
  unfolding RemoveClientFromDB_def set_db_def
  by (intro frame_steps frames stays_upd_server; simp add: in_svc_def)+

text \<open>The parts of a deletion, each with what it needs and what it leaves.\<close>

lemma keeps_mono: "keeps d m \<Longrightarrow> (\<And>p. d' p \<le> d p) \<Longrightarrow> keeps d' m"
  by (auto simp: keeps_def intro: bal_mono)

lemma keeps_shrink:
  assumes "bal d w" "\<And>x p. holds_client p (Some (f x)) \<le> holds_client p (Some x)"
  shows "keeps d (upd_server s f w)"
proof (cases "server_at w s")
  case (Inr x)
  show ?thesis by (rule keeps_fewer [OF assms(1) Inr]) (rule assms(2))
qed (simp add: upd_server_def balance)

text \<open>With a reference to spare, an entry may be dropped that is not there.\<close>

lemma RemoveClientFromDB_spare:
  assumes "bal (d(p := d p + 1)) w" "0 \<le> d p"
  shows "keeps d (RemoveClientFromDB s p w)"
  unfolding RemoveClientFromDB_def
proof (intro steps)
  fix db assume db: "db_of s w = Inr db"
  then obtain x where x: "server_at w s = Inr x" "client_db x = Some db" by (auto simp: db_of_Inr)
  have "keeps (d(p := d p + 1)) (upd_server s (\<lambda>x. x\<lparr>client_db := Some (removeAll p db)\<rparr>) w)"
    by (rule keeps_fewer [OF assms(1) x(1)]) (simp add: holds_simps x(2) count_list_removeAll)
  then show "keeps (d(p := d p + 1)) (set_db s (removeAll p db) w)" by (simp add: set_db_def)
qed (erule deref_after, rule assms(2))

lemma stop_listen_spare:
  assumes "bal (d(p := d p + 1)) w" "0 \<le> d p"
  shows "keeps d (ClientFDStopListenSimple s p w)"
proof -
  have "keeps D (upd_svc s (\<lambda>v. v\<lparr>svc_db := removeAll p (svc_db v)\<rparr>) w)" if "bal D w" for D w
  proof (rule keeps_svc)
    fix x v assume x: "server_at w s = Inr x" "client_svc x = Some v"
    show "keeps D (upd_server s (\<lambda>x. x\<lparr>client_svc := Some (v\<lparr>svc_db := removeAll p (svc_db v)\<rparr>)\<rparr>) w)"
      by (rule keeps_fewer [OF that x(1)]) (simp add: holds_simps x(2) count_list_removeAll)
  qed
  then have remove: "keeps d (svc_RemoveClientFromDB s p w)" if "bal (d(p := d p + 1)) w" for w
    unfolding svc_RemoveClientFromDB_def
    by (rule keeps_then) (use that assms(2) in \<open>auto intro: deref_after\<close>)
  show ?thesis
    unfolding ClientFDStopListenSimple_def
    apply (rule keeps_read, rule keeps_read, rule keeps_then)
     apply (rule keeps_if, rule balance, rule assms(1), rule balance, rule assms(1))
    apply (rule keeps_read, rule keeps_read, rule keeps_read)
    apply (rule keeps_then, erule remove)
    by (intro steps balance)
qed

lemma delete_active:
  assumes "bal (d(p := k)) w" "due_active s p w + e < k" "0 \<le> e"
  shows "keeps (d(p := e)) (rbind (IsStateSet p TCP_CLIENT_STATE_ACTIVE_OPENER w) (\<lambda>active.
     rbind (if active
            then rbind (IsStateSet p TCP_CLIENT_STATE_CONNECTED w) (\<lambda>connected.
                 rbind (upd_server s (\<lambda>x. if connected
                     then x\<lparr>established := removeAll p (established x)\<rparr>
                     else x\<lparr>connectpending := removeAll p (connectpending x)\<rparr>) w)
                   (deref_client p))
            else Inr w) (deref_client p)))"
proof (rule keeps_read, rule keeps_then)
  let ?d = "d(p := e + 1)"
  have low: "bal ?d w"
    by (rule bal_mono [OF assms(1)]) (use assms(2) due_range(2) [of s p w] in simp)
  fix active assume a: "IsStateSet p 16 w = Inr active"
  show "keeps ?d (if active
            then rbind (IsStateSet p 2 w) (\<lambda>connected.
                 rbind (upd_server s (\<lambda>x. if connected
                     then x\<lparr>established := removeAll p (established x)\<rparr>
                     else x\<lparr>connectpending := removeAll p (connectpending x)\<rparr>) w)
                   (deref_client p))
            else Inr w)"
  proof (rule keeps_if, rule keeps_read, rule keeps_then)
    fix connected assume act: active and k: "IsStateSet p 2 w = Inr connected"
    obtain c where c: "client_in w p = Some c" "bit_set (c_state_flags c) 16"
      "connected = bit_set (c_state_flags c) 2"
      using a k act by (auto simp: IsStateSet_def res_simps)
    let ?f = "\<lambda>x. if connected then x\<lparr>established := removeAll p (established x)\<rparr>
                else x\<lparr>connectpending := removeAll p (connectpending x)\<rparr>"
    show "keeps (d(p := e + 2)) (upd_server s ?f w)"
    proof (cases "active_listed s p w")
      case False
      have "keeps (d(p := k)) (upd_server s ?f w)"
        by (rule keeps_shrink [OF assms(1)]) (simp add: holds_simps count_list_removeAll)
      then show ?thesis
        by (rule keeps_mono) (use assms(2) False in \<open>simp add: due_active_def\<close>)
    next
      case True
      have l: "if connected then has established s p w else has connectpending s p w"
        using True c unfolding active_listed_def by simp
      show ?thesis
      proof (cases "server_at w s")
        case (Inr x)
        have "0 < count_list (if connected then established x else connectpending x) p"
          using l hasD [OF _ Inr] by (intro count_list_pos) (auto split: if_splits)
        then have "keeps (?d(p := ?d p + 1)) (upd_server s ?f w)"
          by (intro keeps_less [OF low Inr])
            (auto simp: holds_simps count_list_removeAll split: if_splits)
        then show ?thesis by (simp add: add.commute)
      qed (simp add: upd_server_def balance)
    qed
    show "keeps ?d (deref_client p w1)" if "bal (d(p := e + 2)) w1" for w1
      using deref_balance [OF that, of p] assms(3) by (simp add: add.commute)
  qed (rule balance, rule low)
  show "keeps (d(p := e)) (deref_client p w1)" if "bal ?d w1" for w1
    using deref_balance [OF that, of p] assms(3) by simp
qed


lemma when_passes:
  assumes "(if k then m else Inr w) = Inr w'" "k \<Longrightarrow> m = Inr w' \<Longrightarrow> P w'" "P w"
  shows "P w'"
  using assms by (cases k) auto

lemma delete_from_db:
  assumes "bal (d(p := k)) w" "due s p w + e \<le> k" "0 \<le> e"
    and "IsStateSet p TCP_CLIENT_STATE_PASSIVE_OPENER w = Inr b"
    and "(if b then RemoveClientFromDB s p w else Inr w) = Inr w'"
  shows "\<exists>k'. bal (d(p := k')) w' \<and>
    due_flag TCP_CLIENT_STATE_MULTIPLEX_LISTEN in_svc s p w' + due_active s p w' + e \<le> k'"
proof (rule when_passes [OF assms(5)])
  assume b: b and m: "RemoveClientFromDB s p w = Inr w'"
  obtain c where c: "client_in w p = Some c" "bit_set (c_state_flags c) 8"
    using assms(4) b by (auto simp: IsStateSet_def res_simps)
  let ?db = "due_flag 8 in_db s p w"
  have k: "?db \<le> k" using assms(2,3) due_range(1,2) unfolding due_def by (smt (verit))
  have "keeps (d(p := k - ?db)) (RemoveClientFromDB s p w)"
  proof (cases "flagged 8 in_db s p w")
    case True
    then have "has in_db s p w" using c by (auto simp: flagged_def)
    then have "keeps (d(p := k)) (RemoveClientFromDB s p w)"
      using assms(1) k True by (intro balance) (auto simp: due_flag_def dest: hasD)
    then show ?thesis using True by (simp add: due_flag_def)
  next
    case False
    then show ?thesis
      using RemoveClientFromDB_spare [of "d(p := k - 1)" p w s] assms(1) k by (simp add: due_flag_def)
  qed
  then have "bal (d(p := k - ?db)) w'" using m by (rule keeps_outcome)
  moreover have "due_flag 128 in_svc s p w' \<le> due_flag 128 in_svc s p w"
    by (rule due_flag_mono, erule flagged_step [OF _ m stop_bits(4) RemoveClientFromDB_frame(1)])
  moreover have "due_active s p w' \<le> due_active s p w"
    by (rule due_active_mono, erule active_listed_step [OF _ m stop_bits(4) stop_bits(4)])
      (simp_all add: RemoveClientFromDB_frame)
  ultimately show "\<exists>k'. bal (d(p := k')) w' \<and>
      due_flag 128 in_svc s p w' + due_active s p w' + e \<le> k'"
    using assms(2) unfolding due_def by (intro exI [of _ "k - ?db"]) linarith
next
  show "\<exists>k'. bal (d(p := k')) w \<and> due_flag 128 in_svc s p w + due_active s p w + e \<le> k'"
    using assms(1,2) due_range(1) unfolding due_def by (smt (verit))
qed

lemma delete_from_svc:
  assumes "bal (d(p := k)) w"
    and "due_flag TCP_CLIENT_STATE_MULTIPLEX_LISTEN in_svc s p w + due_active s p w + e \<le> k" "0 \<le> e"
    and "IsStateSet p TCP_CLIENT_STATE_MULTIPLEX_LISTEN w = Inr b"
    and "(if b then ClientFDStopListenSimple s p w else Inr w) = Inr w'"
  shows "\<exists>k'. bal (d(p := k')) w' \<and> due_active s p w' + e \<le> k'"
proof (rule when_passes [OF assms(5)])
  assume b: b and m: "ClientFDStopListenSimple s p w = Inr w'"
  obtain c where c: "client_in w p = Some c" "bit_set (c_state_flags c) 128"
    using assms(4) b by (auto simp: IsStateSet_def res_simps)
  let ?svc = "due_flag 128 in_svc s p w"
  have k: "?svc \<le> k" using assms(2,3) due_range(2) by (smt (verit))
  have "keeps (d(p := k - ?svc)) (ClientFDStopListenSimple s p w)"
  proof (cases "flagged 128 in_svc s p w")
    case True
    then have "has in_svc s p w" using c by (auto simp: flagged_def)
    then have "keeps (d(p := k)) (ClientFDStopListenSimple s p w)"
      using assms(1) k True by (intro balance) (auto simp: due_flag_def)
    then show ?thesis using True by (simp add: due_flag_def)
  next
    case False
    then show ?thesis
      using stop_listen_spare [of "d(p := k - 1)" p w s] assms(1) k by (simp add: due_flag_def)
  qed
  then have "bal (d(p := k - ?svc)) w'" using m by (rule keeps_outcome)
  moreover have "due_active s p w' \<le> due_active s p w"
    by (rule due_active_mono, erule active_listed_step [OF _ m]) (simp_all add: bits frames)
  ultimately show "\<exists>k'. bal (d(p := k')) w' \<and> due_active s p w' + e \<le> k'"
    using assms(2) by (intro exI [of _ "k - ?svc"]) linarith
next
  show "\<exists>k'. bal (d(p := k')) w \<and> due_active s p w + e \<le> k'"
    using assms(1,2) due_range(1) by (smt (verit))
qed

lemma delete_thread:
  assumes "bal (d(p := k)) w" "due_active s p w + e \<le> k" "0 \<le> e"
    and "(if b then StopThread p w else Inr w) = Inr w'"
  shows "bal (d(p := k)) w' \<and> due_active s p w' + e \<le> k"
proof (rule when_passes [OF assms(4)])
  assume m: "StopThread p w = Inr w'"
  have "due_active s p w' \<le> due_active s p w"
    by (rule due_active_mono, erule active_listed_step [OF _ m]) (simp_all add: bits frames)
  moreover have "keeps (d(p := k)) (StopThread p w)"
    using assms(1-3) due_range(2) [of s p w] by (intro balance) simp_all
  ultimately show "bal (d(p := k)) w' \<and> due_active s p w' + e \<le> k"
    using keeps_outcome [OF _ m] assms(2) by (auto intro: order_trans)
qed (intro conjI assms)

lemma Reference_due:
  assumes "Reference p w = Inr w'"
  shows "due s p w' \<le> due s p w"
  unfolding due_def
proof (intro add_mono due_flag_mono due_active_mono)
  note f = flagged_step [OF _ assms client_bits(1) client_frames(4)]
  show "flagged 8 in_db s p w \<Longrightarrow> flagged 8 in_db s p w'"
    "flagged 128 in_svc s p w \<Longrightarrow> flagged 128 in_svc s p w'" by (erule f, assumption)+
  show "active_listed s p w \<Longrightarrow> active_listed s p w'"
    by (erule active_listed_step [OF _ assms client_bits(1) client_bits(1) client_frames(4) client_frames(4)])
qed

lemma ProcessClientDelete_spare:
  assumes "bal (d(p := d p + due s p w)) w" "0 \<le> d p"
  shows "keeps d (ProcessClientDelete s p w)"
  unfolding ProcessClientDelete_def
  apply (rule keeps_then, rule Reference_balance, rule assms(1))
  apply (rule keeps_read, rule keeps_read, rule keeps_read)
  apply (rule keeps_read, rule keeps_read, rule keeps_read)
  subgoal premises w for w1 k w2 mx w3 c w4
  proof -
    let ?k = "d p + due s p w + 1" and ?e = "d p + 1"
    have b1: "bal (d(p := ?k)) w1" using w(2) by simp
    have e: "0 \<le> ?e" using assms(2) by simp
    have "due s p w1 + ?e \<le> ?k" using Reference_due [OF w(1), of s] by simp
    then obtain k2 where 2: "bal (d(p := k2)) w2"
      "due_flag 128 in_svc s p w2 + due_active s p w2 + ?e \<le> k2"
      using delete_from_db [OF b1 _ e w(3,4)] by blast
    obtain k3 where 3: "bal (d(p := k3)) w3" "due_active s p w3 + ?e \<le> k3"
      using delete_from_svc [OF 2 e w(5,6)] by blast
    have 4: "bal (d(p := k3)) w4" "due_active s p w4 + ?e \<le> k3"
      using delete_thread [OF 3 e w(8)] by blast+
    show ?thesis
      using delete_active [OF 4(1), of s "d p"] 4(2) assms(2) by simp
  qed
  done


section \<open>Stopping\<close>

text \<open>The loops that empty a list: what holds of the nodes that are left and of the world.\<close>

lemma purge_loop_inv:
  assumes "\<And>p ps w w'. I (p # ps) w \<Longrightarrow> visit p w = Inr w' \<Longrightarrow> I (removeAll p ps) w'"
  shows "purge_loop visit ps w = Inr w' \<Longrightarrow> I ps w \<Longrightarrow> I [] w'"
proof (induction ps arbitrary: w rule: length_induct)
  case (1 qs)
  show ?case
  proof (cases qs)
    case (Cons p ps)
    then obtain w1 where w1: "visit p w = Inr w1" "purge_loop visit (removeAll p ps) w1 = Inr w'"
      using 1(2) by (auto simp: rbind_eq_Inr split: if_splits)
    have "length (removeAll p ps) < length qs" by (simp add: Cons le_imp_less_Suc)
    then show ?thesis
      using 1(1) assms [OF 1(3) [unfolded Cons] w1(1)] w1(2) by blast
  qed (use 1 in simp)
qed

definition reads :: "(server \<Rightarrow> cptr list) \<Rightarrow> sptr \<Rightarrow> cptr list \<Rightarrow> world \<Rightarrow> bool" where
  "reads g s ps w \<longleftrightarrow> (\<forall>x. server_at w s = Inr x \<longrightarrow> g x = ps)"

lemma reads_servers: "servers w' = servers w \<Longrightarrow> reads g s ps w \<Longrightarrow> reads g s ps w'"
  by (simp add: reads_def server_at_def)

lemma reads_upd:
  "upd_server s f w = Inr w' \<Longrightarrow> reads g s ps w \<Longrightarrow> (\<And>x. g x = ps \<Longrightarrow> g (f x) = qs) \<Longrightarrow> reads g s qs w'"
  by (auto simp: reads_def upd_server_def res_simps server_at_set)

lemma reads_has: "reads g s ps w \<Longrightarrow> p \<in> set ps \<Longrightarrow> has g s p w"
  by (simp add: reads_def has_def)

lemma svc_purge_step:
  assumes "bal d w \<and> reads in_svc s (p # ps) w" "svc_purge_one s p w = Inr w'" "\<forall>q. 0 \<le> d q"
  shows "bal d w' \<and> reads in_svc s (removeAll p ps) w'"
proof -
  obtain w1 w2 where w1: "upd_svc s (\<lambda>v. v\<lparr>svc_db := removeAll p (svc_db v)\<rparr>) w = Inr w1"
    and w2: "UnSetState p 128 w1 = Inr w2" "deref_client p w2 = Inr w'"
    using assms(2) unfolding svc_purge_one_def by (elim rbindE)
  have "keeps (d(p := d p + 1)) (upd_svc s (\<lambda>v. v\<lparr>svc_db := removeAll p (svc_db v)\<rparr>) w)"
    using assms(1) by (intro svc_less) (auto simp: reads_def)
  from keeps_outcome [OF plain_balance(2) [OF keeps_outcome [OF this w1]] w2(1)]
  have "keeps d (deref_client p w2)" by (rule deref_after) (use assms(3) in simp)
  then have "bal d w'" using w2(2) by (rule keeps_outcome)
  moreover have "reads in_svc s (removeAll p ps) w1"
    using w1 assms(1) unfolding upd_svc_Inr
    by (auto simp: reads_def upd_server_def res_simps server_at_set in_svc_def)
  ultimately show ?thesis
    using reads_servers [OF deref_client_servers [OF w2(2)]]
      reads_servers [OF client_servers(2) [OF w2(1)]] by blast
qed

lemma svc_Purge_balance [balance]:
  assumes "bal d w" "\<forall>q. 0 \<le> d q"
  shows "keeps d (svc_Purge s w)"
  unfolding svc_Purge_def
proof (intro keeps_reads keeps_intro)
  fix v w' assume v: "svc_of s w = Inr v" and run: "purge_loop (svc_purge_one s) (svc_db v) w = Inr w'"
  have "bal d w' \<and> reads in_svc s [] w'"
    by (rule purge_loop_inv [OF _ run], erule svc_purge_step, assumption, rule assms(2))
      (use v assms(1) in \<open>auto simp: reads_def in_svc_def svc_of_Inr\<close>)
  then show "bal d w'" by blast
qed

lemma db_purge_step:
  assumes "bal d w \<and> reads in_db s (p # ps) w" "purge_one s p w = Inr w'" "\<forall>q. 0 \<le> d q"
  shows "bal d w' \<and> reads in_db s (removeAll p ps) w'"
proof -
  obtain c :: tcp_client and w1 where w1: "(if client_thread c then StopThread p w else Inr w) = Inr w1"
    and w': "RemoveClientFromDB s p w1 = Inr w'"
    using assms(2) unfolding purge_one_def by (elim rbindE) (blast intro: that)
  have b1: "bal d w1" "reads in_db s (p # ps) w1"
    using assms w1 keeps_outcome [OF StopThread_balance] reads_servers [OF thread_servers(2)]
    by (auto split: if_splits)
  then have "keeps d (RemoveClientFromDB s p w1)"
    using assms(3) by (intro balance) (auto simp: reads_def)
  from keeps_outcome [OF this w'] have "bal d w'" .
  obtain db w2 where w2: "db_of s w1 = Inr db" "set_db s (removeAll p db) w1 = Inr w2"
    "deref_client p w2 = Inr w'"
    using w' unfolding RemoveClientFromDB_def by (elim rbindE) (rule that)
  then have "reads in_db s (removeAll p ps) w2"
    using b1(2) by (auto simp: reads_def db_of_Inr set_db_def upd_server_def res_simps server_at_set in_db_def)
  then show ?thesis
    using \<open>bal d w'\<close> reads_servers [OF deref_client_servers [OF w2(3)]] by blast
qed

lemma Purge_balance [balance]:
  assumes "bal d w" "\<forall>q. 0 \<le> d q"
  shows "keeps d (Purge s w)"
  unfolding Purge_def
proof (intro keeps_reads keeps_intro)
  fix db w' assume db: "db_of s w = Inr db" and run: "purge_loop (purge_one s) db w = Inr w'"
  have "bal d w' \<and> reads in_db s [] w'"
    by (rule purge_loop_inv [OF _ run], erule db_purge_step, assumption, rule assms(2))
      (use db assms(1) in \<open>auto simp: reads_def in_db_def db_of_Inr\<close>)
  then show "bal d w'" by blast
qed

lemma pop_list:
  assumes "bal d w" "reads g s (p # ps) w" "0 \<le> d p"
    and "\<And>x q. g x = p # ps \<Longrightarrow> holds_client q (Some x) = holds_client q (Some (f x)) + of_bool (q = p)"
    and "upd_server s f w = Inr w1" "deref_client p w1 = Inr w'"
  shows "bal d w'"
proof -
  obtain x where x: "server_at w s = Inr x" "g x = p # ps"
    using assms(2,5) by (auto simp: reads_def upd_server_def res_simps)
  have "keeps (d(p := d p + 1)) (upd_server s f w)"
    by (rule keeps_less [OF assms(1) x(1)]) (use assms(4) [OF x(2)] in auto)
  from deref_after [OF keeps_outcome [OF this assms(5)] assms(3)] show ?thesis
    using assms(6) by (rule keeps_outcome)
qed

lemma stop_pending_balance:
  assumes "stop_pending s ps w = Inr w'" "bal d w" "\<forall>q. 0 \<le> d q" "reads connectpending s ps w"
  shows "bal d w'"
  using assms
proof (induction ps arbitrary: w)
  case (Cons p ps)
  obtain b w1 w2 w3 where w1: "StopConnectorThread p w = Inr w1"
    and w2: "upd_server s (\<lambda>x. x\<lparr>connectpending := ps\<rparr>) w1 = Inr w2" "deref_client p w2 = Inr w3"
    and w3: "stop_pending s ps w3 = Inr w'"
    using Cons.prems(1) by (auto elim!: rbindE)
  have r1: "reads connectpending s (p # ps) w1"
    using reads_servers [OF thread_servers(3) [OF w1]] Cons.prems(4) by blast
  have b1: "bal d w1" using keeps_outcome [OF StopConnectorThread_balance w1] Cons.prems(2,3) by blast
  have "bal d w3"
    by (rule pop_list [OF b1 r1 _ _ w2]) (use Cons.prems(3) in \<open>auto simp: holds_simps\<close>)
  moreover have "reads connectpending s ps w3"
    using reads_upd [OF w2(1) r1] reads_servers [OF deref_client_servers [OF w2(2)]] by simp
  ultimately show ?case using Cons.IH w3 Cons.prems(3) by blast
qed simp

lemma stop_established_balance:
  assumes "stop_established s ps w = Inr w'" "bal d w" "\<forall>q. 0 \<le> d q" "reads established s ps w"
  shows "bal d w'"
  using assms
proof (induction ps arbitrary: w)
  case (Cons p ps)
  obtain b w1 w2 w3 where w1: "(if b then StopThread p w else Inr w) = Inr w1"
    and w2: "upd_server s (\<lambda>x. x\<lparr>established := ps\<rparr>) w1 = Inr w2" "deref_client p w2 = Inr w3"
    and w3: "stop_established s ps w3 = Inr w'"
    using Cons.prems(1) by (auto elim!: rbindE)
  have b1: "bal d w1" "reads established s (p # ps) w1"
    using w1 Cons.prems(2-4) keeps_outcome [OF StopThread_balance] reads_servers [OF thread_servers(2)]
    by (auto split: if_splits)
  have "bal d w3"
    by (rule pop_list [OF b1 _ _ w2]) (use Cons.prems(3) in \<open>auto simp: holds_simps\<close>)
  moreover have "reads established s ps w3"
    using reads_upd [OF w2(1) b1(2)] reads_servers [OF deref_client_servers [OF w2(2)]] by simp
  ultimately show ?case using Cons.IH w3 Cons.prems(3) by blast
qed simp


lemma field_balance [balance]:
  assumes "bal d w"
  shows "keeps d (upd_server s (\<lambda>x. x\<lparr>new_conn_acc := a\<rparr>) w)"
    "keeps d (upd_server s (\<lambda>x. x\<lparr>client_svc := None\<rparr>) w)"
    "keeps d (upd_server s (\<lambda>x. x\<lparr>client_db := None\<rparr>) w)"
    "keeps d (upd_server s (\<lambda>x. x\<lparr>msgQ_op_thread := t\<rparr>) w)"
    "keeps d (upd_server s (\<lambda>x. x\<lparr>msgQ := q\<rparr>) w)"
    "keeps d (upd_server s (\<lambda>x. x\<lparr>s_msgd_type := mt\<rparr>) w)"
  by (rule keeps_shrink [OF assms]; simp add: holds_simps)+

lemma delete_db_balance [balance]: "bal d w \<Longrightarrow> keeps d (delete_db s w)"
  unfolding delete_db_def by (intro steps balance)

lemma delete_server_balance [balance]:
  assumes "bal d w"
  shows "keeps d (delete_server s w)"
  unfolding delete_server_def
proof (intro keeps_reads keeps_Inr)
  fix x u
  assume x: "server_at w s = Inr x" and r: "require (new_conn_acc x = None \<and> client_db x = None \<and>
    client_svc x = None \<and> connectpending x = [] \<and> established x = []) AssertFail = Inr u"
  show "bal d (set_server s None (said (''TcpServerController '' @ s_name x @ '' Stopped'' @ [NL]) w))"
    by (rule bal_set_server [of d _ s x])
      (use assms x r in \<open>auto simp: res_simps holds_simps\<close>)
qed

lemma svc_Stop_balance [balance]:
  assumes "bal d w" "\<forall>q. 0 \<le> d q"
  shows "keeps d (svc_Stop s w)"
proof -
  have u: "keeps d (upd_svc s (\<lambda>v. v\<lparr>udp_fd := 0\<rparr>) (log_event e w1))" if "bal d w1" for w1 e
    using that by (intro svc_same) simp_all
  show ?thesis
    unfolding svc_Stop_def
    apply (rule keeps_then, rule balance, rule assms)
    apply (rule keeps_read, rule keeps_then, erule u)
    using assms(2) by (intro steps balance)
qed

lemma StopServer_balance [balance]:
  assumes "bal d w" "\<forall>q. 0 \<le> d q"
  shows "keeps d (StopServer s w)"
  unfolding StopServer_def
  apply (rule keeps_read, rule keeps_then)
   apply (rule keeps_if, rule balance, rule assms)
   apply (rule keeps_then, rule balance, rule assms)
   apply (rule keeps_then, rule balance, assumption, rule balance, assumption)
  apply (rule keeps_read, rule keeps_then)
   apply (rule keeps_if, rule balance, assumption)
   apply (rule keeps_then, rule svc_Stop_balance, assumption, rule assms)
   apply (rule keeps_then, rule balance, assumption, rule balance, assumption)
  apply (rule keeps_then, rule Purge_balance, assumption, rule assms)
  apply (rule keeps_then, rule balance, assumption, rule keeps_read)
  apply (rule keeps_then, rule keeps_intro, erule stop_pending_balance, assumption, rule assms)
   apply (simp add: reads_def)
  apply (rule keeps_read)
  apply (rule keeps_then, rule keeps_intro, erule stop_established_balance, assumption, rule assms)
   apply (simp add: reads_def)
  by (rule keeps_then, rule balance, assumption, rule balance, assumption)

section \<open>Services of the controller\<close>

lemma service_balance [balance]:
  assumes "bal d w" "\<forall>q. 0 \<le> d q"
  shows "keeps d (Start s b w)" "keeps d (SetClientCreationMode s b w)"
    "keeps d (StopConnectionsAcceptorSvc s w)" "keeps d (StartConnectionsAcceptorSvc s a w)"
    "keeps d (StopClientSvcMgr s w)"
proof -
  show "keeps d (Start s b w)"
    using assms unfolding Start_def by (intro steps balance)
  show "keeps d (SetClientCreationMode s b w)"
    using assms unfolding SetClientCreationMode_def by (intro steps balance)
  show "keeps d (StopConnectionsAcceptorSvc s w)"
    using assms unfolding StopConnectionsAcceptorSvc_def by (intro steps balance)
  show "keeps d (StartConnectionsAcceptorSvc s a w)"
    using assms unfolding StartConnectionsAcceptorSvc_def by (intro steps balance)
  show "keeps d (StopClientSvcMgr s w)"
    using assms unfolding StopClientSvcMgr_def by (intro steps balance)
qed


lemma StartClientSvcMgr_balance [balance]:
  assumes "bal d w"
  shows "keeps d (StartClientSvcMgr s a w)"
proof -
  have u: "keeps d (upd_server s (\<lambda>x. x\<lparr>client_svc := Some v\<rparr>) w)"
    if "TcpClientServiceManager fd rc = Inr v" for v fd rc
    using that by (intro keeps_shrink [OF assms])
      (auto simp: TcpClientServiceManager_def holds_simps split: if_splits)
  show ?thesis
    unfolding StartClientSvcMgr_def
    apply (rule keeps_read, rule keeps_if, rule balance, rule assms)
    apply (rule keeps_read, rule keeps_then, erule u)
    by (intro steps balance)
qed

lemma TcpServerController_balance:
  assumes "TcpServerController ip port name a w = Inr (s, w')" "bal d w"
  shows "bal d w'"
proof -
  obtain x where x: "servers w' = servers w @ [Some x]" "holds_client p (Some x) = 0"
    and w': "client_in w' = client_in w" "raw w' = raw w" for p
    using assms(1)
    by (auto simp: TcpServerController_def TcpClientServiceManager_def res_simps Let_def holds_simps
        client_in_def fun_eq_iff split: if_splits)
  have l: "listed w' = listed w" by (simp add: listed_def fun_eq_iff x)
  show ?thesis using assms(2) unfolding bal_def w' l .
qed

section \<open>Messages\<close>

text \<open>
  The messages that are sent are single actions, or the registration of a client together with
  the way it is listened to. What a message takes from a list has to be in it.
\<close>

definition sent_codes :: "u32 list" where
  "sent_codes =
     [CTRLR_ACTION_TCP_CLIENT_DELETE, CTRLR_ACTION_TCP_CLIENT_RECONNECT,
      CTRLR_ACTION_TCP_CLIENT_PROCESS_NEW OR CTRLR_ACTION_TCP_CLIENT_MULTIPLEX_LISTEN,
      CTRLR_ACTION_TCP_CLIENT_PROCESS_NEW OR CTRLR_ACTION_TCP_CLIENT_CREATE_THREADED,
      CTRLR_ACTION_TCP_CLIENT_ACTIVE_CONNECT_SUCCESS,
      CTRLR_ACTION_TCP_CLIENT_MX_TO_MULTITHREADED, CTRLR_ACTION_TCP_CLIENT_MULTITHREADED_TO_MX]"

text \<open>The references that a message drops without an entry, or needs for an entry it makes.\<close>

definition msg_due :: "sptr \<Rightarrow> tcp_msg \<Rightarrow> world \<Rightarrow> int" where
  "msg_due s m w =
     (if m_code m \<in> {CTRLR_ACTION_TCP_CLIENT_DELETE, CTRLR_ACTION_TCP_CLIENT_RECONNECT}
      then due s (m_data m) w
      else if m_code m = CTRLR_ACTION_TCP_CLIENT_ACTIVE_CONNECT_SUCCESS
      then of_bool (\<not> has connectpending s (m_data m) w)
      else if m_code m = CTRLR_ACTION_TCP_CLIENT_MX_TO_MULTITHREADED
      then due_flag TCP_CLIENT_STATE_MULTIPLEX_LISTEN in_svc s (m_data m) w
      else 0)"

text \<open>The reference counter of a client has so many references beside its entries and threads.\<close>

definition spares :: "world \<Rightarrow> cptr \<Rightarrow> int \<Rightarrow> bool" where
  "spares w p n \<longleftrightarrow> (\<forall>c. client_in w p = Some c \<longrightarrow> int (listed w p) + int (thr c) + n \<le> ref_count c)"

definition msg_covered :: "sptr \<Rightarrow> tcp_msg \<Rightarrow> world \<Rightarrow> bool" where
  "msg_covered s m w \<longleftrightarrow> m_code m \<in> set sent_codes \<and> spares w (m_data m) (msg_due s m w)"

lemma spares_bal:
  assumes "refs_ok w" "spares w p n" "client_in w p = None \<longrightarrow> n \<le> 0"
  shows "bal ((\<lambda>_. 0)(p := n)) w"
  unfolding bal_def
proof (intro conjI allI)
  show "thr (raw w) = 0" by (rule bal_raw [OF assms(1)])
  fix q
  show "case client_in w q of None \<Rightarrow> listed w q = 0 \<and> ((\<lambda>_. 0)(p := n)) q \<le> 0
    | Some c \<Rightarrow> int (listed w q) + int (thr c) + ((\<lambda>_. 0)(p := n)) q \<le> ref_count c"
    using bal_dead [OF assms(1), of q] bal_alive [OF assms(1), of q] assms(2,3)
    by (auto simp: spares_def split: option.split)
qed

lemma delete_covered:
  assumes "refs_ok w" "spares w p (due s p w)"
  shows "keeps (\<lambda>_. 0) (ProcessClientDelete s p w)"
  using spares_bal [OF assms] due_dead(1) [of w p s] by (intro ProcessClientDelete_spare) simp_all

lemma reconnect_covered:
  assumes "refs_ok w" "spares w p (due s p w)"
  shows "keeps (\<lambda>_. 0) (msg_reconnect s p a w)"
  unfolding msg_reconnect_def
  by (rule keeps_read, rule keeps_then, rule delete_covered [OF assms]) (rule balance)

lemma multiplex_balance [balance]: "bal d w \<Longrightarrow> keeps d (msg_multiplex s p w)"
  unfolding msg_multiplex_def by (intro steps balance)

lemma create_threaded_balance [balance]: "bal d w \<Longrightarrow> keeps d (msg_create_threaded p w)"
  unfolding msg_create_threaded_def by (intro steps balance)

lemma connected_covered:
  assumes "refs_ok w" "spares w p (of_bool (\<not> has connectpending s p w))"
  shows "keeps (\<lambda>_. 0) (msg_connected s p w)"
proof (cases "has connectpending s p w")
  case True
  then show ?thesis
    using assms(1) unfolding msg_connected_def Let_def by (intro steps balance)
next
  case False
  have "keeps (\<lambda>_. 0) (listen_active s p w)" if "client_in w p = Some c" for c
    unfolding listen_active_def ClientFDStartListen_def
  proof (rule keeps_then)
    let ?f = "\<lambda>x. x\<lparr>connectpending := removeAll p (connectpending x), established := established x @ [p]\<rparr>"
    let ?d = "(\<lambda>_. 0)(p := 1::int)"
    have b: "bal ?d w" using spares_bal [OF assms(1,2)] that False by simp
    show "keeps (\<lambda>_. 0) (upd_server s ?f w)"
    proof (cases "server_at w s")
      case (Inr x)
      let ?e = "\<lambda>q. ?d q + int (holds_client q (Some x)) - int (holds_client q (Some (?f x)))"
      have "keeps ?e (upd_server s ?f w)"
        by (rule keeps_set_server [OF b Inr])
          (use that dead_not_listed [OF b Inr] in \<open>auto simp: holds_simps count_list_removeAll\<close>)
      then show ?thesis
        by (rule keeps_mono) (auto simp: holds_simps count_list_removeAll)
    qed (simp add: upd_server_def balance)
    show "keeps (\<lambda>_. 0) (rbind (IsBitSet s 16 w1)
        (\<lambda>mt. if mt then CreateMultiThreadedClient p w1 else ClientFDStartListenSimple s p w1))"
      if "refs_ok w1" for w1
      using that by (intro steps balance)
  qed
  then show ?thesis
    unfolding msg_connected_def Let_def by (intro keeps_reads) simp
qed

lemma to_multiplex_balance [balance]:
  "bal d w \<Longrightarrow> 0 \<le> d p \<Longrightarrow> keeps_pair d (msg_to_multiplex s p w)"
  unfolding msg_to_multiplex_def by (intro steps balance)

lemma to_threaded_covered:
  assumes "refs_ok w" "spares w p (due_flag TCP_CLIENT_STATE_MULTIPLEX_LISTEN in_svc s p w)"
  shows "keeps_pair (\<lambda>_. 0) (msg_to_threaded s p w)"
proof -
  have stop: "keeps (\<lambda>_. 0) (if mx then ClientFDStopListenSimple s p w else Inr w)"
    if mx: "IsStateSet p 128 w = Inr mx" for mx
  proof (cases "flagged 128 in_svc s p w")
    case True
    then show ?thesis
      using assms(1) mx by (intro balance) (auto simp: flagged_def IsStateSet_def res_simps)
  next
    case False
    then have "bal ((\<lambda>_. 0)(p := 1)) w"
      using spares_bal [OF assms] by (auto simp: due_flag_def flagged_def)
    then show ?thesis
      using stop_listen_spare [of "\<lambda>_. 0" p w s] assms(1) by (intro keeps_if keeps_Inr) simp_all
  qed
  show ?thesis
    unfolding msg_to_threaded_def
    apply (rule keeps_read, rule keeps_if, rule balance, rule assms(1))
    apply (rule keeps_read, rule keeps_then, erule stop)
    by (intro steps balance)
qed

lemma or_return_skip: "\<not> bit_set code b \<Longrightarrow> or_return code b f k = k"
  by (simp add: or_return_def fun_eq_iff)

lemma when_bit_skip: "\<not> bit_set code b \<Longrightarrow> when_bit code b f = Inr"
  by (simp add: when_bit_def fun_eq_iff)

lemma rbind_Inr_right: "rbind m Inr = m"
  by (cases m) simp_all

lemma keeps_forget: "keeps_pair d m \<Longrightarrow> keeps d (rbind m (\<lambda>(w1, ret). Inr w1))"
  by (rule keeps_then, assumption) (simp add: balance)

lemma ProcessMsgQMsg_covered:
  assumes "refs_ok w" "msg_covered s m w"
  shows "keeps (\<lambda>_. 0) (ProcessMsgQMsg s m a w)"
proof -
  note defs = ProcessMsgQMsg_def Let_def when_bit_skip when_bit_def or_return_skip or_return_def bit_set_def rbind_Inr_right
  have c: "m_code m \<in> {4, 128, 3, 33, 64, 8, 16}" and sp: "spares w (m_data m) (msg_due s m w)"
    using assms(2) by (simp_all add: msg_covered_def sent_codes_def)
  consider (del) "m_code m = 4" | (rec) "m_code m = 128" | (mx) "m_code m = 3" | (mt) "m_code m = 33"
    | (con) "m_code m = 64" | (tomt) "m_code m = 8" | (tomx) "m_code m = 16"
    using c by blast
  then show ?thesis
  proof cases
    case del
    then have "ProcessMsgQMsg s m a w = ProcessClientDelete s (m_data m) w"
      by (simp add: defs)
    then show ?thesis using delete_covered [OF assms(1)] sp del by (simp add: msg_due_def)
  next
    case rec
    then have "ProcessMsgQMsg s m a w = msg_reconnect s (m_data m) a w"
      by (simp add: defs)
    then show ?thesis using reconnect_covered [OF assms(1)] sp rec by (simp add: msg_due_def)
  next
    case mx
    then have "ProcessMsgQMsg s m a w = rbind (AddClientToDB s (m_data m) w) (msg_multiplex s (m_data m))"
      by (simp add: defs)
    then show ?thesis using assms(1) by (auto intro: keeps_then balance)
  next
    case mt
    then have "ProcessMsgQMsg s m a w = rbind (AddClientToDB s (m_data m) w) (msg_create_threaded (m_data m))"
      by (simp add: defs)
    then show ?thesis using assms(1) by (auto intro: keeps_then balance)
  next
    case con
    then have "ProcessMsgQMsg s m a w = msg_connected s (m_data m) w"
      by (simp add: defs)
    then show ?thesis using connected_covered [OF assms(1)] sp con by (simp add: msg_due_def)
  next
    case tomt
    then have "keeps_pair (\<lambda>_. 0) (msg_to_threaded s (m_data m) w)"
      using to_threaded_covered [OF assms(1)] sp by (simp add: msg_due_def)
    then show ?thesis using tomt by (simp add: defs) (rule keeps_forget)
  next
    case tomx
    have "keeps_pair (\<lambda>_. 0) (msg_to_multiplex s (m_data m) w)"
      using assms(1) by (intro balance) simp_all
    then show ?thesis using tomx by (simp add: defs) (rule keeps_forget)
  qed
qed


lemma msg_covered_pop:
  assumes "upd_server s (\<lambda>x. x\<lparr>msgQ := ms\<rparr>) w = Inr w'" "msg_covered s m w"
  shows "msg_covered s m w'"
proof -
  have w': "client_in w' = client_in w"
    using assms(1) by (auto simp: upd_server_def res_simps)
  obtain x where x: "server_at w s = Inr x" "w' = set_server s (Some (x\<lparr>msgQ := ms\<rparr>)) w"
    using assms(1) by (auto simp: upd_server_def res_simps)
  have h: "has g t p w' = has g t p w" if "g \<in> {in_db, in_svc, connectpending, established}" for g t p
    using that x by (auto simp: has_def server_at_set in_db_def in_svc_def)
  have "listed w' p = listed w p" for p
    using listed_set_server [OF x(1), of "Some (x\<lparr>msgQ := ms\<rparr>)" p] x(2) by (simp add: holds_simps)
  then have "spares w' p n = spares w p n" for p n by (simp add: spares_def w')
  moreover have "flagged b g s p w' = flagged b g s p w" if "g \<in> {in_db, in_svc, connectpending, established}"
    for b g p
    using h [OF that] by (simp add: flagged_def w')
  moreover have "active_listed s p w' = active_listed s p w" for p
    using h by (simp add: active_listed_def w')
  ultimately have "msg_due s m w' = msg_due s m w" "\<And>p n. spares w' p n = spares w p n"
    using h by (simp_all add: msg_due_def due_defs)
  then show ?thesis using assms(2) by (simp add: msg_covered_def)
qed

lemma post_zero_sema_balance [balance]: "bal d w \<Longrightarrow> keeps d (post_zero_sema m w)"
  unfolding post_zero_sema_def by (intro steps balance)

lemma MsgQProcessing_covered:
  assumes "refs_ok w"
    and "\<And>x m ms. server_at w s = Inr x \<Longrightarrow> msgQ x = m # ms \<Longrightarrow> msg_covered s m w"
  shows "keeps (\<lambda>_. 0) (MsgQProcessingThreadFn s a w)"
  unfolding MsgQProcessingThreadFn_def
proof (rule keeps_read)
  fix x assume x: "server_at w s = Inr x"
  show "keeps (\<lambda>_. 0) (case msgQ x of [] \<Rightarrow> Inr w
     | m # ms \<Rightarrow> rbind (upd_server s (\<lambda>x. x\<lparr>msgQ := ms\<rparr>) w) (\<lambda>w1.
         rbind (ProcessMsgQMsg s m a w1) (post_zero_sema m)))"
  proof (cases "msgQ x")
    case (Cons m ms)
    have popped: "msg_covered s m w1" if "upd_server s (\<lambda>x. x\<lparr>msgQ := ms\<rparr>) w = Inr w1" for w1
      by (rule msg_covered_pop [OF that]) (rule assms(2) [OF x Cons])
    have "keeps (\<lambda>_. 0) (rbind (upd_server s (\<lambda>x. x\<lparr>msgQ := ms\<rparr>) w) (\<lambda>w1.
        rbind (ProcessMsgQMsg s m a w1) (post_zero_sema m)))"
      by (rule keeps_then, rule balance, rule assms(1), rule keeps_then,
          rule ProcessMsgQMsg_covered, assumption, erule popped, rule balance)
    then show ?thesis by (simp add: Cons)
  qed (simp add: assms(1) balance)
qed

lemma to_multiplex_migration [balance]:
  assumes "bal d w" "\<forall>q. 0 \<le> d q"
  shows "keeps d (ProcessClientMigrationToMultiplex s ip port w)"
  unfolding ProcessClientMigrationToMultiplex_def
  using assms by (intro steps balance) auto

lemma to_threads_covered:
  assumes "refs_ok w"
    and "\<And>p c. LookUpClientDB_ThreadSafe s ip port w = Inr (Some p) \<Longrightarrow> client_in w p = Some c \<Longrightarrow>
      \<not> client_thread c \<Longrightarrow> spares w p (of_bool (\<not> has in_svc s p w))"
  shows "keeps (\<lambda>_. 0) (ProcessClientMigrationToMultiThreaded s ip port w)"
proof -
  have stop: "keeps (\<lambda>_. 0) (ClientFDStopListenSimple s p w)"
    if p: "LookUpClientDB_ThreadSafe s ip port w = Inr (Some p)" "client_at w p = Inr c" "\<not> client_thread c"
    for p c
  proof (cases "has in_svc s p w")
    case False
    then have "bal ((\<lambda>_. 0)(p := 1)) w"
      using spares_bal [OF assms(1) assms(2) [OF p(1) _ p(3)]] p(2) by simp
    then show ?thesis using stop_listen_spare [of "\<lambda>_. 0" p w s] by simp
  qed (use assms(1) in \<open>intro balance, simp_all\<close>)
  show ?thesis
    unfolding ProcessClientMigrationToMultiThreaded_def
    apply (rule keeps_read, rule keeps_option, rule balance, rule assms(1))
    apply (rule keeps_read, rule keeps_if, rule balance, simp add: assms(1))
    apply (rule keeps_then, rule stop, simp, assumption, assumption)
    by (rule balance)
qed

section \<open>The steps of a server\<close>

text \<open>
  What the threads of the library and the application may do next. A step tells when it takes up a
  message or migrates a client to a thread of its own; the other steps are not told apart.
\<close>

datatype server_act = TakesMessage sptr | Migrates sptr u32 u16 | OtherAct

inductive server_step :: "world \<Rightarrow> server_act \<Rightarrow> world \<Rightarrow> bool" where
  create_server: "TcpServerController ip port name a w = Inr (s, w') \<Longrightarrow> server_step w OtherAct w'"
| callbacks: "SetServerNotifCallbacks s h1 h2 h3 h4 w = Inr w' \<Longrightarrow> server_step w OtherAct w'"
| mode: "SetClientCreationMode s b w = Inr w' \<Longrightarrow> server_step w OtherAct w'"
| start: "Start s b w = Inr w' \<Longrightarrow> server_step w OtherAct w'"
| stop: "StopServer s w = Inr w' \<Longrightarrow> server_step w OtherAct w'"
| stop_acceptor: "StopConnectionsAcceptorSvc s w = Inr w' \<Longrightarrow> server_step w OtherAct w'"
| start_acceptor: "StartConnectionsAcceptorSvc s a w = Inr w' \<Longrightarrow> server_step w OtherAct w'"
| stop_service: "StopClientSvcMgr s w = Inr w' \<Longrightarrow> server_step w OtherAct w'"
| start_service: "StartClientSvcMgr s a w = Inr w' \<Longrightarrow> server_step w OtherAct w'"
| connect: "CreateActiveClient s ip port ca w = Inr w' \<Longrightarrow> server_step w OtherAct w'"
| accept_thread: "accept_round s fd ip port rc w = Inr w' \<Longrightarrow> server_step w OtherAct w'"
| service_thread: "svc_thread_round s readable answers w = Inr w' \<Longrightarrow> server_step w OtherAct w'"
| client_thread: "ClientThreadFunction p r w = Inr w' \<Longrightarrow> server_step w OtherAct w'"
| retry_thread: "connecting p w \<Longrightarrow> connect_retry_fn p ca w = Inr w' \<Longrightarrow> server_step w OtherAct w'"
| message: "MsgQProcessingThreadFn s ca w = Inr w' \<Longrightarrow> server_step w (TakesMessage s) w'"
| to_multiplex: "ProcessClientMigrationToMultiplex s ip port w = Inr w' \<Longrightarrow> server_step w OtherAct w'"
| to_threads: "ProcessClientMigrationToMultiThreaded s ip port w = Inr w' \<Longrightarrow>
    server_step w (Migrates s ip port) w'"

text \<open>
  An act is covered when the reference counter of the client it is about, the one of the first
  message or the one that is migrated and has no thread yet, has a reference for every list that the
  act takes the client out of and that does not hold it. A client that stands in its lists needs no
  more. The code tests neither. A client that stands in the list of the service twice, for one, is
  reported twice when its connection ends: the second message finds it in no list, but its second
  entry has left a reference over.
\<close>

definition covered :: "world \<Rightarrow> server_act \<Rightarrow> bool" where
  "covered w act =
     (case act of
        TakesMessage s \<Rightarrow> (\<forall>x m ms. server_at w s = Inr x \<and> msgQ x = m # ms \<longrightarrow> msg_covered s m w)
      | Migrates s ip port \<Rightarrow>
          (\<forall>p c. LookUpClientDB_ThreadSafe s ip port w = Inr (Some p) \<and> client_in w p = Some c \<and>
             \<not> client_thread c \<longrightarrow> spares w p (of_bool (\<not> has in_svc s p w)))
      | OtherAct \<Rightarrow> True)"

text \<open>For evaluation: the quantifiers of these definitions read at most one client or server.\<close>

lemma has_code [code]: "has g s p w \<longleftrightarrow> (case server_at w s of Inl e \<Rightarrow> True | Inr x \<Rightarrow> p \<in> set (g x))"
  by (simp add: has_def split: sum.split)

lemma flagged_code [code]:
  "flagged b g s p w \<longleftrightarrow>
     (case client_in w p of None \<Rightarrow> True | Some c \<Rightarrow> bit_set (c_state_flags c) b \<longrightarrow> has g s p w)"
  by (simp add: flagged_def split: option.split)

lemma active_listed_code [code]:
  "active_listed s p w \<longleftrightarrow>
     (case client_in w p of
        None \<Rightarrow> True
      | Some c \<Rightarrow> bit_set (c_state_flags c) TCP_CLIENT_STATE_ACTIVE_OPENER \<longrightarrow>
          (if bit_set (c_state_flags c) TCP_CLIENT_STATE_CONNECTED then has established s p w
           else has connectpending s p w))"
  by (cases "client_in w p") (simp_all add: active_listed_def)

lemma spares_code [code]:
  "spares w p n \<longleftrightarrow>
     (case client_in w p of None \<Rightarrow> True | Some c \<Rightarrow> int (listed w p) + int (thr c) + n \<le> ref_count c)"
  by (simp add: spares_def split: option.split)

lemma covered_code [code]:
  "covered w (TakesMessage s) \<longleftrightarrow>
     (case server_at w s of
        Inl e \<Rightarrow> True
      | Inr x \<Rightarrow> (case msgQ x of [] \<Rightarrow> True | m # ms \<Rightarrow> msg_covered s m w))"
  "covered w (Migrates s ip port) \<longleftrightarrow>
     (case LookUpClientDB_ThreadSafe s ip port w of
        Inl e \<Rightarrow> True
      | Inr None \<Rightarrow> True
      | Inr (Some p) \<Rightarrow>
          (case client_in w p of
             None \<Rightarrow> True
           | Some c \<Rightarrow> client_thread c \<or> spares w p (of_bool (\<not> has in_svc s p w))))"
  "covered w OtherAct \<longleftrightarrow> True"
  by (auto simp: covered_def split: sum.split list.split option.split)

text \<open>A run lists its acts, each with the world it leads to.\<close>

fun server_run :: "world \<Rightarrow> (server_act \<times> world) list \<Rightarrow> bool" where
  "server_run w [] \<longleftrightarrow> True"
| "server_run w ((act, w') # run) \<longleftrightarrow> server_step w act w' \<and> server_run w' run"

definition reached :: "world \<Rightarrow> (server_act \<times> world) list \<Rightarrow> world" where
  "reached w run = last (w # map snd run)"

lemma reached_simps [simp]: "reached w [] = w" "reached w ((act, w') # run) = reached w' run"
  by (simp_all add: reached_def)

lemma callbacks_balance [balance]: "bal d w \<Longrightarrow> keeps d (SetServerNotifCallbacks s h1 h2 h3 h4 w)"
  unfolding SetServerNotifCallbacks_def
  by (intro keeps_reads keeps_upd_server) (simp_all add: holds_simps)

lemma server_step_refs: "server_step w act w' \<Longrightarrow> covered w act \<Longrightarrow> refs_ok w \<Longrightarrow> refs_ok w'"
proof (induction rule: server_step.induct)
  case (create_server ip port name a w s w')
  then show ?case by (elim TcpServerController_balance)
next
  case (message s ca w w')
  show ?case
    by (rule keeps_outcome [OF MsgQProcessing_covered message(1)])
       (use message in \<open>simp_all add: covered_def\<close>)
next
  case (to_threads s ip port w w')
  show ?case
    by (rule keeps_outcome [OF to_threads_covered to_threads(1)])
       (use to_threads in \<open>simp_all add: covered_def\<close>)
qed (auto elim!: keeps_outcome [rotated] intro!: balance)

text \<open>A run keeps the references, or one of its acts is not covered where it is taken.\<close>

definition all_covered :: "world \<Rightarrow> (server_act \<times> world) list \<Rightarrow> bool" where
  "all_covered w run \<longleftrightarrow> (\<forall>pre act u post. run = pre @ (act, u) # post \<longrightarrow> covered (reached w pre) act)"

lemma all_covered_simps [simp]:
  "all_covered w []"
  "all_covered w ((act, u) # run) \<longleftrightarrow> covered w act \<and> all_covered u run"
proof -
  show "all_covered w []" by (simp add: all_covered_def)
  show "all_covered w ((act, u) # run) \<longleftrightarrow> covered w act \<and> all_covered u run"
  proof
    assume all: "all_covered w ((act, u) # run)"
    have "covered (reached w []) act"
      using all unfolding all_covered_def by blast
    moreover have "covered (reached w ((act, u) # pre)) a" if "run = pre @ (a, v) # post" for pre a v post
      using all that unfolding all_covered_def by (metis append_Cons)
    ultimately show "covered w act \<and> all_covered u run" by (simp add: all_covered_def)
  next
    assume "covered w act \<and> all_covered u run"
    then show "all_covered w ((act, u) # run)"
      by (auto simp: all_covered_def Cons_eq_append_conv)
  qed
qed

lemma server_run_refs: "server_run w run \<Longrightarrow> refs_ok w \<Longrightarrow> all_covered w run \<Longrightarrow> refs_ok (reached w run)"
proof (induction w run rule: server_run.induct)
  case (2 w act w' run)
  then show ?case using server_step_refs [of w act w'] by simp
qed simp

end
