(* ===== verification/TcpTables.thy ===== *)
theory TcpTables
  imports TcpBalance
begin

text \<open>
  The contract of a table of clients, which the table of the server and the list of the client
  service share: what is in it after an insertion and a removal, and that the addresses of the
  clients are not touched. The lookup by address is derived from it once.
\<close>

section \<open>Addresses\<close>

definition addr_of :: "world \<Rightarrow> cptr \<Rightarrow> (u32 \<times> u16) option" where
  "addr_of w p = map_option (\<lambda>c. (c_ip_addr c, c_port_no c)) (client_in w p)"

text \<open>The reference lookup: the first pointer whose client has the address.\<close>

definition first_at :: "world \<Rightarrow> u32 \<Rightarrow> u16 \<Rightarrow> cptr list \<Rightarrow> cptr option" where
  "first_at w ip port ps = List.find (\<lambda>p. addr_of w p = Some (ip, port)) ps"

lemma lookup_client_eq:
  "\<forall>p\<in>set ps. client_in w p \<noteq> None \<Longrightarrow> lookup_client w ip port ps = Inr (first_at w ip port ps)"
  by (induction ps) (auto simp: first_at_def addr_of_def)

lemma lookup_client_Some:
  "lookup_client w ip port ps = Inr (Some p) \<Longrightarrow> p \<in> set ps \<and> addr_of w p = Some (ip, port)"
  by (induction ps) (auto simp: addr_of_def elim!: rbindE split: if_splits)

lemma lookup_client_None:
  "lookup_client w ip port ps = Inr None \<Longrightarrow> p \<in> set ps \<Longrightarrow>
   \<exists>a. addr_of w p = Some a \<and> a \<noteq> (ip, port)"
  by (induction ps) (auto simp: addr_of_def elim!: rbindE split: if_splits)

lemma lookup_client_last:
  "lookup_client w ip port ps = Inr None \<Longrightarrow> addr_of w p = Some (ip, port) \<Longrightarrow>
   lookup_client w ip port (ps @ [p]) = Inr (Some p)"
  by (induction ps) (auto simp: addr_of_def elim!: rbindE split: if_splits)

lemma lookup_client_cong:
  "(\<And>p. p \<in> set ps \<Longrightarrow> addr_of w p = addr_of w' p) \<Longrightarrow>
   lookup_client w' ip port ps = lookup_client w ip port ps"
proof (induction ps)
  case (Cons p ps)
  have a: "addr_of w p = addr_of w' p" by (rule Cons.prems) simp
  have ih: "lookup_client w' ip port ps = lookup_client w ip port ps"
    by (rule Cons.IH) (rule Cons.prems, simp)
  show ?case
  proof (cases "client_in w p")
    case None
    then show ?thesis using a by (simp add: addr_of_def client_at_eq)
  next
    case (Some c)
    then obtain c' where "client_in w' p = Some c'" "c_ip_addr c' = c_ip_addr c" "c_port_no c' = c_port_no c"
      using a by (cases "client_in w' p") (auto simp: addr_of_def)
    then show ?thesis using Some ih by simp
  qed
qed simp

section \<open>The contract\<close>

locale client_table =
  fixes entries :: "sptr \<Rightarrow> world \<Rightarrow> cptr list res"
    and insert_client remove_client :: "sptr \<Rightarrow> cptr \<Rightarrow> world \<Rightarrow> world res"
  assumes inserted: "insert_client s p w = Inr w' \<Longrightarrow> entries s w = Inr ps \<Longrightarrow>
      entries s w' = Inr (ps @ [p])"
    and removed: "remove_client s p w = Inr w' \<Longrightarrow> entries s w = Inr ps \<Longrightarrow>
      entries s w' = Inr (removeAll p ps)"
    and insert_addr: "insert_client s p w = Inr w' \<Longrightarrow> addr_of w' q = addr_of w q"
    and remove_addr: "remove_client s p w = Inr w' \<Longrightarrow> q \<noteq> p \<Longrightarrow> addr_of w' q = addr_of w q"
begin

text \<open>A client that is inserted under a free address is found there, the others where they were.\<close>

lemma found_after_insert:
  assumes "insert_client s p w = Inr w'" "entries s w = Inr ps"
    and "lookup_client w ip port ps = Inr None" "addr_of w p = Some (ip, port)"
  shows "\<exists>ps'. entries s w' = Inr ps' \<and> lookup_client w' ip port ps' = Inr (Some p)"
proof -
  have "lookup_client w' ip port (ps @ [p]) = lookup_client w ip port (ps @ [p])"
    by (rule lookup_client_cong) (simp add: insert_addr [OF assms(1)])
  then show ?thesis
    using inserted [OF assms(1,2)] lookup_client_last [OF assms(3,4)] by simp
qed

text \<open>After a removal nothing is found that was not found elsewhere before.\<close>

lemma gone_after_remove:
  assumes "remove_client s p w = Inr w'" "entries s w = Inr ps" "distinct ps"
    and "\<forall>q\<in>set ps. client_in w q \<noteq> None"
    and "\<forall>q\<in>set ps. addr_of w q = Some (ip, port) \<longrightarrow> q = p"
  shows "\<exists>ps'. entries s w' = Inr ps' \<and> lookup_client w' ip port ps' = Inr None"
proof -
  have "lookup_client w' ip port (removeAll p ps) = lookup_client w ip port (removeAll p ps)"
    by (rule lookup_client_cong) (simp add: remove_addr [OF assms(1)])
  also have "\<dots> = Inr (first_at w ip port (removeAll p ps))"
    by (rule lookup_client_eq) (use assms(4) in simp)
  also have "first_at w ip port (removeAll p ps) = None"
    using assms(5) by (auto simp: first_at_def find_None_iff)
  finally show ?thesis using removed [OF assms(1,2)] by simp
qed

text \<open>Inserting and removing a client that was not there leaves the table as it was.\<close>

lemma insert_remove:
  assumes "insert_client s p w = Inr w1" "remove_client s p w1 = Inr w'" "entries s w = Inr ps"
    and "p \<notin> set ps"
  shows "entries s w' = Inr ps"
  using removed [OF assms(2) inserted [OF assms(1,3)]] assms(4) by simp

end

section \<open>The two tables\<close>

definition svc_entries :: "sptr \<Rightarrow> world \<Rightarrow> cptr list res" where
  "svc_entries s w = rbind (svc_of s w) (\<lambda>v. Inr (svc_db v))"

lemma svc_LookUp_entries:
  "svc_LookUpClientDB s ip port w = rbind (svc_entries s w) (lookup_client w ip port)"
  by (simp add: svc_LookUpClientDB_def svc_entries_def rbind_assoc)

lemma upd_server_addr: "upd_server s f w = Inr w' \<Longrightarrow> addr_of w' = addr_of w"
  by (auto simp: upd_server_def res_simps addr_of_def fun_eq_iff)

lemma Reference_addr: "Reference p w = Inr w' \<Longrightarrow> addr_of w' q = addr_of w q"
  by (auto simp: Reference_def upd_client_def res_simps addr_of_def client_in_set)

lemma deref_addr: "deref_client p w = Inr w' \<Longrightarrow> q \<noteq> p \<Longrightarrow> addr_of w' q = addr_of w q"
  by (auto simp: deref_client_def Dereference_def Let_def addr_of_def client_in_set elim!: rbindE
      split: if_splits dest!: Abort_result)

lemma entries_servers:
  "servers w' = servers w \<Longrightarrow> db_of s w' = db_of s w"
  "servers w' = servers w \<Longrightarrow> svc_entries s w' = svc_entries s w"
  by (simp_all add: db_of_def svc_entries_def svc_of_def server_at_def)

lemma set_db_entries: "set_db s db w = Inr w' \<Longrightarrow> db_of s w' = Inr db"
  by (auto simp: set_db_def upd_server_def res_simps db_of_def server_at_set)

lemma upd_svc_entries:
  "upd_svc s f w = Inr w' \<Longrightarrow> svc_of s w = Inr v \<Longrightarrow> svc_entries s w' = Inr (svc_db (f v))"
  by (auto simp: upd_svc_Inr svc_of_Inr upd_server_def res_simps svc_entries_def svc_of_def server_at_set)

lemma svc_entries_Inr: "svc_entries s w = Inr ps \<longleftrightarrow> (\<exists>v. svc_of s w = Inr v \<and> ps = svc_db v)"
  by (auto simp: svc_entries_def res_simps)

interpretation db: client_table db_of AddClientToDB RemoveClientFromDB
proof
  fix s p w w' ps
  assume add: "AddClientToDB s p w = Inr w'"
  obtain db w1 where w1: "db_of s w = Inr db" "set_db s (db @ [p]) w = Inr w1" "Reference p w1 = Inr w'"
    using add unfolding AddClientToDB_def by (elim rbindE) (rule that)
  show "db_of s w' = Inr (ps @ [p])" if "db_of s w = Inr ps"
    using that w1 set_db_entries [OF w1(2)] entries_servers(1) [OF client_servers(3) [OF w1(3)]] by simp
  show "addr_of w' q = addr_of w q" for q
    using Reference_addr [OF w1(3)] upd_server_addr w1(2) unfolding set_db_def by metis
next
  fix s p w w' ps
  assume rem: "RemoveClientFromDB s p w = Inr w'"
  obtain db w1 where w1: "db_of s w = Inr db" "set_db s (removeAll p db) w = Inr w1" "deref_client p w1 = Inr w'"
    using rem unfolding RemoveClientFromDB_def by (elim rbindE) (rule that)
  show "db_of s w' = Inr (removeAll p ps)" if "db_of s w = Inr ps"
    using that w1 set_db_entries [OF w1(2)] entries_servers(1) [OF deref_client_servers [OF w1(3)]] by simp
  show "addr_of w' q = addr_of w q" if "q \<noteq> p" for q
    using deref_addr [OF w1(3) that] upd_server_addr w1(2) unfolding set_db_def by metis
qed

interpretation svc: client_table svc_entries svc_AddClientToDB svc_RemoveClientFromDB
proof
  fix s p w w' ps
  assume add: "svc_AddClientToDB s p w = Inr w'"
  obtain w1 where w1: "upd_svc s (\<lambda>v. v\<lparr>svc_db := svc_db v @ [p]\<rparr>) w = Inr w1" "Reference p w1 = Inr w'"
    using add unfolding svc_AddClientToDB_def by (elim rbindE)
  show "svc_entries s w' = Inr (ps @ [p])" if "svc_entries s w = Inr ps"
    using that upd_svc_entries [OF w1(1)] entries_servers(2) [OF client_servers(3) [OF w1(2)]]
    by (auto simp: svc_entries_Inr)
  show "addr_of w' q = addr_of w q" for q
    using Reference_addr [OF w1(2)] upd_server_addr w1(1) unfolding upd_svc_Inr by metis
next
  fix s p w w' ps
  assume rem: "svc_RemoveClientFromDB s p w = Inr w'"
  obtain w1 where w1: "upd_svc s (\<lambda>v. v\<lparr>svc_db := removeAll p (svc_db v)\<rparr>) w = Inr w1"
    "deref_client p w1 = Inr w'"
    using rem unfolding svc_RemoveClientFromDB_def by (elim rbindE)
  show "svc_entries s w' = Inr (removeAll p ps)" if "svc_entries s w = Inr ps"
    using that upd_svc_entries [OF w1(1)] entries_servers(2) [OF deref_client_servers [OF w1(2)]]
    by (auto simp: svc_entries_Inr)
  show "addr_of w' q = addr_of w q" if "q \<noteq> p" for q
    using deref_addr [OF w1(2) that] upd_server_addr w1(1) unfolding upd_svc_Inr by metis
qed

end
