(* ===== verification/TcpProps.thy ===== *)
theory TcpProps
  imports TcpSvcOld TcpSafety TcpTables
begin

text \<open>
  What the server promises: the safety of its references over all steps, the tables, the order of
  the messages and the life of a client; and what goes wrong where the services are restarted,
  stopped, or lose a connection.
\<close>

lemma run_case: "(case m of Inl e \<Rightarrow> False | Inr w \<Rightarrow> P w) \<longleftrightarrow> (\<exists>w. m = Inr w \<and> P w)"
  by (cases m) simp_all

section \<open>A small world\<close>

definition fresh_client :: tcp_client where
  "fresh_client =
     \<lparr>c_state_flags = 0, c_ip_addr = 0, c_port_no = 0, server_ip_addr = 0, server_port_no = 0,
      comm_fd = 0, ref_count = 0, recv_buffer = [], client_thread = False,
      active_connect_thread = False, c_ctrlr = None, msgd = None,
      conn = \<lparr>conn_type = tcp_conn_none, ka_sent = 0, ka_recvd = 0, bytes_sent = 0, bytes_recvd = 0\<rparr>\<rparr>"

definition empty_world :: world where
  "empty_world = \<lparr>heap = [], servers = [], raw = fresh_client, addr_text = (\<lambda>_. ''0''), events = []\<rparr>"

lemma refs_ok_empty: "refs_ok empty_world"
  by (simp add: bal_def empty_world_def client_in_def listed_def thr_def fresh_client_def)

text \<open>A server that runs, with one client in its table and in the list of the client service.\<close>

definition demo_server :: server where
  "demo_server =
     \<lparr>new_conn_acc = Some \<lparr>accept_fd = 3, accept_new_conn_thread = Some Thread, accept_new_conn = True\<rparr>,
      client_db = Some [0],
      client_svc = Some \<lparr>max_fd = 5, udp_fd = 4, svc_db = [], backup_fd_set = [],
                         client_svc_mgr_thread = Some Thread\<rparr>,
      s_state_flags = 3, established = [], connectpending = [], msgQ = [], msgQ_op_thread = True,
      s_ip_addr = 1, s_port_no = 2, s_name = ''s'', s_msgd_type = TCP_DEMARCAR_FIXED_SIZE,
      client_connected = Hook, client_disconnected = Hook, client_msg_recvd = Hook,
      client_ka_pending = Hook\<rparr>"

definition demo_client :: tcp_client where
  "demo_client = fresh_client\<lparr>c_state_flags := 10, c_ip_addr := 9, c_port_no := 8,
     server_ip_addr := 1, server_port_no := 2, comm_fd := 5, ref_count := 1, c_ctrlr := Some 0\<rparr>"

definition demo_world :: world where
  "demo_world = empty_world\<lparr>heap := [Some demo_client], servers := [Some demo_server]\<rparr>"

lemmas demo_defs = demo_world_def demo_server_def demo_client_def empty_world_def fresh_client_def

lemma demo_simps [simp]:
  "server_at demo_world 0 = Inr demo_server" "client_in demo_world 0 = Some demo_client"
  by (simp_all add: demo_defs server_at_def client_in_def)

section \<open>References\<close>


definition refused :: connect_answer where
  "refused = \<lparr>an_fd = 7, an_rc = -1, an_port = 0\<rparr>"







section \<open>Tables\<close>

text \<open>
  C14: a client that the server registers is found under its address, where nobody was found
  before, and removing it again leaves the table as it was.
\<close>

theorem registered_client_found:
  assumes "AddClientToDB s p w = Inr w1" "db_of s w = Inr ps" "p \<notin> set ps"
    and "addr_of w p = Some (ip, port)"
  shows "LookUpClientDB s ip port w = Inr None \<and> LookUpClientDB s ip port w1 = Inr (Some p) \<and>
    (\<forall>w2. RemoveClientFromDB s p w1 = Inr w2 \<longrightarrow> db_of s w2 = Inr ps)"
proof -
  obtain c where c: "client_in w p = Some c" "c_ip_addr c = ip" "c_port_no c = port"
    using assms(4) by (auto simp: addr_of_def)
  have none: "lookup_client w ip port ps = Inr None"
    using assms(1,2) c by (auto simp: AddClientToDB_def LookUpClientDB_def res_simps)
  then show ?thesis
    using db.found_after_insert [OF assms(1,2) none assms(4)] db.insert_remove [OF assms(1) _ assms(2,3)]
      assms(2) by (auto simp: LookUpClientDB_def)
qed

text \<open>A second client of the demonstration, not yet in the table.\<close>

definition demo_two :: world where
  "demo_two = demo_world\<lparr>heap := [Some demo_client, Some (demo_client\<lparr>c_port_no := 7, comm_fd := 6, ref_count := 0\<rparr>)]\<rparr>"

lemma demo_two_simps [simp]:
  "server_at demo_two 0 = Inr demo_server" "client_in demo_two 0 = Some demo_client"
  "client_in demo_two (Suc 0) = Some (demo_client\<lparr>c_port_no := 7, comm_fd := 6, ref_count := 0\<rparr>)"
  by (simp_all add: demo_two_def demo_world_def server_at_def client_in_def)

theorem registered_client_found_witness:
  "\<exists>w1. AddClientToDB 0 1 demo_two = Inr w1 \<and> LookUpClientDB 0 9 7 w1 = Inr (Some 1)"
proof -
  have "case AddClientToDB 0 1 demo_two of Inl e \<Rightarrow> False | Inr w \<Rightarrow> True"
    by code_simp
  then obtain w1 where w1: "AddClientToDB 0 1 demo_two = Inr w1"
    unfolding run_case by (elim exE conjE)
  have "db_of 0 demo_two = Inr [0]"
    by (simp add: db_of_def demo_server_def)
  then show ?thesis
    using registered_client_found [OF w1, of "[0]" 9 7] w1
    by (simp add: addr_of_def demo_defs)
qed

section \<open>The message queue\<close>

text \<open>The calls of the threads, one after the other.\<close>

fun enqueue_all :: "sptr \<Rightarrow> tcp_msg list \<Rightarrow> world \<Rightarrow> world res" where
  "enqueue_all s [] w = Inr w"
| "enqueue_all s (m # ms) w = rbind (EnqueMsg s (m_code m) (m_data m) (m_sema m) w) (enqueue_all s ms)"

text \<open>
  C13: the order of the messages. Whatever the threads enqueue, the messages whose senders wait
  stand in front, the last one first, before what was in the queue; the others follow in the
  order of their arrival.
\<close>

theorem message_order:
  assumes "server_at w s = Inr x"
  shows "\<exists>w'. enqueue_all s ms w = Inr w' \<and>
    server_at w' s = Inr (x\<lparr>msgQ := rev (filter m_sema ms) @ msgQ x @ filter (\<lambda>m. \<not> m_sema m) ms\<rparr>)"
  using assms
proof (induction ms arbitrary: w x)
  case (Cons m ms)
  let ?x = "x\<lparr>msgQ := (if m_sema m then m # msgQ x else msgQ x @ [m])\<rparr>"
  have e: "EnqueMsg s (m_code m) (m_data m) (m_sema m) w = Inr (set_server s (Some ?x) w)"
    using Cons.prems by (cases m) (simp add: EnqueMsg_def Let_def upd_server_def)
  have "server_at (set_server s (Some ?x) w) s = Inr ?x"
    using Cons.prems by (simp add: server_at_set)
  from Cons.IH [OF this] e show ?case by auto
qed simp

theorem message_order_witness:
  "\<exists>w'. enqueue_all 0 [\<lparr>m_code = 3, m_data = 1, m_sema = False\<rparr>, \<lparr>m_code = 4, m_data = 0, m_sema = True\<rparr>]
      demo_two = Inr w' \<and>
    server_at w' 0 = Inr (demo_server\<lparr>msgQ := [\<lparr>m_code = 4, m_data = 0, m_sema = True\<rparr>,
      \<lparr>m_code = 3, m_data = 1, m_sema = False\<rparr>]\<rparr>)"
  using message_order [of demo_two 0 demo_server
      "[\<lparr>m_code = 3, m_data = 1, m_sema = False\<rparr>, \<lparr>m_code = 4, m_data = 0, m_sema = True\<rparr>]"]
  by (simp add: demo_server_def)


section \<open>Restarting the client service\<close>

text \<open>The lists of a server after the service has been started anew.\<close>

lemma server_at_upd: "server_at w s = Inr x \<Longrightarrow> upd_server s f w = Inr (set_server s (Some (f x)) w)"
  by (simp add: upd_server_def)

lemma svc_start_lists:
  assumes "StartTcpClientServiceManagerThread s w = Inr w'" "server_at w s = Inr x"
    and "\<not> bit_set (s_state_flags x) TCP_SERVER_NOT_LISTENING_CLIENTS"
  shows "\<exists>x'. server_at w' s = Inr x' \<and> in_svc x' = in_svc x @ in_db x \<and> client_db x' = client_db x"
proof -
  obtain v where v: "client_svc x = Some v"
    using assms(1,2) by (auto simp: StartTcpClientServiceManagerThread_def upd_svc_Inr res_simps)
  let ?v1 = "v\<lparr>client_svc_mgr_thread := Some Thread\<rparr>"
  let ?w1 = "set_server s (Some (x\<lparr>client_svc := Some ?v1\<rparr>)) w"
  have w1: "upd_svc s (\<lambda>v. v\<lparr>client_svc_mgr_thread := Some Thread\<rparr>) w = Inr ?w1"
    using assms(2) v by (simp add: upd_svc_def svc_of_def upd_server_def)
  have x1: "server_at ?w1 s = Inr (x\<lparr>client_svc := Some ?v1\<rparr>)"
    using assms(2) by (simp add: server_at_set)
  obtain w2 where w2: "svc_thread_start s ?w1 = Inr w2" "w' = said (''Service started : TcpClientServiceManagerThread'' @ [NL]) w2"
    using assms(1) w1 by (auto simp: StartTcpClientServiceManagerThread_def elim!: rbindE)
  obtain w3 db where w3: "CopyAllClientsTolist s (svc_db v) ?w1 = Inr (w3, db)"
    and w4: "rbind (upd_svc s (\<lambda>v. v\<lparr>svc_db := db\<rparr>) w3) (\<lambda>w2.
      rbind (GetMaxFdSimple s w2) (\<lambda>m. rbind (CopyClientFDtoFDSet w2 db []) (\<lambda>fds.
      upd_svc s (\<lambda>v. v\<lparr>max_fd := m, backup_fd_set := fds\<rparr>) w2))) = Inr w2"
    using w2(1) x1 assms(3)
    by (auto simp: svc_thread_start_def IsBitSet_def svc_of_def rbind_eq_Inr)
  have db: "db = svc_db v @ in_db x"
    using w3 x1 by (auto simp: CopyAllClientsTolist_def db_of_def in_db_def rbind_eq_Inr split: option.splits)
  have "server_at w3 = server_at ?w1"
    using CopyAllClientsTolist_servers [OF w3] by (simp add: server_at_def fun_eq_iff)
  then have x3: "server_at w3 s = Inr (x\<lparr>client_svc := Some ?v1\<rparr>)" using x1 by simp
  let ?v4 = "?v1\<lparr>svc_db := db\<rparr>"
  let ?w4 = "set_server s (Some (x\<lparr>client_svc := Some ?v4\<rparr>)) w3"
  have "upd_svc s (\<lambda>v. v\<lparr>svc_db := db\<rparr>) w3 = Inr ?w4"
    using x3 by (simp add: upd_svc_def svc_of_def upd_server_def)
  moreover have x4: "server_at ?w4 s = Inr (x\<lparr>client_svc := Some ?v4\<rparr>)"
    using x3 by (simp add: server_at_set)
  ultimately obtain m fds where "upd_svc s (\<lambda>v. v\<lparr>max_fd := m, backup_fd_set := fds\<rparr>) ?w4 = Inr w2"
    using w4 by (auto elim!: rbindE)
  then have "w2 = set_server s (Some (x\<lparr>client_svc := Some (?v4\<lparr>max_fd := m, backup_fd_set := fds\<rparr>)\<rparr>)) ?w4"
    using x4 by (simp add: upd_svc_def svc_of_def upd_server_def)
  then have "server_at w' s = Inr (x\<lparr>client_svc := Some (?v4\<lparr>max_fd := m, backup_fd_set := fds\<rparr>)\<rparr>)"
    using w2(2) x4 by (simp add: server_at_set)
  then show ?thesis by (simp add: in_svc_def v db)
qed


lemma in_svc_simps [simp]:
  "in_svc (x\<lparr>client_svc := Some v\<rparr>) = svc_db v"
  "client_svc x = Some v \<Longrightarrow> in_svc x = svc_db v"
  by (simp_all add: in_svc_def)

lemma server_at_servers: "servers w' = servers w \<Longrightarrow> server_at w' = server_at w"
  by (simp add: server_at_def fun_eq_iff)

lemma svc_stop_lists:
  assumes "StopTcpClientServiceManagerThread s w = Inr w'" "server_at w s = Inr x"
  shows "\<exists>x'. server_at w' s = Inr x' \<and> in_svc x' = in_svc x \<and> client_db x' = client_db x \<and>
    s_state_flags x' = s_state_flags x"
  using assms
  by (auto simp: StopTcpClientServiceManagerThread_def svc_of_def upd_svc_def upd_server_def
      res_simps server_at_set split: option.splits thread_cell.splits)

lemma svc_add_lists:
  assumes "svc_AddClientToDB s p w = Inr w'" "server_at w s = Inr x"
  shows "\<exists>x'. server_at w' s = Inr x' \<and> in_svc x' = in_svc x @ [p] \<and> client_db x' = client_db x \<and>
    s_state_flags x' = s_state_flags x"
proof -
  obtain w1 where w1: "upd_svc s (\<lambda>v. v\<lparr>svc_db := svc_db v @ [p]\<rparr>) w = Inr w1" "Reference p w1 = Inr w'"
    using assms(1) unfolding svc_AddClientToDB_def by (elim rbindE)
  have "server_at w' = server_at w1"
    by (rule server_at_servers [OF client_servers(3) [OF w1(2)]])
  then show ?thesis
    using w1(1) assms(2)
    by (auto simp: upd_svc_def svc_of_def upd_server_def res_simps server_at_set split: option.splits)
qed

text \<open>
  Making the service listen to one more client. The service thread is started anew, and its
  start copies the whole table behind the list it already has: every client of the table stands
  in the list once more each time, with one more reference.
\<close>

theorem restart_lists_twice:
  assumes "ClientFDStartListenSimple s p w = Inr w'" "server_at w s = Inr x"
    and "\<not> bit_set (s_state_flags x) TCP_SERVER_NOT_LISTENING_CLIENTS"
  shows "\<exists>x'. server_at w' s = Inr x' \<and> in_svc x' = in_svc x @ p # in_db x \<and> in_db x' = in_db x"
proof -
  obtain w0 w1 w2 w3 where
    w0: "StopTcpClientServiceManagerThread s w = Inr w0" and
    w1: "w1 = said (''Client Svc Mgr thread Cancelled'' @ [NL]) w0" and
    w2: "svc_AddClientToDB s p w1 = Inr w2" and w3: "SetState p 128 w2 = Inr w3" and
    w': "StartTcpClientServiceManagerThread s w3 = Inr w'"
    using assms unfolding ClientFDStartListenSimple_def IsBitSet_def
    by (auto elim!: rbindE)
  obtain x0 where x0: "server_at w0 s = Inr x0" "in_svc x0 = in_svc x" "client_db x0 = client_db x"
    "s_state_flags x0 = s_state_flags x"
    using svc_stop_lists [OF w0 assms(2)] by blast
  obtain x2 where x2: "server_at w2 s = Inr x2" "in_svc x2 = in_svc x @ [p]" "client_db x2 = client_db x"
    "s_state_flags x2 = s_state_flags x"
    using svc_add_lists [OF w2, of x0] x0 w1 by auto
  have "server_at w3 s = Inr x2"
    using x2(1) server_at_servers [OF client_servers(1) [OF w3]] by simp
  then show ?thesis
    using svc_start_lists [OF w'] assms(3) x2 by (auto simp: in_db_def)
qed

theorem restart_lists_twice_witness:
  "\<exists>w' x'. ClientFDStartListenSimple 0 0 demo_two = Inr w' \<and> server_at w' 0 = Inr x' \<and>
     in_svc x' = [0, 0]"
proof -
  have "case ClientFDStartListenSimple 0 0 demo_two of Inl e \<Rightarrow> False | Inr w \<Rightarrow> True"
    by code_simp
  then obtain w1 where w1: "ClientFDStartListenSimple 0 0 demo_two = Inr w1"
    unfolding run_case by (elim exE conjE)
  have "\<not> bit_set (s_state_flags demo_server) 8"
    by (simp add: demo_server_def bit_set_def)
  from restart_lists_twice [OF w1 demo_two_simps(1) this] show ?thesis
    using w1 by (auto simp: demo_server_def in_svc_def in_db_def)
qed

section \<open>Stopping a service\<close>

lemma upd_client_at: "client_in w p = Some c \<Longrightarrow> upd_client p f w = Inr (set_client p (Some (f c)) w)"
  by (simp add: upd_client_def)

lemma client_in_same: "client_in w p = Some c \<Longrightarrow> client_in (set_client p x w) p = x"
  by (simp add: client_in_set)

lemma deref_down:
  "client_in w p = Some c \<Longrightarrow> 2 \<le> ref_count c \<Longrightarrow>
   deref_client p w = Inr (set_client p (Some (c\<lparr>ref_count := ref_count c - 1\<rparr>)) w)"
  by (simp add: deref_client_def Dereference_def Let_def)

text \<open>One round of the loop that empties the list, for a client with more than one reference.\<close>

lemma svc_purge_one_runs:
  assumes "server_at w s = Inr x" "client_svc x = Some v" "client_in w q = Some c" "2 \<le> ref_count c"
  shows "\<exists>w' x' v'. svc_purge_one s q w = Inr w' \<and> server_at w' s = Inr x' \<and> client_svc x' = Some v' \<and>
    (\<forall>r. r \<noteq> q \<longrightarrow> client_in w' r = client_in w r)"
proof -
  let ?x = "x\<lparr>client_svc := Some (v\<lparr>svc_db := removeAll q (svc_db v)\<rparr>)\<rparr>"
  let ?w1 = "set_server s (Some ?x) w"
  have 1: "upd_svc s (\<lambda>v. v\<lparr>svc_db := removeAll q (svc_db v)\<rparr>) w = Inr ?w1"
    using assms(1,2) by (simp add: upd_svc_def svc_of_def upd_server_def)
  have x1: "server_at ?w1 s = Inr ?x" using assms(1) by (simp add: server_at_set)
  let ?c = "c\<lparr>c_state_flags := c_state_flags c AND NOT TCP_CLIENT_STATE_MULTIPLEX_LISTEN\<rparr>"
  let ?w2 = "set_client q (Some ?c) ?w1"
  let ?w' = "set_client q (Some (?c\<lparr>ref_count := ref_count c - 1\<rparr>)) ?w2"
  have c1: "client_in ?w1 q = Some c" using assms(3) by simp
  have c2: "client_in ?w2 q = Some ?c" using c1 by (rule client_in_same)
  have 2: "UnSetState q TCP_CLIENT_STATE_MULTIPLEX_LISTEN ?w1 = Inr ?w2"
    unfolding UnSetState_def by (rule upd_client_at [OF c1])
  have 3: "deref_client q ?w2 = Inr ?w'"
    using deref_down [OF c2] assms(4) by simp
  have x': "server_at ?w' s = Inr ?x"
    using server_at_servers [of ?w' ?w1] x1 by (simp add: set_client_def)
  have o: "client_in ?w' r = client_in w r" if "r \<noteq> q" for r
    using that client_in_set [OF c2, of _ r] client_in_set [OF c1, of _ r] by simp
  have "svc_purge_one s q w = Inr ?w'"
    unfolding svc_purge_one_def 1 rbind_Inr 2 3 ..
  moreover have "client_svc ?x = Some (v\<lparr>svc_db := removeAll q (svc_db v)\<rparr>)" by simp
  ultimately show ?thesis using x' o by blast
qed

lemma purge_dangles:
  assumes "server_at w s = Inr x" "client_svc x = Some v"
    and "p \<notin> set xs" "set ys \<subseteq> set xs"
    and "\<forall>q \<in> set (xs @ p # ys @ p # zs). \<exists>c. client_in w q = Some c \<and> 2 \<le> ref_count c"
  shows "purge_loop (svc_purge_one s) (xs @ p # ys @ p # zs) w = Inl UseAfterFree"
  using assms
proof (induction "length xs" arbitrary: xs ys zs w x v rule: less_induct)
  case less
  show ?case
  proof (cases xs)
    case Nil
    then have ys: "ys = []" using less.prems(4) by simp
    obtain c where "client_in w p = Some c" "2 \<le> ref_count c" using less.prems(5) Nil by auto
    then obtain w' where "svc_purge_one s p w = Inr w'"
      using svc_purge_one_runs [OF less.prems(1,2)] by blast
    then show ?thesis using Nil ys by simp
  next
    case (Cons q qs)
    obtain c where c: "client_in w q = Some c" "2 \<le> ref_count c" using less.prems(5) Cons by auto
    obtain w' x' v' where w': "svc_purge_one s q w = Inr w'" "server_at w' s = Inr x'" "client_svc x' = Some v'"
      "\<forall>r. r \<noteq> q \<longrightarrow> client_in w' r = client_in w r"
      using svc_purge_one_runs [OF less.prems(1,2) c] by blast
    have qp: "q \<noteq> p" using less.prems(3) Cons by auto
    have "purge_loop (svc_purge_one s)
        (removeAll q qs @ p # removeAll q ys @ p # removeAll q zs) w' = Inl UseAfterFree"
    proof (rule less.hyps [OF _ w'(2,3)])
      show "length (removeAll q qs) < length xs" by (simp add: Cons le_imp_less_Suc)
      show "p \<notin> set (removeAll q qs)" "set (removeAll q ys) \<subseteq> set (removeAll q qs)"
        using less.prems(3,4) Cons by auto
      show "\<forall>r \<in> set (removeAll q qs @ p # removeAll q ys @ p # removeAll q zs).
          \<exists>c. client_in w' r = Some c \<and> 2 \<le> ref_count c"
        using less.prems(5) w'(4) Cons qp by auto
    qed
    then show ?thesis using w'(1) Cons qp by simp
  qed
qed

text \<open>
  C34: stopping the client service while a client \<open>p\<close> stands in its list twice, with no client
  between the two that does not also stand before the first. This is what a second copy of a list
  behind itself looks like, with \<open>p\<close> its last client. The loop that empties the list removes all
  nodes of the client it visits and keeps an iterator to the next node; when it visits \<open>p\<close> the next
  node is the second one of \<open>p\<close>: it is freed, and the iterator is read.
\<close>

theorem stop_service_use_after_free:
  assumes "server_at w s = Inr x" "client_svc x = Some v" "client_svc_mgr_thread v = Some Thread"
    and "\<not> bit_set (s_state_flags x) TCP_SERVER_NOT_LISTENING_CLIENTS"
    and "svc_db v = xs @ p # ys @ p # zs" "p \<notin> set xs" "set ys \<subseteq> set xs"
    and "\<forall>q \<in> set (svc_db v). \<exists>c. client_in w q = Some c \<and> 2 \<le> ref_count c"
  shows "StopClientSvcMgr s w = Inl UseAfterFree"
proof -
  let ?v1 = "v\<lparr>client_svc_mgr_thread := None\<rparr>"
  let ?w1 = "said (''Service stopped : TcpClientServiceManagerThread'' @ [NL])
    (set_server s (Some (x\<lparr>client_svc := Some ?v1\<rparr>)) w)"
  have w1: "StopTcpClientServiceManagerThread s w = Inr ?w1"
    using assms(1-3)
    by (simp add: StopTcpClientServiceManagerThread_def svc_of_def upd_svc_def upd_server_def)
  let ?v2 = "?v1\<lparr>udp_fd := 0\<rparr>"
  let ?w2 = "set_server s (Some (x\<lparr>client_svc := Some ?v2\<rparr>)) (log_event (ClosedFd (udp_fd v)) ?w1)"
  have x1: "server_at ?w1 s = Inr (x\<lparr>client_svc := Some ?v1\<rparr>)"
    using assms(1) by (simp add: server_at_set)
  have w2: "upd_svc s (\<lambda>v. v\<lparr>udp_fd := 0\<rparr>) (log_event (ClosedFd (udp_fd v)) ?w1) = Inr ?w2"
    using x1 by (simp add: upd_svc_def svc_of_def upd_server_def)
  have x2: "server_at ?w2 s = Inr (x\<lparr>client_svc := Some ?v2\<rparr>)"
    using x1 by (simp add: server_at_set)
  have "purge_loop (svc_purge_one s) (svc_db ?v2) ?w2 = Inl UseAfterFree"
    using purge_dangles [OF x2 _ assms(6,7)] assms(5,8) by simp
  then have "svc_Purge s ?w2 = Inl UseAfterFree"
    using x2 by (simp add: svc_Purge_def svc_of_def)
  then have "svc_Stop s w = Inl UseAfterFree"
    using w1 w2 x1 by (simp add: svc_Stop_def svc_of_def)
  then show ?thesis
    using assms(1,4) by (simp add: StopClientSvcMgr_def IsBitSet_def)
qed

theorem stop_service_use_after_free_witness:
  "rbind (ClientFDStartListenSimple 0 0 demo_two) (StopClientSvcMgr 0) = Inl UseAfterFree"
proof -
  have "case ClientFDStartListenSimple 0 0 demo_two of Inl e \<Rightarrow> False
    | Inr w \<Rightarrow> (case server_at w 0 of Inl e \<Rightarrow> False | Inr x \<Rightarrow> (case client_svc x of None \<Rightarrow> False | Some v \<Rightarrow>
        client_svc_mgr_thread v = Some Thread \<and> \<not> bit_set (s_state_flags x) 8 \<and> svc_db v = [0, 0] \<and>
        (case client_in w 0 of None \<Rightarrow> False | Some c \<Rightarrow> 2 \<le> ref_count c)))"
    by code_simp
  then obtain w x v c where w: "ClientFDStartListenSimple 0 0 demo_two = Inr w" "server_at w 0 = Inr x"
    "client_svc x = Some v" "client_svc_mgr_thread v = Some Thread" "\<not> bit_set (s_state_flags x) 8"
    "svc_db v = [0, 0]" "client_in w 0 = Some c" "2 \<le> ref_count c"
    unfolding run_case by (auto split: option.splits)
  from stop_service_use_after_free [OF w(2-5), of "[]" 0 "[]" "[]"] w(1,6-8) show ?thesis by simp
qed


section \<open>Starting a service again\<close>

lemma upd_svc_at:
  "server_at w s = Inr x \<Longrightarrow> client_svc x = Some v \<Longrightarrow>
   upd_svc s f w = Inr (set_server s (Some (x\<lparr>client_svc := Some (f v)\<rparr>)) w)"
  by (simp add: upd_svc_def svc_of_def upd_server_def)

text \<open>
  Stopping the client service and starting it again. The flag that switches the service off
  is taken back only after the thread has looked at it, so that the thread copies nobody: no
  client of the table is served any more, whatever arrives for it.
\<close>

theorem restarted_service_serves_nobody:
  assumes "StartClientSvcMgr s a w = Inr w'" "server_at w s = Inr x"
    and "bit_set (s_state_flags x) TCP_SERVER_NOT_LISTENING_CLIENTS"
  shows "\<exists>x'. server_at w' s = Inr x' \<and> in_db x' = in_db x \<and> in_svc x' = [] \<and>
    \<not> bit_set (s_state_flags x') TCP_SERVER_NOT_LISTENING_CLIENTS \<and>
    (\<forall>readable answers. svc_thread_round s readable answers w' = Inr w')"
proof -
  define v where "v = \<lparr>max_fd = sy_udp_fd a, udp_fd = sy_udp_fd a, svc_db = [], backup_fd_set = [],
    client_svc_mgr_thread = Some Thread\<rparr>"
  let ?x1 = "x\<lparr>client_svc := Some v\<rparr>"
  define w1 where "w1 = set_server s (Some ?x1)
    (set_server s (Some (x\<lparr>client_svc := Some (v\<lparr>client_svc_mgr_thread := Some NoThread\<rparr>)\<rparr>)) w)"
  have w1: "server_at w1 s = Inr ?x1"
    using assms(2) by (simp add: w1_def server_at_set)
  have "TcpClientServiceManager (sy_udp_fd a) (sy_udp_bind a) =
      Inr (v\<lparr>client_svc_mgr_thread := Some NoThread\<rparr>)"
    using assms by (auto simp: StartClientSvcMgr_def IsBitSet_def TcpClientServiceManager_def v_def
        rbind_eq_Inr split: if_splits)
  then obtain w2 where w2: "svc_thread_start s w1 = Inr w2"
    and w': "UnSetBit s 8 (said (''Service started : TcpClientServiceManagerThread'' @ [NL]) w2) = Inr w'"
    using assms
    by (auto simp: StartClientSvcMgr_def StartTcpClientServiceManagerThread_def IsBitSet_def w1_def
        upd_server_def upd_svc_def svc_of_def server_at_set v_def rbind_eq_Inr)
  have svc1: "upd_svc s f w1 = Inr (set_server s (Some (?x1\<lparr>client_svc := Some (f v)\<rparr>)) w1)" for f
    using w1 by (intro upd_svc_at) simp_all
  have "w2 = set_server s (Some (?x1\<lparr>client_svc := Some (v\<lparr>max_fd := 0, backup_fd_set := []\<rparr>)\<rparr>))
      (set_server s (Some (?x1\<lparr>client_svc := Some (v\<lparr>svc_db := []\<rparr>)\<rparr>)) w1)"
    using w1 w2 assms(3) svc1
    by (auto simp: svc_thread_start_def IsBitSet_def svc_of_def GetMaxFdSimple_def v_def
        server_at_set upd_svc_at)
  then have "server_at w2 s = Inr (?x1\<lparr>client_svc := Some (v\<lparr>max_fd := 0, backup_fd_set := []\<rparr>)\<rparr>)"
    using w1 by (simp add: server_at_set)
  then obtain x' where x': "server_at w' s = Inr x'"
    "client_svc x' = Some (v\<lparr>max_fd := 0, backup_fd_set := []\<rparr>)" "client_db x' = client_db x"
    "s_state_flags x' = s_state_flags x AND NOT 8"
    using w' by (auto simp: UnSetBit_def upd_server_def server_at_set)
  have "svc_thread_round s readable answers w' = Inr w'" for readable answers
    using x' by (simp add: svc_thread_round_def svc_of_def v_def)
  moreover have "\<not> bit_set (s_state_flags x AND NOT 8) 8"
    by (simp add: bit_set_def and.assoc)
  ultimately show ?thesis using x' by (auto simp: in_db_def v_def)
qed

definition demo_sys :: sys_answer where
  "demo_sys = \<lparr>sy_accept_fd = 3, sy_udp_fd = 4, sy_udp_bind = 0, sy_setup = True\<rparr>"

theorem restarted_service_serves_nobody_witness:
  "\<exists>w x. rbind (StopClientSvcMgr 0 demo_two) (StartClientSvcMgr 0 demo_sys) = Inr w \<and>
     server_at w 0 = Inr x \<and> in_db x = [0] \<and> svc_thread_round 0 [5] [(5, Some [1])] w = Inr w"
proof -
  have "case StopClientSvcMgr 0 demo_two of Inl e \<Rightarrow> False
    | Inr w1 \<Rightarrow> (case server_at w1 0 of Inl e \<Rightarrow> False | Inr x1 \<Rightarrow>
        bit_set (s_state_flags x1) 8 \<and> in_db x1 = [0] \<and>
        (case StartClientSvcMgr 0 demo_sys w1 of Inl e \<Rightarrow> False | Inr w \<Rightarrow> True))"
    by code_simp
  then obtain w1 x1 w where w: "StopClientSvcMgr 0 demo_two = Inr w1" "server_at w1 0 = Inr x1"
    "bit_set (s_state_flags x1) 8" "in_db x1 = [0]" "StartClientSvcMgr 0 demo_sys w1 = Inr w"
    unfolding run_case by auto
  from restarted_service_serves_nobody [OF w(5,2,3)] w show ?thesis by auto
qed

text \<open>
  Stopping a service of a server that was never started. The threads do not exist yet, only
  the zeroed identifiers for them, and these are cancelled and joined.
\<close>

lemma stop_before_start:
  assumes "TcpServerController ip port name a w = Inr (s, w')"
  shows "StopConnectionsAcceptorSvc s w' = Inl NullDeref \<and> StopClientSvcMgr s w' = Inl NullDeref \<and>
    StopServer s w' = Inl NullDeref"
proof -
  obtain x where x: "server_at w' s = Inr x" "s_state_flags x = 1"
    "new_conn_acc x = Some \<lparr>accept_fd = sy_accept_fd a, accept_new_conn_thread = Some NoThread,
       accept_new_conn = True\<rparr>"
    "client_svc x = Some \<lparr>max_fd = sy_udp_fd a, udp_fd = sy_udp_fd a, svc_db = [],
       backup_fd_set = [], client_svc_mgr_thread = Some NoThread\<rparr>"
    using assms
    by (auto simp: TcpServerController_def TcpNewConnectionAcceptor_def TcpClientServiceManager_def
        Let_def server_at_def rbind_eq_Inr split: if_splits)
  obtain w1 where w1: "SetBit s 4 w' = Inr w1" "server_at w1 s = Inr (x\<lparr>s_state_flags := s_state_flags x OR 4\<rparr>)"
    using x(1) by (simp add: SetBit_def upd_server_def server_at_set)
  have acc: "acc_Stop s w2 = Inl NullDeref"
    if "server_at w2 s = Inr y" "new_conn_acc y = new_conn_acc x" for w2 y
    using that x(3) by (simp add: acc_Stop_def StopTcpNewConnectionAcceptorThread_def acc_of_def)
  have "StopConnectionsAcceptorSvc s w' = Inl NullDeref"
    using x(1,2) w1 acc [OF w1(2)]
    by (simp add: StopConnectionsAcceptorSvc_def IsBitSet_def bit_set_def)
  moreover have "StopClientSvcMgr s w' = Inl NullDeref"
    using x(1,2,4)
    by (simp add: StopClientSvcMgr_def IsBitSet_def bit_set_def svc_Stop_def
        StopTcpClientServiceManagerThread_def svc_of_def)
  moreover have "StopServer s w' = Inl NullDeref"
    using x(1,3) acc [OF x(1)] by (simp add: StopServer_def)
  ultimately show ?thesis by blast
qed

section \<open>The end of a connection\<close>

lemma deref_last:
  assumes "client_in w p = Some c" "ref_count c = 1" "\<not> client_thread c" "\<not> active_connect_thread c"
    and "msgd c = None" "comm_fd c \<noteq> 0"
  shows "\<exists>w'. deref_client p w = Inr w' \<and> client_in w' p = None \<and> server_at w' = server_at w \<and>
    ClosedFd (comm_fd c) \<in> set (events w') \<and> set (events w) \<subseteq> set (events w')"
proof -
  let ?c1 = "c\<lparr>ref_count := 0\<rparr>"
  let ?c2 = "?c1\<lparr>comm_fd := 0, c_ctrlr := None, msgd := None\<rparr>"
  let ?w1 = "set_client p (Some ?c1) w"
  let ?w2 = "set_client p (Some ?c2) (log_event (ClosedFd (comm_fd c)) ?w1)"
  let ?w3 = "say_lines (client_lines (addr_text ?w2 p) ?c2) (said ''Client Deleted : '' ?w2)"
  have c1: "client_in ?w1 p = Some ?c1" using assms(1) by (simp add: client_in_same)
  have c2: "client_in ?w2 p = Some ?c2"
    by (rule client_in_same [where c = ?c1]) (simp add: c1)
  have "Display_client p (said ''Client Deleted : '' ?w2) = Inr ?w3"
    using c2 by (simp add: Display_client_def said_def log_event_def)
  then have "delete_client p ?w2 = Inr (set_client p None ?w3)"
    using c2 assms(3,4) unfolding delete_client_def by simp
  then have "Abort p ?w1 = Inr (set_client p None ?w3)"
    using c1 assms(3-6) unfolding Abort_def Let_def by simp
  then have "deref_client p w = Inr (set_client p None ?w3)"
    using assms(1,2) by (simp add: deref_client_def Dereference_def Let_def)
  moreover have "client_in (set_client p None ?w3) p = None"
    by (rule client_in_same [where c = ?c2]) (simp add: c2)
  moreover have "events (set_client p None ?w3) = events w @ ClosedFd (comm_fd c) #
      Said ''Client Deleted : '' # map Said (client_lines (addr_text ?w2 p) ?c2)"
    by (simp add: set_client_def say_lines_def said_def log_event_def)
  ultimately show ?thesis by auto
qed

lemma delete_threaded_client:
  assumes "server_at w s = Inr x" "client_db x = Some db" "client_in w p = Some c"
    and "bit_set (c_state_flags c) 8" "\<not> bit_set (c_state_flags c) 128" "\<not> bit_set (c_state_flags c) 16"
    and "client_thread c" "\<not> active_connect_thread c" "ref_count c = 2" "msgd c = None" "comm_fd c \<noteq> 0"
  shows "\<exists>w'. ProcessClientDelete s p w = Inr w' \<and> client_in w' p = None \<and>
    server_at w' s = Inr (x\<lparr>client_db := Some (removeAll p db)\<rparr>) \<and>
    ClosedFd (comm_fd c) \<in> set (events w') \<and> set (events w) \<subseteq> set (events w')"
proof -
  let ?x = "x\<lparr>client_db := Some (removeAll p db)\<rparr>"
  let ?c1 = "c\<lparr>ref_count := 3\<rparr>" and ?c2 = "c\<lparr>ref_count := 2\<rparr>"
  let ?w1 = "set_client p (Some ?c1) w"
  let ?w2 = "set_client p (Some ?c2) (set_server s (Some ?x) ?w1)"
  have w1: "Reference p w = Inr ?w1" "client_in ?w1 p = Some ?c1"
    using assms(3,9) by (simp_all add: Reference_def upd_client_at client_in_same)
  have s1: "client_in (set_server s (Some ?x) ?w1) p = Some ?c1" using w1(2) by simp
  have w2: "RemoveClientFromDB s p ?w1 = Inr ?w2"
    using assms(1,2) s1 by (simp add: RemoveClientFromDB_def db_of_def set_db_def upd_server_def deref_down)
  have c2: "client_in ?w2 p = Some ?c2" using s1 by (simp add: client_in_same)
  let ?c3 = "c\<lparr>client_thread := False, c_state_flags := c_state_flags c AND NOT 256, ref_count := 1\<rparr>"
  obtain w3 where w3: "StopThread p ?w2 = Inr w3" "client_in w3 p = Some ?c3"
    "servers w3 = servers ?w2" "events w3 = events ?w2"
    using assms(7) c2
    by (simp add: StopThread_def UnSetState_def upd_client_at client_in_same deref_down)
       (simp add: set_client_def client_in_def)
  have "\<not> bit_set (c_state_flags c AND NOT 256) 16"
    using assms(6) by (subst bit_andnot) simp_all
  moreover obtain w' where w': "deref_client p w3 = Inr w'" "client_in w' p = None"
    "server_at w' = server_at w3" "ClosedFd (comm_fd c) \<in> set (events w')"
    "set (events w3) \<subseteq> set (events w')"
    using deref_last [OF w3(2)] assms(8,10,11) by auto
  ultimately have "ProcessClientDelete s p w = Inr w'"
    using assms(4,5,7) w1 w2 c2 w3
    by (simp add: ProcessClientDelete_def IsStateSet_def)
  moreover have "server_at w3 s = Inr ?x"
    using assms(1) server_at_servers [OF w3(3)] by (simp add: server_at_set)
  moreover have "events w3 = events w"
    using w3(4) by (simp add: set_client_def set_server_def)
  ultimately show ?thesis using w' by auto
qed

text \<open>
  C6: the end of a connection that has a thread of its own, a client that was accepted, has no
  demarcar and is held by its entry in the table and by its thread alone. The thread reports the end
  to the application and, ahead of all messages, to the controller, and waits on a semaphore on its
  stack. The message takes the client out of the table, stops the thread, closes the connection and
  frees the client; nothing else of the server changes. But then the turn of the controller posts
  the semaphore, on the stack of the thread that it has just cancelled and joined.
\<close>

theorem lost_connection_cleans_up:
  assumes "server_at w s = Inr x" "client_db x = Some db" "client_disconnected x = Hook"
    and "client_in w p = Some c" "c_ctrlr c = Some s" "disconnected r"
    and "bit_set (c_state_flags c) TCP_CLIENT_STATE_PASSIVE_OPENER"
    and "\<not> bit_set (c_state_flags c) TCP_CLIENT_STATE_MULTIPLEX_LISTEN"
    and "\<not> bit_set (c_state_flags c) TCP_CLIENT_STATE_ACTIVE_OPENER"
    and "client_thread c" "\<not> active_connect_thread c" "ref_count c = 2" "msgd c = None" "comm_fd c \<noteq> 0"
    and "m = \<lparr>m_code = CTRLR_ACTION_TCP_CLIENT_DELETE, m_data = p, m_sema = True\<rparr>"
  shows "\<exists>w1 w2 w3. ClientThreadFunction p r w = Inr w1 \<and>
    server_at w1 s = Inr (x\<lparr>msgQ := m # msgQ x\<rparr>) \<and> Disconnected s p \<in> set (events w1) \<and>
    upd_server s (\<lambda>y. y\<lparr>msgQ := msgQ x\<rparr>) w1 = Inr w2 \<and> ProcessMsgQMsg s m a w2 = Inr w3 \<and>
    client_in w3 p = None \<and> server_at w3 s = Inr (x\<lparr>client_db := Some (removeAll p db)\<rparr>) \<and>
    ClosedFd (comm_fd c) \<in> set (events w3) \<and>
    MsgQProcessingThreadFn s a w1 = Inl UseAfterFree"
proof -
  let ?c = "c\<lparr>recv_buffer := put_at 0 (received r) (recv_buffer c)\<rparr>"
  let ?w0 = "log_event (Disconnected s p) (set_client p (Some ?c) w)"
  let ?w1 = "set_server s (Some (x\<lparr>msgQ := m # msgQ x\<rparr>)) ?w0"
  have c: "client_in ?w0 p = Some ?c" using assms(4) by (simp add: client_in_same)
  have w1: "ClientThreadFunction p r w = Inr ?w1"
    using assms(1,3-6,9,15) c
    by (simp add: ClientThreadFunction_def upd_client_at client_in_same ctrlr_of_def call_if_set_def
        hook_set_def call_hook_def IsStateSet_def EnqueMsg_def upd_server_def Let_def)
  have x1: "server_at ?w1 s = Inr (x\<lparr>msgQ := m # msgQ x\<rparr>)"
    using assms(1) by (simp add: server_at_set)
  let ?w2 = "set_server s (Some (x\<lparr>msgQ := msgQ x\<rparr>)) ?w1"
  have pop: "upd_server s (\<lambda>y. y\<lparr>msgQ := msgQ x\<rparr>) ?w1 = Inr ?w2"
    using x1 by (simp add: upd_server_def)
  have x2: "server_at ?w2 s = Inr x" using x1 by (simp add: server_at_set)
  have c2: "client_in ?w2 p = Some ?c" using c by simp
  obtain w' where w': "ProcessClientDelete s p ?w2 = Inr w'" "client_in w' p = None"
    "server_at w' s = Inr (x\<lparr>client_db := Some (removeAll p db)\<rparr>)"
    "ClosedFd (comm_fd c) \<in> set (events w')" "set (events ?w2) \<subseteq> set (events w')"
    using delete_threaded_client [OF x2 assms(2) c2] assms(7-14) by auto
  have process: "ProcessMsgQMsg s m a ?w2 = Inr w'"
    using w'(1) assms(15) by (simp add: ProcessMsgQMsg_def bit_set_def)
  have "post_zero_sema m w' = Inl UseAfterFree"
    using w'(2) assms(15) by (simp add: post_zero_sema_def client_at_eq)
  then have "MsgQProcessingThreadFn s a ?w1 = Inl UseAfterFree"
    using x1 pop process by (simp add: MsgQProcessingThreadFn_def)
  moreover have "Disconnected s p \<in> set (events ?w1)"
    by (simp add: set_server_def log_event_def)
  ultimately show ?thesis using w1 x1 pop process w' by blast
qed

theorem lost_connection_cleans_up_witness:
  "\<exists>w0 w1. CreateMultiThreadedClient 0 demo_world = Inr w0 \<and> ClientThreadFunction 0 (Some []) w0 = Inr w1 \<and>
     Disconnected 0 0 \<in> set (events w1) \<and> MsgQProcessingThreadFn 0 refused w1 = Inl UseAfterFree"
proof -
  let ?c = "demo_client\<lparr>client_thread := True, c_state_flags := 266, ref_count := 2\<rparr>"
  let ?w = "demo_world\<lparr>heap := [Some ?c]\<rparr>"
  have start: "CreateMultiThreadedClient 0 demo_world = Inr ?w"
    by (simp add: CreateMultiThreadedClient_def StartThread_def SetState_def upd_client_at client_in_same
        client_listening_thread_def Reference_def)
      (simp add: demo_defs set_client_def)
  have w: "server_at ?w 0 = Inr demo_server" "client_in ?w 0 = Some ?c"
    by (simp_all add: demo_world_def server_at_def client_in_def)
  have x: "client_db demo_server = Some [0]" "client_disconnected demo_server = Hook"
    by (simp_all add: demo_server_def)
  have c: "c_ctrlr ?c = Some 0" "disconnected (Some [])" "bit_set (c_state_flags ?c) 8"
    "\<not> bit_set (c_state_flags ?c) 128" "\<not> bit_set (c_state_flags ?c) 16" "client_thread ?c"
    "\<not> active_connect_thread ?c" "ref_count ?c = 2" "msgd ?c = None" "comm_fd ?c \<noteq> 0"
    by (simp_all add: demo_client_def fresh_client_def disconnected_def bit_set_def)
  show ?thesis
    using start lost_connection_cleans_up [OF w(1) x w(2) c refl, of refused] by auto
qed


section \<open>Received bytes\<close>

text \<open>The rounds of the receiving thread for the portions that arrive one after the other.\<close>

fun thread_rounds :: "cptr \<Rightarrow> byte list list \<Rightarrow> world \<Rightarrow> world res" where
  "thread_rounds p [] w = Inr w"
| "thread_rounds p (c # cs) w = rbind (ClientThreadFunction p (Some c) w) (thread_rounds p cs)"

lemma thread_round_demarcar:
  assumes "client_in w p = Some c" "msgd c = Some d" "c_ctrlr c = Some s"
    and "server_at w s = Inr x" "client_msg_recvd x = Hook"
    and "bs \<noteq> []" "length bs \<le> 1024" "ProcessMsg True d bs (word_of_nat (length bs)) = Inr (d', out)"
  shows "\<exists>w' c'. ClientThreadFunction p (Some bs) w = Inr w' \<and> client_in w' p = Some c' \<and>
    msgd c' = Some d' \<and> c_ctrlr c' = Some s \<and> server_at w' = server_at w \<and>
    bytes_recvd (conn c') = bytes_recvd (conn c) + word_of_nat (length bs) \<and>
    events w' = events w @ map (MsgRecvd s p) out"
proof -
  have r: "\<not> disconnected (Some bs)" "received (Some bs) = bs"
    using assms(6,7) by (simp_all add: disconnected_def received_def)
  let ?c1 = "c\<lparr>recv_buffer := put_at 0 bs (recv_buffer c)\<rparr>"
  let ?w1 = "set_client p (Some ?c1) w"
  let ?c2 = "count_recvd (length bs) ?c1"
  let ?w2 = "set_client p (Some ?c2) ?w1"
  have c1: "client_in ?w1 p = Some ?c1" using assms(1) by (simp add: client_in_same)
  have c2: "client_in ?w2 p = Some ?c2" using c1 by (simp add: client_in_same)
  let ?w3 = "set_client p (Some (?c2\<lparr>msgd := Some d'\<rparr>)) ?w2"
  let ?w' = "?w3\<lparr>events := events ?w3 @ map (MsgRecvd s p) out\<rparr>"
  have "demarcate s p d bs ?w2 = Inr ?w'"
    using assms(4,5,8) c2 by (simp add: demarcate_def upd_client_at)
  then have "ClientThreadFunction p (Some bs) w = Inr ?w'"
    using assms(1-4) r c1
    by (simp add: ClientThreadFunction_def upd_client_at ctrlr_of_def)
  moreover have "client_in ?w' p = Some (?c2\<lparr>msgd := Some d'\<rparr>)"
    using c2 by (simp add: client_in_same)
  moreover have "events ?w3 = events w" by (simp add: set_client_def)
  ultimately show ?thesis using assms(3) by (auto simp: count_recvd_def)
qed

text \<open>
  C8: the receiving thread of a client with a demarcar. Over any portions it is given, the
  application gets exactly the messages that the demarcar makes of the stream, each as one call
  of its callback and in their order; the bytes are counted and the demarcar is kept for the
  next portion.
\<close>

theorem thread_delivers_stream:
  assumes "client_in w p = Some c" "msgd c = Some d" "c_ctrlr c = Some s"
    and "server_at w s = Inr x" "client_msg_recvd x = Hook"
    and "\<forall>b\<in>set portions. b \<noteq> [] \<and> length b \<le> 1024"
    and "process_portions True d portions = Inr (d', msgs)"
  shows "\<exists>w' c'. thread_rounds p portions w = Inr w' \<and> client_in w' p = Some c' \<and> msgd c' = Some d' \<and>
    events w' = events w @ map (MsgRecvd s p) msgs \<and>
    bytes_recvd (conn c') = bytes_recvd (conn c) + word_of_nat (length (concat portions)) \<and>
    server_at w' = server_at w"
  using assms
proof (induction portions arbitrary: w c d msgs)
  case (Cons b bs)
  obtain d1 out out' where d1: "ProcessMsg True d b (word_of_nat (length b)) = Inr (d1, out)"
    "process_portions True d1 bs = Inr (d', out')" "msgs = out @ out'"
    using Cons.prems(7) by (auto simp: rbind_eq_Inr)
  obtain w1 c1 where w1: "ClientThreadFunction p (Some b) w = Inr w1" "client_in w1 p = Some c1"
    "msgd c1 = Some d1" "c_ctrlr c1 = Some s" "server_at w1 = server_at w"
    "bytes_recvd (conn c1) = bytes_recvd (conn c) + word_of_nat (length b)"
    "events w1 = events w @ map (MsgRecvd s p) out"
    using thread_round_demarcar [OF Cons.prems(1-5) _ _ d1(1)] Cons.prems(6) by auto
  have x1: "server_at w1 s = Inr x" using w1(5) Cons.prems(4) by simp
  show ?case
    using Cons.IH [OF w1(2-4) x1 Cons.prems(5) _ d1(2)] Cons.prems(6) w1 d1(3)
    by (auto simp: add.assoc)
qed simp

definition demo_stream :: world where
  "demo_stream = demo_world\<lparr>heap := [Some (demo_client\<lparr>msgd := Some (TcpMsgFixedSizeDemarcar 2)\<rparr>)]\<rparr>"

theorem thread_delivers_stream_witness:
  "\<exists>w'. thread_rounds 0 [[1], [2, 3, 4, 5]] demo_stream = Inr w' \<and>
     events w' = [MsgRecvd 0 0 [1, 2], MsgRecvd 0 0 [3, 4]]"
proof -
  have inc: "incomplete (fixed_frame 2) [5]"
    unfolding incomplete_def by (intro exI [of _ "[6]"]) (simp add: fixed_frame_def)
  obtain d where d: "process_portions True (TcpMsgFixedSizeDemarcar 2) [[1], [2, 3, 4, 5]] = Inr (d, [[1, 2], [3, 4]])"
    using fixed.fresh_portions [OF _ _ _ inc, of "[[1], [2, 3, 4, 5]]" "[[1, 2], [3, 4]]"]
    by (auto simp: TcpMsgFixedSizeDemarcar_def fixed_frame_def)
  let ?c = "demo_client\<lparr>msgd := Some (TcpMsgFixedSizeDemarcar 2)\<rparr>"
  have w: "client_in demo_stream 0 = Some ?c" "server_at demo_stream 0 = Inr demo_server"
    "events demo_stream = []"
    by (simp_all add: demo_stream_def demo_world_def client_in_def server_at_def empty_world_def)
  have "msgd ?c = Some (TcpMsgFixedSizeDemarcar 2)" "c_ctrlr ?c = Some 0" "client_msg_recvd demo_server = Hook"
    by (simp_all add: demo_client_def demo_server_def)
  from thread_delivers_stream [OF w(1) this(1,2) w(2) this(3) _ d] w(3) show ?thesis by auto
qed

section \<open>Reconnecting\<close>

lemma client_in_len [simp]:
  "q < length (heap w) \<Longrightarrow> client_in (set_client q y w) q = y"
  "length (heap (set_client q y w)) = length (heap w)"
  "length (heap (set_server t z w)) = length (heap w)"
  by (simp_all add: client_in_def set_client_def set_server_def)

lemma client_at_len: "client_in w q = Some c \<Longrightarrow> q < length (heap w)"
  by (auto simp: client_in_def split: if_splits)

text \<open>What is left of an active client whose first attempt to connect fails.\<close>

lemma active_client_refused:
  assumes "CreateActiveClient s ip port a w = Inr w'" "an_rc a \<noteq> 0"
  shows "\<exists>q c' x'. client_in w' q = Some c' \<and> active_connect_thread c' \<and>
    server_ip_addr c' = ip \<and> server_port_no c' = port \<and>
    bit_set (c_state_flags c') TCP_CLIENT_STATE_ACTIVE_OPENER \<and>
    server_at w' s = Inr x' \<and> q \<in> set (connectpending x')"
proof -
  obtain q w2 where n: "TcpClient w = (q, w2)" by (cases "TcpClient w")
  obtain c2 where c2: "client_in w2 q = Some c2"
    using n by (auto simp: TcpClient_def new_client_def client_in_def)
  have "\<exists>c' x'. client_in w' q = Some c' \<and> active_connect_thread c' \<and>
    server_ip_addr c' = ip \<and> server_port_no c' = port \<and>
    bit_set (c_state_flags c') TCP_CLIENT_STATE_ACTIVE_OPENER \<and>
    server_at w' s = Inr x' \<and> q \<in> set (connectpending x')"
    using assms n c2 client_at_len [OF c2]
    by (auto simp: CreateActiveClient_def TryClientConnect_def SetTcpMsgDemarcar_def SetState_def
        SetConnectionType_def Reference_def upd_client_at upd_server_def rbind_eq_Inr
        server_at_set bit_set_def bit.conj_disj_distrib2)
  then show ?thesis by blast
qed

text \<open>
  A lost connection of the client service is answered by \<open>RECONNECT\<close> whoever opened it.
  For a client that had connected to this server the address to reconnect to is the server's
  own: the client is deleted and the server starts to connect to itself.
\<close>

theorem lost_client_calls_itself:
  assumes "msg_reconnect s p a w = Inr w'" "an_rc a \<noteq> 0"
    and "client_in w p = Some c" "server_at w s = Inr x"
    and "server_ip_addr c = s_ip_addr x" "server_port_no c = s_port_no x"
  shows "\<exists>q c' x'. client_in w' q = Some c' \<and> active_connect_thread c' \<and>
    server_ip_addr c' = s_ip_addr x \<and> server_port_no c' = s_port_no x \<and>
    bit_set (c_state_flags c') TCP_CLIENT_STATE_ACTIVE_OPENER \<and>
    server_at w' s = Inr x' \<and> q \<in> set (connectpending x')"
proof -
  obtain w1 where "CreateActiveClient s (s_ip_addr x) (s_port_no x) a w1 = Inr w'"
    using assms(1,3,5,6) by (auto simp: msg_reconnect_def rbind_eq_Inr)
  from active_client_refused [OF this assms(2)] show ?thesis .
qed

theorem lost_client_calls_itself_witness:
  "\<exists>w' q c'. msg_reconnect 0 0 refused demo_world = Inr w' \<and> client_in w' q = Some c' \<and>
     server_ip_addr c' = 1 \<and> server_port_no c' = 2"
proof -
  have "case msg_reconnect 0 0 refused demo_world of Inl e \<Rightarrow> False | Inr w \<Rightarrow> True"
    by code_simp
  then obtain w' where w': "msg_reconnect 0 0 refused demo_world = Inr w'"
    unfolding run_case by (elim exE conjE)
  have "an_rc refused \<noteq> 0" "server_ip_addr demo_client = s_ip_addr demo_server"
    "server_port_no demo_client = s_port_no demo_server" "s_ip_addr demo_server = 1" "s_port_no demo_server = 2"
    by (simp_all add: refused_def demo_client_def fresh_client_def demo_server_def)
  with lost_client_calls_itself [OF w' this(1) demo_simps(2,1) this(2,3)] w' show ?thesis by auto
qed

section \<open>The older service\<close>

text \<open>
  After a client was taken out of the older service the largest descriptor is the largest of
  the clients that are left. When the wake-up socket has a larger one, every later caller waits
  for ever.
\<close>

theorem older_stop_blocks_later_callers:
  assumes "ClientFDStopListenAdv s p fd rc w = Inr w'"
    and "server_at w' s = Inr x" "client_svc x = Some v" "0 < udp_fd v"
    and "\<And>q c. q \<in> set (svc_db v) \<Longrightarrow> client_at w' q = Inr c \<Longrightarrow> comm_fd c < udp_fd v"
  shows "ClientFDStartListenAdv s q fd' rc' w' = Inl Diverges \<and>
    ClientFDStopListenAdv s q fd' rc' w' = Inl Diverges \<and>
    ClientFDStopListenAdv_addr s ip port fd' rc' w' = Inl Diverges"
proof -
  obtain w1 where "stop_adv s p w1 = Inr w'"
    using assms(1) unfolding ClientFDStopListenAdv_def while_loop_waits_def
    by (auto simp: res_simps split: prod.splits if_splits)
  from stop_adv_max_fd [OF this] assms(2,3) have "max_fd_loop w' (svc_db v) 0 = Inr (max_fd v)"
    by auto
  from max_fd_loop_bound [OF this assms(4)] assms(5) have "max_fd v < udp_fd v" by simp
  note deaf = deaf_loop [OF assms(2,3) this]
  show ?thesis
    unfolding ClientFDStartListenAdv_def ClientFDStopListenAdv_def ClientFDStopListenAdv_addr_def
    by (intro conjI deaf)
qed

definition demo_older :: "world res" where
  "demo_older = rbind (old_loop_start 0 demo_world) (ClientFDStartListenAdv 0 0 7 1)"

theorem older_stop_blocks_later_callers_witness:
  "\<exists>w w'. demo_older = Inr w \<and> ClientFDStopListenAdv 0 0 7 1 w = Inr w' \<and>
     ClientFDStartListenAdv 0 0 7 1 w' = Inl Diverges"
proof -
  have "case demo_older of Inl e \<Rightarrow> False | Inr w \<Rightarrow>
    (case ClientFDStopListenAdv 0 0 7 1 w of Inl e \<Rightarrow> False | Inr w' \<Rightarrow>
      (case server_at w' 0 of Inl e \<Rightarrow> False | Inr x \<Rightarrow>
        (case client_svc x of None \<Rightarrow> False | Some v \<Rightarrow> 0 < udp_fd v \<and> svc_db v = [])))"
    by code_simp
  then obtain w w' x v where w: "demo_older = Inr w" "ClientFDStopListenAdv 0 0 7 1 w = Inr w'"
    "server_at w' 0 = Inr x" "client_svc x = Some v" "0 < udp_fd v" "svc_db v = []"
    unfolding run_case by (auto split: option.splits)
  from older_stop_blocks_later_callers [OF w(2-5)] w(1,2,6) show ?thesis by auto
qed

end
