(* ===== verification/TcpCliProps.thy ===== *)
theory TcpCliProps
  imports TcpServerCli TcpProps
begin

text \<open>
  What the handlers of the server commands do with the buffers that the parser hands to them:
  the leaf values of the line and the command code.
\<close>

section \<open>Buffers of commands\<close>

definition named :: "string \<Rightarrow> string \<Rightarrow> tlv_struct \<Rightarrow> bool" where
  "named i v t \<longleftrightarrow> cstr (leaf_id t) = i \<and> cstr (val t) = v"

definition command :: "tlv_struct list \<Rightarrow> int \<Rightarrow> ser_buff \<Rightarrow> bool" where
  "command ts code b \<longleftrightarrow> tlv_wf b \<and> (\<exists>u. tlvs b = ts @ [u] \<and> atoi (cstr (val u)) = code)"

lemma command_reads:
  "command ts code b \<Longrightarrow> EXTRACT_CMD_CODE b = Inr code \<and> TLV_LOOP b = Inr ts"
  using handler_view by (auto simp: command_def)

lemma config_name: "named ''tcp-server-name'' n t \<Longrightarrow>
    read_leaves config_leaf [t] no_args = Inr (no_args\<lparr>ta_name := Some n\<rparr>)"
  by (simp add: named_def config_leaf_def)

lemma TcpServer_lookup_world:
  "(\<And>s. server_at w s = server_at (tcp_world a) s) \<Longrightarrow>
   TcpServer_lookup n (a\<lparr>tcp_world := w\<rparr>) = TcpServer_lookup n a"
proof -
  assume "\<And>s. server_at w s = server_at (tcp_world a) s"
  then have "lookup_server w m ss = lookup_server (tcp_world a) m ss" for m ss
    by (induction ss) (simp_all cong: if_cong)
  then show ?thesis by (simp add: TcpServer_lookup_def split: option.split)
qed

text \<open>Setting and clearing the bit of the mode when it is so already.\<close>

lemma mode_bit_iff: "bit_set f 16 \<longleftrightarrow> bit f 4"
  by (simp add: bit_set_def bit_iff_and_push_bit_not_eq_0)

lemma bit_16: "bit (16 :: u32) n \<longleftrightarrow> n = 4"
proof -
  have "(16 :: u32) = push_bit 4 1" by simp
  then show ?thesis by (simp only: bit_push_bit_iff bit_1_iff) auto
qed

lemma mode_bit_is:
  "bit_set f 16 \<Longrightarrow> f OR 16 = f" "\<not> bit_set f 16 \<Longrightarrow> f AND NOT 16 = f"
proof -
  show "f OR 16 = f" if "bit_set f 16"
    using that unfolding mode_bit_iff
    by (intro bit_word_eqI) (simp only: bit_or_iff bit_16, auto)
  show "f AND NOT 16 = f" if "\<not> bit_set f 16"
    using that unfolding mode_bit_iff
    by (intro bit_word_eqI) (simp only: bit_and_iff bit_not_iff bit_16, auto)
qed

section \<open>The handlers\<close>

text \<open>
  \<open>config tcp-server <name>\<close> for a name that is not taken makes a server of that name for
  127.0.0.1, port 40000, with the callbacks of the shell, in front of the list; it is what the
  name stands for from then on, and the same command once more is refused.
\<close>

lemma create_server_handler:
  assumes "command [t] 1 b" "named ''tcp-server-name'' n t"
    and "TcpServer_lookup (Some n) a = Inr None"
    and "0 \<le> sy_accept_fd sy" "0 \<le> sy_udp_fd sy" "sy_udp_bind sy \<noteq> -1"
  shows "\<exists>a' s x. config_tcp_server_handler sy ca b m a = Inr (a', 0) \<and>
    tcp_server_lst a' = s # tcp_server_lst a \<and> TcpServer_lookup (Some n) a' = Inr (Some s) \<and>
    server_at (tcp_world a') s = Inr x \<and> s_name x = n \<and> s_port_no x = 40000 \<and>
    s_ip_addr x = network_covert_ip_p_to_n ''127.0.0.1'' \<and> client_msg_recvd x = Hook \<and>
    config_tcp_server_handler sy ca b m a' =
      Inr (app_said (''Error : Tcp Server Already Exist'' @ [NL]) a', -1)"
proof -
  let ?g = "no_args\<lparr>ta_name := Some n\<rparr>"
  have h: "config_tcp_server_handler sy ca b m a = create_server ?g sy a" for a
    using command_reads [OF assms(1)] config_name [OF assms(2)]
    by (simp add: config_tcp_server_handler_def)
  let ?s = "length (servers (tcp_world a))"
  obtain w where w: "TcpServerController ''127.0.0.1'' 40000 n sy (tcp_world a) = Inr (?s, w)"
    using assms(4-6) by (simp add: TcpServerController_def TcpNewConnectionAcceptor_def
        TcpClientServiceManager_def Let_def)
  then obtain x where x: "server_at w ?s = Inr x" "s_state_flags x = 1" "s_name x = n"
    "s_port_no x = 40000" "s_ip_addr x = network_covert_ip_p_to_n ''127.0.0.1''"
    using assms(4-6)
    by (auto simp: TcpServerController_def TcpNewConnectionAcceptor_def TcpClientServiceManager_def
        Let_def server_at_def)
  let ?x = "x\<lparr>client_connected := Hook, client_ka_pending := Hook, client_msg_recvd := Hook,
    client_disconnected := Hook\<rparr>"
  let ?a' = "a\<lparr>tcp_server_lst := ?s # tcp_server_lst a, tcp_world := set_server ?s (Some ?x) w\<rparr>"
  have "SetServerNotifCallbacks ?s Hook Hook Hook Hook w = Inr (set_server ?s (Some ?x) w)"
    using x by (simp add: SetServerNotifCallbacks_def upd_server_def)
  then have a': "create_server ?g sy a = Inr (?a', 0)"
    using assms(3) w by (simp add: create_server_def no_args_def)
  have x': "server_at (set_server ?s (Some ?x) w) ?s = Inr ?x"
    using x(1) by (simp add: server_at_set)
  then have l: "TcpServer_lookup (Some n) ?a' = Inr (Some ?s)"
    using x(3) by (simp add: TcpServer_lookup_def)
  then have "create_server ?g sy ?a' = Inr (app_said (''Error : Tcp Server Already Exist'' @ [NL]) ?a', -1)"
    by (simp add: create_server_def)
  then show ?thesis
    using h a' l x x' by (intro exI [of _ ?a'] exI [of _ ?s] exI [of _ ?x]) simp
qed

text \<open>
  every other configuration command for a name that no server has returns -1 and does
  nothing but say so.
\<close>

lemma unknown_server_handler:
  assumes "command ts code b" "code \<in> {2, 5, 9, 11, 14, 16, 17}"
    and "read_leaves config_leaf ts no_args = Inr g" "TcpServer_lookup (ta_name g) a = Inr None"
  shows "config_tcp_server_handler sy ca b m a =
    Inr (app_said (''Error : Tcp Server do not Exist'' @ [NL]) a, -1)"
  using assms(2-4) command_reads [OF assms(1)]
  by (auto simp: config_tcp_server_handler_def with_server_def)

text \<open>
  \<open>config [no] tcp-server <name> multi-threaded-mode\<close> sets or clears the mode bit of the
  server and leaves every other bit; running on into the next case, which looks the server up
  once more, changes nothing.
\<close>

lemma multi_threaded_handler:
  assumes "command [t] 11 b" "named ''tcp-server-name'' n t"
    and "TcpServer_lookup (Some n) a = Inr (Some s)" "server_at (tcp_world a) s = Inr x"
    and "m = CONFIG_ENABLE \<or> m = CONFIG_DISABLE"
  shows "\<exists>a' x'. config_tcp_server_handler sy ca b m a = Inr (a', 0) \<and>
    server_at (tcp_world a') s = Inr x' \<and>
    s_state_flags x' = (if m = CONFIG_ENABLE then s_state_flags x OR 16 else s_state_flags x AND NOT 16) \<and>
    TcpServer_lookup (Some n) a' = Inr (Some s)"
proof -
  let ?f = "if m = CONFIG_ENABLE then s_state_flags x OR 16 else s_state_flags x AND NOT 16"
  have same: "x\<lparr>s_state_flags := s_state_flags x\<rparr> = x" by simp
  have "\<exists>w. SetClientCreationMode s (m = CONFIG_ENABLE) (tcp_world a) = Inr w \<and>
      server_at w s = Inr (x\<lparr>s_state_flags := ?f\<rparr>) \<and>
      (\<forall>q. q \<noteq> s \<longrightarrow> server_at w q = server_at (tcp_world a) q)"
  proof (cases "bit_set (s_state_flags x) 16 = (m = CONFIG_ENABLE)")
    case True
    then have "?f = s_state_flags x" using mode_bit_is [of "s_state_flags x"] by auto
    then show ?thesis
      using True assms(4) same by (auto simp: SetClientCreationMode_def IsBitSet_def)
  next
    case False
    then show ?thesis
      using assms(4)
      by (auto simp: SetClientCreationMode_def IsBitSet_def SetBit_def UnSetBit_def upd_server_def
          server_at_set)
  qed
  then obtain w where w: "SetClientCreationMode s (m = CONFIG_ENABLE) (tcp_world a) = Inr w"
    and x: "server_at w s = Inr (x\<lparr>s_state_flags := ?f\<rparr>)"
    and o: "\<And>q. q \<noteq> s \<Longrightarrow> server_at w q = server_at (tcp_world a) q"
    by blast
  let ?a' = "a\<lparr>tcp_world := w\<rparr>"
  have "lookup_server w k ss = lookup_server (tcp_world a) k ss" for k ss
  proof (induction ss)
    case (Cons q ss)
    then show ?case using o [of q] x assms(4) by (cases "q = s") (simp_all cong: if_cong)
  qed simp
  then have l: "TcpServer_lookup (Some n) ?a' = Inr (Some s)"
    using assms(3) by (simp add: TcpServer_lookup_def)
  have "config_tcp_server_handler sy ca b m a = Inr (?a', 0)"
    using command_reads [OF assms(1)] config_name [OF assms(2)] assms(3,5) w l
    by (auto simp: config_tcp_server_handler_def with_server_def by_mode_def on_world_def)
  then show ?thesis using l x by auto
qed


lemma run_leaves:
  "named ''tcp-server-name'' n t1 \<Longrightarrow> named ''remote-addr'' ip t2 \<Longrightarrow> named ''remote-port'' port t3 \<Longrightarrow>
   named ''msg'' txt t4 \<Longrightarrow> read_leaves run_leaf [t1, t2, t3, t4] no_args =
     Inr (no_args\<lparr>ta_name := Some n, ta_remote_ip := Some ip, ta_remote_port := u16_of port, ta_msg := Some txt\<rparr>)"
  by (simp add: named_def run_leaf_def has_prefix_def strncmp_eq_def no_args_def)

text \<open>The remote address of an active client.\<close>

definition remote_of :: "world \<Rightarrow> cptr \<Rightarrow> (u32 \<times> u16) option" where
  "remote_of w p = map_option (\<lambda>c. (server_ip_addr c, server_port_no c)) (client_in w p)"

lemma find_active_eq:
  "\<forall>p\<in>set ps. client_in w p \<noteq> None \<Longrightarrow>
   find_active w ip port ps = Inr (List.find (\<lambda>p. remote_of w p = Some (ip, port)) ps)"
  by (induction ps) (auto simp: remote_of_def)

text \<open>
  \<open>run tcp-server <name> send-msg <ip> <port> <text>\<close> sends the text, once and whole, on the
  connection of the first established client of the server that has this remote address; without
  one nothing is sent and the command fails.
\<close>

lemma send_message_handler:
  assumes "command [t1, t2, t3, t4] 1 b" "named ''tcp-server-name'' n t1" "named ''remote-addr'' ip t2"
    and "named ''remote-port'' port t3" "named ''msg'' txt t4"
    and "TcpServer_lookup (Some n) a = Inr (Some s)" "server_at (tcp_world a) s = Inr x"
    and "\<forall>p\<in>set (established x). \<exists>c. client_in (tcp_world a) p = Some c \<and> comm_fd c \<noteq> 0"
  shows "case List.find (\<lambda>p. remote_of (tcp_world a) p = Some (network_covert_ip_p_to_n ip, u16_of port))
      (established x) of
    None \<Rightarrow> run_tcp_server_handler rc b m a =
      Inr (app_said (''Error : Remote Machine Connection not found'' @ [NL]) a, -1)
  | Some p \<Rightarrow> \<exists>a' c es. run_tcp_server_handler rc b m a = Inr (a', 0) \<and>
      client_in (tcp_world a) p = Some c \<and>
      events (tcp_world a') = events (tcp_world a) @ Sent (comm_fd c) (ascii txt) # es \<and>
      (\<forall>fd bs. Sent fd bs \<notin> set es)"
proof -
  let ?w = "tcp_world a"
  let ?f = "List.find (\<lambda>p. remote_of ?w p = Some (network_covert_ip_p_to_n ip, u16_of port)) (established x)"
  have l: "LookupActiveOpened s (network_covert_ip_p_to_n ip) (u16_of port) ?w = Inr ?f"
    using assms(7,8) find_active_eq [of "established x" ?w] by (fastforce simp: LookupActiveOpened_def)
  note h = command_reads [OF assms(1)] run_leaves [OF assms(2-5)] assms(6) l
  show ?thesis
  proof (cases ?f)
    case None
    then show ?thesis using h by (simp add: run_tcp_server_handler_def with_server_def)
  next
    case (Some p)
    then have "p \<in> set (established x)" by (auto simp: find_Some_iff)
    then obtain c where c: "client_in ?w p = Some c" "comm_fd c \<noteq> 0" using assms(8) by blast
    obtain w' r es where w': "SendMsg p (ascii txt) rc ?w = Inr (w', r)"
      "events w' = events ?w @ Sent (comm_fd c) (ascii txt) # es" "\<forall>fd bs. Sent fd bs \<notin> set es"
      using c by (cases "rc < 0") (auto simp: SendMsg_def Let_def log_event_def said_def set_client_def)
    then have "run_tcp_server_handler rc b m a = Inr (a\<lparr>tcp_world := w'\<rparr>, 0)"
      using h Some by (simp add: run_tcp_server_handler_def with_server_def)
    then show ?thesis using Some c w' by auto
  qed
qed


section \<open>The commands at work\<close>

definition demo_app :: tcp_app where
  "demo_app = \<lparr>tcp_server_lst = [0], tcp_world = demo_world\<rparr>"

lemma demo_lookup:
  "TcpServer_lookup (Some ''s'') demo_app = Inr (Some 0)" "TcpServer_lookup (Some ''t'') demo_app = Inr None"
  by (simp_all add: TcpServer_lookup_def demo_app_def demo_server_def)

lemma demo_sys_ok: "0 \<le> sy_accept_fd demo_sys" "0 \<le> sy_udp_fd demo_sys" "sy_udp_bind demo_sys \<noteq> -1"
  by (simp_all add: demo_sys_def)

text \<open>A server with an established connection to 0.0.0.9, port 8.\<close>

definition demo_active :: tcp_app where
  "demo_active = \<lparr>tcp_server_lst = [0],
     tcp_world = demo_world\<lparr>heap := [Some (demo_client\<lparr>server_ip_addr := 9, server_port_no := 8\<rparr>)],
       servers := [Some (demo_server\<lparr>established := [0]\<rparr>)]\<rparr>\<rparr>"

lemma demo_active_facts:
  "TcpServer_lookup (Some ''s'') demo_active = Inr (Some 0)"
  "server_at (tcp_world demo_active) 0 = Inr (demo_server\<lparr>established := [0]\<rparr>)"
  "client_in (tcp_world demo_active) 0 = Some (demo_client\<lparr>server_ip_addr := 9, server_port_no := 8\<rparr>)"
  "events (tcp_world demo_active) = []"
  by (simp_all add: TcpServer_lookup_def demo_active_def demo_defs server_at_def client_in_def)

end
