(* ===== verification/ShellProps.thy ===== *)
theory ShellProps
  imports ShellFacts TcpCliProps
begin

text \<open>
  The program as a whole: the tree that the boot sequence and an application build, the shell it
  leaves, and the server commands from the line that is typed to the servers they act on.
\<close>

section \<open>From units to handlers\<close>

lemma plain_no_NUL: "plain_word w \<Longrightarrow> NUL \<notin> set w"
  by (auto simp: plain_word_def)

lemma cstr_padded: "NUL \<notin> set v \<Longrightarrow> cstr (v @ replicate n NUL) = v"
  by (cases n) (auto simp: cstr_def takeWhile_append takeWhile_eq_all_conv)

lemma put_at_replicate: "length v \<le> n \<Longrightarrow> put_at 0 v (replicate n x) = v @ replicate (n - length v) x"
  by (simp add: put_at_def)

lemma named_unit:
  assumes "plain_word v" "NUL \<notin> set i" "length i \<le> LEAF_ID_SIZE"
  shows "named i v (shell_unit i lt v)"
proof -
  have "length v < LEAF_VALUE_HOLDER_SIZE" using assms(1) unfolding plain_word_def by blast
  then have "cstr (val (shell_unit i lt v)) = v"
    using plain_no_NUL [OF assms(1)]
    by (simp add: shell_unit_def value_tlv_def put_at_replicate cstr_app)
  moreover have "leaf_id (shell_unit i lt v) = i @ replicate (LEAF_ID_SIZE - length i) NUL"
    using assms(3)
    by (simp add: shell_unit_def value_tlv_def prepare_tlv_from_leaf_def leaf_data_def zero_tlv_def
        put_at_replicate)
  ultimately show ?thesis using assms(2) by (simp add: named_def cstr_padded)
qed

lemma command_units: "tlv_wf b \<Longrightarrow> tlvs b = us @ [code_unit k] \<Longrightarrow> is_int k \<Longrightarrow> command us k b"
  using code_unit_facts(2) by (auto simp: command_def)

text \<open>The name of the server, in the commands of this theory.\<close>

lemma server_name_unit: "plain_word n \<Longrightarrow> named ''tcp-server-name'' n (shell_unit ''tcp-server-name'' STRING n)"
  by (rule named_unit) simp_all

section \<open>The tree\<close>

text \<open>A sufficient test for well-formed trees: the parent of a parameter has a smaller number.\<close>

definition points :: "param list \<Rightarrow> pref \<Rightarrow> bool" where
  "points T q \<longleftrightarrow> q < length T \<and> (case cmd_type (T ! q) of NullPtr \<Rightarrow> False | _ \<Rightarrow> True)"

definition node_test :: "param list \<Rightarrow> nat \<Rightarrow> bool" where
  "node_test T p =
     (kind_ok (T ! p) \<and> length (options (T ! p)) = MAX_OPTION_SIZE \<and>
      list_all (\<lambda>q. case q of None \<Rightarrow> True | Some q \<Rightarrow> points T q) (options (T ! p)) \<and>
      (case parent (T ! p) of None \<Rightarrow> True | Some q \<Rightarrow> q < p))"

lemma points_declared: "points T q = declared T q"
  by (auto simp: points_def declared_def split: cmd_union.splits)

lemma tested_tree_ok:
  assumes "list_all (node_test T) [0..<length T]" "points T mode_param" "points T suboptions_param"
    "points T cmd_expansion_param" "T \<noteq> []"
  shows "tree_ok T"
proof -
  have n: "node_test T p" if "p < length T" for p
    using assms(1) that by (simp add: list_all_iff)
  have down: "ups T \<subseteq> (less_than)\<inverse>"
  proof
    fix e assume "e \<in> ups T"
    then obtain p q where e: "e = (p, q)" "p < length T" "parent (T ! p) = Some q" by (auto simp: ups_def)
    then have "q < p" using n [of p] by (simp add: node_test_def)
    then show "e \<in> (less_than)\<inverse>" using e(1) by simp
  qed
  then have "acyclic (ups T)"
    by (meson acyclic_converse acyclic_subset wf_acyclic wf_less_than)
  moreover have "node_ok T x" if "x \<in> set T" for x
  proof -
    from that obtain p where p: "p < length T" "T ! p = x" by (auto simp: in_set_conv_nth)
    have "declared T q" if "Some q \<in> set (options x)" for q
      using n [OF p(1)] that p(2) by (auto simp: node_test_def list_all_iff points_declared)
    then show ?thesis
      using n [OF p(1)] p by (auto simp: node_test_def node_ok_def split: option.splits)
  qed
  moreover have "parent (T ! root) = None"
    using n [of root] assms(5) by (auto simp: node_test_def split: option.splits)
  ultimately show ?thesis using assms(2-5) by (simp add: tree_ok_def points_declared)
qed

lemma init_tree_ok: "tree_ok (init_tree @ replicate n blank)"
proof (induction n)
  case 0
  show ?case
  proof (rule tested_tree_ok)
    show "list_all (node_test (init_tree @ replicate 0 blank)) [0..<length (init_tree @ replicate 0 blank)]"
      "points (init_tree @ replicate 0 blank) mode_param" "points (init_tree @ replicate 0 blank) suboptions_param"
      "points (init_tree @ replicate 0 blank) cmd_expansion_param"
      by code_simp+
  qed (simp add: init_tree_def)
next
  case (Suc n)
  have "replicate (Suc n) blank = replicate n blank @ [blank]" by (simp add: replicate_append_same)
  moreover have "kind_ok blank" "length (options blank) = MAX_OPTION_SIZE" "parent blank = None"
    "set (options blank) = {None}"
    by (simp_all add: blank_def) (simp_all add: zero_param_def kind_ok_def)
  ultimately show ?case using append_ok [OF Suc, of blank] by simp
qed

text \<open>The loop that looks for a child touches nothing but declared parameters.\<close>

lemma find_loop_safe:
  assumes "\<forall>q. Some q \<in> set os \<longrightarrow> declared (params c) q \<and> kind_ok (params c ! q)" "None \<in> set os"
    and "find_loop c str os lf possible = Inl e"
  shows "e = AssertFail"
  using assms
proof (induction os arbitrary: lf possible)
  case (Cons o' os)
  show ?case
  proof (cases o')
    case (Some q)
    have q: "q < length (params c)" "cmd_type (params c ! q) \<noteq> NullPtr" "kind_ok (params c ! q)"
      using Cons.prems(1) Some by (auto simp: declared_def)
    have rest: "\<forall>q. Some q \<in> set os \<longrightarrow> declared (params c) q \<and> kind_ok (params c ! q)" "None \<in> set os"
      using Cons.prems(1,2) Some by auto
    note IH = Cons.IH [OF rest]
    show ?thesis
    proof (cases "IS_PARAM_LEAF (params c ! q)")
      case True
      then show ?thesis using Cons.prems(3) Some q(1) IH [of "Some q" possible] by simp
    next
      case False
      then obtain n where "GET_CMD_NAME (params c ! q) = Inr n"
        using q(2,3) by (auto simp: kind_ok_def IS_PARAM_LEAF_def GET_CMD_NAME_def split: cmd_union.splits)
      then show ?thesis
        using Cons.prems(3) Some q(1) False IH [of lf possible] IH [of lf "possible @ [q]"]
        by (auto simp: is_cmd_string_match_def split: if_splits)
    qed
  qed (use Cons.prems in simp)
qed simp

text \<open>
  C24: the command tree stays well-formed. After the boot sequence an application initialises,
  negates, hides and numbers parameters, and registers parameters that it has initialised, other
  than the root and not below themselves or their own descendants; lines are typed in between. Then
  every walk towards the root ends; a parameter that hangs below the root has a branch without
  repetitions, whose first parameter is its hook; and looking for a child below a parameter that has
  an option free goes wrong in one way only, the assertion on too many possibilities. The library
  does not check what is registered: a registration of a parameter below itself or a descendant is
  taken, and from then on the walk from this parameter towards the root never ends.
\<close>

theorem tree_stays_well_formed:
  assumes "init_libcli (before_main n inp fs be) = Inr c0" "sensible_op\<^sup>*\<^sup>* c0 c"
  shows "tree_ok (params c) \<and> (\<forall>p. branch_loop c p \<noteq> None) \<and>
    (\<forall>p. (p, root) \<in> (ups (params c))\<^sup>+ \<longrightarrow>
       (\<exists>ps. branch c p ps \<and> distinct ps \<and> get_current_branch_hook c (Some p) = Inr (hd ps))) \<and>
    (\<forall>p str e. p < length (params c) \<and> None \<in> set (options (params c ! p)) \<and>
       find_loop c str (options (params c ! p)) None [] = Inl e \<longrightarrow> e = AssertFail) \<and>
    (\<forall>par p c'. p \<noteq> root \<and> (hung_below par, p) \<in> (ups (params c))\<^sup>* \<and>
       libcli_register_param par p c = Inr c' \<longrightarrow> branch_loop c' p = None)"
proof -
  obtain qs where "c0 = (booted n inp fs be)\<lparr>params := qs\<rparr>" "map sketch_of qs = init_tree @ replicate n blank"
    using init_libcli_tree [of n inp fs be] assms(1) by auto
  then have "tree_ok (params c0)" using init_tree_ok [of n] tree_ok_sketch [of qs] by simp
  then have t: "tree_ok (params c)" by (rule sensible_ops_ok [OF assms(2)])
  have "\<exists>ps. branch c p ps \<and> distinct ps \<and> get_current_branch_hook c (Some p) = Inr (hd ps)"
    if "(p, root) \<in> (ups (params c))\<^sup>+" for p
  proof -
    from up_branch [OF that] obtain ps where ps: "branch c p ps" by blast
    have "p \<noteq> root"
      using that tree_okD(2) [OF t] unfolding acyclic_def by metis
    then show ?thesis
      using ps branch_distinct(1) [OF t ps] get_current_branch_hook_hd by blast
  qed
  moreover have "e = AssertFail"
    if "p < length (params c)" "None \<in> set (options (params c ! p))"
      "find_loop c str (options (params c ! p)) None [] = Inl e" for p str e
  proof (rule find_loop_safe [OF _ that(2,3)])
    show "\<forall>q. Some q \<in> set (options (params c ! p)) \<longrightarrow> declared (params c) q \<and> kind_ok (params c ! q)"
      using tree_okD(1) [OF t that(1)] tree_ok_kind [OF t] by (auto simp: node_ok_def declared_def)
  qed
  ultimately show ?thesis using t branch_loop_ends [OF t] registered_below_itself [OF t] by blast
qed

text \<open>The extension \<open>brief\<close>, registered below \<open>show help\<close>.\<close>

lemma brief_below_help:
  assumes "sketch c = init_tree"
  obtains qs where "sensible_op c (c\<lparr>params := qs\<rparr>)"
    "(show_brief_extension, root) \<in> (ups (params (c\<lparr>params := qs\<rparr>)))\<^sup>+"
proof -
  have "case b_under 13 show_brief_extension init_tree of None \<Rightarrow> False | Some T \<Rightarrow>
      length T = 35 \<and> parent (T ! show_brief_extension) = Some 13 \<and> parent (T ! 13) = Some show_hook \<and>
      parent (T ! show_hook) = Some root"
    by code_simp
  then obtain T where T: "b_under 13 show_brief_extension init_tree = Some T" "length T = 35"
    "parent (T ! show_brief_extension) = Some 13" "parent (T ! 13) = Some show_hook"
    "parent (T ! show_hook) = Some root"
    by (auto split: option.splits)
  obtain qs where qs: "libcli_register_param (Some 13) show_brief_extension c = Inr (c\<lparr>params := qs\<rparr>)"
    "sketch (c\<lparr>params := qs\<rparr>) = T"
    using buildsE [OF builds_under(1), of 13 show_brief_extension c T] T(1) assms by (auto simp: under_def)
  have u: "ups (params c) = ups init_tree" using assms ups_sketch [of "params c"] by (simp add: sketch_def)
  have "list_all (\<lambda>x. case parent x of None \<Rightarrow> True | Some q \<Rightarrow> q \<noteq> show_brief_extension) init_tree"
    by code_simp
  then have "(y, show_brief_extension) \<notin> ups init_tree" for y
    by (auto simp: ups_def list_all_length)
  then have "(13, show_brief_extension) \<notin> (ups (params c))\<^sup>*" unfolding u by (auto elim: rtranclE)
  moreover have "points init_tree show_brief_extension" by code_simp
  then have "declared (params c) show_brief_extension"
    using assms declared_sketch [of "params c"] by (simp add: points_declared sketch_def)
  ultimately have "sensible c (Register (Some 13) show_brief_extension)"
    by (simp add: sensible_def hung_below_def)
  then have "sensible_op c (c\<lparr>params := qs\<rparr>)"
    using tree_op.register [OF qs(1)] unfolding sensible_op_def by blast
  moreover have "ups qs = ups T" using qs(2) ups_sketch [of qs] by simp
  then have "(show_brief_extension, 13) \<in> ups qs" "(13, show_hook) \<in> ups qs" "(show_hook, root) \<in> ups qs"
    using T by (auto simp: ups_def)
  then have "(show_brief_extension, root) \<in> (ups qs)\<^sup>+" by (meson r_into_trancl' trancl_trans)
  ultimately show thesis using that by simp
qed

theorem tree_stays_well_formed_witness:
  "\<exists>c0 c ps. init_libcli (before_main 0 [] (\<lambda>_. None) (\<lambda>_ _ _. [])) = Inr c0 \<and> sensible_op\<^sup>*\<^sup>* c0 c \<and>
     branch c show_brief_extension ps \<and> distinct ps \<and>
     (\<forall>c'. libcli_register_param (Some show_brief_extension) show_brief_extension c = Inr c' \<longrightarrow>
        branch_loop c' show_brief_extension = None)"
proof -
  obtain c0 where c0: "init_libcli (before_main 0 [] (\<lambda>_. None) (\<lambda>_ _ _. [])) = Inr c0" "sketch c0 = init_tree"
    using init_libcli_tree [of 0] by fastforce
  obtain qs where qs: "sensible_op c0 (c0\<lparr>params := qs\<rparr>)"
    "(show_brief_extension, root) \<in> (ups (params (c0\<lparr>params := qs\<rparr>)))\<^sup>+"
    using brief_below_help [OF c0(2)] by blast
  then have "sensible_op\<^sup>*\<^sup>* c0 (c0\<lparr>params := qs\<rparr>)" by blast
  note w = tree_stays_well_formed [OF c0(1) this]
  have "(hung_below (Some show_brief_extension), show_brief_extension) \<in> (ups (params (c0\<lparr>params := qs\<rparr>)))\<^sup>*"
    by (simp add: hung_below_def)
  then show ?thesis using w c0(1) qs(2) \<open>sensible_op\<^sup>*\<^sup>* c0 (c0\<lparr>params := qs\<rparr>)\<close> by (metis zero_neq_numeral)
qed

section \<open>Commands from the line to the servers\<close>

lemmas ordinary_simps = ordinary_def abbreviates_def has_prefix_def strncmp_eq_def

lemma fixed_words:
  "plain_word ''config''" "plain_word ''no''" "plain_word ''tcp-server''" "plain_word ''multi-threaded-mode''"
  "plain_word ''run''" "plain_word ''send-msg''"
  by (simp_all add: plain_word_def isspace_def)

lemma create_line:
  assumes "at_prompt c" "\<forall>b md. backend c 0 b md = []" "plain_word n"
  obtains c' b where "parse_input_cmd (Suc k) (''config tcp-server '' @ n) c = Inr (c', COMPLETE, False)"
    "at_prompt c'" "calls c' = calls c @ [(0, 36, b, CONFIG_ENABLE)]"
    "command [shell_unit ''tcp-server-name'' STRING n] 1 b" "backend c' = backend c"
proof -
  let ?ws = "[''config'', ''tcp-server'', n]"
  have br: "branch c 36 [config, 35, 36]" using assms(1) server_branches by (simp add: at_prompt_def prompt_with_def)
  have w: "\<forall>w\<in>set ?ws. plain_word w" using assms(3) fixed_words by simp
  have o: "ordinary c ?ws" by (simp add: ordinary_simps)
  show thesis
  proof (rule prompt_line [OF assms(1) w _ _ o server_words(1) [OF assms(3)] br, of 0])
    fix c' b
    assume "parse_input_cmd (Suc k) (spaced ?ws) c = Inr (c', COMPLETE, False)"
      "calls c' = calls c @ [(0, 36, b, command_mode (hd [config, 35, 36]) MODE_UNKNOWN)]"
      "tlv_wf b" "tlvs b = [shell_unit ''tcp-server-name'' STRING n] @ [code_unit (CMDCODE (shell_tree ! 36))]"
      "at_prompt c'" "backend c' = backend c"
    then show thesis
      using that [of c' b] command_units [of b _ 1]
      by (simp add: shell_nodes command_mode_def is_int_def del: parse_input_cmd.simps)
  qed (use assms(2) in \<open>simp_all add: shell_nodes is_int_def\<close>)
qed

text \<open>
  C11: \<open>config tcp-server <name>\<close>, typed at the prompt of the shell for a name that is not taken,
  comes back to the prompt and calls the handler of the servers once. That call makes a server of
  this name for 127.0.0.1, port 40000, with the callbacks of the shell, in front of the list; it is
  what the name stands for from then on, and the same call once more is refused.
\<close>

theorem create_server_command:
  assumes "at_prompt c" "\<forall>b md. backend c 0 b md = []" "plain_word n"
    and "TcpServer_lookup (Some n) a = Inr None"
    and "0 \<le> sy_accept_fd sy" "0 \<le> sy_udp_fd sy" "sy_udp_bind sy \<noteq> -1"
  shows "\<exists>c' call a' s x.
    parse_input_cmd (Suc k) (''config tcp-server '' @ n) c = Inr (c', COMPLETE, False) \<and>
    at_prompt c' \<and> calls c' = calls c @ [call] \<and> run_calls sy ca rc [call] a = Inr a' \<and>
    tcp_server_lst a' = s # tcp_server_lst a \<and> TcpServer_lookup (Some n) a' = Inr (Some s) \<and>
    server_at (tcp_world a') s = Inr x \<and> s_name x = n \<and> s_port_no x = 40000 \<and>
    s_ip_addr x = network_covert_ip_p_to_n ''127.0.0.1'' \<and> client_msg_recvd x = Hook \<and>
    run_calls sy ca rc [call] a' = Inr (app_said (''Error : Tcp Server Already Exist'' @ [NL]) a')"
proof (rule create_line [OF assms(1-3)])
  fix c' b
  assume c': "parse_input_cmd (Suc k) (''config tcp-server '' @ n) c = Inr (c', COMPLETE, False)"
    "at_prompt c'" "calls c' = calls c @ [(0, 36, b, CONFIG_ENABLE)]"
    "command [shell_unit ''tcp-server-name'' STRING n] 1 b"
  obtain a' s x where "config_tcp_server_handler sy ca b CONFIG_ENABLE a = Inr (a', 0)"
    "tcp_server_lst a' = s # tcp_server_lst a" "TcpServer_lookup (Some n) a' = Inr (Some s)"
    "server_at (tcp_world a') s = Inr x" "s_name x = n" "s_port_no x = 40000"
    "s_ip_addr x = network_covert_ip_p_to_n ''127.0.0.1''" "client_msg_recvd x = Hook"
    "config_tcp_server_handler sy ca b CONFIG_ENABLE a' =
      Inr (app_said (''Error : Tcp Server Already Exist'' @ [NL]) a', -1)"
    using create_server_handler [OF c'(4) server_name_unit [OF assms(3)] assms(4-7), of ca CONFIG_ENABLE]
    by blast
  then show ?thesis
    using c'(1-3)
    by (intro exI [of _ c'] exI [of _ "(0, 36, b, CONFIG_ENABLE)"] exI [of _ a'] exI [of _ s] exI [of _ x]) simp
qed

lemma demo_prompt:
  obtains c where "at_prompt c" "\<forall>b md. backend c i b md = []"
proof -
  from tcp_main_prompt [of "[]" "\<lambda>_. None" "\<lambda>_ _ _. []"] obtain c where
    "at_prompt c" "backend c = (\<lambda>_ _ _. [])" by blast
  then show thesis using that by simp
qed

lemma demo_plain: "plain_word ''t''" "plain_word ''s''" "plain_word ''8''" "plain_word ''hi''"
  "plain_word ''0.0.0.9''"
  by (simp_all add: plain_word_def isspace_def)

theorem create_server_command_witness:
  "\<exists>c c' call a' s. at_prompt c \<and>
     parse_input_cmd (Suc 0) ''config tcp-server t'' c = Inr (c', COMPLETE, False) \<and>
     run_calls demo_sys refused 0 [call] demo_app = Inr a' \<and> TcpServer_lookup (Some ''t'') a' = Inr (Some s)"
proof (rule demo_prompt)
  fix c
  assume c: "at_prompt c" "\<forall>b md. backend c 0 b md = []"
  have line: "''config tcp-server '' @ ''t'' = ''config tcp-server t''" by simp
  from create_server_command [OF c demo_plain(1) demo_lookup(2) demo_sys_ok, of 0 refused 0, unfolded line]
  obtain c' call a' s where
    "parse_input_cmd (Suc 0) ''config tcp-server t'' c = Inr (c', COMPLETE, False)"
    "run_calls demo_sys refused 0 [call] demo_app = Inr a'" "TcpServer_lookup (Some ''t'') a' = Inr (Some s)"
    by (elim exE conjE)
  with c(1) show ?thesis by (intro exI conjI)
qed

text \<open>The words of the commands on the mode of a server.\<close>

definition mode_line :: "bool \<Rightarrow> string \<Rightarrow> string list" where
  "mode_line on n =
     (if on then [''config'', ''tcp-server'', n, ''multi-threaded-mode'']
      else [''config'', ''no'', ''tcp-server'', n, ''multi-threaded-mode''])"

lemma mode_line_call:
  assumes "at_prompt c" "\<forall>b md. backend c 0 b md = []" "plain_word n"
  obtains c' b where "parse_input_cmd (Suc k) (spaced (mode_line on n)) c = Inr (c', COMPLETE, False)"
    "at_prompt c'" "calls c' = calls c @ [(0, 42, b, if on then CONFIG_ENABLE else CONFIG_DISABLE)]"
    "command [shell_unit ''tcp-server-name'' STRING n] 11 b"
proof -
  let ?ws = "mode_line on n"
  have br: "branch c 42 [config, 35, 36, 42]" using assms(1) server_branches by (simp add: at_prompt_def prompt_with_def)
  have w: "\<forall>w\<in>set ?ws. plain_word w"
    using assms(3) fixed_words by (cases on) (simp_all add: mode_line_def)
  have o: "ordinary c ?ws" by (cases on) (simp_all add: mode_line_def ordinary_simps)
  have r: "resolve (in_shell c) root MODE_UNKNOWN ?ws =
      Some (42, if on then MODE_UNKNOWN else CONFIG_DISABLE, [shell_unit ''tcp-server-name'' STRING n])"
    using server_words(2,3) [OF assms(3)] by (simp add: mode_line_def del: resolve.simps)
  show thesis
  proof (rule prompt_line [OF assms(1) w _ _ o r br, of 0])
    fix c' b
    assume "parse_input_cmd (Suc k) (spaced ?ws) c = Inr (c', COMPLETE, False)"
      "calls c' = calls c @ [(0, 42, b, command_mode (hd [config, 35, 36, 42])
         (if on then MODE_UNKNOWN else CONFIG_DISABLE))]"
      "tlv_wf b" "tlvs b = [shell_unit ''tcp-server-name'' STRING n] @ [code_unit (CMDCODE (shell_tree ! 42))]"
      "at_prompt c'"
    then show thesis
      using that [of c' b] command_units [of b _ 11]
      by (cases on) (simp_all add: shell_nodes command_mode_def is_int_def del: parse_input_cmd.simps)
  qed (use assms(2) in \<open>simp_all add: shell_nodes is_int_def mode_line_def\<close>)
qed

text \<open>
  \<open>config [no] tcp-server <name> multi-threaded-mode\<close>, typed at the prompt, sets or clears
  the mode bit of the server and leaves every other bit. The case of the handler that runs on into
  the next one, which looks the server up once more, changes nothing.
\<close>

theorem multi_threaded_command:
  assumes "at_prompt c" "\<forall>b md. backend c 0 b md = []" "plain_word n"
    and "TcpServer_lookup (Some n) a = Inr (Some s)" "server_at (tcp_world a) s = Inr x"
  shows "\<exists>c' call a' x'.
    parse_input_cmd (Suc k) ((if on then ''config '' else ''config no '') @ ''tcp-server '' @ n @
      '' multi-threaded-mode'') c = Inr (c', COMPLETE, False) \<and>
    at_prompt c' \<and> calls c' = calls c @ [call] \<and> run_calls sy ca rc [call] a = Inr a' \<and>
    server_at (tcp_world a') s = Inr x' \<and>
    s_state_flags x' = (if on then s_state_flags x OR 16 else s_state_flags x AND NOT 16) \<and>
    TcpServer_lookup (Some n) a' = Inr (Some s)"
proof (rule mode_line_call [OF assms(1-3)])
  fix c' b
  let ?m = "if on then CONFIG_ENABLE else CONFIG_DISABLE"
  assume c': "parse_input_cmd (Suc k) (spaced (mode_line on n)) c = Inr (c', COMPLETE, False)"
    "at_prompt c'" "calls c' = calls c @ [(0, 42, b, ?m)]"
    "command [shell_unit ''tcp-server-name'' STRING n] 11 b"
  have line: "spaced (mode_line on n) =
      (if on then ''config '' else ''config no '') @ ''tcp-server '' @ n @ '' multi-threaded-mode''"
    by (simp add: mode_line_def)
  obtain a' x' where "config_tcp_server_handler sy ca b ?m a = Inr (a', 0)"
    "server_at (tcp_world a') s = Inr x'"
    "s_state_flags x' = (if ?m = CONFIG_ENABLE then s_state_flags x OR 16 else s_state_flags x AND NOT 16)"
    "TcpServer_lookup (Some n) a' = Inr (Some s)"
    using multi_threaded_handler [OF c'(4) server_name_unit [OF assms(3)] assms(4,5), of ?m sy ca]
    by (cases on) auto
  then show ?thesis
    using c'(1-3)
    by (intro exI [of _ c'] exI [of _ "(0, 42, b, ?m)"] exI [of _ a'] exI [of _ x'])
       (simp add: line del: parse_input_cmd.simps)
qed

theorem multi_threaded_command_witness:
  "\<exists>c c' call a' x'. at_prompt c \<and>
     parse_input_cmd (Suc 0) ''config tcp-server s multi-threaded-mode'' c = Inr (c', COMPLETE, False) \<and>
     run_calls demo_sys refused 0 [call] demo_app = Inr a' \<and> server_at (tcp_world a') 0 = Inr x' \<and>
     s_state_flags x' = s_state_flags demo_server OR 16"
proof (rule demo_prompt)
  fix c
  assume c: "at_prompt c" "\<forall>b md. backend c 0 b md = []"
  have line: "''config '' @ ''tcp-server '' @ ''s'' @ '' multi-threaded-mode'' =
      ''config tcp-server s multi-threaded-mode''" by simp
  have x: "server_at (tcp_world demo_app) 0 = Inr demo_server" by (simp add: demo_app_def)
  from multi_threaded_command [OF c demo_plain(2) demo_lookup(1) x, of 0 True demo_sys refused 0, unfolded if_True line]
  obtain c' call a' x' where
    "parse_input_cmd (Suc 0) ''config tcp-server s multi-threaded-mode'' c = Inr (c', COMPLETE, False)"
    "run_calls demo_sys refused 0 [call] demo_app = Inr a'" "server_at (tcp_world a') 0 = Inr x'"
    "s_state_flags x' = s_state_flags demo_server OR 16"
    by (elim exE conjE)
  with c(1) show ?thesis by (intro exI conjI)
qed

lemma send_line:
  assumes "at_prompt c" "\<forall>b md. backend c 1 b md = []"
    and "plain_word n" "plain_word ip" "plain_word port" "plain_word txt"
  obtains c' b where
    "parse_input_cmd (Suc k) (''run tcp-server '' @ n @ '' send-msg '' @ ip @ '' '' @ port @ '' '' @ txt) c =
       Inr (c', COMPLETE, False)"
    "at_prompt c'" "calls c' = calls c @ [(1, 54, b, OPERATIONAL)]"
    "command [shell_unit ''tcp-server-name'' STRING n, shell_unit ''remote-addr'' IPV4 ip,
      shell_unit ''remote-port'' INT_LEAF port, shell_unit ''msg'' STRING txt] 1 b"
proof -
  let ?ws = "[''run'', ''tcp-server'', n, ''send-msg'', ip, port, txt]"
  let ?us = "[shell_unit ''tcp-server-name'' STRING n, shell_unit ''remote-addr'' IPV4 ip,
      shell_unit ''remote-port'' INT_LEAF port, shell_unit ''msg'' STRING txt]"
  have br: "branch c 54 [run, 49, 50, 51, 52, 53, 54]"
    using assms(1) server_branches by (simp add: at_prompt_def prompt_with_def)
  have w: "\<forall>w\<in>set ?ws. plain_word w" using assms(3-6) fixed_words by simp
  have o: "ordinary c ?ws" by (simp add: ordinary_simps)
  show thesis
  proof (rule prompt_line [OF assms(1) w _ _ o send_words [OF assms(3-6)] br, of 1])
    fix c' b
    assume "parse_input_cmd (Suc k) (spaced ?ws) c = Inr (c', COMPLETE, False)"
      "calls c' = calls c @ [(1, 54, b, command_mode (hd [run, 49, 50, 51, 52, 53, 54]) MODE_UNKNOWN)]"
      "tlv_wf b" "tlvs b = ?us @ [code_unit (CMDCODE (shell_tree ! 54))]" "at_prompt c'"
    then show thesis
      using that [of c' b] command_units [of b ?us 1]
      by (simp add: shell_nodes command_mode_def is_int_def del: parse_input_cmd.simps)
  qed (use assms(2) in \<open>simp_all add: shell_nodes is_int_def\<close>)
qed

text \<open>
  C12: \<open>run tcp-server <name> send-msg <ip> <port> <text>\<close>, typed at the prompt, sends the text,
  once and whole, on the connection of the first established client of the server that has this
  remote address; without one nothing is sent and an error is printed.
\<close>

theorem send_message_command:
  assumes "at_prompt c" "\<forall>b md. backend c 1 b md = []"
    and "plain_word n" "plain_word ip" "plain_word port" "plain_word txt"
    and "TcpServer_lookup (Some n) a = Inr (Some s)" "server_at (tcp_world a) s = Inr x"
    and "\<forall>p\<in>set (established x). \<exists>c. client_in (tcp_world a) p = Some c \<and> comm_fd c \<noteq> 0"
  shows "\<exists>c' call.
    parse_input_cmd (Suc k) (''run tcp-server '' @ n @ '' send-msg '' @ ip @ '' '' @ port @ '' '' @ txt) c =
      Inr (c', COMPLETE, False) \<and>
    at_prompt c' \<and> calls c' = calls c @ [call] \<and>
    (case List.find (\<lambda>p. remote_of (tcp_world a) p = Some (network_covert_ip_p_to_n ip, u16_of port))
        (established x) of
      None \<Rightarrow> run_calls sy ca rc [call] a =
        Inr (app_said (''Error : Remote Machine Connection not found'' @ [NL]) a)
    | Some p \<Rightarrow> \<exists>a' cl es. run_calls sy ca rc [call] a = Inr a' \<and>
        client_in (tcp_world a) p = Some cl \<and>
        events (tcp_world a') = events (tcp_world a) @ Sent (comm_fd cl) (ascii txt) # es \<and>
        (\<forall>fd bs. Sent fd bs \<notin> set es))"
proof (rule send_line [OF assms(1-6)])
  fix c' b
  assume c': "parse_input_cmd (Suc k) (''run tcp-server '' @ n @ '' send-msg '' @ ip @ '' '' @ port @ '' '' @ txt) c =
       Inr (c', COMPLETE, False)"
    "at_prompt c'" "calls c' = calls c @ [(1, 54, b, OPERATIONAL)]"
    and b: "command [shell_unit ''tcp-server-name'' STRING n, shell_unit ''remote-addr'' IPV4 ip,
      shell_unit ''remote-port'' INT_LEAF port, shell_unit ''msg'' STRING txt] 1 b"
  have u: "named ''remote-addr'' ip (shell_unit ''remote-addr'' IPV4 ip)"
    "named ''remote-port'' port (shell_unit ''remote-port'' INT_LEAF port)"
    "named ''msg'' txt (shell_unit ''msg'' STRING txt)"
    by (rule named_unit; use assms(4-6) in simp)+
  note h = send_message_handler [OF b server_name_unit [OF assms(3)] u assms(7-9), of rc OPERATIONAL]
  show ?thesis
    by (intro exI [of _ c'] exI [of _ "(1, 54, b, OPERATIONAL)"] conjI c')
       (use h in \<open>auto split: option.splits\<close>)
qed

theorem send_message_command_witness:
  "\<exists>c c' call a' es. at_prompt c \<and>
     parse_input_cmd (Suc 0) ''run tcp-server s send-msg 0.0.0.9 8 hi'' c = Inr (c', COMPLETE, False) \<and>
     run_calls demo_sys refused 2 [call] demo_active = Inr a' \<and>
     events (tcp_world a') = Sent 5 (ascii ''hi'') # es"
proof (rule demo_prompt)
  fix c
  assume c: "at_prompt c" "\<forall>b md. backend c 1 b md = []"
  have line: "''run tcp-server '' @ ''s'' @ '' send-msg '' @ ''0.0.0.9'' @ '' '' @ ''8'' @ '' '' @ ''hi'' =
      ''run tcp-server s send-msg 0.0.0.9 8 hi''" by simp
  let ?c = "demo_client\<lparr>server_ip_addr := 9, server_port_no := 8\<rparr>"
  have fd: "comm_fd ?c = 5" by (simp add: demo_client_def)
  have ip: "network_covert_ip_p_to_n ''0.0.0.9'' = 9" "u16_of ''8'' = 8" by code_simp+
  have l: "\<forall>p\<in>set (established (demo_server\<lparr>established := [0]\<rparr>)).
      \<exists>c. client_in (tcp_world demo_active) p = Some c \<and> comm_fd c \<noteq> 0"
    using demo_active_facts(3) fd by simp
  have f: "List.find (\<lambda>p. remote_of (tcp_world demo_active) p =
      Some (network_covert_ip_p_to_n ''0.0.0.9'', u16_of ''8'')) (established (demo_server\<lparr>established := [0]\<rparr>)) = Some 0"
    using demo_active_facts(3) by (simp add: ip remote_of_def)
  from send_message_command [OF c demo_plain(2,5,3,4) demo_active_facts(1,2) l, of 0 demo_sys refused 2,
      unfolded line f option.case]
  obtain c' call a' cl es where r:
    "parse_input_cmd (Suc 0) ''run tcp-server s send-msg 0.0.0.9 8 hi'' c = Inr (c', COMPLETE, False)"
    "run_calls demo_sys refused 2 [call] demo_active = Inr a'" "client_in (tcp_world demo_active) 0 = Some cl"
    "events (tcp_world a') = events (tcp_world demo_active) @ Sent (comm_fd cl) (ascii ''hi'') # es"
    by (elim exE conjE)
  have "events (tcp_world a') = Sent 5 (ascii ''hi'') # es"
    using r(3,4) demo_active_facts(3,4) fd by simp
  with c(1) r(1,2) show ?thesis by (intro exI conjI)
qed

end
