(* ===== verification/Glthread.thy ===== *)
theory Glthread
  imports Prelude
begin

text \<open>
  The intrusive doubly linked list of \<^verbatim>\<open>libtimer/gluethread/glthread.cpp\<close> and of
  \<^verbatim>\<open>CommandParser/gluethread/glthread.c\<close>, which is the same file without its last function:
  the operations on a store of nodes, and how they implement lists.
\<close>

section \<open>The store\<close>

text \<open>
  A node lives inside a larger object, and its address, of any type \<open>'a\<close>, tells where. An
  address without a node belongs to an object that was freed.
\<close>

record 'a glthread =
  left :: "'a option"
  right :: "'a option"

type_synonym 'a gstore = "'a \<Rightarrow> 'a glthread option"

definition node_at :: "'a gstore \<Rightarrow> 'a \<Rightarrow> 'a glthread res" where
  "node_at s p = (case s p of None \<Rightarrow> Inl UseAfterFree | Some n \<Rightarrow> Inr n)"

definition set_left :: "'a \<Rightarrow> 'a option \<Rightarrow> 'a gstore \<Rightarrow> 'a gstore res" where
  "set_left p x s = rbind (node_at s p) (\<lambda>n. Inr (s(p \<mapsto> n\<lparr>left := x\<rparr>)))"

definition set_right :: "'a \<Rightarrow> 'a option \<Rightarrow> 'a gstore \<Rightarrow> 'a gstore res" where
  "set_right p x s = rbind (node_at s p) (\<lambda>n. Inr (s(p \<mapsto> n\<lparr>right := x\<rparr>)))"

section \<open>The operations\<close>

definition init_glthread :: "'a \<Rightarrow> 'a gstore \<Rightarrow> 'a gstore res" where
  "init_glthread p s = rbind (set_left p None s) (set_right p None)"

definition glthread_add_next :: "'a \<Rightarrow> 'a \<Rightarrow> 'a gstore \<Rightarrow> 'a gstore res" where
  "glthread_add_next cur new s =
     rbind (node_at s cur) (\<lambda>c.
     case right c of
       None \<Rightarrow> rbind (set_right cur (Some new) s) (set_left new (Some cur))
     | Some temp \<Rightarrow>
         rbind (set_right cur (Some new) s) (\<lambda>s.
         rbind (set_left new (Some cur) s) (\<lambda>s.
         rbind (set_right new (Some temp) s) (set_left temp (Some new)))))"

definition glthread_add_before :: "'a \<Rightarrow> 'a \<Rightarrow> 'a gstore \<Rightarrow> 'a gstore res" where
  "glthread_add_before cur new s =
     rbind (node_at s cur) (\<lambda>c.
     case left c of
       None \<Rightarrow>
         rbind (set_left new None s) (\<lambda>s.
         rbind (set_right new (Some cur) s) (set_left cur (Some new)))
     | Some temp \<Rightarrow>
         rbind (set_right temp (Some new) s) (\<lambda>s.
         rbind (set_left new (Some temp) s) (\<lambda>s.
         rbind (set_right new (Some cur) s) (set_left cur (Some new)))))"

definition remove_glthread :: "'a \<Rightarrow> 'a gstore \<Rightarrow> 'a gstore res" where
  "remove_glthread cur s =
     rbind (node_at s cur) (\<lambda>c.
     case left c of
       None \<Rightarrow>
         (case right c of
            Some r \<Rightarrow> rbind (set_left r None s) (set_right cur None)
          | None \<Rightarrow> Inr s)
     | Some l \<Rightarrow>
         (case right c of
            None \<Rightarrow> rbind (set_right l None s) (set_left cur None)
          | Some r \<Rightarrow>
              rbind (set_right l (Some r) s) (\<lambda>s.
              rbind (set_left r (Some l) s) (\<lambda>s.
              rbind (set_left cur None s) (set_right cur None)))))"

definition IS_GLTHREAD_LIST_EMPTY :: "'a gstore \<Rightarrow> 'a \<Rightarrow> bool res" where
  "IS_GLTHREAD_LIST_EMPTY s p = rbind (node_at s p) (\<lambda>n. Inr (right n = None \<and> left n = None))"

text \<open>
  The iteration macro with a body that only looks at the nodes: the nodes behind the head. It
  ends only when the nodes do not go round in a circle.
\<close>

partial_function (option) walk :: "'a gstore \<Rightarrow> 'a option \<Rightarrow> 'a list res option" where
  "walk s p =
     (case p of
        None \<Rightarrow> Some (Inr [])
      | Some q \<Rightarrow>
          (case node_at s q of
             Inl e \<Rightarrow> Some (Inl e)
           | Inr n \<Rightarrow>
               Option.bind (walk s (right n)) (\<lambda>r. Some (rbind r (\<lambda>qs. Inr (q # qs))))))"

declare walk.simps [code]

definition glthreads :: "'a gstore \<Rightarrow> 'a \<Rightarrow> 'a list res" where
  "glthreads s head = rbind (node_at s head) (\<lambda>n. run_loop (walk s (right n)))"

text \<open>The same macro with a body that removes each node; the next one is read first.\<close>

partial_function (option) delete_loop :: "'a option \<Rightarrow> 'a gstore \<Rightarrow> 'a gstore res option" where
  "delete_loop p s =
     (case p of
        None \<Rightarrow> Some (Inr s)
      | Some q \<Rightarrow>
          (case node_at s q of
             Inl e \<Rightarrow> Some (Inl e)
           | Inr n \<Rightarrow>
               (case remove_glthread q s of
                  Inl e \<Rightarrow> Some (Inl e)
                | Inr s' \<Rightarrow> delete_loop (right n) s')))"

declare delete_loop.simps [code]

definition delete_glthread_list :: "'a \<Rightarrow> 'a gstore \<Rightarrow> 'a gstore res" where
  "delete_glthread_list head s =
     rbind (node_at s head) (\<lambda>n. run_loop (delete_loop (right n) s))"

definition glthread_add_last :: "'a \<Rightarrow> 'a \<Rightarrow> 'a gstore \<Rightarrow> 'a gstore res" where
  "glthread_add_last head new s =
     rbind (glthreads s head) (\<lambda>ps. glthread_add_next (last (head # ps)) new s)"

definition get_glthread_list_count :: "'a gstore \<Rightarrow> 'a \<Rightarrow> 32 word res" where
  "get_glthread_list_count s head = rbind (glthreads s head) (\<lambda>ps. Inr (word_of_nat (length ps)))"

definition dequeue_glthread_first :: "'a \<Rightarrow> 'a gstore \<Rightarrow> ('a gstore \<times> 'a option) res" where
  "dequeue_glthread_first base s =
     rbind (node_at s base) (\<lambda>n.
     case right n of
       None \<Rightarrow> Inr (s, None)
     | Some temp \<Rightarrow> rbind (remove_glthread temp s) (\<lambda>s. Inr (s, Some temp)))"

definition glthread_get_last :: "'a gstore \<Rightarrow> 'a \<Rightarrow> 'a option res" where
  "glthread_get_last s cur =
     rbind (glthreads s cur) (\<lambda>ps. Inr (if ps = [] then None else Some (last ps)))"

text \<open>
  \<open>comp_fn\<close> compares the objects around two nodes. The loop runs over the nodes from \<open>p\<close> on,
  \<open>prev\<close> being the last one passed.
\<close>

partial_function (option) priority_loop ::
    "('a \<Rightarrow> 'a \<Rightarrow> int res) \<Rightarrow> 'a \<Rightarrow> 'a \<Rightarrow> 'a option \<Rightarrow> 'a option \<Rightarrow> 'a gstore \<Rightarrow> 'a gstore res option" where
  "priority_loop comp_fn head new prev p s =
     (case p of
        None \<Rightarrow>
          Some (case prev of None \<Rightarrow> Inl NullDeref | Some q \<Rightarrow> glthread_add_next q new s)
      | Some cur \<Rightarrow>
          (case node_at s cur of
             Inl e \<Rightarrow> Some (Inl e)
           | Inr n \<Rightarrow>
               (case comp_fn new cur of
                  Inl e \<Rightarrow> Some (Inl e)
                | Inr k \<Rightarrow>
                    if k \<noteq> -1 then priority_loop comp_fn head new (Some cur) (right n) s
                    else
                      Some (glthread_add_next (case prev of None \<Rightarrow> head | Some q \<Rightarrow> q) new s))))"

declare priority_loop.simps [code]

definition glthread_priority_insert ::
    "'a \<Rightarrow> 'a \<Rightarrow> ('a \<Rightarrow> 'a \<Rightarrow> int res) \<Rightarrow> 'a gstore \<Rightarrow> 'a gstore res" where
  "glthread_priority_insert head new comp_fn s =
     rbind (init_glthread new s) (\<lambda>s.
     rbind (IS_GLTHREAD_LIST_EMPTY s head) (\<lambda>empty.
     if empty then glthread_add_next head new s
     else
       rbind (node_at s head) (\<lambda>h.
       case right h of
         None \<Rightarrow> run_loop (priority_loop comp_fn head new None None s)
       | Some r \<Rightarrow>
           rbind (node_at s r) (\<lambda>n.
           if right n = None
           then rbind (comp_fn new r) (\<lambda>k. glthread_add_next (if k = -1 then head else r) new s)
           else run_loop (priority_loop comp_fn head new None (Some r) s)))))"

end
