(* ===== verification/TimerLib.thy ===== *)
theory TimerLib
  imports Prelude "HOL-Library.Signed_Division"
begin

text \<open>
  The wrapper around POSIX timers, \<^verbatim>\<open>libtimer/timerlib.cpp\<close>: its state machine, the settings it
  gives to the timer of the system, and the callback that the system calls at every expiry.
\<close>

section \<open>Time\<close>

type_synonym u32 = "32 word"
type_synonym u64 = "64 word"

record timespec =
  tv_sec :: int
  tv_nsec :: int

definition no_time :: timespec where
  "no_time = \<lparr>tv_sec = 0, tv_nsec = 0\<rparr>"

definition timespec_to_millisec :: "timespec \<Rightarrow> u64" where
  "timespec_to_millisec time =
     word_of_int (tv_sec time * 1000) + word_of_int (tv_nsec time sdiv 1000000)"

definition timer_fill_itimerspec :: "u64 \<Rightarrow> timespec" where
  "timer_fill_itimerspec msec =
     (if msec = 0 then no_time
      else \<lparr>tv_sec = uint (msec div 1000), tv_nsec = uint (msec mod 1000) * 1000000\<rparr>)"

section \<open>Timers\<close>

datatype TIMER_STATE_T =
    TIMER_INIT | TIMER_DELETED | TIMER_PAUSED | TIMER_CANCELLED | TIMER_RESUMED | TIMER_RUNNING

record itimerspec =
  it_interval :: timespec
  it_value :: timespec

text \<open>
  \<open>posix_timer\<close> is the timer of the system with what it was last set to, or nothing once it was
  deleted. The callback is given by its number, \<open>user_arg\<close> by the address it points to.
\<close>

record timer =
  posix_timer :: "itimerspec option"
  user_arg :: "nat option"
  exp_timer :: u64
  sec_exp_timer :: u64
  thresdhold :: u32
  cb :: nat
  exponential_backoff :: bool
  time_remaining :: u64
  invocation_counter :: u32
  ts :: itimerspec
  exp_back_off_time :: u64
  timer_state :: TIMER_STATE_T

text \<open>
  \<open>timer_settime\<close> fails for a timer that does not exist and for times out of range.
\<close>

definition valid_time :: "timespec \<Rightarrow> bool" where
  "valid_time t \<longleftrightarrow> 0 \<le> tv_sec t \<and> 0 \<le> tv_nsec t \<and> tv_nsec t < 1000000000"

definition timer_settime :: "itimerspec option \<Rightarrow> itimerspec \<Rightarrow> itimerspec option \<times> int" where
  "timer_settime pt new =
     (if pt \<noteq> None \<and> valid_time (it_value new) \<and> valid_time (it_interval new)
      then (Some new, 0) else (pt, -1))"

definition timer_delete :: "itimerspec option \<Rightarrow> itimerspec option \<times> int" where
  "timer_delete pt = (if pt = None then (None, -1) else (None, 0))"

section \<open>The operations\<close>

text \<open>
  \<open>setup_timer\<close>: \<open>timer_cb\<close> may be null, and \<open>created\<close> tells whether the system gives a timer.
\<close>

definition setup_timer ::
    "nat option \<Rightarrow> u64 \<Rightarrow> u64 \<Rightarrow> u32 \<Rightarrow> nat option \<Rightarrow> bool \<Rightarrow> bool \<Rightarrow> timer res" where
  "setup_timer timer_cb exp sec_exp threshold arg backoff created =
     (case timer_cb of
        None \<Rightarrow> Inl AssertFail
      | Some f \<Rightarrow>
          rbind (require created AssertFail) (\<lambda>_.
          Inr \<lparr>posix_timer = Some \<lparr>it_interval = no_time, it_value = no_time\<rparr>, user_arg = arg,
               exp_timer = exp, sec_exp_timer = sec_exp, thresdhold = threshold, cb = f,
               exponential_backoff = backoff, time_remaining = 0, invocation_counter = 0,
               ts = \<lparr>it_interval = timer_fill_itimerspec (if backoff then 0 else sec_exp),
                     it_value = timer_fill_itimerspec exp\<rparr>,
               exp_back_off_time =
                 (if backoff then timespec_to_millisec (timer_fill_itimerspec exp) else 0),
               timer_state = TIMER_INIT\<rparr>))"

definition timer_get_current_state :: "timer \<Rightarrow> TIMER_STATE_T" where
  "timer_get_current_state t = timer_state t"

definition timer_set_state :: "TIMER_STATE_T \<Rightarrow> timer \<Rightarrow> timer" where
  "timer_set_state st t = t\<lparr>timer_state := st\<rparr>"

text \<open>The memory behind the argument is freed elsewhere; here it is only forgotten.\<close>

definition timer_delete_user_data :: "timer \<Rightarrow> timer" where
  "timer_delete_user_data t = t\<lparr>user_arg := None\<rparr>"

definition set_value :: "u64 \<Rightarrow> timer \<Rightarrow> timer" where
  "set_value msec t = t\<lparr>ts := (ts t)\<lparr>it_value := timer_fill_itimerspec msec\<rparr>\<rparr>"

definition set_interval :: "u64 \<Rightarrow> timer \<Rightarrow> timer" where
  "set_interval msec t = t\<lparr>ts := (ts t)\<lparr>it_interval := timer_fill_itimerspec msec\<rparr>\<rparr>"

definition resurrect_timer :: "timer \<Rightarrow> timer res" where
  "resurrect_timer t =
     (case timer_settime (posix_timer t) (ts t) of (pt, rc) \<Rightarrow>
      rbind (require (0 \<le> rc) AssertFail) (\<lambda>_. Inr (t\<lparr>posix_timer := pt\<rparr>)))"

definition start_timer :: "timer \<Rightarrow> timer res" where
  "start_timer t = rbind (resurrect_timer t) (\<lambda>t. Inr (timer_set_state TIMER_RUNNING t))"

definition delete_timer :: "timer \<Rightarrow> timer res" where
  "delete_timer t =
     (case timer_delete (posix_timer t) of (pt, rc) \<Rightarrow>
      rbind (require (0 \<le> rc) AssertFail) (\<lambda>_.
      Inr (timer_set_state TIMER_DELETED (t\<lparr>posix_timer := pt, user_arg := None\<rparr>))))"

definition cancel_timer :: "timer \<Rightarrow> timer res" where
  "cancel_timer t =
     (if timer_get_current_state t = TIMER_INIT \<or> timer_get_current_state t = TIMER_DELETED
      then Inr t
      else
        rbind (resurrect_timer
                 ((set_interval 0 (set_value 0 t))\<lparr>time_remaining := 0, invocation_counter := 0\<rparr>))
          (\<lambda>t. Inr (timer_set_state TIMER_CANCELLED t)))"

text \<open>\<open>remaining\<close> is what \<open>timer_gettime\<close> fills in; it leaves the zeros where it fails.\<close>

definition timer_get_time_remaining_in_mill_sec :: "timespec \<Rightarrow> timer \<Rightarrow> u64" where
  "timer_get_time_remaining_in_mill_sec remaining t =
     (if timer_state t = TIMER_DELETED \<or> timer_state t = TIMER_CANCELLED then -1
      else timespec_to_millisec (if posix_timer t = None then no_time else remaining))"

definition pause_timer :: "timespec \<Rightarrow> timer \<Rightarrow> timer res" where
  "pause_timer remaining t =
     (if timer_get_current_state t = TIMER_PAUSED then Inr t
      else
        rbind (resurrect_timer
                 (set_interval 0 (set_value 0
                   (t\<lparr>time_remaining := timer_get_time_remaining_in_mill_sec remaining t\<rparr>))))
          (\<lambda>t. Inr (timer_set_state TIMER_PAUSED t)))"

definition resume_timer :: "timer \<Rightarrow> timer res" where
  "resume_timer t =
     rbind (require (timer_get_current_state t = TIMER_PAUSED) AssertFail) (\<lambda>_.
     let t1 = set_interval (sec_exp_timer t)
                (set_value (if time_remaining t \<noteq> 0 then time_remaining t else exp_timer t) t) in
     rbind (require (\<not> (tv_sec (it_value (ts t1)) = 0 \<and> tv_nsec (it_value (ts t1)) = 0)) AssertFail)
       (\<lambda>_.
     rbind (resurrect_timer (t1\<lparr>time_remaining := 0\<rparr>)) (\<lambda>t2.
     Inr (timer_set_state TIMER_RESUMED t2))))"

definition restart_timer :: "timer \<Rightarrow> timer res" where
  "restart_timer t =
     rbind (require (timer_state t \<noteq> TIMER_DELETED) AssertFail) (\<lambda>_.
     rbind (cancel_timer t) (\<lambda>t.
     let t1 = set_interval (if exponential_backoff t then 0 else sec_exp_timer t)
                (set_value (exp_timer t) t) in
     rbind (resurrect_timer
              (t1\<lparr>invocation_counter := 0, time_remaining := 0, exp_back_off_time := exp_timer t\<rparr>))
       (\<lambda>t. Inr (timer_set_state TIMER_RUNNING t))))"

definition reschedule_timer :: "u64 \<Rightarrow> u64 \<Rightarrow> timer \<Rightarrow> timer res" where
  "reschedule_timer exp_ti sec_exp_ti t =
     rbind (require (timer_get_current_state t \<noteq> TIMER_DELETED) AssertFail) (\<lambda>_.
     rbind (if timer_get_current_state t \<noteq> TIMER_CANCELLED then cancel_timer t else Inr t) (\<lambda>t1.
     let t2 = set_value exp_ti (t1\<lparr>invocation_counter := invocation_counter t\<rparr>);
         t3 = (if exponential_backoff t
               then (set_interval 0 t2)\<lparr>exp_back_off_time := exp_ti\<rparr>
               else set_interval sec_exp_ti t2) in
     rbind (resurrect_timer (t3\<lparr>time_remaining := 0\<rparr>)) (\<lambda>t4.
     Inr (timer_set_state TIMER_RUNNING t4))))"

definition is_timer_running :: "timer \<Rightarrow> bool" where
  "is_timer_running t \<longleftrightarrow> timer_state t = TIMER_RUNNING \<or> timer_state t = TIMER_RESUMED"

section \<open>Expiry\<close>

text \<open>
  What the system calls at an expiry. \<open>run\<close> runs the callback of a timer with its argument on
  the timer and on the state \<open>'w\<close> of the rest of the program.
\<close>

definition timer_callback_wrapper ::
    "(nat \<Rightarrow> nat option \<Rightarrow> timer \<times> 'w \<Rightarrow> (timer \<times> 'w) res) \<Rightarrow> timer \<times> 'w \<Rightarrow> (timer \<times> 'w) res" where
  "timer_callback_wrapper run tw =
     (case tw of (t0, w) \<Rightarrow>
      let t = t0\<lparr>invocation_counter := invocation_counter t0 + 1\<rparr> in
      if thresdhold t \<noteq> 0 \<and> invocation_counter t > thresdhold t
      then rbind (cancel_timer t) (\<lambda>t. Inr (t, w))
      else
        rbind (run (cb t) (user_arg t) (t, w)) (\<lambda>(t, w).
        if exponential_backoff t
        then
          rbind (require (exp_back_off_time t \<noteq> 0) AssertFail) (\<lambda>_.
          let t = t\<lparr>exp_back_off_time := exp_back_off_time t * 2\<rparr> in
          rbind (reschedule_timer (exp_back_off_time t) 0 t) (\<lambda>t. Inr (t, w)))
        else if timer_state t = TIMER_RESUMED
        then rbind (reschedule_timer (exp_timer t) (sec_exp_timer t) t) (\<lambda>t. Inr (t, w))
        else Inr (t, w)))"

text \<open>
  An expiry of a timer that is set: the system reloads it with the interval, or leaves it unset
  when the interval is zero, and calls the wrapper.
\<close>

definition armed :: "timer \<Rightarrow> bool" where
  "armed t \<longleftrightarrow> (case posix_timer t of None \<Rightarrow> False | Some s \<Rightarrow> it_value s \<noteq> no_time)"

definition reload :: "timer \<Rightarrow> timer" where
  "reload t = t\<lparr>posix_timer := map_option (\<lambda>s. s\<lparr>it_value := it_interval s\<rparr>) (posix_timer t)\<rparr>"

definition expire ::
    "(nat \<Rightarrow> nat option \<Rightarrow> timer \<times> 'w \<Rightarrow> (timer \<times> 'w) res) \<Rightarrow> timer \<times> 'w \<Rightarrow> (timer \<times> 'w) res" where
  "expire run tw =
     (if armed (fst tw) then timer_callback_wrapper run (reload (fst tw), snd tw) else Inr tw)"

end
