(* ===== verification/WheelTimer.thy ===== *)
theory WheelTimer
  imports Glthread TimerLib CLib
begin

text \<open>
  The timing wheel, \<^verbatim>\<open>libtimer/WheelTimer.cpp\<close>: a clock that at every tick runs the events of one
  slot, and then takes up the requests that came in since the tick before. Its lists are pointer
  lists; its clock is a timer of \<^verbatim>\<open>timerlib.cpp\<close>.
\<close>

section \<open>State\<close>

text \<open>
  The places where the objects of the wheel hold a list node, and the macro that goes from a node
  to the event around it.
\<close>

datatype gnode = SlotHead nat | ReschdHead | Glue nat | ReschdGlue nat

fun glthread_to_wt_elem :: "gnode \<Rightarrow> nat res" where
  "glthread_to_wt_elem (Glue e) = Inr e"
| "glthread_to_wt_elem _ = Inl OutOfBounds"

fun glthread_reschedule_glue_to_wt_elem :: "gnode \<Rightarrow> nat res" where
  "glthread_reschedule_glue_to_wt_elem (ReschdGlue e) = Inr e"
| "glthread_reschedule_glue_to_wt_elem _ = Inl OutOfBounds"

datatype timer_resolution_t = TIMER_SECONDS | TIMER_MILLI_SECONDS

datatype wt_opcode_t =
  WTELEM_CREATE | WTELEM_RESCHED | WTELEM_DELETE | WTELEM_SCHEDULED | WTELEM_UNKNOWN

text \<open>The variables of type \<open>int\<close> are integers; \<open>c_int\<close> brings a result back into their range.\<close>

definition c_int :: "int \<Rightarrow> int" where
  "c_int k = sint (word_of_int k :: u32)"

record wt_elem =
  opcode :: wt_opcode_t
  time_interval :: int
  new_time_interval :: int
  execute_cycle_no :: int
  slot_no :: int
  app_callback :: "nat option"
  app_arg :: "nat option"
  arg_size :: int
  is_recurrence :: bool
  slotlist_head :: "nat option"
  N_scheduled :: u32

text \<open>
  \<open>nodes\<close> and \<open>elems\<close> are the memory of the list nodes and of the events; \<open>calls\<close> are the calls of
  callbacks so far, with their arguments.
\<close>

record wheel =
  current_clock_tic :: int
  clock_tic_interval :: int
  wheel_size :: int
  current_cycle_no :: int
  wheel_thread :: timer
  timer_resolution :: timer_resolution_t
  wt_debug :: bool
  nodes :: "gnode gstore"
  elems :: "wt_elem option list"
  calls :: "(nat \<times> nat option \<times> int) list"

definition elem_at :: "wheel \<Rightarrow> nat \<Rightarrow> wt_elem res" where
  "elem_at w e =
     (if e < length (elems w)
      then (case elems w ! e of None \<Rightarrow> Inl UseAfterFree | Some x \<Rightarrow> Inr x) else Inl UseAfterFree)"

definition upd_elem :: "nat \<Rightarrow> (wt_elem \<Rightarrow> wt_elem) \<Rightarrow> wheel \<Rightarrow> wheel res" where
  "upd_elem e f w = rbind (elem_at w e) (\<lambda>x. Inr (w\<lparr>elems := (elems w)[e := Some (f x)]\<rparr>))"

definition on_nodes :: "(gnode gstore \<Rightarrow> gnode gstore res) \<Rightarrow> wheel \<Rightarrow> wheel res" where
  "on_nodes f w = rbind (f (nodes w)) (\<lambda>s. Inr (w\<lparr>nodes := s\<rparr>))"

section \<open>Slots and times\<close>

definition insert_wt_elem_in_slot :: "wt_elem \<Rightarrow> wt_elem \<Rightarrow> int" where
  "insert_wt_elem_in_slot x y =
     (if execute_cycle_no x < execute_cycle_no y then -1
      else if execute_cycle_no x > execute_cycle_no y then 1 else 0)"

definition compare_nodes :: "wheel \<Rightarrow> gnode \<Rightarrow> gnode \<Rightarrow> int res" where
  "compare_nodes w p q =
     rbind (glthread_to_wt_elem p) (\<lambda>d. rbind (elem_at w d) (\<lambda>x.
     rbind (glthread_to_wt_elem q) (\<lambda>e. rbind (elem_at w e) (\<lambda>y.
     Inr (insert_wt_elem_in_slot x y)))))"

definition wt_get_clock_interval_in_milli_sec :: "wheel \<Rightarrow> u32" where
  "wt_get_clock_interval_in_milli_sec w =
     word_of_int (if timer_resolution w = TIMER_MILLI_SECONDS then clock_tic_interval w
                  else clock_tic_interval w * 1000)"

definition GET_WT_CURRENT_ABS_SLOT_NO :: "wheel \<Rightarrow> int" where
  "GET_WT_CURRENT_ABS_SLOT_NO w = c_int (current_cycle_no w * wheel_size w + current_clock_tic w)"

definition WT_UPTIME :: "wheel \<Rightarrow> u32" where
  "WT_UPTIME w =
     (word_of_int (GET_WT_CURRENT_ABS_SLOT_NO w) * wt_get_clock_interval_in_milli_sec w) div 1000"

text \<open>
  Cycle and slot of an event that is due in \<open>interval\<close> milliseconds. The quotient is taken on
  unsigned numbers, the others on signed ones.
\<close>

definition next_slot :: "wheel \<Rightarrow> int \<Rightarrow> int \<Rightarrow> (int \<times> int) res" where
  "next_slot w absolute_slot_no interval =
     rbind (require (wt_get_clock_interval_in_milli_sec w \<noteq> 0 \<and> wheel_size w \<noteq> 0) DivByZero) (\<lambda>_.
     let next_abs_slot_no =
       sint (word_of_int absolute_slot_no +
             word_of_int interval div wt_get_clock_interval_in_milli_sec w) in
     Inr (next_abs_slot_no sdiv wheel_size w, next_abs_slot_no smod wheel_size w))"

definition WT_SLOTLIST :: "wheel \<Rightarrow> int \<Rightarrow> nat res" where
  "WT_SLOTLIST w i = (if 0 \<le> i \<and> i < wheel_size w then Inr (nat i) else Inl OutOfBounds)"

text \<open>The event \<open>e\<close> enters slot \<open>i\<close>.\<close>

definition enter_slot :: "nat \<Rightarrow> int \<Rightarrow> wheel \<Rightarrow> wheel res" where
  "enter_slot e i w =
     rbind (WT_SLOTLIST w i) (\<lambda>n.
     rbind (on_nodes (glthread_priority_insert (SlotHead n) (Glue e) (compare_nodes w)) w)
       (upd_elem e (\<lambda>x. x\<lparr>slotlist_head := Some n\<rparr>)))"

section \<open>Requests\<close>

definition timer_reschedule_request :: "nat \<Rightarrow> int \<Rightarrow> wt_opcode_t \<Rightarrow> wheel \<Rightarrow> wheel res" where
  "timer_reschedule_request e interval op w =
     (if op = WTELEM_CREATE \<or> op = WTELEM_RESCHED \<or> op = WTELEM_DELETE
      then
        rbind (upd_elem e (\<lambda>x. x\<lparr>opcode := op, new_time_interval := interval, slotlist_head := None\<rparr>) w)
          (\<lambda>w.
        rbind (on_nodes (remove_glthread (ReschdGlue e)) w)
          (on_nodes (glthread_add_next ReschdHead (ReschdGlue e))))
      else Inl AssertFail)"

text \<open>An interval has to be a multiple of the tick.\<close>

definition check_interval :: "wheel \<Rightarrow> int \<Rightarrow> unit res" where
  "check_interval w interval =
     (if interval = 0 then Inl AssertFail
      else if wt_get_clock_interval_in_milli_sec w = 0 then Inl DivByZero
      else require (word_of_int interval mod wt_get_clock_interval_in_milli_sec w = 0) AssertFail)"

definition empty_node :: "gnode glthread" where
  "empty_node = \<lparr>left = None, right = None\<rparr>"

definition timer_register_app_event ::
    "nat option \<Rightarrow> nat option \<Rightarrow> int \<Rightarrow> int \<Rightarrow> bool \<Rightarrow> wheel \<Rightarrow> (wheel \<times> nat option) res" where
  "timer_register_app_event call_back arg nbytes interval is_recursive w =
     (if call_back = None then Inr (w, None)
      else
        rbind (check_interval w interval) (\<lambda>_.
        let e = length (elems w);
            given = arg \<noteq> None \<and> nbytes \<noteq> 0;
            x = \<lparr>opcode = WTELEM_CREATE, time_interval = 0, new_time_interval = 0,
                 execute_cycle_no = 0, slot_no = 0, app_callback = call_back,
                 app_arg = (if given then arg else None), arg_size = (if given then nbytes else 0),
                 is_recurrence = is_recursive, slotlist_head = None, N_scheduled = 0\<rparr> in
        rbind (timer_reschedule_request e interval WTELEM_CREATE
                 (w\<lparr>elems := elems w @ [Some x],
                    nodes := (nodes w)(Glue e \<mapsto> empty_node, ReschdGlue e \<mapsto> empty_node)\<rparr>))
          (\<lambda>w. Inr (w, Some e))))"

definition wt_elem_get_and_set_app_data :: "nat \<Rightarrow> nat option \<Rightarrow> wheel \<Rightarrow> (wheel \<times> nat option) res" where
  "wt_elem_get_and_set_app_data e new_data w =
     rbind (elem_at w e) (\<lambda>x.
     rbind (upd_elem e (\<lambda>x. x\<lparr>app_arg := new_data\<rparr>) w) (\<lambda>w. Inr (w, app_arg x)))"

definition timer_de_register_app_event :: "nat \<Rightarrow> wheel \<Rightarrow> wheel res" where
  "timer_de_register_app_event e w =
     rbind (wt_elem_get_and_set_app_data e None w) (\<lambda>(w, _).
     timer_reschedule_request e 0 WTELEM_DELETE w)"

definition timer_reschedule :: "nat \<Rightarrow> int \<Rightarrow> wheel \<Rightarrow> wheel res" where
  "timer_reschedule e interval w =
     rbind (elem_at w e) (\<lambda>_.
     rbind (check_interval w interval) (\<lambda>_.
     timer_reschedule_request e interval WTELEM_RESCHED w))"

definition wt_get_remaining_time :: "wheel \<Rightarrow> nat \<Rightarrow> int res" where
  "wt_get_remaining_time w e =
     rbind (elem_at w e) (\<lambda>x.
     if opcode x = WTELEM_CREATE \<or> opcode x = WTELEM_RESCHED then Inr (new_time_interval x)
     else
       Inr (sint (word_of_int (c_int (execute_cycle_no x * wheel_size w + slot_no x) -
                                GET_WT_CURRENT_ABS_SLOT_NO w) *
                  wt_get_clock_interval_in_milli_sec w)))"

section \<open>The tick\<close>

definition free_wheel_timer_element :: "nat \<Rightarrow> wheel \<Rightarrow> wheel res" where
  "free_wheel_timer_element e w =
     rbind (elem_at w e) (\<lambda>_.
     Inr (w\<lparr>elems := (elems w)[e := None], nodes := (nodes w)(Glue e := None, ReschdGlue e := None)\<rparr>))"

text \<open>One round of the loop over the requests.\<close>

definition take_up :: "gnode \<Rightarrow> wheel \<Rightarrow> wheel res" where
  "take_up cur w =
     rbind (glthread_reschedule_glue_to_wt_elem cur) (\<lambda>e.
     rbind (on_nodes (remove_glthread (Glue e)) w) (\<lambda>w.
     rbind (upd_elem e (\<lambda>x. x\<lparr>slotlist_head := None\<rparr>) w) (\<lambda>w.
     rbind (elem_at w e) (\<lambda>x.
     if opcode x = WTELEM_CREATE \<or> opcode x = WTELEM_RESCHED
     then
       rbind (require (app_callback x \<noteq> None) AssertFail) (\<lambda>_.
       rbind (require (new_time_interval x \<noteq> 0) AssertFail) (\<lambda>_.
       rbind (next_slot w (GET_WT_CURRENT_ABS_SLOT_NO w) (new_time_interval x)) (\<lambda>(cycle, slot).
       rbind (upd_elem e (\<lambda>x. x\<lparr>time_interval := new_time_interval x, execute_cycle_no := cycle,
                slot_no := slot\<rparr>) w) (\<lambda>w.
       rbind (enter_slot e slot w) (\<lambda>w.
       rbind (on_nodes (remove_glthread (ReschdGlue e)) w)
         (upd_elem e (\<lambda>x. x\<lparr>N_scheduled := N_scheduled x + 1, opcode := WTELEM_SCHEDULED\<rparr>)))))))
     else if opcode x = WTELEM_DELETE
     then rbind (on_nodes (remove_glthread (ReschdGlue e)) w) (free_wheel_timer_element e)
     else if opcode x = WTELEM_SCHEDULED then Inr w
     else Inl AssertFail))))"

partial_function (option) resched_loop :: "gnode option \<Rightarrow> wheel \<Rightarrow> wheel res option" where
  "resched_loop p w =
     (case p of
        None \<Rightarrow> Some (Inr w)
      | Some cur \<Rightarrow>
          (case node_at (nodes w) cur of
             Inl e \<Rightarrow> Some (Inl e)
           | Inr n \<Rightarrow>
               (case take_up cur w of
                  Inl e \<Rightarrow> Some (Inl e)
                | Inr w' \<Rightarrow> resched_loop (right n) w')))"

declare resched_loop.simps [code]

definition process_wt_reschedule_slotlist :: "wheel \<Rightarrow> wheel res" where
  "process_wt_reschedule_slotlist w =
     rbind (IS_GLTHREAD_LIST_EMPTY (nodes w) ReschdHead) (\<lambda>empty.
     if empty then Inr w
     else rbind (node_at (nodes w) ReschdHead) (\<lambda>n. run_loop (resched_loop (right n) w)))"

text \<open>
  An event that is due: its callback is called; a recurrent event goes to the slot of its next
  time, any other leaves the wheel.
\<close>

definition run_event :: "nat \<Rightarrow> int \<Rightarrow> wheel \<Rightarrow> wheel res" where
  "run_event e absolute_slot_no w =
     rbind (elem_at w e) (\<lambda>x.
     case app_callback x of
       None \<Rightarrow> Inl NullDeref
     | Some f \<Rightarrow>
         let w = w\<lparr>calls := calls w @ [(f, app_arg x, arg_size x)]\<rparr> in
         if is_recurrence x
         then
           rbind (next_slot w absolute_slot_no (time_interval x)) (\<lambda>(cycle, slot).
           rbind (upd_elem e (\<lambda>x. x\<lparr>execute_cycle_no := cycle\<rparr>) w) (\<lambda>w.
           rbind (on_nodes (remove_glthread (Glue e)) w) (\<lambda>w.
           rbind (enter_slot e slot w)
             (upd_elem e (\<lambda>x. x\<lparr>slot_no := slot, N_scheduled := N_scheduled x + 1\<rparr>)))))
         else
           rbind (on_nodes (remove_glthread (Glue e)) w) (on_nodes (remove_glthread (Glue e))))"

partial_function (option) slot_loop :: "int \<Rightarrow> gnode option \<Rightarrow> wheel \<Rightarrow> wheel res option" where
  "slot_loop absolute_slot_no p w =
     (case p of
        None \<Rightarrow> Some (Inr w)
      | Some cur \<Rightarrow>
          (case rbind (node_at (nodes w) cur) (\<lambda>n.
                rbind (glthread_to_wt_elem cur) (\<lambda>e.
                rbind (elem_at w e) (\<lambda>x. Inr (n, e, x)))) of
             Inl f \<Rightarrow> Some (Inl f)
           | Inr (n, e, x) \<Rightarrow>
               if current_cycle_no w = execute_cycle_no x
               then
                 (case run_event e absolute_slot_no w of
                    Inl f \<Rightarrow> Some (Inl f)
                  | Inr w' \<Rightarrow> slot_loop absolute_slot_no (right n) w')
               else Some (Inr w)))"

declare slot_loop.simps [code]

definition advance_clock :: "wheel \<Rightarrow> wheel" where
  "advance_clock w =
     (let tic = c_int (current_clock_tic w + 1) in
      if tic = wheel_size w
      then w\<lparr>current_clock_tic := 0, current_cycle_no := c_int (current_cycle_no w + 1)\<rparr>
      else w\<lparr>current_clock_tic := tic\<rparr>)"

definition wheel_fn :: "wheel \<Rightarrow> wheel res" where
  "wheel_fn w0 =
     (let w = advance_clock w0 in
      rbind (WT_SLOTLIST w (current_clock_tic w)) (\<lambda>i.
      rbind (node_at (nodes w) (SlotHead i)) (\<lambda>n.
      rbind (run_loop (slot_loop (GET_WT_CURRENT_ABS_SLOT_NO w) (right n) w))
        process_wt_reschedule_slotlist)))"

section \<open>The wheel and its clock\<close>

abbreviation (input) WHEEL_FN :: nat where
  "WHEEL_FN \<equiv> 0"

definition clock_interval :: "int \<Rightarrow> timer_resolution_t \<Rightarrow> u64" where
  "clock_interval tic res =
     (if res = TIMER_MILLI_SECONDS then word_of_int tic else word_of_int (c_int (tic * 1000)))"

definition init_wheel_timer :: "int \<Rightarrow> int \<Rightarrow> timer_resolution_t \<Rightarrow> bool \<Rightarrow> wheel res" where
  "init_wheel_timer slots tic res created =
     rbind (require (0 \<le> slots) OutOfBounds) (\<lambda>_.
     rbind (setup_timer (Some WHEEL_FN) (clock_interval tic res) (clock_interval tic res) 0
              (Some 0) False created) (\<lambda>t.
     Inr \<lparr>current_clock_tic = 0, clock_tic_interval = tic, wheel_size = slots, current_cycle_no = 0,
          wheel_thread = t, timer_resolution = res, wt_debug = False,
          nodes = (\<lambda>p. case p of
                     SlotHead i \<Rightarrow> if int i < slots then Some empty_node else None
                   | ReschdHead \<Rightarrow> Some empty_node
                   | _ \<Rightarrow> None),
          elems = [], calls = []\<rparr>))"

definition start_wheel_timer :: "wheel \<Rightarrow> wheel res" where
  "start_wheel_timer w = rbind (start_timer (wheel_thread w)) (\<lambda>t. Inr (w\<lparr>wheel_thread := t\<rparr>))"

definition cancel_wheel_timer :: "wheel \<Rightarrow> wheel res" where
  "cancel_wheel_timer w = rbind (cancel_timer (wheel_thread w)) (\<lambda>t. Inr (w\<lparr>wheel_thread := t\<rparr>))"

definition reset_wheel_timer :: "wheel \<Rightarrow> wheel" where
  "reset_wheel_timer w = w\<lparr>current_clock_tic := 0, current_cycle_no := 0\<rparr>"

definition wt_enable_logging :: "wheel \<Rightarrow> wheel" where
  "wt_enable_logging w = w\<lparr>wt_debug := \<not> wt_debug w\<rparr>"

text \<open>An expiry of the clock of the wheel.\<close>

definition clock_expires :: "wheel \<Rightarrow> wheel res" where
  "clock_expires w =
     rbind (expire (\<lambda>f a (t, w). if f = WHEEL_FN then rbind (wheel_fn w) (\<lambda>w. Inr (t, w)) else Inr (t, w))
              (wheel_thread w, w))
       (\<lambda>(t, w). Inr (w\<lparr>wheel_thread := t\<rparr>))"

section \<open>Printing a time\<close>

text \<open>The text is written into sixteen bytes.\<close>

definition hrs_min_sec :: "u32 \<Rightarrow> u32 \<times> u32 \<times> u32" where
  "hrs_min_sec seconds =
     (if seconds > 3600
      then (seconds div 60 div 60, seconds div 60 mod 60, seconds mod 60)
      else (0, seconds div 60, seconds mod 60))"

definition hrs_min_sec_format :: "u32 \<Rightarrow> string res" where
  "hrs_min_sec_format seconds =
     (case hrs_min_sec seconds of (hrs, mins, secs) \<Rightarrow>
      let t = show_int (uint hrs) @ ''::'' @ show_int (uint mins) @ ''::'' @ show_int (uint secs) in
      if length t < 16 then Inr t else Inl OutOfBounds)"

end
