(* ===== verification/GlthreadFacts.thy ===== *)
theory GlthreadFacts
  imports Glthread
begin

text \<open>
  How the operations on nodes implement lists: \<open>chain s h ps\<close> says that the store \<open>s\<close> holds
  the list \<open>ps\<close> behind the head \<open>h\<close>; \<open>pools s A D\<close> says that it holds the lists \<open>A\<close>, one per
  head, and the loose nodes \<open>D\<close>, all apart from each other.
\<close>

section \<open>Links\<close>

definition lft :: "'a gstore \<Rightarrow> 'a \<Rightarrow> 'a option option" where
  "lft s p = map_option left (s p)"

definition rgt :: "'a gstore \<Rightarrow> 'a \<Rightarrow> 'a option option" where
  "rgt s p = map_option right (s p)"

lemma node_at_Inr [simp]: "node_at s p = Inr n \<longleftrightarrow> s p = Some n"
  by (simp add: node_at_def split: option.splits)

lemma live_links: "lft s p = None \<longleftrightarrow> s p = None" "rgt s p = None \<longleftrightarrow> s p = None"
  by (simp_all add: lft_def rgt_def)

lemma set_left_links:
  assumes "s p \<noteq> None"
  obtains s' where "set_left p x s = Inr s'" "lft s' = (lft s)(p := Some x)" "rgt s' = rgt s"
proof -
  obtain n where "s p = Some n" using assms by blast
  then show thesis
    by (intro that [of "s(p \<mapsto> n\<lparr>left := x\<rparr>)"])
      (simp_all add: set_left_def node_at_def lft_def rgt_def fun_eq_iff)
qed

lemma set_right_links:
  assumes "s p \<noteq> None"
  obtains s' where "set_right p x s = Inr s'" "rgt s' = (rgt s)(p := Some x)" "lft s' = lft s"
proof -
  obtain n where "s p = Some n" using assms by blast
  then show thesis
    by (intro that [of "s(p \<mapsto> n\<lparr>right := x\<rparr>)"])
      (simp_all add: set_right_def node_at_def lft_def rgt_def fun_eq_iff)
qed

text \<open>Two stores with the same links are the same.\<close>

lemma links_eq: "lft s' = lft s \<Longrightarrow> rgt s' = rgt s \<Longrightarrow> s' = s"
proof (rule ext)
  fix p assume "lft s' = lft s" "rgt s' = rgt s"
  then have "lft s' p = lft s p" "rgt s' p = rgt s p" by simp_all
  then show "s' p = s p" by (cases "s p"; cases "s' p") (simp_all add: lft_def rgt_def)
qed

lemma node_of_links:
  "lft s p = Some l \<Longrightarrow> rgt s p = Some r \<Longrightarrow> s p = Some \<lparr>left = l, right = r\<rparr>"
  by (cases "s p") (auto simp: lft_def rgt_def)

section \<open>Chains\<close>

fun final :: "'a \<Rightarrow> 'a list \<Rightarrow> 'a" where
  "final p [] = p"
| "final p (q # qs) = final q qs"

lemma final_eq: "final p qs = last (p # qs)"
  by (induction qs arbitrary: p) auto

lemma final_append [simp]: "final p (xs @ ys) = final (final p xs) ys"
  by (induction xs arbitrary: p) auto

lemma final_in: "final p qs \<in> set (p # qs)"
  by (induction qs arbitrary: p) auto

lemma final_mem: "qs \<noteq> [] \<Longrightarrow> final p qs \<in> set qs"
  by (cases qs) (use final_in [of "hd qs" "tl qs"] in auto)

fun seg :: "'a gstore \<Rightarrow> 'a \<Rightarrow> 'a list \<Rightarrow> bool" where
  "seg s p [] \<longleftrightarrow> True"
| "seg s p (q # qs) \<longleftrightarrow> rgt s p = Some (Some q) \<and> lft s q = Some (Some p) \<and> seg s q qs"

definition chain :: "'a gstore \<Rightarrow> 'a \<Rightarrow> 'a list \<Rightarrow> bool" where
  "chain s h ps \<longleftrightarrow>
     distinct (h # ps) \<and> lft s h = Some None \<and> seg s h ps \<and> rgt s (final h ps) = Some None"

definition loose :: "'a gstore \<Rightarrow> 'a \<Rightarrow> bool" where
  "loose s p \<longleftrightarrow> lft s p = Some None \<and> rgt s p = Some None"

lemma seg_append: "seg s p (xs @ ys) \<longleftrightarrow> seg s p xs \<and> seg s (final p xs) ys"
  by (induction xs arbitrary: p) auto

lemma seg_cong:
  "distinct (p # qs) \<Longrightarrow>
   (\<And>q. q \<in> set (p # qs) \<Longrightarrow> q \<noteq> final p qs \<Longrightarrow> rgt s' q = rgt s q) \<Longrightarrow>
   (\<And>q. q \<in> set qs \<Longrightarrow> lft s' q = lft s q) \<Longrightarrow> seg s' p qs = seg s p qs"
proof (induction qs arbitrary: p)
  case (Cons q qs)
  have "p \<noteq> final q qs" using Cons.prems(1) final_in [of q qs] by auto
  with Cons show ?case by simp
qed simp

lemma seg_live: "seg s p qs \<Longrightarrow> q \<in> set qs \<Longrightarrow> s q \<noteq> None"
  by (induction qs arbitrary: p) (auto simp: live_links [symmetric])

lemma chain_live: "chain s h ps \<Longrightarrow> q \<in> set (h # ps) \<Longrightarrow> s q \<noteq> None"
  using seg_live [of s h ps q] by (auto simp: chain_def live_links [symmetric])

lemma chain_cong:
  assumes "\<And>q. q \<in> set (h # ps) \<Longrightarrow> lft s' q = lft s q \<and> rgt s' q = rgt s q"
  shows "chain s' h ps = chain s h ps"
proof (cases "distinct (h # ps)")
  case True
  then have "seg s' h ps = seg s h ps" using assms by (intro seg_cong) auto
  then show ?thesis using assms final_in [of h ps] by (simp add: chain_def)
qed (auto simp: chain_def)

text \<open>The successor and the predecessor of a node of a chain.\<close>

lemma chain_right:
  "chain s h (xs @ ys) \<Longrightarrow> rgt s (final h xs) = Some (if ys = [] then None else Some (hd ys))"
  by (cases ys) (auto simp: chain_def seg_append)

lemma chain_left: "chain s h (xs @ p # ys) \<Longrightarrow> lft s p = Some (Some (final h xs))"
  by (simp add: chain_def seg_append)

lemma final_notin: "distinct (h # xs @ ys) \<Longrightarrow> final h xs \<notin> set ys"
  using final_in [of h xs] by auto

section \<open>Walking\<close>

lemma walk_seg:
  "seg s p ps \<Longrightarrow> rgt s (final p ps) = Some None \<Longrightarrow> rgt s p = Some r \<Longrightarrow> walk s r = Some (Inr ps)"
proof (induction ps arbitrary: p r)
  case Nil
  then show ?case by (subst walk.simps) simp
next
  case (Cons q qs)
  then obtain r' where r': "rgt s q = Some r'" "r = Some q"
    by (cases qs) auto
  with Cons.prems Cons.IH [of q r'] have "walk s r' = Some (Inr qs)" by simp
  moreover obtain n where "s q = Some n" "right n = r'" using r'(1) by (auto simp: rgt_def)
  ultimately show ?case by (subst walk.simps) (simp add: r' node_at_def)
qed

lemma glthreads_chain: "chain s h ps \<Longrightarrow> glthreads s h = Inr ps"
proof -
  assume c: "chain s h ps"
  then obtain n where n: "s h = Some n" using chain_live by fastforce
  then have "walk s (right n) = Some (Inr ps)"
    using c by (intro walk_seg [of s h]) (auto simp: chain_def rgt_def)
  then show ?thesis by (simp add: glthreads_def node_at_def n)
qed

section \<open>Inserting\<close>

text \<open>The links after \<open>new\<close> was put between \<open>cur\<close> and its successor.\<close>

lemma add_next_chain:
  assumes c: "chain s h (xs @ ys)" and new: "loose s new" "new \<notin> set (h # xs @ ys)"
  obtains s' where "glthread_add_next (final h xs) new s = Inr s'" "chain s' h (xs @ new # ys)"
    "\<And>q. q \<notin> set (new # h # xs @ ys) \<Longrightarrow> s' q = s q"
proof -
  define cur where "cur = final h xs"
  have cur: "s cur \<noteq> None" "cur \<noteq> new" "cur \<notin> set ys" "cur \<in> set (h # xs)"
    using c chain_live [OF c] new(2) final_notin [of h xs ys] final_in [of h xs]
    by (auto simp: cur_def chain_def)
  have r: "rgt s cur = Some (if ys = [] then None else Some (hd ys))"
    using chain_right [OF c] by (simp add: cur_def)
  have nl: "s new \<noteq> None" using new(1) by (auto simp: loose_def live_links [symmetric])
  obtain s1 where s1: "set_right cur (Some new) s = Inr s1" "rgt s1 = (rgt s)(cur := Some (Some new))"
    "lft s1 = lft s" using cur(1) by (rule set_right_links)
  have "s1 new \<noteq> None" using nl s1 cur by (simp add: live_links(1) [symmetric])
  then obtain s2 where s2: "set_left new (Some cur) s1 = Inr s2"
    "lft s2 = (lft s1)(new := Some (Some cur))" "rgt s2 = rgt s1" by (rule set_left_links)
  have "\<exists>s'. glthread_add_next cur new s = Inr s' \<and>
    rgt s' = (rgt s)(cur := Some (Some new), new := Some (if ys = [] then None else Some (hd ys))) \<and>
    lft s' = (if ys = [] then (lft s)(new := Some (Some cur))
              else (lft s)(new := Some (Some cur), hd ys := Some (Some new)))"
  proof (cases ys)
    case Nil
    have "rgt s2 = (rgt s)(cur := Some (Some new), new := Some None)"
      using s1 s2 new(1) cur(2) by (auto simp: loose_def)
    then show ?thesis using r cur(1) s1 s2 Nil
      by (auto simp: glthread_add_next_def node_at_def rgt_def split: option.splits)
  next
    case (Cons t ts)
    have "s2 new \<noteq> None" using s2 by (simp add: live_links(1) [symmetric])
    then obtain s3 where s3: "set_right new (Some t) s2 = Inr s3"
      "rgt s3 = (rgt s2)(new := Some (Some t))" "lft s3 = lft s2" by (rule set_right_links)
    have "s t \<noteq> None" "t \<noteq> new" using chain_live [OF c, of t] new(2) Cons by auto
    then have "s3 t \<noteq> None" using s1 s2 s3 by (simp add: live_links(1) [symmetric])
    then obtain s4 where s4: "set_left t (Some new) s3 = Inr s4"
      "lft s4 = (lft s3)(t := Some (Some new))" "rgt s4 = rgt s3" by (rule set_left_links)
    show ?thesis using r cur(1) s1 s2 s3 s4 Cons
      by (auto simp: glthread_add_next_def node_at_def rgt_def split: option.splits)
  qed
  then obtain s' where s': "glthread_add_next cur new s = Inr s'"
    "rgt s' = (rgt s)(cur := Some (Some new), new := Some (if ys = [] then None else Some (hd ys)))"
    "lft s' = (if ys = [] then (lft s)(new := Some (Some cur))
              else (lft s)(new := Some (Some cur), hd ys := Some (Some new)))" by blast
  have d: "distinct (h # xs @ ys)" using c by (simp add: chain_def)
  have 1: "seg s' h xs"
  proof -
    have "rgt s' q = rgt s q" if "q \<in> set (h # xs)" "q \<noteq> cur" for q
      using that new(2) by (auto simp: s')
    moreover have "lft s' q = lft s q" if "q \<in> set xs" for q
      using that new(2) d by (cases ys) (auto simp: s')
    ultimately have "seg s' h xs = seg s h xs" using d by (intro seg_cong) (auto simp: cur_def)
    with c show ?thesis by (simp add: chain_def seg_append)
  qed
  have 2: "seg s' new ys"
  proof (cases ys)
    case (Cons t ts)
    have "rgt s' q = rgt s q" "lft s' q = lft s q" if "q \<in> set ts" for q
      using that new(2) d Cons cur by (auto simp: s')
    moreover have "rgt s' t = rgt s t" using new(2) Cons cur by (auto simp: s')
    ultimately have "seg s' t ts = seg s t ts"
      using d Cons by (intro seg_cong) auto
    with c Cons show ?thesis by (simp add: chain_def seg_append s')
  qed simp
  have 3: "rgt s' (final new ys) = Some None"
  proof (cases "ys = []")
    case False
    then obtain t ts where ys: "ys = t # ts" by (cases ys) auto
    then have "final t ts \<noteq> cur" "final t ts \<noteq> new" using cur new(2) final_in [of t ts] by auto
    with c ys show ?thesis by (simp add: chain_def s')
  qed (simp add: s')
  have "lft s' h = lft s h" using new(2) d by (cases ys) (auto simp: s')
  with c d 1 2 3 new(2) cur(2) have "chain s' h (xs @ new # ys)"
    by (auto simp: chain_def seg_append s' cur_def [symmetric])
  moreover have "s' q = s q" if "q \<notin> set (new # h # xs @ ys)" for q
  proof -
    have "lft s' q = lft s q \<and> rgt s' q = rgt s q" using that cur by (cases ys) (auto simp: s')
    then show ?thesis by (cases "s q"; cases "s' q") (simp_all add: lft_def rgt_def)
  qed
  ultimately show ?thesis using that s'(1) unfolding cur_def by blast
qed

section \<open>Removing\<close>

lemma remove_chain:
  assumes c: "chain s h (xs @ p # ys)"
  obtains s' where "remove_glthread p s = Inr s'" "chain s' h (xs @ ys)" "loose s' p"
    "\<And>q. q \<notin> set (h # xs @ p # ys) \<Longrightarrow> s' q = s q"
proof -
  define l where "l = final h xs"
  have d: "distinct (h # xs @ p # ys)" using c by (simp add: chain_def)
  have l: "l \<in> set (h # xs)" "l \<noteq> p" "l \<notin> set ys" "s l \<noteq> None"
    using d final_in [of h xs] final_notin [of h xs "p # ys"] chain_live [OF c, of l]
    by (auto simp: l_def)
  have p: "s p \<noteq> None" "lft s p = Some (Some l)"
    "rgt s p = Some (if ys = [] then None else Some (hd ys))"
    using chain_live [OF c, of p] chain_left [OF c] chain_right [of s h "xs @ [p]" ys] c
    by (auto simp: l_def)
  have "\<exists>s'. remove_glthread p s = Inr s' \<and> loose s' p \<and>
    rgt s' = (rgt s)(l := Some (if ys = [] then None else Some (hd ys)), p := Some None) \<and>
    lft s' = (if ys = [] then (lft s)(p := Some None)
              else (lft s)(hd ys := Some (Some l), p := Some None))"
  proof (cases ys)
    case Nil
    obtain s1 where s1: "set_right l None s = Inr s1" "rgt s1 = (rgt s)(l := Some None)"
      "lft s1 = lft s" using l(4) by (rule set_right_links)
    have "s1 p \<noteq> None" using s1 p(1) by (simp add: live_links(1) [symmetric])
    then obtain s2 where s2: "set_left p None s1 = Inr s2" "lft s2 = (lft s1)(p := Some None)"
      "rgt s2 = rgt s1" by (rule set_left_links)
    have "remove_glthread p s = Inr s2"
      using p s1 s2 Nil by (auto simp: remove_glthread_def node_at_def rgt_def lft_def)
    moreover have "rgt s2 = (rgt s)(l := Some None, p := Some None)"
      using p Nil s1 s2 l by (auto simp: fun_eq_iff)
    ultimately show ?thesis using s1 s2 Nil p(3) by (auto simp: loose_def)
  next
    case (Cons r rs)
    obtain s1 where s1: "set_right l (Some r) s = Inr s1" "rgt s1 = (rgt s)(l := Some (Some r))"
      "lft s1 = lft s" using l(4) by (rule set_right_links)
    have "s r \<noteq> None" "r \<noteq> p" using chain_live [OF c, of r] d Cons by auto
    then have "s1 r \<noteq> None" using s1 by (simp add: live_links(1) [symmetric])
    then obtain s2 where s2: "set_left r (Some l) s1 = Inr s2" "lft s2 = (lft s1)(r := Some (Some l))"
      "rgt s2 = rgt s1" by (rule set_left_links)
    have "s2 p \<noteq> None" using s1 s2 p(1) \<open>r \<noteq> p\<close> by (simp add: live_links(1) [symmetric])
    then obtain s3 where s3: "set_left p None s2 = Inr s3" "lft s3 = (lft s2)(p := Some None)"
      "rgt s3 = rgt s2" by (rule set_left_links)
    have "s3 p \<noteq> None" using s3 by (simp add: live_links(1) [symmetric])
    then obtain s4 where s4: "set_right p None s3 = Inr s4" "rgt s4 = (rgt s3)(p := Some None)"
      "lft s4 = lft s3" by (rule set_right_links)
    have "remove_glthread p s = Inr s4"
      using p s1 s2 s3 s4 Cons by (auto simp: remove_glthread_def node_at_def rgt_def lft_def)
    then show ?thesis using s1 s2 s3 s4 Cons by (auto simp: loose_def)
  qed
  then obtain s' where s': "remove_glthread p s = Inr s'" "loose s' p"
    "rgt s' = (rgt s)(l := Some (if ys = [] then None else Some (hd ys)), p := Some None)"
    "lft s' = (if ys = [] then (lft s)(p := Some None)
              else (lft s)(hd ys := Some (Some l), p := Some None))" by blast
  have 1: "seg s' h xs"
  proof -
    have "rgt s' q = rgt s q" if "q \<in> set (h # xs)" "q \<noteq> l" for q
      using that d by (auto simp: s')
    moreover have "lft s' q = lft s q" if "q \<in> set xs" for q
      using that d by (cases ys) (auto simp: s')
    ultimately have "seg s' h xs = seg s h xs" using d by (intro seg_cong) (auto simp: l_def)
    with c show ?thesis by (simp add: chain_def seg_append)
  qed
  have 2: "seg s' l ys"
  proof (cases ys)
    case (Cons t ts)
    have "rgt s' q = rgt s q" "lft s' q = lft s q" if "q \<in> set ts" for q
      using that d Cons l by (auto simp: s')
    moreover have "rgt s' t = rgt s t" using d Cons l by (auto simp: s')
    ultimately have "seg s' t ts = seg s t ts" using d Cons by (intro seg_cong) auto
    with c Cons d l show ?thesis by (auto simp: chain_def seg_append s')
  qed simp
  have 3: "rgt s' (final l ys) = Some None"
  proof (cases ys)
    case (Cons t ts)
    then have "final t ts \<noteq> l" "final t ts \<noteq> p" using l d final_in [of t ts] by auto
    with c Cons show ?thesis by (simp add: chain_def s')
  qed (use l in \<open>simp add: s'\<close>)
  have "lft s' h = lft s h" using d by (cases ys) (auto simp: s')
  with c d 1 2 3 have "chain s' h (xs @ ys)"
    by (auto simp: chain_def seg_append l_def [symmetric])
  moreover have "s' q = s q" if "q \<notin> set (h # xs @ p # ys)" for q
  proof -
    have "lft s' q = lft s q \<and> rgt s' q = rgt s q" using that l by (cases ys) (auto simp: s')
    then show ?thesis by (cases "s q"; cases "s' q") (simp_all add: lft_def rgt_def)
  qed
  ultimately show ?thesis using that s'(1,2) by blast
qed

lemma remove_loose: "loose s p \<Longrightarrow> remove_glthread p s = Inr s"
  by (auto simp: loose_def lft_def rgt_def remove_glthread_def node_at_def)

lemma init_loose: "loose s p \<Longrightarrow> init_glthread p s = Inr s"
  by (cases "s p")
    (auto simp: loose_def lft_def rgt_def init_glthread_def set_left_def set_right_def node_at_def)

section \<open>Sorted insertion\<close>

text \<open>
  \<open>comp_fn\<close> only matters by whether it is \<open>-1\<close>: the new node goes in front of the first node
  that it is before.
\<close>

definition insert_before :: "('a \<Rightarrow> bool) \<Rightarrow> 'a \<Rightarrow> 'a list \<Rightarrow> 'a list" where
  "insert_before before new ps =
     takeWhile (\<lambda>p. \<not> before p) ps @ new # dropWhile (\<lambda>p. \<not> before p) ps"

lemma insert_before_split:
  obtains xs ys where "ps = xs @ ys" "insert_before b n ps = xs @ n # ys"
    "\<And>p. p \<in> set xs \<Longrightarrow> \<not> b p" "ys \<noteq> [] \<Longrightarrow> b (hd ys)"
proof (rule that)
  show "ps = takeWhile (\<lambda>p. \<not> b p) ps @ dropWhile (\<lambda>p. \<not> b p) ps" by simp
  show "insert_before b n ps = takeWhile (\<lambda>p. \<not> b p) ps @ n # dropWhile (\<lambda>p. \<not> b p) ps"
    by (rule insert_before_def)
  show "\<not> b p" if "p \<in> set (takeWhile (\<lambda>p. \<not> b p) ps)" for p
    using that by (blast dest: set_takeWhileD)
  show "b (hd (dropWhile (\<lambda>p. \<not> b p) ps))" if "dropWhile (\<lambda>p. \<not> b p) ps \<noteq> []"
    using hd_dropWhile [OF that] by simp
qed

lemma set_insert_before [simp]: "set (insert_before b n ps) = insert n (set ps)"
  by (rule insert_before_split [of ps b n]) auto

lemma distinct_insert_before [simp]:
  "distinct (insert_before b n ps) \<longleftrightarrow> n \<notin> set ps \<and> distinct ps"
  by (rule insert_before_split [of ps b n]) auto

lemma priority_loop_chain:
  assumes "chain s h (xs @ ys)" "loose s new" "new \<notin> set (h # xs @ ys)" "xs @ ys \<noteq> []"
    and "\<And>p. p \<in> set ys \<Longrightarrow> comp_fn new p = Inr (k p)"
    and "r = (if ys = [] then None else Some (hd ys))"
    and "prev = (if xs = [] then None else Some (last xs))"
  shows "\<exists>s'. priority_loop comp_fn h new prev r s = Some (Inr s') \<and>
    chain s' h (xs @ insert_before (\<lambda>p. k p = -1) new ys) \<and>
    (\<forall>q. q \<notin> set (new # h # xs @ ys) \<longrightarrow> s' q = s q)"
  using assms
proof (induction ys arbitrary: xs r prev)
  case Nil
  have "final h xs = last xs" using Nil.prems by (simp add: final_eq)
  moreover obtain s' where "glthread_add_next (final h xs) new s = Inr s'" "chain s' h (xs @ [new])"
    "\<And>q. q \<notin> set (new # h # xs @ []) \<Longrightarrow> s' q = s q"
    using add_next_chain [OF Nil.prems(1-3)] by auto
  ultimately show ?case using Nil.prems
    by (subst priority_loop.simps) (auto simp: insert_before_def)
next
  case (Cons y ys)
  obtain n where n: "s y = Some n" using chain_live [OF Cons.prems(1), of y] by auto
  have nr: "right n = (if ys = [] then None else Some (hd ys))"
    using chain_right [of s h "xs @ [y]" ys] Cons.prems(1) n by (simp add: rgt_def)
  show ?case
  proof (cases "k y = -1")
    case True
    obtain s' where "glthread_add_next (final h xs) new s = Inr s'" "chain s' h (xs @ new # y # ys)"
      "\<And>q. q \<notin> set (new # h # xs @ y # ys) \<Longrightarrow> s' q = s q"
      using add_next_chain [OF Cons.prems(1-3)] by blast
    moreover have "final h xs = (case prev of None \<Rightarrow> h | Some q \<Rightarrow> q)"
      using Cons.prems(7) by (auto simp: final_eq)
    ultimately show ?thesis using True Cons.prems n
      by (subst priority_loop.simps) (simp add: insert_before_def node_at_def)
  next
    case False
    have "\<exists>s'. priority_loop comp_fn h new (Some y) (right n) s = Some (Inr s') \<and>
      chain s' h ((xs @ [y]) @ insert_before (\<lambda>p. k p = -1) new ys) \<and>
      (\<forall>q. q \<notin> set (new # h # (xs @ [y]) @ ys) \<longrightarrow> s' q = s q)"
      by (rule Cons.IH) (use Cons.prems nr in auto)
    then show ?thesis using False Cons.prems n
      by (subst priority_loop.simps) (simp add: insert_before_def node_at_def)
  qed
qed

lemma priority_insert_chain:
  assumes c: "chain s h ps" and new: "loose s new" "new \<notin> set (h # ps)"
    and k: "\<And>p. p \<in> set ps \<Longrightarrow> comp_fn new p = Inr (k p)"
  obtains s' where "glthread_priority_insert h new comp_fn s = Inr s'"
    "chain s' h (insert_before (\<lambda>p. k p = -1) new ps)"
    "\<And>q. q \<notin> set (new # h # ps) \<Longrightarrow> s' q = s q"
proof -
  obtain n where n: "s h = Some n" using chain_live [OF c, of h] by auto
  have e: "left n = None" "right n = (if ps = [] then None else Some (hd ps))"
    using c chain_right [of s h "[]" ps] n by (auto simp: chain_def lft_def rgt_def)
  note def = glthread_priority_insert_def init_loose [OF new(1)] IS_GLTHREAD_LIST_EMPTY_def
    node_at_def
  consider "ps = []" | p where "ps = [p]" | p q qs where "ps = p # q # qs"
    by (metis list.exhaust)
  then show thesis
  proof cases
    case 1
    then show ?thesis using add_next_chain [of s h "[]" ps new] c new n e that
      by (auto simp: def insert_before_def)
  next
    case 2
    obtain m where m: "s p = Some m" "right m = None"
      using chain_live [OF c, of p] chain_right [of s h "[p]" "[]"] c 2 by (auto simp: rgt_def)
    show ?thesis
    proof (cases "k p = -1")
      case True
      then show ?thesis using add_next_chain [of s h "[]" ps new] c new n e m k 2 that
        by (auto simp: def insert_before_def)
    next
      case False
      then show ?thesis using add_next_chain [of s h "[p]" "[]" new] c new n e m k 2 that
        by (auto simp: def insert_before_def)
    qed
  next
    case 3
    obtain m where m: "s p = Some m" "right m = Some q"
      using chain_live [OF c, of p] chain_right [of s h "[p]" "q # qs"] c 3 by (auto simp: rgt_def)
    obtain s' where "priority_loop comp_fn h new None (Some p) s = Some (Inr s')"
      "chain s' h ([] @ insert_before (\<lambda>p. k p = -1) new ps)"
      "\<forall>q. q \<notin> set (new # h # [] @ ps) \<longrightarrow> s' q = s q"
      using priority_loop_chain [of s h "[]" ps new comp_fn k "Some p" None] c new k 3 by auto
    then show ?thesis using n e m 3 that by (auto simp: def)
  qed
qed

section \<open>Many lists in one store\<close>

definition pools :: "'a gstore \<Rightarrow> ('a \<rightharpoonup> 'a list) \<Rightarrow> 'a set \<Rightarrow> bool" where
  "pools s A D \<longleftrightarrow>
     (\<forall>h ps. A h = Some ps \<longrightarrow> chain s h ps \<and> set (h # ps) \<inter> D = {}) \<and>
     (\<forall>h ps h' ps'. A h = Some ps \<and> A h' = Some ps' \<and> h \<noteq> h' \<longrightarrow> set (h # ps) \<inter> set (h' # ps') = {}) \<and>
     (\<forall>p\<in>D. loose s p) \<and>
     (\<forall>p. s p \<noteq> None \<longrightarrow> p \<in> D \<or> (\<exists>h ps. A h = Some ps \<and> p \<in> set (h # ps)))"

lemma poolsD:
  assumes "pools s A D"
  shows "A h = Some ps \<Longrightarrow> chain s h ps" "A h = Some ps \<Longrightarrow> q \<in> set (h # ps) \<Longrightarrow> q \<notin> D"
    "A h = Some ps \<Longrightarrow> A h' = Some ps' \<Longrightarrow> h \<noteq> h' \<Longrightarrow> q \<in> set (h # ps) \<Longrightarrow> q \<notin> set (h' # ps')"
    "q \<in> D \<Longrightarrow> loose s q"
    "s q \<noteq> None \<Longrightarrow> q \<in> D \<or> (\<exists>h ps. A h = Some ps \<and> q \<in> set (h # ps))"
  using assms unfolding pools_def by blast+

lemma chain_same: "(\<And>q. q \<in> set (h # ps) \<Longrightarrow> s' q = s q) \<Longrightarrow> chain s' h ps = chain s h ps"
  by (rule chain_cong) (simp add: lft_def rgt_def)

lemma loose_same: "s' q = s q \<Longrightarrow> loose s' q = loose s q"
  by (simp add: loose_def lft_def rgt_def)

text \<open>A change of one list that only touches it and loose nodes.\<close>

lemma pools_change:
  assumes p: "pools s A D" "A h = Some ps" and c: "chain s' h ps'"
    and sub: "set ps' \<union> D' = set ps \<union> D" "set (h # ps') \<inter> D' = {}"
    and new: "\<And>q. q \<in> D' \<Longrightarrow> loose s' q"
    and frame: "\<And>q. q \<notin> set (h # ps) \<Longrightarrow> q \<notin> D \<Longrightarrow> s' q = s q"
  shows "pools s' (A(h \<mapsto> ps')) D'"
  unfolding pools_def
proof (intro conjI allI impI ballI)
  fix g qs assume g: "(A(h \<mapsto> ps')) g = Some qs"
  show "chain s' g qs"
  proof (cases "g = h")
    case False
    then have "A g = Some qs" using g by simp
    then have "s' q = s q" if "q \<in> set (g # qs)" for q
      using that poolsD(2,3) [OF p(1)] p(2) False by (intro frame) blast+
    then have "chain s' g qs = chain s g qs" by (rule chain_same)
    then show ?thesis using poolsD(1) [OF p(1) \<open>A g = Some qs\<close>] by simp
  qed (use c g in simp)
  show "set (g # qs) \<inter> D' = {}"
  proof (cases "g = h")
    case False
    then have "A g = Some qs" using g by simp
    have "q \<notin> set (g # qs)" if "q \<in> D'" for q
    proof -
      from that sub(1) have "q \<in> set (h # ps) \<or> q \<in> D" by auto
      then show ?thesis
        using poolsD(2) [OF p(1) \<open>A g = Some qs\<close>] poolsD(3) [OF p(1,2) \<open>A g = Some qs\<close>] False
        by blast
    qed
    then show ?thesis by blast
  qed (use sub g in simp)
next
  fix g qs g' qs'
  assume g: "(A(h \<mapsto> ps')) g = Some qs \<and> (A(h \<mapsto> ps')) g' = Some qs' \<and> g \<noteq> g'"
  have apart: "set (h # ps') \<inter> set (k # rs) = {}" if "A k = Some rs" "k \<noteq> h" for k rs
  proof -
    have "q \<notin> set (k # rs)" if "q \<in> set (h # ps')" for q
    proof -
      from that sub(1) have "q \<in> set (h # ps) \<or> q \<in> D" by auto
      then show ?thesis
        using poolsD(2) [OF p(1) \<open>A k = Some rs\<close>] poolsD(3) [OF p(1,2) \<open>A k = Some rs\<close>]
          \<open>k \<noteq> h\<close> by blast
    qed
    then show ?thesis by blast
  qed
  show "set (g # qs) \<inter> set (g' # qs') = {}"
  proof (cases "g = h \<or> g' = h")
    case True
    then show ?thesis using g apart [of g' qs'] apart [of g qs] by (auto split: if_splits)
  next
    case False
    then have "A g = Some qs" "A g' = Some qs'" using g by auto
    then show ?thesis using poolsD(3) [OF p(1)] g by blast
  qed
next
  fix q assume live: "s' q \<noteq> None"
  show "q \<in> D' \<or> (\<exists>g qs. (A(h \<mapsto> ps')) g = Some qs \<and> q \<in> set (g # qs))"
  proof (cases "q \<in> set (h # ps) \<union> D")
    case True
    then have "q = h \<or> q \<in> set ps' \<union> D'" using sub(1) by auto
    then show ?thesis by auto
  next
    case False
    then have "s q \<noteq> None" using frame [of q] live by auto
    then obtain g qs where "A g = Some qs" "q \<in> set (g # qs)" using poolsD(5) [OF p(1)] False by blast
    then show ?thesis using False p(2) by (intro disjI2 exI [of _ g] exI [of _ qs]) auto
  qed
qed (rule new)

definition out :: "'a \<Rightarrow> ('a \<rightharpoonup> 'a list) \<Rightarrow> 'a \<rightharpoonup> 'a list" where
  "out p A = (\<lambda>h. map_option (removeAll p) (A h))"

lemma out_id: "(\<And>h ps. A h = Some ps \<Longrightarrow> p \<notin> set ps) \<Longrightarrow> out p A = A"
  by (force simp: out_def fun_eq_iff intro!: option.map_ident_strong)

lemma pools_out: 
  assumes "pools s A D" "A h = Some (xs @ p # ys)"
  shows "out p A = A(h \<mapsto> xs @ ys)"
proof
  fix g
  have "p \<notin> set xs \<union> set ys" using poolsD(1) [OF assms] by (auto simp: chain_def)
  moreover have "p \<notin> set qs" if "A g = Some qs" "g \<noteq> h" for qs
    using poolsD(3) [OF assms(1) assms(2) that(1)] that(2) by auto
  ultimately show "out p A g = (A(h \<mapsto> xs @ ys)) g"
    using assms(2) by (cases "A g") (auto simp: out_def)
qed

lemma pools_remove:
  assumes p: "pools s A D" and mem: "p \<in> D \<or> (\<exists>h ps. A h = Some ps \<and> p \<in> set ps)"
  obtains s' where "remove_glthread p s = Inr s'" "pools s' (out p A) (insert p D)"
proof (cases "p \<in> D")
  case True
  then have "out p A = A" using poolsD(2) [OF p] by (intro out_id) auto
  then show thesis using that remove_loose [OF poolsD(4) [OF p True]] p True by (simp add: insert_absorb)
next
  case False
  then obtain h ps where h: "A h = Some ps" "p \<in> set ps" using mem by blast
  then obtain xs ys where ps: "ps = xs @ p # ys" by (meson split_list)
  note c = poolsD(1) [OF p h(1), unfolded ps]
  obtain s' where s': "remove_glthread p s = Inr s'" "chain s' h (xs @ ys)" "loose s' p"
    "\<And>q. q \<notin> set (h # xs @ p # ys) \<Longrightarrow> s' q = s q" using remove_chain [OF c] by metis
  have "pools s' (A(h \<mapsto> xs @ ys)) (insert p D)"
  proof (rule pools_change [OF p h(1) s'(2)])
    show "set (h # xs @ ys) \<inter> insert p D = {}"
      using c poolsD(2) [OF p h(1)] ps by (fastforce simp: chain_def)
    show "loose s' q" if "q \<in> insert p D" for q
      using that s'(3,4) poolsD(2) [OF p h(1)] poolsD(4) [OF p] ps loose_same [of s' q s]
      by fastforce
  qed (use s' ps in auto)
  then show thesis using that s'(1) pools_out [OF p h(1) [unfolded ps]] by simp
qed

lemma pools_insert:
  assumes p: "pools s A D" "A h = Some ps" "new \<in> D"
    and k: "\<And>q. q \<in> set ps \<Longrightarrow> comp_fn new q = Inr (k q)"
  obtains s' where "glthread_priority_insert h new comp_fn s = Inr s'"
    "pools s' (A(h \<mapsto> insert_before (\<lambda>q. k q = -1) new ps)) (D - {new})"
proof -
  have n: "new \<notin> set (h # ps)" using poolsD(2) [OF p(1,2)] p(3) by blast
  obtain s' where s': "glthread_priority_insert h new comp_fn s = Inr s'"
    "chain s' h (insert_before (\<lambda>p. k p = -1) new ps)" "\<And>q. q \<notin> set (new # h # ps) \<Longrightarrow> s' q = s q"
    using priority_insert_chain [OF poolsD(1) [OF p(1,2)] poolsD(4) [OF p(1,3)] n, of comp_fn k] k
    by metis
  have "pools s' (A(h \<mapsto> insert_before (\<lambda>q. k q = -1) new ps)) (D - {new})"
  proof (rule pools_change [OF p(1,2) s'(2)])
    show "set (h # insert_before (\<lambda>q. k q = - 1) new ps) \<inter> (D - {new}) = {}"
      using poolsD(2) [OF p(1,2)] by auto
    show "loose s' q" if "q \<in> D - {new}" for q
      using that s'(3) poolsD(2) [OF p(1,2)] poolsD(4) [OF p(1)] loose_same [of s' q s] by fastforce
    show "s' q = s q" if "q \<notin> set (h # ps)" "q \<notin> D" for q
      using that p(3) by (intro s'(3)) auto
  qed (use p(3) in auto)
  then show thesis using that s'(1) by blast
qed

lemma pools_push:
  assumes p: "pools s A D" "A h = Some ps" "new \<in> D"
  obtains s' where "glthread_add_next h new s = Inr s'" "pools s' (A(h \<mapsto> new # ps)) (D - {new})"
proof -
  have n: "new \<notin> set (h # ps)" using poolsD(2) [OF p(1,2)] p(3) by blast
  obtain s' where s': "glthread_add_next h new s = Inr s'" "chain s' h (new # ps)"
    "\<And>q. q \<notin> set (new # h # ps) \<Longrightarrow> s' q = s q"
    using add_next_chain [of s h "[]" ps new] poolsD(1) [OF p(1,2)] poolsD(4) [OF p(1,3)] n by auto
  have "pools s' (A(h \<mapsto> new # ps)) (D - {new})"
  proof (rule pools_change [OF p(1,2) s'(2)])
    show "set (h # new # ps) \<inter> (D - {new}) = {}"
      using poolsD(2) [OF p(1,2)] by auto
    show "loose s' q" if "q \<in> D - {new}" for q
      using that s'(3) poolsD(2) [OF p(1,2)] poolsD(4) [OF p(1)] loose_same [of s' q s] by fastforce
    show "s' q = s q" if "q \<notin> set (h # ps)" "q \<notin> D" for q
      using that p(3) by (intro s'(3)) auto
  qed (use p(3) in auto)
  then show thesis using that s'(1) by blast
qed

lemma pools_free:
  assumes "pools s A D" "p \<in> D"
  shows "pools (s(p := None)) A (D - {p})"
proof -
  have "chain (s(p := None)) h ps" if "A h = Some ps" for h ps
    using poolsD(1,2) [OF assms(1) that] assms(2) chain_same [of h ps "s(p := None)" s] by fastforce
  moreover have "loose (s(p := None)) q" if "q \<in> D - {p}" for q
    using that poolsD(4) [OF assms(1)] loose_same [of "s(p := None)" q s] by simp
  moreover have "q \<in> D - {p} \<or> (\<exists>h ps. A h = Some ps \<and> q \<in> set (h # ps))"
    if "(s(p := None)) q \<noteq> None" for q
    using that poolsD(5) [OF assms(1), of q] by (auto split: if_splits)
  ultimately show ?thesis
    using assms(1) unfolding pools_def by (intro conjI allI impI ballI) blast+
qed

lemma pools_alloc:
  assumes "pools s A D" "s p = None"
  shows "pools (s(p \<mapsto> \<lparr>left = None, right = None\<rparr>)) A (insert p D)"
proof -
  let ?s = "s(p \<mapsto> \<lparr>left = None, right = None\<rparr>)"
  have n: "p \<notin> set (h # ps)" if "A h = Some ps" for h ps
    using chain_live [OF poolsD(1) [OF assms(1) that]] assms(2) by blast
  have "chain ?s h ps" if "A h = Some ps" for h ps
    using poolsD(1) [OF assms(1) that] n [OF that] chain_same [of h ps ?s s] by fastforce
  moreover have "loose ?s q" if "q \<in> insert p D" for q
    using that poolsD(4) [OF assms(1)] loose_same [of ?s q s] by (cases "q = p") (auto simp: loose_def lft_def rgt_def)
  moreover have "q \<in> insert p D \<or> (\<exists>h ps. A h = Some ps \<and> q \<in> set (h # ps))" if "?s q \<noteq> None" for q
    using that poolsD(5) [OF assms(1), of q] by (cases "q = p") auto
  ultimately show ?thesis
    using assms(1) n unfolding pools_def by (intro conjI allI impI ballI) blast+
qed

section \<open>The other operations\<close>

lemma add_last_chain:
  assumes "chain s h ps" "loose s new" "new \<notin> set (h # ps)"
  obtains s' where "glthread_add_last h new s = Inr s'" "chain s' h (ps @ [new])"
    "\<And>q. q \<notin> set (new # h # ps) \<Longrightarrow> s' q = s q"
  using add_next_chain [of s h ps "[]" new] assms glthreads_chain [OF assms(1)]
  by (auto simp: glthread_add_last_def final_eq)

lemma dequeue_chain:
  assumes "chain s h (p # ps)"
  obtains s' where "dequeue_glthread_first h s = Inr (s', Some p)" "chain s' h ps" "loose s' p"
    "\<And>q. q \<notin> set (h # p # ps) \<Longrightarrow> s' q = s q"
proof -
  obtain n where n: "s h = Some n" "right n = Some p"
    using chain_live [OF assms, of h] chain_right [of s h "[]" "p # ps"] assms by (auto simp: rgt_def)
  obtain s' where "remove_glthread p s = Inr s'" "chain s' h ps" "loose s' p"
    "\<And>q. q \<notin> set (h # p # ps) \<Longrightarrow> s' q = s q"
    using remove_chain [of s h "[]" p ps] assms by auto
  then show thesis using n that by (auto simp: dequeue_glthread_first_def node_at_def)
qed

lemma dequeue_empty: "chain s h [] \<Longrightarrow> dequeue_glthread_first h s = Inr (s, None)"
  using chain_live [of s h "[]" h] chain_right [of s h "[]" "[]"]
  by (auto simp: dequeue_glthread_first_def node_at_def rgt_def)

lemma count_chain: "chain s h ps \<Longrightarrow> get_glthread_list_count s h = Inr (word_of_nat (length ps))"
  by (simp add: get_glthread_list_count_def glthreads_chain)

lemma get_last_chain:
  "chain s h ps \<Longrightarrow> glthread_get_last s h = Inr (if ps = [] then None else Some (last ps))"
  by (simp add: glthread_get_last_def glthreads_chain)

lemma delete_loop_chain:
  "chain s h ps \<Longrightarrow> r = (if ps = [] then None else Some (hd ps)) \<Longrightarrow>
   \<exists>s'. delete_loop r s = Some (Inr s') \<and> chain s' h [] \<and> (\<forall>p\<in>set ps. loose s' p) \<and>
     (\<forall>q. q \<notin> set (h # ps) \<longrightarrow> s' q = s q)"
proof (induction ps arbitrary: r s)
  case Nil
  then show ?case by (subst delete_loop.simps) simp
next
  case (Cons p ps)
  obtain n where n: "s p = Some n" "right n = (if ps = [] then None else Some (hd ps))"
    using chain_live [OF Cons.prems(1), of p] chain_right [of s h "[p]" ps] Cons.prems(1)
    by (auto simp: rgt_def)
  obtain s1 where s1: "remove_glthread p s = Inr s1" "chain s1 h ps" "loose s1 p"
    "\<And>q. q \<notin> set (h # p # ps) \<Longrightarrow> s1 q = s q"
    using remove_chain [of s h "[]" p ps] Cons.prems(1) by auto
  obtain s' where s': "delete_loop (right n) s1 = Some (Inr s')" "chain s' h []"
    "\<forall>p\<in>set ps. loose s' p" "\<forall>q. q \<notin> set (h # ps) \<longrightarrow> s' q = s1 q"
    using Cons.IH [OF s1(2) n(2)] by blast
  have "p \<notin> set (h # ps)" using Cons.prems(1) by (auto simp: chain_def)
  then have "loose s' p" using s1(3) s'(4) loose_same [of s' p s1] by blast
  then show ?case using s1 s' n Cons.prems(2) by (subst delete_loop.simps) (simp add: node_at_def)
qed

lemma delete_list_chain:
  assumes "chain s h ps"
  shows "\<exists>s'. delete_glthread_list h s = Inr s' \<and> chain s' h [] \<and> (\<forall>p\<in>set ps. loose s' p)"
proof -
  obtain n where n: "s h = Some n" "right n = (if ps = [] then None else Some (hd ps))"
    using chain_live [OF assms, of h] chain_right [of s h "[]" ps] assms by (auto simp: rgt_def)
  then show ?thesis using delete_loop_chain [OF assms n(2)]
    by (auto simp: delete_glthread_list_def node_at_def)
qed

lemma add_before_chain:
  assumes c: "chain s h (xs @ cur # ys)" and new: "loose s new" "new \<notin> set (h # xs @ cur # ys)"
  shows "glthread_add_before cur new s = glthread_add_next (final h xs) new s"
proof -
  define l where "l = final h xs"
  have d: "distinct (h # xs @ cur # ys)" using c by (simp add: chain_def)
  have l: "l \<noteq> cur" "l \<noteq> new" "s l \<noteq> None" "cur \<noteq> new"
    using d final_in [of h xs] new(2) chain_live [OF c, of l] by (auto simp: l_def)
  have cl: "lft s cur = Some (Some l)" "rgt s l = Some (Some cur)"
    using chain_left [OF c] chain_right [OF c] by (simp_all add: l_def)
  then show ?thesis
    using l new(1) unfolding l_def [symmetric]
    by (auto simp: glthread_add_before_def glthread_add_next_def node_at_def set_left_def
        set_right_def lft_def rgt_def loose_def fun_upd_twist split: option.splits)
qed

section \<open>The interface\<close>

text \<open>
  What a client of the lists relies on: a family of lists, from which a node can be taken out,
  wherever it is, and be put first or in order into another list.
\<close>

locale list_family =
  fixes holds :: "'s \<Rightarrow> ('a \<rightharpoonup> 'a list) \<Rightarrow> 'a set \<Rightarrow> bool"
    and remove :: "'a \<Rightarrow> 's \<Rightarrow> 's res"
    and push :: "'a \<Rightarrow> 'a \<Rightarrow> 's \<Rightarrow> 's res"
    and insert_by :: "'a \<Rightarrow> 'a \<Rightarrow> ('a \<Rightarrow> 'a \<Rightarrow> int res) \<Rightarrow> 's \<Rightarrow> 's res"
  assumes remove_law: "holds s A D \<Longrightarrow> p \<in> D \<or> (\<exists>h ps. A h = Some ps \<and> p \<in> set ps) \<Longrightarrow>
      \<exists>s'. remove p s = Inr s' \<and> holds s' (out p A) (insert p D)"
    and push_law: "holds s A D \<Longrightarrow> A h = Some ps \<Longrightarrow> p \<in> D \<Longrightarrow>
      \<exists>s'. push h p s = Inr s' \<and> holds s' (A(h \<mapsto> p # ps)) (D - {p})"
    and insert_law: "holds s A D \<Longrightarrow> A h = Some ps \<Longrightarrow> p \<in> D \<Longrightarrow>
      (\<And>q. q \<in> set ps \<Longrightarrow> comp_fn p q = Inr (k q)) \<Longrightarrow>
      \<exists>s'. insert_by h p comp_fn s = Inr s' \<and>
        holds s' (A(h \<mapsto> insert_before (\<lambda>q. k q = -1) p ps)) (D - {p})"
begin

lemma repush:
  assumes "holds s A D" "p \<in> D \<or> (\<exists>h ps. A h = Some ps \<and> p \<in> set ps)" "A h = Some ps"
  shows "\<exists>s'. rbind (remove p s) (push h p) = Inr s' \<and>
    holds s' ((out p A)(h \<mapsto> p # removeAll p ps)) (D - {p})"
proof -
  obtain s1 where s1: "remove p s = Inr s1" "holds s1 (out p A) (insert p D)"
    using remove_law [OF assms(1,2)] by blast
  have "out p A h = Some (removeAll p ps)" using assms(3) by (simp add: out_def)
  from push_law [OF s1(2) this, of p] s1(1) show ?thesis by auto
qed

lemma reinsert:
  assumes "holds s A D" "p \<in> D \<or> (\<exists>h ps. A h = Some ps \<and> p \<in> set ps)" "A h = Some ps"
    and "\<And>q. q \<in> set ps \<Longrightarrow> q \<noteq> p \<Longrightarrow> comp_fn p q = Inr (k q)"
  shows "\<exists>s'. rbind (remove p s) (insert_by h p comp_fn) = Inr s' \<and>
    holds s' ((out p A)(h \<mapsto> insert_before (\<lambda>q. k q = -1) p (removeAll p ps))) (D - {p})"
proof -
  obtain s1 where s1: "remove p s = Inr s1" "holds s1 (out p A) (insert p D)"
    using remove_law [OF assms(1,2)] by blast
  have h: "out p A h = Some (removeAll p ps)" using assms(3) by (simp add: out_def)
  have "comp_fn p q = Inr (k q)" if "q \<in> set (removeAll p ps)" for q using assms(4) that by auto
  with insert_law [OF s1(2) h, of p comp_fn k] s1(1) show ?thesis by auto
qed

end

interpretation gl: list_family pools remove_glthread glthread_add_next glthread_priority_insert
proof unfold_locales
  fix s :: "'a gstore" and A D p assume "pools s A D" "p \<in> D \<or> (\<exists>h ps. A h = Some ps \<and> p \<in> set ps)"
  then show "\<exists>s'. remove_glthread p s = Inr s' \<and> pools s' (out p A) (insert p D)"
    using pools_remove by metis
next
  fix s :: "'a gstore" and A D h ps p assume "pools s A D" "A h = Some ps" "p \<in> D"
  then show "\<exists>s'. glthread_add_next h p s = Inr s' \<and> pools s' (A(h \<mapsto> p # ps)) (D - {p})"
    using pools_push by metis
next
  fix s :: "'a gstore" and A D h ps p and comp_fn :: "'a \<Rightarrow> 'a \<Rightarrow> int res" and k
  assume "pools s A D" "A h = Some ps" "p \<in> D" "\<And>q. q \<in> set ps \<Longrightarrow> comp_fn p q = Inr (k q)"
  then show "\<exists>s'. glthread_priority_insert h p comp_fn s = Inr s' \<and>
      pools s' (A(h \<mapsto> insert_before (\<lambda>q. k q = -1) p ps)) (D - {p})"
    using pools_insert [of s A D h ps p comp_fn k] by metis
qed

section \<open>Sorted lists\<close>

definition compare_key :: "('a \<Rightarrow> int) \<Rightarrow> 'a \<Rightarrow> 'a \<Rightarrow> int" where
  "compare_key key p q = (if key p < key q then -1 else if key q < key p then 1 else 0)"

lemma compare_key_before [simp]: "compare_key key p q = -1 \<longleftrightarrow> key p < key q"
  by (simp add: compare_key_def)

lemma sorted_insert_before:
  assumes "sorted (map key ps)"
  shows "sorted (map key (insert_before (\<lambda>q. key n < key q) n ps))"
proof (rule insert_before_split [of ps "\<lambda>q. key n < key q" n])
  fix xs ys
  assume ps: "ps = xs @ ys" and eq: "insert_before (\<lambda>q. key n < key q) n ps = xs @ n # ys"
    and xs: "\<And>p. p \<in> set xs \<Longrightarrow> \<not> key n < key p" and ys: "ys \<noteq> [] \<Longrightarrow> key n < key (hd ys)"
  have "\<forall>p\<in>set ys. key n \<le> key p"
    using ys assms ps by (cases ys) (auto simp: sorted_append)
  moreover have "\<forall>p\<in>set xs. key p \<le> key n" using xs by (simp add: not_less)
  ultimately show ?thesis unfolding eq using assms ps by (auto simp: sorted_append)
qed

lemma filter_insert_before:
  assumes "sorted (map key ps)"
  shows "filter (\<lambda>p. key p = k) (insert_before (\<lambda>q. key n < key q) n ps) =
    filter (\<lambda>p. key p = k) ps @ (if key n = k then [n] else [])"
proof (rule insert_before_split [of ps "\<lambda>q. key n < key q" n])
  fix xs ys
  assume ps: "ps = xs @ ys" and eq: "insert_before (\<lambda>q. key n < key q) n ps = xs @ n # ys"
    and ys: "ys \<noteq> [] \<Longrightarrow> key n < key (hd ys)"
  have "\<forall>p\<in>set ys. key n < key p"
    using ys assms ps by (cases ys) (auto simp: sorted_append)
  then have "filter (\<lambda>p. key p = key n) ys = []" by (auto simp: filter_empty_conv)
  then show ?thesis unfolding eq using ps by auto
qed

text \<open>
  C28: inserting a node by priority into a sorted list behind a head puts it behind all nodes of
  smaller or equal priority and in front of the others, and touches nothing else in the store.
\<close>

theorem priority_insert_sorts:
  assumes "chain s h ps" "sorted (map key ps)" "loose s new" "new \<notin> set (h # ps)"
    and "\<And>q. q \<in> set ps \<Longrightarrow> comp_fn new q = Inr (compare_key key new q)"
  shows "\<exists>s' qs. glthread_priority_insert h new comp_fn s = Inr s' \<and> chain s' h qs \<and>
    sorted (map key qs) \<and>
    (\<forall>k. filter (\<lambda>p. key p = k) qs = filter (\<lambda>p. key p = k) ps @ (if key new = k then [new] else [])) \<and>
    (\<forall>q. q \<notin> set (new # h # ps) \<longrightarrow> s' q = s q)"
proof -
  obtain s' where "glthread_priority_insert h new comp_fn s = Inr s'"
    "chain s' h (insert_before (\<lambda>q. compare_key key new q = -1) new ps)"
    "\<And>q. q \<notin> set (new # h # ps) \<Longrightarrow> s' q = s q"
    using priority_insert_chain [of s h ps new comp_fn "compare_key key new"] assms by metis
  then show ?thesis
    using sorted_insert_before [OF assms(2)] filter_insert_before [OF assms(2)] by auto
qed

definition demo_store :: "nat gstore" where
  "demo_store = [0 \<mapsto> \<lparr>left = None, right = Some 5\<rparr>, 5 \<mapsto> \<lparr>left = Some 0, right = Some 9\<rparr>,
     9 \<mapsto> \<lparr>left = Some 5, right = None\<rparr>, 7 \<mapsto> \<lparr>left = None, right = None\<rparr>]"

theorem priority_insert_sorts_witness:
  "\<exists>s. glthread_priority_insert 0 7 (\<lambda>p q. Inr (compare_key int p q)) demo_store = Inr s \<and>
     glthreads s 0 = Inr [5, 7, 9]"
proof -
  have c: "chain demo_store 0 [5, 9]" "loose demo_store 7"
    by (simp_all add: demo_store_def chain_def loose_def lft_def rgt_def)
  then obtain s qs where s: "glthread_priority_insert 0 7 (\<lambda>p q. Inr (compare_key int p q)) demo_store = Inr s"
    "chain s 0 qs"
    using priority_insert_sorts [of demo_store 0 "[5, 9]" int 7 "\<lambda>p q. Inr (compare_key int p q)"]
    by auto
  have "(case glthread_priority_insert 0 7 (\<lambda>p q. Inr (compare_key int p q)) demo_store of
    Inl e \<Rightarrow> False | Inr s \<Rightarrow> glthreads s 0 = Inr [5, 7, 9])"
    by code_simp
  with s show ?thesis by auto
qed

end
