(* ===== verification/WheelFacts.thy ===== *)
theory WheelFacts
  imports WheelTimer GlthreadFacts
begin

text \<open>
  The wheel against an agenda: a list of events with their due times, in order, from which at
  every tick the due events are run. The slots of the wheel are the agenda, dealt out by time.
\<close>

section \<open>The agenda\<close>

datatype request = NoRequest | Place int | Drop

text \<open>Intervals are counted in ticks.\<close>

record event =
  ev_callback :: nat
  ev_arg :: "nat option"
  ev_size :: int
  ev_recurs :: bool
  ev_ticks :: int
  ev_request :: request

text \<open>
  \<open>plan\<close> holds the events with their due times; \<open>requests\<close> the events for which a request is
  waiting, the latest first; \<open>ran\<close> the calls so far.
\<close>

record agenda =
  now :: int
  table :: "event option list"
  plan :: "(nat \<times> int) list"
  requests :: "nat list"
  ran :: "(nat \<times> nat option \<times> int) list"

definition enqueue :: "nat \<Rightarrow> int \<Rightarrow> (nat \<times> int) list \<Rightarrow> (nat \<times> int) list" where
  "enqueue e d pl = insert_before (\<lambda>q. d < snd q) (e, d) pl"

definition forget :: "nat \<Rightarrow> (nat \<times> int) list \<Rightarrow> (nat \<times> int) list" where
  "forget e pl = filter (\<lambda>q. fst q \<noteq> e) pl"

definition run_one :: "nat \<Rightarrow> agenda \<Rightarrow> agenda" where
  "run_one e a =
     (case table a ! e of
        None \<Rightarrow> a
      | Some x \<Rightarrow>
          a\<lparr>ran := ran a @ [(ev_callback x, ev_arg x, ev_size x)],
            plan := (if ev_recurs x then enqueue e (now a + ev_ticks x) (forget e (plan a))
                     else forget e (plan a))\<rparr>)"

definition take_one :: "nat \<Rightarrow> agenda \<Rightarrow> agenda" where
  "take_one e a =
     (case table a ! e of
        None \<Rightarrow> a
      | Some x \<Rightarrow>
          (case ev_request x of
             Place k \<Rightarrow>
               a\<lparr>table := (table a)[e := Some (x\<lparr>ev_ticks := k, ev_request := NoRequest\<rparr>)],
                 plan := enqueue e (now a + k) (forget e (plan a)), requests := removeAll e (requests a)\<rparr>
           | _ \<Rightarrow>
               a\<lparr>table := (table a)[e := None], plan := forget e (plan a),
                 requests := removeAll e (requests a)\<rparr>))"

text \<open>A tick: the events that are due run in order, then the requests are taken up.\<close>

definition due :: "agenda \<Rightarrow> nat list" where
  "due a = map fst (filter (\<lambda>q. snd q = now a) (plan a))"

definition agenda_tick :: "agenda \<Rightarrow> agenda" where
  "agenda_tick a0 =
     (let a1 = a0\<lparr>now := now a0 + 1\<rparr>; a2 = fold run_one (due a1) a1 in fold take_one (requests a2) a2)"

section \<open>Lists\<close>

lemma map_insert_before:
  "map f (insert_before b n ps) = insert_before c (f n) (map f ps)"
  if "\<And>p. p \<in> set ps \<Longrightarrow> b p = c (f p)"
proof -
  have "takeWhile (\<lambda>p. \<not> c p) (map f ps) = map f (takeWhile (\<lambda>p. \<not> b p) ps)"
    using that by (simp add: takeWhile_map o_def cong: takeWhile_cong)
  moreover have "dropWhile (\<lambda>p. \<not> c p) (map f ps) = map f (dropWhile (\<lambda>p. \<not> b p) ps)"
    using that by (simp add: dropWhile_map o_def cong: dropWhile_cong)
  ultimately show ?thesis by (simp add: insert_before_def)
qed

lemma filter_out_insert_before: "\<not> P n \<Longrightarrow> filter P (insert_before b n ps) = filter P ps"
proof (rule insert_before_split [of ps b n])
  fix xs ys assume "\<not> P n" "ps = xs @ ys" "insert_before b n ps = xs @ n # ys"
  then show ?thesis by simp
qed

text \<open>On a sorted list, keeping some elements commutes with insertion.\<close>

lemma filter_enqueue:
  assumes "sorted (map snd pl)" "P (e, d)"
  shows "filter P (enqueue e d pl) = insert_before (\<lambda>q. d < snd q) (e, d) (filter P pl)"
proof (rule insert_before_split [of pl "\<lambda>q. d < snd q" "(e, d)"])
  fix xs ys
  assume pl: "pl = xs @ ys" and eq: "insert_before (\<lambda>q. d < snd q) (e, d) pl = xs @ (e, d) # ys"
    and xs: "\<And>q. q \<in> set xs \<Longrightarrow> \<not> d < snd q" and ys: "ys \<noteq> [] \<Longrightarrow> d < snd (hd ys)"
  have y: "\<forall>q\<in>set ys. d < snd q"
    using ys assms(1) pl by (cases ys) (auto simp: sorted_append)
  have "takeWhile (\<lambda>q. \<not> d < snd q) (filter P pl) = filter P xs"
    using xs y unfolding pl by (cases "filter P ys = []") (auto simp: takeWhile_append takeWhile_eq_Nil_iff dest!: hd_in_set)
  moreover have "dropWhile (\<lambda>q. \<not> d < snd q) (filter P pl) = filter P ys"
    using xs y unfolding pl by (cases "filter P ys = []") (auto simp: dropWhile_append dropWhile_eq_self_iff dest!: hd_in_set)
  ultimately show ?thesis using assms(2) unfolding enqueue_def eq by (simp add: insert_before_def)
qed

lemma sorted_enqueue: "sorted (map snd pl) \<Longrightarrow> sorted (map snd (enqueue e d pl))"
  using sorted_insert_before [of snd pl "(e, d)"] by (simp add: enqueue_def)

lemma set_enqueue [simp]: "set (enqueue e d pl) = insert (e, d) (set pl)"
  by (simp add: enqueue_def)

lemma set_forget [simp]: "set (forget e pl) = {q \<in> set pl. fst q \<noteq> e}"
  by (simp add: forget_def)

lemma sorted_forget: "sorted (map snd pl) \<Longrightarrow> sorted (map snd (forget e pl))"
  by (simp add: forget_def sorted_filter)

lemma distinct_forget: "distinct (map fst pl) \<Longrightarrow> distinct (map fst (forget e pl))"
  by (simp add: forget_def distinct_map_filter)

lemma distinct_enqueue:
  "distinct (map fst pl) \<Longrightarrow> e \<notin> fst ` set pl \<Longrightarrow> distinct (map fst (enqueue e d pl))"
  unfolding enqueue_def
  by (rule insert_before_split [of pl "\<lambda>q. d < snd q" "(e, d)"]) auto

section \<open>The slots\<close>

definition slot_of :: "int \<Rightarrow> nat \<Rightarrow> (nat \<times> int) list \<Rightarrow> gnode list" where
  "slot_of n i pl = map (\<lambda>q. Glue (fst q)) (filter (\<lambda>q. snd q mod n = int i) pl)"

definition heads :: "int \<Rightarrow> (nat \<times> int) list \<Rightarrow> nat list \<Rightarrow> gnode \<rightharpoonup> gnode list" where
  "heads n pl rq h =
     (case h of
        SlotHead i \<Rightarrow> if int i < n then Some (slot_of n i pl) else None
      | ReschdHead \<Rightarrow> Some (map ReschdGlue rq)
      | _ \<Rightarrow> None)"

lemma out_Glue: "out (Glue e) (heads n pl rq) = heads n (forget e pl) rq"
proof
  fix h
  have "removeAll (Glue e) (map (\<lambda>q. Glue (fst q)) qs) = map (\<lambda>q. Glue (fst q)) (filter (\<lambda>q. fst q \<noteq> e) qs)"
    for qs :: "(nat \<times> int) list" by (induction qs) auto
  moreover have "Glue e \<notin> set (map ReschdGlue rq)" by auto
  ultimately show "out (Glue e) (heads n pl rq) h = heads n (forget e pl) rq h"
    by (cases h) (auto simp: out_def heads_def slot_of_def forget_def conj_commute removeAll_id simp del: set_map)
qed

lemma out_ReschdGlue: "out (ReschdGlue e) (heads n pl rq) = heads n pl (removeAll e rq)"
proof
  fix h
  have "removeAll (ReschdGlue e) (map ReschdGlue qs) = map ReschdGlue (removeAll e qs)" for qs
    by (induction qs) auto
  moreover have "ReschdGlue e \<notin> set (slot_of n i pl)" for i by (auto simp: slot_of_def)
  ultimately show "out (ReschdGlue e) (heads n pl rq) h = heads n pl (removeAll e rq) h"
    by (cases h) (auto simp: out_def heads_def removeAll_id)
qed

lemma heads_push: "(heads n pl rq)(ReschdHead \<mapsto> ReschdGlue e # map ReschdGlue rq) = heads n pl (e # rq)"
  by (auto simp: heads_def fun_eq_iff split: gnode.split)

lemma slot_enqueue:
  assumes "sorted (map snd pl)" "d mod n = int i" "0 < n"
    and "\<And>q. q \<in> set pl \<Longrightarrow> snd q mod n = int i \<Longrightarrow> k (Glue (fst q)) = -1 \<longleftrightarrow> d div n < snd q div n"
  shows "slot_of n i (enqueue e d pl) = insert_before (\<lambda>p. k p = -1) (Glue e) (slot_of n i pl)"
proof -
  have "d < snd q \<longleftrightarrow> k (Glue (fst q)) = -1" if "q \<in> set pl" "snd q mod n = int i" for q
  proof -
    have "d = d div n * n + int i" "snd q = snd q div n * n + int i"
      using that(2) assms(2) div_mult_mod_eq by metis+
    then have "d < snd q \<longleftrightarrow> d div n * n < snd q div n * n" by linarith
    then show ?thesis using assms(3,4) that by (simp add: mult_less_cancel_right)
  qed
  then show ?thesis
    unfolding slot_of_def filter_enqueue [OF assms(1), of "\<lambda>q. snd q mod n = int i", simplified, OF assms(2)]
    by (subst map_insert_before [where c = "\<lambda>p. k p = -1"]) auto
qed

lemma slot_enqueue_other: "d mod n \<noteq> int i \<Longrightarrow> slot_of n i (enqueue e d pl) = slot_of n i pl"
  by (simp add: slot_of_def enqueue_def filter_out_insert_before)

lemma heads_enqueue:
  assumes "sorted (map snd pl)" "d mod n = int i" "0 < n"
    and "\<And>q. q \<in> set pl \<Longrightarrow> snd q mod n = int i \<Longrightarrow> k (Glue (fst q)) = -1 \<longleftrightarrow> d div n < snd q div n"
  shows "(heads n pl rq)(SlotHead i \<mapsto> insert_before (\<lambda>p. k p = -1) (Glue e) (slot_of n i pl)) =
    heads n (enqueue e d pl) rq"
proof
  fix h
  have "int i < n" using pos_mod_bound [OF assms(3), of d] assms(2) by simp
  then show "((heads n pl rq)(SlotHead i \<mapsto> insert_before (\<lambda>p. k p = -1) (Glue e) (slot_of n i pl))) h =
      heads n (enqueue e d pl) rq h"
    using slot_enqueue [OF assms] slot_enqueue_other [of d n] assms(2)
    by (auto simp: heads_def split: gnode.split)
qed

section \<open>Times\<close>

abbreviation tick_length :: "wheel \<Rightarrow> int" where
  "tick_length w \<equiv> uint (wt_get_clock_interval_in_milli_sec w)"

lemma clock_frame [simp]:
  "wt_get_clock_interval_in_milli_sec (w\<lparr>calls := c\<rparr>) = wt_get_clock_interval_in_milli_sec w"
  "wt_get_clock_interval_in_milli_sec (w\<lparr>nodes := s\<rparr>) = wt_get_clock_interval_in_milli_sec w"
  "wt_get_clock_interval_in_milli_sec (w\<lparr>elems := es\<rparr>) = wt_get_clock_interval_in_milli_sec w"
  "next_slot (w\<lparr>calls := c\<rparr>) = next_slot w" "next_slot (w\<lparr>nodes := s\<rparr>) = next_slot w"
  "next_slot (w\<lparr>elems := es\<rparr>) = next_slot w"
  "GET_WT_CURRENT_ABS_SLOT_NO (w\<lparr>calls := c\<rparr>) = GET_WT_CURRENT_ABS_SLOT_NO w"
  "GET_WT_CURRENT_ABS_SLOT_NO (w\<lparr>nodes := s\<rparr>) = GET_WT_CURRENT_ABS_SLOT_NO w"
  "GET_WT_CURRENT_ABS_SLOT_NO (w\<lparr>elems := es\<rparr>) = GET_WT_CURRENT_ABS_SLOT_NO w"
  by (simp_all add: wt_get_clock_interval_in_milli_sec_def next_slot_def fun_eq_iff
      GET_WT_CURRENT_ABS_SLOT_NO_def)

lemma c_int_id: "- (2 ^ 31) \<le> k \<Longrightarrow> k < 2 ^ 31 \<Longrightarrow> c_int k = k"
  by (simp add: c_int_def signed_of_int signed_take_bit_int_eq_self)

lemma signed_nonneg:
  fixes a n :: int
  assumes "0 \<le> a" "0 < n"
  shows "a sdiv n = a div n" "a smod n = a mod n"
  using assms
  by (auto simp: signed_divide_int_def signed_modulo_int_def sgn_if minus_div_mult_eq_mod)

lemma next_slot_eq:
  assumes "0 \<le> a" "0 \<le> k" "k < 2 ^ 31" "0 < tick_length w" "0 < wheel_size w"
    and "a + k div tick_length w < 2 ^ 31"
  shows "next_slot w a k =
    Inr ((a + k div tick_length w) div wheel_size w, (a + k div tick_length w) mod wheel_size w)"
proof -
  define t where "t = wt_get_clock_interval_in_milli_sec w"
  have t: "t \<noteq> 0" using assms(4) by (auto simp: t_def)
  have "uint (word_of_int k :: u32) = k"
    using assms(2,3) by (simp add: uint_word_of_int)
  then have "uint (word_of_int k div t) = k div uint t" by (simp add: uint_div)
  then have "word_of_int k div t = word_of_int (k div uint t)" by (metis word_of_int_uint)
  then have "sint (word_of_int a + word_of_int k div t) = c_int (a + k div uint t)"
    by (simp add: c_int_def)
  also have "\<dots> = a + k div uint t"
    using assms pos_imp_zdiv_nonneg_iff [of "uint t" k] by (intro c_int_id) (auto simp: t_def)
  finally have "sint (word_of_int a + word_of_int k div t) = a + k div uint t" .
  then show ?thesis
    using assms t pos_imp_zdiv_nonneg_iff [of "uint t" k]
    by (simp add: next_slot_def Let_def t_def [symmetric] signed_nonneg)
qed

section \<open>Entering a slot\<close>

text \<open>The event \<open>e\<close> of the wheel is filed under the time \<open>d\<close>.\<close>

definition filed :: "wheel \<Rightarrow> nat \<Rightarrow> int \<Rightarrow> bool" where
  "filed w e d \<longleftrightarrow> (\<exists>x. elem_at w e = Inr x \<and> execute_cycle_no x = d div wheel_size w)"

lemma filed_node: "filed w e d \<Longrightarrow> filed w q c \<Longrightarrow>
  \<exists>k. compare_nodes w (Glue e) (Glue q) = Inr k \<and>
    (k = -1 \<longleftrightarrow> d div wheel_size w < c div wheel_size w)"
  by (auto simp: filed_def compare_nodes_def insert_wt_elem_in_slot_def)

lemma enter_slot_ok:
  assumes p: "pools (nodes w) (heads (wheel_size w) pl rq) D" "Glue e \<in> D"
    and d: "i = d mod wheel_size w" "0 < wheel_size w" "sorted (map snd pl)"
    and x: "elem_at w e = Inr x" "execute_cycle_no x = d div wheel_size w"
    and filed: "\<And>q. q \<in> set pl \<Longrightarrow> filed w (fst q) (snd q)"
  shows "\<exists>s. enter_slot e i w = Inr (w\<lparr>nodes := s,
      elems := (elems w)[e := Some (x\<lparr>slotlist_head := Some (nat i)\<rparr>)]\<rparr>) \<and>
    pools s (heads (wheel_size w) (enqueue e d pl) rq) (D - {Glue e})"
proof -
  define n where "n = wheel_size w"
  have i: "0 \<le> i" "i < n" "int (nat i) = i" using d by (simp_all add: n_def)
  have h: "heads n pl rq (SlotHead (nat i)) = Some (slot_of n (nat i) pl)"
    using i by (simp add: heads_def)
  have fe: "filed w e d" using x by (simp add: filed_def)
  define k where "k p = projr (compare_nodes w (Glue e) p)" for p
  have kq: "compare_nodes w (Glue e) (Glue (fst q)) = Inr (k (Glue (fst q))) \<and>
      (k (Glue (fst q)) = -1 \<longleftrightarrow> d div n < snd q div n)" if "q \<in> set pl" for q
    using filed_node [OF fe filed [OF that]] by (auto simp: k_def n_def)
  then have "compare_nodes w (Glue e) p = Inr (k p)" if "p \<in> set (slot_of n (nat i) pl)" for p
    using that by (auto simp: slot_of_def)
  with gl.insert_law [OF p(1) [folded n_def] h p(2), of "compare_nodes w" k]
  obtain s where s: "glthread_priority_insert (SlotHead (nat i)) (Glue e) (compare_nodes w) (nodes w) = Inr s"
    "pools s ((heads n pl rq)(SlotHead (nat i) \<mapsto> insert_before (\<lambda>p. k p = -1) (Glue e) (slot_of n (nat i) pl)))
       (D - {Glue e})" by blast
  have "pools s (heads n (enqueue e d pl) rq) (D - {Glue e})"
    using s(2) heads_enqueue [of pl d n "nat i" k rq e] kq d i by (simp add: n_def)
  moreover have "elem_at (w\<lparr>nodes := s\<rparr>) e = Inr x" using x(1) by (auto simp: elem_at_def split: if_splits)
  ultimately show ?thesis
    using s(1) i(1,2) by (auto simp: enter_slot_def WT_SLOTLIST_def on_nodes_def upd_elem_def n_def)
qed

section \<open>The relation\<close>

definition abs_event :: "int \<Rightarrow> wt_elem \<Rightarrow> event" where
  "abs_event t x =
     \<lparr>ev_callback = the (app_callback x), ev_arg = app_arg x, ev_size = arg_size x,
      ev_recurs = is_recurrence x, ev_ticks = time_interval x div t,
      ev_request = (case opcode x of
          WTELEM_SCHEDULED \<Rightarrow> NoRequest
        | WTELEM_DELETE \<Rightarrow> Drop
        | _ \<Rightarrow> Place (new_time_interval x div t))\<rparr>"

definition interval_ok :: "int \<Rightarrow> int \<Rightarrow> bool" where
  "interval_ok t k \<longleftrightarrow> 0 < k \<and> k < 2 ^ 31 \<and> t dvd k"

definition elem_ok :: "int \<Rightarrow> nat set \<Rightarrow> nat \<Rightarrow> wt_elem \<Rightarrow> bool" where
  "elem_ok t rq e x \<longleftrightarrow>
     app_callback x \<noteq> None \<and> opcode x \<noteq> WTELEM_UNKNOWN \<and>
     (opcode x = WTELEM_CREATE \<or> opcode x = WTELEM_RESCHED \<longrightarrow> interval_ok t (new_time_interval x)) \<and>
     (opcode x \<noteq> WTELEM_SCHEDULED \<longleftrightarrow> e \<in> rq)"

text \<open>An event in the plan stands in the slot of its time.\<close>

definition placed :: "int \<Rightarrow> int \<Rightarrow> wt_elem \<Rightarrow> int \<Rightarrow> bool" where
  "placed n t x d \<longleftrightarrow>
     execute_cycle_no x = d div n \<and> slot_no x = d mod n \<and> interval_ok t (time_interval x)"

definition live :: "wt_elem option list \<Rightarrow> nat set" where
  "live es = {e. e < length es \<and> es ! e \<noteq> None}"

definition loose_nodes :: "nat set \<Rightarrow> (nat \<times> int) list \<Rightarrow> nat list \<Rightarrow> gnode set" where
  "loose_nodes l pl rq = Glue ` (l - fst ` set pl) \<union> ReschdGlue ` (l - set rq)"

definition clock_ok :: "wheel \<Rightarrow> bool" where
  "clock_ok w \<longleftrightarrow> 0 < wheel_size w \<and> wheel_size w < 2 ^ 31 \<and> 0 < tick_length w \<and>
     0 \<le> current_clock_tic w \<and> current_clock_tic w < wheel_size w \<and> 0 \<le> current_cycle_no w"

text \<open>The contents: the events \<open>es\<close> in the store \<open>s\<close> implement a plan and requests.\<close>

definition filled :: "int \<Rightarrow> int \<Rightarrow> wt_elem option list \<Rightarrow> gnode gstore \<Rightarrow> (nat \<times> int) list \<Rightarrow> nat list \<Rightarrow> bool" where
  "filled n t es s pl rq \<longleftrightarrow>
     pools s (heads n pl rq) (loose_nodes (live es) pl rq) \<and>
     sorted (map snd pl) \<and> distinct (map fst pl) \<and> distinct rq \<and> set rq \<subseteq> live es \<and>
     (\<forall>e d. (e, d) \<in> set pl \<longrightarrow> e < length es \<and> (\<exists>x. es ! e = Some x \<and> placed n t x d)) \<and>
     (\<forall>e x. e < length es \<longrightarrow> es ! e = Some x \<longrightarrow> elem_ok t (set rq) e x)"

definition represents :: "wheel \<Rightarrow> agenda \<Rightarrow> bool" where
  "represents w a \<longleftrightarrow>
     clock_ok w \<and> now a = current_cycle_no w * wheel_size w + current_clock_tic w \<and>
     now a < 2 ^ 31 \<and> ran a = calls w \<and>
     table a = map (map_option (abs_event (tick_length w))) (elems w) \<and>
     filled (wheel_size w) (tick_length w) (elems w) (nodes w) (plan a) (requests a)"

lemma filledD:
  assumes "filled n t es s pl rq"
  shows "pools s (heads n pl rq) (loose_nodes (live es) pl rq)" "sorted (map snd pl)"
    "distinct (map fst pl)" "distinct rq" "set rq \<subseteq> live es"
    "(e, d) \<in> set pl \<Longrightarrow> e < length es \<and> (\<exists>x. es ! e = Some x \<and> placed n t x d)"
    "e < length es \<Longrightarrow> es ! e = Some x \<Longrightarrow> elem_ok t (set rq) e x"
  using assms unfolding filled_def by blast+

lemma elem_at_Inr: "elem_at w e = Inr x \<longleftrightarrow> e < length (elems w) \<and> elems w ! e = Some x"
  by (auto simp: elem_at_def split: option.splits)

lemma live_update [simp]: "e < length es \<Longrightarrow> live (es[e := Some x]) = insert e (live es)"
  by (auto simp: live_def nth_list_update)

lemma live_free: "e < length es \<Longrightarrow> live (es[e := None]) = live es - {e}"
  by (auto simp: live_def nth_list_update split: if_splits)

lemma mem_live: "e < length es \<Longrightarrow> es ! e = Some x \<Longrightarrow> e \<in> live es"
  by (simp add: live_def)

lemma plan_once: "distinct (map fst pl) \<Longrightarrow> (e, d) \<in> set pl \<Longrightarrow> (e, c) \<in> set pl \<Longrightarrow> c = d"
  by (metis eq_key_imp_eq_value)

text \<open>Moving one event: its new time, or none.\<close>

lemma filled_move:
  assumes f: "filled n t es s pl rq" and e: "e < length es" "es ! e = Some x0"
    and p: "pools s' (heads n pl' rq') (loose_nodes (live es) pl' rq')"
    and pl: "pl' = forget e pl \<or> pl' = enqueue e d (forget e pl) \<and> placed n t x d"
    and rq: "rq' = removeAll e rq \<or> rq' = rq" and x: "elem_ok t (set rq') e x"
  shows "filled n t (es[e := Some x]) s' pl' rq'"
  unfolding filled_def
proof (intro conjI allI impI)
  have l: "live (es[e := Some x]) = live es" using e by (auto simp: mem_live)
  show "pools s' (heads n pl' rq') (loose_nodes (live (es[e := Some x])) pl' rq')" unfolding l by (rule p)
  show "sorted (map snd pl')" using pl filledD(2) [OF f] sorted_forget sorted_enqueue by blast
  show "distinct (map fst pl')" using pl filledD(3) [OF f] distinct_forget distinct_enqueue by fastforce
  show "distinct rq'" "set rq' \<subseteq> live (es[e := Some x])"
    using rq filledD(4,5) [OF f] unfolding l by (auto simp: distinct_removeAll)
  fix q
  show "\<exists>y. es[e := Some x] ! q = Some y \<and> placed n t y c" "q < length (es[e := Some x])"
    if "(q, c) \<in> set pl'" for c
    using that pl filledD(6) [OF f, of q c] e by (auto simp: nth_list_update)
  fix y assume y: "q < length (es[e := Some x])" "es[e := Some x] ! q = Some y"
  show "elem_ok t (set rq') q y"
  proof (cases "q = e")
    case False
    then have "elem_ok t (set rq) q y" using y filledD(7) [OF f] by simp
    moreover have "q \<in> set rq' \<longleftrightarrow> q \<in> set rq" using rq False by auto
    ultimately show ?thesis by (simp add: elem_ok_def)
  qed (use y x e in simp)
qed

section \<open>Running an event\<close>

lemma loose_forget: "e \<in> l \<Longrightarrow> insert (Glue e) (loose_nodes l pl rq) = loose_nodes l (forget e pl) rq"
  by (auto simp: loose_nodes_def)

lemma loose_enqueue: "loose_nodes l (enqueue e d pl) rq = loose_nodes l pl rq - {Glue e}"
  by (auto simp: loose_nodes_def)

lemma loose_done:
  "e \<in> l \<Longrightarrow> insert (ReschdGlue e) (loose_nodes l pl rq) = loose_nodes l pl (removeAll e rq)"
  by (auto simp: loose_nodes_def)

lemma Glue_in_pools:
  assumes "e \<in> l" "0 < n"
  shows "Glue e \<in> loose_nodes l pl rq \<or> (\<exists>h ps. heads n pl rq h = Some ps \<and> Glue e \<in> set ps)"
proof (cases "e \<in> fst ` set pl")
  case True
  then obtain d where d: "(e, d) \<in> set pl" by force
  have "int (nat (d mod n)) = d mod n" "d mod n < n" using assms(2) by simp_all
  then have "heads n pl rq (SlotHead (nat (d mod n))) = Some (slot_of n (nat (d mod n)) pl)"
    "Glue e \<in> set (slot_of n (nat (d mod n)) pl)"
    using d by (force simp: heads_def slot_of_def)+
  then show ?thesis by blast
qed (use assms in \<open>simp add: loose_nodes_def\<close>)

lemma ReschdGlue_in_pools:
  "e \<in> l \<Longrightarrow>
   ReschdGlue e \<in> loose_nodes l pl rq \<or> (\<exists>h ps. heads n pl rq h = Some ps \<and> ReschdGlue e \<in> set ps)"
  by (cases "e \<in> set rq") (auto simp: loose_nodes_def heads_def intro!: exI [of _ ReschdHead])

text \<open>The node of an event is taken out of its slot.\<close>

lemma remove_Glue:
  assumes "filled n t es s pl rq" "e \<in> live es" "0 < n"
  obtains s' where "remove_glthread (Glue e) s = Inr s'"
    "pools s' (heads n (forget e pl) rq) (loose_nodes (live es) (forget e pl) rq)"
  using gl.remove_law [OF filledD(1) [OF assms(1)] Glue_in_pools [OF assms(2,3)]] assms(2)
  by (auto simp: out_Glue loose_forget)

lemma forget_twice [simp]: "forget e (forget e pl) = forget e pl"
  by (simp add: forget_def)

lemma table_at:
  "represents w a \<Longrightarrow> elem_at w e = Inr x \<Longrightarrow> table a ! e = Some (abs_event (tick_length w) x)"
  by (auto simp: represents_def elem_at_Inr)

lemma filled_files:
  "filled (wheel_size w) t (elems w) s pl rq \<Longrightarrow> q \<in> set pl \<Longrightarrow> filed w (fst q) (snd q)"
  using filledD(6) [of "wheel_size w" t "elems w" s pl rq "fst q" "snd q"]
  by (auto simp: filed_def elem_at_Inr placed_def)

text \<open>
  Into the slot of the time \<open>d\<close> after it was taken out, the cycle being set before.
\<close>

lemma refile:
  assumes f: "filled (wheel_size w) t (elems w) (nodes w) pl rq" and n: "0 < wheel_size w"
    and x: "elem_at w e = Inr x"
    and s: "pools s (heads (wheel_size w) (forget e pl) rq) (loose_nodes (live (elems w)) (forget e pl) rq)"
    and y: "execute_cycle_no y = d div wheel_size w"
  shows "\<exists>s'. enter_slot e (d mod wheel_size w) (w\<lparr>calls := c, elems := (elems w)[e := Some y], nodes := s\<rparr>) =
      Inr (w\<lparr>calls := c, nodes := s',
          elems := (elems w)[e := Some (y\<lparr>slotlist_head := Some (nat (d mod wheel_size w))\<rparr>)]\<rparr>) \<and>
    pools s' (heads (wheel_size w) (enqueue e d (forget e pl)) rq)
      (loose_nodes (live (elems w)) (enqueue e d (forget e pl)) rq)"
proof -
  let ?w = "w\<lparr>calls := c, elems := (elems w)[e := Some y], nodes := s\<rparr>"
  have e: "e < length (elems w)" "elems w ! e = Some x" using x by (auto simp: elem_at_Inr)
  have "filed ?w (fst q) (snd q)" if "q \<in> set (forget e pl)" for q
    using that filled_files [OF f, of q] by (auto simp: filed_def elem_at_Inr)
  moreover have "Glue e \<in> loose_nodes (live (elems w)) (forget e pl) rq"
    using mem_live [OF e] by (auto simp: loose_nodes_def)
  ultimately have "\<exists>s'. enter_slot e (d mod wheel_size ?w) ?w = Inr (?w\<lparr>nodes := s',
      elems := (elems ?w)[e := Some (y\<lparr>slotlist_head := Some (nat (d mod wheel_size ?w))\<rparr>)]\<rparr>) \<and>
    pools s' (heads (wheel_size ?w) (enqueue e d (forget e pl)) rq)
      (loose_nodes (live (elems w)) (forget e pl) rq - {Glue e})"
    using e n y sorted_forget [OF filledD(2) [OF f]] s
    by (intro enter_slot_ok) (auto simp: elem_at_Inr)
  then show ?thesis by (simp add: loose_enqueue)
qed

lemma run_event_ok:
  assumes r: "represents w a" and e: "(e, now a) \<in> set (plan a)" "table a ! e = Some v"
    and room: "now a + ev_ticks v < 2 ^ 31"
  shows "\<exists>s es c. run_event e (now a) w = Inr (w\<lparr>calls := c, nodes := s, elems := es\<rparr>) \<and>
    represents (w\<lparr>calls := c, nodes := s, elems := es\<rparr>) (run_one e a)"
proof -
  define n t d where "n = wheel_size w" and "t = tick_length w" and "d = now a + ev_ticks v"
  have f: "filled n t (elems w) (nodes w) (plan a) (requests a)" and n: "0 < n" and t: "0 < t"
    and now: "0 \<le> now a" and tab: "table a = map (map_option (abs_event t)) (elems w)"
    using r by (simp_all add: represents_def clock_ok_def n_def t_def)
  obtain x where x: "e < length (elems w)" "elems w ! e = Some x" "placed n t x (now a)"
    using filledD(6) [OF f e(1)] by blast
  then have at: "elem_at w e = Inr x" by (simp add: elem_at_Inr)
  have v: "v = abs_event t x" using e(2) tab x by simp
  have ok: "elem_ok t (set (requests a)) e x" using filledD(7) [OF f x(1,2)] .
  then obtain g where g: "app_callback x = Some g" by (auto simp: elem_ok_def)
  have k: "interval_ok t (time_interval x)" using x(3) by (simp add: placed_def)
  define c where "c = calls w @ [(g, app_arg x, arg_size x)]"
  have lv: "e \<in> live (elems w)" using mem_live [OF x(1,2)] .
  obtain s where s: "remove_glthread (Glue e) (nodes w) = Inr s"
    "pools s (heads n (forget e (plan a)) (requests a)) (loose_nodes (live (elems w)) (forget e (plan a)) (requests a))"
    using remove_Glue [OF f lv n] .
  show ?thesis
  proof (cases "is_recurrence x")
    case True
    define y where "y = x\<lparr>execute_cycle_no := d div n\<rparr>"
    define z where "z = y\<lparr>slotlist_head := Some (nat (d mod n)), slot_no := d mod n, N_scheduled := N_scheduled x + 1\<rparr>"
    have "next_slot w (now a) (time_interval x) = Inr (d div n, d mod n)"
      using next_slot_eq [of "now a" "time_interval x" w] now k n t room v
      by (simp add: interval_ok_def d_def abs_event_def n_def t_def)
    moreover obtain s' where s': "enter_slot e (d mod n) (w\<lparr>calls := c, elems := (elems w)[e := Some y], nodes := s\<rparr>) =
        Inr (w\<lparr>calls := c, nodes := s',
          elems := (elems w)[e := Some (y\<lparr>slotlist_head := Some (nat (d mod n))\<rparr>)]\<rparr>)"
      "pools s' (heads n (enqueue e d (forget e (plan a))) (requests a))
         (loose_nodes (live (elems w)) (enqueue e d (forget e (plan a))) (requests a))"
      using refile [OF f [unfolded n_def] n [unfolded n_def] at s(2) [unfolded n_def], of y d c]
      by (auto simp: y_def n_def)
    ultimately have run: "run_event e (now a) w = Inr (w\<lparr>calls := c, nodes := s', elems := (elems w)[e := Some z]\<rparr>)"
      using True at x(1) g s(1)
      by (simp add: run_event_def c_def [symmetric] Let_def upd_elem_def elem_at_def on_nodes_def y_def z_def)
    have "filled n t ((elems w)[e := Some z]) s' (enqueue e d (forget e (plan a))) (requests a)"
      by (rule filled_move [OF f x(1,2) s'(2)])
        (use ok k in \<open>auto simp: elem_ok_def placed_def z_def y_def\<close>)
    moreover have "abs_event t z = abs_event t x"
      by (cases "opcode x") (simp_all add: abs_event_def z_def y_def)
    then have "map (map_option (abs_event t)) ((elems w)[e := Some z]) = table a"
      using x tab by (simp add: map_update list_update_same_conv)
    ultimately have "represents (w\<lparr>calls := c, nodes := s', elems := (elems w)[e := Some z]\<rparr>) (run_one e a)"
      using r e(2) True g v
      by (simp add: represents_def run_one_def clock_ok_def n_def t_def d_def c_def abs_event_def)
    with run show ?thesis by blast
  next
    case False
    have f': "filled n t (elems w) s (forget e (plan a)) (requests a)"
      using filled_move [OF f x(1,2) s(2), of 0 x] ok x(2)
        list_update_id [of "elems w" e] by simp
    have "remove_glthread (Glue e) s = Inr s"
      by (rule remove_loose [OF poolsD(4) [OF s(2)]]) (use lv in \<open>auto simp: loose_nodes_def\<close>)
    then have run: "run_event e (now a) w = Inr (w\<lparr>calls := c, nodes := s, elems := elems w\<rparr>)"
      using False at g s(1) by (simp add: run_event_def c_def [symmetric] on_nodes_def)
    have "represents (w\<lparr>calls := c, nodes := s, elems := elems w\<rparr>) (run_one e a)"
      using r e(2) False g v f'
      by (simp add: represents_def run_one_def clock_ok_def n_def t_def c_def abs_event_def)
    with run show ?thesis by blast
  qed
qed

section \<open>Running a slot\<close>

text \<open>Enough room in the range of \<open>int\<close> for every time that the tick may compute.\<close>

definition room :: "agenda \<Rightarrow> bool" where
  "room a \<longleftrightarrow> (\<forall>e < length (table a). \<forall>v. table a ! e = Some v \<longrightarrow>
     now a + ev_ticks v < 2 ^ 31 \<and> (\<forall>k. ev_request v = Place k \<longrightarrow> now a + k < 2 ^ 31))"

lemma run_one_simps [simp]:
  "now (run_one e a) = now a" "table (run_one e a) = table a" "requests (run_one e a) = requests a"
  by (simp_all add: run_one_def split: option.splits)

lemma room_run_one [simp]: "room (run_one e a) = room a"
  by (simp add: room_def)

lemma clock_div:
  assumes "represents w a"
  shows "now a div wheel_size w = current_cycle_no w" "now a mod wheel_size w = current_clock_tic w"
  using assms by (simp_all add: represents_def clock_ok_def)

lemma plan_elem:
  assumes "represents w a" "(e, d) \<in> set (plan a)"
  obtains x where "elem_at w e = Inr x" "execute_cycle_no x = d div wheel_size w"
    "slot_no x = d mod wheel_size w" "interval_ok (tick_length w) (time_interval x)"
    "e < length (table a)" "table a ! e = Some (abs_event (tick_length w) x)"
proof -
  have f: "filled (wheel_size w) (tick_length w) (elems w) (nodes w) (plan a) (requests a)"
    and tab: "table a = map (map_option (abs_event (tick_length w))) (elems w)"
    using assms(1) by (simp_all add: represents_def)
  from filledD(6) [OF f assms(2)] tab that show thesis
    by (auto simp: elem_at_Inr placed_def)
qed

lemma ticks_pos: "interval_ok t k \<Longrightarrow> 0 < t \<Longrightarrow> 0 < k div t"
  by (auto simp: interval_ok_def pos_imp_zdiv_pos_iff zdvd_imp_le)

lemma slot_chain:
  assumes "represents w a" "0 \<le> i" "i < wheel_size w"
  shows "chain (nodes w) (SlotHead (nat i)) (slot_of (wheel_size w) (nat i) (plan a))"
proof -
  have "heads (wheel_size w) (plan a) (requests a) (SlotHead (nat i)) =
      Some (slot_of (wheel_size w) (nat i) (plan a))"
    using assms(2,3) by (simp add: heads_def)
  moreover have "filled (wheel_size w) (tick_length w) (elems w) (nodes w) (plan a) (requests a)"
    using assms(1) by (simp add: represents_def)
  ultimately show ?thesis using poolsD(1) [OF filledD(1)] by blast
qed

lemma slot_hd:
  assumes "slot_of n i pl \<noteq> []"
  obtains g where "g \<in> set pl" "snd g mod n = int i" "hd (slot_of n i pl) = Glue (fst g)"
  using hd_in_set [OF assms] by (auto simp: slot_of_def)

lemma enqueue_after: "\<forall>q\<in>set xs. snd q \<le> d \<Longrightarrow> enqueue e d (xs @ ys) = xs @ enqueue e d ys"
  by (induction xs) (auto simp: enqueue_def insert_before_def)

lemma forget_absent: "e \<notin> fst ` set pl \<Longrightarrow> forget e pl = pl"
  by (induction pl) (auto simp: forget_def)

lemma run_one_plan:
  assumes "represents w a" "plan a = (e, now a) # cur @ rest" "\<forall>q\<in>set cur. snd q = now a"
    "\<forall>q\<in>set rest. now a < snd q"
  obtains rest' where "plan (run_one e a) = cur @ rest'" "\<forall>q\<in>set rest'. now a < snd q"
    "set rest \<subseteq> set rest'"
proof -
  obtain x where x: "interval_ok (tick_length w) (time_interval x)"
    "table a ! e = Some (abs_event (tick_length w) x)"
    using plan_elem [OF assms(1), of e "now a"] assms(2) by (metis list.set_intros(1))
  have k: "0 < time_interval x div tick_length w"
    using x(1) assms(1) by (intro ticks_pos) (simp_all add: represents_def clock_ok_def)
  have "distinct (map fst (plan a))" using assms(1) by (auto simp: represents_def filled_def)
  then have fo: "forget e (plan a) = cur @ rest"
    using assms(2) forget_absent [of e "cur @ rest"] by (simp add: forget_def image_Un)
  show thesis
  proof (cases "is_recurrence x")
    case True
    then show ?thesis
      using that [of "enqueue e (now a + time_interval x div tick_length w) rest"] fo x k assms(3,4)
      by (auto simp: run_one_def abs_event_def enqueue_after)
  next
    case False
    then show ?thesis using that [of rest] fo x assms(4) by (simp add: run_one_def abs_event_def)
  qed
qed

lemma slot_prefix:
  assumes "plan a = cur @ rest" "\<forall>q\<in>set cur. snd q = now a" "0 < n"
  shows "slot_of n (nat (now a mod n)) (plan a) =
    map (\<lambda>q. Glue (fst q)) cur @ slot_of n (nat (now a mod n)) rest"
proof -
  have "filter (\<lambda>q. snd q mod n = int (nat (now a mod n))) cur = cur"
    using assms(2,3) by (intro filter_True) simp
  then show ?thesis by (simp add: slot_of_def assms(1))
qed

text \<open>Between two ticks everything in the plan lies in the future.\<close>

definition fresh :: "agenda \<Rightarrow> bool" where
  "fresh a \<longleftrightarrow> (\<forall>q\<in>set (plan a). now a < snd q)"

lemma slot_loop_ok:
  assumes "represents w a" "room a" "plan a = cur @ rest" "\<forall>q\<in>set cur. snd q = now a"
    "\<forall>q\<in>set rest. now a < snd q"
    and "if cur \<noteq> [] then p = Some (Glue (fst (hd cur)))
         else p = None \<or> (\<exists>q\<in>set rest. snd q mod wheel_size w = now a mod wheel_size w \<and> p = Some (Glue (fst q)))"
  shows "\<exists>s es c. slot_loop (now a) p w = Some (Inr (w\<lparr>calls := c, nodes := s, elems := es\<rparr>)) \<and>
    represents (w\<lparr>calls := c, nodes := s, elems := es\<rparr>) (fold run_one (map fst cur) a) \<and>
    fresh (fold run_one (map fst cur) a)"
  using assms
proof (induction cur arbitrary: w a rest p)
  case Nil
  note r = Nil.prems(1)
  have n: "0 < wheel_size w" using r by (simp add: represents_def clock_ok_def)
  have w: "w\<lparr>calls := calls w, nodes := nodes w, elems := elems w\<rparr> = w" by simp
  have fr: "fresh a" using Nil.prems(3,5) by (simp add: fresh_def)
  show ?case
  proof (cases p)
    case None
    have "slot_loop (now a) p w = Some (Inr w)" using None by (subst slot_loop.simps) simp
    then show ?thesis using r w fr by (metis fold_simps(1) list.map(1))
  next
    case (Some node)
    then obtain e d where q: "(e, d) \<in> set (plan a)" "now a < d" "node = Glue e"
      "d mod wheel_size w = now a mod wheel_size w" using Nil.prems by fastforce
    obtain x where x: "elem_at w e = Inr x" "execute_cycle_no x = d div wheel_size w"
      using plan_elem [OF r q(1)] by metis
    have "Glue e \<in> set (slot_of (wheel_size w) (nat (d mod wheel_size w)) (plan a))"
      using q(1) n by (force simp: slot_of_def)
    then obtain nd where nd: "nodes w (Glue e) = Some nd"
      using chain_live [OF slot_chain [OF r, of "d mod wheel_size w"]] n by force
    have "now a div wheel_size w < d div wheel_size w"
    proof (rule ccontr)
      assume "\<not> ?thesis"
      then have "d div wheel_size w * wheel_size w \<le> now a div wheel_size w * wheel_size w"
        using n by (simp add: mult_right_mono)
      then show False
        using q(2,4) div_mult_mod_eq [of d "wheel_size w"] div_mult_mod_eq [of "now a" "wheel_size w"]
        by linarith
    qed
    then have "slot_loop (now a) p w = Some (Inr w)"
      using Some q x nd clock_div(1) [OF r] by (subst slot_loop.simps) (simp add: node_at_def)
    then show ?thesis using r w fr by (metis fold_simps(1) list.map(1))
  qed
next
  case (Cons q cur)
  note r = Cons.prems(1)
  define n where "n = wheel_size w"
  have n: "0 < n" using r by (simp add: represents_def clock_ok_def n_def)
  obtain e where q: "q = (e, now a)" using Cons.prems(4) by (cases q) auto
  have mem: "(e, now a) \<in> set (plan a)" using Cons.prems(3) q by simp
  obtain x where x: "elem_at w e = Inr x" "execute_cycle_no x = now a div n"
    and v: "e < length (table a)" "table a ! e = Some (abs_event (tick_length w) x)"
    using plan_elem [OF r mem] unfolding n_def by metis
  have i: "0 \<le> now a mod n" "now a mod n < n" using n by simp_all
  note chain = slot_chain [OF r i [unfolded n_def], folded n_def]
  have pre: "slot_of n (nat (now a mod n)) (plan a) =
      [Glue e] @ (map (\<lambda>q. Glue (fst q)) cur @ slot_of n (nat (now a mod n)) rest)"
    using slot_prefix [OF Cons.prems(3,4) n] q by simp
  obtain nd where nd: "nodes w (Glue e) = Some nd"
    using chain_live [OF chain, of "Glue e"] pre by auto
  have right: "right nd = (if cur = [] \<and> slot_of n (nat (now a mod n)) rest = [] then None
      else Some (hd (map (\<lambda>q. Glue (fst q)) cur @ slot_of n (nat (now a mod n)) rest)))"
    using chain_right [OF chain [unfolded pre]] nd by (auto simp: rgt_def)
  have "now a + ev_ticks (abs_event (tick_length w) x) < 2 ^ 31"
    using Cons.prems(2) v unfolding room_def by blast
  from run_event_ok [OF r mem v(2) this] obtain s es c where
    run: "run_event e (now a) w = Inr (w\<lparr>calls := c, nodes := s, elems := es\<rparr>)"
    and r': "represents (w\<lparr>calls := c, nodes := s, elems := es\<rparr>) (run_one e a)" by blast
  obtain rest' where rest': "plan (run_one e a) = cur @ rest'" "\<forall>q\<in>set rest'. now a < snd q"
    "set rest \<subseteq> set rest'"
    using run_one_plan [OF r, of e cur rest] Cons.prems(3-5) q by auto
  let ?w = "w\<lparr>calls := c, nodes := s, elems := es\<rparr>"
  have "if cur \<noteq> [] then right nd = Some (Glue (fst (hd cur)))
      else right nd = None \<or> (\<exists>q\<in>set rest'. snd q mod wheel_size ?w = now (run_one e a) mod wheel_size ?w \<and>
        right nd = Some (Glue (fst q)))"
  proof (cases "cur = [] \<and> slot_of n (nat (now a mod n)) rest \<noteq> []")
    case True
    then obtain g where "g \<in> set rest" "snd g mod n = now a mod n" "right nd = Some (Glue (fst g))"
      using right slot_hd [of n "nat (now a mod n)" rest] i by auto
    then show ?thesis using True rest'(3) by (auto simp: n_def)
  qed (use right in \<open>auto simp: hd_append hd_map\<close>)
  from Cons.IH [OF r' _ rest'(1) _ _ this] Cons.prems(2,4) rest'(2)
  obtain s' es' c' where
    "slot_loop (now (run_one e a)) (right nd) ?w = Some (Inr (?w\<lparr>calls := c', nodes := s', elems := es'\<rparr>))"
    "represents (?w\<lparr>calls := c', nodes := s', elems := es'\<rparr>) (fold run_one (map fst cur) (run_one e a))"
    "fresh (fold run_one (map fst cur) (run_one e a))"
    by auto
  moreover have "slot_loop (now a) p w = slot_loop (now a) (right nd) ?w"
    using Cons.prems(6) q x nd run clock_div(1) [OF r]
    by (subst slot_loop.simps) (simp add: node_at_def n_def)
  ultimately show ?case using q by auto
qed

section \<open>Taking up a request\<close>

lemma current_slot: "represents w a \<Longrightarrow> GET_WT_CURRENT_ABS_SLOT_NO w = now a"
  by (auto simp: represents_def clock_ok_def GET_WT_CURRENT_ABS_SLOT_NO_def intro!: c_int_id
      intro: order_trans [of _ 0])

lemma filled_free:
  assumes f: "filled n t es s pl rq" and e: "e \<in> live es"
    and p: "pools s' (heads n (forget e pl) (removeAll e rq)) (loose_nodes (live es) (forget e pl) (removeAll e rq))"
  shows "filled n t (es[e := None]) (s'(Glue e := None, ReschdGlue e := None)) (forget e pl) (removeAll e rq)"
proof -
  let ?D = "loose_nodes (live es) (forget e pl) (removeAll e rq)"
  have el: "e < length es" using e by (simp add: live_def)
  have "Glue e \<in> ?D" "ReschdGlue e \<in> ?D - {Glue e}" using e by (auto simp: loose_nodes_def)
  from pools_free [OF pools_free [OF p this(1)] this(2)]
  have "pools (s'(Glue e := None, ReschdGlue e := None)) (heads n (forget e pl) (removeAll e rq))
      (?D - {Glue e} - {ReschdGlue e})" .
  moreover have "?D - {Glue e} - {ReschdGlue e} = loose_nodes (live (es[e := None])) (forget e pl) (removeAll e rq)"
    unfolding live_free [OF el] by (auto simp: loose_nodes_def)
  moreover have "elem_ok t (set (removeAll e rq)) q x" if "q < length es" "es[e := None] ! q = Some x" for q x
    using that filledD(7) [OF f, of q x] el by (cases "q = e") (auto simp: elem_ok_def)
  moreover have "q < length es \<and> (\<exists>x. es[e := None] ! q = Some x \<and> placed n t x d)"
    if "(q, d) \<in> set (forget e pl)" for q d
    using that filledD(6) [OF f, of q d] by auto
  ultimately show ?thesis
    using filledD(2-5) [OF f] el
    by (auto simp: filled_def sorted_forget distinct_forget live_free distinct_removeAll)
qed

lemma remove_ReschdGlue:
  assumes "pools s (heads n pl rq) (loose_nodes l pl rq)" "e \<in> l"
  obtains s' where "remove_glthread (ReschdGlue e) s = Inr s'"
    "pools s' (heads n pl (removeAll e rq)) (loose_nodes l pl (removeAll e rq))"
  using gl.remove_law [OF assms(1) ReschdGlue_in_pools [OF assms(2)]] assms(2)
  by (auto simp: out_ReschdGlue loose_done)

lemma take_up_ok:
  assumes r: "represents w a" and e: "e \<in> set (requests a)" and room: "room a"
  shows "\<exists>s es. take_up (ReschdGlue e) w = Inr (w\<lparr>nodes := s, elems := es\<rparr>) \<and>
    represents (w\<lparr>nodes := s, elems := es\<rparr>) (take_one e a)"
proof -
  define n t where "n = wheel_size w" and "t = tick_length w"
  have f: "filled n t (elems w) (nodes w) (plan a) (requests a)" and n: "0 < n" and t: "0 < t"
    and now: "0 \<le> now a" and tab: "table a = map (map_option (abs_event t)) (elems w)"
    using r by (simp_all add: represents_def clock_ok_def n_def t_def)
  have lv: "e \<in> live (elems w)" using filledD(5) [OF f] e by blast
  then obtain x where x: "e < length (elems w)" "elems w ! e = Some x" by (auto simp: live_def)
  then have at: "elem_at w e = Inr x" by (simp add: elem_at_Inr)
  have ok: "elem_ok t (set (requests a)) e x" using filledD(7) [OF f x] .
  have v: "table a ! e = Some (abs_event t x)" using tab x by simp
  obtain s where s: "remove_glthread (Glue e) (nodes w) = Inr s"
    "pools s (heads n (forget e (plan a)) (requests a)) (loose_nodes (live (elems w)) (forget e (plan a)) (requests a))"
    using remove_Glue [OF f lv n] .
  define y where "y = x\<lparr>slotlist_head := None\<rparr>"
  consider "opcode x = WTELEM_DELETE" | "opcode x = WTELEM_CREATE \<or> opcode x = WTELEM_RESCHED"
    using ok e by (cases "opcode x") (auto simp: elem_ok_def)
  then show ?thesis
  proof cases
    case 1
    obtain s' where s': "remove_glthread (ReschdGlue e) s = Inr s'"
      "pools s' (heads n (forget e (plan a)) (removeAll e (requests a)))
         (loose_nodes (live (elems w)) (forget e (plan a)) (removeAll e (requests a)))"
      using remove_ReschdGlue [OF s(2) lv] .
    let ?w = "w\<lparr>nodes := s'(Glue e := None, ReschdGlue e := None), elems := (elems w)[e := None]\<rparr>"
    have run: "take_up (ReschdGlue e) w = Inr ?w"
      using 1 at x s(1) s'(1)
      by (simp add: take_up_def on_nodes_def upd_elem_def elem_at_def free_wheel_timer_element_def)
    have "represents ?w (take_one e a)"
      using r filled_free [OF f lv s'(2)] v 1 tab
      by (simp add: represents_def take_one_def abs_event_def clock_ok_def n_def t_def map_update)
    with run show ?thesis by blast
  next
    case 2
    define k d where "k = new_time_interval x" and "d = now a + k div t"
    have k: "interval_ok t k" using ok 2 by (auto simp: elem_ok_def k_def)
    have "now a + k div t < 2 ^ 31"
      using room v 2 x tab by (fastforce simp: room_def abs_event_def k_def)
    then have nxt: "next_slot w (now a) k = Inr (d div n, d mod n)"
      using next_slot_eq [of "now a" k w] now k n t by (simp add: interval_ok_def d_def n_def t_def)
    define y1 where "y1 = y\<lparr>time_interval := k, execute_cycle_no := d div n, slot_no := d mod n\<rparr>"
    define pl where "pl = enqueue e d (forget e (plan a))"
    have ord: "w\<lparr>calls := calls w, elems := es, nodes := s\<rparr> = w\<lparr>nodes := s, elems := es\<rparr>"
      "w\<lparr>calls := calls w, nodes := s', elems := es\<rparr> = w\<lparr>nodes := s', elems := es\<rparr>" for es s s'
      by simp_all
    obtain s1 where s1: "enter_slot e (d mod n) (w\<lparr>nodes := s, elems := (elems w)[e := Some y1]\<rparr>) =
        Inr (w\<lparr>nodes := s1, elems := (elems w)[e := Some (y1\<lparr>slotlist_head := Some (nat (d mod n))\<rparr>)]\<rparr>)"
      "pools s1 (heads n pl (requests a)) (loose_nodes (live (elems w)) pl (requests a))"
      using refile [OF f [unfolded n_def] n [unfolded n_def] at s(2) [unfolded n_def], of y1 d "calls w"]
      unfolding ord by (auto simp: y1_def n_def pl_def)
    obtain s2 where s2: "remove_glthread (ReschdGlue e) s1 = Inr s2"
      "pools s2 (heads n pl (removeAll e (requests a))) (loose_nodes (live (elems w)) pl (removeAll e (requests a)))"
      using remove_ReschdGlue [OF s1(2) lv] .
    define z where "z = y1\<lparr>slotlist_head := Some (nat (d mod n)), N_scheduled := N_scheduled x + 1,
        opcode := WTELEM_SCHEDULED\<rparr>"
    let ?w = "w\<lparr>nodes := s2, elems := (elems w)[e := Some z]\<rparr>"
    have run: "take_up (ReschdGlue e) w = Inr ?w"
      using 2 at x s(1) s1(1) s2(1) k nxt current_slot [OF r] ok
      by (auto simp: take_up_def on_nodes_def upd_elem_def elem_at_def y_def y1_def z_def k_def
          interval_ok_def elem_ok_def)
    have "filled n t ((elems w)[e := Some z]) s2 pl (removeAll e (requests a))"
      by (rule filled_move [OF f x s2(2), of d])
        (use ok k in \<open>auto simp: elem_ok_def placed_def z_def y1_def y_def pl_def\<close>)
    moreover have "abs_event t z = (abs_event t x)\<lparr>ev_ticks := k div t, ev_request := NoRequest\<rparr>"
      by (simp add: abs_event_def z_def y1_def y_def)
    ultimately have "represents ?w (take_one e a)"
      using r v 2 tab
      by (auto simp: represents_def take_one_def clock_ok_def n_def t_def map_update abs_event_def
          k_def d_def pl_def)
    with run show ?thesis by blast
  qed
qed

lemma take_one_Place:
  "table a ! e = Some v \<Longrightarrow> ev_request v = Place k \<Longrightarrow> take_one e a =
     a\<lparr>table := (table a)[e := Some (v\<lparr>ev_ticks := k, ev_request := NoRequest\<rparr>)],
       plan := enqueue e (now a + k) (forget e (plan a)), requests := removeAll e (requests a)\<rparr>"
  by (simp add: take_one_def)

lemma request_kinds:
  assumes "represents w a" "e \<in> set (requests a)"
  obtains v where "e < length (table a)" "table a ! e = Some v" "ev_request v = Drop"
  | v k where "e < length (table a)" "table a ! e = Some v" "ev_request v = Place k" "0 < k"
proof -
  have f: "filled (wheel_size w) (tick_length w) (elems w) (nodes w) (plan a) (requests a)"
    and tab: "table a = map (map_option (abs_event (tick_length w))) (elems w)" "0 < tick_length w"
    using assms(1) by (simp_all add: represents_def clock_ok_def)
  obtain x where x: "e < length (elems w)" "elems w ! e = Some x"
    using filledD(5) [OF f] assms(2) by (auto simp: live_def)
  from filledD(7) [OF f x] assms(2) tab x that ticks_pos [OF _ tab(2)] show thesis
    by (cases "opcode x") (auto simp: elem_ok_def abs_event_def)
qed

lemma take_one_simps:
  assumes "represents w a" "e \<in> set (requests a)"
  shows "now (take_one e a) = now a" "requests (take_one e a) = removeAll e (requests a)"
    "room a \<Longrightarrow> room (take_one e a)" "fresh a \<Longrightarrow> fresh (take_one e a)" "ran (take_one e a) = ran a"
proof -
  show "now (take_one e a) = now a" "requests (take_one e a) = removeAll e (requests a)"
    "ran (take_one e a) = ran a"
    by (rule request_kinds [OF assms]; simp add: take_one_def)+
  show "room a \<Longrightarrow> room (take_one e a)"
    by (rule request_kinds [OF assms]; auto simp: take_one_def room_def nth_list_update)
  show "fresh a \<Longrightarrow> fresh (take_one e a)"
    by (rule request_kinds [OF assms]; auto simp: take_one_def fresh_def)
qed

lemma reschd_chain:
  assumes "represents w a"
  shows "chain (nodes w) ReschdHead (map ReschdGlue (requests a))"
proof -
  have "filled (wheel_size w) (tick_length w) (elems w) (nodes w) (plan a) (requests a)"
    using assms by (simp add: represents_def)
  from poolsD(1) [OF filledD(1) [OF this], of ReschdHead] show ?thesis by (simp add: heads_def)
qed

lemma resched_loop_ok:
  assumes "represents w a" "room a" "fresh a" "requests a = rq"
    "p = (if rq = [] then None else Some (ReschdGlue (hd rq)))"
  shows "\<exists>s es. resched_loop p w = Some (Inr (w\<lparr>nodes := s, elems := es\<rparr>)) \<and>
    represents (w\<lparr>nodes := s, elems := es\<rparr>) (fold take_one rq a) \<and> fresh (fold take_one rq a)"
  using assms
proof (induction rq arbitrary: w a p)
  case Nil
  have "resched_loop p w = Some (Inr (w\<lparr>nodes := nodes w, elems := elems w\<rparr>))"
    using Nil.prems(5) by (subst resched_loop.simps) simp
  then show ?case using Nil.prems(1,3) by (intro exI [of _ "nodes w"] exI [of _ "elems w"]) simp
next
  case (Cons e rq)
  note r = Cons.prems(1)
  have e: "e \<in> set (requests a)" using Cons.prems(4) by simp
  have "distinct (requests a)" using r by (auto simp: represents_def filled_def)
  then have rq: "removeAll e (requests a) = rq" using Cons.prems(4) by simp
  have c: "chain (nodes w) ReschdHead ([ReschdGlue e] @ map ReschdGlue rq)"
    using reschd_chain [OF r] Cons.prems(4) by simp
  obtain nd where nd: "nodes w (ReschdGlue e) = Some nd" using chain_live [OF c, of "ReschdGlue e"] by auto
  have right: "right nd = (if rq = [] then None else Some (ReschdGlue (hd rq)))"
    using chain_right [OF c] nd by (auto simp: rgt_def hd_map)
  obtain s es where run: "take_up (ReschdGlue e) w = Inr (w\<lparr>nodes := s, elems := es\<rparr>)"
    and r': "represents (w\<lparr>nodes := s, elems := es\<rparr>) (take_one e a)"
    using take_up_ok [OF r e Cons.prems(2)] by blast
  obtain s' es' where
    "resched_loop (right nd) (w\<lparr>nodes := s, elems := es\<rparr>) = Some (Inr (w\<lparr>nodes := s', elems := es'\<rparr>))"
    "represents (w\<lparr>nodes := s', elems := es'\<rparr>) (fold take_one rq (take_one e a))"
    "fresh (fold take_one rq (take_one e a))"
    using Cons.IH [OF r' take_one_simps(3) [OF r e Cons.prems(2)] take_one_simps(4) [OF r e Cons.prems(3)] _ right]
      take_one_simps(2) [OF r e] rq by auto
  then show ?case
    using Cons.prems(5) nd run by (subst resched_loop.simps) (auto simp: node_at_def)
qed

lemma process_ok:
  assumes "represents w a" "room a" "fresh a"
  shows "\<exists>s es. process_wt_reschedule_slotlist w = Inr (w\<lparr>nodes := s, elems := es\<rparr>) \<and>
    represents (w\<lparr>nodes := s, elems := es\<rparr>) (fold take_one (requests a) a) \<and>
    fresh (fold take_one (requests a) a)"
proof -
  note c = reschd_chain [OF assms(1)]
  obtain nd where nd: "nodes w ReschdHead = Some nd" using chain_live [OF c, of ReschdHead] by auto
  have links: "left nd = None" "right nd = (if requests a = [] then None else Some (ReschdGlue (hd (requests a))))"
    using c chain_right [of "nodes w" ReschdHead "[]" "map ReschdGlue (requests a)"] nd
    by (auto simp: chain_def lft_def rgt_def hd_map)
  show ?thesis
  proof (cases "requests a = []")
    case True
    then have "process_wt_reschedule_slotlist w = Inr (w\<lparr>nodes := nodes w, elems := elems w\<rparr>)"
      using nd links by (simp add: process_wt_reschedule_slotlist_def IS_GLTHREAD_LIST_EMPTY_def node_at_def)
    then show ?thesis using True assms by (intro exI [of _ "nodes w"] exI [of _ "elems w"]) simp
  next
    case False
    obtain s es where
      "resched_loop (right nd) w = Some (Inr (w\<lparr>nodes := s, elems := es\<rparr>))"
      "represents (w\<lparr>nodes := s, elems := es\<rparr>) (fold take_one (requests a) a)"
      "fresh (fold take_one (requests a) a)"
      using resched_loop_ok [OF assms refl links(2)] by blast
    then show ?thesis
      using nd links(1) links(2) False by (intro exI [of _ s] exI [of _ es])
        (simp add: process_wt_reschedule_slotlist_def IS_GLTHREAD_LIST_EMPTY_def node_at_def)
  qed
qed

section \<open>The tick\<close>

lemma advance_clock_ok:
  assumes "represents w a" "now a + 1 < 2 ^ 31"
  shows "represents (advance_clock w) (a\<lparr>now := now a + 1\<rparr>)"
    "\<exists>i j. advance_clock w = w\<lparr>current_clock_tic := i, current_cycle_no := j\<rparr>"
proof -
  have r: "clock_ok w" "now a = current_cycle_no w * wheel_size w + current_clock_tic w"
    using assms(1) by (simp_all add: represents_def)
  have "0 \<le> current_cycle_no w" "0 < wheel_size w" "current_clock_tic w < wheel_size w"
    "0 \<le> current_clock_tic w" "wheel_size w < 2 ^ 31"
    using r(1) by (simp_all add: clock_ok_def)
  moreover from this have "current_cycle_no w * 1 \<le> current_cycle_no w * wheel_size w"
    by (intro mult_left_mono) simp_all
  ultimately have "c_int (current_clock_tic w + 1) = current_clock_tic w + 1"
    "c_int (current_cycle_no w + 1) = current_cycle_no w + 1"
    using assms(2) r(2) by (intro c_int_id; simp)+
  then show "represents (advance_clock w) (a\<lparr>now := now a + 1\<rparr>)"
    using assms r
    by (auto simp: advance_clock_def Let_def represents_def clock_ok_def algebra_simps
        wt_get_clock_interval_in_milli_sec_def)
  show "\<exists>i j. advance_clock w = w\<lparr>current_clock_tic := i, current_cycle_no := j\<rparr>"
  proof (cases "c_int (current_clock_tic w + 1) = wheel_size w")
    case False
    then have "advance_clock w = w\<lparr>current_clock_tic := c_int (current_clock_tic w + 1),
        current_cycle_no := current_cycle_no w\<rparr>" by (simp add: advance_clock_def)
    then show ?thesis by blast
  qed (auto simp: advance_clock_def)
qed

lemma sorted_split:
  assumes "sorted (map snd pl)" "\<forall>q\<in>set pl. (m :: int) \<le> snd q"
  shows "pl = filter (\<lambda>q. snd q = m) pl @ filter (\<lambda>q. m < snd q) pl"
  using assms
proof (induction pl)
  case (Cons q pl)
  show ?case
  proof (cases "snd q = m")
    case False
    then have "\<forall>r\<in>set pl. m < snd r" using Cons.prems by fastforce
    then have "filter (\<lambda>r. snd r = m) pl = []" "filter (\<lambda>r. m < snd r) pl = pl"
      by (auto simp: filter_empty_conv)
    then show ?thesis using False Cons.prems by simp
  qed (use Cons in simp)
qed simp

lemma fold_run_one [simp]:
  "now (fold run_one es a) = now a" "requests (fold run_one es a) = requests a"
  "room (fold run_one es a) = room a" "table (fold run_one es a) = table a"
  by (induction es arbitrary: a) simp_all

lemma wheel_fn_ok:
  assumes r: "represents w a" "fresh a" and room: "room (a\<lparr>now := now a + 1\<rparr>)" "now a + 1 < 2 ^ 31"
  shows "\<exists>i j s es c. wheel_fn w = Inr (w\<lparr>current_clock_tic := i, current_cycle_no := j, calls := c,
      nodes := s, elems := es\<rparr>) \<and>
    represents (w\<lparr>current_clock_tic := i, current_cycle_no := j, calls := c, nodes := s, elems := es\<rparr>)
      (agenda_tick a) \<and> fresh (agenda_tick a)"
proof -
  define v b where "v = advance_clock w" and "b = a\<lparr>now := now a + 1\<rparr>"
  have rv: "represents v b" using advance_clock_ok(1) [OF r(1) room(2)] by (simp add: v_def b_def)
  obtain i j where v: "v = w\<lparr>current_clock_tic := i, current_cycle_no := j\<rparr>"
    using advance_clock_ok(2) [OF r(1) room(2)] by (auto simp: v_def)
  define cur rest where "cur = filter (\<lambda>q. snd q = now b) (plan b)"
    and "rest = filter (\<lambda>q. now b < snd q) (plan b)"
  have "sorted (map snd (plan b))" using rv by (auto simp: represents_def filled_def)
  moreover have "\<forall>q\<in>set (plan b). now b \<le> snd q" using r(2) by (auto simp: fresh_def b_def)
  ultimately have split: "plan b = cur @ rest" unfolding cur_def rest_def by (rule sorted_split)
  have parts: "\<forall>q\<in>set cur. snd q = now b" "\<forall>q\<in>set rest. now b < snd q"
    by (auto simp: cur_def rest_def)
  have tic: "current_clock_tic v = now b mod wheel_size v" "0 < wheel_size v"
    "0 \<le> current_clock_tic v" "current_clock_tic v < wheel_size v"
    using clock_div(2) [OF rv] rv by (auto simp: represents_def clock_ok_def)
  define h where "h = nat (current_clock_tic v)"
  note chain = slot_chain [OF rv tic(3,4)]
  obtain nd where nd: "nodes v (SlotHead h) = Some nd"
    using chain_live [OF chain, of "SlotHead h"] by (auto simp: h_def)
  have slot: "slot_of (wheel_size v) h (plan b) =
      map (\<lambda>q. Glue (fst q)) cur @ slot_of (wheel_size v) h rest"
    using slot_prefix [OF split parts(1) tic(2)] by (simp add: h_def tic(1))
  have right: "right nd = (if slot_of (wheel_size v) h (plan b) = [] then None
      else Some (hd (slot_of (wheel_size v) h (plan b))))"
    using chain_right [of "nodes v" "SlotHead h" "[]" "slot_of (wheel_size v) h (plan b)"] chain nd
    by (auto simp: rgt_def h_def)
  have p: "if cur \<noteq> [] then right nd = Some (Glue (fst (hd cur)))
      else right nd = None \<or> (\<exists>q\<in>set rest. snd q mod wheel_size v = now b mod wheel_size v \<and>
        right nd = Some (Glue (fst q)))"
  proof (cases "cur = [] \<and> slot_of (wheel_size v) h rest \<noteq> []")
    case True
    then obtain g where "g \<in> set rest" "snd g mod wheel_size v = int h"
      "right nd = Some (Glue (fst g))"
      using right slot slot_hd [of "wheel_size v" h rest] by auto
    then show ?thesis using True tic by (auto simp: h_def)
  qed (use right slot in \<open>auto simp: hd_append hd_map\<close>)
  have rb: "room b" using room(1) by (simp add: b_def)
  define b2 where "b2 = fold run_one (map fst cur) b"
  obtain s es c where loop: "slot_loop (now b) (right nd) v = Some (Inr (v\<lparr>calls := c, nodes := s, elems := es\<rparr>))"
    and r2: "represents (v\<lparr>calls := c, nodes := s, elems := es\<rparr>) b2" "fresh b2"
    using slot_loop_ok [OF rv rb split parts p] by (auto simp: b2_def)
  have "room b2" using rb by (simp add: b2_def)
  from process_ok [OF r2(1) this r2(2)] obtain s' es' where
    run: "process_wt_reschedule_slotlist (v\<lparr>calls := c, nodes := s, elems := es\<rparr>) =
      Inr (v\<lparr>calls := c, nodes := s', elems := es'\<rparr>)"
    and r3: "represents (v\<lparr>calls := c, nodes := s', elems := es'\<rparr>) (fold take_one (requests b2) b2)"
      "fresh (fold take_one (requests b2) b2)" by auto
  have "wheel_fn w = Inr (v\<lparr>calls := c, nodes := s', elems := es'\<rparr>)"
    using loop run nd current_slot [OF rv] tic
    by (simp add: wheel_fn_def v_def [symmetric] WT_SLOTLIST_def h_def node_at_def)
  moreover have "agenda_tick a = fold take_one (requests b2) b2"
    by (simp add: agenda_tick_def due_def b_def b2_def cur_def Let_def)
  ultimately show ?thesis
    using r3 unfolding v
    by (intro exI [of _ i] exI [of _ j] exI [of _ s'] exI [of _ es'] exI [of _ c]) simp
qed

end
