(* ===== verification/TimerFacts.thy ===== *)
theory TimerFacts
  imports TimerLib
begin

text \<open>
  The timers: conversion of times, the invariant of the state machine over all sequences of
  operations and expiries, and how often a callback runs.
\<close>

section \<open>Times\<close>

lemma uint_div_mod_1000:
  fixes m :: u64
  shows "uint (m div 1000) = uint m div 1000" "uint (m mod 1000) = uint m mod 1000"
  by (simp_all add: uint_div uint_mod)

lemma millisec_roundtrip [simp]: "timespec_to_millisec (timer_fill_itimerspec m) = m"
proof -
  have "n * 1000000 sdiv 1000000 = n" if "0 \<le> n" for n :: int
    using that by (cases "n = 0") (auto simp: signed_divide_int_def sgn_if)
  from this [of "uint (m mod 1000)"]
  have "uint (m mod 1000) * 1000000 sdiv 1000000 = uint (m mod 1000)" by simp
  then have "timespec_to_millisec (timer_fill_itimerspec m) =
      word_of_int (uint m div 1000 * 1000) + word_of_int (uint m mod 1000)"
    by (simp add: timespec_to_millisec_def timer_fill_itimerspec_def no_time_def uint_div_mod_1000)
  also have "\<dots> = word_of_int (uint m div 1000 * 1000 + uint m mod 1000)"
    by (rule wi_hom_add)
  also have "\<dots> = m" by (simp only: div_mult_mod_eq word_of_int_uint)
  finally show ?thesis .
qed

lemma fill_valid [simp]: "valid_time (timer_fill_itimerspec m)"
proof -
  have "uint (m mod 1000) < 1000" by (simp add: uint_div_mod_1000)
  then show ?thesis by (simp add: valid_time_def timer_fill_itimerspec_def no_time_def)
qed

lemma valid_no_time [simp]: "valid_time no_time"
  by (simp add: valid_time_def no_time_def)

lemma fill_0 [simp]: "timer_fill_itimerspec 0 = no_time"
  by (simp add: timer_fill_itimerspec_def)

lemma fill_eq_no_time [simp]: "timer_fill_itimerspec m = no_time \<longleftrightarrow> m = 0"
  by (metis fill_0 millisec_roundtrip)

section \<open>The state machine\<close>

text \<open>What can be done to a timer from outside and from inside its callback.\<close>

datatype timer_op =
    Start | Delete | Cancel | Pause timespec | Resume | Restart | Reschedule u64 u64

fun do_op :: "timer_op \<Rightarrow> timer \<Rightarrow> timer res" where
  "do_op Start t = start_timer t"
| "do_op Delete t = delete_timer t"
| "do_op Cancel t = cancel_timer t"
| "do_op (Pause remaining) t = pause_timer remaining t"
| "do_op Resume t = resume_timer t"
| "do_op Restart t = restart_timer t"
| "do_op (Reschedule a b) t = reschedule_timer a b t"

fun do_ops :: "timer_op list \<Rightarrow> timer \<Rightarrow> timer res" where
  "do_ops [] t = Inr t"
| "do_ops (p # ps) t = rbind (do_op p t) (do_ops ps)"

text \<open>At an expiry the callback runs some operations on its own timer and is counted.\<close>

datatype timer_event = Op timer_op | Expiry "timer_op list"

definition counting :: "timer_op list \<Rightarrow> nat \<Rightarrow> nat option \<Rightarrow> timer \<times> nat \<Rightarrow> (timer \<times> nat) res" where
  "counting ps f a tw = (case tw of (t, calls) \<Rightarrow> rbind (do_ops ps t) (\<lambda>t. Inr (t, calls + 1)))"

fun do_event :: "timer_event \<Rightarrow> timer \<times> nat \<Rightarrow> (timer \<times> nat) res" where
  "do_event (Op p) tw = (case tw of (t, calls) \<Rightarrow> rbind (do_op p t) (\<lambda>t. Inr (t, calls)))"
| "do_event (Expiry ps) tw = expire (counting ps) tw"

fun do_events :: "timer_event list \<Rightarrow> timer \<times> nat \<Rightarrow> (timer \<times> nat) res" where
  "do_events [] tw = Inr tw"
| "do_events (e # es) tw = rbind (do_event e tw) (do_events es)"

definition valid_ts :: "timer \<Rightarrow> bool" where
  "valid_ts t \<longleftrightarrow> valid_time (it_value (ts t)) \<and> valid_time (it_interval (ts t))"

definition timer_ok :: "timer \<Rightarrow> bool" where
  "timer_ok t \<longleftrightarrow>
     (posix_timer t = None \<longleftrightarrow> timer_state t = TIMER_DELETED) \<and>
     (armed t \<longrightarrow> is_timer_running t) \<and> valid_ts t"

lemma set_valid [simp]:
  "valid_ts t \<Longrightarrow> valid_ts (set_value m t)" "valid_ts t \<Longrightarrow> valid_ts (set_interval m t)"
  by (simp_all add: valid_ts_def set_value_def set_interval_def)

lemma valid_cong [simp]:
  "valid_ts (t\<lparr>time_remaining := a\<rparr>) = valid_ts t" "valid_ts (t\<lparr>invocation_counter := b\<rparr>) = valid_ts t"
  "valid_ts (t\<lparr>exp_back_off_time := c\<rparr>) = valid_ts t" "valid_ts (t\<lparr>posix_timer := d\<rparr>) = valid_ts t"
  "valid_ts (t\<lparr>timer_state := e\<rparr>) = valid_ts t" "valid_ts (t\<lparr>user_arg := f\<rparr>) = valid_ts t"
  by (simp_all add: valid_ts_def)

lemma set_simps [simp]:
  "timer_state (set_value m t) = timer_state t" "timer_state (set_interval m t) = timer_state t"
  "posix_timer (set_value m t) = posix_timer t" "posix_timer (set_interval m t) = posix_timer t"
  "it_value (ts (set_value m t)) = timer_fill_itimerspec m"
  "it_value (ts (set_interval m t)) = it_value (ts t)"
  "it_interval (ts (set_interval m t)) = timer_fill_itimerspec m"
  "it_interval (ts (set_value m t)) = it_interval (ts t)"
  by (simp_all add: set_value_def set_interval_def)

text \<open>Setting the timer of the system succeeds as long as it was not deleted.\<close>

lemma resurrect_eq:
  "valid_ts t \<Longrightarrow> resurrect_timer t =
     (if posix_timer t = None then Inl AssertFail else Inr (t\<lparr>posix_timer := Some (ts t)\<rparr>))"
  by (simp add: resurrect_timer_def timer_settime_def valid_ts_def)

lemma set_ok:
  assumes "resurrect_timer t1 = Inr t" "Inr (timer_set_state st t) = Inr t'" "valid_ts t1"
    "st = TIMER_RUNNING \<or> st = TIMER_RESUMED \<or> it_value (ts t1) = no_time" "st \<noteq> TIMER_DELETED"
  shows "timer_ok t'"
  using assms
  by (auto simp: resurrect_eq timer_ok_def armed_def is_timer_running_def timer_set_state_def
      split: if_splits)

lemma timer_okD: "timer_ok t \<Longrightarrow> valid_ts t"
  by (simp add: timer_ok_def)

lemma cancel_ok:
  assumes "timer_ok t" "cancel_timer t = Inr t'"
  shows "timer_ok t'"
  using assms(2) unfolding cancel_timer_def
  by (split if_split_asm; (elim rbindE)?)
    (use assms(1) in simp, erule set_ok, assumption, simp_all add: timer_okD [OF assms(1)])

lemma op_ok:
  assumes "timer_ok t"
  shows "start_timer t = Inr t' \<Longrightarrow> timer_ok t'" "delete_timer t = Inr t' \<Longrightarrow> timer_ok t'"
    "pause_timer remaining t = Inr t' \<Longrightarrow> timer_ok t'" "resume_timer t = Inr t' \<Longrightarrow> timer_ok t'"
    "restart_timer t = Inr t' \<Longrightarrow> timer_ok t'" "reschedule_timer a b t = Inr t' \<Longrightarrow> timer_ok t'"
proof -
  note v = timer_okD [OF assms]
  show "start_timer t = Inr t' \<Longrightarrow> timer_ok t'"
    unfolding start_timer_def by (elim rbindE) (erule set_ok, assumption, simp_all add: v)
  show "delete_timer t = Inr t' \<Longrightarrow> timer_ok t'"
    using v by (auto simp: delete_timer_def timer_delete_def timer_set_state_def timer_ok_def armed_def
        split: if_splits)
  show "pause_timer remaining t = Inr t' \<Longrightarrow> timer_ok t'"
    unfolding pause_timer_def
    by (split if_split_asm; (elim rbindE)?) (use assms in simp, erule set_ok, assumption, simp_all add: v)
  show "resume_timer t = Inr t' \<Longrightarrow> timer_ok t'"
    unfolding resume_timer_def Let_def by (elim rbindE) (erule set_ok, assumption, simp_all add: v)
  show "restart_timer t = Inr t' \<Longrightarrow> timer_ok t'"
    unfolding restart_timer_def Let_def
    by (elim rbindE) (erule set_ok, assumption, simp_all add: timer_okD [OF cancel_ok [OF assms]])
  assume "reschedule_timer a b t = Inr t'"
  then show "timer_ok t'"
    unfolding reschedule_timer_def Let_def
  proof (elim rbindE)
    fix t1 t2 assume
      t1: "(if timer_get_current_state t \<noteq> TIMER_CANCELLED then cancel_timer t else Inr t) = Inr t1"
      and t2: "Inr (timer_set_state TIMER_RUNNING t2) = Inr t'"
      and set: "resurrect_timer
          ((if exponential_backoff t
            then set_interval 0 (set_value a (t1\<lparr>invocation_counter := invocation_counter t\<rparr>))
                   \<lparr>exp_back_off_time := a\<rparr>
            else set_interval b (set_value a (t1\<lparr>invocation_counter := invocation_counter t\<rparr>)))
           \<lparr>time_remaining := 0\<rparr>) = Inr t2"
    have "timer_ok t1" using t1 assms cancel_ok by (auto split: if_splits)
    then show ?thesis using timer_okD by (intro set_ok [OF set t2]) auto
  qed
qed

lemma do_op_ok: "timer_ok t \<Longrightarrow> do_op p t = Inr t' \<Longrightarrow> timer_ok t'"
  by (cases p) (auto intro: op_ok cancel_ok)

lemma do_ops_ok: "timer_ok t \<Longrightarrow> do_ops ps t = Inr t' \<Longrightarrow> timer_ok t'"
  by (induction ps arbitrary: t) (auto elim!: rbindE dest: do_op_ok)

lemma timer_ok_cong [simp]:
  "timer_ok (t\<lparr>invocation_counter := n\<rparr>) = timer_ok t" "timer_ok (t\<lparr>exp_back_off_time := m\<rparr>) = timer_ok t"
  by (simp_all add: timer_ok_def armed_def is_timer_running_def)

lemma wrapper_ok:
  assumes "timer_ok t" "timer_callback_wrapper (counting ps) (t, n) = Inr (t', n')"
  shows "timer_ok t'"
proof -
  let ?t = "t\<lparr>invocation_counter := invocation_counter t + 1\<rparr>"
  consider "cancel_timer ?t = Inr t'" | u where "do_ops ps ?t = Inr u" "t' = u"
    | u a b c where "do_ops ps ?t = Inr u" "reschedule_timer a b (u\<lparr>exp_back_off_time := c\<rparr>) = Inr t'"
    | u a b where "do_ops ps ?t = Inr u" "reschedule_timer a b u = Inr t'"
    using assms(2)
    by (auto simp: timer_callback_wrapper_def counting_def Let_def elim!: rbindE split: if_splits)
  moreover have t: "timer_ok ?t" using assms(1) by simp
  ultimately show ?thesis
    by cases (use t cancel_ok op_ok(6) timer_ok_cong(2) do_ops_ok [OF t] in blast)+
qed

lemma reload_ok: "timer_ok t \<Longrightarrow> armed t \<Longrightarrow> timer_ok (reload t)"
  by (auto simp: timer_ok_def reload_def armed_def is_timer_running_def split: option.splits)

lemma do_event_ok: "timer_ok t \<Longrightarrow> do_event e (t, n) = Inr (t', n') \<Longrightarrow> timer_ok t'"
proof (cases e)
  case (Op p)
  then show "timer_ok t \<Longrightarrow> do_event e (t, n) = Inr (t', n') \<Longrightarrow> timer_ok t'"
    by (auto elim!: rbindE dest: do_op_ok)
next
  case (Expiry ps)
  then show "timer_ok t \<Longrightarrow> do_event e (t, n) = Inr (t', n') \<Longrightarrow> timer_ok t'"
    by (auto simp: expire_def split: if_splits dest: wrapper_ok reload_ok)
qed

lemma do_events_ok: "timer_ok t \<Longrightarrow> do_events es (t, n) = Inr (t', n') \<Longrightarrow> timer_ok t'"
proof (induction es arbitrary: t n)
  case (Cons e es)
  then obtain u where u: "do_event e (t, n) = Inr u" "do_events es u = Inr (t', n')"
    by (auto elim!: rbindE)
  then show ?case using Cons.IH [of "fst u" "snd u"] Cons.prems(1) do_event_ok [of t e n "fst u" "snd u"]
    by simp
qed simp

lemma setup_ok: "setup_timer f a b n arg x c = Inr t \<Longrightarrow> timer_ok t \<and> \<not> armed t"
  by (auto simp: setup_timer_def timer_ok_def armed_def valid_ts_def is_timer_running_def res_simps
      split: option.splits)

text \<open>
  C29: whatever operations are done to a timer since it was set up, from outside or by its own
  callback at an expiry, a timer that is not running is not set: an expiry finds nothing to do
  and runs no callback. The timer of the system is gone exactly when the timer was deleted.
\<close>

theorem stopped_timer_is_silent:
  assumes "setup_timer f a b n arg x c = Inr t0" "do_events es (t0, 0) = Inr (t, calls)"
    and "\<not> is_timer_running t"
  shows "do_event (Expiry ps) (t, calls) = Inr (t, calls) \<and>
    (posix_timer t = None \<longleftrightarrow> timer_state t = TIMER_DELETED)"
  using do_events_ok [OF _ assms(2)] setup_ok [OF assms(1)] assms(3)
  by (auto simp: expire_def timer_ok_def)

definition demo_timer :: timer where
  "demo_timer = projr (setup_timer (Some 7) 1500 1000 2 None False True)"

lemma demo_timer: "setup_timer (Some 7) 1500 1000 2 None False True = Inr demo_timer"
  by (simp add: demo_timer_def setup_timer_def)

theorem stopped_timer_is_silent_witness:
  "\<exists>t. do_events [Op Start, Expiry [], Op (Pause \<lparr>tv_sec = 0, tv_nsec = 5000000\<rparr>)] (demo_timer, 0) =
     Inr (t, 1) \<and> timer_state t = TIMER_PAUSED \<and> time_remaining t = 5 \<and>
     do_event (Expiry []) (t, 1) = Inr (t, 1)"
proof -
  have "case do_events [Op Start, Expiry [], Op (Pause \<lparr>tv_sec = 0, tv_nsec = 5000000\<rparr>)] (demo_timer, 0) of
    Inl e \<Rightarrow> False | Inr (t, n) \<Rightarrow> timer_state t = TIMER_PAUSED \<and> n = 1 \<and> time_remaining t = 5"
    by code_simp
  then obtain t where
    "do_events [Op Start, Expiry [], Op (Pause \<lparr>tv_sec = 0, tv_nsec = 5000000\<rparr>)] (demo_timer, 0) = Inr (t, 1)"
    "timer_state t = TIMER_PAUSED" "time_remaining t = 5"
    by (auto split: sum.splits)
  moreover from stopped_timer_is_silent [OF demo_timer this(1), of "[]"] this(2)
  have "do_event (Expiry []) (t, 1) = Inr (t, 1)" by (simp add: is_timer_running_def)
  ultimately show ?thesis by blast
qed

section \<open>How often the callback runs\<close>

fun expiries :: "nat \<Rightarrow> timer \<times> nat \<Rightarrow> (timer \<times> nat) res" where
  "expiries 0 tw = Inr tw"
| "expiries (Suc k) tw = rbind (expiries k tw) (expire (counting []))"

definition periodic :: "timer \<Rightarrow> bool" where
  "periodic t \<longleftrightarrow> timer_state t = TIMER_RUNNING \<and> \<not> exponential_backoff t \<and>
     posix_timer t = Some (ts t) \<and> it_value (ts t) \<noteq> no_time \<and> it_interval (ts t) \<noteq> no_time \<and>
     invocation_counter t = 0 \<and> valid_ts t"

text \<open>A periodic timer after \<open>k\<close> expiries, before it has reached its threshold.\<close>

definition after_expiries :: "timer \<Rightarrow> nat \<Rightarrow> timer" where
  "after_expiries t k =
     t\<lparr>posix_timer := Some (if k = 0 then ts t else (ts t)\<lparr>it_value := it_interval (ts t)\<rparr>),
       invocation_counter := of_nat k\<rparr>"

lemma unat_u32_less: "unat (n :: u32) < 2 ^ 32"
  using unsigned_less [of n, where ?'a = nat] by simp

lemma of_nat_le_u32: "k \<le> unat (n :: u32) \<Longrightarrow> of_nat k \<le> n"
  using unat_u32_less [of n] by (simp add: word_le_nat_alt unat_of_nat)

lemma reload_after:
  assumes "periodic t"
  shows "armed (after_expiries t k)"
    "(reload (after_expiries t k))
       \<lparr>invocation_counter := invocation_counter (reload (after_expiries t k)) + 1\<rparr> =
     after_expiries t (Suc k)"
  using assms by (simp_all add: periodic_def armed_def reload_def after_expiries_def add.commute)

lemma expire_after:
  assumes "periodic t"
  shows "expire (counting []) (after_expiries t k, c) =
    (if thresdhold t \<noteq> 0 \<and> thresdhold t < of_nat (Suc k)
     then rbind (cancel_timer (after_expiries t (Suc k))) (\<lambda>t. Inr (t, c))
     else Inr (after_expiries t (Suc k), Suc c))"
proof -
  define u where "u = after_expiries t (Suc k)"
  have u: "thresdhold u = thresdhold t" "invocation_counter u = of_nat (Suc k)"
    "\<not> exponential_backoff u" "timer_state u = TIMER_RUNNING"
    using assms by (simp_all add: u_def after_expiries_def periodic_def)
  show ?thesis
    using reload_after(1) [OF assms, of k] u
    unfolding expire_def timer_callback_wrapper_def Let_def fst_conv snd_conv prod.case
      reload_after(2) [OF assms] u_def [symmetric]
    by (simp add: counting_def)
qed

lemma expire_ticks:
  assumes "periodic t" "Suc k \<le> unat (thresdhold t)"
  shows "expire (counting []) (after_expiries t k, c) = Inr (after_expiries t (Suc k), Suc c)"
  using expire_after [OF assms(1), of k c] of_nat_le_u32 [OF assms(2)] leD by auto

lemma expiries_ticks:
  assumes "periodic t" "k \<le> unat (thresdhold t)"
  shows "expiries k (t, 0) = Inr (after_expiries t k, k)"
  using assms(2)
proof (induction k)
  case 0
  then show ?case using assms(1) by (simp add: after_expiries_def periodic_def)
next
  case (Suc k)
  then show ?case using expire_ticks [OF assms(1)] by simp
qed

lemma expire_cancels:
  assumes "periodic t" "thresdhold t \<noteq> 0" "thresdhold t \<noteq> -1" "k = unat (thresdhold t)"
  shows "\<exists>t'. expire (counting []) (after_expiries t k, c) = Inr (t', c) \<and>
    timer_state t' = TIMER_CANCELLED \<and> \<not> armed t'"
proof -
  define u where "u = after_expiries t (Suc k)"
  have "unat (thresdhold t) \<noteq> unat (-1 :: u32)" using assms(3) by (metis word_unat_eq_iff)
  then have "unat (thresdhold t) + 1 < 2 ^ 32"
    using unat_u32_less [of "thresdhold t"] by (simp add: unsigned_minus_1_eq_mask mask_eq_exp_minus_1)
  then have gt: "thresdhold t < of_nat (Suc k)"
    using assms(4) by (simp add: word_less_nat_alt unat_word_ariths)
  have u: "valid_ts u" "timer_state u = TIMER_RUNNING" "posix_timer u \<noteq> None"
    using assms(1) by (simp_all add: u_def after_expiries_def periodic_def)
  have "\<exists>t'. cancel_timer u = Inr t' \<and> timer_state t' = TIMER_CANCELLED \<and> \<not> armed t'"
    using u by (simp add: cancel_timer_def timer_get_current_state_def resurrect_eq timer_set_state_def armed_def)
  then show ?thesis
    using expire_after [OF assms(1), of k c] gt assms(2) unfolding u_def by auto
qed

lemma expiries_stay:
  "expiries k tw = Inr (t, c) \<Longrightarrow> \<not> armed t \<Longrightarrow> expiries (k + j) tw = Inr (t, c)"
  by (induction j) (simp_all add: expire_def)

text \<open>
  A periodic timer that was set up with a threshold and started runs its callback at the
  first expiries, as many as the threshold says; the next expiry cancels the timer, and none
  follows. (The largest threshold is never passed, because the counter wraps around.)
\<close>

theorem threshold_limits_calls:
  assumes "setup_timer (Some f) a b n arg False True = Inr t" "start_timer t = Inr t0"
    and "a \<noteq> 0" "b \<noteq> 0" "n \<noteq> 0" "n \<noteq> -1"
  shows "\<exists>t'. expiries k (t0, 0) = Inr (t', min k (unat n)) \<and>
    timer_state t' = (if k \<le> unat n then TIMER_RUNNING else TIMER_CANCELLED) \<and>
    (armed t' \<longleftrightarrow> k \<le> unat n)"
proof -
  have p: "periodic t0" "thresdhold t0 = n"
    using assms by (auto simp: setup_timer_def start_timer_def resurrect_timer_def timer_settime_def
        timer_set_state_def periodic_def valid_ts_def res_simps)
  show ?thesis
  proof (cases "k \<le> unat n")
    case True
    then show ?thesis
      using expiries_ticks [OF p(1), of k] reload_after [OF p(1), of k] p
      by (auto simp: after_expiries_def periodic_def)
  next
    case False
    then obtain j where k: "k = Suc (unat n) + j" using less_iff_Suc_add by (auto simp: not_le)
    obtain t' where t': "expire (counting []) (after_expiries t0 (unat n), unat n) = Inr (t', unat n)"
      "timer_state t' = TIMER_CANCELLED" "\<not> armed t'"
      using expire_cancels [OF p(1), of "unat n" "unat n"] p(2) assms(5,6) by auto
    then have "expiries (Suc (unat n)) (t0, 0) = Inr (t', unat n)"
      using expiries_ticks [OF p(1), of "unat n"] p(2) by simp
    from expiries_stay [OF this t'(3)] t' k show ?thesis by auto
  qed
qed

theorem threshold_limits_calls_witness:
  "\<exists>t0 t'. start_timer demo_timer = Inr t0 \<and> expiries 5 (t0, 0) = Inr (t', 2) \<and>
     timer_state t' = TIMER_CANCELLED"
proof -
  obtain t0 where "start_timer demo_timer = Inr t0"
    by (auto simp: demo_timer_def setup_timer_def start_timer_def resurrect_timer_def timer_settime_def)
  with threshold_limits_calls [OF demo_timer, of t0 5] show ?thesis by auto
qed

end
