(* ===== verification/WheelProps.thy ===== *)
theory WheelProps
  imports WheelFacts TimerFacts
begin

text \<open>
  What the wheel promises: it runs the agenda, and an event that was registered is called on time
  by the clock.
\<close>

section \<open>Requests\<close>

definition ask :: "nat \<Rightarrow> event \<Rightarrow> agenda \<Rightarrow> agenda" where
  "ask e v a = a\<lparr>table := (table a)[e := Some v], requests := e # removeAll e (requests a)\<rparr>"

lemma filled_request:
  assumes f: "filled n t es s pl rq" and e: "e < length es" "es ! e = Some x0"
    and p: "pools s' (heads n pl (e # removeAll e rq)) (loose_nodes (live es) pl (e # removeAll e rq))"
    and x: "elem_ok t {e} e x" "\<And>d. placed n t x0 d \<Longrightarrow> placed n t x d"
  shows "filled n t (es[e := Some x]) s' pl (e # removeAll e rq)"
  unfolding filled_def
proof (intro conjI allI impI)
  have l: "live (es[e := Some x]) = live es" using e by (auto simp: mem_live)
  show "pools s' (heads n pl (e # removeAll e rq)) (loose_nodes (live (es[e := Some x])) pl (e # removeAll e rq))"
    unfolding l by (rule p)
  show "set (e # removeAll e rq) \<subseteq> live (es[e := Some x])"
    using filledD(5) [OF f] mem_live [OF e] unfolding l by auto
  fix q
  show "\<exists>y. es[e := Some x] ! q = Some y \<and> placed n t y c" "q < length (es[e := Some x])"
    if "(q, c) \<in> set pl" for c
    using that filledD(6) [OF f, of q c] e x(2) by (auto simp: nth_list_update)
  fix y assume y: "q < length (es[e := Some x])" "es[e := Some x] ! q = Some y"
  show "elem_ok t (set (e # removeAll e rq)) q y"
  proof (cases "q = e")
    case False
    then have "elem_ok t (set rq) q y" using y filledD(7) [OF f] by simp
    then show ?thesis using False by (simp add: elem_ok_def)
  qed (use y x e in \<open>simp add: elem_ok_def\<close>)
qed (use filledD(2-4) [OF f] in \<open>simp_all add: distinct_removeAll\<close>)

lemma repush_request:
  assumes "pools s (heads n pl rq) (loose_nodes l pl rq)" "e \<in> l"
  obtains s' where "rbind (remove_glthread (ReschdGlue e) s) (glthread_add_next ReschdHead (ReschdGlue e)) = Inr s'"
    "pools s' (heads n pl (e # removeAll e rq)) (loose_nodes l pl (e # removeAll e rq))"
proof -
  have h: "heads n pl rq ReschdHead = Some (map ReschdGlue rq)" by (simp add: heads_def)
  have "removeAll (ReschdGlue e) (map ReschdGlue rq) = map ReschdGlue (removeAll e rq)"
    by (induction rq) auto
  moreover have "loose_nodes l pl rq - {ReschdGlue e} = loose_nodes l pl (e # removeAll e rq)"
    by (auto simp: loose_nodes_def)
  ultimately show thesis
    using gl.repush [OF assms(1) ReschdGlue_in_pools [OF assms(2)] h] that
    by (auto simp: out_ReschdGlue heads_push)
qed

text \<open>A request for an event that exists replaces any other request for it.\<close>

lemma request_ok:
  assumes r: "represents w a" and x: "elem_at w e = Inr x"
    and op: "op = WTELEM_DELETE \<or> (op = WTELEM_CREATE \<or> op = WTELEM_RESCHED) \<and> interval_ok (tick_length w) k"
  shows "\<exists>w'. timer_reschedule_request e k op w = Inr w' \<and> wheel_thread w' = wheel_thread w \<and>
    represents w' (ask e (abs_event (tick_length w) (x\<lparr>opcode := op, new_time_interval := k\<rparr>)) a)"
proof -
  define n t where "n = wheel_size w" and "t = tick_length w"
  have f: "filled n t (elems w) (nodes w) (plan a) (requests a)"
    and tab: "table a = map (map_option (abs_event t)) (elems w)"
    using r by (simp_all add: represents_def n_def t_def)
  have e: "e < length (elems w)" "elems w ! e = Some x" using x by (auto simp: elem_at_Inr)
  define y where "y = x\<lparr>opcode := op, new_time_interval := k, slotlist_head := None\<rparr>"
  obtain s where s: "rbind (remove_glthread (ReschdGlue e) (nodes w)) (glthread_add_next ReschdHead (ReschdGlue e)) = Inr s"
    "pools s (heads n (plan a) (e # removeAll e (requests a))) (loose_nodes (live (elems w)) (plan a) (e # removeAll e (requests a)))"
    using repush_request [OF filledD(1) [OF f] mem_live [OF e]] .
  then obtain s1 where s1: "remove_glthread (ReschdGlue e) (nodes w) = Inr s1"
    "glthread_add_next ReschdHead (ReschdGlue e) s1 = Inr s" by (auto elim: rbindE)
  let ?w = "w\<lparr>elems := (elems w)[e := Some y], nodes := s\<rparr>"
  have "elem_ok t (set (requests a)) e x" using filledD(7) [OF f e] .
  then have "filled n t ((elems w)[e := Some y]) s (plan a) (e # removeAll e (requests a))"
    using filled_request [OF f e s(2), of y] op
    by (auto simp: elem_ok_def placed_def y_def t_def)
  moreover have "abs_event t y = abs_event t (x\<lparr>opcode := op, new_time_interval := k\<rparr>)"
    by (cases op) (simp_all add: abs_event_def y_def)
  ultimately have "represents ?w (ask e (abs_event t (x\<lparr>opcode := op, new_time_interval := k\<rparr>)) a)"
    using r tab by (simp add: represents_def ask_def clock_ok_def n_def t_def map_update)
  moreover have "timer_reschedule_request e k op w = Inr ?w"
    using op e s1 by (auto simp: timer_reschedule_request_def upd_elem_def elem_at_def on_nodes_def y_def)
  ultimately show ?thesis by (auto simp: t_def)
qed

lemma check_interval_ok:
  assumes "interval_ok (tick_length w) k" "0 < tick_length w"
  shows "check_interval w k = Inr ()"
proof -
  have "uint (word_of_int k :: u32) = k"
    using assms(1) by (simp add: interval_ok_def uint_word_of_int)
  then have "word_of_int k mod wt_get_clock_interval_in_milli_sec w = 0"
    using assms(1) by (simp add: word_uint_eq_iff uint_mod interval_ok_def)
  then show ?thesis using assms by (auto simp: check_interval_def interval_ok_def)
qed

lemma filled_alloc:
  assumes f: "filled n t es s pl rq" and x: "app_callback x \<noteq> None" "opcode x = WTELEM_SCHEDULED"
  shows "filled n t (es @ [Some x])
    (s(Glue (length es) \<mapsto> empty_node, ReschdGlue (length es) \<mapsto> empty_node)) pl rq"
proof -
  let ?e = "length es"
  have l: "live (es @ [Some x]) = insert ?e (live es)" by (auto simp: live_def nth_append less_Suc_eq)
  have n: "?e \<notin> live es" by (simp add: live_def)
  have pl: "?e \<notin> fst ` set pl" using filledD(6) [OF f] by force
  have rq: "?e \<notin> set rq" using filledD(5) [OF f] n by blast
  have none: "s g = None" if g: "g = Glue ?e \<or> g = ReschdGlue ?e" for g
  proof (rule ccontr)
    assume "s g \<noteq> None"
    then have "g \<in> loose_nodes (live es) pl rq \<or> (\<exists>h ps. heads n pl rq h = Some ps \<and> g \<in> set (h # ps))"
      by (rule poolsD(5) [OF filledD(1) [OF f]])
    moreover have "g \<notin> loose_nodes (live es) pl rq" using g n by (auto simp: loose_nodes_def)
    moreover have "g \<notin> set (h # ps)" if "heads n pl rq h = Some ps" for h ps
      using that g pl rq by (auto simp: heads_def slot_of_def split: gnode.splits if_splits)
    ultimately show False by blast
  qed
  have "pools (s(Glue ?e \<mapsto> empty_node, ReschdGlue ?e \<mapsto> empty_node)) (heads n pl rq)
      (insert (ReschdGlue ?e) (insert (Glue ?e) (loose_nodes (live es) pl rq)))"
    unfolding empty_node_def
    by (intro pools_alloc filledD(1) [OF f]) (use none in simp_all)
  moreover have "insert (ReschdGlue ?e) (insert (Glue ?e) (loose_nodes (live es) pl rq)) =
      loose_nodes (live (es @ [Some x])) pl rq"
    unfolding l using pl rq by (auto simp: loose_nodes_def)
  moreover have "elem_ok t (set rq) ?e x" using x rq by (simp add: elem_ok_def)
  ultimately show ?thesis
    using filledD(2-5) [OF f] filledD(6,7) [OF f] unfolding filled_def l
    by (auto simp: nth_append less_Suc_eq)
qed

lemma register_ok:
  assumes r: "represents w a" and k: "interval_ok (tick_length w) k"
  shows "\<exists>w' v. timer_register_app_event (Some f) arg m k rec w = Inr (w', Some (length (table a))) \<and>
    wheel_thread w' = wheel_thread w \<and>
    represents w' (a\<lparr>table := table a @ [Some v], requests := length (table a) # requests a\<rparr>) \<and>
    ev_callback v = f \<and> ev_recurs v = rec \<and> ev_request v = Place (k div tick_length w) \<and> ev_ticks v = 0 \<and>
    (ev_arg v, ev_size v) = (if arg \<noteq> None \<and> m \<noteq> 0 then (arg, m) else (None, 0))"
proof -
  define e t where "e = length (elems w)" and "t = tick_length w"
  define x where "x = \<lparr>opcode = WTELEM_CREATE, time_interval = 0, new_time_interval = 0,
      execute_cycle_no = 0, slot_no = 0, app_callback = Some f,
      app_arg = (if arg \<noteq> None \<and> m \<noteq> 0 then arg else None), arg_size = (if arg \<noteq> None \<and> m \<noteq> 0 then m else 0),
      is_recurrence = rec, slotlist_head = None, N_scheduled = 0\<rparr>"
  define y where "y = x\<lparr>opcode := WTELEM_SCHEDULED\<rparr>"
  define s where "s = (nodes w)(Glue e \<mapsto> empty_node, ReschdGlue e \<mapsto> empty_node)"
  let ?w = "\<lambda>x. w\<lparr>elems := elems w @ [Some x], nodes := s\<rparr>"
  have tab: "table a = map (map_option (abs_event t)) (elems w)"
    and f: "filled (wheel_size w) t (elems w) (nodes w) (plan a) (requests a)" and t: "0 < t"
    using r by (simp_all add: represents_def t_def clock_ok_def)
  have len: "length (table a) = e" using tab by (simp add: e_def)
  have "represents (?w y) (a\<lparr>table := table a @ [Some (abs_event t y)]\<rparr>)"
    using r filled_alloc [OF f, of y] tab
    by (simp add: represents_def clock_ok_def t_def s_def e_def y_def x_def)
  moreover have "elem_at (?w y) e = Inr y" by (simp add: elem_at_def e_def)
  ultimately obtain w' where
    w': "timer_reschedule_request e k WTELEM_CREATE (?w y) = Inr w'" "wheel_thread w' = wheel_thread w"
      "represents w' (ask e (abs_event t (y\<lparr>opcode := WTELEM_CREATE, new_time_interval := k\<rparr>))
         (a\<lparr>table := table a @ [Some (abs_event t y)]\<rparr>))"
    using request_ok [of "?w y" _ e y WTELEM_CREATE k] k by (auto simp: t_def)
  have "timer_reschedule_request e k WTELEM_CREATE (?w x) = timer_reschedule_request e k WTELEM_CREATE (?w y)"
    by (simp add: timer_reschedule_request_def upd_elem_def elem_at_def e_def y_def)
  then have "timer_register_app_event (Some f) arg m k rec w = Inr (w', Some e)"
    using w'(1) check_interval_ok [OF k] t
    by (simp add: timer_register_app_event_def Let_def x_def e_def s_def t_def)
  moreover have "e \<notin> set (requests a)"
    using filledD(5) [OF f] by (auto simp: live_def e_def)
  then have "ask e v (a\<lparr>table := table a @ [Some u]\<rparr>) =
      a\<lparr>table := table a @ [Some v], requests := length (table a) # requests a\<rparr>" for u v
    using len by (simp add: ask_def list_update_append removeAll_id)
  ultimately show ?thesis
    using w'(2,3) len
    by (intro exI [of _ w'] exI [of _ "abs_event t (y\<lparr>opcode := WTELEM_CREATE, new_time_interval := k\<rparr>)"])
      (auto simp: abs_event_def y_def x_def t_def)
qed

section \<open>The start\<close>

lemma init_ok:
  assumes "init_wheel_timer n tic res True = Inr w" "0 < n" "n < 2 ^ 31" "0 < tick_length w"
  shows "represents w \<lparr>now = 0, table = [], plan = [], requests = [], ran = []\<rparr>"
proof -
  have w: "nodes w = (\<lambda>p. case p of SlotHead i \<Rightarrow> if int i < n then Some empty_node else None
      | ReschdHead \<Rightarrow> Some empty_node | _ \<Rightarrow> None)"
    "elems w = []" "calls w = []" "wheel_size w = n" "current_clock_tic w = 0" "current_cycle_no w = 0"
    using assms(1) by (auto simp: init_wheel_timer_def res_simps)
  have "chain (nodes w) h []" if "h = ReschdHead \<or> (\<exists>i. h = SlotHead i \<and> int i < n)" for h
    using that by (auto simp: chain_def lft_def rgt_def w empty_node_def)
  then have "pools (nodes w) (heads n [] []) {}"
    by (auto simp: pools_def heads_def slot_of_def w split: gnode.splits if_splits)
  then show ?thesis
    using assms w by (auto simp: represents_def clock_ok_def filled_def live_def loose_nodes_def)
qed

section \<open>The clock\<close>

definition ticking :: "timer \<Rightarrow> bool" where
  "ticking t \<longleftrightarrow> timer_state t = TIMER_RUNNING \<and> thresdhold t = 0 \<and> \<not> exponential_backoff t \<and>
     cb t = WHEEL_FN \<and>
     (\<exists>s. posix_timer t = Some s \<and> it_value s \<noteq> no_time \<and> it_interval s \<noteq> no_time)"

lemma tick_thread [simp]: "tick_length (w\<lparr>wheel_thread := t\<rparr>) = tick_length w"
  by (simp add: wt_get_clock_interval_in_milli_sec_def cong: if_cong)

lemma represents_thread [simp]: "represents (w\<lparr>wheel_thread := t\<rparr>) a = represents w a"
  by (simp add: represents_def clock_ok_def wt_get_clock_interval_in_milli_sec_def)

lemma clock_expires_eq:
  assumes "ticking (wheel_thread w)" "wheel_fn w = Inr w'"
  shows "\<exists>t. clock_expires w = Inr (w'\<lparr>wheel_thread := t\<rparr>) \<and> ticking t"
proof -
  define t where "t = (reload (wheel_thread w))
    \<lparr>invocation_counter := invocation_counter (reload (wheel_thread w)) + 1\<rparr>"
  have t: "ticking t" using assms(1) by (auto simp: t_def ticking_def reload_def)
  moreover have "armed (wheel_thread w)" using assms(1) by (auto simp: ticking_def armed_def)
  moreover from t have "thresdhold t = 0" "cb t = WHEEL_FN" "\<not> exponential_backoff t"
    "timer_state t = TIMER_RUNNING" by (simp_all add: ticking_def)
  ultimately show ?thesis
    using assms(2)
    unfolding clock_expires_def expire_def timer_callback_wrapper_def Let_def fst_conv snd_conv
      prod.case t_def [symmetric]
    by (intro exI [of _ t]) simp
qed

definition call_of :: "event \<Rightarrow> nat \<times> nat option \<times> int" where
  "call_of v = (ev_callback v, ev_arg v, ev_size v)"

lemma ran_run_one:
  "\<forall>e\<in>set es. table a ! e \<noteq> None \<Longrightarrow>
   ran (fold run_one es a) = ran a @ map (\<lambda>e. call_of (the (table a ! e))) es"
  by (induction es arbitrary: a) (auto simp: run_one_def call_of_def)

lemma ran_take_one: "ran (take_one e a) = ran a"
  by (auto simp: take_one_def split: option.splits request.splits)

lemma ran_take_all: "ran (fold take_one es a) = ran a"
  by (induction es arbitrary: a) (simp_all add: ran_take_one)

lemma due_known: "represents w a \<Longrightarrow> e \<in> set (due (a\<lparr>now := m\<rparr>)) \<Longrightarrow> table a ! e \<noteq> None"
proof -
  assume r: "represents w a" and "e \<in> set (due (a\<lparr>now := m\<rparr>))"
  then obtain d where "(e, d) \<in> set (plan a)" by (auto simp: due_def)
  from plan_elem [OF r this] show ?thesis by (metis option.discI)
qed

lemma wheel_runs_agenda_step:
  assumes "represents w a" "fresh a" "ticking (wheel_thread w)"
    and "now a + 1 < 2 ^ 31" "room (a\<lparr>now := now a + 1\<rparr>)"
  shows "\<exists>w'. clock_expires w = Inr w' \<and> represents w' (agenda_tick a) \<and> fresh (agenda_tick a) \<and>
    ticking (wheel_thread w') \<and>
    calls w' = calls w @ map (\<lambda>e. call_of (the (table a ! e))) (due (a\<lparr>now := now a + 1\<rparr>))"
proof -
  obtain w1 where w1: "wheel_fn w = Inr w1" "represents w1 (agenda_tick a)" "fresh (agenda_tick a)"
    using wheel_fn_ok [OF assms(1,2,5,4)] by blast
  obtain t where t: "clock_expires w = Inr (w1\<lparr>wheel_thread := t\<rparr>)" "ticking t"
    using clock_expires_eq [OF assms(3) w1(1)] by blast
  have "ran (agenda_tick a) = ran a @ map (\<lambda>e. call_of (the (table a ! e))) (due (a\<lparr>now := now a + 1\<rparr>))"
    using ran_run_one [of "due (a\<lparr>now := now a + 1\<rparr>)" "a\<lparr>now := now a + 1\<rparr>"] due_known [OF assms(1)]
    by (simp add: agenda_tick_def Let_def ran_take_all)
  moreover have "calls w1 = ran (agenda_tick a)" "calls w = ran a"
    using w1(2) assms(1) by (simp_all add: represents_def)
  ultimately show ?thesis using t w1 by (intro exI [of _ "w1\<lparr>wheel_thread := t\<rparr>"]) simp
qed

fun clock_ticks :: "nat \<Rightarrow> wheel \<Rightarrow> wheel res" where
  "clock_ticks 0 w = Inr w"
| "clock_ticks (Suc m) w = rbind (clock_ticks m w) clock_expires"

section \<open>One periodic event\<close>

text \<open>The agenda with one event of period \<open>p\<close>, \<open>j\<close> ticks after it was taken up.\<close>

definition single :: "event \<Rightarrow> nat \<Rightarrow> nat \<Rightarrow> agenda" where
  "single v p j =
     \<lparr>now = 1 + int j, table = [Some v], plan = [(0, 1 + int (p * Suc (j div p)))], requests = [],
      ran = replicate (j div p) (call_of v)\<rparr>"

lemma single_tick:
  assumes "ev_recurs v" "ev_ticks v = int p" "0 < p"
  shows "agenda_tick (single v p j) = single v p (Suc j)"
proof (cases "p dvd Suc j")
  case True
  then have d: "Suc j div p = Suc (j div p)" by (simp add: div_Suc dvd_eq_mod_eq_0)
  then have e: "p * Suc (j div p) = Suc j" using True by (metis dvd_mult_div_cancel)
  have "due ((single v p j)\<lparr>now := now (single v p j) + 1\<rparr>) = [0]"
    using e by (simp add: due_def single_def del: mult_Suc_right)
  then show ?thesis
    using assms(1,2) d e
    by (simp add: agenda_tick_def Let_def due_def run_one_def single_def call_of_def enqueue_def forget_def
        insert_before_def replicate_append_same algebra_simps)
next
  case False
  then have d: "Suc j div p = j div p" by (simp add: div_Suc dvd_eq_mod_eq_0)
  have "p * Suc (j div p) \<noteq> Suc j" using False by (metis dvd_triv_left)
  then have "int p * (1 + int (j div p)) \<noteq> 1 + int j"
    by (metis of_nat_Suc of_nat_eq_iff of_nat_mult)
  then have "due ((single v p j)\<lparr>now := now (single v p j) + 1\<rparr>) = []"
    by (auto simp: due_def single_def algebra_simps)
  then show ?thesis using d by (simp add: agenda_tick_def Let_def single_def)
qed

lemma single_room:
  assumes "ev_ticks v = int p" "ev_request v = NoRequest" "int (Suc (Suc j)) + int p < 2 ^ 31"
  shows "room ((single v p j)\<lparr>now := now (single v p j) + 1\<rparr>)"
  using assms by (simp add: room_def single_def)

lemma single_fresh: "0 < p \<Longrightarrow> fresh (single v p j)"
proof -
  assume "0 < p"
  then have "j < p * Suc (j div p)" by (simp add: dividend_less_times_div)
  then have "int j < int (p * Suc (j div p))" by (simp only: of_nat_less_iff)
  then show ?thesis by (simp add: fresh_def single_def)
qed

lemma clock_ticks_single:
  assumes "represents w (single v p 0)" "ticking (wheel_thread w)"
    and v: "ev_recurs v" "ev_ticks v = int p" "ev_request v = NoRequest" "0 < p"
    and "int m + int p + 1 < 2 ^ 31"
  shows "\<exists>w'. clock_ticks m w = Inr w' \<and> represents w' (single v p m) \<and> ticking (wheel_thread w')"
  using assms(7)
proof (induction m)
  case 0
  then show ?case using assms(1,2) by simp
next
  case (Suc m)
  then obtain w1 where w1: "clock_ticks m w = Inr w1" "represents w1 (single v p m)"
    "ticking (wheel_thread w1)" by auto
  have "room ((single v p m)\<lparr>now := now (single v p m) + 1\<rparr>)"
    using single_room [OF v(2,3)] Suc.prems by simp
  moreover have "now (single v p m) + 1 < 2 ^ 31" using Suc.prems by (simp add: single_def)
  ultimately show ?case
    using wheel_runs_agenda_step [OF w1(2) single_fresh [OF v(4)] w1(3)] w1(1)
      single_tick [OF v(1,2,4), of m] by auto
qed

definition clock_millis :: "int \<Rightarrow> timer_resolution_t \<Rightarrow> int" where
  "clock_millis tic res = (if res = TIMER_MILLI_SECONDS then tic else tic * 1000)"

lemma started_wheel:
  assumes "init_wheel_timer n tic res True = Inr w0" "start_wheel_timer w0 = Inr w1" "0 < n" "n < 2 ^ 31"
    "0 < tic" "clock_millis tic res < 2 ^ 31"
  shows "represents w1 \<lparr>now = 0, table = [], plan = [], requests = [], ran = []\<rparr>"
    "ticking (wheel_thread w1)" "tick_length w1 = clock_millis tic res"
proof -
  have c: "0 < clock_millis tic res" using assms(5) by (simp add: clock_millis_def)
  have w0: "timer_resolution w0 = res" "clock_tic_interval w0 = tic"
    using assms(1) by (auto simp: init_wheel_timer_def res_simps)
  then have t0: "tick_length w0 = clock_millis tic res"
  proof -
    have "wt_get_clock_interval_in_milli_sec w0 = word_of_int (clock_millis tic res)"
      by (simp only: w0 wt_get_clock_interval_in_milli_sec_def clock_millis_def)
    then show ?thesis using assms(6) c by (simp add: uint_word_of_int)
  qed
  obtain t where t: "start_timer (wheel_thread w0) = Inr t" "w1 = w0\<lparr>wheel_thread := t\<rparr>"
    using assms(2) by (auto simp: start_wheel_timer_def elim!: rbindE)
  then show "tick_length w1 = clock_millis tic res"
    using t0 tick_thread by simp
  show "represents w1 \<lparr>now = 0, table = [], plan = [], requests = [], ran = []\<rparr>"
    using init_ok [OF assms(1,3,4)] t0 c t by simp
  have "clock_interval tic res = word_of_int (clock_millis tic res)"
    using assms(5,6) by (auto simp: clock_interval_def clock_millis_def c_int_id)
  then have "uint (clock_interval tic res) = clock_millis tic res"
    using assms(6) c by (simp add: uint_word_of_int)
  then have "clock_interval tic res \<noteq> 0" using c by auto
  then show "ticking (wheel_thread w1)"
    using assms(1) t
    by (auto simp: init_wheel_timer_def setup_timer_def start_timer_def resurrect_timer_def
        timer_settime_def timer_set_state_def ticking_def res_simps)
qed

lemma take_first:
  assumes "ev_request v = Place (int p)"
  shows "agenda_tick \<lparr>now = 0, table = [Some v], plan = [], requests = [0], ran = []\<rparr> =
    single (v\<lparr>ev_ticks := int p, ev_request := NoRequest\<rparr>) p 0"
  using assms by (simp add: agenda_tick_def due_def take_one_def single_def enqueue_def forget_def
      insert_before_def)

lemma periodic_event_represented:
  assumes "init_wheel_timer n tic res True = Inr w0" "start_wheel_timer w0 = Inr w1"
    and "timer_register_app_event (Some f) (Some arg) nbytes (int p * clock_millis tic res) True w1 = Inr (w2, h)"
    and "0 < n" "n < 2 ^ 31" "0 < tic" "clock_millis tic res < 2 ^ 31" "nbytes \<noteq> 0"
    and "0 < p" "int p * clock_millis tic res < 2 ^ 31" "int m + int p + 1 < 2 ^ 31"
  shows "\<exists>w v. clock_ticks (Suc m) w2 = Inr w \<and> represents w (single v p m) \<and> ticking (wheel_thread w) \<and>
    call_of v = (f, Some arg, nbytes) \<and> ev_recurs v \<and> ev_ticks v = int p \<and> ev_request v = NoRequest"
proof -
  define a where "a = \<lparr>now = 0, table = [], plan = [], requests = [], ran = []\<rparr>"
  note w1 = started_wheel [OF assms(1,2,4-7), folded a_def]
  have c: "0 < clock_millis tic res" using assms(6) by (simp add: clock_millis_def)
  have k: "interval_ok (tick_length w1) (int p * clock_millis tic res)"
    using assms(9,10) c by (simp add: interval_ok_def w1(3))
  from register_ok [OF w1(1) k, of f "Some arg" nbytes True] assms(3,8) c obtain v where
    v: "represents w2 \<lparr>now = 0, table = [Some v], plan = [], requests = [0], ran = []\<rparr>"
      "wheel_thread w2 = wheel_thread w1" "ev_callback v = f" "ev_recurs v" "ev_request v = Place (int p)"
      "ev_ticks v = 0" "ev_arg v = Some arg" "ev_size v = nbytes"
    by (auto simp: a_def w1(3))
  define u where "u = v\<lparr>ev_ticks := int p, ev_request := NoRequest\<rparr>"
  have fr: "fresh \<lparr>now = 0, table = [Some v], plan = [], requests = [0], ran = []\<rparr>"
    and ro: "room (\<lparr>now = 0, table = [Some v], plan = [], requests = [0], ran = []\<rparr>\<lparr>now := 0 + 1\<rparr>)"
    using v assms(11) by (simp_all add: fresh_def room_def)
  obtain w3 where w3: "clock_expires w2 = Inr w3" "represents w3 (single u p 0)" "ticking (wheel_thread w3)"
    using wheel_runs_agenda_step [OF v(1) fr] w1(2) v(2) ro take_first [OF v(5)] by (auto simp: u_def)
  have "\<exists>w. clock_ticks m w3 = Inr w \<and> represents w (single u p m) \<and> ticking (wheel_thread w)"
    using clock_ticks_single [OF w3(2,3), of m] v assms(9,11) by (simp add: u_def)
  moreover have "clock_ticks (Suc m) w2 = clock_ticks m w3" for m
    using w3(1) by (induction m) simp_all
  ultimately show ?thesis
    using v by (auto simp: call_of_def u_def intro!: exI [of _ u])
qed

section \<open>The promises\<close>

text \<open>
  C26: an expiry of the clock of a running wheel is a tick of the agenda that the wheel represents:
  the callbacks of exactly the events that are due are called, in the order of the plan; then the
  requests are taken up. The wheel that results represents the new agenda and still runs. The
  hypotheses say that no time computed at the tick leaves the range of \<open>int\<close>.
\<close>

theorem wheel_runs_agenda:
  assumes "represents w a" "fresh a" "ticking (wheel_thread w)"
    and "now a + 1 < 2 ^ 31" "room (a\<lparr>now := now a + 1\<rparr>)"
  shows "\<exists>w'. clock_expires w = Inr w' \<and> represents w' (agenda_tick a) \<and> fresh (agenda_tick a) \<and>
    ticking (wheel_thread w') \<and>
    calls w' = calls w @ map (\<lambda>e. call_of (the (table a ! e))) (due (a\<lparr>now := now a + 1\<rparr>))"
  using wheel_runs_agenda_step [OF assms(1-3,4,5)] .

lemma demo_wheel:
  obtains w0 w1 w2 h where "init_wheel_timer 4 10 TIMER_MILLI_SECONDS True = Inr w0"
    "start_wheel_timer w0 = Inr w1"
    "timer_register_app_event (Some 7) (Some 1) 1 (int 3 * clock_millis 10 TIMER_MILLI_SECONDS) True w1 = Inr (w2, h)"
proof -
  have "case init_wheel_timer 4 10 TIMER_MILLI_SECONDS True of Inl e \<Rightarrow> False | Inr w0 \<Rightarrow>
    (case start_wheel_timer w0 of Inl e \<Rightarrow> False | Inr w1 \<Rightarrow>
      (case timer_register_app_event (Some 7) (Some 1) 1 (int 3 * clock_millis 10 TIMER_MILLI_SECONDS) True w1 of
        Inl e \<Rightarrow> False | Inr (w2, h) \<Rightarrow> True))"
    by code_simp
  then show thesis using that by (auto split: sum.splits)
qed

theorem wheel_runs_agenda_witness:
  "\<exists>w w'. clock_expires w = Inr w' \<and> calls w = [] \<and> calls w' = [(7, Some 1, 1)]"
proof -
  obtain w0 w1 w2 h where d: "init_wheel_timer 4 10 TIMER_MILLI_SECONDS True = Inr w0"
    "start_wheel_timer w0 = Inr w1"
    "timer_register_app_event (Some 7) (Some 1) 1 (int 3 * clock_millis 10 TIMER_MILLI_SECONDS) True w1 = Inr (w2, h)"
    using demo_wheel .
  obtain w v where w: "represents w (single v 3 2)" "ticking (wheel_thread w)"
    "call_of v = (7, Some 1, 1)" "ev_ticks v = int 3" "ev_request v = NoRequest"
    using periodic_event_represented [OF d, of 2] by (auto simp: clock_millis_def)
  have "calls w = []" using w(1) by (simp add: represents_def single_def)
  moreover have "due ((single v 3 2)\<lparr>now := now (single v 3 2) + 1\<rparr>) = [0]"
    by (simp add: due_def single_def)
  moreover have "room ((single v 3 2)\<lparr>now := now (single v 3 2) + 1\<rparr>)"
    using single_room [OF w(4,5), of 2] by simp
  moreover have "table (single v 3 2) ! 0 = Some v" "now (single v 3 2) + 1 < 2 ^ 31"
    by (simp_all add: single_def)
  ultimately show ?thesis
    using wheel_runs_agenda [OF w(1) single_fresh w(2)] w(3) by auto
qed

text \<open>
  C27: a wheel is set up and started, and one recurrent event is registered with it, every \<open>p\<close>
  ticks. The tick after the registration takes the event up; after \<open>m\<close> more ticks of the clock
  its callback was called exactly \<open>m div p\<close> times, with the argument of the registration.
\<close>

theorem periodic_event_on_time:
  assumes "init_wheel_timer n tic res True = Inr w0" "start_wheel_timer w0 = Inr w1"
    and "timer_register_app_event (Some f) (Some arg) nbytes (int p * clock_millis tic res) True w1 = Inr (w2, h)"
    and "0 < n" "n < 2 ^ 31" "0 < tic" "clock_millis tic res < 2 ^ 31" "nbytes \<noteq> 0"
    and "0 < p" "int p * clock_millis tic res < 2 ^ 31" "int m + int p + 1 < 2 ^ 31"
  shows "\<exists>w. clock_ticks (Suc m) w2 = Inr w \<and> calls w = replicate (m div p) (f, Some arg, nbytes)"
proof -
  obtain w v where "clock_ticks (Suc m) w2 = Inr w" "represents w (single v p m)"
    "call_of v = (f, Some arg, nbytes)"
    using periodic_event_represented [OF assms] by blast
  then show ?thesis by (auto simp: represents_def single_def)
qed

theorem periodic_event_on_time_witness:
  "\<exists>w2 w. clock_ticks 8 w2 = Inr w \<and> calls w = [(7, Some 1, 1), (7, Some 1, 1)]"
proof -
  obtain w0 w1 w2 h where d: "init_wheel_timer 4 10 TIMER_MILLI_SECONDS True = Inr w0"
    "start_wheel_timer w0 = Inr w1"
    "timer_register_app_event (Some 7) (Some 1) 1 (int 3 * clock_millis 10 TIMER_MILLI_SECONDS) True w1 = Inr (w2, h)"
    using demo_wheel .
  have "(7 :: nat) div 3 = 2" by simp
  then show ?thesis
    using periodic_event_on_time [OF d, of 7] by (auto simp: clock_millis_def numeral_2_eq_2)
qed

end
