(* ===== verification/CourseFacts.thy ===== *)
theory CourseFacts
  imports CourseCli
begin

text \<open>
  The operations of the server under \<^verbatim>\<open>Course\<close> as updates of one server and its clients, and the
  invariant of its states: the list of the client service is the table of the clients.
\<close>

section \<open>Servers and clients of a state\<close>

definition srv :: "co_world \<Rightarrow> sptr \<Rightarrow> co_server option" where
  "srv w s = (if s < length (co_servers w) then co_servers w ! s else None)"

definition clt :: "co_world \<Rightarrow> cptr \<Rightarrow> co_client option" where
  "clt w p = (if p < length (co_heap w) then co_heap w ! p else None)"

named_theorems co_simps \<open>reading a changed state\<close>

lemma co_server_at_srv: "co_server_at w s = (case srv w s of None \<Rightarrow> Inl UseAfterFree | Some x \<Rightarrow> Inr x)"
  by (simp add: co_server_at_def srv_def)

lemma co_client_at_clt: "co_client_at w p = (case clt w p of None \<Rightarrow> Inl UseAfterFree | Some c \<Rightarrow> Inr c)"
  by (simp add: co_client_at_def clt_def)

lemma srv_bound: "srv w s = Some x \<Longrightarrow> s < length (co_servers w)"
  by (auto simp: srv_def split: if_splits)

lemma clt_bound: "clt w p = Some c \<Longrightarrow> p < length (co_heap w)"
  by (auto simp: clt_def split: if_splits)

lemma srv_set [co_simps]:
  "srv (set_co_server s y w) t = (if t = s \<and> s < length (co_servers w) then y else srv w t)"
  "srv (set_co_client p c w) t = srv w t" "srv (co_log e w) t = srv w t"
  "srv (w\<lparr>client_recv_buffer := b\<rparr>) t = srv w t"
  by (auto simp: srv_def set_co_server_def set_co_client_def co_log_def)

lemma clt_set [co_simps]:
  "clt (set_co_client p y w) q = (if q = p \<and> p < length (co_heap w) then y else clt w q)"
  "clt (set_co_server s x w) q = clt w q" "clt (co_log e w) q = clt w q"
  "clt (w\<lparr>client_recv_buffer := b\<rparr>) q = clt w q"
  by (auto simp: clt_def set_co_server_def set_co_client_def co_log_def)

lemma lengths [co_simps]:
  "length (co_servers (set_co_server s x w)) = length (co_servers w)"
  "length (co_heap (set_co_client p c w)) = length (co_heap w)"
  "co_servers (set_co_client p c w) = co_servers w" "co_heap (set_co_server s x w) = co_heap w"
  "co_servers (co_log e w) = co_servers w" "co_heap (co_log e w) = co_heap w"
  "client_recv_buffer (set_co_server s x w) = client_recv_buffer w"
  "client_recv_buffer (set_co_client p c w) = client_recv_buffer w"
  "client_recv_buffer (co_log e w) = client_recv_buffer w"
  "co_events (set_co_server s x w) = co_events w" "co_events (set_co_client p c w) = co_events w"
  "co_events (co_log e w) = co_events w @ [e]"
  "co_raw (set_co_server s x w) = co_raw w" "co_raw (set_co_client p c w) = co_raw w"
  "co_raw (co_log e w) = co_raw w" "co_raw_flags (set_co_server s x w) = co_raw_flags w"
  "co_raw_flags (set_co_client p c w) = co_raw_flags w" "co_raw_flags (co_log e w) = co_raw_flags w"
  by (simp_all add: set_co_server_def set_co_client_def co_log_def)

text \<open>Updates of one server collapse, and commute with what is logged.\<close>

lemma collapse [co_simps]:
  "set_co_server s x (set_co_server s y w) = set_co_server s x w"
  "set_co_server s x (co_log e w) = co_log e (set_co_server s x w)"
  "set_co_server s x (set_co_client p c w) = set_co_client p c (set_co_server s x w)"
  "set_co_client p c (co_log e w) = co_log e (set_co_client p c w)"
  "set_co_client p c (set_co_client p d w) = set_co_client p c w"
  by (simp_all add: set_co_server_def set_co_client_def co_log_def)

lemma upd_co_server_eq [co_simps]:
  "srv w s = Some x \<Longrightarrow> upd_co_server s f w = Inr (set_co_server s (Some (f x)) w)"
  by (simp add: upd_co_server_def co_server_at_srv)

lemma upd_co_client_eq [co_simps]:
  "clt w p = Some c \<Longrightarrow> upd_co_client p f w = Inr (set_co_client p (Some (f c)) w)"
  by (simp add: upd_co_client_def co_client_at_clt)

lemma parts_of [co_simps]:
  "srv w s = Some x \<Longrightarrow> co_server_at w s = Inr x"
  "clt w p = Some c \<Longrightarrow> co_client_at w p = Inr c"
  "srv w s = Some x \<Longrightarrow> co_svc_of s w = (case co_svc x of None \<Rightarrow> Inl NullDeref | Some v \<Rightarrow> Inr v)"
  "srv w s = Some x \<Longrightarrow> co_acc_of s w = (case co_acc x of None \<Rightarrow> Inl NullDeref | Some a \<Rightarrow> Inr a)"
  "srv w s = Some x \<Longrightarrow> co_db_of s w = (case co_db x of None \<Rightarrow> Inl NullDeref | Some d \<Rightarrow> Inr d)"
  by (simp_all add: co_server_at_srv co_client_at_clt co_svc_of_def co_acc_of_def co_db_of_def)

lemma flag_ops [co_simps]:
  "srv w s = Some x \<Longrightarrow> IsBitSet_course s b w = Inr (bit_set (co_flags x) b)"
  "srv w s = Some x \<Longrightarrow> SetBit_course s b w = Inr (set_co_server s (Some (x\<lparr>co_flags := co_flags x OR b\<rparr>)) w)"
  "srv w s = Some x \<Longrightarrow> UnSetBit_course s b w = Inr (set_co_server s (Some (x\<lparr>co_flags := co_flags x AND NOT b\<rparr>)) w)"
  by (simp_all add: IsBitSet_course_def SetBit_course_def UnSetBit_course_def co_simps)

lemma upd_co_svc_eq [co_simps]:
  "srv w s = Some x \<Longrightarrow> co_svc x = Some v \<Longrightarrow>
   upd_co_svc s f w = Inr (set_co_server s (Some (x\<lparr>co_svc := Some (f v)\<rparr>)) w)"
  by (simp add: upd_co_svc_def co_simps)

section \<open>Loops over the clients\<close>

lemma heap_only:
  assumes "co_heap w = co_heap w'"
  shows "co_max_fd_loop w ps m = co_max_fd_loop w' ps m"
    and "CopyClientFDtoFDSet_course w ps fds = CopyClientFDtoFDSet_course w' ps fds"
proof -
  have eq: "co_client_at w = co_client_at w'" using assms by (simp add: co_client_at_def fun_eq_iff)
  show "co_max_fd_loop w ps m = co_max_fd_loop w' ps m" by (induction ps arbitrary: m) (simp_all add: eq)
  show "CopyClientFDtoFDSet_course w ps fds = CopyClientFDtoFDSet_course w' ps fds"
    by (induction ps arbitrary: fds) (auto simp: eq intro!: rbind_cong)
qed

definition fd_of :: "co_world \<Rightarrow> cptr \<Rightarrow> int" where
  "fd_of w p = (case clt w p of None \<Rightarrow> 0 | Some c \<Rightarrow> co_fd c)"

lemma max_fd_loop_eq:
  "\<forall>p \<in> set ps. clt w p \<noteq> None \<Longrightarrow> co_max_fd_loop w ps m = Inr (foldl max m (map (fd_of w) ps))"
proof (induction ps arbitrary: m)
  case (Cons p ps)
  then obtain c where "clt w p = Some c" by auto
  then show ?case using Cons by (simp add: co_simps fd_of_def max_def)
qed simp

lemma foldl_max_start: "(m :: int) \<le> foldl max m xs"
proof (induction xs arbitrary: m)
  case (Cons x xs)
  have "max m x \<le> foldl max (max m x) xs" by (rule Cons.IH)
  then show ?case by simp
qed simp

lemma foldl_max_elem: "x \<in> set xs \<Longrightarrow> (x :: int) \<le> foldl max m xs"
proof (induction xs arbitrary: m)
  case (Cons y xs)
  have "y \<le> max m y" by simp
  also have "\<dots> \<le> foldl max (max m y) xs" by (rule foldl_max_start)
  finally show ?case using Cons by auto
qed simp

lemma fd_set_loop:
  "\<forall>p \<in> set ps. clt w p \<noteq> None \<Longrightarrow> CopyClientFDtoFDSet_course w ps fds =
     (if \<forall>p \<in> set ps. 0 \<le> fd_of w p \<and> fd_of w p < 1024
      then Inr (foldl (\<lambda>fds p. List.insert (fd_of w p) fds) fds ps) else Inl OutOfBounds)"
proof (induction ps arbitrary: fds)
  case (Cons p ps)
  then obtain c where "clt w p = Some c" by auto
  then show ?case using Cons by (simp add: co_simps fd_of_def FD_SET_def)
qed simp

lemma set_fd_loop: "set (foldl (\<lambda>fds p. List.insert (f p) fds) fds ps) = set fds \<union> f ` set ps"
  by (induction ps arbitrary: fds) auto

end
