(* ===== verification/CourseInv.thy ===== *)
theory CourseInv
  imports CourseFacts
begin

text \<open>
  The invariant of the states of the server under \<^verbatim>\<open>Course\<close>, and what its operations do from states
  that satisfy it.
\<close>

section \<open>The invariant\<close>

definition table :: "co_server \<Rightarrow> cptr list" where
  "table x = (case co_db x of None \<Rightarrow> [] | Some db \<Rightarrow> db)"

text \<open>
  The client service lists what the table lists; once its thread runs it watches the descriptors
  of exactly these clients.
\<close>

definition watches :: "co_world \<Rightarrow> cptr list \<Rightarrow> co_svc \<Rightarrow> bool" where
  "watches w db v \<longleftrightarrow> mgr_db v = db \<and>
     (case mgr_thread v of
        None \<Rightarrow> False
      | Some NoThread \<Rightarrow> db = []
      | Some Thread \<Rightarrow>
          set (mgr_fds v) = fd_of w ` set db \<and> (\<forall>p \<in> set db. fd_of w p \<le> mgr_max_fd v))"

text \<open>A client of a table is alive, belongs to the server and has no demarcar.\<close>

definition owned :: "co_world \<Rightarrow> sptr \<Rightarrow> cptr list \<Rightarrow> bool" where
  "owned w s db \<longleftrightarrow> distinct db \<and>
     (\<forall>p \<in> set db. \<exists>c. clt w p = Some c \<and> co_ctrlr c = Some s \<and> co_msgd c = None)"

definition server_ok :: "co_world \<Rightarrow> sptr \<Rightarrow> co_server \<Rightarrow> bool" where
  "server_ok w s x \<longleftrightarrow> co_db x \<noteq> None \<and> owned w s (table x) \<and>
     (bit_set (co_flags x) TCP_SERVER_NOT_ACCEPTING_NEW_CONNECTIONS \<longleftrightarrow> co_acc x = None) \<and>
     (bit_set (co_flags x) TCP_SERVER_NOT_LISTENING_CLIENTS \<longleftrightarrow> co_svc x = None) \<and>
     (\<forall>v. co_svc x = Some v \<longrightarrow> watches w (table x) v) \<and>
     (\<forall>a. co_acc x = Some a \<longrightarrow> acc_thread a \<noteq> None)"

text \<open>No client is lost: every one that lives is in the table of its server.\<close>

definition co_ok :: "co_world \<Rightarrow> bool" where
  "co_ok w \<longleftrightarrow>
     (\<forall>s x. srv w s = Some x \<longrightarrow> server_ok w s x) \<and>
     (\<forall>p c. clt w p = Some c \<longrightarrow> (\<exists>s x. co_ctrlr c = Some s \<and> srv w s = Some x \<and> p \<in> set (table x))) \<and>
     co_raw_flags w AND 12 = 0"

lemma fd_of_set [co_simps]:
  "fd_of (set_co_server s x w) = fd_of w" "fd_of (co_log e w) = fd_of w"
  by (simp_all add: fd_of_def fun_eq_iff co_simps)

lemma watches_set [co_simps]:
  "watches (set_co_server s x w) = watches w" "watches (co_log e w) = watches w"
  by (auto simp: watches_def fun_eq_iff co_simps split: option.split thread_cell.split)

lemma owned_set [co_simps]:
  "owned (set_co_server s x w) = owned w" "owned (co_log e w) = owned w"
  by (simp_all add: owned_def fun_eq_iff co_simps)

lemma server_ok_set [co_simps]:
  "server_ok (set_co_server s x w) = server_ok w" "server_ok (co_log e w) = server_ok w"
  by (simp_all add: server_ok_def fun_eq_iff co_simps)

lemma co_ok_log [co_simps]: "co_ok (co_log e w) = co_ok w"
  by (simp add: co_ok_def co_simps)

lemma co_okD:
  assumes "co_ok w" "srv w s = Some x"
  shows "server_ok w s x" "co_db x = Some (table x)" "owned w s (table x)"
    "\<forall>p \<in> set (table x). clt w p \<noteq> None"
    "bit_set (co_flags x) TCP_SERVER_NOT_ACCEPTING_NEW_CONNECTIONS = (co_acc x = None)"
    "bit_set (co_flags x) TCP_SERVER_NOT_LISTENING_CLIENTS = (co_svc x = None)"
    "co_svc x = Some v \<Longrightarrow> watches w (table x) v"
    "co_acc x = Some a \<Longrightarrow> acc_thread a \<noteq> None"
proof -
  have ok: "server_ok w s x" using assms by (simp add: co_ok_def)
  then show "server_ok w s x" "co_db x = Some (table x)" "owned w s (table x)"
    "bit_set (co_flags x) TCP_SERVER_NOT_ACCEPTING_NEW_CONNECTIONS = (co_acc x = None)"
    "bit_set (co_flags x) TCP_SERVER_NOT_LISTENING_CLIENTS = (co_svc x = None)"
    "co_svc x = Some v \<Longrightarrow> watches w (table x) v" "co_acc x = Some a \<Longrightarrow> acc_thread a \<noteq> None"
    by (auto simp: server_ok_def table_def)
  show "\<forall>p \<in> set (table x). clt w p \<noteq> None" using ok by (auto simp: server_ok_def owned_def)
qed

lemma co_ok_set_server:
  assumes "co_ok w" "srv w s = Some x" "server_ok w s y" "table y = table x"
  shows "co_ok (set_co_server s (Some y) w)"
  unfolding co_ok_def
proof (intro conjI allI impI)
  fix t z
  assume "srv (set_co_server s (Some y) w) t = Some z"
  then show "server_ok (set_co_server s (Some y) w) t z"
    using assms(1-3) by (auto simp: co_simps co_ok_def srv_bound split: if_splits)
next
  fix p c
  assume "clt (set_co_server s (Some y) w) p = Some c"
  then have "clt w p = Some c" by (simp add: co_simps)
  then obtain t z where "co_ctrlr c = Some t" "srv w t = Some z" "p \<in> set (table z)"
    using assms(1) unfolding co_ok_def by blast
  then show "\<exists>t z. co_ctrlr c = Some t \<and> srv (set_co_server s (Some y) w) t = Some z \<and> p \<in> set (table z)"
    using assms(2,4) by (cases "t = s") (auto simp: co_simps srv_bound)
qed (use assms(1) in \<open>simp add: co_ok_def co_simps\<close>)

section \<open>The client service\<close>

text \<open>The service after its thread has looked at the clients \<open>db\<close>.\<close>

definition running :: "co_world \<Rightarrow> cptr list \<Rightarrow> co_svc" where
  "running w db =
     \<lparr>mgr_max_fd = foldl max 0 (map (fd_of w) db),
      mgr_fds = foldl (\<lambda>fds p. List.insert (fd_of w p) fds) [] db,
      mgr_thread = Some Thread, mgr_db = db, rcv_bytes = None\<rparr>"

lemma watches_running: "watches w db (running w db)"
  by (auto simp: watches_def running_def set_fd_loop intro!: foldl_max_elem)

definition fds_fit :: "co_world \<Rightarrow> cptr list \<Rightarrow> bool" where
  "fds_fit w db \<longleftrightarrow> (\<forall>p \<in> set db. 0 \<le> fd_of w p \<and> fd_of w p < 1024)"

lemma fds_fit_set [co_simps]:
  "fds_fit (set_co_server s x w) = fds_fit w" "fds_fit (co_log e w) = fds_fit w"
  by (simp_all add: fds_fit_def fun_eq_iff co_simps)

lemma start_thread:
  assumes x: "srv w s = Some x" "co_svc x = Some v" "co_db x = Some db" "mgr_thread v \<noteq> None"
    and db: "(if bit_set (co_flags x) TCP_SERVER_NOT_LISTENING_CLIENTS then mgr_db v @ db else mgr_db v) = ps"
    and live: "\<forall>p \<in> set ps. clt w p \<noteq> None"
  shows "StartTcpClientServiceManagerThread_course s w =
    (if fds_fit w ps
     then Inr (co_said (''Service started : TcpClientServiceManagerThread'' @ [NL])
            (set_co_server s (Some (x\<lparr>co_svc := Some (running w ps)\<rparr>)) w))
     else Inl OutOfBounds)"
proof -
  define v1 where "v1 = v\<lparr>mgr_thread := Some Thread\<rparr>"
  define w1 where "w1 = set_co_server s (Some (x\<lparr>co_svc := Some v1\<rparr>)) w"
  have s1: "srv w1 s = Some (x\<lparr>co_svc := Some v1\<rparr>)" using x(1) by (simp add: w1_def co_simps srv_bound)
  define v2 where "v2 = v1\<lparr>mgr_db := ps, rcv_bytes := None\<rparr>"
  define w2 where "w2 = set_co_server s (Some (x\<lparr>co_svc := Some v2\<rparr>)) w"
  have s2: "srv w2 s = Some (x\<lparr>co_svc := Some v2\<rparr>)" using x(1) by (simp add: w2_def co_simps srv_bound)
  have 2: "upd_co_svc s (\<lambda>v. v\<lparr>mgr_db := ps, rcv_bytes := None\<rparr>) w1 = Inr w2"
    using s1 by (simp add: co_simps) (simp add: w1_def w2_def v2_def co_simps)
  have live2: "\<forall>p \<in> set ps. clt w2 p \<noteq> None" using live by (simp add: w2_def co_simps)
  have fd2: "fd_of w2 = fd_of w" by (simp add: w2_def co_simps)
  let ?v = "v2\<lparr>mgr_max_fd := foldl max 0 (map (fd_of w) ps),
      mgr_fds := foldl (\<lambda>fds p. List.insert (fd_of w p) fds) [] ps\<rparr>"
  have 3: "GetMaxFd s w2 = Inr (foldl max 0 (map (fd_of w) ps))"
    using s2 max_fd_loop_eq [OF live2, of 0] by (simp add: GetMaxFd_def co_simps v2_def fd2)
  have 4: "CopyClientFDtoFDSet_course w2 ps [] =
      (if fds_fit w ps then Inr (foldl (\<lambda>fds p. List.insert (fd_of w p) fds) [] ps) else Inl OutOfBounds)"
    using fd_set_loop [OF live2, of "[]"] by (simp add: fds_fit_def fd2)
  have 5: "upd_co_svc s (\<lambda>v. v\<lparr>mgr_max_fd := foldl max 0 (map (fd_of w) ps),
      mgr_fds := foldl (\<lambda>fds p. List.insert (fd_of w p) fds) [] ps\<rparr>) w2 =
      Inr (set_co_server s (Some (x\<lparr>co_svc := Some ?v\<rparr>)) w)"
    using s2 by (simp add: co_simps) (simp add: w2_def co_simps)
  have "?v = running w ps" by (simp add: running_def v2_def v1_def)
  with 5 have 5: "upd_co_svc s (\<lambda>v. v\<lparr>mgr_max_fd := foldl max 0 (map (fd_of w) ps),
      mgr_fds := foldl (\<lambda>fds p. List.insert (fd_of w p) fds) [] ps\<rparr>) w2 =
      Inr (set_co_server s (Some (x\<lparr>co_svc := Some (running w ps)\<rparr>)) w)" by simp
  have 1: "IsBitSet_course s TCP_SERVER_NOT_LISTENING_CLIENTS w1 =
      Inr (bit_set (co_flags x) TCP_SERVER_NOT_LISTENING_CLIENTS)" "co_svc_of s w1 = Inr v1"
    "(if bit_set (co_flags x) TCP_SERVER_NOT_LISTENING_CLIENTS
      then CopyAllClientsTolist_course s (mgr_db v1) w1 else Inr (mgr_db v1)) = Inr ps"
    using s1 x(3) db by (auto simp: co_simps CopyAllClientsTolist_course_def v1_def)
  have "mgr_thread_start s w1 =
      (if fds_fit w ps
       then Inr (set_co_server s (Some (x\<lparr>co_svc := Some (running w ps)\<rparr>)) w) else Inl OutOfBounds)"
    unfolding mgr_thread_start_def using 5 by (simp add: 1 2 3 4)
  then show ?thesis using x
    by (simp add: StartTcpClientServiceManagerThread_course_def co_simps w1_def v1_def)
qed

text \<open>From a state that satisfies the invariant.\<close>

lemma start_thread_ok:
  assumes "co_ok w" "srv w s = Some x" "co_svc x = Some v"
  shows "StartTcpClientServiceManagerThread_course s w =
    (if fds_fit w (table x)
     then Inr (co_said (''Service started : TcpClientServiceManagerThread'' @ [NL])
            (set_co_server s (Some (x\<lparr>co_svc := Some (running w (table x))\<rparr>)) w))
     else Inl OutOfBounds)"
proof (rule start_thread)
  note d = co_okD [OF assms(1,2)]
  have w: "watches w (table x) v" by (rule d(7) [OF assms(3)])
  show "srv w s = Some x" "co_svc x = Some v" "co_db x = Some (table x)" using assms d(2) by auto
  show "mgr_thread v \<noteq> None" using w by (simp add: watches_def split: option.splits)
  show "(if bit_set (co_flags x) TCP_SERVER_NOT_LISTENING_CLIENTS then mgr_db v @ table x else mgr_db v) = table x"
    using w d(6) assms(3) by (simp add: watches_def)
  show "\<forall>p \<in> set (table x). clt w p \<noteq> None" by (rule d(4))
qed

lemma table_update [co_simps]:
  "table (x\<lparr>co_svc := v\<rparr>) = table x" "table (x\<lparr>co_acc := a\<rparr>) = table x"
  "table (x\<lparr>co_flags := f\<rparr>) = table x" "table (x\<lparr>co_db := Some ps\<rparr>) = ps"
  by (simp_all add: table_def)

lemma server_ok_svc:
  "server_ok w s x \<Longrightarrow> co_svc x \<noteq> None \<Longrightarrow> watches w (table x) v \<Longrightarrow> server_ok w s (x\<lparr>co_svc := Some v\<rparr>)"
  by (simp add: server_ok_def co_simps)

lemma server_ok_acc:
  "server_ok w s x \<Longrightarrow> co_acc x \<noteq> None \<Longrightarrow> acc_thread a \<noteq> None \<Longrightarrow> server_ok w s (x\<lparr>co_acc := Some a\<rparr>)"
  by (simp add: server_ok_def co_simps)

lemma own_bit:
  "b \<noteq> 0 \<Longrightarrow> bit_set (f OR b) b" "\<not> bit_set (f AND NOT b) b"
  by (simp_all add: bit_set_def bit.conj_disj_distrib2 and.assoc)

lemma server_ok_flag:
  "server_ok w s x \<Longrightarrow> (m AND 4 :: u32) = 0 \<Longrightarrow> (m AND 8 :: u32) = 0 \<Longrightarrow>
   server_ok w s (x\<lparr>co_flags := co_flags x OR m\<rparr>)"
  "server_ok w s x \<Longrightarrow> (m AND 4 :: u32) = 0 \<Longrightarrow> (m AND 8 :: u32) = 0 \<Longrightarrow>
   server_ok w s (x\<lparr>co_flags := co_flags x AND NOT m\<rparr>)"
  by (simp_all add: server_ok_def co_simps bit_or bit_andnot)

section \<open>The controller\<close>

lemma server_there: "co_server_at w s = Inr x \<longleftrightarrow> srv w s = Some x"
  by (simp add: co_server_at_srv split: option.split)

lemma start_acceptor_ok:
  assumes "co_ok w" "srv w s = Some x" "StartTcpNewConnectionAcceptorThread_course s b w = Inr w'"
  obtains a where "co_acc x \<noteq> None" "acc_thread a = Some Thread"
    "w' = co_said (''Service Started : TcpNewConnectionAcceptorThread'' @ [NL])
       (set_co_server s (Some (x\<lparr>co_acc := Some a\<rparr>)) w)" "co_ok w'" 
proof -
  obtain a where a: "co_acc x = Some a" "w' = co_said (''Service Started : TcpNewConnectionAcceptorThread'' @ [NL])
       (set_co_server s (Some (x\<lparr>co_acc := Some (a\<lparr>acc_thread := Some Thread, acc_bound := True\<rparr>)\<rparr>)) w)"
    using assms(2,3)
    by (auto simp: start_acceptor_eq set_co_acc_def co_simps rbind_eq_Inr
        split: option.splits)
  have "server_ok w s (x\<lparr>co_acc := Some (a\<lparr>acc_thread := Some Thread, acc_bound := True\<rparr>)\<rparr>)"
    using co_okD(1) [OF assms(1,2)] a(1) by (intro server_ok_acc) auto
  then have "co_ok w'" using co_ok_set_server [OF assms(1,2)] a(2) by (simp add: co_simps)
  then show thesis using that [OF _ _ a(2)] a(1) by simp
qed

lemma start_svc_ok:
  assumes "co_ok w" "srv w s = Some x" "co_svc x \<noteq> None" "fds_fit w (table x)"
  shows "StartTcpClientServiceManagerThread_course s w =
      Inr (co_said (''Service started : TcpClientServiceManagerThread'' @ [NL])
            (set_co_server s (Some (x\<lparr>co_svc := Some (running w (table x))\<rparr>)) w))"
    and "co_ok (set_co_server s (Some (x\<lparr>co_svc := Some (running w (table x))\<rparr>)) w)"
proof -
  obtain v where v: "co_svc x = Some v" using assms(3) by auto
  show "StartTcpClientServiceManagerThread_course s w =
      Inr (co_said (''Service started : TcpClientServiceManagerThread'' @ [NL])
            (set_co_server s (Some (x\<lparr>co_svc := Some (running w (table x))\<rparr>)) w))"
    using start_thread_ok [OF assms(1,2) v] assms(4) by simp
  show "co_ok (set_co_server s (Some (x\<lparr>co_svc := Some (running w (table x))\<rparr>)) w)"
    using assms(1,2) co_okD(1) [OF assms(1,2)] assms(3)
    by (intro co_ok_set_server server_ok_svc watches_running) (auto simp: co_simps)
qed

lemma Start_ok:
  assumes "co_ok w" "Start_course s b w = Inr w'"
  shows "co_ok w'"
proof -
  from assms(2) obtain w1 w2 where 1: "StartTcpNewConnectionAcceptorThread_course s b w = Inr w1"
    and 2: "StartTcpClientServiceManagerThread_course s w1 = Inr w2"
    by (auto simp: Start_course_def rbind_eq_Inr)
  obtain x where x: "srv w s = Some x"
    using 1 by (auto simp: start_acceptor_eq co_acc_of_def rbind_eq_Inr server_there)
  obtain a where a: "w1 = co_said (''Service Started : TcpNewConnectionAcceptorThread'' @ [NL])
       (set_co_server s (Some (x\<lparr>co_acc := Some a\<rparr>)) w)" "co_ok w1"
    using start_acceptor_ok [OF assms(1) x 1] by metis
  define x1 where "x1 = x\<lparr>co_acc := Some a\<rparr>"
  have x1: "srv w1 s = Some x1" using x by (simp add: a(1) co_simps srv_bound x1_def)
  have sv: "co_svc x1 \<noteq> None" "fds_fit w1 (table x1)"
    using 2 x1 start_thread_ok [OF a(2) x1]
    by (auto simp: StartTcpClientServiceManagerThread_course_def co_simps split: option.splits if_splits)
  note st = start_svc_ok [OF a(2) x1 sv]
  define y where "y = x1\<lparr>co_svc := Some (running w1 (table x1))\<rparr>"
  have y: "srv w2 s = Some y" "co_ok w2"
    using st 2 x1 by (auto simp: co_simps srv_bound y_def)
  have "w' = co_said (''Tcp Server is Up and Running ['' @ network_convert_ip_n_to_p (co_srv_ip y) @ '', '' @
          show_nat (unat (co_srv_port y)) @ '']'' @ [NL] @ ''Ok.'' @ [NL])
        (set_co_server s (Some (y\<lparr>co_flags := co_flags y OR 2\<rparr>)) w2)"
    using assms(2) 1 2 y(1) by (simp add: Start_course_def co_simps)
  moreover have "server_ok w2 s (y\<lparr>co_flags := co_flags y OR 2\<rparr>)"
    by (intro server_ok_flag co_okD(1) [OF y(2,1)]) simp_all
  ultimately show ?thesis using co_ok_set_server [OF y(2,1)] by (simp add: co_simps)
qed

text \<open>The first start of a server whose socket gets its address.\<close>

lemma Start_eq:
  assumes "co_ok w" "srv w s = Some x" "co_acc x = Some a" "\<not> acc_bound a" "co_svc x \<noteq> None"
    "fds_fit w (table x)"
  shows "\<exists>w'. Start_course s True w = Inr w' \<and> co_ok w' \<and> clt w' = clt w \<and> co_heap w' = co_heap w \<and>
    client_recv_buffer w' = client_recv_buffer w \<and> (\<forall>t. t \<noteq> s \<longrightarrow> srv w' t = srv w t) \<and>
    srv w' s = Some (x\<lparr>co_acc := Some (a\<lparr>acc_thread := Some Thread, acc_bound := True\<rparr>),
      co_svc := Some (running w (table x)), co_flags := co_flags x OR 2\<rparr>)"
proof -
  define x1 where "x1 = x\<lparr>co_acc := Some (a\<lparr>acc_thread := Some Thread, acc_bound := True\<rparr>)\<rparr>"
  define w1 where "w1 = co_said (''Service Started : TcpNewConnectionAcceptorThread'' @ [NL])
      (set_co_server s (Some x1) w)"
  have 1: "StartTcpNewConnectionAcceptorThread_course s True w = Inr w1"
    using assms(2,3,4) co_okD(8) [OF assms(1-3)]
    by (simp add: start_acceptor_eq set_co_acc_def co_simps w1_def x1_def)
  have w1: "co_ok w1" using start_acceptor_ok [OF assms(1,2) 1] by blast
  have x1: "srv w1 s = Some x1" "table x1 = table x" "co_svc x1 = co_svc x"
    using assms(2) by (simp_all add: w1_def x1_def co_simps srv_bound)
  have "fds_fit w1 = fds_fit w" "running w1 = running w"
    by (simp_all add: w1_def co_simps running_def fun_eq_iff)
  then have 2: "StartTcpClientServiceManagerThread_course s w1 =
      Inr (co_said (''Service started : TcpClientServiceManagerThread'' @ [NL])
            (set_co_server s (Some (x1\<lparr>co_svc := Some (running w (table x))\<rparr>)) w1))"
    using start_svc_ok(1) [OF w1 x1(1)] x1(2,3) assms(5,6) by simp
  define y where "y = x1\<lparr>co_svc := Some (running w (table x)), co_flags := co_flags x OR 2\<rparr>"
  have "\<exists>w'. Start_course s True w = Inr w' \<and> clt w' = clt w \<and> co_heap w' = co_heap w \<and>
      client_recv_buffer w' = client_recv_buffer w \<and> (\<forall>t. t \<noteq> s \<longrightarrow> srv w' t = srv w t) \<and> srv w' s = Some y"
    using 1 2 x1(1) assms(2)
    by (simp add: Start_course_def co_simps srv_bound w1_def y_def x1_def fun_eq_iff)
  then show ?thesis using Start_ok [OF assms(1)] unfolding y_def x1_def by blast
qed

section \<open>Stopping and starting the parts\<close>

lemma acc_stop_eq:
  assumes "srv w s = Some x" "co_acc x = Some a"
  shows "acc_Stop_course s w =
    (case acc_thread a of
       Some NoThread \<Rightarrow> Inl NullDeref
     | _ \<Rightarrow> Inr (co_log (ClosedFd (acc_fd a))
            (set_co_server s (Some (x\<lparr>co_acc := Some (a\<lparr>acc_thread := None, acc_fd := 0\<rparr>)\<rparr>)) w)))"
  using assms
  by (cases a; cases "acc_thread a")
     (auto simp: acc_Stop_course_def StopTcpNewConnectionAcceptorThread_course_def set_co_acc_def co_simps srv_bound
       split: thread_cell.split)

lemma stop_accepting:
  assumes "co_ok w" "srv w s = Some x" "co_acc x = Some a" "acc_thread a = Some Thread"
  shows "StopConnectionAcceptingSvc s w =
      Inr (co_log (ClosedFd (acc_fd a))
        (set_co_server s (Some (x\<lparr>co_flags := co_flags x OR 4, co_acc := None\<rparr>)) w))"
    and "co_ok (set_co_server s (Some (x\<lparr>co_flags := co_flags x OR 4, co_acc := None\<rparr>)) w)"
proof -
  note d = co_okD [OF assms(1,2)]
  have off: "\<not> bit_set (co_flags x) 4" using d(5) assms(3) by simp
  let ?x = "x\<lparr>co_flags := co_flags x OR 4\<rparr>"
  have 1: "srv (set_co_server s (Some ?x) w) s = Some ?x" using assms(2) by (simp add: co_simps srv_bound)
  have 2: "acc_Stop_course s (set_co_server s (Some ?x) w) = Inr (co_log (ClosedFd (acc_fd a))
      (set_co_server s (Some (?x\<lparr>co_acc := Some (a\<lparr>acc_thread := None, acc_fd := 0\<rparr>)\<rparr>)) w))"
    using acc_stop_eq [OF 1] assms(3,4) by (simp add: co_simps)
  show "StopConnectionAcceptingSvc s w =
      Inr (co_log (ClosedFd (acc_fd a))
        (set_co_server s (Some (x\<lparr>co_flags := co_flags x OR 4, co_acc := None\<rparr>)) w))"
    using assms(2) off 2 by (simp add: StopConnectionAcceptingSvc_def co_simps set_co_acc_def srv_bound)
  have "bit_set (co_flags x OR 4) 4" "bit_set (co_flags x OR 4) 8 = bit_set (co_flags x) 8"
    by (simp_all add: bit_or own_bit)
  then have "server_ok w s (x\<lparr>co_flags := co_flags x OR 4, co_acc := None\<rparr>)"
    using d(1) by (simp add: server_ok_def table_def)
  then show "co_ok (set_co_server s (Some (x\<lparr>co_flags := co_flags x OR 4, co_acc := None\<rparr>)) w)"
    using assms(1,2) by (intro co_ok_set_server) (auto simp: table_def)
qed

lemma accepting_stopped:
  assumes "co_ok w" "srv w s = Some x" "StopConnectionAcceptingSvc s w = Inr w'" "co_acc x = Some a"
  shows "acc_thread a = Some Thread"
proof -
  have off: "\<not> bit_set (co_flags x) 4" using co_okD(5) [OF assms(1,2)] assms(4) by simp
  let ?x = "x\<lparr>co_flags := co_flags x OR 4\<rparr>"
  have "srv (set_co_server s (Some ?x) w) s = Some ?x" using assms(2) by (simp add: co_simps srv_bound)
  from acc_stop_eq [OF this] have "acc_thread a \<noteq> Some NoThread"
    using assms(2-4) off by (auto simp: StopConnectionAcceptingSvc_def co_simps)
  then show ?thesis
    using co_okD(8) [OF assms(1,2,4)] by (metis option.exhaust thread_cell.exhaust)
qed

lemma stop_accepting_ok:
  assumes "co_ok w" "StopConnectionAcceptingSvc s w = Inr w'"
  shows "co_ok w'"
proof -
  obtain x where x: "srv w s = Some x"
    using assms(2) by (auto simp: StopConnectionAcceptingSvc_def IsBitSet_course_def rbind_eq_Inr server_there)
  show ?thesis
  proof (cases "co_acc x")
    case None
    then show ?thesis using assms x co_okD(5) [OF assms(1) x]
      by (simp add: StopConnectionAcceptingSvc_def co_simps)
  next
    case (Some a)
    then show ?thesis
      using stop_accepting [OF assms(1) x Some accepting_stopped [OF assms(1) x assms(2) Some]] assms(2)
      by (simp add: co_simps)
  qed
qed

lemma start_accepting_ok:
  assumes "co_ok w" "StartConnectionAcceptingSvc s fd b w = Inr w'"
  shows "co_ok w'"
proof -
  obtain x where x: "srv w s = Some x"
    using assms(2) by (auto simp: StartConnectionAcceptingSvc_def IsBitSet_course_def rbind_eq_Inr server_there)
  note d = co_okD [OF assms(1) x]
  show ?thesis
  proof (cases "bit_set (co_flags x) 4")
    case False
    then show ?thesis using assms x by (simp add: StartConnectionAcceptingSvc_def co_simps)
  next
    case True
    obtain a where a: "TcpNewConnectionAcceptor_course fd = Inr a" "acc_thread a \<noteq> None"
      using assms(2) x True
      by (auto simp: StartConnectionAcceptingSvc_def co_simps rbind_eq_Inr TcpNewConnectionAcceptor_course_def
          split: if_splits)
    define y where "y = x\<lparr>co_flags := co_flags x AND NOT 4, co_acc := Some a\<rparr>"
    have y: "srv (set_co_server s (Some y) w) s = Some y" using x by (simp add: co_simps srv_bound)
    have "\<not> bit_set (co_flags x AND NOT 4) 4" by (rule own_bit)
    moreover have "bit_set (co_flags x AND NOT 4) 8 = bit_set (co_flags x) 8" by (rule bit_andnot) simp
    ultimately have "server_ok w s y" using d(1) a(2) by (simp add: server_ok_def table_def y_def)
    then have "co_ok (set_co_server s (Some y) w)"
      using assms(1) x by (intro co_ok_set_server) (auto simp: table_def y_def)
    moreover have "StartTcpNewConnectionAcceptorThread_course s b (set_co_server s (Some y) w) = Inr w'"
      using assms(2) x True a(1)
      by (simp add: StartConnectionAcceptingSvc_def co_simps set_co_acc_def srv_bound y_def)
    ultimately show ?thesis using start_acceptor_ok [OF _ y] by blast
  qed
qed

lemma mgr_purge:
  assumes "srv w s = Some x" "co_svc x = Some v" "distinct ps" "mgr_db v = ps"
  shows "co_purge_loop (mgr_purge_one s) ps w = Inr (set_co_server s (Some (x\<lparr>co_svc := Some (v\<lparr>mgr_db := []\<rparr>)\<rparr>)) w)"
  using assms
proof (induction ps arbitrary: w x v)
  case Nil
  have "set_co_server s (Some x) w = w"
    using Nil.prems(1) by (auto simp: set_co_server_def srv_def list_update_id split: if_splits)
      (metis co_world.surjective co_world.update_convs(2) list_update_id)
  moreover have "x\<lparr>co_svc := Some (v\<lparr>mgr_db := []\<rparr>)\<rparr> = x" using Nil.prems by simp
  ultimately show ?case by simp
next
  case (Cons p ps)
  let ?v = "v\<lparr>mgr_db := ps\<rparr>"
  let ?w = "set_co_server s (Some (x\<lparr>co_svc := Some ?v\<rparr>)) w"
  have "removeAll p (p # ps) = ps" "removeAll p ps = ps" using Cons.prems(3) by (simp_all add: removeAll_id)
  then have "mgr_purge_one s p w = Inr ?w"
    using Cons.prems by (simp add: mgr_purge_one_def co_simps)
  moreover have "\<not> (ps \<noteq> [] \<and> hd ps = p)" using Cons.prems(3) by (auto simp: neq_Nil_conv)
  moreover have "co_purge_loop (mgr_purge_one s) ps ?w =
      Inr (set_co_server s (Some (x\<lparr>co_svc := Some (?v\<lparr>mgr_db := []\<rparr>)\<rparr>)) ?w)"
    using Cons.IH [of ?w "x\<lparr>co_svc := Some ?v\<rparr>" ?v] Cons.prems by (simp add: co_simps srv_bound)
  ultimately show ?case using \<open>removeAll p ps = ps\<close> by (simp add: co_simps)
qed

lemma mgr_stop_eq:
  assumes "srv w s = Some x" "co_svc x = Some v" "distinct (mgr_db v)"
  shows "mgr_Stop s w =
    (if mgr_thread v = Some Thread
     then Inr (set_co_server s (Some (x\<lparr>co_svc := Some (v\<lparr>mgr_thread := None, mgr_db := []\<rparr>)\<rparr>)) w)
     else Inl NullDeref)"
proof (cases "mgr_thread v = Some Thread")
  case True
  let ?v = "v\<lparr>mgr_thread := None\<rparr>"
  let ?w = "set_co_server s (Some (x\<lparr>co_svc := Some ?v\<rparr>)) w"
  have "co_purge_loop (mgr_purge_one s) (mgr_db v) ?w =
      Inr (set_co_server s (Some (x\<lparr>co_svc := Some (?v\<lparr>mgr_db := []\<rparr>)\<rparr>)) ?w)"
    using mgr_purge [of ?w s "x\<lparr>co_svc := Some ?v\<rparr>" ?v "mgr_db v"] assms by (simp add: co_simps srv_bound)
  then show ?thesis using assms True
    by (simp add: mgr_Stop_def StopTcpClientServiceManagerThread_course_def co_simps srv_bound)
next
  case False
  then show ?thesis using assms
    by (auto simp: mgr_Stop_def StopTcpClientServiceManagerThread_course_def co_simps
        split: option.splits thread_cell.splits)
qed

lemma stop_listening:
  assumes "co_ok w" "srv w s = Some x" "co_svc x = Some v" "mgr_thread v = Some Thread"
  shows "StopClientSvcMgr_course s w =
      Inr (set_co_server s (Some (x\<lparr>co_flags := co_flags x OR 8, co_svc := None\<rparr>)) w)"
    and "co_ok (set_co_server s (Some (x\<lparr>co_flags := co_flags x OR 8, co_svc := None\<rparr>)) w)"
proof -
  note d = co_okD [OF assms(1,2)]
  have off: "\<not> bit_set (co_flags x) 8" using d(6) assms(3) by simp
  have "mgr_db v = table x" "distinct (table x)"
    using d(7) [OF assms(3)] d(3) by (simp_all add: watches_def owned_def)
  then have "mgr_Stop s w =
      Inr (set_co_server s (Some (x\<lparr>co_svc := Some (v\<lparr>mgr_thread := None, mgr_db := []\<rparr>)\<rparr>)) w)"
    using mgr_stop_eq [OF assms(2,3)] assms(4) by simp
  then show "StopClientSvcMgr_course s w =
      Inr (set_co_server s (Some (x\<lparr>co_flags := co_flags x OR 8, co_svc := None\<rparr>)) w)"
    using assms(2) off by (simp add: StopClientSvcMgr_course_def co_simps srv_bound)
  have "bit_set (co_flags x OR 8) 8" "bit_set (co_flags x OR 8) 4 = bit_set (co_flags x) 4"
    by (simp_all add: bit_or own_bit)
  then have "server_ok w s (x\<lparr>co_flags := co_flags x OR 8, co_svc := None\<rparr>)"
    using d(1) by (simp add: server_ok_def table_def)
  then show "co_ok (set_co_server s (Some (x\<lparr>co_flags := co_flags x OR 8, co_svc := None\<rparr>)) w)"
    using assms(1,2) by (intro co_ok_set_server) (auto simp: table_def)
qed

lemma listening_stopped:
  assumes "co_ok w" "srv w s = Some x" "StopClientSvcMgr_course s w = Inr w'" "co_svc x = Some v"
  shows "mgr_thread v = Some Thread"
proof -
  note d = co_okD [OF assms(1,2)]
  have "mgr_db v = table x" "distinct (table x)"
    using d(7) [OF assms(4)] d(3) by (simp_all add: watches_def owned_def)
  then show ?thesis
    using assms(2-4) d(6) mgr_stop_eq [OF assms(2,4)]
    by (auto simp: StopClientSvcMgr_course_def co_simps split: if_splits)
qed

lemma stop_listening_ok:
  assumes "co_ok w" "StopClientSvcMgr_course s w = Inr w'"
  shows "co_ok w'"
proof -
  obtain x where x: "srv w s = Some x"
    using assms(2) by (auto simp: StopClientSvcMgr_course_def IsBitSet_course_def rbind_eq_Inr server_there)
  show ?thesis
  proof (cases "co_svc x")
    case None
    then show ?thesis using assms x co_okD(6) [OF assms(1) x]
      by (simp add: StopClientSvcMgr_course_def co_simps)
  next
    case (Some v)
    then show ?thesis
      using stop_listening [OF assms(1) x Some listening_stopped [OF assms(1) x assms(2) Some]] assms(2)
      by simp
  qed
qed

lemma start_listening:
  assumes "co_ok w" "srv w s = Some x" "co_svc x = None"
  shows "StartClientSvcMgr_course s w =
      (if fds_fit w (table x)
       then Inr (co_said (''Service started : TcpClientServiceManagerThread'' @ [NL]) (set_co_server s
              (Some (x\<lparr>co_svc := Some (running w (table x)), co_flags := co_flags x AND NOT 8\<rparr>)) w))
       else Inl OutOfBounds)"
    and "co_ok (set_co_server s
      (Some (x\<lparr>co_svc := Some (running w (table x)), co_flags := co_flags x AND NOT 8\<rparr>)) w)"
proof -
  note d = co_okD [OF assms(1,2)]
  have on: "bit_set (co_flags x) 8" using d(6) assms(3) by simp
  define x1 where "x1 = x\<lparr>co_svc := Some TcpClientServiceManager_course\<rparr>"
  define w1 where "w1 = set_co_server s (Some x1) w"
  have 1: "srv w1 s = Some x1" using assms(2) by (simp add: w1_def co_simps srv_bound)
  have "StartTcpClientServiceManagerThread_course s w1 =
    (if fds_fit w1 (table x)
     then Inr (co_said (''Service started : TcpClientServiceManagerThread'' @ [NL])
            (set_co_server s (Some (x1\<lparr>co_svc := Some (running w1 (table x))\<rparr>)) w1))
     else Inl OutOfBounds)"
    by (rule start_thread [OF 1, of TcpClientServiceManager_course])
       (use on d(2,4) in \<open>simp_all add: x1_def TcpClientServiceManager_course_def w1_def co_simps\<close>)
  moreover have "running w1 = running w" by (simp add: running_def fun_eq_iff w1_def co_simps)
  ultimately show "StartClientSvcMgr_course s w =
      (if fds_fit w (table x)
       then Inr (co_said (''Service started : TcpClientServiceManagerThread'' @ [NL]) (set_co_server s
              (Some (x\<lparr>co_svc := Some (running w (table x)), co_flags := co_flags x AND NOT 8\<rparr>)) w))
       else Inl OutOfBounds)"
    using assms(2) on
    by (simp add: StartClientSvcMgr_course_def co_simps srv_bound x1_def w1_def)
  have "\<not> bit_set (co_flags x AND NOT 8) 8" by (rule own_bit)
  moreover have "bit_set (co_flags x AND NOT 8) 4 = bit_set (co_flags x) 4" by (rule bit_andnot) simp
  ultimately have "server_ok w s (x\<lparr>co_svc := Some (running w (table x)), co_flags := co_flags x AND NOT 8\<rparr>)"
    using d(1) by (simp add: server_ok_def table_def watches_running)
  then show "co_ok (set_co_server s
      (Some (x\<lparr>co_svc := Some (running w (table x)), co_flags := co_flags x AND NOT 8\<rparr>)) w)"
    using assms(1,2) by (intro co_ok_set_server) (auto simp: table_def)
qed

lemma start_listening_ok:
  assumes "co_ok w" "StartClientSvcMgr_course s w = Inr w'"
  shows "co_ok w'"
proof -
  obtain x where x: "srv w s = Some x"
    using assms(2) by (auto simp: StartClientSvcMgr_course_def IsBitSet_course_def rbind_eq_Inr server_there)
  show ?thesis
  proof (cases "co_svc x")
    case None
    then show ?thesis using start_listening [OF assms(1) x] assms(2) by (auto simp: co_simps split: if_splits)
  next
    case (Some v)
    then show ?thesis using assms x co_okD(6) [OF assms(1) x]
      by (simp add: StartClientSvcMgr_course_def co_simps)
  qed
qed

section \<open>New servers and new clients\<close>

definition with_client :: "co_client \<Rightarrow> co_world \<Rightarrow> co_world" where
  "with_client c w = w\<lparr>co_heap := co_heap w @ [Some c]\<rparr>"

lemma with_client_reads [co_simps]:
  "srv (with_client c w) = srv w"
  "clt (with_client c w) q = (if q = length (co_heap w) then Some c else clt w q)"
  "length (co_servers (with_client c w)) = length (co_servers w)"
  "length (co_heap (with_client c w)) = Suc (length (co_heap w))"
  "n = length (co_heap w) \<Longrightarrow> set_co_client n (Some d) (with_client c w) = with_client d w"
  "with_client c (co_log e w) = co_log e (with_client c w)"
  "co_raw_flags (with_client c w) = co_raw_flags w" "co_events (with_client c w) = co_events w"
  by (auto simp: with_client_def srv_def clt_def fun_eq_iff nth_append set_co_client_def co_log_def)

lemma fd_of_with_client:
  "q \<noteq> length (co_heap w) \<Longrightarrow> fd_of (with_client c w) q = fd_of w q"
  by (simp add: fd_of_def co_simps)

lemma not_new: "clt w q \<noteq> None \<Longrightarrow> q \<noteq> length (co_heap w)"
  by (auto dest: clt_bound)

lemma owned_live: "owned w s db \<Longrightarrow> p \<in> set db \<Longrightarrow> clt w p \<noteq> None"
  by (auto simp: owned_def)

lemma server_ok_with_client:
  assumes "server_ok w t z"
  shows "server_ok (with_client c w) t z"
proof -
  have live: "\<forall>p \<in> set (table z). p \<noteq> length (co_heap w)"
    using assms not_new [OF owned_live] unfolding server_ok_def by blast
  then have fd: "\<forall>p \<in> set (table z). fd_of (with_client c w) p = fd_of w p"
    by (simp add: fd_of_with_client)
  then have "watches (with_client c w) (table z) v = watches w (table z) v" for v
    by (auto simp: watches_def split: option.split thread_cell.split)
  moreover have "owned w t (table z) \<Longrightarrow> owned (with_client c w) t (table z)"
    using live by (auto simp: owned_def co_simps)
  ultimately show ?thesis using assms by (simp add: server_ok_def)
qed

lemma co_ok_new_client:
  assumes "co_ok w" "srv w s = Some x" "co_svc x \<noteq> None" "co_ctrlr c = Some s" "co_msgd c = None"
  defines "p \<equiv> length (co_heap w)" and "w1 \<equiv> with_client c w"
  shows "co_ok (set_co_server s
    (Some (x\<lparr>co_db := Some (table x @ [p]), co_svc := Some (running w1 (table x @ [p]))\<rparr>)) w1)"
    (is "co_ok (set_co_server s (Some ?y) w1)")
proof -
  note d = co_okD [OF assms(1,2)]
  have tab: "table ?y = table x @ [p]" by (simp add: table_def)
  have "server_ok w1 s x" unfolding w1_def by (rule server_ok_with_client) (rule d(1))
  moreover have "p \<notin> set (table x)" using d(4) not_new [of w p] by (auto simp: p_def)
  ultimately have y: "server_ok w1 s ?y"
    using assms(3-5) by (auto simp: server_ok_def tab owned_def w1_def p_def co_simps watches_running)
  show ?thesis
    unfolding co_ok_def
  proof (intro conjI allI impI)
    fix t z
    assume "srv (set_co_server s (Some ?y) w1) t = Some z"
    then show "server_ok (set_co_server s (Some ?y) w1) t z"
      using y assms(1,2) server_ok_with_client [of w t z c]
      by (auto simp: co_simps co_ok_def srv_bound w1_def split: if_splits)
  next
    fix q e
    assume q: "clt (set_co_server s (Some ?y) w1) q = Some e"
    show "\<exists>t z. co_ctrlr e = Some t \<and> srv (set_co_server s (Some ?y) w1) t = Some z \<and> q \<in> set (table z)"
    proof (cases "q = p")
      case True
      then show ?thesis using q assms(2,4) tab
        by (intro exI [of _ s] exI [of _ ?y]) (auto simp: co_simps w1_def p_def srv_bound)
    next
      case False
      then have "clt w q = Some e" using q by (simp add: co_simps w1_def p_def)
      then obtain t z where t: "co_ctrlr e = Some t" "srv w t = Some z" "q \<in> set (table z)"
        using assms(1) unfolding co_ok_def by blast
      then show ?thesis using assms(2) tab
        by (cases "t = s") (auto simp: co_simps w1_def srv_bound)
    qed
  qed (use assms(1) in \<open>simp add: co_ok_def co_simps w1_def\<close>)
qed

lemma new_server_ok:
  assumes "co_ok w" "TcpServerController_course ip port name fd w = Inr (s, w1)"
    "SetServerNotifCallbacks_course s f g h w1 = Inr w'"
  shows "co_ok w'"
proof -
  define a where "a = \<lparr>acc_fd = fd, acc_thread = Some NoThread, acc_bound = False\<rparr>"
  have a: "acc_thread a \<noteq> None" "s = length (co_servers w)"
    "w1 = w\<lparr>co_servers := co_servers w @
             [Some \<lparr>co_acc = Some a, co_db = Some [], co_svc = Some TcpClientServiceManager_course,
                co_flags = co_raw_flags w OR 1,
                co_srv_ip = network_covert_ip_p_to_n ip, co_srv_port = port, co_name = name,
                co_connected = UnsetHook, co_disconnected = UnsetHook, co_msg_recvd = UnsetHook\<rparr>]\<rparr>"
    using assms(2)
    by (auto simp: TcpServerController_course_def TcpNewConnectionAcceptor_course_def a_def split: if_splits)
  define x where "x = \<lparr>co_acc = Some a, co_db = Some [], co_svc = Some TcpClientServiceManager_course,
                co_flags = co_raw_flags w OR 1,
                co_srv_ip = network_covert_ip_p_to_n ip, co_srv_port = port, co_name = name,
                co_connected = f, co_disconnected = g, co_msg_recvd = h\<rparr>"
  have w': "w' = w\<lparr>co_servers := co_servers w @ [Some x]\<rparr>"
    using assms(3) unfolding a(2,3)
    by (simp add: SetServerNotifCallbacks_course_def upd_co_server_def co_server_at_def set_co_server_def
        nth_append x_def)
  have srv': "srv w' t = (if t = s then Some x else srv w t)" for t
    by (auto simp: srv_def w' nth_append a(2))
  have clt': "clt w' = clt w" by (simp add: clt_def w' fun_eq_iff)
  have fd': "fd_of w' = fd_of w" by (simp add: fd_of_def fun_eq_iff clt')
  have same: "server_ok w' = server_ok w"
    by (auto simp: server_ok_def owned_def watches_def fun_eq_iff clt' fd' split: option.split thread_cell.split)
  have "(co_raw_flags w AND 12) AND 4 = 0" "(co_raw_flags w AND 12) AND 8 = 0"
    using assms(1) by (simp_all add: co_ok_def)
  then have "\<not> bit_set (co_raw_flags w OR 1) 4" "\<not> bit_set (co_raw_flags w OR 1) 8"
    by (simp_all add: bit_or, simp_all add: bit_set_def and.assoc)
  then have x: "server_ok w s x"
    using a(1) by (simp add: server_ok_def x_def table_def owned_def watches_def TcpClientServiceManager_course_def)
  have gone: "srv w s = None" by (simp add: srv_def a(2))
  show ?thesis
    unfolding co_ok_def
  proof (intro conjI allI impI)
    fix t z
    assume "srv w' t = Some z"
    then show "server_ok w' t z" using x assms(1) by (auto simp: srv' same co_ok_def split: if_splits)
  next
    fix q e
    assume "clt w' q = Some e"
    then have "clt w q = Some e" by (simp add: clt')
    then obtain t z where "co_ctrlr e = Some t" "srv w t = Some z" "q \<in> set (table z)"
      using assms(1) unfolding co_ok_def by blast
    then show "\<exists>t z. co_ctrlr e = Some t \<and> srv w' t = Some z \<and> q \<in> set (table z)"
      using gone by (intro exI [of _ t] exI [of _ z]) (auto simp: srv')
  qed (use assms(1) in \<open>simp add: co_ok_def w'\<close>)
qed

text \<open>The client an accepted connection becomes.\<close>

definition accepted :: "co_world \<Rightarrow> sptr \<Rightarrow> co_server \<Rightarrow> int \<Rightarrow> u32 \<Rightarrow> u16 \<Rightarrow> co_client" where
  "accepted w s x fd ip port =
     (co_raw w)\<lparr>co_ip := ip, co_port := port, co_server_ip := co_srv_ip x, co_server_port := co_srv_port x,
       co_ctrlr := Some s, co_fd := fd, co_msgd := None\<rparr>"

lemma listen_eq:
  assumes "srv w s = Some x" "co_svc x = Some v" "co_db x = Some db"
    and "(if bit_set (co_flags x) 8 then (mgr_db v @ [p]) @ db else mgr_db v @ [p]) = ps"
    and "\<forall>q \<in> set ps. clt w q \<noteq> None"
  shows "ClientFDStartListen_course s p w =
    (if mgr_thread v \<noteq> Some Thread then Inl NullDeref
     else if fds_fit w ps
     then Inr (co_said (''Service started : TcpClientServiceManagerThread'' @ [NL])
            (co_said (''Client Svc Mgr Thread is cancelled'' @ [NL])
              (set_co_server s (Some (x\<lparr>co_svc := Some (running w ps)\<rparr>)) w)))
     else Inl OutOfBounds)"
proof (cases "mgr_thread v = Some Thread")
  case True
  let ?m = "''Client Svc Mgr Thread is cancelled'' @ [NL]"
  let ?x = "x\<lparr>co_svc := Some (v\<lparr>mgr_db := mgr_db v @ [p], mgr_thread := Some NoThread\<rparr>)\<rparr>"
  let ?w = "co_said ?m (set_co_server s (Some ?x) w)"
  have 1: "srv ?w s = Some ?x" using assms(1) by (simp add: co_simps srv_bound)
  have "ClientFDStartListen_course s p w = StartTcpClientServiceManagerThread_course s ?w"
    using assms(1,2) True
    by (simp add: ClientFDStartListen_course_def StopTcpClientServiceManagerThread_course_def mgr_AddClientToDB_def
        co_simps srv_bound)
  also have "\<dots> = (if fds_fit ?w ps
     then Inr (co_said (''Service started : TcpClientServiceManagerThread'' @ [NL])
            (set_co_server s (Some (?x\<lparr>co_svc := Some (running ?w ps)\<rparr>)) ?w))
     else Inl OutOfBounds)"
    using assms by (intro start_thread [OF 1]) (auto simp: co_simps)
  also have "running ?w = running w" by (simp add: running_def fun_eq_iff co_simps)
  finally show ?thesis using True by (simp add: co_simps)
next
  case False
  then show ?thesis using assms(1,2)
    by (auto simp: ClientFDStartListen_course_def StopTcpClientServiceManagerThread_course_def co_simps
        split: option.split thread_cell.split)
qed

lemma accept_eq:
  fixes ip :: u32 and port :: u16
  assumes "co_ok w" "srv w s = Some x" "co_acc x \<noteq> None" "0 \<le> fd"
  defines "p \<equiv> length (co_heap w)"
  defines "w1 \<equiv> (if co_connected x = Hook then co_log (Connected s p) else id)
    (with_client (accepted w s x fd ip port) w)"
  shows "co_accept_round s fd ip port w =
    (if co_connected x = UnsetHook then Inl Indeterminate
     else case co_svc x of
       None \<Rightarrow> Inl NullDeref
     | Some v \<Rightarrow>
         if mgr_thread v \<noteq> Some Thread then Inl NullDeref
         else if fds_fit w1 (table x @ [p])
         then Inr (co_said (''Connection Accepted from Client ['' @ network_convert_ip_n_to_p ip @ '', '' @
                show_nat (unat port) @ '']'' @ [NL])
              (co_said (''Service started : TcpClientServiceManagerThread'' @ [NL])
                (co_said (''Client Svc Mgr Thread is cancelled'' @ [NL])
                  (set_co_server s (Some (x\<lparr>co_db := Some (table x @ [p]),
                     co_svc := Some (running w1 (table x @ [p]))\<rparr>)) w1))))
         else Inl OutOfBounds)"
proof (cases "co_connected x = UnsetHook")
  case True
  then show ?thesis using assms(2-4)
    by (auto simp: co_accept_round_def TcpClient_course_def with_client_def [symmetric] co_simps
        co_call_if_set_def hook_set_def)
next
  case False
  note d = co_okD [OF assms(1,2)]
  obtain a where a: "co_acc x = Some a" using assms(3) by auto
  have "co_call_if_set (co_connected x) (Connected s p) (with_client c w) =
      Inr ((if co_connected x = Hook then co_log (Connected s p) else id) (with_client c w))" for c
    using False by (cases "co_connected x") (simp_all add: co_call_if_set_def hook_set_def)
  then have start: "co_accept_round s fd ip port w =
      rbind (ProcessNewClient_course s p w1) (\<lambda>w5.
       Inr (co_said (''Connection Accepted from Client ['' @ network_convert_ip_n_to_p ip @ '', '' @
              show_nat (unat port) @ '']'' @ [NL]) w5))"
    using assms(2,4) a
    by (simp add: co_accept_round_def TcpClient_course_def with_client_def [symmetric] co_simps
        p_def w1_def accepted_def)
  have s1: "srv w1 s = Some x" using assms(2) by (simp add: w1_def co_simps)
  define y where "y = x\<lparr>co_db := Some (table x @ [p])\<rparr>"
  define w2 where "w2 = set_co_server s (Some y) w1"
  have s2: "srv w2 s = Some y" using s1 by (simp add: w2_def co_simps srv_bound)
  have new: "ProcessNewClient_course s p w1 = ClientFDStartListen_course s p w2"
    using s1 d(2) by (simp add: ProcessNewClient_course_def AddClientToDB_course_def set_co_db_def co_simps w2_def y_def)
  show ?thesis
  proof (cases "co_svc x")
    case None
    then have "ClientFDStartListen_course s p w2 = Inl NullDeref" using s2
      by (simp add: ClientFDStartListen_course_def StopTcpClientServiceManagerThread_course_def co_simps y_def)
    then show ?thesis using False None start new by simp
  next
    case (Some v)
    have v: "mgr_db v = table x" using d(7) [OF Some] by (simp add: watches_def)
    have live: "\<forall>q \<in> set (mgr_db v @ [p]). clt w2 q \<noteq> None"
      using d(4) v by (auto simp: w2_def w1_def co_simps p_def)
    have "ClientFDStartListen_course s p w2 =
    (if mgr_thread v \<noteq> Some Thread then Inl NullDeref
     else if fds_fit w2 (mgr_db v @ [p])
     then Inr (co_said (''Service started : TcpClientServiceManagerThread'' @ [NL])
            (co_said (''Client Svc Mgr Thread is cancelled'' @ [NL])
              (set_co_server s (Some (y\<lparr>co_svc := Some (running w2 (mgr_db v @ [p]))\<rparr>)) w2)))
     else Inl OutOfBounds)"
      using Some v d(6) live by (intro listen_eq [OF s2]) (simp_all add: y_def)
    moreover have "running w2 = running w1" "fds_fit w2 = fds_fit w1"
      by (simp_all add: running_def fun_eq_iff w2_def co_simps)
    ultimately show ?thesis using False Some start new v by (simp add: w2_def y_def co_simps)
  qed
qed

lemma accept_ok:
  assumes "co_ok w" "co_accept_round s fd ip port w = Inr w'"
  shows "co_ok w'"
proof -
  obtain x where x: "srv w s = Some x" "co_acc x \<noteq> None"
    using assms(2) by (auto simp: co_accept_round_def co_acc_of_def rbind_eq_Inr server_there split: option.splits)
  show ?thesis
  proof (cases "0 \<le> fd")
    case True
    have "co_ok (set_co_server s (Some (x\<lparr>co_db := Some (table x @ [length (co_heap w)]),
        co_svc := Some (running (with_client (accepted w s x fd ip port) w) (table x @ [length (co_heap w)]))\<rparr>))
        (with_client (accepted w s x fd ip port) w))" if "co_svc x \<noteq> None"
      by (rule co_ok_new_client [OF assms(1) x(1) that]) (simp_all add: accepted_def)
    moreover have "running (co_log e u) = running u" for e u by (simp add: running_def fun_eq_iff co_simps)
    ultimately show ?thesis using assms(2) accept_eq [OF assms(1) x True, of ip port]
      by (auto simp: co_simps id_def split: if_splits option.splits)
  next
    case False
    then show ?thesis using assms x by (auto simp: co_accept_round_def co_simps split: option.splits)
  qed
qed

section \<open>Rounds of the client service\<close>

definition same_objects :: "co_world \<Rightarrow> co_world \<Rightarrow> bool" where
  "same_objects w w' \<longleftrightarrow> co_heap w' = co_heap w \<and> co_servers w' = co_servers w \<and>
     co_raw_flags w' = co_raw_flags w"

lemma same_objects_reads:
  assumes "same_objects w w'"
  shows "clt w' = clt w" "srv w' = srv w" "fd_of w' = fd_of w" "server_ok w' = server_ok w" "co_ok w' = co_ok w"
proof -
  show 1: "clt w' = clt w" "srv w' = srv w" using assms by (simp_all add: same_objects_def clt_def srv_def fun_eq_iff)
  then show 2: "fd_of w' = fd_of w" by (simp add: fd_of_def fun_eq_iff)
  have "watches w' = watches w" by (auto simp: watches_def fun_eq_iff 2 split: option.split thread_cell.split)
  then show 3: "server_ok w' = server_ok w" by (simp add: server_ok_def owned_def fun_eq_iff 1)
  show "co_ok w' = co_ok w" using assms by (simp add: co_ok_def 1 3 same_objects_def)
qed

lemma same_objects_refl [simp]: "same_objects w w"
  by (simp add: same_objects_def)

lemma same_objects_log [simp]:
  "same_objects w (co_log e w') = same_objects w w'" "same_objects (co_log e w) w' = same_objects w w'"
  by (simp_all add: same_objects_def co_log_def)

lemma same_objects_buffer [simp]: "same_objects w (w'\<lparr>client_recv_buffer := b\<rparr>) = same_objects w w'"
  by (simp add: same_objects_def)

lemma mgr_recv_eq:
  assumes "clt w p = Some c" "co_msgd c = None" "srv w s = Some x"
  shows "mgr_recv err s p r w =
    (let buf = (case r of None \<Rightarrow> client_recv_buffer w | Some bs \<Rightarrow> put_at 0 bs (client_recv_buffer w));
         n = word_of_int (recv_count r) :: u16;
         w1 = w\<lparr>client_recv_buffer := buf\<rparr>;
         w2 = (if recv_count r = 0 then co_said (''error no = '' @ show_int err @ [NL]) w1 else w1)
     in co_call_if_set (co_msg_recvd x) (MsgRecvd s p (take (unat n) buf)) w2)"
  using assms by (simp add: mgr_recv_def co_simps)

lemma same_objects_trans: "same_objects u v \<Longrightarrow> same_objects v w \<Longrightarrow> same_objects u w"
  by (simp add: same_objects_def)

lemma call_same: "co_call_if_set h e w = Inr w' \<Longrightarrow> same_objects w w'"
  by (auto simp: co_call_if_set_def rbind_eq_Inr)

lemma mgr_recv_same:
  assumes "mgr_recv err s p r w = Inr w'" "\<forall>c. clt w p = Some c \<longrightarrow> co_msgd c = None"
  shows "same_objects w w'"
proof -
  obtain c x where c: "clt w p = Some c" "srv w s = Some x"
    using assms(1) by (auto simp: mgr_recv_def rbind_eq_Inr co_client_at_clt server_there split: option.splits)
  let ?buf = "case r of None \<Rightarrow> client_recv_buffer w | Some bs \<Rightarrow> put_at 0 bs (client_recv_buffer w)"
  let ?w1 = "w\<lparr>client_recv_buffer := ?buf\<rparr>"
  let ?w2 = "if recv_count r = 0 then co_said (''error no = '' @ show_int err @ [NL]) ?w1 else ?w1"
  have "co_call_if_set (co_msg_recvd x) (MsgRecvd s p (take (unat (word_of_int (recv_count r) :: u16)) ?buf)) ?w2 = Inr w'"
    using mgr_recv_eq [OF c(1) _ c(2), of err r] assms c(1) by (simp add: Let_def)
  then have "same_objects ?w2 w'" by (rule call_same)
  moreover have "same_objects w ?w2" by simp
  ultimately show ?thesis by (rule same_objects_trans [rotated])
qed

lemma clear_same: "clear_recv_buffer n w = Inr w' \<Longrightarrow> same_objects w w'"
  by (auto simp: clear_recv_buffer_def split: option.splits if_splits)

lemma mgr_round_same:
  assumes "mgr_round err s act ans ps n w = Inr (n', w')" "\<forall>p \<in> set ps. \<forall>c. clt w p = Some c \<longrightarrow> co_msgd c = None"
  shows "same_objects w w'"
  using assms
proof (induction ps arbitrary: ans n w)
  case (Cons p ps)
  obtain c where c: "clt w p = Some c"
    using Cons.prems(1) by (auto simp: co_client_at_clt split: option.splits)
  have "\<exists>ans1 n1 w1. same_objects w w1 \<and> mgr_round err s act ans1 ps n1 w1 = Inr (n', w')"
  proof (cases "co_fd c \<in> set act")
    case False
    then show ?thesis using Cons.prems(1) c clear_same by (simp add: co_simps rbind_eq_Inr) blast
  next
    case True
    with Cons.prems(1) c obtain r ans1 u w1 where *: "mgr_recv err s p r w = Inr u"
      "clear_recv_buffer (Some (recv_count r)) u = Inr w1"
      "mgr_round err s act ans1 ps (Some (recv_count r)) w1 = Inr (n', w')"
      by (auto simp: co_simps rbind_eq_Inr split: option.splits)
    have "same_objects w u" using Cons.prems(2) by (intro mgr_recv_same [OF *(1)]) simp
    then show ?thesis using *(3) clear_same [OF *(2)] same_objects_trans by blast
  qed
  then obtain ans1 n1 w1 where w1: "same_objects w w1"
    "mgr_round err s act ans1 ps n1 w1 = Inr (n', w')" by blast
  moreover have "\<forall>p \<in> set ps. \<forall>c. clt w1 p = Some c \<longrightarrow> co_msgd c = None"
    using Cons.prems(2) same_objects_reads(1) [OF w1(1)] by simp
  ultimately show ?case using Cons.IH same_objects_trans by blast
qed simp

lemma round_ok:
  assumes "co_ok w" "mgr_thread_round err s readable ans w = Inr w'"
  shows "co_ok w'"
proof -
  obtain v where "co_svc_of s w = Inr v" using assms(2) by (auto simp: mgr_thread_round_def rbind_eq_Inr)
  then obtain x where x: "srv w s = Some x" "co_svc x = Some v"
    by (auto simp: co_svc_of_def rbind_eq_Inr server_there split: option.splits)
  note d = co_okD [OF assms(1) x(1)]
  have db: "mgr_db v = table x" using d(7) [OF x(2)] by (simp add: watches_def)
  obtain n w1 where r: "mgr_round err s (filter (\<lambda>fd. fd \<le> mgr_max_fd v \<and> fd \<in> set readable) (mgr_fds v))
      ans (mgr_db v) (rcv_bytes v) w = Inr (n, w1)" "upd_co_svc s (\<lambda>v. v\<lparr>rcv_bytes := n\<rparr>) w1 = Inr w'"
    using assms(2) x by (auto simp: mgr_thread_round_def co_simps rbind_eq_Inr)
  have "\<forall>p \<in> set (mgr_db v). \<forall>c. clt w p = Some c \<longrightarrow> co_msgd c = None"
    using d(3) db by (auto simp: owned_def)
  note same = same_objects_reads [OF mgr_round_same [OF r(1) this]]
  have w1: "co_ok w1" "srv w1 s = Some x" using same assms(1) x by auto
  then have w': "w' = set_co_server s (Some (x\<lparr>co_svc := Some (v\<lparr>rcv_bytes := n\<rparr>)\<rparr>)) w1"
    using r(2) x(2) by (simp add: co_simps)
  have "watches w1 (table x) (v\<lparr>rcv_bytes := n\<rparr>)"
    using co_okD(7) [OF w1 x(2)] by (auto simp: watches_def split: option.splits thread_cell.splits)
  then have "server_ok w1 s (x\<lparr>co_svc := Some (v\<lparr>rcv_bytes := n\<rparr>)\<rparr>)"
    using x(2) by (intro server_ok_svc co_okD(1) [OF w1]) auto
  then show ?thesis unfolding w' by (intro co_ok_set_server [OF w1]) (simp_all add: co_simps)
qed

section \<open>Stopping a server\<close>

text \<open>The clients of a list, aborted one after the other.\<close>

definition aborted :: "cptr \<Rightarrow> co_world \<Rightarrow> co_world" where
  "aborted p w = set_co_client p None (if fd_of w p \<noteq> 0 then co_log (ClosedFd (fd_of w p)) w else w)"

fun abort_all :: "cptr list \<Rightarrow> co_world \<Rightarrow> co_world" where
  "abort_all [] w = w"
| "abort_all (p # ps) w = abort_all ps (aborted p w)"

lemma fd_of_aborted: "q \<noteq> p \<Longrightarrow> fd_of (aborted p w) q = fd_of w q"
  by (simp add: aborted_def fd_of_def co_simps)

lemma abort_all_reads:
  "srv (abort_all ps w) = srv w" "co_raw_flags (abort_all ps w) = co_raw_flags w"
  "length (co_servers (abort_all ps w)) = length (co_servers w)"
  "\<forall>p \<in> set ps. clt w p \<noteq> None \<Longrightarrow> distinct ps \<Longrightarrow>
     clt (abort_all ps w) q = (if q \<in> set ps then None else clt w q)"
  "distinct ps \<Longrightarrow> co_events (abort_all ps w) =
     co_events w @ map ClosedFd (filter (\<lambda>fd. fd \<noteq> 0) (map (fd_of w) ps))"
proof -
  show "srv (abort_all ps w) = srv w" "co_raw_flags (abort_all ps w) = co_raw_flags w"
    "length (co_servers (abort_all ps w)) = length (co_servers w)"
    by (induction ps arbitrary: w; simp add: aborted_def fun_eq_iff co_simps)+
  show "\<forall>p \<in> set ps. clt w p \<noteq> None \<Longrightarrow> distinct ps \<Longrightarrow>
     clt (abort_all ps w) q = (if q \<in> set ps then None else clt w q)"
  proof (induction ps arbitrary: w)
    case (Cons p ps)
    have p: "p < length (co_heap w)" using Cons.prems(1) by (auto dest: clt_bound)
    have 1: "clt (aborted p w) r = (if r = p then None else clt w r)" for r
      using p by (simp add: aborted_def co_simps)
    then have "\<forall>r \<in> set ps. clt (aborted p w) r \<noteq> None" using Cons.prems by auto
    then show ?case using Cons.IH [of "aborted p w"] Cons.prems 1 by auto
  qed simp
  show "distinct ps \<Longrightarrow> co_events (abort_all ps w) =
     co_events w @ map ClosedFd (filter (\<lambda>fd. fd \<noteq> 0) (map (fd_of w) ps))"
  proof (induction ps arbitrary: w)
    case (Cons p ps)
    have "map (fd_of (aborted p w)) ps = map (fd_of w) ps" using Cons.prems by (intro map_cong refl fd_of_aborted) auto
    moreover have "co_events (aborted p w) = co_events w @ (if fd_of w p = 0 then [] else [ClosedFd (fd_of w p)])"
      by (simp add: aborted_def co_simps)
    ultimately show ?case using Cons.IH [of "aborted p w"] Cons.prems by (simp del: map_eq_conv)
  qed simp
qed

lemma abort_all_set_server:
  "set_co_server s x (abort_all ps w) = abort_all ps (set_co_server s x w)"
  by (induction ps arbitrary: w) (simp_all add: aborted_def co_simps)

lemma db_purge:
  assumes "srv w s = Some x" "co_db x = Some ps" "distinct ps"
    and "\<forall>p \<in> set ps. \<exists>c. clt w p = Some c \<and> co_msgd c = None"
  shows "co_purge_loop (db_purge_one s) ps w = Inr (abort_all ps (set_co_server s (Some (x\<lparr>co_db := Some []\<rparr>)) w))"
  using assms
proof (induction ps arbitrary: w x)
  case Nil
  have "set_co_server s (Some x) w = w"
    using Nil.prems(1) by (auto simp: set_co_server_def srv_def list_update_id split: if_splits)
      (metis co_world.surjective co_world.update_convs(2) list_update_id)
  moreover have "x\<lparr>co_db := Some []\<rparr> = x" using Nil.prems by simp
  ultimately show ?case by simp
next
  case (Cons p ps)
  obtain c where c: "clt w p = Some c" "co_msgd c = None" using Cons.prems(4) by auto
  let ?x = "x\<lparr>co_db := Some ps\<rparr>"
  let ?w = "aborted p (set_co_server s (Some ?x) w)"
  have ps: "removeAll p (p # ps) = ps" "removeAll p ps = ps" using Cons.prems(3) by (simp_all add: removeAll_id)
  then have "db_purge_one s p w = Inr ?w"
    using Cons.prems(1,2) c
    by (simp add: db_purge_one_def set_co_db_def co_simps Abort_course_def aborted_def fd_of_def)
  moreover have "\<not> (ps \<noteq> [] \<and> hd ps = p)" using Cons.prems(3) by (auto simp: neq_Nil_conv)
  moreover have "co_purge_loop (db_purge_one s) ps ?w =
      Inr (abort_all ps (set_co_server s (Some (?x\<lparr>co_db := Some []\<rparr>)) ?w))"
    using Cons.prems by (intro Cons.IH) (auto simp: aborted_def co_simps srv_bound)
  moreover have "set_co_server s (Some (?x\<lparr>co_db := Some []\<rparr>)) ?w =
      aborted p (set_co_server s (Some (x\<lparr>co_db := Some []\<rparr>)) w)"
    by (simp add: aborted_def co_simps)
  ultimately show ?case using ps(2) by simp
qed

text \<open>A server that has not been started has parts that no stop survives.\<close>

definition acc_runs :: "co_server \<Rightarrow> bool" where
  "acc_runs x \<longleftrightarrow> (\<forall>a. co_acc x = Some a \<longrightarrow> acc_thread a = Some Thread)"

definition svc_runs :: "co_server \<Rightarrow> bool" where
  "svc_runs x \<longleftrightarrow> (\<forall>v. co_svc x = Some v \<longrightarrow> mgr_thread v = Some Thread)"

definition closes_acceptor :: "co_server \<Rightarrow> co_world \<Rightarrow> co_world" where
  "closes_acceptor x w = (case co_acc x of None \<Rightarrow> w | Some a \<Rightarrow> co_log (ClosedFd (acc_fd a)) w)"

lemma closes_acceptor_reads [co_simps]:
  "set_co_server s y (closes_acceptor x w) = closes_acceptor x (set_co_server s y w)"
  "srv (closes_acceptor x w) = srv w" "clt (closes_acceptor x w) = clt w"
  "fd_of (closes_acceptor x w) = fd_of w" "co_ok (closes_acceptor x w) = co_ok w"
  "length (co_servers (closes_acceptor x w)) = length (co_servers w)"
  "co_raw_flags (closes_acceptor x w) = co_raw_flags w"
  by (auto simp: closes_acceptor_def fun_eq_iff co_simps split: option.split)

lemma stop_first:
  assumes "co_ok w" "srv w s = Some x" "acc_runs x"
  obtains y where "(if co_acc x = None then Inr w
      else rbind (StopConnectionAcceptingSvc s w) (SetBit_course s 4)) =
        Inr (closes_acceptor x (set_co_server s (Some y) w))"
    "co_ok (set_co_server s (Some y) w)" "co_acc y = None" "co_svc y = co_svc x" "co_db y = co_db x"
proof (cases "co_acc x")
  case None
  have "set_co_server s (Some x) w = w"
    using assms(2) by (auto simp: set_co_server_def srv_def list_update_id split: if_splits)
      (metis co_world.surjective co_world.update_convs(2) list_update_id)
  with None show thesis using that [of x] assms(1) by (simp add: closes_acceptor_def)
next
  case (Some a)
  have a: "acc_thread a = Some Thread" using assms(3) Some by (simp add: acc_runs_def)
  note st = stop_accepting [OF assms(1,2) Some a]
  let ?y = "x\<lparr>co_flags := co_flags x OR 4, co_acc := None\<rparr>"
  have "SetBit_course s 4 (co_log (ClosedFd (acc_fd a)) (set_co_server s (Some ?y) w)) =
      Inr (co_log (ClosedFd (acc_fd a)) (set_co_server s (Some ?y) w))"
    using assms(2) by (cases x) (simp add: co_simps srv_bound)
  then show thesis using that [of ?y] st Some by (simp add: closes_acceptor_def)
qed

lemma stop_second:
  assumes "co_ok w" "srv w s = Some x" "svc_runs x"
  obtains y where "(if co_svc x = None then Inr w
      else rbind (StopClientSvcMgr_course s w) (SetBit_course s 8)) = Inr (set_co_server s (Some y) w)"
    "co_ok (set_co_server s (Some y) w)" "co_acc y = co_acc x" "co_svc y = None" "co_db y = co_db x"
proof (cases "co_svc x")
  case None
  have "set_co_server s (Some x) w = w"
    using assms(2) by (auto simp: set_co_server_def srv_def list_update_id split: if_splits)
      (metis co_world.surjective co_world.update_convs(2) list_update_id)
  with None show thesis using that [of x] assms(1) by simp
next
  case (Some v)
  have v: "mgr_thread v = Some Thread" using assms(3) Some by (simp add: svc_runs_def)
  note st = stop_listening [OF assms(1,2) Some v]
  let ?y = "x\<lparr>co_flags := co_flags x OR 8, co_svc := None\<rparr>"
  have "SetBit_course s 8 (set_co_server s (Some ?y) w) = Inr (set_co_server s (Some ?y) w)"
    using assms(2) by (cases x) (simp add: co_simps srv_bound)
  then show thesis using that [of ?y] st Some by simp
qed

lemma stop_eq:
  assumes "co_ok w" "srv w s = Some x" "acc_runs x" "svc_runs x"
  shows "Stop_course s w = Inr (abort_all (table x) (closes_acceptor x (set_co_server s None w)))"
proof -
  obtain y where y: "(if co_acc x = None then Inr w
      else rbind (StopConnectionAcceptingSvc s w) (SetBit_course s 4)) =
        Inr (closes_acceptor x (set_co_server s (Some y) w))"
    "co_ok (set_co_server s (Some y) w)" "co_acc y = None" "co_svc y = co_svc x" "co_db y = co_db x"
    by (rule stop_first [OF assms(1-3)])
  define w1 where "w1 = closes_acceptor x (set_co_server s (Some y) w)"
  have w1: "co_ok w1" "srv w1 s = Some y" "svc_runs y"
    using y assms(2,4) by (simp_all add: w1_def co_simps srv_bound svc_runs_def)
  obtain z where z: "(if co_svc y = None then Inr w1
      else rbind (StopClientSvcMgr_course s w1) (SetBit_course s 8)) = Inr (set_co_server s (Some z) w1)"
    "co_ok (set_co_server s (Some z) w1)" "co_acc z = None" "co_svc z = None" "co_db z = co_db x"
    using stop_second [OF w1] y(3,5) by metis
  define w2 where "w2 = set_co_server s (Some z) w1"
  have s2: "srv w2 s = Some z" using w1(2) by (simp add: w2_def co_simps srv_bound)
  have db: "co_db x = Some (table x)" "distinct (table x)"
    "\<forall>p \<in> set (table x). \<exists>c. clt w2 p = Some c \<and> co_msgd c = None"
    using co_okD(2,3) [OF assms(1,2)] by (auto simp: owned_def w2_def w1_def co_simps)
  have "Purge_course s w2 = Inr (abort_all (table x) (set_co_server s (Some (z\<lparr>co_db := Some []\<rparr>)) w2))"
    using s2 z(5) db(1) db_purge [OF s2 _ db(2,3)] by (simp add: Purge_course_def co_simps)
  moreover define w3 where "w3 = abort_all (table x) (set_co_server s (Some (z\<lparr>co_db := Some []\<rparr>)) w2)"
  moreover have s3: "srv w3 s = Some (z\<lparr>co_db := Some []\<rparr>)"
    using s2 by (simp add: w3_def abort_all_reads co_simps srv_bound)
  ultimately have "rbind (Purge_course s w2) (\<lambda>w3. rbind (set_co_db s None w3) (\<lambda>w4.
      rbind (UnSetBit_course s 2 w4) (delete_controller s))) = Inr (set_co_server s None w3)"
    using z(3,4) by (simp add: set_co_db_def co_simps srv_bound delete_controller_def)
  moreover have "set_co_server s None w3 = abort_all (table x) (closes_acceptor x (set_co_server s None w))"
    by (simp add: w3_def abort_all_set_server w2_def w1_def co_simps)
  moreover have "co_server_at w s = Inr x" "co_server_at w1 s = Inr y" using assms(2) w1(2) by (simp_all add: co_simps)
  ultimately show ?thesis using y(1) z(1) unfolding Stop_course_def w1_def [symmetric] w2_def [symmetric] by simp
qed

lemma stop_keeps:
  assumes "co_ok w" "srv w s = Some x"
  shows "co_ok (abort_all (table x) (closes_acceptor x (set_co_server s None w)))" (is "co_ok ?w")
proof -
  note d = co_okD [OF assms]
  have own: "distinct (table x)" using d(3) by (simp add: owned_def)
  have srv': "srv ?w t = (if t = s then None else srv w t)" for t
    using assms(2) by (simp add: abort_all_reads co_simps srv_bound)
  have clt': "clt ?w q = (if q \<in> set (table x) then None else clt w q)" for q
    using d(4) own by (simp add: abort_all_reads co_simps)
  have mine: "co_ctrlr c = Some t \<Longrightarrow> clt w q = Some c \<Longrightarrow> q \<in> set (table x) \<longleftrightarrow> t = s" for q c t
  proof -
    assume c: "co_ctrlr c = Some t" "clt w q = Some c"
    then obtain z where "srv w t = Some z" "q \<in> set (table z)" using assms(1) by (fastforce simp: co_ok_def)
    then show "q \<in> set (table x) \<longleftrightarrow> t = s" using c d(3) assms(2) by (auto simp: owned_def)
  qed
  show ?thesis
    unfolding co_ok_def
  proof (intro conjI allI impI)
    fix t z
    assume "srv ?w t = Some z"
    then have t: "t \<noteq> s" "srv w t = Some z" by (auto simp: srv' split: if_splits)
    note e = co_okD [OF assms(1) t(2)]
    have other: "p \<in> set (table z) \<Longrightarrow> p \<notin> set (table x)" for p
      using e(3) t(1) mine by (fastforce simp: owned_def)
    then have "clt ?w p = clt w p" if "p \<in> set (table z)" for p using that by (simp add: clt')
    moreover from this have "fd_of ?w p = fd_of w p" if "p \<in> set (table z)" for p
      using that by (simp add: fd_of_def)
    ultimately have "owned ?w t (table z)" "watches ?w (table z) v = watches w (table z) v" for v
      using e(3) by (auto simp: owned_def watches_def split: option.split thread_cell.split)
    then show "server_ok ?w t z" using e(1) by (simp add: server_ok_def)
  next
    fix q c
    assume "clt ?w q = Some c"
    then have q: "q \<notin> set (table x)" "clt w q = Some c" by (auto simp: clt' split: if_splits)
    then obtain t z where t: "co_ctrlr c = Some t" "srv w t = Some z" "q \<in> set (table z)"
      using assms(1) unfolding co_ok_def by blast
    then show "\<exists>t z. co_ctrlr c = Some t \<and> srv ?w t = Some z \<and> q \<in> set (table z)"
      using mine [OF t(1) q(2)] q(1) by (auto simp: srv')
  qed (use assms(1) in \<open>simp add: co_ok_def abort_all_reads co_simps\<close>)
qed

lemma stop_survived:
  assumes "co_ok w" "srv w s = Some x" "Stop_course s w = Inr w'"
  shows "acc_runs x" "svc_runs x"
proof -
  note x = assms(2)
  show acc: "acc_runs x"
    unfolding acc_runs_def
  proof (intro allI impI)
    fix a
    assume a: "co_acc x = Some a"
    then obtain w1 where "StopConnectionAcceptingSvc s w = Inr w1"
      using assms(3) x by (auto simp: Stop_course_def rbind_eq_Inr co_simps)
    then show "acc_thread a = Some Thread" by (rule accepting_stopped [OF assms(1) x _ a])
  qed
  obtain y where y: "(if co_acc x = None then Inr w
      else rbind (StopConnectionAcceptingSvc s w) (SetBit_course s 4)) =
        Inr (closes_acceptor x (set_co_server s (Some y) w))"
    "co_ok (set_co_server s (Some y) w)" "co_acc y = None" "co_svc y = co_svc x" "co_db y = co_db x"
    by (rule stop_first [OF assms(1) x acc])
  define w1 where "w1 = closes_acceptor x (set_co_server s (Some y) w)"
  have w1: "co_ok w1" "srv w1 s = Some y" using y(2) x by (simp_all add: w1_def co_simps srv_bound)
  show "svc_runs x"
    unfolding svc_runs_def
  proof (intro allI impI)
    fix v
    assume v: "co_svc x = Some v"
    have "co_server_at w s = Inr x" "co_server_at w1 s = Inr y" using x w1(2) by (simp_all add: co_simps)
    then obtain w2 where "StopClientSvcMgr_course s w1 = Inr w2"
      using assms(3) y(1,4) v unfolding Stop_course_def w1_def [symmetric] by (auto simp: rbind_eq_Inr)
    then show "mgr_thread v = Some Thread" using v y(4) by (intro listening_stopped [OF w1]) simp_all
  qed
qed

text \<open>Stopping a server of which one part was never started cancels a thread that does not exist.\<close>

lemma stop_unstarted:
  assumes "co_ok w" "srv w s = Some x" "\<not> (acc_runs x \<and> svc_runs x)"
  shows "Stop_course s w = Inl NullDeref"
proof (cases "acc_runs x")
  case False
  then obtain a where a: "co_acc x = Some a" "acc_thread a \<noteq> Some Thread" by (auto simp: acc_runs_def)
  then have t: "acc_thread a = Some NoThread"
    using co_okD(8) [OF assms(1,2) a(1)] by (metis option.exhaust thread_cell.exhaust)
  have off: "\<not> bit_set (co_flags x) 4" using co_okD(5) [OF assms(1,2)] a(1) by simp
  have "srv (set_co_server s (Some (x\<lparr>co_flags := co_flags x OR 4\<rparr>)) w) s = Some (x\<lparr>co_flags := co_flags x OR 4\<rparr>)"
    using assms(2) by (simp add: co_simps srv_bound)
  from acc_stop_eq [OF this] have "StopConnectionAcceptingSvc s w = Inl NullDeref"
    using assms(2) a(1) off t by (simp add: StopConnectionAcceptingSvc_def co_simps)
  then show ?thesis using assms(2) a(1) by (simp add: Stop_course_def co_simps)
next
  case True
  then obtain v where v: "co_svc x = Some v" "mgr_thread v \<noteq> Some Thread"
    using assms(3) by (auto simp: svc_runs_def)
  obtain y where y: "(if co_acc x = None then Inr w
      else rbind (StopConnectionAcceptingSvc s w) (SetBit_course s 4)) =
        Inr (closes_acceptor x (set_co_server s (Some y) w))"
    "co_ok (set_co_server s (Some y) w)" "co_acc y = None" "co_svc y = co_svc x" "co_db y = co_db x"
    by (rule stop_first [OF assms(1,2) True])
  define w1 where "w1 = closes_acceptor x (set_co_server s (Some y) w)"
  have w1: "co_ok w1" "srv w1 s = Some y" using y(2) assms(2) by (simp_all add: w1_def co_simps srv_bound)
  have "watches w1 (table y) v" using co_okD(7) [OF w1] v(1) y(4) by simp
  then have t: "mgr_thread v = Some NoThread"
    using v(2) by (auto simp: watches_def split: option.splits thread_cell.splits)
  have "\<not> bit_set (co_flags y) 8" using co_okD(6) [OF w1] v(1) y(4) by simp
  then have "StopClientSvcMgr_course s w1 = Inl NullDeref"
    using w1(2) v(1) y(4) t
    by (simp add: StopClientSvcMgr_course_def mgr_Stop_def StopTcpClientServiceManagerThread_course_def co_simps)
  moreover have "co_server_at w s = Inr x" "co_server_at w1 s = Inr y"
    using assms(2) w1(2) by (simp_all add: co_simps)
  ultimately show ?thesis
    using y(1,4) v(1) unfolding Stop_course_def w1_def [symmetric] by simp
qed

lemma Stop_ok:
  assumes "co_ok w" "Stop_course s w = Inr w'"
  shows "co_ok w'"
proof -
  obtain x where x: "srv w s = Some x"
    using assms(2) by (auto simp: Stop_course_def rbind_eq_Inr server_there)
  show ?thesis
    using stop_eq [OF assms(1) x stop_survived [OF assms(1) x assms(2)]] stop_keeps [OF assms(1) x] assms(2)
    by simp
qed

end
