(* ===== verification/CourseProps.thy ===== *)
theory CourseProps
  imports CourseInv TcpCliProps
begin

text \<open>
  The steps of the program under \<^verbatim>\<open>Course\<close> and its properties: what every reached state
  satisfies, what an accepted connection, a round of the client service and the stop of a server
  do, and where this edition fails.
\<close>

section \<open>Steps\<close>

text \<open>
  A command of the shell, a connection taken by the thread of an acceptor, or a round of the
  thread of a client service.
\<close>

inductive co_step :: "co_app \<Rightarrow> co_app \<Rightarrow> bool" where
  configured: "config_tcp_server_handler_course fd ok b m a = Inr (a', rc) \<Longrightarrow> co_step a a'"
| shown: "show_tcp_server_handler_course b m a = Inr (a', rc) \<Longrightarrow> co_step a a'"
| accepted_client: "co_acc_of s (co_world_of a) = Inr k \<Longrightarrow> acc_thread k = Some Thread \<Longrightarrow>
    co_accept_round s fd ip port (co_world_of a) = Inr w \<Longrightarrow> co_step a (a\<lparr>co_world_of := w\<rparr>)"
| round: "co_svc_of s (co_world_of a) = Inr v \<Longrightarrow> mgr_thread v = Some Thread \<Longrightarrow>
    mgr_thread_round err s readable answers (co_world_of a) = Inr w \<Longrightarrow> co_step a (a\<lparr>co_world_of := w\<rparr>)"

text \<open>The start of the program.\<close>

definition co_fresh :: "co_app \<Rightarrow> bool" where
  "co_fresh a \<longleftrightarrow> co_server_lst a = [] \<and> co_servers (co_world_of a) = [] \<and> co_heap (co_world_of a) = []"

text \<open>
  A new server takes its flags over from the memory it gets. This is the case in which two bits of
  that memory happen to be clear; what happens otherwise is \<open>uninitialised_flag_lists_twice\<close>.
\<close>

definition memory_bits_clear :: "co_app \<Rightarrow> bool" where
  "memory_bits_clear a \<longleftrightarrow>
     \<not> bit_set (co_raw_flags (co_world_of a)) TCP_SERVER_NOT_ACCEPTING_NEW_CONNECTIONS \<and>
     \<not> bit_set (co_raw_flags (co_world_of a)) TCP_SERVER_NOT_LISTENING_CLIENTS"

abbreviation app_ok :: "co_app \<Rightarrow> bool" where
  "app_ok a \<equiv> co_ok (co_world_of a)"

lemma fresh_ok: "co_fresh a \<Longrightarrow> memory_bits_clear a \<Longrightarrow> app_ok a"
proof -
  assume f: "co_fresh a" "memory_bits_clear a"
  let ?f = "co_raw_flags (co_world_of a)"
  have "?f AND 4 = 0" "?f AND 8 = 0" using f(2) by (simp_all add: memory_bits_clear_def bit_set_def)
  then have "?f AND (4 OR 8) = 0" by (simp only: bit.conj_disj_distrib or.left_neutral)
  then show "app_ok a" using f(1) by (simp add: co_fresh_def co_ok_def srv_def clt_def)
qed

lemma display_same:
  assumes "foldl (\<lambda>m p. rbind m (Display_course p)) (Inr w) ps = Inr w'"
  shows "same_objects w w'"
  using assms
proof (induction ps arbitrary: w' rule: rev_induct)
  case (snoc p ps)
  then obtain u where u: "foldl (\<lambda>m p. rbind m (Display_course p)) (Inr w) ps = Inr u"
    "Display_course p u = Inr w'"
    by (auto simp: rbind_eq_Inr)
  have "same_objects u w'" using u(2) by (auto simp: Display_course_def rbind_eq_Inr)
  then show ?case using snoc.IH [OF u(1)] same_objects_trans by blast
qed simp

lemma display_ok:
  assumes "co_ok w" "Display_server_course s w = Inr w'"
  shows "co_ok w'"
proof -
  have "same_objects w w'"
    using assms(2)
    by (auto simp: Display_server_course_def DisplayClientDb_course_def rbind_eq_Inr Let_def
        dest!: display_same split: if_splits)
  then show ?thesis using same_objects_reads(5) assms(1) by simp
qed

lemma app_said_ok [simp]: "app_ok (co_app_said t a) = app_ok a"
  by (simp add: co_app_said_def co_simps)

lemma on_world_ok:
  assumes "on_co_world f a = Inr (a', rc)" "app_ok a" "\<And>w w'. co_ok w \<Longrightarrow> f w = Inr w' \<Longrightarrow> co_ok w'"
  shows "app_ok a'"
  using assms by (auto simp: on_co_world_def rbind_eq_Inr)

lemma with_server_ok:
  assumes "with_co_server n f a = Inr (a', rc)" "app_ok a" "\<And>s. f s a = Inr (a', rc) \<Longrightarrow> app_ok a'"
  shows "app_ok a'"
  using assms by (auto simp: with_co_server_def rbind_eq_Inr split: option.splits)

lemma config_ok:
  assumes "config_tcp_server_handler_course fd ok b m a = Inr (a', rc)" "app_ok a"
  shows "app_ok a'"
proof -
  obtain code ts where 1: "EXTRACT_CMD_CODE b = Inr code" "TLV_LOOP b = Inr ts"
    using assms(1) by (auto simp: config_tcp_server_handler_course_def rbind_eq_Inr)
  define g where "g = co_config_leaves ts co_default_args"
  note h = assms(1) [unfolded config_tcp_server_handler_course_def 1 rbind_Inr Let_def g_def [symmetric]]
  consider "code = 1" | "code = 2" | "code = 4" | "code = 5" | "code = 6" | "code \<notin> {1, 2, 4, 5, 6}" by auto
  then show ?thesis
  proof cases
    case 1
    then show ?thesis using h assms(2)
      by (auto simp: co_create_server_def rbind_eq_Inr split: option.splits intro: new_server_ok)
  next
    case 2
    then have "with_co_server (arg_name g) (\<lambda>s. on_co_world (Start_course s ok)) a = Inr (a', rc)" using h by simp
    then show ?thesis by (rule with_server_ok [OF _ assms(2)]) (rule on_world_ok [OF _ assms(2) Start_ok])
  next
    case 3
    then have "with_co_server (arg_name g)
      (\<lambda>s. by_op_mode m (StopConnectionAcceptingSvc s) (StartConnectionAcceptingSvc s fd ok)) a = Inr (a', rc)"
      using h by simp
    then show ?thesis
      by (rule with_server_ok [OF _ assms(2)])
         (use assms(2) in \<open>auto simp: by_op_mode_def split: op_mode.splits
           intro: on_world_ok stop_accepting_ok start_accepting_ok\<close>)
  next
    case 4
    then have "with_co_server (arg_name g)
      (\<lambda>s. by_op_mode m (StopClientSvcMgr_course s) (StartClientSvcMgr_course s)) a = Inr (a', rc)"
      using h by simp
    then show ?thesis
      by (rule with_server_ok [OF _ assms(2)])
         (use assms(2) in \<open>auto simp: by_op_mode_def split: op_mode.splits
           intro: on_world_ok stop_listening_ok start_listening_ok\<close>)
  next
    case 5
    then have "with_co_server (arg_name g) (co_stop_server m) a = Inr (a', rc)" using h by simp
    then show ?thesis
      by (rule with_server_ok [OF _ assms(2)])
         (use assms(2) in \<open>auto simp: co_stop_server_def split: op_mode.splits intro: on_world_ok Stop_ok\<close>)
  next
    case 6
    then show ?thesis using h assms(2) by simp
  qed
qed

lemma show_ok:
  assumes "show_tcp_server_handler_course b m a = Inr (a', rc)" "app_ok a"
  shows "app_ok a'"
proof -
  obtain code ts where 1: "EXTRACT_CMD_CODE b = Inr code" "TLV_LOOP b = Inr ts"
    using assms(1) by (auto simp: show_tcp_server_handler_course_def rbind_eq_Inr)
  show ?thesis
  proof (cases "code = 3")
    case True
    then have "with_co_server (co_show_leaves ts None) (\<lambda>s. on_co_world (Display_server_course s)) a = Inr (a', rc)"
      using assms(1) 1 by (simp add: show_tcp_server_handler_course_def)
    then show ?thesis by (rule with_server_ok [OF _ assms(2)]) (rule on_world_ok [OF _ assms(2) display_ok])
  next
    case False
    then show ?thesis using assms 1 by (simp add: show_tcp_server_handler_course_def)
  qed
qed

lemma step_ok: "co_step a a' \<Longrightarrow> app_ok a \<Longrightarrow> app_ok a'"
  by (induction rule: co_step.induct) (auto intro: config_ok show_ok accept_ok round_ok)

lemma reached_ok:
  assumes "co_step\<^sup>*\<^sup>* a0 a" "co_fresh a0" "memory_bits_clear a0"
  shows "app_ok a"
  using assms by (induction rule: rtranclp_induct) (auto intro: fresh_ok step_ok)

section \<open>Rounds\<close>

text \<open>
  The clients that have something to read are served in the order of the list, each with one call
  of the callback.
\<close>

lemma recv_ready:
  assumes c: "clt w p = Some c" "co_msgd c = None" and x: "srv w s = Some x" "co_msg_recvd x = Hook"
    and bs: "bs \<noteq> []" "length bs \<le> 1024" and buf: "length (client_recv_buffer w) = 1024"
  obtains w1 w2 where "mgr_recv err s p (Some bs) w = Inr w1"
    "clear_recv_buffer (Some (recv_count (Some bs))) w1 = Inr w2"
    "same_objects w w2" "co_events w2 = co_events w @ [MsgRecvd s p bs]" "length (client_recv_buffer w2) = 1024"
proof -
  let ?buf = "put_at 0 bs (client_recv_buffer w)"
  let ?w1 = "co_log (MsgRecvd s p bs) (w\<lparr>client_recv_buffer := ?buf\<rparr>)"
  have n: "unat (word_of_int (int (length bs)) :: u16) = length bs" using bs(2) by (simp add: unat_of_nat)
  have len: "length ?buf = 1024" using bs(2) buf by simp
  have "take (length bs) ?buf = bs" by (simp add: put_at_def)
  then have 1: "mgr_recv err s p (Some bs) w = Inr ?w1"
    using mgr_recv_eq [OF c x(1), of err "Some bs"] bs(1) x(2) n
    by (simp add: recv_count_def Let_def co_call_if_set_def hook_set_def)
  let ?w2 = "?w1\<lparr>client_recv_buffer := put_at 0 (replicate (length bs) 0) ?buf\<rparr>"
  have 2: "clear_recv_buffer (Some (recv_count (Some bs))) ?w1 = Inr ?w2"
    using bs(2) len by (simp add: clear_recv_buffer_def recv_count_def co_simps)
  show thesis
  proof (rule that [OF 1 2])
    show "length (client_recv_buffer ?w2) = 1024" using len bs(2) by simp
  qed (simp_all add: co_log_def same_objects_def)
qed

lemma clear_ready:
  assumes "0 \<le> k" "k \<le> 1024" "length (client_recv_buffer w) = 1024"
  obtains w1 where "clear_recv_buffer (Some k) w = Inr w1" "same_objects w w1" "co_events w1 = co_events w"
    "length (client_recv_buffer w1) = 1024"
proof -
  let ?w1 = "w\<lparr>client_recv_buffer := put_at 0 (replicate (nat k) 0) (client_recv_buffer w)\<rparr>"
  have "clear_recv_buffer (Some k) w = Inr ?w1" using assms by (simp add: clear_recv_buffer_def)
  then show thesis by (rule that) (use assms in simp_all)
qed

lemma round_ready:
  assumes "\<forall>p \<in> set ps. \<exists>c. clt w p = Some c \<and> co_msgd c = None" "srv w s = Some x" "co_msg_recvd x = Hook"
    and "\<forall>p \<in> set ps. fd_of w p \<in> set act \<longleftrightarrow> ready p"
    and "\<forall>p \<in> set ps. d p \<noteq> [] \<and> length (d p) \<le> 1024" "length (client_recv_buffer w) = 1024"
    and "\<forall>k. n = Some k \<longrightarrow> 0 \<le> k \<and> k \<le> 1024" "n = None \<and> ps \<noteq> [] \<longrightarrow> ready (hd ps)"
  shows "\<exists>n' w'. mgr_round err s act (map (\<lambda>p. (fd_of w p, Some (d p))) (filter ready ps)) ps n w = Inr (n', w') \<and>
     same_objects w w' \<and> co_events w' = co_events w @ map (\<lambda>p. MsgRecvd s p (d p)) (filter ready ps) \<and>
     length (client_recv_buffer w') = 1024"
  using assms
proof (induction ps arbitrary: w n)
  case (Cons p ps)
  obtain c where c: "clt w p = Some c" "co_msgd c = None" using Cons.prems(1) by auto
  have fd: "co_fd c = fd_of w p" using c(1) by (simp add: fd_of_def)
  have next_round: "\<exists>n' w'. mgr_round err s act (map (\<lambda>p. (fd_of w p, Some (d p))) (filter ready ps)) ps m w1 = Inr (n', w') \<and>
     same_objects w w' \<and> co_events w' = co_events w1 @ map (\<lambda>p. MsgRecvd s p (d p)) (filter ready ps) \<and>
     length (client_recv_buffer w') = 1024"
    if same: "same_objects w w1" and "length (client_recv_buffer w1) = 1024" "m = Some k" "0 \<le> k" "k \<le> 1024" for m k w1
  proof -
    note r = same_objects_reads [OF same]
    have "\<exists>n' w'. mgr_round err s act (map (\<lambda>p. (fd_of w1 p, Some (d p))) (filter ready ps)) ps m w1 = Inr (n', w') \<and>
       same_objects w1 w' \<and> co_events w' = co_events w1 @ map (\<lambda>p. MsgRecvd s p (d p)) (filter ready ps) \<and>
       length (client_recv_buffer w') = 1024"
      using Cons.prems that by (intro Cons.IH) (auto simp: r)
    then show ?thesis using same_objects_trans [OF same] by (auto simp: r)
  qed
  show ?case
  proof (cases "ready p")
    case True
    then have act: "co_fd c \<in> set act" using Cons.prems(4) fd by simp
    obtain w1 w2 where w2: "mgr_recv err s p (Some (d p)) w = Inr w1"
      "clear_recv_buffer (Some (recv_count (Some (d p)))) w1 = Inr w2"
      "same_objects w w2" "co_events w2 = co_events w @ [MsgRecvd s p (d p)]"
      "length (client_recv_buffer w2) = 1024"
      using recv_ready [OF c Cons.prems(2,3) _ _ Cons.prems(6), of "d p"] Cons.prems(5) by auto
    have k: "0 \<le> recv_count (Some (d p))" "recv_count (Some (d p)) \<le> 1024"
      using Cons.prems(5) by (auto simp: recv_count_def)
    have "mgr_round err s act (map (\<lambda>p. (fd_of w p, Some (d p))) (filter ready (p # ps))) (p # ps) n w =
        mgr_round err s act (map (\<lambda>p. (fd_of w p, Some (d p))) (filter ready ps)) ps
          (Some (recv_count (Some (d p)))) w2"
      using True act c w2 fd by (simp add: co_simps)
    then show ?thesis using next_round [OF w2(3,5) refl k] w2(4) True by auto
  next
    case False
    then have act: "co_fd c \<notin> set act" using Cons.prems(4) fd by simp
    obtain k where k: "n = Some k" "0 \<le> k" "k \<le> 1024" using Cons.prems(7,8) False by (cases n) auto
    obtain w1 where w1: "clear_recv_buffer (Some k) w = Inr w1" "same_objects w w1"
      "co_events w1 = co_events w" "length (client_recv_buffer w1) = 1024"
      by (rule clear_ready [OF k(2,3) Cons.prems(6)])
    have "mgr_round err s act (map (\<lambda>p. (fd_of w p, Some (d p))) (filter ready (p # ps))) (p # ps) n w =
        mgr_round err s act (map (\<lambda>p. (fd_of w p, Some (d p))) (filter ready ps)) ps n w1"
      using False act c w1 k by (simp add: co_simps)
    then show ?thesis using next_round [OF w1(2,4) k] w1(3) False by auto
  qed
qed simp

section \<open>Accepted connections\<close>

text \<open>What a server is when a new client was entered.\<close>

definition entered :: "co_world \<Rightarrow> sptr \<Rightarrow> co_server \<Rightarrow> co_client \<Rightarrow> co_world \<Rightarrow> bool" where
  "entered w s x c w' \<longleftrightarrow>
     (let p = length (co_heap w); db = table x @ [p] in
      srv w' s = Some (x\<lparr>co_db := Some db, co_svc := Some (running w' db)\<rparr>) \<and>
      clt w' p = Some c \<and> (\<forall>q. q \<noteq> p \<longrightarrow> clt w' q = clt w q) \<and> (\<forall>t. t \<noteq> s \<longrightarrow> srv w' t = srv w t))"

lemma fds_fit_append:
  "fds_fit w (ps @ [p]) \<longleftrightarrow> fds_fit w ps \<and> 0 \<le> fd_of w p \<and> fd_of w p < 1024"
  by (auto simp: fds_fit_def)

lemma accept_enters:
  fixes ip :: u32 and port :: u16
  assumes "co_ok w" "srv w s = Some x" "co_acc x \<noteq> None" "0 \<le> fd" "fd < 1024" "co_connected x = Hook"
    "co_svc x = Some v" "mgr_thread v = Some Thread" "fds_fit w (table x)"
  shows "\<exists>w'. co_accept_round s fd ip port w = Inr w' \<and> entered w s x (accepted w s x fd ip port) w' \<and> co_ok w' \<and>
    length (co_heap w') = Suc (length (co_heap w)) \<and> client_recv_buffer w' = client_recv_buffer w \<and>
    co_events w' = co_events w @ [Connected s (length (co_heap w)),
      Said (''Client Svc Mgr Thread is cancelled'' @ [NL]),
      Said (''Service started : TcpClientServiceManagerThread'' @ [NL]),
      Said (''Connection Accepted from Client ['' @ network_convert_ip_n_to_p ip @ '', '' @
              show_nat (unat port) @ '']'' @ [NL])]"
proof -
  let ?p = "length (co_heap w)"
  let ?c = "accepted w s x fd ip port"
  define w1 where "w1 = co_log (Connected s ?p) (with_client ?c w)"
  have live: "\<forall>q \<in> set (table x). clt w q \<noteq> None" by (rule co_okD(4) [OF assms(1,2)])
  then have "fds_fit w1 (table x) = fds_fit w (table x)"
    using not_new [of w] by (auto simp: fds_fit_def w1_def co_simps fd_of_with_client)
  moreover have "fd_of w1 ?p = fd" by (simp add: fd_of_def w1_def co_simps accepted_def)
  ultimately have fit: "fds_fit w1 (table x @ [?p])" using assms(4,5,9) by (simp add: fds_fit_append)
  define y where "y = x\<lparr>co_db := Some (table x @ [?p]), co_svc := Some (running w1 (table x @ [?p]))\<rparr>"
  define w' where "w' = co_said (''Connection Accepted from Client ['' @ network_convert_ip_n_to_p ip @ '', '' @
                show_nat (unat port) @ '']'' @ [NL])
              (co_said (''Service started : TcpClientServiceManagerThread'' @ [NL])
                (co_said (''Client Svc Mgr Thread is cancelled'' @ [NL]) (set_co_server s (Some y) w1)))"
  have 1: "co_accept_round s fd ip port w = Inr w'"
    using accept_eq [OF assms(1-4), of ip port] assms(6-8) fit
    by (simp add: w'_def y_def w1_def)
  have run: "running w' = running w1" by (simp add: running_def fun_eq_iff w'_def co_simps)
  have "entered w s x ?c w'"
    using assms(2) unfolding entered_def Let_def run y_def [symmetric]
    by (simp add: w'_def w1_def co_simps srv_bound)
  moreover have "length (co_heap w') = Suc ?p" "client_recv_buffer w' = client_recv_buffer w"
    by (simp_all add: w'_def w1_def co_simps) (simp add: with_client_def)
  moreover have "co_events w' = co_events w @ [Connected s (length (co_heap w)),
      Said (''Client Svc Mgr Thread is cancelled'' @ [NL]),
      Said (''Service started : TcpClientServiceManagerThread'' @ [NL]),
      Said (''Connection Accepted from Client ['' @ network_convert_ip_n_to_p ip @ '', '' @
              show_nat (unat port) @ '']'' @ [NL])]"
    by (simp add: w'_def w1_def co_simps)
  ultimately show ?thesis using 1 accept_ok [OF assms(1) 1] by blast
qed

section \<open>A small state\<close>

text \<open>A server with two clients, as the operations make it.\<close>

definition course_memory :: co_world where
  "course_memory =
     \<lparr>co_heap = [], co_servers = [], client_recv_buffer = replicate 1024 0,
      co_raw = \<lparr>co_ip = 0, co_port = 0, co_server_ip = 0, co_server_port = 0, co_fd = 0, co_ctrlr = None,
                co_msgd = None\<rparr>, co_raw_flags = 0, co_events = []\<rparr>"

definition course_created :: co_world where
  "course_created = course_memory\<lparr>co_servers :=
     [Some \<lparr>co_acc = Some \<lparr>acc_fd = 3, acc_thread = Some NoThread, acc_bound = False\<rparr>, co_db = Some [],
            co_svc = Some TcpClientServiceManager_course, co_flags = 1,
            co_srv_ip = network_covert_ip_p_to_n ''127.0.0.1'', co_srv_port = 40000, co_name = ''A'',
            co_connected = Hook, co_disconnected = Hook, co_msg_recvd = Hook\<rparr>]\<rparr>"

text \<open>A server that was started and took two connections.\<close>

definition demo_server_with :: "nat \<Rightarrow> co_world \<Rightarrow> bool" where
  "demo_server_with n w \<longleftrightarrow> co_ok w \<and> length (co_heap w) = n \<and> length (client_recv_buffer w) = 1024 \<and>
     (\<exists>x v. srv w 0 = Some x \<and> table x = [0..<n] \<and> co_connected x = Hook \<and> co_msg_recvd x = Hook \<and>
        co_name x = ''A'' \<and> co_acc x = Some \<lparr>acc_fd = 3, acc_thread = Some Thread, acc_bound = True\<rparr> \<and>
        co_svc x = Some v \<and> mgr_thread v = Some Thread \<and> rcv_bytes v = None) \<and>
     (\<forall>p < n. fd_of w p = 4 + int p)"

lemma course_created_ok: "co_ok course_created"
proof -
  have 1: "srv course_created s = (if s = 0 then co_servers course_created ! 0 else None)"
    "clt course_created p = None" for s p
    by (simp_all add: srv_def clt_def course_created_def course_memory_def)
  show ?thesis
    by (simp add: co_ok_def 1 server_ok_def table_def owned_def watches_def bit_set_def
        TcpClientServiceManager_course_def)
       (simp add: course_created_def course_memory_def table_def owned_def watches_def bit_set_def
         TcpClientServiceManager_course_def)
qed

lemma demo_started: "\<exists>w. Start_course 0 True course_created = Inr w \<and> demo_server_with 0 w"
proof -
  obtain x a where x: "srv course_created 0 = Some x" "co_acc x = Some a"
    "a = \<lparr>acc_fd = 3, acc_thread = Some NoThread, acc_bound = False\<rparr>" "co_svc x \<noteq> None" "table x = []"
    "co_connected x = Hook" "co_msg_recvd x = Hook" "co_name x = ''A''"
    by (simp add: srv_def course_created_def table_def)
  have "\<not> acc_bound a" "fds_fit course_created (table x)" using x by (simp_all add: fds_fit_def)
  from Start_eq [OF course_created_ok x(1,2) this(1) x(4) this(2)] obtain w where
    w: "Start_course 0 True course_created = Inr w" "co_ok w" "co_heap w = co_heap course_created"
    "client_recv_buffer w = client_recv_buffer course_created"
    "srv w 0 = Some (x\<lparr>co_acc := Some (a\<lparr>acc_thread := Some Thread, acc_bound := True\<rparr>),
      co_svc := Some (running course_created (table x)), co_flags := co_flags x OR 2\<rparr>)" by blast
  have "demo_server_with 0 w"
    using w(2-5) x by (simp add: demo_server_with_def co_simps running_def) (simp add: course_created_def course_memory_def)
  with w(1) show ?thesis by blast
qed

lemma demo_accepts:
  assumes "demo_server_with n w" "n < 1000"
  shows "\<exists>w'. co_accept_round 0 (4 + int n) ip port w = Inr w' \<and> demo_server_with (Suc n) w'"
proof -
  obtain x v where x: "srv w 0 = Some x" "table x = [0..<n]" "co_connected x = Hook" "co_msg_recvd x = Hook"
    "co_name x = ''A''" "co_acc x = Some \<lparr>acc_fd = 3, acc_thread = Some Thread, acc_bound = True\<rparr>"
    "co_svc x = Some v" "mgr_thread v = Some Thread" "rcv_bytes v = None"
    using assms(1) unfolding demo_server_with_def by blast
  have w: "co_ok w" "length (co_heap w) = n" "length (client_recv_buffer w) = 1024" "\<forall>p < n. fd_of w p = 4 + int p"
    using assms(1) unfolding demo_server_with_def by blast+
  let ?fd = "4 + int n"
  let ?c = "accepted w 0 x ?fd ip port"
  have "fds_fit w (table x)" using x(2) w(4) assms(2) by (simp add: fds_fit_def)
  then obtain w' where w': "co_accept_round 0 ?fd ip port w = Inr w'" "entered w 0 x ?c w'" "co_ok w'"
    "length (co_heap w') = Suc n" "client_recv_buffer w' = client_recv_buffer w"
    using accept_enters [OF w(1) x(1), of ?fd v ip port] x w(2) assms(2) by auto
  have "fd_of w' p = 4 + int p" if "p < Suc n" for p
    using that w'(2) w(2,4) by (cases "p = n") (auto simp: entered_def fd_of_def accepted_def Let_def)
  then have "demo_server_with (Suc n) w'"
    using w' w(2,3) x by (simp add: demo_server_with_def entered_def Let_def co_simps running_def)
  with w'(1) show ?thesis by blast
qed

definition course_demo :: "co_world res" where
  "course_demo =
     rbind (Start_course 0 True course_created) (\<lambda>w.
     rbind (co_accept_round 0 4 2130706433 50000 w) (co_accept_round 0 5 2130706433 50001))"

lemma course_demo:
  obtains w x v where "course_demo = Inr w" "demo_server_with 2 w" "co_ok w" "srv w 0 = Some x" "table x = [0, 1]"
    "co_connected x = Hook" "co_msg_recvd x = Hook" "co_name x = ''A''"
    "co_acc x = Some \<lparr>acc_fd = 3, acc_thread = Some Thread, acc_bound = True\<rparr>" "co_svc x = Some v"
    "mgr_thread v = Some Thread" "rcv_bytes v = None" "fd_of w 0 = 4" "fd_of w 1 = 5"
    "length (co_heap w) = 2" "length (client_recv_buffer w) = 1024"
proof -
  obtain w0 where 0: "Start_course 0 True course_created = Inr w0" "demo_server_with 0 w0"
    using demo_started by blast
  obtain w1 where 1: "co_accept_round 0 4 2130706433 50000 w0 = Inr w1" "demo_server_with 1 w1"
    using demo_accepts [OF 0(2), of 2130706433 50000] by auto
  obtain w2 where 2: "co_accept_round 0 5 2130706433 50001 w1 = Inr w2" "demo_server_with 2 w2"
    using demo_accepts [OF 1(2), of 2130706433 50001] by (auto simp: numeral_2_eq_2)
  have "course_demo = Inr w2" using 0(1) 1(1) 2(1) by (simp add: course_demo_def)
  then show thesis using that [of w2] 2(2) by (auto simp: demo_server_with_def numeral_2_eq_2)
qed

text \<open>The buffer of a command with one leaf.\<close>

lemma one_leaf_buffer:
  assumes "NUL \<notin> set n" "length n < LEAF_VALUE_HOLDER_SIZE" "NUL \<notin> set k" "length k < LEAF_VALUE_HOLDER_SIZE"
  obtains b t where "command [t] (atoi k) b" "named ''tcp-server-name'' n t"
proof -
  let ?p = "prepare_tlv_from_leaf STRING ''tcp-server-name'' zero_tlv"
  obtain t where t: "tlv_ok t" "cstr (val t) = n" "leaf_id t = leaf_id ?p"
    using put_value_fits [of ?p n] assms(1,2) by auto
  obtain u where u: "tlv_ok u" "cstr (val u) = k"
    using put_value_fits [of ?p k] assms(3,4) by auto
  have "tlv_wf init_serialized_buffer" "tlvs init_serialized_buffer = []"
    using init_tlvs [of 512]
    by (simp_all add: init_serialized_buffer_def init_serialized_buffer_of_defined_size_def)
  then obtain b1 where b1: "tlv_wf b1" "tlvs b1 = [t]"
    using collect_tlv_appends [OF _ t(1)] by (fastforce simp: MAX_UNITS_def)
  then obtain b2 where b2: "tlv_wf b2" "tlvs b2 = [t, u]"
    using collect_tlv_appends [OF b1(1) u(1)] by (auto simp: MAX_UNITS_def)
  have "cstr (leaf_id ?p) = ''tcp-server-name''"
    by (simp add: prepare_tlv_from_leaf_def cstr_def put_at_def zero_tlv_def)
  then show thesis using that [of t b2] b2 t u by (simp add: command_def named_def)
qed

lemma config_named:
  assumes "command [t] code b" "named ''tcp-server-name'' n t"
  shows "EXTRACT_CMD_CODE b = Inr code" "TLV_LOOP b = Inr [t]"
    "co_config_leaves [t] co_default_args = co_default_args\<lparr>arg_name := Some n\<rparr>"
  using command_reads [OF assms(1)] assms(2) by (simp_all add: named_def)

definition course_boot :: co_app where
  "course_boot = \<lparr>co_server_lst = [], co_world_of = course_memory\<rparr>"

lemma demo_reached:
  obtains a where "co_step\<^sup>*\<^sup>* course_boot a" "course_demo = Inr (co_world_of a)" "co_server_lst a = [0]"
proof -
  let ?a1 = "\<lparr>co_server_lst = [0], co_world_of = course_created\<rparr>"
  obtain b1 t1 where 1: "command [t1] (atoi ''1'') b1" "named ''tcp-server-name'' ''A'' t1"
    by (rule one_leaf_buffer [of "''A''" "''1''"]) auto
  obtain b2 t2 where 2: "command [t2] (atoi ''2'') b2" "named ''tcp-server-name'' ''A'' t2"
    by (rule one_leaf_buffer [of "''A''" "''2''"]) auto
  have code: "atoi ''1'' = 1" "atoi ''2'' = 2" by code_simp+
  have "config_tcp_server_handler_course 3 True b1 CONFIG_ENABLE course_boot = Inr (?a1, 0)"
    using config_named [OF 1] code
    by (simp add: config_tcp_server_handler_course_def Let_def co_create_server_def TcpServer_lookup_course_def
        course_boot_def co_default_args_def TcpServerController_course_def TcpNewConnectionAcceptor_course_def
        SetServerNotifCallbacks_course_def upd_co_server_def co_server_at_def set_co_server_def
        course_memory_def course_created_def)
  then have s1: "co_step course_boot ?a1" by (rule co_step.intros)
  obtain w0 where 0: "Start_course 0 True course_created = Inr w0" "demo_server_with 0 w0"
    using demo_started by blast
  let ?a2 = "\<lparr>co_server_lst = [0], co_world_of = w0\<rparr>"
  have "config_tcp_server_handler_course 3 True b2 CONFIG_ENABLE ?a1 = Inr (?a2, 0)"
    using config_named [OF 2] code 0(1)
    by (simp add: config_tcp_server_handler_course_def Let_def with_co_server_def TcpServer_lookup_course_def
        co_default_args_def on_co_world_def) (simp add: course_created_def co_server_at_def on_co_world_def)
  then have s2: "co_step ?a1 ?a2" by (rule co_step.intros)
  have take_one: "co_step \<lparr>co_server_lst = [0], co_world_of = w\<rparr> \<lparr>co_server_lst = [0], co_world_of = w'\<rparr>"
    if d: "demo_server_with n w" and acc: "co_accept_round 0 fd ip port w = Inr w'" for n w w' fd ip port
  proof -
    obtain x where "srv w 0 = Some x" "co_acc x = Some \<lparr>acc_fd = 3, acc_thread = Some Thread, acc_bound = True\<rparr>"
      using d unfolding demo_server_with_def by blast
    then show ?thesis
      using acc co_step.accepted_client [of 0 "\<lparr>co_server_lst = [0], co_world_of = w\<rparr>"] by (simp add: co_simps)
  qed
  obtain w1 where w1: "co_accept_round 0 4 2130706433 50000 w0 = Inr w1" "demo_server_with 1 w1"
    using demo_accepts [OF 0(2), of 2130706433 50000] by auto
  obtain w2 where w2: "co_accept_round 0 5 2130706433 50001 w1 = Inr w2"
    using demo_accepts [OF w1(2), of 2130706433 50001] by auto
  have "co_step\<^sup>*\<^sup>* course_boot \<lparr>co_server_lst = [0], co_world_of = w2\<rparr>"
    using s1 s2 take_one [OF 0(2) w1(1)] take_one [OF w1(2) w2]
    by (meson rtranclp.rtrancl_into_rtrancl rtranclp.rtrancl_refl)
  moreover have "course_demo = Inr w2" using 0(1) w1(1) w2 by (simp add: course_demo_def)
  ultimately show thesis using that by simp
qed

section \<open>The table is what is served\<close>

text \<open>
  C3: the constructor of a server leaves its flags uninitialised. If the memory it gets has the bits
  \<open>TCP_SERVER_NOT_ACCEPTING_NEW_CONNECTIONS\<close> and \<open>TCP_SERVER_NOT_LISTENING_CLIENTS\<close> clear, then in
  every state that the program of \<^verbatim>\<open>Course\<close> reaches, the table of a server lists exactly the live
  clients that belong to it, each once; its client service lists the same clients, and once its
  thread runs it watches exactly their descriptors, none of them above \<open>max_fd\<close>. No client is lost,
  served twice or left out, whatever commands, connections and rounds came before.
\<close>

theorem table_is_served:
  assumes "co_step\<^sup>*\<^sup>* a0 a" "co_fresh a0" "memory_bits_clear a0"
    and "w = co_world_of a" "srv w s = Some x"
  shows "distinct (table x) \<and>
    (\<forall>p. p \<in> set (table x) \<longleftrightarrow> (\<exists>c. clt w p = Some c \<and> co_ctrlr c = Some s)) \<and>
    (\<forall>v. co_svc x = Some v \<longrightarrow> mgr_db v = table x \<and>
       (mgr_thread v = Some Thread \<longrightarrow> set (mgr_fds v) = fd_of w ` set (table x) \<and>
          (\<forall>p \<in> set (table x). fd_of w p \<le> mgr_max_fd v)))"
proof -
  have ok: "co_ok w" using reached_ok [OF assms(1-3)] assms(4) by simp
  note d = co_okD [OF ok assms(5)]
  have "p \<in> set (table x)" if "clt w p = Some c" "co_ctrlr c = Some s" for p c
    using ok that assms(5) by (fastforce simp: co_ok_def)
  then have "p \<in> set (table x) \<longleftrightarrow> (\<exists>c. clt w p = Some c \<and> co_ctrlr c = Some s)" for p
    using d(3) by (auto simp: owned_def)
  moreover have "mgr_db v = table x \<and>
       (mgr_thread v = Some Thread \<longrightarrow> set (mgr_fds v) = fd_of w ` set (table x) \<and>
          (\<forall>p \<in> set (table x). fd_of w p \<le> mgr_max_fd v))" if "co_svc x = Some v" for v
    using d(7) [OF that] by (auto simp: watches_def)
  ultimately show ?thesis using d(3) by (simp add: owned_def)
qed

theorem table_is_served_witness:
  "\<exists>a x v. co_step\<^sup>*\<^sup>* course_boot a \<and> srv (co_world_of a) 0 = Some x \<and> table x = [0, 1] \<and>
     co_svc x = Some v \<and> mgr_db v = [0, 1] \<and> set (mgr_fds v) = {4, 5}"
proof -
  obtain a where a: "co_step\<^sup>*\<^sup>* course_boot a" "course_demo = Inr (co_world_of a)" by (rule demo_reached)
  obtain w x v where w: "course_demo = Inr w" "srv w 0 = Some x" "table x = [0, 1]" "co_svc x = Some v"
    "mgr_thread v = Some Thread" "fd_of w 0 = 4" "fd_of w 1 = 5"
    by (rule course_demo)
  have f: "co_fresh course_boot" "memory_bits_clear course_boot"
    by (simp_all add: co_fresh_def memory_bits_clear_def bit_set_def course_boot_def course_memory_def)
  have eq: "w = co_world_of a" using trans [OF a(2) [symmetric] w(1)] by simp
  from table_is_served [OF a(1) f eq w(2)] show ?thesis using a(1) w eq by auto
qed

text \<open>
  C25: with the bit \<open>TCP_SERVER_NOT_LISTENING_CLIENTS\<close> set in the memory of a new server, which the
  constructor does not clear, every start of the thread of its client service copies the table behind the list. The first client that a started
  server accepts is then listed twice by the client service, and so served twice in every round.
\<close>

theorem uninitialised_flag_lists_twice:
  fixes ip :: u32 and port :: u16
  assumes "bit_set (co_raw_flags w) TCP_SERVER_NOT_LISTENING_CLIENTS"
    and "TcpServerController_course addr sport name sfd w = Inr (s, w1)"
    and "SetServerNotifCallbacks_course s Hook Hook Hook w1 = Inr w2"
    and "0 \<le> fd" "fd < 1024"
  shows "\<exists>w3 w4 y v. Start_course s True w2 = Inr w3 \<and> co_accept_round s fd ip port w3 = Inr w4 \<and>
    srv w4 s = Some y \<and> table y = [length (co_heap w)] \<and>
    co_svc y = Some v \<and> mgr_db v = [length (co_heap w), length (co_heap w)]"
proof -
  define a where "a = \<lparr>acc_fd = sfd, acc_thread = Some NoThread, acc_bound = False\<rparr>"
  define x where "x = \<lparr>co_acc = Some a, co_db = Some [], co_svc = Some TcpClientServiceManager_course,
                co_flags = co_raw_flags w OR 1,
                co_srv_ip = network_covert_ip_p_to_n addr, co_srv_port = sport, co_name = name,
                co_connected = Hook, co_disconnected = Hook, co_msg_recvd = Hook\<rparr>"
  have s: "s = length (co_servers w)" and w2: "w2 = w\<lparr>co_servers := co_servers w @ [Some x]\<rparr>"
    using assms(2,3)
    by (auto simp: TcpServerController_course_def TcpNewConnectionAcceptor_course_def x_def a_def
        SetServerNotifCallbacks_course_def upd_co_server_def co_server_at_def set_co_server_def
        nth_append split: if_splits)
  have x2: "srv w2 s = Some x" by (simp add: srv_def w2 s)
  have heap2: "length (co_heap w2) = length (co_heap w)" by (simp add: w2)
  have off: "bit_set (co_flags x OR m) 8" if "m AND 8 = 0" for m :: u32
    using assms(1) that by (simp add: x_def bit_or)
  define x3 where "x3 = x\<lparr>co_acc := Some (a\<lparr>acc_thread := Some Thread, acc_bound := True\<rparr>)\<rparr>"
  define u where "u = co_said (''Service Started : TcpNewConnectionAcceptorThread'' @ [NL])
      (set_co_server s (Some x3) w2)"
  have u1: "StartTcpNewConnectionAcceptorThread_course s True w2 = Inr u"
    using x2 by (simp add: start_acceptor_eq set_co_acc_def co_simps u_def x3_def) (simp add: x_def a_def)
  have u: "srv u s = Some x3" using x2 by (simp add: u_def co_simps srv_bound)
  have hu: "length (co_heap u) = length (co_heap w)" using heap2 by (simp add: u_def co_simps)
  have off3: "bit_set (co_flags x3) 8" using off [of 0] by (simp add: x3_def)
  have "StartTcpClientServiceManagerThread_course s u =
      Inr (co_said (''Service started : TcpClientServiceManagerThread'' @ [NL])
            (set_co_server s (Some (x3\<lparr>co_svc := Some (running u [])\<rparr>)) u))"
    using start_thread [OF u, of TcpClientServiceManager_course "[]" "[]"] off3
    by (simp add: x3_def x_def TcpClientServiceManager_course_def fds_fit_def)
  then obtain w3 y where w3: "Start_course s True w2 = Inr w3" "srv w3 s = Some y"
    "y = x3\<lparr>co_svc := Some (running u []), co_flags := co_flags x3 OR 2\<rparr>"
    "length (co_heap w3) = length (co_heap w)"
    using u1 u hu by (simp add: Start_course_def co_simps srv_bound)
  have y: "co_acc y \<noteq> None" "co_svc y = Some (running u [])" "co_db y = Some []" "co_connected y = Hook"
    "bit_set (co_flags y) 8"
    using w3(3) off by (simp_all add: x3_def x_def)
  let ?p = "length (co_heap w)"
  define w4 where "w4 = co_log (Connected s ?p) (with_client (accepted w3 s y fd ip port) w3)"
  have s4: "srv w4 s = Some y" using w3(2) by (simp add: w4_def co_simps)
  define y5 where "y5 = y\<lparr>co_db := Some [?p]\<rparr>"
  define w5 where "w5 = set_co_server s (Some y5) w4"
  have s5: "srv w5 s = Some y5" using s4 by (simp add: w5_def co_simps srv_bound)
  obtain k where k: "co_acc y = Some k" using y(1) by auto
  have "co_accept_round s fd ip port w3 =
      rbind (ProcessNewClient_course s ?p w4) (\<lambda>w5.
       Inr (co_said (''Connection Accepted from Client ['' @ network_convert_ip_n_to_p ip @ '', '' @
              show_nat (unat port) @ '']'' @ [NL]) w5))"
    using w3(2,4) k y(4) assms(4)
    by (simp add: co_accept_round_def TcpClient_course_def with_client_def [symmetric] co_simps
        w4_def accepted_def co_call_if_set_def hook_set_def)
  moreover have "ProcessNewClient_course s ?p w4 = ClientFDStartListen_course s ?p w5"
    using s4 y(3) by (simp add: ProcessNewClient_course_def AddClientToDB_course_def set_co_db_def co_simps w5_def y5_def)
  moreover have c5: "clt w5 ?p = Some (accepted w3 s y fd ip port)"
    using w3(4) by (simp add: w5_def w4_def co_simps)
  then have "fds_fit w5 [?p, ?p]" using assms(4,5) by (simp add: fds_fit_def fd_of_def accepted_def)
  then have "ClientFDStartListen_course s ?p w5 =
      Inr (co_said (''Service started : TcpClientServiceManagerThread'' @ [NL])
            (co_said (''Client Svc Mgr Thread is cancelled'' @ [NL])
              (set_co_server s (Some (y5\<lparr>co_svc := Some (running w5 [?p, ?p])\<rparr>)) w5)))"
    using listen_eq [OF s5, of "running u []" "[?p]" ?p "[?p, ?p]"] y(2,5) c5
    by (simp add: y5_def running_def)
  ultimately show ?thesis
    using w3(1) s5 by (simp add: co_simps srv_bound y5_def) (simp add: running_def)
qed

theorem uninitialised_flag_lists_twice_witness:
  "\<exists>w1 w2 w3 w4 y v.
     TcpServerController_course ''127.0.0.1'' 40000 ''A'' 3 (course_memory\<lparr>co_raw_flags := 8\<rparr>) = Inr (0, w1) \<and>
     SetServerNotifCallbacks_course 0 Hook Hook Hook w1 = Inr w2 \<and> Start_course 0 True w2 = Inr w3 \<and>
     co_accept_round 0 4 2130706433 50000 w3 = Inr w4 \<and>
     srv w4 0 = Some y \<and> table y = [0] \<and> co_svc y = Some v \<and> mgr_db v = [0, 0]"
proof -
  let ?w = "course_memory\<lparr>co_raw_flags := 8\<rparr>"
  obtain w1 where 1: "TcpServerController_course ''127.0.0.1'' 40000 ''A'' 3 ?w = Inr (0, w1)"
    "length (co_servers w1) = 1" "co_servers w1 ! 0 \<noteq> None"
    by (simp add: TcpServerController_course_def TcpNewConnectionAcceptor_course_def course_memory_def)
  then obtain w2 where 2: "SetServerNotifCallbacks_course 0 Hook Hook Hook w1 = Inr w2"
    by (auto simp: SetServerNotifCallbacks_course_def upd_co_server_def co_server_at_def)
  have bit: "bit_set (co_raw_flags ?w) TCP_SERVER_NOT_LISTENING_CLIENTS" by (simp add: bit_set_def)
  have heap: "length (co_heap ?w) = 0" by (simp add: course_memory_def)
  from uninitialised_flag_lists_twice [OF bit 1(1) 2, of 4 2130706433 50000] 1(1) 2 heap
  show ?thesis by auto
qed

section \<open>What happens to a connection\<close>

text \<open>
  C10: an accepted connection. While the client service runs, the new client is entered at the end
  of the table, the service is restarted on the longer table and watches the new descriptor too,
  the application is told, and all other clients and servers are as before. While the service is
  stopped, the acceptor calls a function of an object that does not exist.
\<close>

theorem accepted_connection:
  fixes ip :: u32 and port :: u16
  assumes "co_ok w" "srv w s = Some x" "co_acc x \<noteq> None" "0 \<le> fd" "fd < 1024" "co_connected x = Hook"
    and "fds_fit w (table x)" "\<forall>v. co_svc x = Some v \<longrightarrow> mgr_thread v = Some Thread"
  shows "if co_svc x = None then co_accept_round s fd ip port w = Inl NullDeref
    else \<exists>w' y. co_accept_round s fd ip port w = Inr w' \<and> srv w' s = Some y \<and>
      table y = table x @ [length (co_heap w)] \<and> co_svc y = Some (running w' (table y)) \<and>
      fd \<in> set (mgr_fds (running w' (table y))) \<and>
      clt w' (length (co_heap w)) = Some (accepted w s x fd ip port) \<and>
      Connected s (length (co_heap w)) \<in> set (co_events w') \<and>
      (\<forall>q. q \<noteq> length (co_heap w) \<longrightarrow> clt w' q = clt w q) \<and> (\<forall>t. t \<noteq> s \<longrightarrow> srv w' t = srv w t)"
proof (cases "co_svc x")
  case None
  then show ?thesis using accept_eq [OF assms(1-4), of ip port] assms(6) by simp
next
  case (Some v)
  obtain w' where w': "co_accept_round s fd ip port w = Inr w'" "entered w s x (accepted w s x fd ip port) w'"
    "Connected s (length (co_heap w)) \<in> set (co_events w')"
    using accept_enters [OF assms(1-6) Some _ assms(7), of ip port] assms(8) Some by auto
  have "fd_of w' (length (co_heap w)) = fd" using w'(2) by (simp add: entered_def Let_def fd_of_def accepted_def)
  then have "fd \<in> set (mgr_fds (running w' (table x @ [length (co_heap w)])))"
    by (auto simp: running_def set_fd_loop)
  then show ?thesis using w' Some by (auto simp: entered_def Let_def co_simps)
qed

theorem accepted_connection_witness:
  "\<exists>w w' y. course_demo = Inr w \<and> co_accept_round 0 6 2130706433 50002 w = Inr w' \<and>
     srv w' 0 = Some y \<and> table y = [0, 1, 2]"
proof -
  obtain w x v where w: "course_demo = Inr w" "co_ok w" "srv w 0 = Some x" "table x = [0, 1]"
    "co_connected x = Hook" "co_acc x = Some \<lparr>acc_fd = 3, acc_thread = Some Thread, acc_bound = True\<rparr>"
    "co_svc x = Some v" "mgr_thread v = Some Thread" "fd_of w 0 = 4" "fd_of w 1 = 5" "length (co_heap w) = 2"
    by (rule course_demo)
  have "fds_fit w (table x)" using w by (simp add: fds_fit_def)
  from accepted_connection [OF w(2,3) _ _ _ w(5) this, of 6 2130706433 50002] w show ?thesis by auto
qed

text \<open>
  C9: a round of the client service. Each client with something to read gets one call of the
  callback with what was received, in the order of the table, and no other object changes. The
  exception is the first round of a thread whose first client has nothing to read: the length of
  the \<open>memset\<close> behind each client has no value then.
\<close>

theorem round_serves_ready:
  assumes "co_ok w" "srv w s = Some x" "co_msg_recvd x = Hook" "co_svc x = Some v" "mgr_thread v = Some Thread"
    and "length (client_recv_buffer w) = 1024" "\<forall>p. d p \<noteq> [] \<and> length (d p) \<le> 1024"
    and "\<forall>k. rcv_bytes v = Some k \<longrightarrow> 0 \<le> k \<and> k \<le> 1024"
    and "ready = (\<lambda>p. fd_of w p \<in> set readable)"
    and "answers = map (\<lambda>p. (fd_of w p, Some (d p))) (filter ready (table x))"
  shows "if rcv_bytes v = None \<and> table x \<noteq> [] \<and> \<not> ready (hd (table x))
    then mgr_thread_round err s readable answers w = Inl Indeterminate
    else \<exists>w'. mgr_thread_round err s readable answers w = Inr w' \<and> co_heap w' = co_heap w \<and>
      (\<forall>t. t \<noteq> s \<longrightarrow> srv w' t = srv w t) \<and>
      co_events w' = co_events w @ map (\<lambda>p. MsgRecvd s p (d p)) (filter ready (table x))"
proof -
  note o = co_okD [OF assms(1,2)]
  have watch: "mgr_db v = table x" "set (mgr_fds v) = fd_of w ` set (table x)"
    "\<forall>p \<in> set (table x). fd_of w p \<le> mgr_max_fd v"
    using o(7) [OF assms(4)] assms(5) by (simp_all add: watches_def)
  have own: "\<forall>p \<in> set (table x). \<exists>c. clt w p = Some c \<and> co_msgd c = None" using o(3) by (auto simp: owned_def)
  define act where "act = filter (\<lambda>fd. fd \<le> mgr_max_fd v \<and> fd \<in> set readable) (mgr_fds v)"
  have act: "\<forall>p \<in> set (table x). fd_of w p \<in> set act \<longleftrightarrow> ready p"
    using watch(2,3) assms(9) by (auto simp: act_def)
  have start: "mgr_thread_round err s readable answers w =
      rbind (mgr_round err s act answers (table x) (rcv_bytes v) w) (\<lambda>(n, w1).
      upd_co_svc s (\<lambda>v. v\<lparr>rcv_bytes := n\<rparr>) w1)"
    using assms(2,4) watch(1) by (simp add: mgr_thread_round_def co_simps Let_def act_def)
  show ?thesis
  proof (cases "rcv_bytes v = None \<and> table x \<noteq> [] \<and> \<not> ready (hd (table x))")
    case True
    then obtain p ps where p: "table x = p # ps" by (cases "table x") auto
    with True own act obtain c where c: "clt w p = Some c" "fd_of w p \<notin> set act" by auto
    then have "co_fd c \<notin> set act" by (simp add: fd_of_def)
    then show ?thesis using start True p c by (simp add: co_simps clear_recv_buffer_def)
  next
    case False
    obtain n w1 where w1: "mgr_round err s act answers (table x) (rcv_bytes v) w = Inr (n, w1)"
      "same_objects w w1" "co_events w1 = co_events w @ map (\<lambda>p. MsgRecvd s p (d p)) (filter ready (table x))"
      using round_ready [OF own assms(2,3) act, of d "rcv_bytes v" err] assms(6-8,10) False by auto
    have s1: "srv w1 s = Some x" using same_objects_reads(2) [OF w1(2)] assms(2) by simp
    let ?w' = "set_co_server s (Some (x\<lparr>co_svc := Some (v\<lparr>rcv_bytes := n\<rparr>)\<rparr>)) w1"
    have "mgr_thread_round err s readable answers w = Inr ?w'"
      using start w1(1) s1 assms(4) by (simp add: co_simps)
    moreover have "co_heap ?w' = co_heap w" using w1(2) by (simp add: co_simps same_objects_def)
    ultimately show ?thesis using False w1(3) same_objects_reads(2) [OF w1(2)] by (simp add: co_simps)
  qed
qed

theorem round_serves_ready_witness:
  "\<exists>w w'. course_demo = Inr w \<and>
     mgr_thread_round 0 0 [5] [(5, Some [7])] w = Inl Indeterminate \<and>
     mgr_thread_round 0 0 [4, 5] [(4, Some [7]), (5, Some [7])] w = Inr w' \<and>
     co_events w' = co_events w @ [MsgRecvd 0 0 [7], MsgRecvd 0 1 [7]]"
proof -
  obtain w x v where w: "course_demo = Inr w" "co_ok w" "srv w 0 = Some x" "table x = [0, 1]"
    "co_msg_recvd x = Hook" "co_svc x = Some v" "mgr_thread v = Some Thread" "rcv_bytes v = None"
    "fd_of w 0 = 4" "fd_of w 1 = 5" "length (client_recv_buffer w) = 1024"
    by (rule course_demo)
  note r = round_serves_ready [OF w(2,3,5,6,7,11) _ _ refl refl, of "\<lambda>p. [7]"]
  have 1: "mgr_thread_round 0 0 [5] [(5, Some [7])] w = Inl Indeterminate"
    using r [of "[5]" 0] w by simp
  obtain w' where "mgr_thread_round 0 0 [4, 5] [(4, Some [7]), (5, Some [7])] w = Inr w'"
    "co_events w' = co_events w @ [MsgRecvd 0 0 [7], MsgRecvd 0 1 [7]]"
    using r [of "[4, 5]" 0] w by auto
  with 1 w(1) show ?thesis by blast
qed

section \<open>The end of a server\<close>

text \<open>
  C7: stopping a server, in a state of the invariant. If the threads of its acceptor and of its
  client service run, those of the two that it still has, the stop returns and fails none of the
  assertions of the destructors; the listening socket and then the connection of every client of the
  table are closed, each once, exactly these clients are freed, and no other client or server
  changes. If one of them was never started, its thread is a null pointer, which is cancelled.
\<close>

theorem stop_closes_everything:
  assumes "co_ok w" "srv w s = Some x"
  shows "if acc_runs x \<and> svc_runs x
    then \<exists>w'. Stop_course s w = Inr w' \<and> srv w' s = None \<and> (\<forall>t. t \<noteq> s \<longrightarrow> srv w' t = srv w t) \<and>
    (\<forall>p. clt w' p = (if p \<in> set (table x) then None else clt w p)) \<and>
    co_events w' = co_events w @
      (case co_acc x of None \<Rightarrow> [] | Some a \<Rightarrow> [ClosedFd (acc_fd a)]) @
      map ClosedFd (filter (\<lambda>fd. fd \<noteq> 0) (map (fd_of w) (table x)))
    else Stop_course s w = Inl NullDeref"
proof (cases "acc_runs x \<and> svc_runs x")
  case False
  then show ?thesis using stop_unstarted [OF assms] by simp
next
  case True
  note d = co_okD [OF assms(1,2)]
  have own: "distinct (table x)" using d(3) by (simp add: owned_def)
  define u where "u = closes_acceptor x (set_co_server s None w)"
  have u: "clt u = clt w" "fd_of u = fd_of w" "\<forall>t. srv u t = (if t = s then None else srv w t)"
    "co_events u = co_events w @ (case co_acc x of None \<Rightarrow> [] | Some a \<Rightarrow> [ClosedFd (acc_fd a)])"
    using assms(2) by (auto simp: u_def closes_acceptor_def fun_eq_iff co_simps srv_bound split: option.split)
  have live: "\<forall>p \<in> set (table x). clt u p \<noteq> None" using d(4) u(1) by simp
  have "Stop_course s w = Inr (abort_all (table x) u)" using stop_eq [OF assms] True by (simp add: u_def)
  then show ?thesis using u own live True by (simp add: abort_all_reads)
qed

theorem stop_closes_everything_witness:
  "(\<exists>w w'. course_demo = Inr w \<and> Stop_course 0 w = Inr w' \<and> srv w' 0 = None \<and>
     co_events w' = co_events w @ [ClosedFd 3, ClosedFd 4, ClosedFd 5]) \<and>
   Stop_course 0 course_created = Inl NullDeref"
proof (intro conjI)
  obtain y where y: "srv course_created 0 = Some y" "\<not> acc_runs y"
    by (simp add: srv_def course_created_def acc_runs_def)
  show "Stop_course 0 course_created = Inl NullDeref"
    using stop_closes_everything [OF course_created_ok y(1)] y(2) by simp
next
  obtain w x v where w: "course_demo = Inr w" "co_ok w" "srv w 0 = Some x" "table x = [0, 1]"
    "co_acc x = Some \<lparr>acc_fd = 3, acc_thread = Some Thread, acc_bound = True\<rparr>" "co_svc x = Some v"
    "mgr_thread v = Some Thread" "fd_of w 0 = 4" "fd_of w 1 = 5"
    by (rule course_demo)
  have "acc_runs x" "svc_runs x" using w by (simp_all add: acc_runs_def svc_runs_def)
  from stop_closes_everything [OF w(2,3)] this w
  show "\<exists>w w'. course_demo = Inr w \<and> Stop_course 0 w = Inr w' \<and> srv w' 0 = None \<and>
     co_events w' = co_events w @ [ClosedFd 3, ClosedFd 4, ClosedFd 5]" by auto
qed

lemma lookup_dangles:
  assumes "co_lookup w n ss = Inr (Some s)" "\<forall>t. t \<noteq> s \<longrightarrow> srv w' t = srv w t" "srv w' s = None"
  shows "co_lookup w' n ss = Inl UseAfterFree"
  using assms(1)
proof (induction ss)
  case (Cons t ss)
  show ?case
  proof (cases "t = s")
    case True
    then show ?thesis using assms(3) by (simp add: co_server_at_srv)
  next
    case False
    then show ?thesis using Cons assms(2) by (auto simp: co_server_at_srv split: option.splits if_splits)
  qed
qed simp

text \<open>
  C38: \<open>config tcp-server <name> stop\<close> frees the server but leaves it in \<open>tcp_server_lst\<close>: after a
  stop that succeeded, the next command for the same name, of whatever kind, reads the freed server.
\<close>

theorem stopped_server_dangles:
  assumes "app_ok a" "config_tcp_server_handler_course fd ok b CONFIG_ENABLE a = Inr (a', 0)"
    and "EXTRACT_CMD_CODE b = Inr 6" "TLV_LOOP b = Inr ts"
    and "arg_name (co_config_leaves ts co_default_args) = Some n"
    and "EXTRACT_CMD_CODE b2 = Inr code" "code \<in> {1, 2, 4, 5, 6}" "TLV_LOOP b2 = Inr ts2"
    and "arg_name (co_config_leaves ts2 co_default_args) = Some n"
  shows "config_tcp_server_handler_course fd2 ok2 b2 m a' = Inl UseAfterFree"
proof -
  from assms(2-5) obtain s where s: "TcpServer_lookup_course (Some n) a = Inr (Some s)"
    "on_co_world (Stop_course s) a = Inr (a', 0)"
    by (auto simp: config_tcp_server_handler_course_def Let_def with_co_server_def co_stop_server_def rbind_eq_Inr
        split: option.splits)
  obtain w' where w': "Stop_course s (co_world_of a) = Inr w'" "a' = a\<lparr>co_world_of := w'\<rparr>"
    using s(2) by (auto simp: on_co_world_def rbind_eq_Inr)
  obtain x where x: "srv (co_world_of a) s = Some x"
    using w'(1) by (auto simp: Stop_course_def rbind_eq_Inr server_there)
  have "w' = abort_all (table x) (closes_acceptor x (set_co_server s None (co_world_of a)))"
    using stop_eq [OF assms(1) x stop_survived [OF assms(1) x w'(1)]] w'(1) by simp
  then have "srv w' t = (if t = s then None else srv (co_world_of a) t)" for t
    using x by (simp add: abort_all_reads co_simps srv_bound)
  then have "TcpServer_lookup_course (Some n) a' = Inl UseAfterFree"
    using s(1) w'(2) lookup_dangles [of "co_world_of a" n "co_server_lst a" s w']
    by (simp add: TcpServer_lookup_course_def)
  then show ?thesis using assms(6-9)
    by (auto simp: config_tcp_server_handler_course_def Let_def with_co_server_def co_create_server_def)
qed

theorem stopped_server_dangles_witness:
  "\<exists>a a' b b2. co_step\<^sup>*\<^sup>* course_boot a \<and>
     config_tcp_server_handler_course 3 True b CONFIG_ENABLE a = Inr (a', 0) \<and>
     config_tcp_server_handler_course 3 True b2 CONFIG_ENABLE a' = Inl UseAfterFree"
proof -
  obtain a where a: "co_step\<^sup>*\<^sup>* course_boot a" "course_demo = Inr (co_world_of a)" "co_server_lst a = [0]"
    by (rule demo_reached)
  obtain w x v where w: "course_demo = Inr w" "co_ok w" "srv w 0 = Some x" "table x = [0, 1]" "co_name x = ''A''"
    "co_acc x = Some \<lparr>acc_fd = 3, acc_thread = Some Thread, acc_bound = True\<rparr>" "co_svc x = Some v"
    "mgr_thread v = Some Thread"
    by (rule course_demo)
  have eq: "co_world_of a = w" using trans [OF a(2) [symmetric] w(1)] by simp
  obtain b t where b: "command [t] (atoi ''6'') b" "named ''tcp-server-name'' ''A'' t"
    by (rule one_leaf_buffer [of "''A''" "''6''"]) auto
  obtain b2 t2 where b2: "command [t2] (atoi ''2'') b2" "named ''tcp-server-name'' ''A'' t2"
    by (rule one_leaf_buffer [of "''A''" "''2''"]) auto
  have code: "atoi ''6'' = 6" "atoi ''2'' = 2" by code_simp+
  note c = config_named [OF b, unfolded code] and c2 = config_named [OF b2, unfolded code]
  have "acc_runs x" "svc_runs x" using w by (simp_all add: acc_runs_def svc_runs_def)
  from stop_eq [OF w(2,3) this] obtain w' where "Stop_course 0 w = Inr w'" by blast
  then have 1: "config_tcp_server_handler_course 3 True b CONFIG_ENABLE a = Inr (a\<lparr>co_world_of := w'\<rparr>, 0)"
    using c a(3) w(3,5) eq
    by (simp add: config_tcp_server_handler_course_def Let_def with_co_server_def co_stop_server_def
        on_co_world_def TcpServer_lookup_course_def co_simps del: co_config_leaves.simps)
  have "config_tcp_server_handler_course 3 True b2 CONFIG_ENABLE (a\<lparr>co_world_of := w'\<rparr>) = Inl UseAfterFree"
    by (rule stopped_server_dangles [OF _ 1 c(1,2) _ c2(1) _ c2(2), of "''A''"])
       (use c(3) c2(3) w(2) eq in \<open>simp_all del: co_config_leaves.simps\<close>)
  with a(1) 1 show ?thesis by blast
qed

section \<open>Messages\<close>

text \<open>
  C23: when the size of the messages divides the size of the ring buffer no read wraps, and the
  fixed-size demarcar of this edition does on every stream of portions what that of the current
  edition does, failures included.
\<close>

theorem course_demarcar_agrees:
  assumes "n \<noteq> 0" "unat n dvd 10240"
  shows "process_portions_course cb (TcpMsgFixedSizeDemarcar n) portions =
    process_portions cb (TcpMsgFixedSizeDemarcar n) portions"
proof (rule process_portions_agrees)
  show "aligned_demarcar n (TcpMsgFixedSizeDemarcar n)"
    using assms
    by (simp add: aligned_demarcar_def aligned_def TcpMsgFixedSizeDemarcar_def TcpMsgDemarcar_def)
       (simp add: BCBCreateNew_def)
qed

theorem course_demarcar_agrees_witness:
  "process_portions_course True (TcpMsgFixedSizeDemarcar 4) [[1, 2, 3], [4, 5]] =
   process_portions True (TcpMsgFixedSizeDemarcar 4) [[1, 2, 3], [4, 5]]"
  by (rule course_demarcar_agrees) simp_all

text \<open>
  C37: a read that wraps around the end of the ring. It removes the same bytes as in the current
  edition, but the part behind the end is copied to the front of the destination, over the part
  before the end, instead of behind it.
\<close>

theorem wrapped_read_overwrites:
  assumes "bcb_wf b" "unat n \<le> length (contents b)" "unat n \<le> length dest"
    and "unat (rear b) + l = unat (buffer_size b)" "l < unat n"
  shows "\<exists>b'. BCBRead_course b dest n rm = Inr (n,
      put_at 0 (take (unat n - l) (drop l (contents b))) (put_at 0 (take l (contents b)) dest), b') \<and>
    BCBRead b dest n rm = Inr (n, put_at 0 (take (unat n) (contents b)) dest, b')"
proof -
  obtain b' d where b': "BCBRead_course b dest n rm = Inr (n,
      put_at 0 (take (unat n - l) (drop l (contents b))) (put_at 0 (take l (contents b)) dest), b')"
    "BCBRead b dest n rm = Inr (n, d, b')"
    using read_course_wrapped [OF assms, of rm] by blast
  have "unat n \<le> unat (current_size b)" using assms(1,2) by simp
  then have "d = put_at 0 (take (unat n) (contents b)) dest"
    using BCBRead_accepts [OF assms(1) _ assms(3), of rm] b'(2) by auto
  then show ?thesis using b' by blast
qed

theorem wrapped_read_overwrites_witness:
  "\<exists>b b'. bcb_wf b \<and> contents b = [1, 2, 3] \<and>
     BCBRead_course b [0, 0, 0] 3 True = Inr (3, [2, 3, 0], b')"
proof -
  let ?b = "\<lparr>buffer = [2, 3, 0, 1], buffer_size = 4, front = 2, rear = 3, current_size = 3\<rparr>"
  have b: "bcb_wf ?b" "contents ?b = [1, 2, 3]"
    by code_simp+
  from wrapped_read_overwrites [OF b(1), of 3 "[0, 0, 0]" 1 True] b show ?thesis
    by (auto simp: put_at_def)
qed

end
