(* ===== verification/CourseParser.thy ===== *)
theory CourseParser
  imports Parser
begin

text \<open>
  The parser of the edition under \<^verbatim>\<open>Course\<close>, \<^verbatim>\<open>Course/CommandParser/parser.c\<close>. Two things differ from
  the current edition: a line that ends in \<open>?\<close> also moves the cursor, and
  \<open>put_value_in_tlv\<close> (\<^verbatim>\<open>Course/CommandParser/cmdtlv.h\<close>) ends no value. The functions on the way
  from the line to these two places are given here; all others are those of the current edition.
\<close>

section \<open>The walk\<close>

text \<open>At most the size of the array is copied, and no end is written behind the copy.\<close>

definition put_value_in_tlv_course :: "tlv_struct \<Rightarrow> string \<Rightarrow> tlv_struct" where
  "put_value_in_tlv_course t v = t\<lparr>val := put_at 0 (take LEAF_VALUE_HOLDER_SIZE v) (val t)\<rparr>"

definition take_leaf_course :: "cli \<Rightarrow> pref \<Rightarrow> leaf \<Rightarrow> string \<Rightarrow> (cli \<times> CMD_PARSE_STATUS) res" where
  "take_leaf_course c p l token =
     rbind (leaf_handler (lf_type l) token) (\<lambda>rc.
     if rc \<noteq> VALIDATION_SUCCESS then Inr (c, INVALID_LEAF)
     else
       (case user_validation l token c of (c1, urc) \<Rightarrow>
          if urc \<noteq> 0 then Inr (c1, USER_INVALID_LEAF)
          else
            let t = put_value_in_tlv_course (prepare_tlv_from_leaf (lf_type l) (lf_id l) zero_tlv) token in
            rbind (set_leaf_value c1 p token) (\<lambda>c2.
            rbind (collect_tlv (tlv_buff c2) t) (\<lambda>b.
            Inr (c2\<lparr>tlv_buff := b\<rparr>, COMPLETE)))))"

definition walk_step_course :: "walk \<Rightarrow> string \<Rightarrow> (walk \<times> bool) res" where
  "walk_step_course w token =
     rbind (deref (w_cli w) (w_param w)) (\<lambda>x.
     rbind (find_matching_param (w_cli w) (options x) token) (\<lambda>(c1, found).
     let w1 = w\<lparr>w_cli := c1, w_parent := w_param w, w_param := found\<rparr> in
     case found of
       None \<Rightarrow> Inr (w1\<lparr>w_status := CMD_NOT_FOUND, w_token := token\<rparr>, False)
     | Some p \<Rightarrow>
         rbind (param_at c1 p) (\<lambda>y.
         if IS_PARAM_LEAF y
         then rbind (GET_PARAM_LEAF y) (\<lambda>l.
              rbind (take_leaf_course c1 p l token) (\<lambda>(c2, status).
              if status = COMPLETE then Inr (w1\<lparr>w_cli := c2\<rparr>, True)
              else Inr (w1\<lparr>w_cli := c2, w_status := status, w_token := token\<rparr>, False)))
         else if IS_PARAM_NO_CMD y then Inr (w1\<lparr>w_mode := CONFIG_DISABLE\<rparr>, True)
         else Inr (w1, True))))"

fun walk_loop_course :: "walk \<Rightarrow> string list \<Rightarrow> walk res" where
  "walk_loop_course w [] = Inr w"
| "walk_loop_course w (token # tokens) =
     rbind (walk_step_course w token) (\<lambda>(w', go_on). if go_on then walk_loop_course w' tokens else Inr w')"

section \<open>Dispatch\<close>

text \<open>
  The branch of \<open>?\<close>: the command code is written into its unit, which is not collected; the leaves
  up to here become those of a mode; then the children are listed and the cursor is moved, and
  below the root the console shows where.
\<close>

definition dispatch_question :: "pref option \<Rightarrow> cli \<Rightarrow> cli res" where
  "dispatch_question parent_ref c =
     rbind (deref c parent_ref) (\<lambda>par.
     rbind (mark_checkpoint_serialize_buffer (Some (tlv_buff c))) (\<lambda>b.
     let c1 = c\<lparr>code_tlv := (code_tlv c)
                  \<lparr>val := put_at 0 (show_int (CMDCODE par)) (replicate LEAF_VALUE_HOLDER_SIZE NUL)\<rparr>,
                tlv_buff := b\<rparr>
     in rbind (display_sub_options_callback parent_ref c1) (\<lambda>c2.
        rbind (set_cmd_tree_cursor c2 parent_ref) (\<lambda>c3.
        if parent_ref = Some root then Inr c3 else build_mode_console_name parent_ref c3))))"

definition dispatch_course :: "cmd_parser \<Rightarrow> walk \<Rightarrow> pref \<Rightarrow> (cli \<times> CMD_PARSE_STATUS) res" where
  "dispatch_course parse w p =
     (let c = emit (ANSI_COLOR_GREEN @ ''Parse Success.'' @ [NL] @ ANSI_COLOR_RESET) (w_cli w);
          done = (\<lambda>m. rbind m (\<lambda>c'. Inr (c', COMPLETE)))
      in if p = show_brief_extension then dispatch_brief parse p (w_parent w) c
         else if p = suboptions_param then done (dispatch_question (w_parent w) c)
         else if p = mode_param then done (dispatch_mode parse (w_parent w) (w_mode w) c)
         else if p = cmd_expansion_param then done (display_cmd_expansion_callback (w_parent w) c)
         else done (dispatch_command parse p (w_mode w) c))"

text \<open>All other outcomes of a walk are treated as in the current edition.\<close>

definition finish_walk_course :: "cmd_parser \<Rightarrow> walk \<Rightarrow> (cli \<times> CMD_PARSE_STATUS) res" where
  "finish_walk_course parse w =
     (case w_status w of
        COMPLETE \<Rightarrow>
          rbind (deref (w_cli w) (w_param w)) (\<lambda>x.
          case w_param w of
            None \<Rightarrow> Inl NullDeref
          | Some p \<Rightarrow>
              if callback x = None then Inr (incomplete_command (w_cli w), INCOMPLETE_COMMAND)
              else dispatch_course parse w p)
      | other \<Rightarrow> finish_walk parse w)"

definition build_tlv_buffer_course ::
    "cmd_parser \<Rightarrow> string list \<Rightarrow> cli \<Rightarrow> (cli \<times> CMD_PARSE_STATUS) res" where
  "build_tlv_buffer_course parse tokens c =
     rbind (walk_loop_course (start_walk c) tokens) (finish_walk_course parse)"

section \<open>Files of commands\<close>

definition parse_line_course :: "cmd_parser \<Rightarrow> string \<Rightarrow> cli \<Rightarrow> cli res" where
  "parse_line_course parse line c =
     rbind (tokenize_into (emit (''Executing : '' @ line) c) line CHR '' '') (\<lambda>(c1, token_cnt).
     rbind (build_tlv_buffer_course parse (take token_cnt (token_arr c1))
             (c1\<lparr>tlv_buff := reset_serialize_buffer (tlv_buff c1)\<rparr>)) (\<lambda>(c2, status).
     rbind (re_init_token_arr c2) settle_buffer))"

function parse_lines_course :: "cmd_parser \<Rightarrow> string \<Rightarrow> cli \<Rightarrow> cli res" where
  "parse_lines_course parse text c =
     (case fgets 255 text of
        None \<Rightarrow> Inr c
      | Some (line, rest) \<Rightarrow> rbind (parse_line_course parse line c) (parse_lines_course parse rest))"
  by pat_completeness auto
termination
  by (relation "measure (\<lambda>(_, text, _). length text)") (auto dest: fgets_shorter)

declare parse_lines_course.simps [simp del]

definition parse_file_course :: "cmd_parser \<Rightarrow> string \<Rightarrow> cli \<Rightarrow> cli res" where
  "parse_file_course parse file_name c =
     (case files c file_name of
        None \<Rightarrow> Inr (emit (''Error : Could not open log file '' @ file_name @ '', errno = 2'' @ [NL]) c)
      | Some text \<Rightarrow>
          rbind (parse_lines_course parse text
                  (c\<lparr>recording := False, tlv_buff := reset_serialize_buffer (tlv_buff c)\<rparr>)) (\<lambda>c1.
          Inr (place_console True c1)))"

section \<open>\<open>parse_input_cmd\<close>\<close>

definition do_command_course :: "cmd_parser \<Rightarrow> string list \<Rightarrow> cli \<Rightarrow> (cli \<times> CMD_PARSE_STATUS) res" where
  "do_command_course parse tokens c =
     rbind (get_current_branch_hook c (get_cmd_tree_cursor c)) (\<lambda>hook.
     if hook \<noteq> config
     then Inr (emit (''Info : do is supported from within config mode only'' @ [NL]) c, COMPLETE)
     else
       let old_cursor_state = get_cmd_tree_cursor c in
       rbind (set_cmd_tree_cursor c (Some do_hook)) (\<lambda>c1.
       rbind (build_tlv_buffer_course parse tokens
               (c1\<lparr>tlv_buff := reset_serialize_buffer (tlv_buff c1)\<rparr>)) (\<lambda>(c2, status).
       if get_cmd_tree_cursor c2 \<noteq> Some do_hook
       then rbind (get_current_branch_hook c2 (get_cmd_tree_cursor c2)) (\<lambda>h.
            if h = config then Inl AssertFail else Inr (c2, status))
       else
         rbind (set_cmd_tree_cursor c2 old_cursor_state) (\<lambda>c3.
         rbind (build_cmd_tree_leaves_data c3 (tlv_buff c3) (Some root) (cursor c3)) (\<lambda>b.
         rbind (mark_checkpoint_serialize_buffer (Some b)) (\<lambda>b'.
         Inr (c3\<lparr>tlv_buff := b'\<rparr>, status)))))))"

definition select_command_course ::
    "cmd_parser \<Rightarrow> token_array \<Rightarrow> nat \<Rightarrow> cli \<Rightarrow> (cli \<times> CMD_PARSE_STATUS \<times> bool) res" where
  "select_command_course parse ts token_cnt c =
     (let plain = (\<lambda>m. rbind m (\<lambda>c'. Inr (c', COMPLETE, False)));
          built = (\<lambda>m. rbind m (\<lambda>(c', status). Inr (c', status, False)))
      in if token_cnt > 1 \<and> strncmp_eq (ts ! 0) ''do'' 2 \<and> get_cmd_tree_cursor c \<noteq> Some root
         then built (do_command_course parse (take (token_cnt - 1) (drop 1 ts)) c)
         else if abbreviates (ts ! 0) ''repeat''
         then rbind (invoke parse repeat OPERATIONAL c) (\<lambda>c'. Inr (c', COMPLETE, True))
         else if has_prefix (ts ! 0) ''cd..'' \<and> token_cnt = 1
         then plain (go_one_level_up_cmd_tree (get_cmd_tree_cursor c) c)
         else if has_prefix (ts ! 0) ''cd'' \<and> token_cnt = 1
         then plain (goto_top_of_cmd_tree (get_cmd_tree_cursor c) c)
         else if has_prefix (ts ! 0) ''cls'' \<and> token_cnt = 1
         then plain (Inr (clear_screen_handler c))
         else if has_prefix (ts ! 0) ''run'' \<and> has_prefix (ts ! 1) ''ut'' \<and> token_cnt = 4
         then plain (rbind (run_test_case parse (ts ! 2) (uint16 (strtol (ts ! 3))) c) (\<lambda>(c', found). Inr c'))
         else if has_prefix (ts ! 0) ''config'' \<and> has_prefix (ts ! 1) ''load'' \<and> token_cnt = 3
         then plain (parse_file_course parse (ts ! 2) c)
         else built (build_tlv_buffer_course parse (take token_cnt ts) c))"

definition parse_body_course :: "cmd_parser \<Rightarrow> string \<Rightarrow> cli \<Rightarrow> (cli \<times> CMD_PARSE_STATUS \<times> bool) res" where
  "parse_body_course parse input c =
     rbind (tokenize_into c input CHR '' '') (\<lambda>(c1, token_cnt).
     if token_cnt = 0 then Inr (c1, INCOMPLETE_COMMAND, False)
     else
       rbind (select_command_course parse (token_arr c1) token_cnt c1) (\<lambda>(c2, status, is_repeat_cmd).
       rbind (re_init_token_arr c2) (\<lambda>c3.
       rbind (settle_buffer c3) (\<lambda>c4. Inr (c4, status, is_repeat_cmd)))))"

fun parse_input_cmd_course :: "nat \<Rightarrow> cmd_parser" where
  "parse_input_cmd_course 0 input c = Inl Diverges"
| "parse_input_cmd_course (Suc n) input c = parse_body_course (parse_input_cmd_course n) input c"

section \<open>The shell\<close>

definition shell_step_course :: "nat \<Rightarrow> cli \<Rightarrow> cli res" where
  "shell_step_course fuel c =
     (case fgets (CONS_INPUT_BUFFER_SIZE - 1) (stdin_text c) of
        None \<Rightarrow> Inl Exited
      | Some (line, rest) \<Rightarrow>
          let c0 = c\<lparr>stdin_text := rest\<rparr> in
          if length line = 1 then Inr (place_console False c0)
          else
            let cmd = butlast line in
            rbind (parse_input_cmd_course fuel cmd c0) (\<lambda>(c1, status, is_repeat_cmd).
            if is_repeat_cmd then Inr (place_console True c1)
            else
              let c2 = (if status = COMPLETE \<and> recording c1 then record_command cmd c1 else c1)
              in Inr (place_console True (c2\<lparr>recording := True, last_command := cmd\<rparr>))))"

fun command_parser_course :: "nat \<Rightarrow> nat \<Rightarrow> cli \<Rightarrow> cli res" where
  "command_parser_course 0 fuel c = Inr c"
| "command_parser_course (Suc n) fuel c = rbind (shell_step_course fuel c) (command_parser_course n fuel)"

end
