(* ===== verification/CourseParserProps.thy ===== *)
theory CourseParserProps
  imports CourseParser CliProps
begin

text \<open>
  The parser of the edition under \<^verbatim>\<open>Course\<close> against the current one: they agree on lines without a
  question mark, and a question mark moves the cursor.
\<close>

section \<open>Finding the question mark\<close>







section \<open>The walks agree\<close>

lemma take_leaf_agrees:
  assumes "length t < LEAF_VALUE_HOLDER_SIZE"
  shows "take_leaf_course c p l t = take_leaf c p l t"
proof -
  let ?z = "prepare_tlv_from_leaf (lf_type l) (lf_id l) zero_tlv"
  have "put_at 0 (take 64 t) (replicate 64 NUL) = put_at 0 (t @ [NUL]) (replicate 64 NUL)"
    using assms by (simp add: put_at_def Suc_diff_le replicate_Suc [symmetric] Suc_diff_Suc del: replicate_Suc)
  then have pv: "put_value_in_tlv ?z t = Inr (put_value_in_tlv_course ?z t)"
    using assms
    by (simp add: put_value_in_tlv_def put_value_in_tlv_course_def prepare_tlv_from_leaf_def zero_tlv_def)
  show ?thesis unfolding take_leaf_course_def take_leaf_def Let_def pv by (simp cong: if_cong)
qed

lemma walk_loop_agrees:
  "\<forall>t\<in>set ts. length t < LEAF_VALUE_HOLDER_SIZE \<Longrightarrow> walk_loop_course w ts = walk_loop w ts"
proof (induction ts arbitrary: w)
  case (Cons t ts)
  then have "length t < LEAF_VALUE_HOLDER_SIZE" by simp
  then have "walk_step_course w t = walk_step w t"
    by (simp only: walk_step_course_def walk_step_def take_leaf_agrees)
  then show ?case using Cons by (simp add: case_prod_unfold cong: if_cong)
qed simp









section \<open>The question mark\<close>

lemma walk_loop_append:
  assumes "walk_loop w ts = Inr w'" "w_status w' = COMPLETE"
  shows "walk_loop w (ts @ us) = walk_loop w' us"
  using assms
proof (induction ts arbitrary: w)
  case (Cons t ts)
  then obtain w1 b where w1: "walk_step w t = Inr (w1, b)"
    "(if b then walk_loop w1 ts else Inr w1) = Inr w'"
    by (auto elim!: rbindE)
  have "b \<or> w_status w1 \<noteq> COMPLETE"
    using w1(1) by (auto simp: walk_step_def Let_def elim!: rbindE split: option.splits if_splits)
  then have "b" using w1(2) Cons.prems(2) by (cases b) auto
  then show ?case using Cons.IH [of w1] Cons.prems(2) w1 by simp
qed simp

text \<open>The words lead to \<open>q\<close>, and \<open>?\<close> is a command below it.\<close>

definition asks_below :: "cli \<Rightarrow> pref \<Rightarrow> bool" where
  "asks_below c q \<longleftrightarrow>
     the_child c q ''?'' = Some suboptions_param \<and> suboptions_param < length (params c) \<and>
     param_type (params c ! suboptions_param) = CMD \<and>
     callback (params c ! suboptions_param) \<noteq> None \<and> disp_callback (params c ! q) = None \<and>
     (\<exists>ls. sub_option_lines c (drop CHILDREN_START_INDEX (options (params c ! q))) = Inr ls)"

lemma sub_option_lines_shape:
  assumes "shape c = shape c'"
  shows "sub_option_lines c os = sub_option_lines c' os"
proof (induction os)
  case (Cons o' os)
  show ?case
  proof (cases o')
    case (Some q)
    show ?thesis
    proof (cases "q < length (params c)")
      case True
      have "GET_LEAF_TYPE_STR (erase x) = GET_LEAF_TYPE_STR x" for x
        by (simp add: erase_def GET_LEAF_TYPE_STR_def GET_PARAM_LEAF_def split: cmd_union.split)
      moreover have "GET_PARAM_HELP_STRING (erase x) = GET_PARAM_HELP_STRING x" for x
        by (simp add: GET_PARAM_HELP_STRING_def)
      moreover note eq = shape_eq_field [OF assms _ True]
      ultimately have "GET_LEAF_TYPE_STR (params c ! q) = GET_LEAF_TYPE_STR (params c' ! q)"
        "GET_PARAM_HELP_STRING (params c ! q) = GET_PARAM_HELP_STRING (params c' ! q)"
        "ishidden (params c ! q) = ishidden (params c' ! q)"
        "GET_CMD_NAME (params c ! q) = GET_CMD_NAME (params c' ! q)"
        "IS_PARAM_CMD (params c ! q) = IS_PARAM_CMD (params c' ! q)"
        "IS_PARAM_NO_CMD (params c ! q) = IS_PARAM_NO_CMD (params c' ! q)"
        by (auto intro!: eq)
      moreover have "q < length (params c')" using True shape_length [OF assms] by simp
      ultimately show ?thesis using Some True Cons.IH by (simp add: param_at_def)
    next
      case False
      then show ?thesis using Some shape_length [OF assms] by (simp add: param_at_def)
    qed
  qed simp
qed simp

lemma asks_below_shape:
  assumes "shape c' = shape c" "q < length (params c)" "asks_below c q"
  shows "asks_below c' q"
proof -
  note eq = shape_eq_field [OF assms(1), of _ suboptions_param] shape_eq_field [OF assms(1), of _ q]
  have "suboptions_param < length (params c')" "q < length (params c')"
    using assms shape_length [OF assms(1)] by (simp_all add: asks_below_def)
  then show ?thesis
    using assms(3) the_child_shape [OF assms(1)] sub_option_lines_shape [OF assms(1)]
      eq(1) [of param_type] eq(1) [of callback] eq(2) [of disp_callback] eq(2) [of options]
    by (simp add: asks_below_def)
qed

lemma walk_question:
  assumes "cursor c = Some p" "ready c" "resolve c p MODE_UNKNOWN ws = Some (q, m, us)"
    and "\<forall>t\<in>set ws. length t < LEAF_VALUE_HOLDER_SIZE" "q < length (params c)" "asks_below c q"
    and "length ws \<le> MAX_CMD_TREE_DEPTH"
  obtains w where "walk_loop (start_walk c) (ws @ [''?'']) = Inr w"
    "walk_loop_course (start_walk c) (ws @ [''?'']) = Inr w" "w_parent w = Some q"
    "w_param w = Some suboptions_param" "w_status w = COMPLETE" "rest_same c (w_cli w)"
    "asks_below (w_cli w) q" "q < length (params (w_cli w))" "tlv_wf (tlv_buff (w_cli w))"
    "tlvs (tlv_buff (w_cli w)) = tlvs (tlv_buff c) @ us"
    "tlvs_marked (tlv_buff (w_cli w)) = tlvs_marked (tlv_buff c)" "all_short c \<longrightarrow> all_short (w_cli w)"
proof -
  have "\<exists>w'. walk_loop (start_walk c) ws = Inr w' \<and> w_param w' = Some q \<and> w_mode w' = m \<and>
    w_status w' = COMPLETE \<and> rest_same c (w_cli w') \<and> tlv_wf (tlv_buff (w_cli w')) \<and>
    tlvs (tlv_buff (w_cli w')) = tlvs (tlv_buff c) @ us \<and>
    tlvs_marked (tlv_buff (w_cli w')) = tlvs_marked (tlv_buff c)"
    using walk_resolve [of "start_walk c" p c ws q m us] assms(1-3,7) resolve_units [OF assms(3)]
    by (simp add: start_walk_def get_cmd_tree_cursor_def ready_def)
  then obtain w where w: "walk_loop (start_walk c) ws = Inr w" "w_param w = Some q"
    "w_status w = COMPLETE" "rest_same c (w_cli w)" "tlv_wf (tlv_buff (w_cli w))"
    "tlvs (tlv_buff (w_cli w)) = tlvs (tlv_buff c) @ us"
    "tlvs_marked (tlv_buff (w_cli w)) = tlvs_marked (tlv_buff c)"
    by blast
  note same = rest_same_fields [OF w(4)]
  have q: "q < length (params (w_cli w))" using assms(5) shape_length [OF same(1)] by simp
  have ask: "asks_below (w_cli w) q" by (rule asks_below_shape [OF same(1) assms(5,6)])
  note f = find_the_child [of "w_cli w" q "''?''" suboptions_param]
  let ?w = "w\<lparr>w_parent := Some q, w_param := Some suboptions_param\<rparr>"
  have "walk_step w ''?'' = Inr (?w, True)"
    using ask f q w(2)
    by (simp add: walk_step_def asks_below_def IS_PARAM_LEAF_def IS_PARAM_NO_CMD_def)
  then have walk: "walk_loop (start_walk c) (ws @ [''?'']) = Inr ?w"
    using walk_loop_append [OF w(1,3)] by simp
  have "\<forall>t\<in>set (ws @ [''?'']). length t < LEAF_VALUE_HOLDER_SIZE" using assms(4) by simp
  then have "walk_loop_course (start_walk c) (ws @ [''?'']) = Inr ?w"
    using walk walk_loop_agrees by metis
  moreover have "all_short c \<longrightarrow> all_short (w_cli w)"
    using short_kept.walk_loop_kept [OF w(1)] by (simp add: start_walk_def)
  ultimately show thesis using that [OF walk] w ask q by simp
qed

text \<open>
  The listing below a parameter: a line for the end of the command, if one may end here, and a line
  for each child that is not hidden.
\<close>

definition listed :: "cli \<Rightarrow> pref \<Rightarrow> string list" where
  "listed c q =
     (if callback (params c ! q) = None then [] else [''<Enter>'' @ [NL]]) @
     (case sub_option_lines c (drop CHILDREN_START_INDEX (options (params c ! q))) of Inl e \<Rightarrow> [] | Inr ls \<Rightarrow> ls)"

lemma listed_shape: "shape c' = shape c \<Longrightarrow> q < length (params c) \<Longrightarrow> listed c' q = listed c q"
  using shape_eq_field [of c' c callback q] shape_eq_field [of c' c options q] shape_length [of c' c]
    sub_option_lines_shape [of c' c]
  by (simp add: listed_def)

lemma listing:
  assumes "asks_below c0 q" "q < length (params c0)" "shape c = shape c0"
  shows "display_sub_options_callback (Some q) c = Inr (c\<lparr>out := out c @ listed c0 q\<rparr>)"
proof -
  have "q < length (params c)" using assms(2) shape_length [OF assms(3)] by simp
  then show ?thesis
    using asks_below_shape [OF assms(3,2,1)] listed_shape [OF assms(3,2), symmetric]
    by (auto simp: display_sub_options_callback_def asks_below_def Let_def listed_def)
qed

abbreviation success :: "cli \<Rightarrow> cli" where
  "success \<equiv> emit (ANSI_COLOR_GREEN @ ''Parse Success.'' @ [NL] @ ANSI_COLOR_RESET)"

text \<open>
  The line up to the listing: the cursor is set, the leaves of the words are in the buffer and
  under its mark; what is left to do is to name the level in the prompt.
\<close>

lemma build_question:
  assumes "cursor c = Some p" "ready c" "resolve c p MODE_UNKNOWN ws = Some (q, m, us)"
    and "\<forall>t\<in>set ws. length t < LEAF_VALUE_HOLDER_SIZE" "q < length (params c)" "asks_below c q"
    and "length ws \<le> MAX_CMD_TREE_DEPTH"
  obtains c1 where "build_tlv_buffer_course parse (ws @ [''?'']) c =
      rbind (if q = root then Inr c1 else build_mode_console_name (Some q) c1) (\<lambda>c'. Inr (c', COMPLETE))"
    "cursor c1 = Some q" "shape c1 = shape c" "console_name c1 = console_name c" "token_arr c1 = token_arr c"
    "tlv_wf (tlv_buff c1)" "tlvs (tlv_buff c1) = tlvs (tlv_buff c) @ us" "tlvs_marked (tlv_buff c1) = tlvs (tlv_buff c) @ us"
    "all_short c \<longrightarrow> all_short c1" "\<exists>o'. out c1 = o' @ listed c q"
proof -
  obtain w where w: "walk_loop_course (start_walk c) (ws @ [''?'']) = Inr w" "w_parent w = Some q"
    "w_param w = Some suboptions_param" "w_status w = COMPLETE" "rest_same c (w_cli w)"
    "asks_below (w_cli w) q" "q < length (params (w_cli w))" "tlv_wf (tlv_buff (w_cli w))"
    "tlvs (tlv_buff (w_cli w)) = tlvs (tlv_buff c) @ us" "all_short c \<longrightarrow> all_short (w_cli w)"
    using walk_question [OF assms] by metis
  note same = rest_same_fields [OF w(5)]
  let ?c = "success (w_cli w)"
  have dq: "build_tlv_buffer_course parse (ws @ [''?'']) c =
      rbind (dispatch_question (Some q) ?c) (\<lambda>c'. Inr (c', COMPLETE))"
    using w by (auto simp: build_tlv_buffer_course_def finish_walk_course_def dispatch_course_def asks_below_def)
  obtain b where b: "mark_checkpoint_serialize_buffer (Some (tlv_buff ?c)) = Inr b" "tlv_wf b"
    "tlvs b = tlvs (tlv_buff c) @ us" "tlvs_marked b = tlvs (tlv_buff c) @ us"
    using mark_tlvs [OF w(8)] w(9) by auto
  let ?t = "(code_tlv ?c)\<lparr>val := put_at 0 (show_int (CMDCODE (params ?c ! q)))
      (replicate LEAF_VALUE_HOLDER_SIZE NUL)\<rparr>"
  let ?c1 = "?c\<lparr>code_tlv := ?t, tlv_buff := b\<rparr>"
  let ?o = "out ?c1 @ listed c q"
  have o': "display_sub_options_callback (Some q) ?c1 = Inr (?c1\<lparr>out := ?o\<rparr>)"
    using listing [OF assms(6,5), of ?c1] same(1) by (simp add: shape_def)
  let ?c2 = "?c1\<lparr>out := ?o, cursor := Some q\<rparr>"
  have "dispatch_question (Some q) ?c =
      (if q = root then Inr ?c2 else build_mode_console_name (Some q) ?c2)"
    using b(1) o' w(7) by (simp add: dispatch_question_def set_cmd_tree_cursor_def)
  then have build: "build_tlv_buffer_course parse (ws @ [''?'']) c =
      rbind (if q = root then Inr ?c2 else build_mode_console_name (Some q) ?c2) (\<lambda>c'. Inr (c', COMPLETE))"
    using dq by simp
  have "shape ?c2 = shape c" using same(1) by (simp add: shape_def)
  moreover have "tlv_wf (tlv_buff ?c2)" using b(2) by simp
  moreover have "all_short c \<longrightarrow> all_short ?c2" using w(10) by (simp add: all_short_def)
  moreover have "console_name ?c2 = console_name c" "token_arr ?c2 = token_arr c"
    using same(3,4) by (simp_all add: emit_def)
  ultimately show thesis using that [OF build] b(3,4) by simp
qed

lemma build_question_current:
  assumes "cursor c = Some p" "ready c" "resolve c p MODE_UNKNOWN ws = Some (q, m, us)"
    and "\<forall>t\<in>set ws. length t < LEAF_VALUE_HOLDER_SIZE" "q < length (params c)" "asks_below c q"
    and "length ws \<le> MAX_CMD_TREE_DEPTH"
  obtains c1 where "build_tlv_buffer parse (ws @ [''?'']) c = Inr (c1, COMPLETE)" "cursor c1 = cursor c"
    "console_name c1 = console_name c" "token_arr c1 = token_arr c" "tlv_wf (tlv_buff c1)"
    "tlvs_marked (tlv_buff c1) = tlvs_marked (tlv_buff c)" "\<exists>o'. out c1 = o' @ listed c q"
proof -
  obtain w where w: "walk_loop (start_walk c) (ws @ [''?'']) = Inr w" "w_parent w = Some q"
    "w_param w = Some suboptions_param" "w_status w = COMPLETE" "rest_same c (w_cli w)"
    "asks_below (w_cli w) q" "q < length (params (w_cli w))" "tlv_wf (tlv_buff (w_cli w))"
    "tlvs_marked (tlv_buff (w_cli w)) = tlvs_marked (tlv_buff c)"
    using walk_question [OF assms] by metis
  note same = rest_same_fields [OF w(5)]
  let ?c = "success (w_cli w)"
  have o': "display_sub_options_callback (Some q) ?c = Inr (?c\<lparr>out := out ?c @ listed c q\<rparr>)"
    using listing [OF assms(6,5), of ?c] same(1) by simp
  have "build_tlv_buffer parse (ws @ [''?'']) c = Inr (?c\<lparr>out := out ?c @ listed c q\<rparr>, COMPLETE)"
    using w o' by (auto simp: build_tlv_buffer_def finish_walk_def dispatch_def asks_below_def)
  then show thesis using that w(8,9) same(2-4) by (simp add: emit_def)
qed

lemma join_names_length:
  "\<forall>s\<in>set ss. length s < 64 \<Longrightarrow> length (join_names ss) \<le> 64 * length ss"
  by (induction ss rule: join_names.induct) auto

text \<open>The prompt: the name of the device, and a level that fits a token.\<close>

definition prompt :: "cli \<Rightarrow> string \<Rightarrow> bool" where
  "prompt c b \<longleftrightarrow> plain_name b \<and> (\<exists>m. console_name c = b @ CHR ''>'' # m \<and> CHR ''>'' \<notin> set m \<and>
     (m = [] \<or> \<not> isspace (last m)) \<and> length m < LEAF_VALUE_HOLDER_SIZE)"

definition named :: "param \<Rightarrow> bool" where
  "named x \<longleftrightarrow> typed x \<and> (\<forall>n. cmd_type x = CmdPtr n \<longrightarrow> length n < LEAF_VALUE_HOLDER_SIZE)"

definition level_name :: "cli \<Rightarrow> pref list \<Rightarrow> string" where
  "level_name c ps = join_names (map (\<lambda>r. label (params c ! r)) ps)"

lemma named_erase [simp]: "named (erase x) = named x"
  by (simp add: named_def typed_def erase_def split: cmd_union.split)

lemma console_base_prompt:
  assumes "prompt c b" "length (token_arr c) = MAX_CMD_TREE_DEPTH"
  shows "\<exists>ts. console_base ''> '' c = Inr (c\<lparr>token_arr := ts, console_name := b @ ''> ''\<rparr>) \<and>
    length ts = MAX_CMD_TREE_DEPTH"
  using assms console_base_fits [of b _ c "''> ''"] by (auto simp: prompt_def)

lemma name_level:
  assumes "prompt c b" "length (token_arr c) = MAX_CMD_TREE_DEPTH" "branch c q ps" "q \<noteq> root"
    and "\<forall>r\<in>set ps. named (params c ! r)" "all_short c" "length ps \<le> MAX_CMD_TREE_DEPTH"
  shows "\<exists>ts. build_mode_console_name (Some q) c =
      Inr (c\<lparr>token_arr := ts, console_name := b @ ''> '' @ level_name c ps\<rparr>) \<and> length ts = MAX_CMD_TREE_DEPTH"
proof -
  obtain ts where ts: "console_base ''> '' c = Inr (c\<lparr>token_arr := ts, console_name := b @ ''> ''\<rparr>)"
    "length ts = MAX_CMD_TREE_DEPTH"
    using console_base_prompt [OF assms(1,2)] by blast
  let ?c = "c\<lparr>token_arr := ts, console_name := b @ ''> ''\<rparr>"
  have "branch ?c q ps" by (rule branch_shape [OF assms(3)]) (simp add: shape_def)
  then have names: "mode_names ?c MAX_CMD_TREE_DEPTH (Some q) [] = Inr (map (\<lambda>r. label (params c ! r)) ps)"
    using mode_names_branch [of ?c q ps MAX_CMD_TREE_DEPTH "[]"] assms(5,7) by (auto simp: named_def)
  have "length (label (params c ! r)) < 64" if "r \<in> set ps" for r
  proof -
    have "r < length (params c)" using that branch_in [OF assms(3)] by blast
    then have "short_value (params c ! r)" using assms(6) by (auto simp: all_short_def)
    then show ?thesis
      using that assms(5) by (auto simp: label_def short_value_def named_def typed_def split: cmd_union.splits)
  qed
  then have "length (level_name c ps) \<le> 64 * length ps"
    using join_names_length [of "map (\<lambda>r. label (params c ! r)) ps"] by (simp add: level_name_def)
  moreover have "length b < 64" using assms(1) by (simp add: prompt_def plain_name_def)
  ultimately have "length (b @ ''> '' @ level_name c ps) < TERMINAL_NAME_SIZE" using assms(7) by simp
  then show ?thesis
    using ts names assms(4)
    by (intro exI [of _ ts]) (simp add: build_mode_console_name_def set_console_def level_name_def)
qed

lemma select_course_ordinary:
  assumes "ordinary c ws" "ws \<noteq> []" "ts = ws @ r"
  shows "select_command_course parse ts (length ws) c =
    rbind (build_tlv_buffer_course parse ws c) (\<lambda>(c', status). Inr (c', status, False))"
  by (simp only: select_command_course_def Let_def get_cmd_tree_cursor_def ordinary_tests [OF assms] if_False)

lemma parse_course_ordinary:
  assumes "fits_tokens s" "length (token_arr c) = MAX_CMD_TREE_DEPTH" "words_of s \<noteq> []"
    and "ordinary c (words_of s)"
  shows "parse_body_course parse s c =
    rbind (build_tlv_buffer_course parse (words_of s)
            (c\<lparr>token_arr := words_of s @ drop (length (words_of s)) (token_arr c)\<rparr>)) (\<lambda>(c2, status).
    rbind (re_init_token_arr c2) (\<lambda>c3.
    rbind (settle_buffer c3) (\<lambda>c4. Inr (c4, status, False))))"
proof -
  let ?c = "c\<lparr>token_arr := words_of s @ drop (length (words_of s)) (token_arr c)\<rparr>"
  have "ordinary ?c (words_of s)" using assms(4) by (simp add: ordinary_def)
  then have "select_command_course parse (token_arr ?c) (length (words_of s)) ?c =
    rbind (build_tlv_buffer_course parse (words_of s) ?c) (\<lambda>(c', status). Inr (c', status, False))"
    using assms(3) by (intro select_course_ordinary) auto
  then show ?thesis
    using tokenize_words [OF assms(1,2)] assms(3)
    by (simp add: parse_body_course_def rbind_assoc case_prod_unfold)
qed

text \<open>A line whose words lead to \<open>q\<close> and that ends in a question mark, and the state it is parsed in.\<close>

definition question_line :: "cli \<Rightarrow> string \<Rightarrow> string list \<Rightarrow> pref \<Rightarrow> pref \<Rightarrow> tlv_struct list \<Rightarrow> bool" where
  "question_line c s ws p q us \<longleftrightarrow>
     fits_tokens s \<and> words_of s = ws @ [''?''] \<and> ordinary c (words_of s) \<and>
     length (token_arr c) = MAX_CMD_TREE_DEPTH \<and> cursor c = Some p \<and> ready c \<and>
     (\<exists>m. resolve c p MODE_UNKNOWN ws = Some (q, m, us)) \<and> q < length (params c) \<and> asks_below c q"

definition with_tokens :: "string \<Rightarrow> cli \<Rightarrow> cli" where
  "with_tokens s c = c\<lparr>token_arr := words_of s @ drop (length (words_of s)) (token_arr c)\<rparr>"

lemma with_tokens_fields [simp]:
  "shape (with_tokens s c) = shape c" "cursor (with_tokens s c) = cursor c" "params (with_tokens s c) = params c"
  "ready (with_tokens s c) = ready c" "tlv_buff (with_tokens s c) = tlv_buff c"
  "console_name (with_tokens s c) = console_name c" "all_short (with_tokens s c) = all_short c"
  by (simp_all add: with_tokens_def shape_def ready_def coded_def all_short_def)

lemma question_line_facts:
  assumes "question_line c s ws p q us"
  shows "cursor (with_tokens s c) = Some p" "ready (with_tokens s c)"
    "\<exists>m. resolve (with_tokens s c) p MODE_UNKNOWN ws = Some (q, m, us)"
    "\<forall>t\<in>set ws. length t < LEAF_VALUE_HOLDER_SIZE" "q < length (params (with_tokens s c))"
    "asks_below (with_tokens s c) q" "length (token_arr (with_tokens s c)) = MAX_CMD_TREE_DEPTH"
    "length ws \<le> MAX_CMD_TREE_DEPTH" "listed (with_tokens s c) q = listed c q"
  using listed_shape [of "with_tokens s c" c q] assms resolve_shape [of "with_tokens s c" c] asks_below_shape [of "with_tokens s c" c q]
  by (auto simp: question_line_def fits_tokens_def with_tokens_def shape_def ready_def coded_def)

lemma question_line_parse:
  assumes "question_line c s ws p q us"
  shows "parse_body parse s c =
    rbind (build_tlv_buffer parse (words_of s) (with_tokens s c)) (\<lambda>(c2, status).
    rbind (re_init_token_arr c2) (\<lambda>c3. rbind (settle_buffer c3) (\<lambda>c4. Inr (c4, status, False))))"
    "parse_body_course parse s c =
    rbind (build_tlv_buffer_course parse (words_of s) (with_tokens s c)) (\<lambda>(c2, status).
    rbind (re_init_token_arr c2) (\<lambda>c3. rbind (settle_buffer c3) (\<lambda>c4. Inr (c4, status, False))))"
  unfolding with_tokens_def
  by (rule parse_body_ordinary parse_course_ordinary; use assms in \<open>simp add: question_line_def\<close>;
      use assms in \<open>auto simp: question_line_def\<close>)+

lemma question_line_course:
  assumes "question_line c s ws p q us" "all_short c" "prompt c b" "branch c q ps" "q \<noteq> root"
    and "\<forall>r\<in>set ps. named (params c ! r)" "length ps \<le> MAX_CMD_TREE_DEPTH"
  shows "\<exists>c'. parse_body_course parse s c = Inr (c', COMPLETE, False) \<and> cursor c' = Some q \<and>
      console_name c' = b @ ''> '' @ level_name c' ps \<and>
      tlvs (tlv_buff c') = tlvs (tlv_buff c) @ us \<and> tlvs_marked (tlv_buff c') = tlvs (tlv_buff c) @ us \<and>
      (\<exists>o'. out c' = o' @ listed c q)"
proof -
  note f = question_line_facts [OF assms(1)]
  have ws: "words_of s = ws @ [''?'']" using assms(1) by (simp add: question_line_def)
  let ?c = "with_tokens s c"
  obtain m where m: "resolve ?c p MODE_UNKNOWN ws = Some (q, m, us)" using f(3) by blast
  obtain c1 where c1: "build_tlv_buffer_course parse (ws @ [''?'']) ?c =
      rbind (if q = root then Inr c1 else build_mode_console_name (Some q) c1) (\<lambda>c'. Inr (c', COMPLETE))"
    "cursor c1 = Some q" "shape c1 = shape ?c" "console_name c1 = console_name ?c" "token_arr c1 = token_arr ?c"
    "tlv_wf (tlv_buff c1)" "tlvs (tlv_buff c1) = tlvs (tlv_buff ?c) @ us" "tlvs_marked (tlv_buff c1) = tlvs (tlv_buff ?c) @ us"
    "all_short ?c \<longrightarrow> all_short c1" "\<exists>o'. out c1 = o' @ listed ?c q"
    by (rule build_question [OF f(1,2) m f(4-6,8), of parse])
  have k: "build_tlv_buffer_course parse (words_of s) ?c =
      rbind (build_mode_console_name (Some q) c1) (\<lambda>c'. Inr (c', COMPLETE))"
    "cursor c1 = Some q" "shape c1 = shape c" "console_name c1 = console_name c"
    "token_arr c1 = token_arr ?c" "tlv_wf (tlv_buff c1)" "tlvs_marked (tlv_buff c1) = tlvs (tlv_buff c) @ us"
    "all_short c1" "\<exists>o'. out c1 = o' @ listed c q"
    using c1 assms(2,5) f(9) by (simp_all add: ws)
  have br: "branch c1 q ps" by (rule branch_shape [OF assms(4) k(3) [symmetric]])
  have "named (params c1 ! r)" if "r \<in> set ps" for r
    using that branch_in [OF br] shape_eq_field [OF k(3), of named r] assms(6) by auto
  moreover have "prompt c1 b" using assms(3) k(4) by (simp add: prompt_def)
  ultimately obtain ts where ts: "length ts = MAX_CMD_TREE_DEPTH" "build_mode_console_name (Some q) c1 =
      Inr (c1\<lparr>token_arr := ts, console_name := b @ ''> '' @ level_name c1 ps\<rparr>)"
    using name_level [OF _ _ br assms(5) _ k(8) assms(7)] k(5) f(7) by metis
  let ?c2 = "c1\<lparr>console_name := b @ ''> '' @ level_name c1 ps, token_arr := replicate MAX_CMD_TREE_DEPTH []\<rparr>"
  obtain b' where b': "settle_buffer ?c2 = Inr (?c2\<lparr>tlv_buff := b'\<rparr>)"
    "tlvs b' = tlvs (tlv_buff c) @ us" "tlvs_marked b' = tlvs (tlv_buff c) @ us"
    using settle_buffer_eq [of ?c2] k(2,6,7) assms(5) by auto
  have "parse_body_course parse s c = Inr (?c2\<lparr>tlv_buff := b'\<rparr>, COMPLETE, False)"
    using k(1) ts b'(1) re_init_token_arr_eq [of "c1\<lparr>token_arr := ts, console_name := _\<rparr>"]
    by (simp add: question_line_parse(2) [OF assms(1)])
  then show ?thesis
    using b'(2,3) k(2,9) by (intro exI [of _ "?c2\<lparr>tlv_buff := b'\<rparr>"]) (simp add: level_name_def)
qed

lemma question_line_current:
  assumes "question_line c s ws p q us"
  shows "\<exists>c'. parse_body parse s c = Inr (c', COMPLETE, False) \<and> cursor c' = Some p \<and>
      console_name c' = console_name c \<and>
      tlvs (tlv_buff c') = (if p = root then [] else tlvs_marked (tlv_buff c)) \<and>
      (\<exists>o'. out c' = o' @ listed c q)"
proof -
  note f = question_line_facts [OF assms]
  have ws: "words_of s = ws @ [''?'']" using assms by (simp add: question_line_def)
  let ?c = "with_tokens s c"
  obtain m where m: "resolve ?c p MODE_UNKNOWN ws = Some (q, m, us)" using f(3) by blast
  obtain c1 where c1: "build_tlv_buffer parse (ws @ [''?'']) ?c = Inr (c1, COMPLETE)"
    "cursor c1 = cursor ?c" "console_name c1 = console_name ?c" "token_arr c1 = token_arr ?c"
    "tlv_wf (tlv_buff c1)" "tlvs_marked (tlv_buff c1) = tlvs_marked (tlv_buff ?c)"
    "\<exists>o'. out c1 = o' @ listed ?c q"
    by (rule build_question_current [OF f(1,2) m f(4-6,8), of parse])
  have k: "build_tlv_buffer parse (words_of s) ?c = Inr (c1, COMPLETE)"
    "cursor c1 = Some p" "console_name c1 = console_name c" "length (token_arr c1) = MAX_CMD_TREE_DEPTH"
    "tlv_wf (tlv_buff c1)" "tlvs_marked (tlv_buff c1) = tlvs_marked (tlv_buff c)"
    "\<exists>o'. out c1 = o' @ listed c q"
    using c1 f(1,7,9) by (simp_all add: ws)
  let ?c2 = "c1\<lparr>token_arr := replicate MAX_CMD_TREE_DEPTH []\<rparr>"
  obtain b' where b': "settle_buffer ?c2 = Inr (?c2\<lparr>tlv_buff := b'\<rparr>)"
    "tlvs b' = (if p = root then [] else tlvs_marked (tlv_buff c))"
    using settle_buffer_eq [of ?c2] k(2,5,6) by auto
  have "parse_body parse s c = Inr (?c2\<lparr>tlv_buff := b'\<rparr>, COMPLETE, False)"
    using k(1) re_init_token_arr_eq [OF k(4)] b'(1) by (simp add: question_line_parse(1) [OF assms])
  then show ?thesis
    using b'(2) k(2,3,7) by (intro exI [of _ "?c2\<lparr>tlv_buff := b'\<rparr>"]) simp
qed

text \<open>A level outside the tree: its name cannot be made.\<close>

lemma name_level_outside:
  assumes "prompt c b" "length (token_arr c) = MAX_CMD_TREE_DEPTH" "q < length (params c)" "q \<noteq> root"
    and "typed (params c ! q)" "parent (params c ! q) = None"
  shows "build_mode_console_name (Some q) c = Inl NullDeref"
proof -
  obtain ts where ts: "console_base ''> '' c = Inr (c\<lparr>token_arr := ts, console_name := b @ ''> ''\<rparr>)"
    using console_base_prompt [OF assms(1,2)] by blast
  have "mode_names (c\<lparr>token_arr := ts, console_name := b @ ''> ''\<rparr>) (Suc 15) (Some q) [] = Inl NullDeref"
    using assms(3,6) typed_label [OF assms(5)] mode_names.simps(2) [of _ 14 None]
    by (simp add: eval_nat_numeral)
  then show ?thesis using ts assms(4) by (simp add: build_mode_console_name_def)
qed

lemma do_question_faults:
  assumes "ready c" "length (token_arr c) = MAX_CMD_TREE_DEPTH" "prompt c b" "asks_below c do_hook"
    and "typed (params c ! do_hook)" "parent (params c ! do_hook) = None" "do_hook < length (params c)"
    and "get_current_branch_hook c (cursor c) = Inr config"
  shows "do_command_course parse [''?''] c = Inl NullDeref"
proof -
  let ?d = "c\<lparr>cursor := Some do_hook, tlv_buff := reset_serialize_buffer (tlv_buff c)\<rparr>"
  have "ready ?d" using assms(1) reset_tlvs by (auto simp: ready_def coded_def)
  moreover have sd: "shape ?d = shape c" by (simp add: shape_def)
  moreover have "asks_below ?d do_hook" by (rule asks_below_shape [OF sd assms(7,4)])
  ultimately obtain c1 where c1: "build_tlv_buffer_course parse ([] @ [''?'']) ?d =
      rbind (if do_hook = root then Inr c1 else build_mode_console_name (Some do_hook) c1) (\<lambda>c'. Inr (c', COMPLETE))"
    "shape c1 = shape ?d" "console_name c1 = console_name ?d" "token_arr c1 = token_arr ?d"
    using build_question [of ?d do_hook "[]" do_hook MODE_UNKNOWN "[]" parse] assms(7) by auto
  have sh: "shape c1 = shape c" using c1(2) sd by simp
  have d: "do_hook < length (params c1)" using assms(7) shape_length [OF sh] by simp
  have "typed (erase x) = typed x" for x by (simp add: typed_def erase_def split: cmd_union.split)
  then have "typed (params c1 ! do_hook)" "parent (params c1 ! do_hook) = None"
    using shape_eq_field [OF sh, of typed, OF _ d] shape_eq_field [OF sh, of parent, OF _ d] assms(5,6) by auto
  then have "build_mode_console_name (Some do_hook) c1 = Inl NullDeref"
    using assms(2,3) c1(3,4) d by (intro name_level_outside [of _ b]) (simp_all add: prompt_def)
  then show ?thesis
    using c1(1) assms(8)
    by (simp add: do_command_course_def get_cmd_tree_cursor_def set_cmd_tree_cursor_def)
qed

section \<open>Properties\<close>



text \<open>
  C19: a line that ends in a question mark. In both editions the last output of the line is the
  listing of what can follow: \<open><Enter>\<close> if the command may end here, then the children that are not
  hidden. The edition under \<^verbatim>\<open>Course\<close> also makes the parameter before the question mark the current
  level: the cursor is moved there, the prompt names it, and the values of the words stay in the
  buffer for the lines to come, as after entering a mode. In the current edition the same line
  leaves the cursor where it was and drops the values. The buffer is to have
  room for the units of the line.
\<close>

theorem question_enters_level:
  assumes "fits_tokens s" "words_of s = ws @ [''?'']" "ordinary c (words_of s)"
    and "length (token_arr c) = MAX_CMD_TREE_DEPTH" "cursor c = Some p" "ready c" "all_short c" "prompt c b"
    and "resolve c p MODE_UNKNOWN ws = Some (q, m, us)" "branch c q ps" "q \<noteq> root"
    and "\<forall>r\<in>set ps. named (params c ! r)" "length ps \<le> MAX_CMD_TREE_DEPTH" "asks_below c q"
  shows "(\<exists>c'. parse_body_course parse s c = Inr (c', COMPLETE, False) \<and> cursor c' = Some q \<and>
      console_name c' = b @ ''> '' @ level_name c' ps \<and>
      tlvs (tlv_buff c') = tlvs (tlv_buff c) @ us \<and> tlvs_marked (tlv_buff c') = tlvs (tlv_buff c) @ us \<and>
      (\<exists>o'. out c' = o' @ listed c q)) \<and>
    (\<exists>c'. parse_body parse s c = Inr (c', COMPLETE, False) \<and> cursor c' = Some p \<and>
      console_name c' = console_name c \<and>
      tlvs (tlv_buff c') = (if p = root then [] else tlvs_marked (tlv_buff c)) \<and>
      (\<exists>o'. out c' = o' @ listed c q))"
proof -
  have "q < length (params c)" using branch_in branch_last assms(10) by (metis last_in_set)
  then have "question_line c s ws p q us" using assms by (auto simp: question_line_def)
  then show ?thesis
    using question_line_course question_line_current assms(7,8,10-13) by blast
qed

text \<open>The tree of the witnesses, in the state its shell starts in.\<close>

lemma demo_asks: "asks_below demo 13" "asks_below demo do_hook"
proof -
  have "\<not> isl (sub_option_lines demo (drop 3 (options (params demo ! 13))))" by code_simp
  moreover have "\<not> isl (sub_option_lines demo (drop 3 (options (params demo ! do_hook))))" by code_simp
  moreover have "the_child demo 13 ''?'' = Some 11" "the_child demo do_hook ''?'' = Some 11" by code_simp+
  moreover have "disp_callback (params demo ! 13) = None" "disp_callback (params demo ! do_hook) = None"
    "params demo ! 11 = demo_cmd ''?'' (Some DisplaySubOptions) (replicate 16 None) None"
    by (simp_all add: demo_fields demo_params_def demo_cmd_def zero_param_def)
  ultimately show "asks_below demo 13" "asks_below demo do_hook"
    using not_isl_Inr demo_nth(1) by (simp_all add: asks_below_def demo_fields demo_cmd_def zero_param_def)
qed

lemma demo_level: "prompt demo ''dev''" "all_short demo"
  by (simp_all add: prompt_def plain_name_def isspace_def all_short_def short_value_def demo_fields
      demo_def before_main_def demo_params_def demo_cmd_def demo_leaf_def zero_param_def)

theorem question_enters_level_witness:
  "\<exists>c'. parse_body_course (parse_input_cmd 0) ''show node ?'' demo = Inr (c', COMPLETE, False) \<and>
    cursor c' = Some 13 \<and> (\<exists>o'. out c' = o' @ listed demo 13) \<and> length (listed demo 13) = 1"
proof -
  have w: "words_of ''show node ?'' = [''show'', ''node'', ''?'']" by code_simp
  have r: "resolve demo root MODE_UNKNOWN [''show'', ''node''] = Some (13, MODE_UNKNOWN, [])" by code_simp
  have b: "branch demo 13 [2, 13]" using demo_branch_node .
  have l: "length (listed demo 13) = 1" by code_simp
  have n: "\<forall>r\<in>set [2, 13]. named (params demo ! r)"
    by (simp add: demo_fields demo_nth demo_cmd_def named_def typed_def zero_param_def)
  show ?thesis
    using question_enters_level [of "''show node ?''" "[''show'', ''node'']" demo, OF _ _ _ demo_fields(3,2)
        demo_ready demo_level(2,1) r b _ n _ demo_asks(1)]
    by (simp add: fits_tokens_def w ordinary_def demo_fields abbreviates_def strncmp_eq_def has_prefix_def l) blast
qed

text \<open>
  C39: \<open>do ?\<close> in the configuration branch. The edition under \<^verbatim>\<open>Course\<close> makes the hook of the \<open>do\<close>
  commands the current level and builds the name of that level, but the hook has no parent: the
  shell follows a null pointer.
\<close>

theorem do_question_crashes:
  assumes "fits_tokens s" "words_of s = [''do'', ''?'']" "length (token_arr c) = MAX_CMD_TREE_DEPTH"
    and "cursor c = Some p" "p \<noteq> root" "branch c p ps" "hd ps = config" "ready c" "prompt c b"
    and "asks_below c do_hook" "do_hook < length (params c)" "typed (params c ! do_hook)"
    and "parent (params c ! do_hook) = None"
  shows "parse_body_course parse s c = Inl NullDeref"
proof -
  let ?c = "with_tokens s c"
  have tok: "length (token_arr ?c) = MAX_CMD_TREE_DEPTH" using assms(1,3) by (simp add: with_tokens_def fits_tokens_def)
  have sh: "shape ?c = shape c" by simp
  have "get_current_branch_hook ?c (cursor ?c) = Inr config"
    using get_current_branch_hook_hd [OF branch_shape [OF assms(6) sh [symmetric]] assms(5)] assms(4,7) by simp
  then have d: "do_command_course parse [''?''] ?c = Inl NullDeref"
    using assms(8-13) tok asks_below_shape [OF sh assms(11,10)]
    by (intro do_question_faults [of _ b]) (simp_all add: prompt_def)
  have "token_arr ?c = [''do'', ''?''] @ drop 2 (token_arr c)" by (simp add: with_tokens_def assms(2) numeral_2_eq_2)
  then have "select_command_course parse (token_arr ?c) (Suc (Suc 0)) ?c = Inl NullDeref"
    using d assms(4,5) by (simp add: select_command_course_def get_cmd_tree_cursor_def strncmp_eq_def)
  then show ?thesis
    using tokenize_words [OF assms(1,3)] assms(2) by (simp add: parse_body_course_def with_tokens_def)
qed

theorem do_question_crashes_witness:
  "parse_body_course (parse_input_cmd 0) ''do ?'' (demo\<lparr>cursor := Some config\<rparr>) = Inl NullDeref"
proof -
  let ?c = "demo\<lparr>cursor := Some config\<rparr>"
  have w: "words_of ''do ?'' = [''do'', ''?'']" by code_simp
  have sh: "shape ?c = shape demo" by (simp add: shape_def)
  have b: "branch ?c config [config]"
    by (rule branch.top) (simp_all add: demo_fields demo_params_def demo_cmd_def zero_param_def)
  show ?thesis
    by (rule do_question_crashes [OF _ w _ _ _ b, where b = "''dev''"])
      (use demo_ready demo_level asks_below_shape [OF sh _ demo_asks(2)] in
        \<open>simp_all add: fits_tokens_def w ready_def prompt_def demo_fields demo_nth(1) typed_def
          demo_params_def demo_cmd_def zero_param_def\<close>)
qed

end
