(* ===== verification/Spec2Isabelle.thy ===== *)
theory Spec2Isabelle
  imports BufferProps CliProps ShellProps WheelProps CourseProps CourseParserProps
begin

text \<open>
  A verification development for TCPServerLib: a library of TCP servers with services that accept
  and serve clients, the command line library it is operated with, and the timer library that is
  kept beside them.


  \<^bold>\<open>The program.\<close>

  A server (\<^verbatim>\<open>TcpServerController.cpp\<close>) owns three services: one accepts new connections
  (\<^verbatim>\<open>TcpNewConnectionAcceptor.cpp\<close>), one multiplexes clients over \<open>select\<close>
  (\<^verbatim>\<open>TcpClientServiceManager.cpp\<close>), and one is the table of all clients
  (\<^verbatim>\<open>TcpClientDbManager.cpp\<close>). A client (\<^verbatim>\<open>TcpClient.cpp\<close>) is served by the client service
  or by a thread of its own; its bytes go through a message demarcar (\<^verbatim>\<open>TcpMsgDemarcar.cpp\<close> and its
  two subclasses), which collects them in a ring buffer (\<^verbatim>\<open>ByteCircularBuffer.cpp\<close>) and cuts
  them into messages for the application. The services do not change the lists of the server
  themselves: they send messages to the controller, whose thread executes them one by one.

  The command line library (\<^verbatim>\<open>CommandParser/\<close>) holds a tree of parameters (\<^verbatim>\<open>cmd_hier.c\<close>). A line
  is cut into words (\<^verbatim>\<open>string_util.c\<close>), walked through the tree (\<^verbatim>\<open>parser.c\<close>), and the values of
  the leaves on the way are appended as fixed-size units (\<^verbatim>\<open>cmdtlv.h\<close>) to a serialisation buffer
  (\<^verbatim>\<open>serialize.c\<close>), which the callback of the last parameter reads together with a command
  code. The callbacks of the library itself are in \<^verbatim>\<open>clistd.c\<close>; scripts of test cases are
  run by \<^verbatim>\<open>ut/utinfra/ut_parser.c\<close>. \<^verbatim>\<open>TcpServerCli.cpp\<close> joins the two parts: it builds the trees of
  the server commands and calls the controller from their handlers.

  The timer library (\<^verbatim>\<open>libtimer/\<close>) is a wheel of events (\<^verbatim>\<open>WheelTimer.cpp\<close>) on intrusive pointer
  lists (\<^verbatim>\<open>gluethread/glthread.cpp\<close>), driven by a periodic timer of a wrapper around POSIX timers
  (\<^verbatim>\<open>timerlib.cpp\<close>).

  \<^verbatim>\<open>Course/\<close> holds an earlier edition of the server, without reference counts, message queue and
  client threads, with a program of its own (\<^verbatim>\<open>Course/testapp.cpp\<close>) and a copy of the command parser
  that differs in how it treats the question mark.


  \<^bold>\<open>Theories of definitions.\<close>

  \<^item> \<open>Prelude\<close>: results that may be a \<open>fault\<close>, loops that may not end, \<open>memcpy\<close>; \<open>CLib\<close>: the functions
    of the C library on strings that the command parser calls.
  \<^item> \<open>ByteBuffer\<close>: the ring buffer, record \<open>bcb\<close> with its 16-bit indices. \<open>Demarcar\<close>: record \<open>demarcar\<close>,
    the base class and both subclasses, with the loops that deliver messages.
  \<^item> \<open>SerBuf\<close>: record \<open>ser_buff\<close>, every function of \<^verbatim>\<open>serialize.c\<close>. \<open>CmdTlv\<close>: record \<open>tlv_struct\<close>, the
    units and the macros that read them. \<open>StrUtil\<close>: \<^verbatim>\<open>string_util.c\<close>.
  \<^item> \<open>CliState\<close>: record \<open>param\<close> and record \<open>cli\<close>, one field for each static variable of the command parser
    and for each part of the environment it reads and writes. \<open>CmdTree\<close> and \<open>CmdBoot\<close>: \<^verbatim>\<open>cmd_hier.c\<close>.
    \<open>CliStd\<close>: \<^verbatim>\<open>clistd.c\<close>. \<open>UtParser\<close>: \<^verbatim>\<open>ut_parser.c\<close>. \<open>Parser\<close>: \<^verbatim>\<open>parser.c\<close>.
  \<^item> \<open>NetUtils\<close>: \<^verbatim>\<open>network_utils.cpp\<close>. \<open>TcpState\<close>: records \<open>tcp_client\<close>, \<open>acceptor\<close>, \<open>svc_mgr\<close>,
    \<open>server\<close> and \<open>world\<close>; pointers are positions in the pools of the world, a freed object is
    \<open>None\<close>. \<open>TcpClientOps\<close>, \<open>TcpDb\<close>, \<open>TcpSvc\<close> (the acceptor and the client service), \<open>TcpSvcOld\<close> (the
    half of the client service that nothing calls any more), \<open>TcpCtrl\<close>, \<open>TcpServerCli\<close>: one theory per
    source file, each function a definition of its name.
  \<^item> \<open>Glthread\<close>: the pointer lists, on a store of nodes \<open>gstore\<close>. \<open>TimerLib\<close>: record \<open>timer\<close>.
    \<open>WheelTimer\<close>: records \<open>wt_elem\<close> and \<open>wheel\<close>.
  \<^item> \<open>Examples\<close>: the programs of the repository that build a command tree (\<^verbatim>\<open>CommandParser/main1.c\<close> to
    \<^verbatim>\<open>main4.c\<close>, \<^verbatim>\<open>CommandParser/testapp.c\<close>, \<^verbatim>\<open>testapp.cpp\<close>): a \<open>program\<close> boots the library, takes its steps
    of registration and comes to the prompt.
  \<^item> The edition under \<^verbatim>\<open>Course\<close>. \<open>CourseBuffer\<close>: its reading of the ring buffer and its demarcars;
    \<open>CourseState\<close>: records \<open>co_client\<close>, \<open>co_acceptor\<close>, \<open>co_svc\<close>, \<open>co_server\<close> and \<open>co_world\<close>, the client table
    and the client service; \<open>CourseCtrl\<close>: the acceptor and the controller; \<open>CourseCli\<close>: the program;
    \<open>CourseParser\<close>: its parser, where it is not that of \<^verbatim>\<open>CommandParser\<close>. A function that has the name
    of one of the current edition ends in \<open>_course\<close>; functions written alike are not repeated.


  \<^bold>\<open>Theories of lemmas.\<close>

  \<^item> \<open>BufferProps\<close>: the ring buffer is a bounded queue of bytes, demarcars cut a stream the same way
    however it is portioned, serialisation appends, values go through units and back, the tokenizer
    finds the words; and the inputs on which these fail. They rest on the locales \<open>byte_queue\<close>,
    \<open>demarcation\<close> and \<open>tlv_log\<close>, interpreted on the definitions of the code.
  \<^item> \<open>TreeFacts\<close>: selection of a child, the leaves of a branch, the way up. \<open>ParserFrame\<close>: the locale
    \<open>shell_invariant\<close>, what the primitive operations of the shell keep every command keeps; interpreted
    on the shape of the tree, the lengths of the values, the token array and the unit for command
    codes. \<open>ParserFacts\<close>: the walk of a line and its dispatch. \<open>CliProps\<close>: the properties.
  \<^item> \<open>TreeWf\<close>: the well-formedness of the command tree, kept by the registrations that make sense
    (\<open>sensible_op\<close>), negation and every command, and what a registration makes of it that does not.
    \<open>TreeBuild\<close>: the boot sequence as a computation on trees (\<open>builds\<close>), without the rest of the shell.
    \<open>ShellTree\<close>: the trees the programs build with it. \<open>ShellFacts\<close>: a server command from the prompt to its
    handler. \<open>ShellProps\<close>: the properties, which use the handler lemmas of \<open>TcpCliProps\<close>.
  \<^item> \<open>TcpRefs\<close>, \<open>TcpBalance\<close>, \<open>TcpSafety\<close>: reference counting. \<open>bal d\<close> is the invariant of the world,
    with the references \<open>d\<close> that the function under way holds of its own; every operation restores the
    balance. \<open>server_step\<close> is the relation of all atomic steps of all threads, \<open>server_run\<close> a run of
    them. It guards nothing the code does not test: messages and migrations may take a client out of
    lists that do not hold it, and \<open>covered\<close> says when the reference counter allows for it.
    \<open>TcpTables\<close>: the
    locale \<open>client_table\<close>, interpreted on the table and on the list of the client service.
    \<open>TcpProps\<close>: the properties.
  \<^item> \<open>GlthreadFacts\<close>: the operations on nodes implement lists (\<open>chain\<close>, and \<open>pools\<close> for several lists in
    one store), with the locale \<open>list_family\<close>. \<open>TimerFacts\<close>: the invariant of timers. \<open>WheelFacts\<close>: an
    \<open>agenda\<close> of events with due times, the relation \<open>represents\<close> between agendas and wheels, and the
    simulation of a tick. \<open>WheelProps\<close>: requests, registration and the clock.
  \<^item> \<open>CourseFacts\<close>, \<open>CourseInv\<close>: the invariant \<open>co_ok\<close> of the servers under \<^verbatim>\<open>Course\<close>, that the table, the
    list of the client service and the watched descriptors agree, and what each operation makes of a
    state that has it. The invariant rests on two bits of uninitialised memory (\<open>memory_bits_clear\<close>);
    a property shows what happens when one is set. \<open>CourseProps\<close>: the properties over \<open>co_step\<close>, the relation of all commands, accepted
    connections and rounds. \<open>CourseParserProps\<close>: its parser against the current one.


  \<^bold>\<open>Conventions, bounds and fuel.\<close>

  \<^item> A call that asserts, leaves an object, follows a null or freed pointer, divides by zero, reads
    an unterminated or indeterminate value, or never returns is a value of \<open>fault\<close>. A property that
    an operation returns is stated as a result \<open>Inr\<close>.
  \<^item> A loop that may not end is a \<^theory_text>\<open>partial_function (option)\<close>, read by \<open>run_loop\<close>: no
    result is the fault \<open>Diverges\<close>.
  \<^item> \<open>parse_input_cmd\<close> has fuel: the depth to which commands call the parser again (\<open>repeat\<close>, command
    files, test scripts). Running out stands for an exhausted stack. Where a property says that a line
    is executed, it holds for every fuel at least the depth it needs. Printing the tree has as fuel
    the number of parameters, more than any branch of it has.
  \<^item> Integers of fixed width that wrap in the code are words; an \<open>int\<close> of C that is only compared
    and counted is an integer. The size of a serialisation buffer is doubled, and the fault
    \<open>IntOverflow\<close> when the result is no \<open>int\<close>. A buffer of up to \<open>2 ^ 30\<close> bytes does not come to that; in
    units of 100 bytes the properties use the bound \<open>MAX_UNITS\<close> of ten million.
    Capacities of arrays are those of the code.


  \<^bold>\<open>Assumptions.\<close>

  \<^item> Every operation of the server is one atomic step of the thread that executes it. The locks of
    the code are not modelled beyond that. What the system answers (descriptors, received bytes,
    results of calls) is an argument of the operation, so the properties hold for all answers.
  \<^item> Callbacks of an application are recorded with their arguments, or are a parameter of the model
    that says which of the listed effects they have.
  \<^item> The files that commands open and what the callbacks of an application do (\<open>files\<close>, \<open>backend\<close>) are
    the environment of the shell and do not change; a test script writes its log to \<open>ut_log\<close>.
  \<^item> A message that was executed to its end is freed before the controller reads its member
    \<open>zero_sema\<close>; this is listed as a finding, and the model takes the value that was in it. Posting the
    semaphore is a fault when the thread that waits on it has ended, as its stack is gone then.


  \<^bold>\<open>Not modelled.\<close>

  \<^item> Output for debugging (\<open>BCBPrintSnapshot\<close>, \<open>print_wheel_timer\<close>, \<open>print_timer\<close>), terminal
    control, signals and the shell commands run with \<open>system\<close>.
  \<^item> \<^verbatim>\<open>tcp_client.cpp\<close>, \<^verbatim>\<open>tcp_client_arg.c\<close>, their copies under \<^verbatim>\<open>Course\<close> and the demonstrations of the
    timers (\<^verbatim>\<open>libtimer/WheelTimerDemo.c\<close>, \<^verbatim>\<open>libtimer/timerExample.c\<close>,
    \<^verbatim>\<open>libtimer/timerlib_test.c\<close>), which are sequences of system calls and
    prints, and build files.
  \<^item> The files of \<^verbatim>\<open>Course/CommandParser\<close> other than \<^verbatim>\<open>parser.c\<close> and \<^verbatim>\<open>cmdtlv.h\<close>: they are the files of
    \<^verbatim>\<open>CommandParser\<close>, but for signal handlers that are not installed and the names of the device and of
    the mode character.
\<close>

end
